(* ===== verification/Errors.thy ===== *)
theory Errors
  imports Prelude
begin

text \<open>
  The sentinel errors of \<open>src/utils/errors.go\<close> and the responses of \<open>src/utils/response.go\<close>.

  An error value is a sentinel variable, an error wrapped with \<open>fmt.Errorf("%w: ...")\<close>, or an
  error of another package, of which only the text is known. \<open>errors_is\<close> is \<open>errors.Is\<close> of
  the standard library on these values: it follows the chain of wrapped errors.
\<close>

section \<open>Sentinel errors\<close>

text \<open>One enumeration per group of the file; the abbreviations carry the names of the variables.\<close>

datatype generic_error =
    Antimony
  | Provider
  | DatabaseError
  | FileStorage
  | OpenIDError

datatype not_found_error =
    UuidNotFound
  | NodeNotFound
  | ShellNotFound

datatype input_error =
    LabRunning
  | LabNameExists
  | InvalidLabName
  | TopologyNameExists
  | InvalidTopologyName
  | UnsafeTopology
  | BindFileExists
  | CollectionExists
  | InvalidTopology
  | InvalidBindFilePath

datatype permission_error =
    AdminAuthDisabledError
  | OpenIDAuthDisabledError
  | DesktopAuthDisabledError
  | InvalidCredentials
  | DesktopTokenInvalid
  | AccessTokenInvalid
  | Unauthorized
  | Forbidden
  | NoAccessToLab
  | NoAccessToTopology
  | NoWriteAccessToLab
  | NoWriteAccessToTopology
  | NoWriteAccessToBindFile
  | NoWriteAccessToCollection
  | NoDeployAccessToLab
  | NoDestroyAccessToLab
  | NoDeployAccessToCollection
  | NoPermissionToCreateCollections

datatype socket_error =
    LabNotFound
  | LabNotRunning
  | ShellLimitReached
  | NodeNotRunning
  | LabOperationInProgress
  | InvalidNodeOperation
  | InvalidRuntimeCommand
  | NoAccessToShell
  | InvalidSocketRequest

datatype sentinel =
    Generic generic_error
  | NotFound not_found_error
  | Input input_error
  | Permission permission_error
  | SocketOnly socket_error

abbreviation ErrAntimony :: sentinel where "ErrAntimony \<equiv> Generic Antimony"
abbreviation ErrProvider :: sentinel where "ErrProvider \<equiv> Generic Provider"
abbreviation ErrDatabaseError :: sentinel where "ErrDatabaseError \<equiv> Generic DatabaseError"
abbreviation ErrFileStorage :: sentinel where "ErrFileStorage \<equiv> Generic FileStorage"
abbreviation ErrOpenIDError :: sentinel where "ErrOpenIDError \<equiv> Generic OpenIDError"

abbreviation ErrUuidNotFound :: sentinel where "ErrUuidNotFound \<equiv> NotFound UuidNotFound"
abbreviation ErrNodeNotFound :: sentinel where "ErrNodeNotFound \<equiv> NotFound NodeNotFound"
abbreviation ErrShellNotFound :: sentinel where "ErrShellNotFound \<equiv> NotFound ShellNotFound"

abbreviation ErrLabRunning :: sentinel where "ErrLabRunning \<equiv> Input LabRunning"
abbreviation ErrLabNameExists :: sentinel where "ErrLabNameExists \<equiv> Input LabNameExists"
abbreviation ErrInvalidLabName :: sentinel where "ErrInvalidLabName \<equiv> Input InvalidLabName"
abbreviation ErrTopologyNameExists :: sentinel where "ErrTopologyNameExists \<equiv> Input TopologyNameExists"
abbreviation ErrInvalidTopologyName :: sentinel where "ErrInvalidTopologyName \<equiv> Input InvalidTopologyName"
abbreviation ErrUnsafeTopology :: sentinel where "ErrUnsafeTopology \<equiv> Input UnsafeTopology"
abbreviation ErrBindFileExists :: sentinel where "ErrBindFileExists \<equiv> Input BindFileExists"
abbreviation ErrCollectionExists :: sentinel where "ErrCollectionExists \<equiv> Input CollectionExists"
abbreviation ErrInvalidTopology :: sentinel where "ErrInvalidTopology \<equiv> Input InvalidTopology"
abbreviation ErrInvalidBindFilePath :: sentinel where "ErrInvalidBindFilePath \<equiv> Input InvalidBindFilePath"

abbreviation ErrAdminAuthDisabledError :: sentinel where "ErrAdminAuthDisabledError \<equiv> Permission AdminAuthDisabledError"
abbreviation ErrOpenIDAuthDisabledError :: sentinel where "ErrOpenIDAuthDisabledError \<equiv> Permission OpenIDAuthDisabledError"
abbreviation ErrDesktopAuthDisabledError :: sentinel where "ErrDesktopAuthDisabledError \<equiv> Permission DesktopAuthDisabledError"
abbreviation ErrInvalidCredentials :: sentinel where "ErrInvalidCredentials \<equiv> Permission InvalidCredentials"
abbreviation ErrDesktopTokenInvalid :: sentinel where "ErrDesktopTokenInvalid \<equiv> Permission DesktopTokenInvalid"
abbreviation ErrAccessTokenInvalid :: sentinel where "ErrAccessTokenInvalid \<equiv> Permission AccessTokenInvalid"
abbreviation ErrUnauthorized :: sentinel where "ErrUnauthorized \<equiv> Permission Unauthorized"
abbreviation ErrForbidden :: sentinel where "ErrForbidden \<equiv> Permission Forbidden"
abbreviation ErrNoAccessToLab :: sentinel where "ErrNoAccessToLab \<equiv> Permission NoAccessToLab"
abbreviation ErrNoAccessToTopology :: sentinel where "ErrNoAccessToTopology \<equiv> Permission NoAccessToTopology"
abbreviation ErrNoWriteAccessToLab :: sentinel where "ErrNoWriteAccessToLab \<equiv> Permission NoWriteAccessToLab"
abbreviation ErrNoWriteAccessToTopology :: sentinel where "ErrNoWriteAccessToTopology \<equiv> Permission NoWriteAccessToTopology"
abbreviation ErrNoWriteAccessToBindFile :: sentinel where "ErrNoWriteAccessToBindFile \<equiv> Permission NoWriteAccessToBindFile"
abbreviation ErrNoWriteAccessToCollection :: sentinel where "ErrNoWriteAccessToCollection \<equiv> Permission NoWriteAccessToCollection"
abbreviation ErrNoDeployAccessToLab :: sentinel where "ErrNoDeployAccessToLab \<equiv> Permission NoDeployAccessToLab"
abbreviation ErrNoDestroyAccessToLab :: sentinel where "ErrNoDestroyAccessToLab \<equiv> Permission NoDestroyAccessToLab"
abbreviation ErrNoDeployAccessToCollection :: sentinel where "ErrNoDeployAccessToCollection \<equiv> Permission NoDeployAccessToCollection"
abbreviation ErrNoPermissionToCreateCollections :: sentinel where "ErrNoPermissionToCreateCollections \<equiv> Permission NoPermissionToCreateCollections"

abbreviation ErrLabNotFound :: sentinel where "ErrLabNotFound \<equiv> SocketOnly LabNotFound"
abbreviation ErrLabNotRunning :: sentinel where "ErrLabNotRunning \<equiv> SocketOnly LabNotRunning"
abbreviation ErrShellLimitReached :: sentinel where "ErrShellLimitReached \<equiv> SocketOnly ShellLimitReached"
abbreviation ErrNodeNotRunning :: sentinel where "ErrNodeNotRunning \<equiv> SocketOnly NodeNotRunning"
abbreviation ErrLabOperationInProgress :: sentinel where "ErrLabOperationInProgress \<equiv> SocketOnly LabOperationInProgress"
abbreviation ErrInvalidNodeOperation :: sentinel where "ErrInvalidNodeOperation \<equiv> SocketOnly InvalidNodeOperation"
abbreviation ErrInvalidRuntimeCommand :: sentinel where "ErrInvalidRuntimeCommand \<equiv> SocketOnly InvalidRuntimeCommand"
abbreviation ErrNoAccessToShell :: sentinel where "ErrNoAccessToShell \<equiv> SocketOnly NoAccessToShell"
abbreviation ErrInvalidSocketRequest :: sentinel where "ErrInvalidSocketRequest \<equiv> SocketOnly InvalidSocketRequest"

fun generic_error_text :: "generic_error \<Rightarrow> string" where
  "generic_error_text Antimony = ''the antimony server encountered an error. please check the logs''"
| "generic_error_text Provider = ''the provider subprocess encountered an error''"
| "generic_error_text DatabaseError = ''the antimony database encountered an error. please check the logs''"
| "generic_error_text FileStorage = ''the antimony storage service encountered an error. please check the logs''"
| "generic_error_text OpenIDError = ''failed to authenticate via openid connect''"

fun not_found_error_text :: "not_found_error \<Rightarrow> string" where
  "not_found_error_text UuidNotFound = ''the specified uuid was not found''"
| "not_found_error_text NodeNotFound = ''the specified node was not found''"
| "not_found_error_text ShellNotFound = ''the provided shell id does not exist''"

fun input_error_text :: "input_error \<Rightarrow> string" where
  "input_error_text LabRunning = ''the lab is still running''"
| "input_error_text LabNameExists = ''a lab with that name already exists in that collection''"
| "input_error_text InvalidLabName = ''the name of the lab is invalid''"
| "input_error_text TopologyNameExists = ''a topology with that name already exists in that collection''"
| "input_error_text InvalidTopologyName = ''the name for the topology is invalid''"
| "input_error_text UnsafeTopology = ''the topology contains unsafe features that the server rejected''"
| "input_error_text BindFileExists = ''a file with that path already exists for that topology''"
| "input_error_text CollectionExists = ''a collection with that name already exists''"
| "input_error_text InvalidTopology = ''the topology provided was invalid''"
| "input_error_text InvalidBindFilePath = ''the provided bind file path was invalid''"

fun permission_error_text :: "permission_error \<Rightarrow> string" where
  "permission_error_text AdminAuthDisabledError = ''authentication via admin login is disabled''"
| "permission_error_text OpenIDAuthDisabledError = ''authentication via openid is disabled''"
| "permission_error_text DesktopAuthDisabledError = ''authentication via desktop token is disabled''"
| "permission_error_text InvalidCredentials = ''the provided native credentials were invalid''"
| "permission_error_text DesktopTokenInvalid = ''the provided desktop token was invalid''"
| "permission_error_text AccessTokenInvalid = ''the provided access token was invalid''"
| "permission_error_text Unauthorized = ''the request was unauthorized''"
| "permission_error_text Forbidden = ''access to the requested resource is forbidden''"
| "permission_error_text NoAccessToLab = ''access to the provided lab is not granted''"
| "permission_error_text NoAccessToTopology = ''access to the provided topology is not granted''"
| "permission_error_text NoWriteAccessToLab = ''write access to the provided lab is not granted''"
| "permission_error_text NoWriteAccessToTopology = ''write access to the provided topology is not granted''"
| "permission_error_text NoWriteAccessToBindFile = ''write access to the provided file is not granted''"
| "permission_error_text NoWriteAccessToCollection = ''write access to the provided collection is not granted''"
| "permission_error_text NoDeployAccessToLab = ''deploy access to the provided lab is not granted''"
| "permission_error_text NoDestroyAccessToLab = ''destroy access to the provided lab is not granted''"
| "permission_error_text NoDeployAccessToCollection = ''deploy access to the provided collection is not granted''"
| "permission_error_text NoPermissionToCreateCollections = ''permission to create collections is not granted''"

fun socket_error_text :: "socket_error \<Rightarrow> string" where
  "socket_error_text LabNotFound = ''the specified lab has not been found''"
| "socket_error_text LabNotRunning = ''the specified lab is not running''"
| "socket_error_text ShellLimitReached = ''user shell limit reached''"
| "socket_error_text NodeNotRunning = ''the specified node is not running''"
| "socket_error_text LabOperationInProgress = ''lab is busy, try again once the current operation has finished''"
| "socket_error_text InvalidNodeOperation = ''the provided node operation was not allowed''"
| "socket_error_text InvalidRuntimeCommand = ''the provided runtime command was invalid''"
| "socket_error_text NoAccessToShell = ''access to the provided shell is not granted''"
| "socket_error_text InvalidSocketRequest = ''the socket request was invalid''"

fun sentinel_text :: "sentinel \<Rightarrow> string" where
  "sentinel_text (Generic e) = generic_error_text e"
| "sentinel_text (NotFound e) = not_found_error_text e"
| "sentinel_text (Input e) = input_error_text e"
| "sentinel_text (Permission e) = permission_error_text e"
| "sentinel_text (SocketOnly e) = socket_error_text e"

datatype go_error =
    Sentinel sentinel
  | Wrap go_error string      \<comment> \<open>\<open>fmt.Errorf("%w: text", err)\<close>\<close>
  | Prefixed string go_error  \<comment> \<open>\<open>fmt.Errorf("text: %w", err)\<close>\<close>
  | Foreign string            \<comment> \<open>an error of another package\<close>

type_synonym 'a result = "go_error + 'a"

definition ErrCaptureNotSupported :: go_error where
  "ErrCaptureNotSupported =
     Wrap (Sentinel ErrProvider) ''packet capture is not supported by this provider''"

text \<open>\<open>err.Error()\<close>.\<close>

fun error_text :: "go_error \<Rightarrow> string" where
  "error_text (Sentinel s) = sentinel_text s"
| "error_text (Wrap e t) = error_text e @ '': '' @ t"
| "error_text (Prefixed t e) = t @ '': '' @ error_text e"
| "error_text (Foreign t) = t"

text \<open>\<open>errors.Is(err, target)\<close> for a sentinel target.\<close>

fun errors_is :: "go_error \<Rightarrow> sentinel \<Rightarrow> bool" where
  "errors_is (Sentinel s) t = (s = t)"
| "errors_is (Wrap e _) t = errors_is e t"
| "errors_is (Prefixed _ e) t = errors_is e t"
| "errors_is (Foreign _) t = False"

text \<open>The sentinel at the end of the chain of an error, if there is one.\<close>

fun root_sentinel :: "go_error \<Rightarrow> sentinel option" where
  "root_sentinel (Sentinel s) = Some s"
| "root_sentinel (Wrap e _) = root_sentinel e"
| "root_sentinel (Prefixed _ e) = root_sentinel e"
| "root_sentinel (Foreign _) = None"

lemma errors_is_iff_root: "errors_is e t \<longleftrightarrow> root_sentinel e = Some t"
  by (induction e) auto

section \<open>HTTP and socket responses\<close>

record error_response =
  er_Code :: int
  er_Message :: string

datatype 'a ok_response = OkResponse 'a

definition CreateOkResponse :: "'a \<Rightarrow> int \<times> 'a ok_response" where
  "CreateOkResponse obj = (200, OkResponse obj)"

definition error_response :: "int \<Rightarrow> go_error \<Rightarrow> error_response" where
  "error_response code err = \<lparr>er_Code = code, er_Message = error_text err\<rparr>"

text \<open>The cases of the switch, in the order of the code; the first one that applies is taken.\<close>

definition http_error_cases :: "(sentinel list \<times> int \<times> int) list" where
  "http_error_cases =
    [([ErrUuidNotFound], 404, -1),
     ([ErrInvalidCredentials], 400, 1001),
     ([ErrCollectionExists], 400, 2001),
     ([ErrTopologyNameExists], 400, 3001),
     ([ErrInvalidTopology], 400, 3003),
     ([ErrInvalidTopologyName], 400, 3004),
     ([ErrUnsafeTopology], 400, 3005),
     ([ErrBindFileExists], 400, 4001),
     ([ErrInvalidBindFilePath], 400, 4002),
     ([ErrLabRunning], 400, 4003),
     ([ErrLabNameExists], 400, 5001),
     ([ErrInvalidLabName], 400, 5002),
     ([ErrDatabaseError], 500, 500),
     ([ErrUnauthorized, ErrAdminAuthDisabledError, ErrOpenIDAuthDisabledError,
       ErrDesktopAuthDisabledError], 401, 401),
     ([ErrAccessTokenInvalid], 498, 498),
     ([ErrForbidden, ErrDesktopTokenInvalid, ErrNoAccessToLab, ErrNoAccessToTopology,
       ErrNoWriteAccessToLab, ErrNoWriteAccessToBindFile, ErrNoWriteAccessToTopology,
       ErrNoWriteAccessToCollection, ErrNoDeployAccessToCollection, ErrNoDeployAccessToLab,
       ErrNoPermissionToCreateCollections], 403, 403)]"

definition CreateErrorResponse :: "go_error \<Rightarrow> int \<times> error_response" where
  "CreateErrorResponse err =
     (case List.find (\<lambda>(targets, _). \<exists>t \<in> set targets. errors_is err t) http_error_cases of
        Some (_, status, code) \<Rightarrow> (status, error_response code err)
      | None \<Rightarrow> (500, error_response (-1) err))"

definition CreateValidationError :: "go_error \<Rightarrow> int \<times> error_response" where
  "CreateValidationError err = (422, error_response 422 err)"

definition socket_error_cases :: "(sentinel list \<times> int) list" where
  "socket_error_cases =
    [([ErrAntimony], 5000),
     ([ErrInvalidRuntimeCommand], 5400),
     ([ErrInvalidSocketRequest], 5422),
     ([ErrUuidNotFound], 5404),
     ([ErrProvider], 5500),
     ([ErrLabNotFound], 5011),
     ([ErrLabNotRunning], 5012),
     ([ErrLabOperationInProgress], 5013),
     ([ErrNodeNotFound], 5021),
     ([ErrNodeNotRunning], 5022),
     ([ErrInvalidNodeOperation], 5023),
     ([ErrShellNotFound], 5031),
     ([ErrShellLimitReached], 5032),
     ([ErrNoDestroyAccessToLab, ErrNoDeployAccessToLab, ErrNoAccessToShell, ErrNoAccessToLab,
       ErrNoAccessToTopology], 5403)]"

definition CreateSocketErrorResponse :: "go_error \<Rightarrow> error_response" where
  "CreateSocketErrorResponse err =
     (case List.find (\<lambda>(targets, _). \<exists>t \<in> set targets. errors_is err t) socket_error_cases of
        Some (_, code) \<Rightarrow> error_response code err
      | None \<Rightarrow> error_response 5000 err)"

definition CreateSocketOkResponse :: "'a \<Rightarrow> 'a ok_response" where
  "CreateSocketOkResponse obj = OkResponse obj"

section \<open>Facts about the responses\<close>

text \<open>
  The code of a response depends on the sentinel at the end of the chain only, so adding text to
  an error never changes what the client is told to do.
\<close>

lemma find_cases_root:
  "root_sentinel e = root_sentinel e' \<Longrightarrow>
   List.find (\<lambda>(targets, _). \<exists>t \<in> set targets. errors_is e t) cs
     = List.find (\<lambda>(targets, _). \<exists>t \<in> set targets. errors_is e' t) cs"
  by (simp add: errors_is_iff_root)

lemma http_code_root:
  assumes "root_sentinel e = root_sentinel e'"
  shows "fst (CreateErrorResponse e) = fst (CreateErrorResponse e')"
    and "er_Code (snd (CreateErrorResponse e)) = er_Code (snd (CreateErrorResponse e'))"
  using find_cases_root [OF assms, of http_error_cases]
  by (auto simp: CreateErrorResponse_def error_response_def split: option.splits)

lemma socket_code_root:
  assumes "root_sentinel e = root_sentinel e'"
  shows "er_Code (CreateSocketErrorResponse e) = er_Code (CreateSocketErrorResponse e')"
  using find_cases_root [OF assms, of socket_error_cases]
  by (auto simp: CreateSocketErrorResponse_def error_response_def split: option.splits)

text \<open>The sentinels that deny a request that was authenticated, in the code's order.\<close>

definition access_errors :: "sentinel list" where
  "access_errors =
    [ErrForbidden, ErrDesktopTokenInvalid, ErrNoAccessToLab, ErrNoAccessToTopology,
     ErrNoWriteAccessToLab, ErrNoWriteAccessToBindFile, ErrNoWriteAccessToTopology,
     ErrNoWriteAccessToCollection, ErrNoDeployAccessToCollection, ErrNoDeployAccessToLab,
     ErrNoPermissionToCreateCollections]"

lemma http_status_sentinel:
  "fst (CreateErrorResponse (Sentinel s)) = 403 \<longleftrightarrow> s \<in> set access_errors"
  by (cases s)
    (simp_all add: CreateErrorResponse_def http_error_cases_def access_errors_def)

lemma http_status_foreign [simp]: "fst (CreateErrorResponse (Foreign t)) = 500"
  by (simp add: CreateErrorResponse_def http_error_cases_def)

lemma root_sentinel_Sentinel_or_Foreign:
  "(\<exists>s. root_sentinel e = root_sentinel (Sentinel s)) \<or> root_sentinel e = root_sentinel (Foreign [])"
  by (cases "root_sentinel e") auto

lemma forbidden_iff_access_error:
  "fst (CreateErrorResponse e) = 403 \<longleftrightarrow> (\<exists>s \<in> set access_errors. errors_is e s)"
proof (cases "root_sentinel e")
  case None
  then have "fst (CreateErrorResponse e) = fst (CreateErrorResponse (Foreign []))"
    by (intro http_code_root) simp
  with None show ?thesis by (simp add: errors_is_iff_root)
next
  case (Some s)
  then have "fst (CreateErrorResponse e) = fst (CreateErrorResponse (Sentinel s))"
    by (intro http_code_root) simp
  with Some show ?thesis by (simp add: errors_is_iff_root http_status_sentinel)
qed

text \<open>No error is ever answered with a success status.\<close>

lemma http_error_status: "fst (CreateErrorResponse e) \<in> {400, 401, 403, 404, 498, 500}"
proof -
  have "fst (CreateErrorResponse (Sentinel s)) \<in> {400, 401, 403, 404, 498, 500}" for s
    by (cases s)
      (simp_all add: CreateErrorResponse_def http_error_cases_def)
  then show ?thesis
    using root_sentinel_Sentinel_or_Foreign [of e] http_code_root(1) [of e]
    by (metis http_status_foreign insertCI)
qed

text \<open>An HTTP request is answered with status 403 exactly when the error is, or wraps, one of the
  access errors, so a wrapped text never turns a denial into another status; and no error at all is
  answered with a status other than 400, 401, 403, 404, 498 and 500.\<close>

theorem http_forbidden_iff_access_error:
  "(fst (CreateErrorResponse e) = 403 \<longleftrightarrow> (\<exists>s \<in> set access_errors. errors_is e s))
   \<and> fst (CreateErrorResponse e) \<in> {400, 401, 403, 404, 498, 500}"
  using forbidden_iff_access_error http_error_status by blast

end
