(* ===== verification/Ring.thy ===== *)
theory Ring
  imports Prelude
begin

text \<open>
  The ring buffers of \<open>src/utils/ring.go\<close>: \<open>ValueRing\<close>, a circular array that keeps the most recent
  items, and \<open>ByteRing\<close>, a byte buffer that keeps the most recent lines. Both implement the Go
  interface \<open>Ring\<close>, whose contract is the locale \<open>ring\<close>; each is shown to satisfy it. The client
  lemmas (what a reader of the buffer sees after any history of additions) are proved in the locale.

  Go's \<open>int\<close> indices are natural numbers here: every index the code computes is below twice the
  capacity, which is the length of an allocated slice.
\<close>

section \<open>The interface\<close>

text \<open>
  \<open>keep n xs\<close> is what a ring of capacity \<open>n\<close> retains of the history \<open>xs\<close>.
\<close>

locale ring =
  fixes add :: "'a \<Rightarrow> 'r \<Rightarrow> 'r"
    and add_many :: "'a list \<Rightarrow> 'r \<Rightarrow> 'r"
    and items :: "'r \<Rightarrow> 'a list"
    and clear :: "'r \<Rightarrow> 'r"
    and len :: "'r \<Rightarrow> nat"
    and cap :: "'r \<Rightarrow> nat"
    and invar :: "'r \<Rightarrow> bool"
    and keep :: "nat \<Rightarrow> 'a list \<Rightarrow> 'a list"
  assumes keep_keep: "keep n (keep n xs @ ys) = keep n (xs @ ys)"
    and items_kept: "invar r \<Longrightarrow> keep (cap r) (items r) = items r"
    and items_add: "invar r \<Longrightarrow> items (add x r) = keep (cap r) (items r @ [x])"
    and items_add_many: "invar r \<Longrightarrow> items (add_many xs r) = keep (cap r) (items r @ xs)"
    and items_clear: "invar r \<Longrightarrow> items (clear r) = []"
    and len_items: "invar r \<Longrightarrow> len r = length (items r)"
    and cap_add: "invar r \<Longrightarrow> cap (add x r) = cap r"
    and cap_add_many: "invar r \<Longrightarrow> cap (add_many xs r) = cap r"
    and cap_clear: "invar r \<Longrightarrow> cap (clear r) = cap r"
    and invar_add: "invar r \<Longrightarrow> invar (add x r)"
    and invar_add_many: "invar r \<Longrightarrow> invar (add_many xs r)"
    and invar_clear: "invar r \<Longrightarrow> invar (clear r)"
begin

lemmas ring_laws [simp] =
  items_clear cap_add cap_add_many cap_clear invar_add invar_add_many invar_clear

lemma history_step:
  "invar r \<Longrightarrow> items r = keep (cap r) h \<Longrightarrow> items (add_many xs r) = keep (cap r) (h @ xs)"
  by (simp add: items_add_many keep_keep)

text \<open>A batch is the same as its items one by one.\<close>

lemma fold_add:
  "invar r \<Longrightarrow> items (fold add xs r) = keep (cap r) (items r @ xs) \<and> cap (fold add xs r) = cap r
     \<and> invar (fold add xs r)"
proof (induction xs arbitrary: r)
  case Nil
  then show ?case by (simp add: items_kept)
next
  case (Cons x xs)
  then show ?case by (simp add: items_add keep_keep)
qed

lemma add_many_eq_fold: "invar r \<Longrightarrow> items (add_many xs r) = items (fold add xs r)"
  by (simp add: fold_add items_add_many)

text \<open>After any sequence of batches, the reader sees what the capacity allows of the whole history.\<close>

lemma fold_add_many:
  "invar r \<Longrightarrow> items (fold add_many xss r) = keep (cap r) (items r @ concat xss)
     \<and> cap (fold add_many xss r) = cap r \<and> invar (fold add_many xss r)"
proof (induction xss arbitrary: r)
  case Nil
  then show ?case by (simp add: items_kept)
next
  case (Cons xs xss)
  have "items (fold add_many (xs # xss) r) = keep (cap r) (keep (cap r) (items r @ xs) @ concat xss)"
    using Cons by (simp add: items_add_many)
  with Cons show ?case by (simp add: keep_keep)
qed

lemma history_after_clear:
  "invar r \<Longrightarrow> items (fold add_many xss (clear r)) = keep (cap r) (concat xss)"
  by (simp add: fold_add_many)

end

section \<open>Rings of values\<close>

record 'a value_ring =
  vr_buf :: "'a list"
  vr_head :: nat
  vr_size :: nat

text \<open>\<open>zero\<close> is the zero value of the element type, which \<open>make\<close> fills a slice with.\<close>

definition CreateValueRing :: "'a \<Rightarrow> int \<Rightarrow> 'a value_ring" where
  "CreateValueRing zero capacity =
     (let capacity = (if capacity < 0 then 0 else capacity)
      in \<lparr>vr_buf = replicate (nat capacity) zero, vr_head = 0, vr_size = 0\<rparr>)"

definition ValueRing_Add :: "'a \<Rightarrow> 'a value_ring \<Rightarrow> 'a value_ring" where
  "ValueRing_Add item r =
     (let n = length (vr_buf r) in
      if n = 0 then r
      else if vr_size r < n
      then r\<lparr>vr_buf := (vr_buf r)[(vr_head r + vr_size r) mod n := item], vr_size := vr_size r + 1\<rparr>
      else r\<lparr>vr_buf := (vr_buf r)[vr_head r := item], vr_head := (vr_head r + 1) mod n\<rparr>)"

definition ValueRing_AddMany :: "'a list \<Rightarrow> 'a value_ring \<Rightarrow> 'a value_ring" where
  "ValueRing_AddMany items r = fold ValueRing_Add items r"

definition ValueRing_Items :: "'a value_ring \<Rightarrow> 'a list" where
  "ValueRing_Items r =
     map (\<lambda>i. vr_buf r ! ((vr_head r + i) mod length (vr_buf r))) [0..<vr_size r]"

definition ValueRing_Clear :: "'a \<Rightarrow> 'a value_ring \<Rightarrow> 'a value_ring" where
  "ValueRing_Clear zero r =
     r\<lparr>vr_buf := replicate (length (vr_buf r)) zero, vr_head := 0, vr_size := 0\<rparr>"

definition ValueRing_Len :: "'a value_ring \<Rightarrow> nat" where
  "ValueRing_Len r = vr_size r"

definition value_ring_inv :: "'a value_ring \<Rightarrow> bool" where
  "value_ring_inv r \<longleftrightarrow>
     vr_size r \<le> length (vr_buf r) \<and> (vr_buf r = [] \<or> vr_head r < length (vr_buf r))"

abbreviation value_ring_cap :: "'a value_ring \<Rightarrow> nat" where
  "value_ring_cap r \<equiv> length (vr_buf r)"

lemma value_ring_inv_create: "value_ring_inv (CreateValueRing z c)"
  by (auto simp: value_ring_inv_def CreateValueRing_def Let_def)

lemma value_ring_inv_add: "value_ring_inv r \<Longrightarrow> value_ring_inv (ValueRing_Add x r)"
  by (auto simp: value_ring_inv_def ValueRing_Add_def Let_def)

lemma value_ring_cap_add [simp]: "value_ring_cap (ValueRing_Add x r) = value_ring_cap r"
  by (simp add: ValueRing_Add_def Let_def)

text \<open>The position of an offset on the circle.\<close>

lemma wrap_index:
  fixes h i n :: nat
  assumes "h < n" and "i < n"
  shows "(h + i) mod n = (if h + i < n then h + i else h + i - n)"
  using assms by (simp add: mod_if)

lemma length_ValueRing_Items [simp]: "length (ValueRing_Items r) = vr_size r"
  by (simp add: ValueRing_Items_def)

lemma nth_ValueRing_Items:
  "i < vr_size r \<Longrightarrow>
   ValueRing_Items r ! i = vr_buf r ! ((vr_head r + i) mod length (vr_buf r))"
  by (simp add: ValueRing_Items_def)

lemma ValueRing_Items_add_room:
  assumes inv: "value_ring_inv r" and room: "vr_size r < value_ring_cap r"
  shows "ValueRing_Items (ValueRing_Add x r) = ValueRing_Items r @ [x]"
proof (rule nth_equalityI)
  show len: "length (ValueRing_Items (ValueRing_Add x r)) = length (ValueRing_Items r @ [x])"
    using room by (auto simp: ValueRing_Add_def Let_def)
  fix i assume "i < length (ValueRing_Items (ValueRing_Add x r))"
  then have i: "i \<le> vr_size r"
    using len by simp
  have h: "vr_head r < value_ring_cap r"
    using inv room by (auto simp: value_ring_inv_def)
  show "ValueRing_Items (ValueRing_Add x r) ! i = (ValueRing_Items r @ [x]) ! i"
    using i h room
    by (cases "i = vr_size r")
      (auto simp: nth_ValueRing_Items ValueRing_Add_def Let_def nth_append wrap_index
        nth_list_update)
qed

lemma ValueRing_Items_add_full:
  assumes inv: "value_ring_inv r" and full: "vr_size r = value_ring_cap r" and pos: "vr_buf r \<noteq> []"
  shows "ValueRing_Items (ValueRing_Add x r) = tl (ValueRing_Items r) @ [x]"
proof (rule nth_equalityI)
  let ?n = "value_ring_cap r" and ?h = "vr_head r"
  have n: "0 < ?n" and h: "?h < ?n"
    using inv pos by (auto simp: value_ring_inv_def)
  show "length (ValueRing_Items (ValueRing_Add x r)) = length (tl (ValueRing_Items r) @ [x])"
    using n full by (auto simp: ValueRing_Add_def Let_def)
  fix i assume "i < length (ValueRing_Items (ValueRing_Add x r))"
  then have i: "i < ?n"
    using full n by (auto simp: ValueRing_Add_def Let_def split: if_splits)
  have idx: "((?h + 1) mod ?n + i) mod ?n = (?h + Suc i) mod ?n"
    by (simp add: mod_simps)
  have "ValueRing_Items (ValueRing_Add x r) ! i = (vr_buf r)[?h := x] ! ((?h + Suc i) mod ?n)"
    using i full n idx by (simp add: nth_ValueRing_Items ValueRing_Add_def Let_def)
  also have "\<dots> = (tl (ValueRing_Items r) @ [x]) ! i"
  proof (cases "Suc i = ?n")
    case True
    then have "i = length (tl (ValueRing_Items r))"
      using full by simp
    with True h show ?thesis by (simp only: nth_append_length) simp
  next
    case False
    then have "(?h + Suc i) mod ?n \<noteq> ?h"
      using i h False wrap_index [of ?h ?n "Suc i"] by (auto split: if_splits)
    with False i full show ?thesis
      by (auto simp: nth_append nth_tl nth_ValueRing_Items)
  qed
  finally show "ValueRing_Items (ValueRing_Add x r) ! i = (tl (ValueRing_Items r) @ [x]) ! i" .
qed

lemma ValueRing_Items_add:
  assumes inv: "value_ring_inv r"
  shows "ValueRing_Items (ValueRing_Add x r) = take_last (value_ring_cap r) (ValueRing_Items r @ [x])"
proof (cases "vr_buf r = []")
  case True
  then show ?thesis
    using inv by (simp add: ValueRing_Add_def Let_def value_ring_inv_def ValueRing_Items_def)
next
  case False
  show ?thesis
  proof (cases "vr_size r < value_ring_cap r")
    case True
    then show ?thesis by (simp add: ValueRing_Items_add_room [OF inv])
  next
    case f: False
    then have full: "vr_size r = value_ring_cap r"
      using inv by (simp add: value_ring_inv_def)
    then show ?thesis
      using False
      by (cases "value_ring_cap r")
        (auto simp: ValueRing_Items_add_full [OF inv] take_last_def drop_Suc)
  qed
qed

lemma ValueRing_AddMany_inv:
  "value_ring_inv r \<Longrightarrow> value_ring_inv (ValueRing_AddMany xs r)
     \<and> value_ring_cap (ValueRing_AddMany xs r) = value_ring_cap r
     \<and> ValueRing_Items (ValueRing_AddMany xs r) = take_last (value_ring_cap r) (ValueRing_Items r @ xs)"
  unfolding ValueRing_AddMany_def
proof (induction xs arbitrary: r)
  case Nil
  then show ?case by (simp add: value_ring_inv_def)
next
  case (Cons x xs)
  then show ?case
    using take_last_append_take_last [of "value_ring_cap r" "ValueRing_Items r @ [x]" xs]
    by (simp add: value_ring_inv_add ValueRing_Items_add)
qed

lemma ValueRing_Clear_facts:
  "ValueRing_Items (ValueRing_Clear z r) = []"
  "value_ring_cap (ValueRing_Clear z r) = value_ring_cap r"
  "value_ring_inv r \<Longrightarrow> value_ring_inv (ValueRing_Clear z r)"
  by (auto simp: ValueRing_Clear_def ValueRing_Items_def value_ring_inv_def)

lemma value_ring_size: "value_ring_inv r \<Longrightarrow> vr_size r \<le> value_ring_cap r"
  by (simp add: value_ring_inv_def)

interpretation value_ring:
  ring ValueRing_Add ValueRing_AddMany ValueRing_Items "ValueRing_Clear z" ValueRing_Len
    value_ring_cap value_ring_inv take_last for z
  by unfold_locales
    (simp_all add: take_last_append_take_last ValueRing_Items_add ValueRing_AddMany_inv
      value_ring_inv_add ValueRing_Clear_facts ValueRing_Len_def value_ring_size)

section \<open>Rings of lines\<close>

record byte_ring =
  br_buf :: string
  br_lines :: nat
  br_maxLines :: nat

definition newline :: char where
  "newline = CHR 0x0A"

definition CreateByteRing :: "int \<Rightarrow> byte_ring" where
  "CreateByteRing capacity =
     (let capacity = (if capacity < 0 then 0 else capacity)
      in \<lparr>br_buf = [], br_lines = 0, br_maxLines = nat capacity\<rparr>)"

text \<open>\<open>trim\<close>: the loop removes the first line while there are too many; it stops early when the
  buffer holds no line break. The number of lines bounds its iterations.\<close>

function trim :: "byte_ring \<Rightarrow> byte_ring" where
  "trim b =
     (if br_lines b > br_maxLines b then
        (case find_index (\<lambda>c. c = newline) (br_buf b) of
           None \<Rightarrow> b
         | Some idx \<Rightarrow> trim (b\<lparr>br_buf := drop (idx + 1) (br_buf b), br_lines := br_lines b - 1\<rparr>))
      else b)"
  by pat_completeness auto
termination
  by (relation "measure br_lines") auto

declare trim.simps [simp del]

definition ByteRing_Add :: "char \<Rightarrow> byte_ring \<Rightarrow> byte_ring" where
  "ByteRing_Add item b =
     (let b' = b\<lparr>br_buf := br_buf b @ [item]\<rparr>
      in if item = newline then trim (b'\<lparr>br_lines := br_lines b' + 1\<rparr>) else b')"

definition ByteRing_AddMany :: "string \<Rightarrow> byte_ring \<Rightarrow> byte_ring" where
  "ByteRing_AddMany items b =
     trim (b\<lparr>br_buf := br_buf b @ items, br_lines := br_lines b + count_list items newline\<rparr>)"

definition ByteRing_Items :: "byte_ring \<Rightarrow> string" where
  "ByteRing_Items b = br_buf b"

definition ByteRing_Clear :: "byte_ring \<Rightarrow> byte_ring" where
  "ByteRing_Clear b = b\<lparr>br_buf := [], br_lines := 0\<rparr>"

definition ByteRing_Len :: "byte_ring \<Rightarrow> nat" where
  "ByteRing_Len b = length (br_buf b)"

text \<open>
  The specification: what is kept of a history is its longest suffix that starts at the beginning
  of a line and has at most \<open>n\<close> line breaks.
\<close>

fun drop_line :: "string \<Rightarrow> string" where
  "drop_line [] = []"
| "drop_line (c # cs) = (if c = newline then cs else drop_line cs)"

fun keep_lines :: "nat \<Rightarrow> string \<Rightarrow> string" where
  "keep_lines n cs = (drop_line ^^ (count_list cs newline - n)) cs"

declare keep_lines.simps [simp del]

lemma keep_lines_few: "count_list cs newline \<le> n \<Longrightarrow> keep_lines n cs = cs"
  by (simp add: keep_lines.simps)

lemma count_drop_line: "count_list (drop_line cs) newline = count_list cs newline - 1"
  by (induction cs) auto

lemma count_funpow_drop_line:
  "count_list ((drop_line ^^ k) cs) newline = count_list cs newline - k"
  by (induction k) (simp_all add: count_drop_line)

lemma keep_lines_drop_line:
  assumes "n < count_list cs newline"
  shows "keep_lines n (drop_line cs) = keep_lines n cs"
proof -
  obtain k where k: "count_list cs newline - n = Suc k"
    using assms by (cases "count_list cs newline - n") auto
  then have "count_list cs newline - 1 - n = k"
    by auto
  then show ?thesis
    using k by (simp add: keep_lines.simps count_drop_line funpow_swap1)
qed

lemma drop_line_append: "0 < count_list xs newline \<Longrightarrow> drop_line (xs @ ys) = drop_line xs @ ys"
  by (induction xs) auto

lemma funpow_drop_line_append:
  "k \<le> count_list xs newline \<Longrightarrow> (drop_line ^^ k) (xs @ ys) = (drop_line ^^ k) xs @ ys"
  by (induction k) (simp_all add: drop_line_append count_funpow_drop_line)

lemma keep_lines_keep_lines: "keep_lines n (keep_lines n xs @ ys) = keep_lines n (xs @ ys)"
proof -
  let ?k = "count_list xs newline - n"
  have "keep_lines n xs @ ys = (drop_line ^^ ?k) (xs @ ys)"
    by (simp add: keep_lines.simps funpow_drop_line_append)
  then have "keep_lines n (keep_lines n xs @ ys) =
      (drop_line ^^ (count_list (xs @ ys) newline - ?k - n + ?k)) (xs @ ys)"
    by (simp add: keep_lines.simps count_funpow_drop_line funpow_add)
  moreover have "count_list (xs @ ys) newline - ?k - n + ?k = count_list (xs @ ys) newline - n"
    by auto
  ultimately show ?thesis by (simp add: keep_lines.simps)
qed

lemma suffix_drop_line: "suffix (drop_line cs) cs"
  by (induction cs) (auto intro: suffix_ConsI)

lemma suffix_keep_lines: "suffix (keep_lines n cs) cs"
proof -
  have "suffix ((drop_line ^^ k) cs) cs" for k
    by (induction k) (auto intro: suffix_order.trans suffix_drop_line)
  then show ?thesis by (simp add: keep_lines.simps)
qed

lemma count_keep_lines: "count_list (keep_lines n cs) newline = min n (count_list cs newline)"
  by (auto simp: keep_lines.simps count_funpow_drop_line)

text \<open>What is dropped ends with a line break.\<close>

lemma drop_line_split:
  "0 < count_list cs newline \<Longrightarrow> \<exists>d. cs = d @ newline # drop_line cs"
proof (induction cs)
  case (Cons c cs)
  show ?case
  proof (cases "c = newline")
    case False
    then obtain d where "cs = d @ newline # drop_line cs"
      using Cons by auto
    then have "c # cs = (c # d) @ newline # drop_line (c # cs)"
      using False by simp
    then show ?thesis by blast
  qed auto
qed simp

lemma keep_lines_split:
  "\<exists>d. cs = d @ keep_lines n cs \<and> (d = [] \<or> last d = newline)"
proof -
  have "k \<le> count_list cs newline \<Longrightarrow>
      \<exists>d. cs = d @ (drop_line ^^ k) cs \<and> (d = [] \<or> last d = newline)" for k
  proof (induction k)
    case (Suc k)
    then obtain d where d: "cs = d @ (drop_line ^^ k) cs"
      by auto
    have "0 < count_list ((drop_line ^^ k) cs) newline"
      using Suc.prems by (simp add: count_funpow_drop_line)
    then obtain d' where "(drop_line ^^ k) cs = d' @ newline # (drop_line ^^ Suc k) cs"
      using drop_line_split by force
    then have "(drop_line ^^ k) cs = (d' @ [newline]) @ (drop_line ^^ Suc k) cs"
      by simp
    with d have "cs = (d @ d' @ [newline]) @ (drop_line ^^ Suc k) cs"
      by (metis append.assoc)
    then show ?case
      by (intro exI [of _ "d @ d' @ [newline]"] conjI disjI2) simp_all
  qed simp
  then show ?thesis by (simp add: keep_lines.simps)
qed

lemma find_newline_None: "find_index (\<lambda>c. c = newline) cs = None \<longleftrightarrow> count_list cs newline = 0"
  by (auto simp: count_list_0_iff)

lemma find_newline_Some:
  "find_index (\<lambda>c. c = newline) cs = Some i \<Longrightarrow> drop (Suc i) cs = drop_line cs"
  by (induction cs arbitrary: i) (auto split: if_splits)

lemma trim_keeps:
  "br_lines b = count_list (br_buf b) newline \<Longrightarrow>
   trim b = b\<lparr>br_buf := keep_lines (br_maxLines b) (br_buf b),
             br_lines := min (br_maxLines b) (br_lines b)\<rparr>"
proof (induction b rule: trim.induct)
  case (1 b)
  let ?count = "count_list (br_buf b) newline"
  show ?case
  proof (cases "br_lines b > br_maxLines b")
    case False
    then show ?thesis
      using "1.prems" by (subst trim.simps) (simp add: keep_lines_few min_def)
  next
    case True
    then obtain i where i: "find_index (\<lambda>c. c = newline) (br_buf b) = Some i"
      using "1.prems" find_newline_None [of "br_buf b"] by (cases "find_index (\<lambda>c. c = newline) (br_buf b)") auto
    let ?b = "b\<lparr>br_buf := drop (i + 1) (br_buf b), br_lines := br_lines b - 1\<rparr>"
    have buf: "drop (i + 1) (br_buf b) = drop_line (br_buf b)"
      using find_newline_Some [OF i] by simp
    have "keep_lines (br_maxLines b) (drop_line (br_buf b)) = keep_lines (br_maxLines b) (br_buf b)"
      using True "1.prems" by (simp add: keep_lines_drop_line)
    then have "trim ?b = b\<lparr>br_buf := keep_lines (br_maxLines b) (br_buf b),
        br_lines := min (br_maxLines b) (br_lines b)\<rparr>"
      using "1.IH" [OF True i] "1.prems" True buf by (simp add: count_drop_line)
    with True i show ?thesis by (subst trim.simps) simp
  qed
qed

definition byte_ring_inv :: "byte_ring \<Rightarrow> bool" where
  "byte_ring_inv b \<longleftrightarrow>
     br_lines b = count_list (br_buf b) newline \<and> br_lines b \<le> br_maxLines b"

lemma byte_ring_inv_create: "byte_ring_inv (CreateByteRing c)"
  by (simp add: byte_ring_inv_def CreateByteRing_def Let_def)

lemma ByteRing_AddMany_eq:
  "byte_ring_inv b \<Longrightarrow>
   ByteRing_AddMany xs b =
     b\<lparr>br_buf := keep_lines (br_maxLines b) (br_buf b @ xs),
       br_lines := min (br_maxLines b) (br_lines b + count_list xs newline)\<rparr>"
  by (simp add: ByteRing_AddMany_def trim_keeps byte_ring_inv_def)

lemma ByteRing_Add_eq: "byte_ring_inv b \<Longrightarrow> ByteRing_Add x b = ByteRing_AddMany [x] b"
  by (simp add: ByteRing_AddMany_eq)
    (auto simp: ByteRing_Add_def Let_def trim_keeps byte_ring_inv_def keep_lines_few)

lemma ByteRing_AddMany_inv: "byte_ring_inv b \<Longrightarrow> byte_ring_inv (ByteRing_AddMany xs b)"
  by (simp add: ByteRing_AddMany_eq) (simp add: byte_ring_inv_def count_keep_lines)

lemma ByteRing_AddMany_facts:
  "byte_ring_inv b \<Longrightarrow>
   ByteRing_Items (ByteRing_AddMany xs b) = keep_lines (br_maxLines b) (ByteRing_Items b @ xs)"
  "byte_ring_inv b \<Longrightarrow> br_maxLines (ByteRing_AddMany xs b) = br_maxLines b"
  by (simp_all add: ByteRing_AddMany_eq ByteRing_Items_def)

lemma ByteRing_Clear_facts:
  "ByteRing_Items (ByteRing_Clear b) = []"
  "br_maxLines (ByteRing_Clear b) = br_maxLines b"
  "byte_ring_inv (ByteRing_Clear b)"
  by (simp_all add: ByteRing_Clear_def ByteRing_Items_def byte_ring_inv_def)

lemma ByteRing_Items_kept:
  "byte_ring_inv b \<Longrightarrow> keep_lines (br_maxLines b) (ByteRing_Items b) = ByteRing_Items b"
  by (simp add: byte_ring_inv_def ByteRing_Items_def keep_lines_few)

interpretation byte_ring:
  ring ByteRing_Add ByteRing_AddMany ByteRing_Items ByteRing_Clear ByteRing_Len br_maxLines
    byte_ring_inv keep_lines
  by unfold_locales
    (simp_all add: keep_lines_keep_lines ByteRing_Add_eq ByteRing_AddMany_facts
      ByteRing_AddMany_inv ByteRing_Clear_facts ByteRing_Items_kept,
     simp add: ByteRing_Len_def ByteRing_Items_def)

section \<open>Properties\<close>

text \<open>A value ring of capacity \<open>c\<close> holds exactly the \<open>c\<close> most recent of all items ever added to it,
  oldest first, whatever the sizes of the batches; a capacity of zero or less keeps nothing.\<close>

theorem value_ring_keeps_most_recent:
  "ValueRing_Items (fold ValueRing_AddMany batches (CreateValueRing z c))
     = take_last (nat c) (concat batches)"
proof -
  have "ValueRing_Items (CreateValueRing z c) = []" and "value_ring_cap (CreateValueRing z c) = nat c"
    by (simp_all add: ValueRing_Items_def CreateValueRing_def Let_def)
  then show ?thesis
    using value_ring.fold_add_many [OF value_ring_inv_create, of batches z c] by simp
qed

text \<open>After any batches of writes, a line ring of capacity \<open>n\<close> holds a suffix of everything
  written. The suffix has the last \<open>n\<close> line breaks of the input, or all of them if there are fewer,
  and it starts at the beginning of a line: what was dropped, if anything, ends with a line break.\<close>

theorem byte_ring_keeps_last_lines:
  "\<exists>dropped shown.
     ByteRing_Items (fold ByteRing_AddMany batches (CreateByteRing c)) = shown
     \<and> concat batches = dropped @ shown
     \<and> count_list shown newline = min (nat c) (count_list (concat batches) newline)
     \<and> (dropped = [] \<or> last dropped = newline)"
proof -
  have "ByteRing_Items (CreateByteRing c) = []" and "br_maxLines (CreateByteRing c) = nat c"
    by (simp_all add: ByteRing_Items_def CreateByteRing_def Let_def)
  then have "ByteRing_Items (fold ByteRing_AddMany batches (CreateByteRing c))
      = keep_lines (nat c) (concat batches)"
    using byte_ring.fold_add_many [OF byte_ring_inv_create, of batches c] by simp
  then show ?thesis
    using keep_lines_split [of "concat batches" "nat c"] count_keep_lines by metis
qed

end
