(* ===== verification/Schedule.thy ===== *)
theory Schedule
  imports Prelude
begin

text \<open>
  The time-ordered queue of \<open>src/utils/schedule.go\<close>: a slice of item pointers sorted by time, and a
  map from keys to item pointers. The scheduler keeps one for deployments and one for destructions.

  The slice and the map share pointers, and \<open>remove\<close> finds an item in the slice by pointer
  equality, so a pointer is a record of its address and the value it points to. The values are
  copies the scheduler makes for the queue (\<open>copyLab\<close>) and are never written through.

  A time is a number of nanoseconds and \<open>unix\<close> is Go's \<open>Time.Unix\<close>: its seconds. Dereferencing a
  nil time and slicing with an index of \<open>-1\<close> panic: such operations return an option, with \<open>None\<close>
  for the panic.
\<close>

section \<open>The standard library's binary search\<close>

text \<open>
  \<open>sort.Search\<close>: the loop keeps \<open>f (i - 1) = false\<close> and \<open>f j = true\<close>. The predicate may panic.
\<close>

function search_loop :: "(nat \<Rightarrow> bool option) \<Rightarrow> nat \<Rightarrow> nat \<Rightarrow> nat option" where
  "search_loop f i j =
     (if i < j then
        (let h = (i + j) div 2 in
         case f h of
           None \<Rightarrow> None
         | Some True \<Rightarrow> search_loop f i h
         | Some False \<Rightarrow> search_loop f (h + 1) j)
      else Some i)"
  by pat_completeness auto
termination
  by (relation "measure (\<lambda>(f, i, j). j - i)") auto

declare search_loop.simps [simp del]

definition sort_Search :: "nat \<Rightarrow> (nat \<Rightarrow> bool option) \<Rightarrow> nat option" where
  "sort_Search n f = search_loop f 0 n"

text \<open>On a monotone predicate it finds the first index at which the predicate holds.\<close>

lemma search_loop_first:
  assumes "\<And>k. k < n \<Longrightarrow> f k = Some (p k)"
    and "\<And>k l. k \<le> l \<Longrightarrow> l < n \<Longrightarrow> p k \<Longrightarrow> p l"
    and "i \<le> j" and "j \<le> n" and "\<forall>k < i. \<not> p k" and "\<forall>k. j \<le> k \<longrightarrow> k < n \<longrightarrow> p k"
  shows "\<exists>r. search_loop f i j = Some r \<and> r \<le> n \<and> (\<forall>k < r. \<not> p k) \<and> (\<forall>k. r \<le> k \<longrightarrow> k < n \<longrightarrow> p k)"
  using assms
proof (induction f i j rule: search_loop.induct)
  case (1 f i j)
  show ?case
  proof (cases "i < j")
    case False
    with "1.prems" show ?thesis by (subst search_loop.simps) auto
  next
    case True
    let ?h = "(i + j) div 2"
    have h: "?h < n" "i \<le> ?h" "?h < j"
      using True "1.prems"(4) by auto
    have fh: "f ?h = Some (p ?h)"
      using "1.prems"(1) h by simp
    show ?thesis
    proof (cases "p ?h")
      case p: True
      have above: "\<forall>k. ?h \<le> k \<longrightarrow> k < n \<longrightarrow> p k"
        using "1.prems"(2) p by blast
      have "search_loop f i j = search_loop f i ?h"
        using True fh p by (subst search_loop.simps) (simp add: Let_def)
      then show ?thesis
        using "1.IH"(1) [OF True refl, of True] fh p above h "1.prems" by simp
    next
      case p: False
      have below: "\<forall>k < ?h + 1. \<not> p k"
        using "1.prems"(2) p h(1) by (metis Suc_eq_plus1 less_Suc_eq_le)
      have "search_loop f i j = search_loop f (?h + 1) j"
        using True fh p by (subst search_loop.simps) (simp add: Let_def)
      then show ?thesis
        using "1.IH"(2) [OF True refl, of False] fh p below h "1.prems" by simp
    qed
  qed
qed

lemma sort_Search_first:
  assumes "\<And>k. k < n \<Longrightarrow> f k = Some (p k)"
    and "\<And>k l. k \<le> l \<Longrightarrow> l < n \<Longrightarrow> p k \<Longrightarrow> p l"
  shows "\<exists>r. sort_Search n f = Some r \<and> r \<le> n \<and> (\<forall>k < r. \<not> p k) \<and> (\<forall>k. r \<le> k \<longrightarrow> k < n \<longrightarrow> p k)"
  unfolding sort_Search_def using assms by (intro search_loop_first) auto

section \<open>The queue\<close>

definition unix :: "int \<Rightarrow> int" where
  "unix t = t div 1000000000"

lemma unix_mono: "s \<le> t \<Longrightarrow> unix s \<le> unix t"
  by (simp add: unix_def zdiv_mono1)

record 'a ptr =
  addr :: nat
  deref :: 'a

record 'a schedule =
  sched :: "'a ptr list"
  schedMap :: "string \<rightharpoonup> 'a ptr"
  keyGetter :: "'a \<Rightarrow> string"
  timeGetter :: "'a \<Rightarrow> int option"

definition CreateSchedule :: "('a \<Rightarrow> string) \<Rightarrow> ('a \<Rightarrow> int option) \<Rightarrow> 'a schedule" where
  "CreateSchedule kg tg = \<lparr>sched = [], schedMap = Map.empty, keyGetter = kg, timeGetter = tg\<rparr>"

text \<open>\<open>s.timeGetter(*item).Unix()\<close>; \<open>None\<close> is the panic on a nil time.\<close>

definition item_unix :: "'a schedule \<Rightarrow> 'a ptr \<Rightarrow> int option" where
  "item_unix s item = map_option unix (timeGetter s (deref item))"

definition item_key :: "'a schedule \<Rightarrow> 'a ptr \<Rightarrow> string" where
  "item_key s item = keyGetter s (deref item)"

definition has :: "'a schedule \<Rightarrow> string \<Rightarrow> bool" where
  "has s key = (schedMap s key \<noteq> None)"

definition schedule_remove :: "string \<Rightarrow> 'a schedule \<Rightarrow> 'a schedule option" where
  "schedule_remove key s =
     (case schedMap s key of
        None \<Rightarrow> Some s
      | Some item \<Rightarrow>
          (case find_index (\<lambda>p. addr p = addr item) (sched s) of
             None \<Rightarrow> None
           | Some itemIndex \<Rightarrow>
               Some (s\<lparr>sched := remove_at itemIndex (sched s), schedMap := (schedMap s)(key := None)\<rparr>)))"

definition schedule_insert :: "string \<Rightarrow> 'a ptr \<Rightarrow> 'a schedule \<Rightarrow> 'a schedule option" where
  "schedule_insert key item s =
     (case item_unix s item of
        None \<Rightarrow> None
      | Some itemTime \<Rightarrow>
          (case sort_Search (length (sched s))
                  (\<lambda>i. map_option (\<lambda>t. t \<ge> itemTime) (item_unix s (sched s ! i))) of
             None \<Rightarrow> None
           | Some insertIndex \<Rightarrow>
               if insertIndex = length (sched s)
               then Some (s\<lparr>sched := sched s @ [item], schedMap := (schedMap s)(key \<mapsto> item)\<rparr>)
               else Some (s\<lparr>sched := (take (insertIndex + 1) (sched s) @ drop insertIndex (sched s))
                                      [insertIndex := item],
                           schedMap := (schedMap s)(key \<mapsto> item)\<rparr>)))"

definition Schedule :: "'a ptr \<Rightarrow> 'a schedule \<Rightarrow> 'a schedule option" where
  "Schedule item s =
     (if timeGetter s (deref item) = None then Some s else schedule_insert (item_key s item) item s)"

definition Reschedule :: "'a ptr \<Rightarrow> 'a schedule \<Rightarrow> 'a schedule option" where
  "Reschedule item s =
     (let key = item_key s item in
      case (if schedMap s key \<noteq> None then schedule_remove key s else Some s) of
        None \<Rightarrow> None
      | Some s \<Rightarrow>
          if timeGetter s (deref item) = None then Some s else schedule_insert key item s)"

definition IsScheduled :: "string \<Rightarrow> 'a schedule \<Rightarrow> bool" where
  "IsScheduled key s = has s key"

definition Remove :: "string \<Rightarrow> 'a schedule \<Rightarrow> 'a schedule option" where
  "Remove key s = schedule_remove key s"

definition TryPopAt :: "int \<Rightarrow> 'a schedule \<Rightarrow> ('a ptr option \<times> 'a schedule) option" where
  "TryPopAt now s =
     (case sched s of
        [] \<Rightarrow> Some (None, s)
      | item # rest \<Rightarrow>
          (case item_unix s item of
             None \<Rightarrow> None
           | Some t \<Rightarrow>
               if t \<le> unix now
               then Some (Some item, s\<lparr>sched := rest, schedMap := (schedMap s)(item_key s item := None)\<rparr>)
               else Some (None, s)))"

section \<open>The invariant\<close>

text \<open>
  The slice is sorted, no queued item has a nil time, pointers to the same address are the same,
  and every pointer of the map is in the slice under the key of its item. The last part is what
  keeps \<open>schedule_remove\<close> from slicing with \<open>-1\<close>.
\<close>

definition time_of :: "'a schedule \<Rightarrow> 'a ptr \<Rightarrow> int" where
  "time_of s p = the (item_unix s p)"

definition sched_inv :: "'a schedule \<Rightarrow> bool" where
  "sched_inv s \<longleftrightarrow>
     sorted (map (time_of s) (sched s))
     \<and> (\<forall>p \<in> set (sched s). item_unix s p \<noteq> None)
     \<and> inj_on addr (set (sched s))
     \<and> (\<forall>k p. schedMap s k = Some p \<longrightarrow> p \<in> set (sched s) \<and> item_key s p = k)"

text \<open>The address of a new item is that of an item of the slice only if it is that item.\<close>

definition fresh_item :: "'a ptr \<Rightarrow> 'a schedule \<Rightarrow> bool" where
  "fresh_item p s \<longleftrightarrow> (\<forall>q \<in> set (sched s). addr q = addr p \<longrightarrow> q = p)"

lemma item_upd [simp]:
  "item_unix (s\<lparr>sched := xs\<rparr>) = item_unix s" "item_unix (s\<lparr>schedMap := m\<rparr>) = item_unix s"
  "item_key (s\<lparr>sched := xs\<rparr>) = item_key s" "item_key (s\<lparr>schedMap := m\<rparr>) = item_key s"
  "time_of (s\<lparr>sched := xs\<rparr>) = time_of s" "time_of (s\<lparr>schedMap := m\<rparr>) = time_of s"
  by (simp_all add: fun_eq_iff item_unix_def item_key_def time_of_def)

lemma sched_inv_create: "sched_inv (CreateSchedule kg tg)"
  by (simp add: sched_inv_def CreateSchedule_def)

text \<open>\<open>schedule_insert\<close> puts the item in front of the first one that is not earlier.\<close>

lemma schedule_insert_shape:
  assumes inv: "sched_inv s" and t: "item_unix s item = Some t"
  shows "\<exists>i \<le> length (sched s).
      schedule_insert key item s
        = Some (s\<lparr>sched := take i (sched s) @ item # drop i (sched s), schedMap := (schedMap s)(key \<mapsto> item)\<rparr>)
      \<and> (\<forall>p \<in> set (take i (sched s)). time_of s p < t)
      \<and> (\<forall>p \<in> set (drop i (sched s)). t \<le> time_of s p)"
proof -
  let ?xs = "sched s"
  let ?p = "\<lambda>i. t \<le> time_of s (?xs ! i)"
  let ?f = "\<lambda>i. map_option (\<lambda>u. u \<ge> t) (item_unix s (?xs ! i))"
  have f: "?f k = Some (?p k)" if "k < length ?xs" for k
  proof -
    have "item_unix s (?xs ! k) \<noteq> None"
      using inv nth_mem [OF that] by (auto simp: sched_inv_def)
    then show ?thesis by (auto simp: time_of_def)
  qed
  have mono: "?p l" if "k \<le> l" "l < length ?xs" "?p k" for k l
  proof -
    have "time_of s (?xs ! k) \<le> time_of s (?xs ! l)"
      using inv that(1,2) by (auto simp: sched_inv_def sorted_iff_nth_mono)
    with that(3) show ?thesis by simp
  qed
  obtain r where r: "sort_Search (length ?xs) ?f = Some r" "r \<le> length ?xs"
      "\<forall>k < r. \<not> ?p k" "\<forall>k. r \<le> k \<longrightarrow> k < length ?xs \<longrightarrow> ?p k"
    using sort_Search_first [of "length ?xs" ?f ?p] f mono by blast
  have "schedule_insert key item s
      = Some (s\<lparr>sched := take r ?xs @ item # drop r ?xs, schedMap := (schedMap s)(key \<mapsto> item)\<rparr>)"
  proof (cases "r = length ?xs")
    case True
    with t r show ?thesis by (simp add: schedule_insert_def)
  next
    case False
    then have "take (r + 1) ?xs @ drop r ?xs = take r ?xs @ ?xs ! r # drop r ?xs"
      using r(2) by (simp add: take_Suc_conv_app_nth)
    with False t r show ?thesis by (simp add: schedule_insert_def list_update_append)
  qed
  moreover have "\<forall>p \<in> set (take r ?xs). time_of s p < t"
    using r(2,3) by (auto simp: in_set_conv_nth not_le)
  moreover have "\<forall>p \<in> set (drop r ?xs). t \<le> time_of s p"
    using r(2,4) by (auto simp: in_set_conv_nth)
  ultimately show ?thesis using r(2) by blast
qed

lemma schedule_insert_total:
  assumes inv: "sched_inv s" and t: "item_unix s item \<noteq> None" and fresh: "fresh_item item s"
    and key: "key = item_key s item"
  obtains s' where "schedule_insert key item s = Some s'" and "sched_inv s'"
    and "mset (sched s') = add_mset item (mset (sched s))"
    and "schedMap s' = (schedMap s)(key \<mapsto> item)"
    and "keyGetter s' = keyGetter s" and "timeGetter s' = timeGetter s"
proof -
  obtain u where u: "item_unix s item = Some u"
    using t by blast
  obtain i where i: "i \<le> length (sched s)" and
    ins: "schedule_insert key item s = Some (s\<lparr>sched := take i (sched s) @ item # drop i (sched s),
      schedMap := (schedMap s)(key \<mapsto> item)\<rparr>)" and
    before: "\<forall>p \<in> set (take i (sched s)). time_of s p < u" and
    after: "\<forall>p \<in> set (drop i (sched s)). u \<le> time_of s p"
    using schedule_insert_shape [OF inv u] by blast
  let ?xs = "take i (sched s) @ item # drop i (sched s)"
  let ?s = "s\<lparr>sched := ?xs, schedMap := (schedMap s)(key \<mapsto> item)\<rparr>"
  have m: "mset ?xs = add_mset item (mset (sched s))"
    by (metis append_take_drop_id mset.simps(2) mset_append union_mset_add_mset_right)
  then have set_xs: "set ?xs = insert item (set (sched s))"
    by (metis set_mset_add_mset_insert set_mset_mset)
  have "sorted (map (time_of s) (take i (sched s) @ drop i (sched s)))"
    using inv by (simp add: sched_inv_def)
  then have "sorted (map (time_of s) ?xs)"
    using before after u by (fastforce simp: sorted_append time_of_def simp del: append_take_drop_id)
  moreover have "inj_on addr (set ?xs)"
    using inv fresh unfolding set_xs by (auto simp: sched_inv_def fresh_item_def inj_on_def)
  ultimately have "sched_inv ?s"
    using inv u key unfolding sched_inv_def
    by (auto simp: set_xs simp del: set_append split: if_splits)
  then show ?thesis
    using that ins m by simp
qed

text \<open>\<open>schedule_remove\<close> finds the item of the map in the slice.\<close>

lemma schedule_remove_total:
  assumes inv: "sched_inv s"
  obtains s' where "schedule_remove key s = Some s'" and "sched_inv s'"
    and "mset (sched s') = mset (sched s) - (case schedMap s key of None \<Rightarrow> {#} | Some p \<Rightarrow> {#p#})"
    and "schedMap s' = (schedMap s)(key := None)"
    and "keyGetter s' = keyGetter s" and "timeGetter s' = timeGetter s"
proof (cases "schedMap s key")
  case None
  then show ?thesis
    using that [of s] inv by (simp add: schedule_remove_def fun_upd_idem)
next
  case (Some p)
  let ?xs = "sched s"
  have p: "p \<in> set ?xs" "item_key s p = key"
    using inv Some by (auto simp: sched_inv_def)
  then obtain i where i: "find_index (\<lambda>q. addr q = addr p) ?xs = Some i"
    by (cases "find_index (\<lambda>q. addr q = addr p) ?xs") auto
  have ip: "i < length ?xs" "?xs ! i = p"
    using find_index_SomeD [OF i] inv p(1) nth_mem [of i ?xs] by (auto simp: sched_inv_def inj_on_def)
  let ?s = "s\<lparr>sched := remove_at i ?xs, schedMap := (schedMap s)(key := None)\<rparr>"
  have keep: "q \<in> set (remove_at i ?xs)" if "schedMap s k = Some q" "k \<noteq> key" for k q
    using that inv p ip in_set_remove_at [of q ?xs i] by (auto simp: sched_inv_def)
  have "sched_inv ?s"
    using inv keep set_remove_at_subset [of i ?xs] unfolding sched_inv_def
    by (auto simp: sorted_remove_at subset_iff intro: inj_on_subset split: if_splits)
  then show ?thesis
    using that [of ?s] Some i ip by (simp add: schedule_remove_def mset_remove_at)
qed

lemma TryPopAt_total:
  assumes inv: "sched_inv s"
  shows "TryPopAt now s =
    (case sched s of
       [] \<Rightarrow> Some (None, s)
     | p # ps \<Rightarrow>
         if time_of s p \<le> unix now
         then Some (Some p, s\<lparr>sched := ps, schedMap := (schedMap s)(item_key s p := None)\<rparr>)
         else Some (None, s))"
  using inv by (auto simp: TryPopAt_def sched_inv_def time_of_def split: list.splits)

lemma sched_inv_pop:
  assumes inv: "sched_inv s" and s: "sched s = p # ps"
  shows "sched_inv (s\<lparr>sched := ps, schedMap := (schedMap s)(item_key s p := None)\<rparr>)"
proof -
  have "q \<in> set ps" if "schedMap s k = Some q" "k \<noteq> item_key s p" for k q
    using that inv s by (auto simp: sched_inv_def)
  then show ?thesis
    using inv s unfolding sched_inv_def by (auto split: if_splits)
qed

section \<open>Draining a queue of due items\<close>

text \<open>
  What the scheduler relies on when it pops the queue once per tick: a locale over the pop
  operation, the pending items and their times. \<open>ticks\<close> pops once at each of the given times.
\<close>

fun ticks :: "(int \<Rightarrow> 's \<Rightarrow> ('i option \<times> 's) option) \<Rightarrow> int list \<Rightarrow> 's \<Rightarrow> ('i list \<times> 's) option" where
  "ticks pop [] s = Some ([], s)"
| "ticks pop (now # nows) s =
     (case pop now s of
        None \<Rightarrow> None
      | Some (popped, s') \<Rightarrow>
          map_option (\<lambda>(ps, s''). ((case popped of None \<Rightarrow> [] | Some p \<Rightarrow> [p]) @ ps, s''))
            (ticks pop nows s'))"

locale due_queue =
  fixes pop :: "int \<Rightarrow> 's \<Rightarrow> ('i option \<times> 's) option"
    and pending :: "'s \<Rightarrow> 'i multiset"
    and time :: "'s \<Rightarrow> 'i \<Rightarrow> int"
    and invar :: "'s \<Rightarrow> bool"
  assumes pop_total: "invar s \<Longrightarrow> \<exists>r s'. pop now s = Some (r, s') \<and> invar s' \<and> time s' = time s"
    and pop_none: "invar s \<Longrightarrow> pop now s = Some (None, s') \<Longrightarrow>
      s' = s \<and> (\<forall>q \<in># pending s. unix now < time s q)"
    and pop_some: "invar s \<Longrightarrow> pop now s = Some (Some p, s') \<Longrightarrow>
      p \<in># pending s \<and> time s p \<le> unix now \<and> pending s' = pending s - {#p#}
      \<and> (\<forall>q \<in># pending s. time s p \<le> time s q)"
begin

lemma ticks_total:
  "invar s \<Longrightarrow> \<exists>ps s'. ticks pop nows s = Some (ps, s') \<and> invar s' \<and> time s' = time s
     \<and> pending s = mset ps + pending s'"
proof (induction nows arbitrary: s)
  case Nil
  then show ?case by simp
next
  case (Cons now nows)
  obtain r s1 where r: "pop now s = Some (r, s1)" "invar s1" "time s1 = time s"
    using pop_total [OF Cons.prems] by blast
  obtain ps s' where ps: "ticks pop nows s1 = Some (ps, s')" "invar s'" "time s' = time s1"
      "pending s1 = mset ps + pending s'"
    using Cons.IH [OF r(2)] by blast
  show ?case
  proof (cases r)
    case None
    then show ?thesis
      using r ps pop_none [OF Cons.prems] by fastforce
  next
    case (Some p)
    then have "pending s = add_mset p (pending s1)"
      using r pop_some [OF Cons.prems] by simp
    with Some show ?thesis
      using r ps by simp
  qed
qed

text \<open>Items come out in the order of their times.\<close>

lemma ticks_sorted:
  assumes "invar s" and "ticks pop nows s = Some (ps, s')"
  shows "sorted (map (time s) ps) \<and> (\<forall>p \<in> set ps. p \<in># pending s)"
  using assms
proof (induction nows arbitrary: s ps)
  case Nil
  then show ?case by simp
next
  case (Cons now nows)
  obtain r s1 where r: "pop now s = Some (r, s1)" "invar s1" "time s1 = time s"
    using pop_total [OF Cons.prems(1)] by blast
  obtain ps1 where ps1: "ticks pop nows s1 = Some (ps1, s')"
      "ps = (case r of None \<Rightarrow> [] | Some p \<Rightarrow> [p]) @ ps1"
    using Cons.prems(2) r by (auto split: option.splits)
  note IH = Cons.IH [OF r(2) ps1(1)]
  show ?case
  proof (cases r)
    case None
    then show ?thesis
      using r ps1 IH pop_none [OF Cons.prems(1)] by fastforce
  next
    case (Some p)
    have "p \<in># pending s" "pending s1 = pending s - {#p#}" "\<forall>q \<in># pending s. time s p \<le> time s q"
      using r pop_some [OF Cons.prems(1)] Some by auto
    then show ?thesis
      using Some r ps1 IH by (auto dest: in_diffD)
  qed
qed

text \<open>Once as many ticks as there are pending items have passed, nothing that was due is left.\<close>

lemma ticks_drain:
  assumes "invar s" and "\<forall>now \<in> set nows. t \<le> unix now"
    and "size (filter_mset (\<lambda>q. time s q \<le> t) (pending s)) \<le> length nows"
    and "ticks pop nows s = Some (ps, s')"
  shows "\<forall>q \<in># pending s'. t < time s q"
  using assms
proof (induction nows arbitrary: s ps)
  case Nil
  then show ?case by (auto simp: not_le filter_mset_eq_mempty_iff)
next
  case (Cons now nows)
  obtain r s1 where r: "pop now s = Some (r, s1)" "invar s1" "time s1 = time s"
    using pop_total [OF Cons.prems(1)] by blast
  obtain ps1 where ps1: "ticks pop nows s1 = Some (ps1, s')"
    using Cons.prems(4) r by (auto split: option.splits)
  have now: "t \<le> unix now"
    using Cons.prems(2) by simp
  show ?case
  proof (cases r)
    case None
    then have "s1 = s" and late: "\<forall>q \<in># pending s. unix now < time s q"
      using r pop_none [OF Cons.prems(1)] by auto
    obtain ps2 s2 where "ticks pop nows s1 = Some (ps2, s2)" "pending s1 = mset ps2 + pending s2"
      using ticks_total [OF r(2)] by blast
    then have "\<forall>q \<in># pending s'. q \<in># pending s"
      using ps1 \<open>s1 = s\<close> by auto
    then show ?thesis
      using late now by fastforce
  next
    case (Some p)
    have p: "p \<in># pending s" "pending s1 = pending s - {#p#}" "\<forall>q \<in># pending s. time s p \<le> time s q"
      using r pop_some [OF Cons.prems(1)] Some by auto
    have "size (filter_mset (\<lambda>q. time s1 q \<le> t) (pending s1)) \<le> length nows"
    proof (cases "time s p \<le> t")
      case True
      then have "filter_mset (\<lambda>q. time s q \<le> t) (pending s)
          = add_mset p (filter_mset (\<lambda>q. time s q \<le> t) (pending s1))"
        using p by (metis filter_mset_add_mset insert_DiffM)
      then show ?thesis
        using Cons.prems(3) r by simp
    next
      case False
      then have none: "filter_mset (\<lambda>q. time s q \<le> t) (pending s1) = {#}"
        using p by (auto simp: filter_mset_eq_mempty_iff dest: in_diffD)
      show ?thesis
        unfolding r(3) none by simp
    qed
    then show ?thesis
      using Cons.IH [OF r(2) _ _ ps1] Cons.prems(2) r by simp
  qed
qed

end

interpretation schedule: due_queue TryPopAt "\<lambda>s. mset (sched s)" time_of sched_inv
proof (unfold_locales, goal_cases)
  case (1 s now)
  then show ?case
    by (cases "sched s") (auto simp: TryPopAt_total sched_inv_pop)
next
  case (2 s now s')
  then show ?case
    by (cases "sched s") (auto simp: TryPopAt_total sched_inv_def split: if_splits)
next
  case (3 s now p s')
  then show ?case
    by (cases "sched s") (auto simp: TryPopAt_total sched_inv_def split: if_splits)
qed

section \<open>Unique keys\<close>

text \<open>
  Every queued item is the one the map has for its key. This holds as long as a key that is queued
  is never scheduled again: \<open>Reschedule\<close> keeps it, \<open>Schedule\<close> only for a key that is not queued.
\<close>

definition unique_keys :: "'a schedule \<Rightarrow> bool" where
  "unique_keys s \<longleftrightarrow>
     distinct (sched s) \<and> (\<forall>p \<in> set (sched s). schedMap s (item_key s p) = Some p)"

lemma unique_keysD:
  "unique_keys s \<Longrightarrow> p \<in> set (sched s) \<Longrightarrow> q \<in> set (sched s) \<Longrightarrow> item_key s p = item_key s q \<Longrightarrow> p = q"
  by (metis option.inject unique_keys_def)

lemma unique_keys_create: "unique_keys (CreateSchedule kg tg)"
  by (simp add: unique_keys_def CreateSchedule_def)

lemma distinct_mset_cong: "mset xs = mset ys \<Longrightarrow> distinct xs = distinct ys"
  by (metis mset_eq_imp_distinct_iff)

lemma item_key_cong: "keyGetter s' = keyGetter s \<Longrightarrow> item_key s' = item_key s"
  by (simp add: item_key_def fun_eq_iff)

lemma item_unix_cong: "timeGetter s' = timeGetter s \<Longrightarrow> item_unix s' = item_unix s"
  by (simp add: item_unix_def fun_eq_iff)

lemma unique_keys_insert:
  assumes "unique_keys s" and "schedMap s key = None" and "key = item_key s item"
    and "mset (sched s') = add_mset item (mset (sched s))"
    and "schedMap s' = (schedMap s)(key \<mapsto> item)" and "keyGetter s' = keyGetter s"
  shows "unique_keys s'"
proof -
  have new: "item \<notin> set (sched s)"
    using assms(1-3) by (auto simp: unique_keys_def)
  have "distinct (item # sched s)"
    using new assms(1) by (simp add: unique_keys_def)
  moreover have "mset (sched s') = mset (item # sched s)"
    using assms(4) by simp
  ultimately have "distinct (sched s')"
    using mset_eq_imp_distinct_iff by blast
  moreover have "set (sched s') = insert item (set (sched s))"
    using assms(4) by (metis set_mset_add_mset_insert set_mset_mset)
  ultimately show ?thesis
    using assms(1-3,5) item_key_cong [OF assms(6)] by (auto simp: unique_keys_def)
qed

lemma unique_keys_remove:
  assumes uniq: "unique_keys s" and inv: "sched_inv s"
    and m: "mset (sched s') = mset (sched s) - (case schedMap s key of None \<Rightarrow> {#} | Some p \<Rightarrow> {#p#})"
    and mp: "schedMap s' = (schedMap s)(key := None)" and kg: "keyGetter s' = keyGetter s"
  shows "unique_keys s'" and "set (sched s') = {p \<in> set (sched s). item_key s p \<noteq> key}"
proof -
  let ?rest = "filter (\<lambda>p. item_key s p \<noteq> key) (sched s)"
  have "mset (sched s') = mset ?rest"
  proof (cases "schedMap s key")
    case None
    then have "?rest = sched s"
      using uniq by (auto simp: unique_keys_def filter_id_conv)
    with None m show ?thesis by simp
  next
    case (Some p)
    have p: "p \<in> set (sched s)" "item_key s p = key"
      using inv Some by (auto simp: sched_inv_def)
    have "(item_key s q \<noteq> key) = (p \<noteq> q)" if "q \<in> set (sched s)" for q
      using p unique_keysD [OF uniq that p(1)] by auto
    then have "?rest = filter (\<lambda>q. p \<noteq> q) (sched s)"
      by (rule filter_cong [OF refl])
    also have "\<dots> = remove1 p (sched s)"
      using uniq by (simp add: unique_keys_def distinct_remove1_removeAll removeAll_filter_not_eq)
    finally show ?thesis
      using Some m by simp
  qed
  then have "set (sched s') = set ?rest" and "distinct (sched s') = distinct ?rest"
    by (rule mset_eq_setD, rule mset_eq_imp_distinct_iff)
  then have "distinct (sched s')" and "set (sched s') = {p \<in> set (sched s). item_key s p \<noteq> key}"
    using uniq by (auto simp: unique_keys_def)
  then show "unique_keys s'" and "set (sched s') = {p \<in> set (sched s). item_key s p \<noteq> key}"
    using uniq mp item_key_cong [OF kg] by (auto simp: unique_keys_def)
qed

text \<open>\<open>Reschedule\<close> replaces whatever its key had in the queue.\<close>

lemma Reschedule_total:
  assumes inv: "sched_inv s" and fresh: "fresh_item item s"
  obtains s' where "Reschedule item s = Some s'" and "sched_inv s'"
    and "mset (sched s') = mset (sched s)
        - (case schedMap s (item_key s item) of None \<Rightarrow> {#} | Some p \<Rightarrow> {#p#})
        + (if timeGetter s (deref item) = None then {#} else {#item#})"
    and "schedMap s' = (schedMap s)
        (item_key s item := (if timeGetter s (deref item) = None then None else Some item))"
    and "keyGetter s' = keyGetter s" and "timeGetter s' = timeGetter s"
proof -
  let ?k = "item_key s item"
  obtain s1 where s1: "schedule_remove ?k s = Some s1" "sched_inv s1"
      "mset (sched s1) = mset (sched s) - (case schedMap s ?k of None \<Rightarrow> {#} | Some p \<Rightarrow> {#p#})"
      "schedMap s1 = (schedMap s)(?k := None)" "keyGetter s1 = keyGetter s" "timeGetter s1 = timeGetter s"
    using schedule_remove_total [OF inv, of ?k] by blast
  have removed: "(if schedMap s ?k \<noteq> None then schedule_remove ?k s else Some s) = Some s1"
    using s1(1) by (auto simp: schedule_remove_def)
  have "set (sched s1) \<subseteq> set (sched s)"
    using s1(3) by (metis diff_subset_eq_self set_mset_mono set_mset_mset)
  then have fresh1: "fresh_item item s1"
    using fresh by (auto simp: fresh_item_def)
  note same = item_key_cong [OF s1(5)] item_unix_cong [OF s1(6)]
  show ?thesis
  proof (cases "timeGetter s (deref item) = None")
    case True
    then have "Reschedule item s = Some s1"
      using removed s1(6) by (simp add: Reschedule_def Let_def)
    with True show ?thesis
      using that [of s1] s1 by simp
  next
    case False
    then obtain t where t: "timeGetter s (deref item) = Some t"
      by blast
    then have "item_unix s1 item \<noteq> None"
      using same by (simp add: item_unix_def)
    then obtain s2 where s2: "schedule_insert ?k item s1 = Some s2" "sched_inv s2"
        "mset (sched s2) = add_mset item (mset (sched s1))" "schedMap s2 = (schedMap s1)(?k \<mapsto> item)"
        "keyGetter s2 = keyGetter s1" "timeGetter s2 = timeGetter s1"
      using schedule_insert_total [OF s1(2) _ fresh1, of ?k] same by metis
    have "Reschedule item s = Some s2"
      using removed s2(1) t s1(6) by (simp add: Reschedule_def Let_def del: not_None_eq)
    with t show ?thesis
      using that [of s2] s1 s2 by simp
  qed
qed

lemma unique_keys_Reschedule:
  assumes uniq: "unique_keys s" and inv: "sched_inv s" and fresh: "fresh_item item s"
    and r: "Reschedule item s = Some s'"
  shows "unique_keys s'"
proof -
  let ?k = "item_key s item"
  obtain s1 where s1: "schedule_remove ?k s = Some s1" "sched_inv s1"
      "mset (sched s1) = mset (sched s) - (case schedMap s ?k of None \<Rightarrow> {#} | Some p \<Rightarrow> {#p#})"
      "schedMap s1 = (schedMap s)(?k := None)" "keyGetter s1 = keyGetter s" "timeGetter s1 = timeGetter s"
    using schedule_remove_total [OF inv, of ?k] by blast
  note u1 = unique_keys_remove [OF uniq inv s1(3,4,5)]
  have fresh1: "fresh_item item s1"
    using fresh u1(2) by (auto simp: fresh_item_def)
  note same = item_key_cong [OF s1(5)] item_unix_cong [OF s1(6)]
  have removed: "(if schedMap s ?k \<noteq> None then schedule_remove ?k s else Some s) = Some s1"
    using s1(1) by (auto simp: schedule_remove_def)
  show ?thesis
  proof (cases "timeGetter s (deref item) = None")
    case True
    with r removed s1(6) u1(1) show ?thesis by (simp add: Reschedule_def Let_def)
  next
    case False
    then have "item_unix s1 item \<noteq> None" using same by (simp add: item_unix_def)
    then obtain s2 where s2: "schedule_insert ?k item s1 = Some s2"
        "mset (sched s2) = add_mset item (mset (sched s1))"
        "schedMap s2 = (schedMap s1)(?k \<mapsto> item)" "keyGetter s2 = keyGetter s1"
      using schedule_insert_total [OF s1(2) _ fresh1, of ?k] same by metis
    have "s' = s2"
      using r removed s2(1) False s1(6) by (simp add: Reschedule_def Let_def del: not_None_eq)
    moreover have "schedMap s1 ?k = None" and "?k = item_key s1 item"
      by (simp_all add: s1(4) same)
    ultimately show ?thesis
      using unique_keys_insert [OF u1(1) _ _ s2(2,3,4)] by metis
  qed
qed

lemma unique_keys_pop:
  assumes uniq: "unique_keys s" and s: "sched s = p # ps"
  shows "unique_keys (s\<lparr>sched := ps, schedMap := (schedMap s)(item_key s p := None)\<rparr>)"
proof -
  have "item_key s q \<noteq> item_key s p" if "q \<in> set ps" for q
    using unique_keysD [OF uniq, of q p] that uniq s by (auto simp: unique_keys_def)
  then show ?thesis
    using uniq s by (auto simp: unique_keys_def)
qed

section \<open>Properties\<close>

text \<open>No operation of the queue panics, whatever the history: each keeps the invariant that the
  slice is sorted by time and holds every pointer of the map, so \<open>remove\<close> never slices with \<open>-1\<close> and
  \<open>TryPopAt\<close> never dereferences a nil time.\<close>

theorem schedule_never_panics:
  assumes "sched_inv s" and "fresh_item item s"
  shows "(\<exists>s'. Schedule item s = Some s' \<and> sched_inv s')
    \<and> (\<exists>s'. Reschedule item s = Some s' \<and> sched_inv s')
    \<and> (\<exists>s'. Remove key s = Some s' \<and> sched_inv s')
    \<and> (\<exists>r s'. TryPopAt now s = Some (r, s') \<and> sched_inv s')"
proof (intro conjI)
  show "\<exists>s'. Schedule item s = Some s' \<and> sched_inv s'"
  proof (cases "timeGetter s (deref item) = None")
    case True
    with assms show ?thesis by (simp add: Schedule_def)
  next
    case False
    then have "item_unix s item \<noteq> None"
      by (simp add: item_unix_def)
    then show ?thesis
      using schedule_insert_total [OF assms(1) _ assms(2) refl] False by (metis Schedule_def)
  qed
  show "\<exists>s'. Remove key s = Some s' \<and> sched_inv s'"
    using schedule_remove_total [OF assms(1), of key] by (metis Remove_def)
  show "\<exists>s'. Reschedule item s = Some s' \<and> sched_inv s'"
    using Reschedule_total [OF assms] by metis
  show "\<exists>r s'. TryPopAt now s = Some (r, s') \<and> sched_inv s'"
    using schedule.pop_total [OF assms(1)] by metis
qed

theorem schedule_never_panics_witness:
  "\<exists>s'. Reschedule \<lparr>addr = 0, deref = (''lab'', Some 5)\<rparr> (CreateSchedule fst snd) = Some s' \<and> sched_inv s'"
  using schedule_never_panics [OF sched_inv_create, of "\<lparr>addr = 0, deref = (''lab'', Some 5)\<rparr>" fst snd]
  by (simp add: fresh_item_def CreateSchedule_def)

text \<open>Popping the queue once per tick loses nothing: once at least as many ticks at or after \<open>t\<close>
  have passed as items were due at \<open>t\<close>, every one of them has been handed out, in the order of
  their times, and what is left is later than \<open>t\<close>.\<close>

theorem schedule_ticks_drain:
  assumes "sched_inv s" and "\<forall>now \<in> set nows. t \<le> unix now"
    and "length (filter (\<lambda>p. time_of s p \<le> t) (sched s)) \<le> length nows"
  shows "\<exists>ps s'. ticks TryPopAt nows s = Some (ps, s')
    \<and> sorted (map (time_of s) ps)
    \<and> (\<forall>p \<in> set (sched s). time_of s p \<le> t \<longrightarrow> p \<in> set ps)
    \<and> mset (sched s) = mset ps + mset (sched s')"
proof -
  have size: "size {#p \<in># mset (sched s). time_of s p \<le> t#} \<le> length nows"
    using assms(3) by (metis mset_filter size_mset)
  obtain ps s' where ps: "ticks TryPopAt nows s = Some (ps, s')" "time_of s' = time_of s"
      "mset (sched s) = mset ps + mset (sched s')"
    using schedule.ticks_total [OF assms(1)] by blast
  have "\<forall>q \<in># mset (sched s'). t < time_of s q"
    by (rule schedule.ticks_drain [OF assms(1,2) size ps(1)])
  moreover have "set (sched s) = set ps \<union> set (sched s')"
    using ps(3) by (metis set_mset_mset set_mset_union)
  ultimately have "\<forall>p \<in> set (sched s). time_of s p \<le> t \<longrightarrow> p \<in> set ps"
    by auto
  then show ?thesis
    using ps schedule.ticks_sorted [OF assms(1) ps(1)] by blast
qed

theorem schedule_ticks_drain_witness:
  "\<exists>ps s'. ticks TryPopAt [3000000000] \<lparr>sched = [\<lparr>addr = 0, deref = (''lab'', Some 2000000000)\<rparr>],
      schedMap = [''lab'' \<mapsto> \<lparr>addr = 0, deref = (''lab'', Some 2000000000)\<rparr>],
      keyGetter = fst, timeGetter = snd\<rparr> = Some (ps, s')
    \<and> \<lparr>addr = 0, deref = (''lab'', Some 2000000000)\<rparr> \<in> set ps"
proof -
  let ?p = "\<lparr>addr = 0, deref = (''lab'', Some 2000000000)\<rparr> :: (string \<times> int option) ptr"
  let ?s = "\<lparr>sched = [?p], schedMap = [''lab'' \<mapsto> ?p], keyGetter = fst, timeGetter = snd\<rparr>"
  have "sched_inv ?s" and "time_of ?s ?p = 2"
    by (simp_all add: sched_inv_def item_unix_def item_key_def time_of_def unix_def)
  then show ?thesis
    using schedule_ticks_drain [of ?s "[3000000000]" 3] by (fastforce simp: unix_def)
qed

text \<open>While keys are unique, \<open>Remove\<close> cancels exactly the item of its key: nothing under that
  key is left to be popped, and every other item stays.\<close>

theorem remove_unschedules:
  assumes "sched_inv s" and "unique_keys s"
  shows "\<exists>s'. Remove key s = Some s' \<and> \<not> IsScheduled key s'
    \<and> set (sched s') = {p \<in> set (sched s). item_key s p \<noteq> key} \<and> unique_keys s'"
proof -
  obtain s' where s': "schedule_remove key s = Some s'" "schedMap s' = (schedMap s)(key := None)"
      "mset (sched s') = mset (sched s) - (case schedMap s key of None \<Rightarrow> {#} | Some p \<Rightarrow> {#p#})"
      "keyGetter s' = keyGetter s"
    using schedule_remove_total [OF assms(1), of key] by blast
  then show ?thesis
    using unique_keys_remove [OF assms(2,1) s'(3,2,4)]
    by (auto simp: Remove_def IsScheduled_def has_def)
qed

theorem remove_unschedules_witness:
  "\<exists>s'. Remove ''lab'' (\<lparr>sched = [\<lparr>addr = 0, deref = (''lab'', Some 2)\<rparr>],
      schedMap = [''lab'' \<mapsto> \<lparr>addr = 0, deref = (''lab'', Some 2)\<rparr>],
      keyGetter = fst, timeGetter = snd\<rparr> :: (string \<times> int option) schedule) = Some s' \<and> sched s' = []"
proof -
  let ?p = "\<lparr>addr = 0, deref = (''lab'', Some 2)\<rparr> :: (string \<times> int option) ptr"
  let ?s = "\<lparr>sched = [?p], schedMap = [''lab'' \<mapsto> ?p], keyGetter = fst, timeGetter = snd\<rparr>"
  have "sched_inv ?s" and "unique_keys ?s"
    by (simp_all add: sched_inv_def unique_keys_def item_unix_def item_key_def)
  then obtain s' where s': "Remove ''lab'' ?s = Some s'"
      and left: "set (sched s') = {p \<in> set (sched ?s). item_key ?s p \<noteq> ''lab''}"
    using remove_unschedules [of ?s "''lab''"] by blast
  have "set (sched s') = {}"
    unfolding left by (auto simp: item_key_def)
  with s' show ?thesis by auto
qed

text \<open>Scheduling a key that is queued already leaves two items under it, and \<open>Remove\<close> cancels only
  the newer one: the queue then reports the key as not scheduled, while the older item is still
  in it and is popped when its time comes.\<close>

theorem schedule_twice_survives_remove:
  assumes "sched_inv s" and "fresh_item item s" and "addr p \<noteq> addr item"
    and "p \<in> set (sched s)" and "item_key s p = item_key s item" and "timeGetter s (deref item) \<noteq> None"
  shows "\<exists>s1 s2. Schedule item s = Some s1 \<and> Remove (item_key s item) s1 = Some s2
    \<and> \<not> IsScheduled (item_key s item) s2 \<and> p \<in> set (sched s2)"
proof -
  let ?k = "item_key s item"
  have "item_unix s item \<noteq> None"
    using assms(6) by (simp add: item_unix_def)
  then obtain s1 where s1: "schedule_insert ?k item s = Some s1" "sched_inv s1"
      "mset (sched s1) = add_mset item (mset (sched s))" "schedMap s1 = (schedMap s)(?k \<mapsto> item)"
    using schedule_insert_total [OF assms(1) _ assms(2) refl] by metis
  obtain s2 where s2: "schedule_remove ?k s1 = Some s2" "schedMap s2 = (schedMap s1)(?k := None)"
      "mset (sched s2) = mset (sched s1) - (case schedMap s1 ?k of None \<Rightarrow> {#} | Some p \<Rightarrow> {#p#})"
    using schedule_remove_total [OF s1(2), of ?k] by metis
  have "mset (sched s2) = mset (sched s)"
    using s1 s2 by simp
  then have "p \<in> set (sched s2)"
    using assms(4) by (metis set_mset_mset)
  then show ?thesis
    using s1 s2 assms(6) by (auto simp: Schedule_def Remove_def IsScheduled_def has_def)
qed

theorem schedule_twice_survives_remove_witness:
  "\<exists>s1 s2. Schedule \<lparr>addr = 1, deref = (''lab'', Some 2)\<rparr> (\<lparr>sched = [\<lparr>addr = 0, deref = (''lab'', Some 2)\<rparr>],
      schedMap = [''lab'' \<mapsto> \<lparr>addr = 0, deref = (''lab'', Some 2)\<rparr>],
      keyGetter = fst, timeGetter = snd\<rparr> :: (string \<times> int option) schedule) = Some s1
    \<and> Remove ''lab'' s1 = Some s2 \<and> \<not> IsScheduled ''lab'' s2
    \<and> \<lparr>addr = 0, deref = (''lab'', Some 2)\<rparr> \<in> set (sched s2)"
proof -
  let ?p = "\<lparr>addr = 0, deref = (''lab'', Some 2)\<rparr> :: (string \<times> int option) ptr"
  let ?q = "\<lparr>addr = 1, deref = (''lab'', Some 2)\<rparr> :: (string \<times> int option) ptr"
  let ?s = "\<lparr>sched = [?p], schedMap = [''lab'' \<mapsto> ?p], keyGetter = fst, timeGetter = snd\<rparr>"
  have "sched_inv ?s" and "fresh_item ?q ?s" and "item_key ?s ?p = ''lab''" and "item_key ?s ?q = ''lab''"
    by (simp_all add: sched_inv_def fresh_item_def item_unix_def item_key_def)
  then show ?thesis
    using schedule_twice_survives_remove [of ?s ?q ?p] by simp
qed

end
