(* ===== verification/Event_Bus.thy ===== *)
theory Event_Bus
  imports Prelude "HOL-Library.Word"
begin

text \<open>
  The publish/subscribe bus of \<open>src/utils/event_bus.go\<close>. Subscribers are a map from topics to maps
  from 64-bit ids to handlers. Go iterates over a map in an unspecified order, so \<open>Publish\<close> takes
  the order in which the handlers of the topic are called: a list of the entries of the map.
  A handler is a function on the state it closes over.
\<close>

type_synonym handler_id = "64 word"

record 'h bus =
  nextId :: handler_id
  subscribers :: "string \<rightharpoonup> (handler_id \<rightharpoonup> 'h)"

definition CreateEventBus :: "'h bus" where
  "CreateEventBus = \<lparr>nextId = 0, subscribers = Map.empty\<rparr>"

text \<open>The handlers a topic has, and the calls \<open>Publish\<close> makes in the given order.\<close>

definition topic_handlers :: "string \<Rightarrow> 'h bus \<Rightarrow> handler_id \<rightharpoonup> 'h" where
  "topic_handlers topic b = (case subscribers b topic of None \<Rightarrow> Map.empty | Some m \<Rightarrow> m)"

definition iterates :: "('k \<times> 'v) list \<Rightarrow> ('k \<rightharpoonup> 'v) \<Rightarrow> bool" where
  "iterates order m \<longleftrightarrow> distinct (map fst order) \<and> map_of order = m"

definition Publish :: "(handler_id \<times> ('v \<Rightarrow> 's \<Rightarrow> 's)) list \<Rightarrow> 'v \<Rightarrow> 's \<Rightarrow> 's" where
  "Publish order value s = fold (\<lambda>(_, fn). fn value) order s"

definition Subscribe :: "string \<Rightarrow> 'h \<Rightarrow> 'h bus \<Rightarrow> handler_id \<times> 'h bus" where
  "Subscribe topic handler b =
     (let ident = nextId b + 1
      in (ident, b\<lparr>nextId := ident,
                  subscribers := (subscribers b)(topic \<mapsto> (topic_handlers topic b)(ident \<mapsto> handler))\<rparr>))"

text \<open>The function \<open>Subscribe\<close> returns.\<close>

definition unsubscribe :: "string \<Rightarrow> handler_id \<Rightarrow> 'h bus \<Rightarrow> 'h bus" where
  "unsubscribe topic ident b =
     (case subscribers b topic of
        None \<Rightarrow> b
      | Some m \<Rightarrow>
          (let m' = m(ident := None)
           in b\<lparr>subscribers := (subscribers b)(topic := if m' = Map.empty then None else Some m')\<rparr>))"

section \<open>The invariant\<close>

text \<open>Ids are below the counter, which has not wrapped around, and no topic has an empty map.\<close>

definition bus_inv :: "'h bus \<Rightarrow> bool" where
  "bus_inv b \<longleftrightarrow>
     (\<forall>topic m. subscribers b topic = Some m \<longrightarrow>
        m \<noteq> Map.empty \<and> (\<forall>ident. m ident \<noteq> None \<longrightarrow> ident \<le> nextId b))"

lemma bus_inv_create: "bus_inv CreateEventBus"
  by (simp add: bus_inv_def CreateEventBus_def)

lemma word_lt_succ:
  fixes n :: "64 word"
  assumes "n \<noteq> -1"
  shows "n < n + 1"
proof -
  have "n + 1 \<noteq> 0"
  proof
    assume "n + 1 = 0"
    then have "n = 0 - 1" by (metis add_diff_cancel_right')
    with assms show False by simp
  qed
  then show ?thesis
    by (simp add: word_less_nat_alt unatSuc add.commute)
qed

lemma bus_inv_subscribe:
  assumes "bus_inv b" and "nextId b \<noteq> -1"
  shows "bus_inv (snd (Subscribe topic h b))"
  using assms word_lt_succ [OF assms(2)]
  by (fastforce simp: bus_inv_def Subscribe_def Let_def topic_handlers_def
      split: option.splits if_splits)

lemma bus_inv_unsubscribe: "bus_inv b \<Longrightarrow> bus_inv (unsubscribe topic ident b)"
  by (fastforce simp: bus_inv_def unsubscribe_def Let_def split: option.splits if_splits)

text \<open>The id of a new subscription is not in use, so no subscription replaces another.\<close>

lemma subscribe_fresh:
  assumes "bus_inv b" and "nextId b \<noteq> -1"
  shows "topic_handlers topic b (fst (Subscribe topic h b)) = None"
  using assms word_lt_succ [OF assms(2)]
  by (fastforce simp: bus_inv_def Subscribe_def Let_def topic_handlers_def split: option.splits)

section \<open>Properties\<close>

text \<open>A subscription adds one handler to its topic and nothing else, and calling the function it
  returns takes the bus back to the handlers it had, whatever was subscribed to other topics.\<close>

theorem subscribe_unsubscribe:
  assumes "bus_inv b" and "nextId b \<noteq> -1" and "Subscribe topic h b = (ident, b')"
  shows "topic_handlers topic b' = (topic_handlers topic b)(ident \<mapsto> h)
    \<and> (\<forall>t. t \<noteq> topic \<longrightarrow> topic_handlers t b' = topic_handlers t b)
    \<and> subscribers (unsubscribe topic ident b') = subscribers b"
proof -
  have fresh: "topic_handlers topic b ident = None"
    using subscribe_fresh [OF assms(1,2), of topic h] assms(3) by simp
  have "subscribers (unsubscribe topic ident b') = subscribers b"
  proof (cases "subscribers b topic")
    case None
    then show ?thesis
      using assms(3)
      by (auto simp: Subscribe_def unsubscribe_def topic_handlers_def Let_def fun_upd_idem)
  next
    case (Some m)
    then have "m \<noteq> Map.empty" and "m ident = None"
      using assms(1) fresh by (auto simp: bus_inv_def topic_handlers_def)
    then have "m(ident := None) = m" by (simp add: fun_upd_idem)
    with Some \<open>m \<noteq> Map.empty\<close> show ?thesis
      using assms(3)
      by (auto simp: Subscribe_def unsubscribe_def topic_handlers_def Let_def fun_upd_idem)
  qed
  moreover have "topic_handlers topic b' = (topic_handlers topic b)(ident \<mapsto> h)"
      and "\<forall>t. t \<noteq> topic \<longrightarrow> topic_handlers t b' = topic_handlers t b"
    using assms(3) by (auto simp: Subscribe_def topic_handlers_def Let_def)
  ultimately show ?thesis by blast
qed

theorem subscribe_unsubscribe_witness:
  "topic_handlers ''lab.deleted'' (snd (Subscribe ''lab.deleted'' (7 :: nat) CreateEventBus)) 1 = Some 7"
proof -
  have "Subscribe ''lab.deleted'' (7 :: nat) CreateEventBus
      = (1, snd (Subscribe ''lab.deleted'' (7 :: nat) CreateEventBus))"
    by (simp add: Subscribe_def CreateEventBus_def Let_def)
  from subscribe_unsubscribe [OF bus_inv_create _ this]
  show ?thesis by (simp add: CreateEventBus_def topic_handlers_def)
qed

end
