(* ===== verification/Entities.thy ===== *)
theory Entities
  imports Prelude
begin

text \<open>
  The entities of \<open>src/domain/*/entity.go\<close> and the payloads of the API. A pointer to a value that
  may be absent is an option. Of the embedded \<open>gorm.Model\<close> only the primary key is kept: the code
  never reads its timestamps, and rows that are deleted softly are not returned by the database.
  A field of an entity has the entity as prefix. A time is a number of nanoseconds.
\<close>

record user =
  user_ID :: nat
  user_UUID :: string
  user_Sub :: string
  user_Name :: string

record collection =
  coll_ID :: nat
  coll_UUID :: string
  coll_Name :: string
  coll_PublicWrite :: bool
  coll_PublicDeploy :: bool
  coll_Creator :: user
  coll_CreatorID :: nat

record topology =
  topo_ID :: nat
  topo_UUID :: string
  topo_Name :: string
  topo_SyncUrl :: string
  topo_Collection :: collection
  topo_CollectionID :: nat
  topo_Creator :: user
  topo_CreatorID :: nat
  topo_LastDeployFailed :: bool

record bind_file =
  bind_ID :: nat
  bind_UUID :: string
  bind_FilePath :: string
  bind_Topology :: topology
  bind_TopologyID :: nat

record lab =
  lab_ID :: nat
  lab_UUID :: string
  lab_Name :: string
  lab_StartTime :: int
  lab_EndTime :: "int option"
  lab_Topology :: topology
  lab_TopologyID :: nat
  lab_Collection :: collection
  lab_CollectionID :: nat
  lab_Creator :: user
  lab_CreatorID :: nat
  lab_InstanceName :: string
  lab_TopologyDefinition :: "string option"
  lab_TopologyAnnotations :: "string option"

text \<open>The authenticated user a request carries (\<open>src/auth/manager.go\<close>).\<close>

record authenticated_user =
  UserId :: string
  Collections :: "string list"
  IsAdmin :: bool

section \<open>Payloads\<close>

record collection_in =
  ci_Name :: string
  ci_PublicWrite :: bool
  ci_PublicDeploy :: bool

record collection_in_partial =
  cip_Name :: "string option"
  cip_PublicWrite :: "bool option"
  cip_PublicDeploy :: "bool option"

record topology_in =
  ti_Definition :: string
  ti_Annotations :: string
  ti_SyncUrl :: string
  ti_CollectionId :: string

record topology_in_partial =
  tip_Definition :: "string option"
  tip_Annotations :: "string option"
  tip_SyncUrl :: "string option"
  tip_CollectionId :: "string option"

record bind_file_in =
  bi_Content :: string
  bi_FilePath :: string

record bind_file_in_partial =
  bip_Content :: "string option"
  bip_FilePath :: "string option"

record bind_file_full =
  bf_ID :: string
  bf_FilePath :: string
  bf_Content :: string
  bf_Topology :: topology

record lab_in =
  li_Name :: string
  li_StartTime :: int
  li_EndTime :: "int option"
  li_TopologyId :: string

record lab_in_partial =
  lip_Name :: "string option"
  lip_StartTime :: "int option"
  lip_EndTime :: "int option"
  lip_Indefinite :: "bool option"

record lab_filter =
  lf_Limit :: int
  lf_Offset :: int
  lf_SearchQuery :: "string option"
  lf_StartDate :: "int option"
  lf_EndDate :: "int option"
  lf_StateFilter :: "int list"
  lf_CollectionFilter :: "string list"

section \<open>The zero values of the structs\<close>

definition zero_user :: user where
  "zero_user = \<lparr>user_ID = 0, user_UUID = [], user_Sub = [], user_Name = []\<rparr>"

definition zero_collection :: collection where
  "zero_collection = \<lparr>coll_ID = 0, coll_UUID = [], coll_Name = [], coll_PublicWrite = False,
     coll_PublicDeploy = False, coll_Creator = zero_user, coll_CreatorID = 0\<rparr>"

definition zero_topology :: topology where
  "zero_topology = \<lparr>topo_ID = 0, topo_UUID = [], topo_Name = [], topo_SyncUrl = [],
     topo_Collection = zero_collection, topo_CollectionID = 0, topo_Creator = zero_user,
     topo_CreatorID = 0, topo_LastDeployFailed = False\<rparr>"

definition zero_bind_file :: bind_file where
  "zero_bind_file = \<lparr>bind_ID = 0, bind_UUID = [], bind_FilePath = [], bind_Topology = zero_topology,
     bind_TopologyID = 0\<rparr>"

text \<open>The zero \<open>time.Time\<close> is January 1, year 1: its distance to the Unix epoch.\<close>

definition zero_time :: int where
  "zero_time = - 62135596800 * 1000000000"

definition zero_lab :: lab where
  "zero_lab = \<lparr>lab_ID = 0, lab_UUID = [], lab_Name = [], lab_StartTime = zero_time, lab_EndTime = None,
     lab_Topology = zero_topology, lab_TopologyID = 0, lab_Collection = zero_collection,
     lab_CollectionID = 0, lab_Creator = zero_user, lab_CreatorID = 0, lab_InstanceName = [],
     lab_TopologyDefinition = None, lab_TopologyAnnotations = None\<rparr>"

end
