(* ===== verification/Scheduler.thy ===== *)
theory Scheduler
  imports Schedule Entities "HOL-Library.Word"
begin

text \<open>
  The scheduler of \<open>src/runtime/scheduler/scheduler.go\<close>: two queues of labs, one sorted by start and
  one by end time, the handlers of the lab events, and the loop \<open>Run\<close> that starts the deployment
  and the destruction of due labs in goroutines of their own.

  A handler is the list of its queue operations, each of which holds the mutex of its queue, and an
  iteration of \<open>Run\<close> is four such steps. The step relation \<open>sched_step\<close> interleaves the handlers
  that are running with each other and with \<open>Run\<close>; \<open>handle\<close> and \<open>run_once\<close> are the special case
  that runs one of them to its end. \<open>copyLab\<close> allocates the address of the copy. The goroutines
  that \<open>Run\<close> starts are recorded with the time they were started at.
\<close>

section \<open>State and operations\<close>

record scheduler =
  deploymentSchedule :: "lab schedule"
  destructionSchedule :: "lab schedule"
  ticks_count :: "64 word"
  next_addr :: nat

datatype action = DeployLab lab | DestroyLab lab

definition CreateScheduler :: scheduler where
  "CreateScheduler =
     \<lparr>deploymentSchedule = CreateSchedule lab_UUID (\<lambda>l. Some (lab_StartTime l)),
      destructionSchedule = CreateSchedule lab_UUID lab_EndTime,
      ticks_count = 0, next_addr = 0\<rparr>"

definition copyLab :: "lab \<Rightarrow> scheduler \<Rightarrow> lab ptr \<times> scheduler" where
  "copyLab l s = (\<lparr>addr = next_addr s, deref = l\<rparr>, s\<lparr>next_addr := next_addr s + 1\<rparr>)"

datatype queue = Deployment | Destruction

datatype queue_op =
    ScheduleOp queue lab
  | RescheduleOp queue lab
  | RemoveOp queue string

fun on_queue :: "queue \<Rightarrow> (lab schedule \<Rightarrow> lab schedule option) \<Rightarrow> scheduler \<Rightarrow> scheduler option" where
  "on_queue Deployment f s =
     map_option (\<lambda>q. s\<lparr>deploymentSchedule := q\<rparr>) (f (deploymentSchedule s))"
| "on_queue Destruction f s =
     map_option (\<lambda>q. s\<lparr>destructionSchedule := q\<rparr>) (f (destructionSchedule s))"

fun queue_step :: "queue_op \<Rightarrow> scheduler \<Rightarrow> scheduler option" where
  "queue_step (ScheduleOp q l) s = (let (p, s) = copyLab l s in on_queue q (Schedule p) s)"
| "queue_step (RescheduleOp q l) s = (let (p, s) = copyLab l s in on_queue q (Reschedule p) s)"
| "queue_step (RemoveOp q key) s = on_queue q (Remove key) s"

text \<open>The events of the lab event bus, and what the handlers do on them.\<close>

datatype lab_event =
    LabCreated lab
  | LabMoved lab
  | LabDeleted lab
  | LabManuallyDeployed lab
  | LabRestored lab

definition onLabCreated :: "lab \<Rightarrow> queue_op list" where
  "onLabCreated l = [ScheduleOp Deployment l, ScheduleOp Destruction l]"

definition onLabDeleted :: "lab \<Rightarrow> queue_op list" where
  "onLabDeleted l = [RemoveOp Deployment (lab_UUID l), RemoveOp Destruction (lab_UUID l)]"

definition onLabMoved :: "lab \<Rightarrow> queue_op list" where
  "onLabMoved l = [RescheduleOp Deployment l, RescheduleOp Destruction l]"

definition onLabManuallyDeployed :: "lab \<Rightarrow> queue_op list" where
  "onLabManuallyDeployed l = [RemoveOp Deployment (lab_UUID l), ScheduleOp Destruction l]"

definition onLabRestored :: "lab \<Rightarrow> queue_op list" where
  "onLabRestored l = [ScheduleOp Destruction l]"

fun handler_ops :: "lab_event \<Rightarrow> queue_op list" where
  "handler_ops (LabCreated l) = onLabCreated l"
| "handler_ops (LabMoved l) = onLabMoved l"
| "handler_ops (LabDeleted l) = onLabDeleted l"
| "handler_ops (LabManuallyDeployed l) = onLabManuallyDeployed l"
| "handler_ops (LabRestored l) = onLabRestored l"

fun queue_steps :: "queue_op list \<Rightarrow> scheduler \<Rightarrow> scheduler option" where
  "queue_steps [] s = Some s"
| "queue_steps (op # ops) s = Option.bind (queue_step op s) (queue_steps ops)"

lemma queue_steps_Nil [simp]: "Option.bind x (queue_steps []) = x"
  by (cases x) auto

definition handle :: "lab_event \<Rightarrow> scheduler \<Rightarrow> scheduler option" where
  "handle e = queue_steps (handler_ops e)"

text \<open>The steps of one iteration of \<open>Run\<close> and their composition.\<close>

definition pop_deployment :: "int \<Rightarrow> scheduler \<Rightarrow> (lab option \<times> scheduler) option" where
  "pop_deployment now s =
     map_option (\<lambda>(r, q). (map_option deref r, s\<lparr>deploymentSchedule := q\<rparr>))
       (TryPopAt now (deploymentSchedule s))"

definition pop_destruction :: "int \<Rightarrow> scheduler \<Rightarrow> (lab option \<times> scheduler) option" where
  "pop_destruction now s =
     map_option (\<lambda>(r, q). (map_option deref r, s\<lparr>destructionSchedule := q\<rparr>))
       (TryPopAt now (destructionSchedule s))"

definition after_deployment :: "lab option \<Rightarrow> scheduler \<Rightarrow> scheduler option" where
  "after_deployment dueLab s =
     (case dueLab of None \<Rightarrow> Some s | Some l \<Rightarrow> queue_step (ScheduleOp Destruction l) s)"

definition run_once :: "int \<Rightarrow> scheduler \<Rightarrow> (action list \<times> scheduler) option" where
  "run_once now s =
     (case pop_deployment now s of None \<Rightarrow> None | Some (toDeploy, s) \<Rightarrow>
      case after_deployment toDeploy s of None \<Rightarrow> None | Some s \<Rightarrow>
      case pop_destruction now s of None \<Rightarrow> None | Some (toDestroy, s) \<Rightarrow>
        Some ((case toDeploy of None \<Rightarrow> [] | Some l \<Rightarrow> [DeployLab l])
              @ (case toDestroy of None \<Rightarrow> [] | Some l \<Rightarrow> [DestroyLab l]),
              s\<lparr>ticks_count := ticks_count s + 1\<rparr>))"

text \<open>Handlers and iterations that do not overlap, in the order they happen.\<close>

datatype input = Event lab_event | Tick int

fun exec :: "input list \<Rightarrow> scheduler \<Rightarrow> (action list \<times> scheduler) option" where
  "exec [] s = Some ([], s)"
| "exec (Event e # ins) s = (case handle e s of None \<Rightarrow> None | Some s \<Rightarrow> exec ins s)"
| "exec (Tick now # ins) s =
     (case run_once now s of
        None \<Rightarrow> None
      | Some (acts, s) \<Rightarrow> map_option (\<lambda>(acts', s). (acts @ acts', s)) (exec ins s))"

section \<open>Interleavings\<close>

text \<open>Where \<open>Run\<close> is in its iteration, the handlers that are running, and what was started when.\<close>

datatype run_pc = Waiting | Popped int "lab option" | Deployed int

record system =
  sch :: scheduler
  pc :: run_pc
  handlers :: "queue_op list list"
  started :: "(int \<times> action) list"

inductive sched_step :: "system \<Rightarrow> system \<Rightarrow> bool" where
  publish: "sched_step \<sigma> (\<sigma>\<lparr>handlers := handlers \<sigma> @ [handler_ops e]\<rparr>)"
| handler: "i < length (handlers \<sigma>) \<Longrightarrow> handlers \<sigma> ! i = op # ops \<Longrightarrow> queue_step op (sch \<sigma>) = Some s \<Longrightarrow>
    sched_step \<sigma> (\<sigma>\<lparr>sch := s, handlers := (handlers \<sigma>)[i := ops]\<rparr>)"
| run_pop: "pc \<sigma> = Waiting \<Longrightarrow> pop_deployment now (sch \<sigma>) = Some (due, s) \<Longrightarrow>
    sched_step \<sigma> (\<sigma>\<lparr>sch := s, pc := Popped now due,
      started := started \<sigma> @ (case due of None \<Rightarrow> [] | Some l \<Rightarrow> [(now, DeployLab l)])\<rparr>)"
| run_deployed: "pc \<sigma> = Popped now due \<Longrightarrow> after_deployment due (sch \<sigma>) = Some s \<Longrightarrow>
    sched_step \<sigma> (\<sigma>\<lparr>sch := s, pc := Deployed now\<rparr>)"
| run_destroy: "pc \<sigma> = Deployed now \<Longrightarrow> pop_destruction now (sch \<sigma>) = Some (due, s) \<Longrightarrow>
    sched_step \<sigma> (\<sigma>\<lparr>sch := s\<lparr>ticks_count := ticks_count s + 1\<rparr>, pc := Waiting,
      started := started \<sigma> @ (case due of None \<Rightarrow> [] | Some l \<Rightarrow> [(now, DestroyLab l)])\<rparr>)"

inductive sched_reachable :: "system \<Rightarrow> bool" where
  initial: "sched_reachable \<lparr>sch = CreateScheduler, pc = Waiting, handlers = [], started = []\<rparr>"
| step: "sched_reachable \<sigma> \<Longrightarrow> sched_step \<sigma> \<sigma>' \<Longrightarrow> sched_reachable \<sigma>'"

section \<open>The invariant\<close>

text \<open>A queue is well formed and its addresses are below \<open>n\<close>.\<close>

definition queue_ok :: "(lab \<Rightarrow> string) \<Rightarrow> (lab \<Rightarrow> int option) \<Rightarrow> nat \<Rightarrow> lab schedule \<Rightarrow> bool" where
  "queue_ok kg tg n q \<longleftrightarrow>
     sched_inv q \<and> keyGetter q = kg \<and> timeGetter q = tg \<and> (\<forall>p \<in> set (sched q). addr p < n)"

definition scheduler_inv :: "scheduler \<Rightarrow> bool" where
  "scheduler_inv s \<longleftrightarrow>
     queue_ok lab_UUID (\<lambda>l. Some (lab_StartTime l)) (next_addr s) (deploymentSchedule s)
     \<and> queue_ok lab_UUID lab_EndTime (next_addr s) (destructionSchedule s)"

lemma scheduler_inv_create: "scheduler_inv CreateScheduler"
  by (simp add: scheduler_inv_def queue_ok_def CreateScheduler_def sched_inv_create)
     (simp add: CreateSchedule_def)

lemma queue_ok_Suc: "queue_ok kg tg n q \<Longrightarrow> queue_ok kg tg (Suc n) q"
  by (auto simp: queue_ok_def less_Suc_eq)

lemma queue_ok_fresh: "queue_ok kg tg n q \<Longrightarrow> fresh_item \<lparr>addr = n, deref = l\<rparr> q"
  by (auto simp: queue_ok_def fresh_item_def)

lemma queue_ok_key: "queue_ok kg tg n q \<Longrightarrow> item_key q p = kg (deref p)"
  by (simp add: queue_ok_def item_key_def)

lemma queue_ok_unix: "queue_ok kg tg n q \<Longrightarrow> item_unix q p = map_option unix (tg (deref p))"
  by (simp add: queue_ok_def item_unix_def)

lemma set_of_mset_minus: "mset xs = mset ys - A \<Longrightarrow> set xs \<subseteq> set ys"
  by (metis diff_subset_eq_self set_mset_mono set_mset_mset)

lemma Schedule_ok:
  assumes q: "queue_ok kg tg n q"
  shows "\<exists>q'. Schedule \<lparr>addr = n, deref = l\<rparr> q = Some q' \<and> queue_ok kg tg (Suc n) q'
    \<and> mset (sched q') = mset (sched q) + (if tg l = None then {#} else {#\<lparr>addr = n, deref = l\<rparr>#})
    \<and> schedMap q' = (if tg l = None then schedMap q else (schedMap q)(kg l \<mapsto> \<lparr>addr = n, deref = l\<rparr>))"
proof (cases "tg l = None")
  case True
  with q queue_ok_Suc [OF q] show ?thesis by (auto simp: Schedule_def queue_ok_def)
next
  case False
  let ?p = "\<lparr>addr = n, deref = l\<rparr>"
  have "item_unix q ?p \<noteq> None" and inv: "sched_inv q"
    using False q by (auto simp: queue_ok_unix [OF q]) (simp add: queue_ok_def)
  then obtain q' where q': "schedule_insert (item_key q ?p) ?p q = Some q'" "sched_inv q'"
      "mset (sched q') = add_mset ?p (mset (sched q))"
      "schedMap q' = (schedMap q)(item_key q ?p \<mapsto> ?p)"
      "keyGetter q' = keyGetter q" "timeGetter q' = timeGetter q"
    using schedule_insert_total [OF inv _ queue_ok_fresh [OF q] refl] by metis
  from q'(3) have "set (sched q') = insert ?p (set (sched q))"
    by (metis set_mset_add_mset_insert set_mset_mset)
  then have "queue_ok kg tg (Suc n) q'"
    using q q' by (auto simp: queue_ok_def less_Suc_eq)
  moreover obtain t where t: "tg l = Some t" using False by blast
  moreover have "Schedule ?p q = Some q'"
    using q'(1) q t by (simp add: Schedule_def queue_ok_def)
  ultimately show ?thesis
    using q'(3,4) queue_ok_key [OF q] by (intro exI [of _ q']) simp
qed

lemma Reschedule_ok:
  assumes q: "queue_ok kg tg n q"
  shows "\<exists>q'. Reschedule \<lparr>addr = n, deref = l\<rparr> q = Some q' \<and> queue_ok kg tg (Suc n) q'
    \<and> set (sched q') \<subseteq> insert \<lparr>addr = n, deref = l\<rparr> (set (sched q))"
proof -
  let ?p = "\<lparr>addr = n, deref = l\<rparr>"
  have inv: "sched_inv q" using q by (simp add: queue_ok_def)
  obtain q' A where q': "Reschedule ?p q = Some q'" "sched_inv q'"
      "keyGetter q' = keyGetter q" "timeGetter q' = timeGetter q"
      and m: "mset (sched q') = mset (sched q) - A + (if timeGetter q (deref ?p) = None then {#} else {#?p#})"
    using Reschedule_total [OF inv queue_ok_fresh [OF q]] by metis
  have "x = ?p \<or> x \<in> set (sched q)" if "x \<in> set (sched q')" for x
  proof -
    from that have "x \<in># mset (sched q) - A + (if timeGetter q (deref ?p) = None then {#} else {#?p#})"
      by (metis m set_mset_mset)
    then show ?thesis by (auto dest: in_diffD split: if_splits)
  qed
  then have "set (sched q') \<subseteq> insert ?p (set (sched q))"
    by auto
  moreover from this have "queue_ok kg tg (Suc n) q'"
    using q q' by (auto simp: queue_ok_def less_Suc_eq)
  ultimately show ?thesis using q'(1) by blast
qed

lemma Remove_ok:
  assumes q: "queue_ok kg tg n q"
  shows "\<exists>q'. Remove key q = Some q' \<and> queue_ok kg tg n q' \<and> set (sched q') \<subseteq> set (sched q)"
proof -
  have inv: "sched_inv q" using q by (simp add: queue_ok_def)
  obtain q' where "schedule_remove key q = Some q'" "sched_inv q'" "keyGetter q' = keyGetter q"
      "timeGetter q' = timeGetter q" "set (sched q') \<subseteq> set (sched q)"
    using schedule_remove_total [OF inv, of key] set_of_mset_minus by metis
  with q show ?thesis by (auto simp: Remove_def queue_ok_def)
qed

lemma TryPopAt_ok:
  assumes q: "queue_ok kg tg n q"
  shows "\<exists>r q'. TryPopAt now q = Some (r, q') \<and> queue_ok kg tg n q'
    \<and> (\<forall>p. r = Some p \<longrightarrow> p \<in> set (sched q) \<and> (\<exists>t. tg (deref p) = Some t \<and> unix t \<le> unix now))"
proof -
  have inv: "sched_inv q" using q by (simp add: queue_ok_def)
  show ?thesis
  proof (cases "sched q")
    case Nil
    with q inv show ?thesis by (simp add: TryPopAt_total)
  next
    case (Cons p ps)
    then obtain t where "tg (deref p) = Some t" "time_of q p = unix t"
      using inv queue_ok_unix [OF q, of p] by (auto simp: sched_inv_def time_of_def)
    then show ?thesis
      using q inv Cons sched_inv_pop [OF inv Cons] by (auto simp: TryPopAt_total queue_ok_def)
  qed
qed

lemma queue_step_total:
  assumes inv: "scheduler_inv s"
  shows "\<exists>s'. queue_step op s = Some s' \<and> scheduler_inv s'"
proof -
  let ?D = "queue_ok lab_UUID (\<lambda>l. Some (lab_StartTime l))"
  have d: "?D (next_addr s) (deploymentSchedule s)"
      and e: "queue_ok lab_UUID lab_EndTime (next_addr s) (destructionSchedule s)"
    using inv by (simp_all add: scheduler_inv_def)
  show ?thesis
  proof (cases op)
    case (ScheduleOp q l)
    then show ?thesis
      using Schedule_ok [OF d, of l] Schedule_ok [OF e, of l] queue_ok_Suc [OF d] queue_ok_Suc [OF e]
      by (cases q) (auto simp: copyLab_def scheduler_inv_def)
  next
    case (RescheduleOp q l)
    then show ?thesis
      using Reschedule_ok [OF d, of l] Reschedule_ok [OF e, of l] queue_ok_Suc [OF d] queue_ok_Suc [OF e]
      by (cases q) (auto simp: copyLab_def scheduler_inv_def)
  next
    case (RemoveOp q key)
    then show ?thesis
      using Remove_ok [OF d, of key] Remove_ok [OF e, of key] d e
      by (cases q) (auto simp: scheduler_inv_def)
  qed
qed

lemma pop_deployment_total:
  assumes "scheduler_inv s"
  shows "\<exists>r s'. pop_deployment now s = Some (r, s') \<and> scheduler_inv s'
    \<and> (\<forall>l. r = Some l \<longrightarrow> unix (lab_StartTime l) \<le> unix now
          \<and> (\<exists>p \<in> set (sched (deploymentSchedule s)). deref p = l))"
proof -
  from assms obtain r q' where "TryPopAt now (deploymentSchedule s) = Some (r, q')"
      "queue_ok lab_UUID (\<lambda>l. Some (lab_StartTime l)) (next_addr s) q'"
      "\<forall>p. r = Some p \<longrightarrow> p \<in> set (sched (deploymentSchedule s))
         \<and> unix (lab_StartTime (deref p)) \<le> unix now"
    using TryPopAt_ok by (fastforce simp: scheduler_inv_def)
  with assms show ?thesis
    by (cases r) (auto simp: pop_deployment_def scheduler_inv_def)
qed

lemma pop_destruction_total:
  assumes "scheduler_inv s"
  shows "\<exists>r s'. pop_destruction now s = Some (r, s') \<and> scheduler_inv s'
    \<and> (\<forall>l. r = Some l \<longrightarrow> (\<exists>e. lab_EndTime l = Some e \<and> unix e \<le> unix now))"
proof -
  from assms obtain r q' where "TryPopAt now (destructionSchedule s) = Some (r, q')"
      "queue_ok lab_UUID lab_EndTime (next_addr s) q'"
      "\<forall>p. r = Some p \<longrightarrow> (\<exists>e. lab_EndTime (deref p) = Some e \<and> unix e \<le> unix now)"
    using TryPopAt_ok by (fastforce simp: scheduler_inv_def)
  with assms show ?thesis
    by (cases r) (auto simp: pop_destruction_def scheduler_inv_def)
qed

lemma after_deployment_total:
  "scheduler_inv s \<Longrightarrow> \<exists>s'. after_deployment due s = Some s' \<and> scheduler_inv s'"
  using queue_step_total [of s] by (auto simp: after_deployment_def simp del: queue_step.simps split: option.split)

lemma scheduler_inv_ticks [simp]: "scheduler_inv (s\<lparr>ticks_count := n\<rparr>) = scheduler_inv s"
  by (simp add: scheduler_inv_def)

section \<open>What is started is due\<close>

fun due_action :: "int \<times> action \<Rightarrow> bool" where
  "due_action (now, DeployLab l) = (unix (lab_StartTime l) \<le> unix now)"
| "due_action (now, DestroyLab l) = (case lab_EndTime l of None \<Rightarrow> False | Some e \<Rightarrow> unix e \<le> unix now)"

lemma sched_reachable_inv:
  "sched_reachable \<sigma> \<Longrightarrow> scheduler_inv (sch \<sigma>) \<and> (\<forall>a \<in> set (started \<sigma>). due_action a)"
proof (induction rule: sched_reachable.induct)
  case initial
  then show ?case by (simp add: scheduler_inv_create)
next
  case (step \<sigma> \<sigma>')
  then have inv: "scheduler_inv (sch \<sigma>)" by simp
  from step.hyps(2) show ?case
  proof (cases rule: sched_step.cases)
    case (publish e)
    with step show ?thesis by simp
  next
    case (handler i op ops s)
    with step queue_step_total [OF inv, of op] show ?thesis by auto
  next
    case (run_pop now due s)
    with step pop_deployment_total [OF inv, of now] show ?thesis by (auto split: option.splits)
  next
    case (run_deployed now due s)
    with step after_deployment_total [OF inv, of due] show ?thesis by auto
  next
    case (run_destroy now due s)
    with step pop_destruction_total [OF inv, of now] show ?thesis by (auto split: option.splits)
  qed
qed

section \<open>Deployments are unique\<close>

text \<open>
  The inputs create a lab once and do not move it before: the database gives every lab its own UUID,
  and the event of its creation comes first.
\<close>

fun created_once :: "string set \<Rightarrow> input list \<Rightarrow> bool" where
  "created_once seen [] = True"
| "created_once seen (Event (LabCreated l) # ins) =
     (lab_UUID l \<notin> seen \<and> created_once (insert (lab_UUID l) seen) ins)"
| "created_once seen (Event (LabMoved l) # ins) = created_once (insert (lab_UUID l) seen) ins"
| "created_once seen (_ # ins) = created_once seen ins"

definition waits :: "scheduler \<Rightarrow> string set" where
  "waits s = (\<lambda>p. lab_UUID (deref p)) ` set (sched (deploymentSchedule s))"

text \<open>How one queue operation changes the labs that wait for their deployment.\<close>

fun may_add :: "queue_op \<Rightarrow> string set" where
  "may_add (ScheduleOp Deployment l) = {lab_UUID l}"
| "may_add (RescheduleOp Deployment l) = {lab_UUID l}"
| "may_add _ = {}"

fun keeps_unique :: "queue_op \<Rightarrow> scheduler \<Rightarrow> bool" where
  "keeps_unique (ScheduleOp Deployment l) s = (lab_UUID l \<notin> waits s)"
| "keeps_unique _ s = True"

lemma deployment_ok:
  "scheduler_inv s \<Longrightarrow>
    queue_ok lab_UUID (\<lambda>l. Some (lab_StartTime l)) (next_addr s) (deploymentSchedule s)"
  by (simp add: scheduler_inv_def)

lemma set_of_mset_plus: "mset xs = mset ys + {#p#} \<Longrightarrow> set xs = insert p (set ys)"
  by (metis add_mset_add_single set_mset_add_mset_insert set_mset_mset)

lemma queue_step_waits:
  assumes inv: "scheduler_inv s" and st: "queue_step op s = Some s'"
  shows "waits s' \<subseteq> waits s \<union> may_add op"
proof (cases op)
  case (ScheduleOp q l)
  let ?p = "\<lparr>addr = next_addr s, deref = l\<rparr>"
  obtain Q where "Schedule ?p (deploymentSchedule s) = Some Q"
      "set (sched Q) = insert ?p (set (sched (deploymentSchedule s)))"
    using Schedule_ok [OF deployment_ok [OF inv], of l] set_of_mset_plus by fastforce
  with ScheduleOp st show ?thesis
    by (cases q) (auto simp: copyLab_def waits_def split: option.splits)
next
  case (RescheduleOp q l)
  then show ?thesis
    using Reschedule_ok [OF deployment_ok [OF inv], of l] st
    by (cases q) (auto simp: copyLab_def waits_def split: option.splits)
next
  case (RemoveOp q key)
  then show ?thesis
    using Remove_ok [OF deployment_ok [OF inv], of key] st
    by (cases q) (auto simp: waits_def split: option.splits)
qed

lemma queue_step_unique:
  assumes inv: "scheduler_inv s" and uniq: "unique_keys (deploymentSchedule s)"
    and ok: "keeps_unique op s" and st: "queue_step op s = Some s'"
  shows "unique_keys (deploymentSchedule s')"
proof -
  let ?q = "deploymentSchedule s"
  note q = deployment_ok [OF inv]
  have q_inv: "sched_inv ?q" using q by (simp add: queue_ok_def)
  show ?thesis
  proof (cases op)
    case (ScheduleOp r l)
    show ?thesis
    proof (cases r)
      case Deployment
      let ?p = "\<lparr>addr = next_addr s, deref = l\<rparr>"
      obtain q' where q': "Schedule ?p ?q = Some q'" "queue_ok lab_UUID (\<lambda>l. Some (lab_StartTime l)) (Suc (next_addr s)) q'"
          "mset (sched q') = mset (sched ?q) + {#?p#}" "schedMap q' = (schedMap ?q)(lab_UUID l \<mapsto> ?p)"
        using Schedule_ok [OF q, of l] by auto
      have "schedMap ?q (lab_UUID l) = None"
      proof (rule ccontr)
        assume "schedMap ?q (lab_UUID l) \<noteq> None"
        then obtain p where "p \<in> set (sched ?q)" "item_key ?q p = lab_UUID l"
          using q_inv by (auto simp: sched_inv_def)
        then show False
          using ok ScheduleOp Deployment queue_ok_key [OF q] by (force simp: waits_def)
      qed
      moreover have "lab_UUID l = item_key ?q ?p" and "keyGetter q' = keyGetter ?q"
        using queue_ok_key [OF q] q q'(2) by (simp_all add: queue_ok_def)
      moreover have "mset (sched q') = add_mset ?p (mset (sched ?q))"
        using q'(3) by simp
      ultimately have "unique_keys q'"
        using unique_keys_insert [OF uniq] q'(4) by blast
      with st q' show ?thesis using ScheduleOp Deployment by (auto simp: copyLab_def)
    next
      case Destruction
      with st uniq ScheduleOp show ?thesis by (auto simp: copyLab_def)
    qed
  next
    case (RescheduleOp r l)
    with st uniq unique_keys_Reschedule [OF uniq q_inv queue_ok_fresh [OF q]]
    show ?thesis by (cases r) (auto simp: copyLab_def)
  next
    case (RemoveOp r key)
    have "unique_keys q'" if "Remove key ?q = Some q'" for q'
      using that schedule_remove_total [OF q_inv, of key] unique_keys_remove(1) [OF uniq q_inv]
      by (metis Remove_def option.inject)
    with st uniq RemoveOp show ?thesis by (cases r) auto
  qed
qed

lemma pop_deployment_unique:
  assumes inv: "scheduler_inv s" and uniq: "unique_keys (deploymentSchedule s)"
    and st: "pop_deployment now s = Some (due, s')"
  shows "unique_keys (deploymentSchedule s')"
    and "waits s' = waits s - (case due of None \<Rightarrow> {} | Some l \<Rightarrow> {lab_UUID l})"
    and "\<And>l. due = Some l \<Longrightarrow> lab_UUID l \<in> waits s"
proof -
  let ?q = "deploymentSchedule s"
  have q_inv: "sched_inv ?q" using deployment_ok [OF inv] by (simp add: queue_ok_def)
  have key: "item_key ?q p = lab_UUID (deref p)" for p
    by (rule queue_ok_key [OF deployment_ok [OF inv]])
  have "unique_keys (deploymentSchedule s')
      \<and> waits s' = waits s - (case due of None \<Rightarrow> {} | Some l \<Rightarrow> {lab_UUID l})
      \<and> (\<forall>l. due = Some l \<longrightarrow> lab_UUID l \<in> waits s)"
  proof (cases "sched ?q")
    case Nil
    with st uniq q_inv show ?thesis by (auto simp: pop_deployment_def TryPopAt_total)
  next
    case (Cons p ps)
    have "lab_UUID (deref x) \<noteq> lab_UUID (deref p)" if "x \<in> set ps" for x
      using unique_keysD [OF uniq, of x p] that uniq Cons by (auto simp: unique_keys_def key)
    with Cons st uniq q_inv unique_keys_pop [OF uniq Cons] show ?thesis
      by (auto simp: pop_deployment_def TryPopAt_total waits_def split: if_splits)
  qed
  then show "unique_keys (deploymentSchedule s')"
    and "waits s' = waits s - (case due of None \<Rightarrow> {} | Some l \<Rightarrow> {lab_UUID l})"
    and "\<And>l. due = Some l \<Longrightarrow> lab_UUID l \<in> waits s" by auto
qed

text \<open>A handler whose operations keep the keys unique.\<close>

lemma queue_steps_keep:
  assumes "scheduler_inv s"
  shows "\<exists>s'. queue_steps ops s = Some s' \<and> scheduler_inv s'
    \<and> waits s' \<subseteq> waits s \<union> \<Union> (may_add ` set ops)"
  using assms
proof (induction ops arbitrary: s)
  case Nil
  then show ?case by simp
next
  case (Cons op ops)
  obtain s1 where s1: "queue_step op s = Some s1" "scheduler_inv s1"
    using queue_step_total [OF Cons.prems] by blast
  with Cons.IH [OF s1(2)] queue_step_waits [OF Cons.prems s1(1)] show ?case
    by (auto simp: Option.bind_def)
qed

lemma handle_total: "scheduler_inv s \<Longrightarrow> \<exists>s'. handle e s = Some s' \<and> scheduler_inv s'"
  using queue_steps_keep by (metis handle_def)

lemma run_once_total:
  assumes inv: "scheduler_inv s"
  shows "\<exists>due s1 acts s'. run_once now s = Some (acts, s') \<and> scheduler_inv s'
    \<and> pop_deployment now s = Some (due, s1)
    \<and> deploymentSchedule s' = deploymentSchedule s1
    \<and> (\<forall>l. DeployLab l \<in> set acts \<longleftrightarrow> due = Some l)"
proof -
  obtain due s1 where s1: "pop_deployment now s = Some (due, s1)" "scheduler_inv s1"
    using pop_deployment_total [OF inv] by blast
  obtain s2 where s2: "after_deployment due s1 = Some s2" "scheduler_inv s2"
    using after_deployment_total [OF s1(2)] by blast
  obtain des s3 where s3: "pop_destruction now s2 = Some (des, s3)" "scheduler_inv s3"
    using pop_destruction_total [OF s2(2)] by blast
  have "deploymentSchedule s2 = deploymentSchedule s1"
    using s2(1) by (auto simp: after_deployment_def copyLab_def split: option.splits)
  moreover have "deploymentSchedule s3 = deploymentSchedule s2"
    using s3(1) by (auto simp: pop_destruction_def)
  ultimately show ?thesis
    using s1 s2(1) s3 by (auto simp: run_once_def split: option.split)
qed

lemma exec_total: "scheduler_inv s \<Longrightarrow> \<exists>acts s'. exec ins s = Some (acts, s') \<and> scheduler_inv s'"
proof (induction ins arbitrary: s)
  case Nil
  then show ?case by simp
next
  case (Cons x ins)
  show ?case
  proof (cases x)
    case (Event e)
    with Cons handle_total [OF Cons.prems, of e] show ?thesis by fastforce
  next
    case (Tick now)
    obtain acts s1 where "run_once now s = Some (acts, s1)" "scheduler_inv s1"
      using run_once_total [OF Cons.prems, of now] by blast
    with Tick Cons.IH [of s1] show ?thesis by auto
  qed
qed

text \<open>The operation of a handler that schedules a deployment is the first one.\<close>

lemma keeps_unique_always [simp]:
  "keeps_unique (RescheduleOp q l) = (\<lambda>s. True)" "keeps_unique (RemoveOp q key) = (\<lambda>s. True)"
  "keeps_unique (ScheduleOp Destruction l) = (\<lambda>s. True)"
  by (simp_all add: fun_eq_iff)

lemma handle_unique:
  assumes inv: "scheduler_inv s" and uniq: "unique_keys (deploymentSchedule s)"
    and ok: "case e of LabCreated l \<Rightarrow> lab_UUID l \<notin> waits s | _ \<Rightarrow> True"
    and h: "handle e s = Some s'"
  shows "unique_keys (deploymentSchedule s')"
proof -
  have steps: "unique_keys (deploymentSchedule s')"
    if "scheduler_inv s" "unique_keys (deploymentSchedule s)" "queue_steps ops s = Some s'"
      "\<forall>op \<in> set ops. \<forall>s. keeps_unique op s" for ops and s s' :: scheduler
    using that
  proof (induction ops arbitrary: s)
    case Nil
    then show ?case by simp
  next
    case (Cons op ops)
    obtain s1 where s1: "queue_step op s = Some s1" "scheduler_inv s1"
      using queue_step_total [OF Cons.prems(1)] by blast
    with Cons queue_step_unique [OF Cons.prems(1,2) _ s1(1)] show ?case
      by (auto simp: Option.bind_def)
  qed
  show ?thesis
  proof (cases e)
    case (LabCreated l)
    obtain s1 where s1: "queue_step (ScheduleOp Deployment l) s = Some s1" "scheduler_inv s1"
      using queue_step_total [OF inv] by blast
    have u1: "unique_keys (deploymentSchedule s1)"
      using queue_step_unique [OF inv uniq _ s1(1)] ok LabCreated by simp
    have "queue_steps [ScheduleOp Destruction l] s1 = Some s'"
      using h s1(1) LabCreated by (simp add: handle_def onLabCreated_def del: queue_step.simps)
    from steps [OF s1(2) u1 this] show ?thesis by simp
  next
    case (LabMoved l)
    from h show ?thesis
      by (intro steps [OF inv uniq, of "handler_ops e"]) (simp_all add: LabMoved handle_def onLabMoved_def)
  next
    case (LabDeleted l)
    from h show ?thesis
      by (intro steps [OF inv uniq, of "handler_ops e"]) (simp_all add: LabDeleted handle_def onLabDeleted_def)
  next
    case (LabManuallyDeployed l)
    from h show ?thesis
      by (intro steps [OF inv uniq, of "handler_ops e"])
        (simp_all add: LabManuallyDeployed handle_def onLabManuallyDeployed_def)
  next
    case (LabRestored l)
    from h show ?thesis
      by (intro steps [OF inv uniq, of "handler_ops e"]) (simp_all add: LabRestored handle_def onLabRestored_def)
  qed
qed

fun event_adds :: "lab_event \<Rightarrow> string set" where
  "event_adds (LabCreated l) = {lab_UUID l}"
| "event_adds (LabMoved l) = {lab_UUID l}"
| "event_adds _ = {}"

lemma handle_waits:
  assumes "scheduler_inv s" and "handle e s = Some s'"
  shows "waits s' \<subseteq> waits s \<union> event_adds e"
  using queue_steps_keep [OF assms(1), of "handler_ops e"] assms(2)
  by (cases e) (auto simp: handle_def onLabCreated_def onLabMoved_def onLabDeleted_def
      onLabManuallyDeployed_def onLabRestored_def)

lemma exec_unique:
  assumes "scheduler_inv s" and "unique_keys (deploymentSchedule s)" and "waits s \<subseteq> seen"
    and "created_once seen (ins @ rest)" and "exec ins s = Some (acts, s')"
  shows "unique_keys (deploymentSchedule s') \<and> (\<exists>seen'. waits s' \<subseteq> seen' \<and> created_once seen' rest)"
  using assms
proof (induction ins arbitrary: s seen acts)
  case Nil
  then show ?case by auto
next
  case (Cons x ins)
  show ?case
  proof (cases x)
    case (Event e)
    obtain s1 where s1: "handle e s = Some s1" "scheduler_inv s1"
      using handle_total [OF Cons.prems(1)] by blast
    have u: "unique_keys (deploymentSchedule s1)"
      using handle_unique [OF Cons.prems(1,2) _ s1(1)] Cons.prems(3,4) Event by (cases e) auto
    have w: "waits s1 \<subseteq> seen \<union> event_adds e"
      using handle_waits [OF Cons.prems(1) s1(1)] Cons.prems(3) by blast
    have "created_once (seen \<union> event_adds e) (ins @ rest)"
      using Cons.prems(4) Event by (cases e) auto
    then show ?thesis
      using Cons.IH [OF s1(2) u w] Cons.prems(5) Event s1(1) by simp
  next
    case (Tick now)
    obtain due s0 acts1 s1 where s1: "run_once now s = Some (acts1, s1)" "scheduler_inv s1"
        "pop_deployment now s = Some (due, s0)" "deploymentSchedule s1 = deploymentSchedule s0"
      using run_once_total [OF Cons.prems(1), of now] by blast
    have "unique_keys (deploymentSchedule s1)" and "waits s1 \<subseteq> waits s"
      using pop_deployment_unique [OF Cons.prems(1,2) s1(3)] s1(4) by (auto simp: waits_def)
    then show ?thesis
      using Cons.IH [OF s1(2), of seen] Cons.prems(3-5) Tick s1(1) by (auto split: option.splits)
  qed
qed

text \<open>A lab that waits for nothing and is not scheduled again is not deployed.\<close>

lemma exec_not_waiting:
  assumes "scheduler_inv s" and "unique_keys (deploymentSchedule s)" and "waits s \<subseteq> seen"
    and "u \<notin> waits s" and "created_once seen ins" and "\<forall>e. Event e \<in> set ins \<longrightarrow> u \<notin> event_adds e"
    and "exec ins s = Some (acts, s')" and "DeployLab l \<in> set acts"
  shows "lab_UUID l \<noteq> u"
  using assms
proof (induction ins arbitrary: s seen acts)
  case Nil
  then show ?case by simp
next
  case (Cons x ins)
  show ?case
  proof (cases x)
    case (Event e)
    obtain s1 where s1: "handle e s = Some s1" "scheduler_inv s1"
      using handle_total [OF Cons.prems(1)] by blast
    have u: "unique_keys (deploymentSchedule s1)"
      using handle_unique [OF Cons.prems(1,2) _ s1(1)] Cons.prems(3,5) Event by (cases e) auto
    have w: "waits s1 \<subseteq> seen \<union> event_adds e" "u \<notin> waits s1"
      using handle_waits [OF Cons.prems(1) s1(1)] Cons.prems(3,4,6) Event by auto
    have "created_once (seen \<union> event_adds e) ins"
      using Cons.prems(5) Event by (cases e) auto
    then show ?thesis
      using Cons.IH [OF s1(2) u w] Cons.prems(6-8) Event s1(1) by simp
  next
    case (Tick now)
    obtain due s0 acts1 s1 where s1: "run_once now s = Some (acts1, s1)" "scheduler_inv s1"
        "pop_deployment now s = Some (due, s0)" "deploymentSchedule s1 = deploymentSchedule s0"
        "\<forall>l. DeployLab l \<in> set acts1 \<longleftrightarrow> due = Some l"
      using run_once_total [OF Cons.prems(1), of now] by blast
    note pop = pop_deployment_unique [OF Cons.prems(1,2) s1(3)]
    have u1: "unique_keys (deploymentSchedule s1)" and w1: "waits s1 \<subseteq> waits s"
      using pop s1(4) by (auto simp: waits_def)
    obtain acts2 where acts: "acts = acts1 @ acts2" "exec ins s1 = Some (acts2, s')"
      using Cons.prems(7) Tick s1(1) by (auto split: option.splits)
    show ?thesis
    proof (cases "DeployLab l \<in> set acts1")
      case True
      with s1(5) pop(3) Cons.prems(4) show ?thesis by auto
    next
      case False
      with Cons.IH [OF s1(2) u1, of seen acts2] Cons.prems(3-6,8) acts w1 Tick show ?thesis by auto
    qed
  qed
qed

text \<open>The handlers that cancel a deployment.\<close>

lemma destruction_step:
  "queue_step (RemoveOp Destruction k) s = Some s' \<Longrightarrow> deploymentSchedule s' = deploymentSchedule s"
  "queue_step (ScheduleOp Destruction l) s = Some s' \<Longrightarrow> deploymentSchedule s' = deploymentSchedule s"
  by (auto simp: copyLab_def)

lemma cancel_not_waiting:
  assumes inv: "scheduler_inv s" and uniq: "unique_keys (deploymentSchedule s)"
    and e: "e = LabDeleted l \<or> e = LabManuallyDeployed l"
    and h: "handle e s = Some s'"
  shows "lab_UUID l \<notin> waits s'"
proof -
  let ?q = "deploymentSchedule s"
  have q_inv: "sched_inv ?q" using deployment_ok [OF inv] by (simp add: queue_ok_def)
  obtain q' where r: "schedule_remove (lab_UUID l) ?q = Some q'"
      "mset (sched q') = mset (sched ?q)
        - (case schedMap ?q (lab_UUID l) of None \<Rightarrow> {#} | Some p \<Rightarrow> {#p#})"
      "schedMap q' = (schedMap ?q)(lab_UUID l := None)" "keyGetter q' = keyGetter ?q"
    by (rule schedule_remove_total [OF q_inv, of "lab_UUID l"])
  have q': "Remove (lab_UUID l) ?q = Some q'"
      "set (sched q') = {p \<in> set (sched ?q). item_key ?q p \<noteq> lab_UUID l}"
    using r(1) unique_keys_remove(2) [OF uniq q_inv r(2-4)] by (simp_all add: Remove_def)
  have "deploymentSchedule s' = q'"
    using e
  proof
    assume "e = LabDeleted l"
    then have "queue_step (RemoveOp Destruction (lab_UUID l)) (s\<lparr>deploymentSchedule := q'\<rparr>) = Some s'"
      using h q'(1) by (simp add: handle_def onLabDeleted_def)
    from destruction_step(1) [OF this] show ?thesis by simp
  next
    assume "e = LabManuallyDeployed l"
    then have "queue_step (ScheduleOp Destruction l) (s\<lparr>deploymentSchedule := q'\<rparr>) = Some s'"
      using h q'(1) by (simp add: handle_def onLabManuallyDeployed_def)
    from destruction_step(2) [OF this] show ?thesis by simp
  qed
  then show ?thesis
    using q'(2) queue_ok_key [OF deployment_ok [OF inv]] by (auto simp: waits_def)
qed

section \<open>Properties\<close>

text \<open>However the handlers of concurrent events and the loop \<open>Run\<close> interleave, no queue
  operation of the scheduler panics.\<close>

theorem scheduler_never_panics:
  assumes "sched_reachable \<sigma>"
  shows "(\<forall>op. queue_step op (sch \<sigma>) \<noteq> None)
    \<and> (\<forall>now. pop_deployment now (sch \<sigma>) \<noteq> None \<and> pop_destruction now (sch \<sigma>) \<noteq> None)"
proof -
  have inv: "scheduler_inv (sch \<sigma>)"
    using sched_reachable_inv [OF assms] by blast
  have "queue_step op (sch \<sigma>) \<noteq> None" for op
    using queue_step_total [OF inv, of op] by auto
  moreover have "pop_deployment now (sch \<sigma>) \<noteq> None \<and> pop_destruction now (sch \<sigma>) \<noteq> None" for now
    using pop_deployment_total [OF inv, of now] pop_destruction_total [OF inv, of now] by auto
  ultimately show ?thesis by blast
qed

theorem scheduler_never_panics_witness: "queue_step (RemoveOp Deployment ''a'') CreateScheduler \<noteq> None"
  using scheduler_never_panics [OF sched_reachable.initial] by (metis system.select_convs(1))

text \<open>Under every interleaving, \<open>Run\<close> deploys a lab only when its start time is reached and
  destroys one only when it has an end time and that is reached: a lab without end is never
  destroyed by the scheduler.\<close>

theorem scheduler_starts_only_due:
  assumes "sched_reachable \<sigma>" and "(now, a) \<in> set (started \<sigma>)"
  shows "(\<forall>l. a = DeployLab l \<longrightarrow> unix (lab_StartTime l) \<le> unix now)
    \<and> (\<forall>l. a = DestroyLab l \<longrightarrow> (\<exists>e. lab_EndTime l = Some e \<and> unix e \<le> unix now))"
  using sched_reachable_inv [OF assms(1)] assms(2)
  by (cases a) (fastforce split: option.splits)+

lemma started_once_reachable:
  "sched_reachable (\<lparr>sch = s, pc = Popped 0 (Some zero_lab), handlers = [[ScheduleOp Destruction zero_lab]],
      started = [(0, DeployLab zero_lab)]\<rparr>)"
  if "pop_deployment 0 s0 = Some (Some zero_lab, s)"
    and "queue_step (ScheduleOp Deployment zero_lab) CreateScheduler = Some s0"
proof -
  let ?\<sigma> = "\<lparr>sch = CreateScheduler, pc = Waiting, handlers = [], started = []\<rparr>"
  have "sched_reachable (?\<sigma>\<lparr>handlers := [handler_ops (LabCreated zero_lab)]\<rparr>)"
    using sched_reachable.step [OF sched_reachable.initial publish, of "LabCreated zero_lab"] by simp
  from sched_reachable.step [OF this handler [of 0 _ "ScheduleOp Deployment zero_lab" _ s0]] that(2)
  have "sched_reachable (?\<sigma>\<lparr>sch := s0, handlers := [[ScheduleOp Destruction zero_lab]]\<rparr>)"
    by (simp add: onLabCreated_def del: queue_step.simps)
  from sched_reachable.step [OF this run_pop [of _ 0 "Some zero_lab" s]] that(1)
  show ?thesis by simp
qed

theorem scheduler_starts_only_due_witness: "unix (lab_StartTime zero_lab) \<le> unix 0"
proof -
  obtain s0 where s0: "queue_step (ScheduleOp Deployment zero_lab) CreateScheduler = Some s0"
      and "pop_deployment 0 s0 \<noteq> None" and "fst (the (pop_deployment 0 s0)) = Some zero_lab"
    by (simp add: CreateScheduler_def CreateSchedule_def copyLab_def Schedule_def schedule_insert_def
        item_unix_def item_key_def sort_Search_def search_loop.simps pop_deployment_def TryPopAt_def
        unix_def zero_lab_def zero_time_def)
  then obtain s where "pop_deployment 0 s0 = Some (Some zero_lab, s)" by auto
  from scheduler_starts_only_due [OF started_once_reachable [OF this s0], of 0 "DeployLab zero_lab"]
  show ?thesis by simp
qed

text \<open>C24: Once the event that a lab was deleted or deployed by hand has been handled, the scheduler
  does not deploy that lab any more, unless it is moved or created later.\<close>

theorem cancelled_lab_not_deployed:
  assumes "created_once {} (before @ Event e # after)" and "e = LabDeleted l \<or> e = LabManuallyDeployed l"
    and "\<forall>l'. Event (LabCreated l') \<in> set after \<or> Event (LabMoved l') \<in> set after \<longrightarrow> lab_UUID l' \<noteq> lab_UUID l"
  shows "\<exists>acts s acts' s'. exec before CreateScheduler = Some (acts, s)
    \<and> exec (Event e # after) s = Some (acts', s')
    \<and> (\<forall>l'. DeployLab l' \<in> set acts' \<longrightarrow> lab_UUID l' \<noteq> lab_UUID l)"
proof -
  obtain acts s where s: "exec before CreateScheduler = Some (acts, s)" "scheduler_inv s"
    using exec_total [OF scheduler_inv_create] by blast
  have "unique_keys (deploymentSchedule CreateScheduler)" and "waits CreateScheduler \<subseteq> {}"
    by (simp_all add: CreateScheduler_def unique_keys_create waits_def) (simp add: CreateSchedule_def)
  from exec_unique [OF scheduler_inv_create this assms(1) s(1)] obtain seen where
    u: "unique_keys (deploymentSchedule s)" "waits s \<subseteq> seen" "created_once seen (Event e # after)"
    by blast
  obtain s1 where s1: "handle e s = Some s1" "scheduler_inv s1"
    using handle_total [OF s(2)] by blast
  have u1: "unique_keys (deploymentSchedule s1)"
    using handle_unique [OF s(2) u(1) _ s1(1)] assms(2) by auto
  have w1: "waits s1 \<subseteq> seen" and later: "created_once seen after"
    using handle_waits [OF s(2) s1(1)] u(2,3) assms(2) by auto
  have "lab_UUID l \<notin> event_adds x" if "Event x \<in> set after" for x
    using assms(3) that by (cases x) auto
  then have "lab_UUID l' \<noteq> lab_UUID l"
    if "exec after s1 = Some (acts', s')" "DeployLab l' \<in> set acts'" for acts' s' l'
    using exec_not_waiting [OF s1(2) u1 w1 cancel_not_waiting [OF s(2) u(1) assms(2) s1(1)] later _ that]
    by blast
  then show ?thesis
    using s(1) s1 exec_total [OF s1(2), of after] by auto
qed

theorem cancelled_lab_not_deployed_witness:
  "\<exists>acts s acts' s'. exec [Event (LabCreated zero_lab)] CreateScheduler = Some (acts, s)
    \<and> exec [Event (LabDeleted zero_lab), Tick 0] s = Some (acts', s')
    \<and> (\<forall>l. DeployLab l \<in> set acts' \<longrightarrow> lab_UUID l \<noteq> lab_UUID zero_lab)"
  using cancelled_lab_not_deployed [of "[Event (LabCreated zero_lab)]" "LabDeleted zero_lab" "[Tick 0]" zero_lab]
  by (simp add: zero_lab_def)

text \<open>The scheduler queues the destruction of a lab twice, when the lab is created and again when
  it deploys it, and a deletion cancels only one of the two: after the lab was deleted (or
  destroyed by hand, which publishes the same event), a destruction under its UUID is still
  started at its old end time.\<close>

theorem deleted_lab_still_destroyed:
  assumes "lab_EndTime l = Some e"
    and "unix (lab_StartTime l) \<le> unix t1" and "unix t1 < unix e" and "unix e \<le> unix t2"
  shows "\<exists>s. exec [Event (LabCreated l), Tick t1, Event (LabDeleted l), Tick t2] CreateScheduler
    = Some ([DeployLab l, DestroyLab l], s)"
  using assms
  by (simp add: CreateScheduler_def CreateSchedule_def handle_def onLabCreated_def onLabDeleted_def
      copyLab_def Schedule_def schedule_insert_def item_unix_def item_key_def sort_Search_def
      search_loop.simps run_once_def pop_deployment_def pop_destruction_def after_deployment_def
      TryPopAt_def Remove_def schedule_remove_def remove_at_def)

theorem deleted_lab_still_destroyed_witness:
  "\<exists>s. exec [Event (LabCreated (zero_lab\<lparr>lab_EndTime := Some 5000000000\<rparr>)), Tick 0,
      Event (LabDeleted (zero_lab\<lparr>lab_EndTime := Some 5000000000\<rparr>)), Tick 5000000000] CreateScheduler
    = Some ([DeployLab (zero_lab\<lparr>lab_EndTime := Some 5000000000\<rparr>),
             DestroyLab (zero_lab\<lparr>lab_EndTime := Some 5000000000\<rparr>)], s)"
  using deleted_lab_still_destroyed [of "zero_lab\<lparr>lab_EndTime := Some 5000000000\<rparr>" 5000000000 0 5000000000]
  by (simp add: zero_lab_def zero_time_def unix_def)

end
