(* ===== verification/Go_Strings.thy ===== *)
theory Go_Strings
  imports Prelude "HOL-Library.List_Lexorder" "HOL-Library.Char_ord"
begin

text \<open>
  The functions of Go's \<open>strings\<close>, \<open>strconv\<close> and \<open>path/filepath\<close> packages that the code uses, as
  documented there for Linux. A Go string is a list of bytes, so is \<open>string\<close> here. Functions that
  classify characters (\<open>ToLower\<close>, \<open>TrimSpace\<close>) are given for the ASCII characters; bytes of other
  characters stay as they are. Strings are ordered byte by byte.
\<close>

section \<open>Strings\<close>

definition HasPrefix :: "string \<Rightarrow> string \<Rightarrow> bool" where
  "HasPrefix s p = (take (length p) s = p)"

definition HasSuffix :: "string \<Rightarrow> string \<Rightarrow> bool" where
  "HasSuffix s p = HasPrefix (rev s) (rev p)"

fun Contains :: "string \<Rightarrow> string \<Rightarrow> bool" where
  "Contains [] sub = (sub = [])"
| "Contains (c # s) sub = (HasPrefix (c # s) sub \<or> Contains s sub)"

definition TrimPrefix :: "string \<Rightarrow> string \<Rightarrow> string" where
  "TrimPrefix s p = (if HasPrefix s p then drop (length p) s else s)"

definition TrimSuffix :: "string \<Rightarrow> string \<Rightarrow> string" where
  "TrimSuffix s p = (if HasSuffix s p then take (length s - length p) s else s)"

text \<open>\<open>strings.Cut\<close> with a separator of one character.\<close>

definition Cut :: "char \<Rightarrow> string \<Rightarrow> string \<times> string \<times> bool" where
  "Cut c s = (let before = takeWhile (\<lambda>x. x \<noteq> c) s in
     case dropWhile (\<lambda>x. x \<noteq> c) s of
       [] \<Rightarrow> (s, [], False)
     | _ # after \<Rightarrow> (before, after, True))"

fun split_on :: "char \<Rightarrow> string \<Rightarrow> string list" where
  "split_on c [] = [[]]"
| "split_on c (x # xs) =
     (if x = c then [] # split_on c xs
      else (case split_on c xs of [] \<Rightarrow> [[x]] | y # ys \<Rightarrow> (x # y) # ys))"

fun join :: "string \<Rightarrow> string list \<Rightarrow> string" where
  "join sep [] = []"
| "join sep [s] = s"
| "join sep (s # ss) = s @ sep @ join sep ss"

definition to_lower :: "char \<Rightarrow> char" where
  "to_lower c = (let n = of_char c :: nat in if 65 \<le> n \<and> n \<le> 90 then char_of (n + 32) else c)"

definition ToLower :: "string \<Rightarrow> string" where
  "ToLower = map to_lower"

definition is_space :: "char \<Rightarrow> bool" where
  "is_space c = (of_char c \<in> {9, 10, 11, 12, 13, 32 :: nat})"

definition TrimSpace :: "string \<Rightarrow> string" where
  "TrimSpace s = rev (dropWhile is_space (rev (dropWhile is_space s)))"

text \<open>Decimal numbers, and strings quoted as \<open>%q\<close> does.\<close>

fun show_nat :: "nat \<Rightarrow> string" where
  "show_nat n = (if n < 10 then [char_of (48 + n)] else show_nat (n div 10) @ [char_of (48 + n mod 10)])"

declare show_nat.simps [simp del]

definition show_int :: "int \<Rightarrow> string" where
  "show_int i = (if i < 0 then CHR ''-'' # show_nat (nat (- i)) else show_nat (nat i))"

definition hex_digit :: "nat \<Rightarrow> char" where
  "hex_digit n = (if n < 10 then char_of (48 + n) else char_of (87 + n))"

definition quote_char :: "char \<Rightarrow> string" where
  "quote_char c =
     (let n = of_char c :: nat in
      if n = 34 \<or> n = 92 then [CHR 0x5C, c]
      else if n = 7 then [CHR 0x5C, CHR ''a''] else if n = 8 then [CHR 0x5C, CHR ''b'']
      else if n = 12 then [CHR 0x5C, CHR ''f''] else if n = 10 then [CHR 0x5C, CHR ''n'']
      else if n = 13 then [CHR 0x5C, CHR ''r''] else if n = 9 then [CHR 0x5C, CHR ''t'']
      else if n = 11 then [CHR 0x5C, CHR ''v'']
      else if n < 32 \<or> n = 127 then [CHR 0x5C, CHR ''x'', hex_digit (n div 16), hex_digit (n mod 16)]
      else [c])"

definition quote :: "string \<Rightarrow> string" where
  "quote s = CHR 0x22 # concat (map quote_char s) @ [CHR 0x22]"

section \<open>Paths\<close>

text \<open>
  \<open>filepath.Clean\<close> by its documented rules: drop empty and \<open>.\<close> elements, drop inner \<open>..\<close> with the
  element before it, drop \<open>..\<close> at the root. The second argument holds the result in reverse.
\<close>

fun clean_segs :: "bool \<Rightarrow> string list \<Rightarrow> string list \<Rightarrow> string list" where
  "clean_segs rooted out [] = rev out"
| "clean_segs rooted out (s # ss) =
     (if s = [] \<or> s = ''.'' then clean_segs rooted out ss
      else if s = ''..'' then
        (case out of
           [] \<Rightarrow> if rooted then clean_segs rooted [] ss else clean_segs rooted [''..''] ss
         | prev # rest \<Rightarrow>
             if prev = ''..'' then clean_segs rooted (''..'' # out) ss else clean_segs rooted rest ss)
      else clean_segs rooted (s # out) ss)"

definition is_rooted :: "string \<Rightarrow> bool" where
  "is_rooted p = (take 1 p = ''/'')"

text \<open>Where a path leads: whether it starts at the root, and its elements once it is clean.\<close>

definition path_key :: "string \<Rightarrow> bool \<times> string list" where
  "path_key p = (is_rooted p, clean_segs (is_rooted p) [] (split_on CHR ''/'' p))"

definition key_path :: "bool \<times> string list \<Rightarrow> string" where
  "key_path k = (case k of (rooted, segs) \<Rightarrow>
     if rooted then CHR ''/'' # join ''/'' segs else if segs = [] then ''.'' else join ''/'' segs)"

definition Clean :: "string \<Rightarrow> string" where
  "Clean p = key_path (path_key p)"

text \<open>\<open>filepath.IsLocal\<close>, which looks at the elements of the path before it cleans it.\<close>

definition IsLocal :: "string \<Rightarrow> bool" where
  "IsLocal p =
     (if is_rooted p \<or> p = [] then False
      else (let hasDots = list_ex (\<lambda>s. s = ''.'' \<or> s = ''..'') (split_on CHR ''/'' p);
                p' = (if hasDots then Clean p else p)
            in \<not> (p' = ''..'' \<or> HasPrefix p' ''../'')))"

text \<open>\<open>filepath.Join\<close>: empty elements in front are ignored.\<close>

definition Join :: "string list \<Rightarrow> string" where
  "Join elems = (case dropWhile (\<lambda>e. e = []) elems of [] \<Rightarrow> [] | es \<Rightarrow> Clean (join ''/'' es))"

text \<open>\<open>filepath.Dir\<close>: what is before the last slash, cleaned.\<close>

definition Dir_of :: "string \<Rightarrow> string" where
  "Dir_of p = Clean (rev (dropWhile (\<lambda>c. c \<noteq> CHR ''/'') (rev p)))"

section \<open>Facts about strings\<close>

lemma HasPrefix_iff: "HasPrefix s p \<longleftrightarrow> (\<exists>t. s = p @ t)"
  by (metis HasPrefix_def append_eq_conv_conj append_take_drop_id)

lemma HasPrefix_append [simp]: "HasPrefix (p @ s) p"
  by (auto simp: HasPrefix_iff)

lemma HasPrefix_Nil [simp]: "HasPrefix s []"
  by (simp add: HasPrefix_def)

lemma HasPrefix_Cons [simp]: "HasPrefix (c # s) (d # p) \<longleftrightarrow> c = d \<and> HasPrefix s p"
  by (auto simp: HasPrefix_def)

lemma HasPrefix_empty [simp]: "HasPrefix [] (d # p) \<longleftrightarrow> False"
  by (simp add: HasPrefix_def)

lemma Contains_iff: "Contains s sub \<longleftrightarrow> (\<exists>a b. s = a @ sub @ b)"
proof (induction s)
  case (Cons c s)
  show ?case
  proof
    assume "Contains (c # s) sub"
    then consider t where "c # s = sub @ t" | a b where "s = a @ sub @ b"
      using Cons by (auto simp: HasPrefix_iff)
    then show "\<exists>a b. c # s = a @ sub @ b"
      by cases (metis append_Nil, metis append_Cons)
  next
    assume "\<exists>a b. c # s = a @ sub @ b"
    then obtain a b where "c # s = a @ sub @ b" by blast
    then have "HasPrefix (c # s) sub \<or> (\<exists>a b. s = a @ sub @ b)"
      by (cases a) auto
    then show "Contains (c # s) sub"
      using Cons by auto
  qed
qed auto

lemma Cut_notin [simp]: "c \<notin> set s \<Longrightarrow> Cut c s = (s, [], False)"
proof -
  assume "c \<notin> set s"
  then have "dropWhile (\<lambda>x. x \<noteq> c) s = []" by (subst dropWhile_eq_Nil_conv) auto
  then show ?thesis unfolding Cut_def Let_def by (simp only: list.case)
qed

lemma Cut_append [simp]: "c \<notin> set s \<Longrightarrow> Cut c (s @ c # t) = (s, t, True)"
  by (auto simp: Cut_def takeWhile_append dropWhile_append)

lemma fst_Cut: "fst (Cut c s) = takeWhile (\<lambda>x. x \<noteq> c) s"
proof (cases "c \<in> set s")
  case True
  then obtain a b where "s = a @ c # b" "c \<notin> set a" by (meson split_list_first)
  then show ?thesis by (auto simp: takeWhile_append)
next
  case False
  then have "takeWhile (\<lambda>x. x \<noteq> c) s = s" by (subst takeWhile_eq_all_conv) auto
  then show ?thesis using Cut_notin [OF False] by (metis fst_conv)
qed

section \<open>Facts about splitting\<close>

lemma split_on_not_Nil [simp]: "split_on c s \<noteq> []"
  by (induction s) (auto split: list.split)

lemma split_on_notin: "c \<notin> set s \<Longrightarrow> split_on c s = [s]"
  by (induction s) auto

lemma split_on_append: "split_on c (a @ c # b) = split_on c a @ split_on c b"
  by (induction a) (auto split: list.split)

lemma split_on_pieces: "x \<in> set (split_on c s) \<Longrightarrow> c \<notin> set x"
  by (induction s arbitrary: x) (auto split: list.splits if_splits)

lemma split_on_join:
  "ss \<noteq> [] \<Longrightarrow> \<forall>s \<in> set ss. c \<notin> set s \<Longrightarrow> split_on c (join [c] ss) = ss"
proof (induction "[c]" ss rule: join.induct)
  case (3 s s' ss)
  then show ?case using split_on_append [of c s "join [c] (s' # ss)"] by (simp add: split_on_notin)
qed (auto simp: split_on_notin)

lemma join_append:
  "as \<noteq> [] \<Longrightarrow> bs \<noteq> [] \<Longrightarrow> join sep (as @ bs) = join sep as @ sep @ join sep bs"
  by (induction sep as rule: join.induct) (auto simp: neq_Nil_conv)

section \<open>Facts about paths\<close>

text \<open>An element that a clean path keeps as it is.\<close>

definition plain :: "string \<Rightarrow> bool" where
  "plain s \<longleftrightarrow> s \<noteq> [] \<and> s \<noteq> ''.'' \<and> s \<noteq> ''..'' \<and> CHR ''/'' \<notin> set s"

lemma clean_segs_plain:
  "\<forall>s \<in> set ns. plain s \<Longrightarrow> clean_segs r out (ss @ ns) = clean_segs r out ss @ ns"
proof (induction r out ss rule: clean_segs.induct)
  case (1 r out)
  then show ?case
    by (induction ns arbitrary: out) (auto simp: plain_def)
next
  case (2 r out s ss)
  then show ?case by (auto split: list.splits)
qed

lemma clean_segs_all_plain: "\<forall>s \<in> set ns. plain s \<Longrightarrow> clean_segs r [] ns = ns"
  using clean_segs_plain [of ns r "[]" "[]"] by simp

text \<open>A clean path is some \<open>..\<close>, none if it is rooted, and then plain elements.\<close>

definition clean_form :: "bool \<Rightarrow> string list \<Rightarrow> bool" where
  "clean_form r ss \<longleftrightarrow> (\<exists>k ns. ss = replicate k ''..'' @ ns \<and> (\<forall>s \<in> set ns. plain s) \<and> (r \<longrightarrow> k = 0))"

lemma clean_formI: "\<forall>s \<in> set ns. plain s \<Longrightarrow> (r \<longrightarrow> k = 0) \<Longrightarrow> clean_form r (replicate k ''..'' @ ns)"
  by (auto simp: clean_form_def)

lemma plain_not_dots: "plain s \<Longrightarrow> s \<noteq> ''..''"
  by (simp add: plain_def)

lemma clean_form_out:
  assumes "clean_form r (rev out)"
  obtains "out = []" | rest where "out = ''..'' # rest" "\<not> r" "out = replicate (length out) ''..''"
    | prev rest where "out = prev # rest" "plain prev" "clean_form r (rev rest)"
proof -
  obtain k ns where f: "rev out = replicate k ''..'' @ ns" "\<forall>s \<in> set ns. plain s" "r \<longrightarrow> k = 0"
    using assms by (auto simp: clean_form_def)
  show ?thesis
  proof (cases ns rule: rev_cases)
    case Nil
    then have out: "out = replicate k ''..''" using f(1) by (metis append_Nil2 rev_replicate rev_rev_ident)
    show ?thesis
    proof (cases k)
      case 0
      with out that(1) show ?thesis by simp
    next
      case (Suc m)
      with out f(3) that(2) [of "replicate m ''..''"] show ?thesis by auto
    qed
  next
    case (snoc ms m)
    then have "out = m # rev (replicate k ''..'' @ ms)" and "plain m"
      using f by (metis append.assoc rev_eq_Cons_iff rev_swap rev_rev_ident rev_append rev.simps singleton_rev_conv append_Cons append_Nil, simp)
    with that(3) [of m "rev (replicate k ''..'' @ ms)"] f(2,3) snoc show ?thesis
      by (auto simp: clean_form_def)
  qed
qed

lemma clean_segs_form:
  "clean_form r (rev out) \<Longrightarrow> \<forall>s \<in> set ss. CHR ''/'' \<notin> set s \<Longrightarrow> clean_form r (clean_segs r out ss)"
proof (induction r out ss rule: clean_segs.induct)
  case (2 r out s ss)
  have push: "clean_form r (rev (s # out))" if "plain s"
  proof -
    obtain k ns where "rev out = replicate k ''..'' @ ns" "\<forall>s \<in> set ns. plain s" "r \<longrightarrow> k = 0"
      using "2.prems"(1) by (auto simp: clean_form_def)
    then show ?thesis
      using that clean_formI [of "ns @ [s]" r k] by simp
  qed
  show ?case
  proof (cases "s = [] \<or> s = ''.''")
    case True
    with 2 show ?thesis by auto
  next
    case skip: False
    show ?thesis
    proof (cases "s = ''..''")
      case False
      with skip "2.prems"(2) have "plain s" by (simp add: plain_def)
      with push 2 skip False show ?thesis by auto
    next
      case dots: True
      from "2.prems"(1) show ?thesis
      proof (cases rule: clean_form_out)
        case 1
        show ?thesis
        proof (cases r)
          case True
          with 1 2 skip dots show ?thesis by auto
        next
          case False
          have "clean_form r (rev [''..''])"
            using clean_formI [of "[]" r 1] False by simp
          with 1 2 skip dots False show ?thesis by auto
        qed
      next
        case (2 rest)
        have "clean_form r (replicate (Suc (length out)) ''..'')"
          using clean_formI [of "[]" r "Suc (length out)"] 2(2) by simp
        moreover have "rev (''..'' # out) = replicate (Suc (length out)) ''..''"
          by (metis "2"(3) replicate_Suc rev_replicate)
        ultimately have "clean_form r (rev (''..'' # out))" by simp
        with "2.IH"(4) 2 skip dots "2.prems"(2) show ?thesis by simp
      next
        case (3 prev rest)
        with "2.IH" skip dots "2.prems"(2) plain_not_dots show ?thesis by simp
      qed
    qed
  qed
qed simp

lemma path_key_form: "clean_form (is_rooted p) (snd (path_key p))"
proof -
  have "clean_form (is_rooted p) (rev [])"
    using clean_formI [of "[]" "is_rooted p" 0] by simp
  from clean_segs_form [OF this, of "split_on CHR ''/'' p"] show ?thesis
    using split_on_pieces by (fastforce simp: path_key_def)
qed

lemma clean_segs_dots:
  "clean_segs False (replicate j ''..'') (replicate k ''..'' @ ss)
     = clean_segs False (replicate (k + j) ''..'') ss"
proof (induction k arbitrary: j)
  case (Suc k)
  from Suc [of "Suc j"] show ?case by (cases j) auto
qed simp

lemma clean_segs_id: "clean_form r ss \<Longrightarrow> clean_segs r [] ss = ss"
proof -
  assume "clean_form r ss"
  then obtain k ns where f: "ss = replicate k ''..'' @ ns" "\<forall>s \<in> set ns. plain s" "r \<longrightarrow> k = 0"
    by (auto simp: clean_form_def)
  show ?thesis
  proof (cases r)
    case True
    with f show ?thesis by (simp add: clean_segs_all_plain)
  next
    case False
    have "clean_segs r [] ss = clean_segs r [] (replicate k ''..'') @ ns"
      using clean_segs_plain f(1,2) by simp
    also have "clean_segs r [] (replicate k ''..'') = replicate k ''..''"
      using clean_segs_dots [of 0 k "[]"] False by simp
    finally show ?thesis using f(1) by simp
  qed
qed

lemma clean_form_elem: "clean_form r ss \<Longrightarrow> s \<in> set ss \<Longrightarrow> s = ''..'' \<or> plain s"
  by (auto simp: clean_form_def)

lemma clean_form_no_slash: "clean_form r ss \<Longrightarrow> \<forall>s \<in> set ss. CHR ''/'' \<notin> set s"
  by (auto dest: clean_form_elem simp: plain_def)

lemma clean_form_butlast: "clean_form r ss \<Longrightarrow> clean_form r (butlast ss)"
proof -
  assume "clean_form r ss"
  then obtain k ns where f: "ss = replicate k ''..'' @ ns" "\<forall>s \<in> set ns. plain s" "r \<longrightarrow> k = 0"
    by (auto simp: clean_form_def)
  show ?thesis
  proof (cases "ns = []")
    case True
    then have "butlast ss = replicate (k - 1) ''..'' @ []" using f(1) by (simp add: butlast_conv_take)
    then show ?thesis using clean_formI [of "[]" r "k - 1"] f(3) by simp
  next
    case False
    then have "butlast ss = replicate k ''..'' @ butlast ns" using f(1) by (simp add: butlast_append)
    then show ?thesis using clean_formI [of "butlast ns" r k] f(2,3) by (simp add: in_set_butlastD)
  qed
qed

lemma join_hd: "ss \<noteq> [] \<Longrightarrow> hd ss \<noteq> [] \<Longrightarrow> join sep ss \<noteq> [] \<and> hd (join sep ss) = hd (hd ss)"
  by (induction sep ss rule: join.induct) auto

lemma is_rooted_join:
  assumes "clean_form r ss" and "ss \<noteq> []"
  shows "\<not> is_rooted (join ''/'' ss)" and "join ''/'' ss \<noteq> []"
proof -
  have "hd ss \<noteq> []" and "CHR ''/'' \<notin> set (hd ss)"
    using clean_form_elem [OF assms(1), of "hd ss"] assms(2) by (auto simp: plain_def)
  then have "hd (hd ss) \<noteq> CHR ''/''" by (metis hd_in_set)
  then show "\<not> is_rooted (join ''/'' ss)" and "join ''/'' ss \<noteq> []"
    using join_hd [OF assms(2) \<open>hd ss \<noteq> []\<close>, of "''/''"] by (auto simp: is_rooted_def take_Suc)
qed

lemma path_key_key_path:
  assumes "clean_form r ss"
  shows "path_key (key_path (r, ss)) = (r, ss)"
proof -
  have no: "\<forall>s \<in> set ss. CHR ''/'' \<notin> set s"
    by (rule clean_form_no_slash [OF assms])
  consider "r" | "\<not> r" "ss = []" | "\<not> r" "ss \<noteq> []" by blast
  then show ?thesis
  proof cases
    case 1
    then have "path_key (key_path (r, ss)) = (True, clean_segs True [] (split_on CHR ''/'' (join ''/'' ss)))"
      by (simp add: path_key_def key_path_def is_rooted_def)
    also have "clean_segs True [] (split_on CHR ''/'' (join ''/'' ss)) = ss"
      using split_on_join [of ss] no clean_segs_id [OF assms] 1 by (cases "ss = []") auto
    finally show ?thesis using 1 by simp
  next
    case 2
    then show ?thesis by (simp add: path_key_def key_path_def is_rooted_def)
  next
    case 3
    then show ?thesis
      using is_rooted_join [OF assms] split_on_join [of ss] no clean_segs_id [OF assms]
      by (simp add: path_key_def key_path_def)
  qed
qed

lemma path_key_eq: "path_key p = (is_rooted p, snd (path_key p))"
  by (simp add: path_key_def)

lemma path_key_Clean [simp]: "path_key (Clean p) = path_key p"
  by (metis Clean_def path_key_eq path_key_key_path path_key_form)

lemma Clean_Clean [simp]: "Clean (Clean p) = Clean p"
  by (simp add: Clean_def [of "Clean p"]) (simp add: Clean_def)

lemma clean_form_plain: "\<forall>s \<in> set ns. plain s \<Longrightarrow> clean_form r ns"
  using clean_formI [of ns r 0] by simp

lemma path_key_join:
  assumes "\<forall>s \<in> set ns. plain s" and "ns \<noteq> []"
  shows "path_key (join ''/'' ns) = (False, ns)"
  using path_key_key_path [OF clean_form_plain [OF assms(1)], of False] assms(2)
  by (simp add: key_path_def)

text \<open>Joining a directory and a path of plain elements leads below the directory.\<close>

lemma path_key_Join:
  assumes "\<forall>s \<in> set ns. plain s" and "ns \<noteq> []"
  shows "path_key (Join [a, join ''/'' ns]) = (fst (path_key a), snd (path_key a) @ ns)"
proof -
  have ne: "join ''/'' ns \<noteq> []"
    using is_rooted_join(2) [OF clean_form_plain [OF assms(1)] assms(2)] .
  show ?thesis
  proof (cases "a = []")
    case True
    with ne path_key_join [OF assms] show ?thesis
      by (simp add: Join_def) (simp add: path_key_def is_rooted_def)
  next
    case False
    then have "path_key (Join [a, join ''/'' ns]) = path_key (a @ CHR ''/'' # join ''/'' ns)"
      by (simp add: Join_def)
    moreover have "is_rooted (a @ CHR ''/'' # join ''/'' ns) = is_rooted a"
      using False by (cases a) (auto simp: is_rooted_def)
    moreover have "split_on CHR ''/'' (join ''/'' ns) = ns"
      using split_on_join [OF assms(2)] assms(1) by (simp add: plain_def)
    then have "path_key (a @ CHR ''/'' # join ''/'' ns) = (fst (path_key a), snd (path_key a) @ ns)"
      using clean_segs_plain [OF assms(1)] \<open>is_rooted (a @ CHR ''/'' # join ''/'' ns) = is_rooted a\<close>
      by (simp add: path_key_def split_on_append)
    ultimately show ?thesis by simp
  qed
qed

lemma Join_plain: "plain a \<Longrightarrow> \<forall>s \<in> set ns. plain s \<Longrightarrow> ns \<noteq> [] \<Longrightarrow> Join [a, join ''/'' ns] = join ''/'' (a # ns)"
proof -
  assume a: "plain a" and ns: "\<forall>s \<in> set ns. plain s" "ns \<noteq> []"
  then have "a \<noteq> []" by (simp add: plain_def)
  then have "Join [a, join ''/'' ns] = Clean (a @ CHR ''/'' # join ''/'' ns)"
    by (simp add: Join_def)
  also have "a @ CHR ''/'' # join ''/'' ns = join ''/'' (a # ns)"
    using ns(2) by (cases ns) auto
  also have "Clean \<dots> = join ''/'' (a # ns)"
    using path_key_join [of "a # ns"] a ns by (simp add: Clean_def key_path_def)
  finally show ?thesis .
qed

text \<open>What is accepted by the test on a cleaned path.\<close>

lemma IsLocal_Clean:
  "IsLocal (Clean p) \<and> Clean p \<noteq> ''.'' \<longleftrightarrow>
     (\<exists>ns. ns \<noteq> [] \<and> (\<forall>s \<in> set ns. plain s) \<and> path_key p = (False, ns))"
proof
  assume *: "IsLocal (Clean p) \<and> Clean p \<noteq> ''.''"
  obtain ss where key: "path_key p = (is_rooted p, ss)" by (simp add: path_key_def)
  have unrooted: "\<not> is_rooted p"
  proof
    assume "is_rooted p"
    with key have "is_rooted (Clean p)" by (simp add: Clean_def key_path_def is_rooted_def)
    with * show False by (simp add: IsLocal_def)
  qed
  have form: "clean_form False ss" using path_key_form [of p] key unrooted by simp
  have "ss \<noteq> []" using * key unrooted by (auto simp: Clean_def key_path_def)
  have clean: "Clean p = join ''/'' ss" using key unrooted \<open>ss \<noteq> []\<close> by (simp add: Clean_def key_path_def)
  obtain k ns where f: "ss = replicate k ''..'' @ ns" "\<forall>s \<in> set ns. plain s"
    using form by (auto simp: clean_form_def)
  have "k = 0"
  proof (rule ccontr)
    assume "k \<noteq> 0"
    then obtain rest where ss: "ss = ''..'' # rest" using f(1) by (cases k) auto
    have "split_on CHR ''/'' (Clean p) = ss"
      using clean split_on_join [OF \<open>ss \<noteq> []\<close>] clean_form_no_slash [OF form] by simp
    then have "list_ex (\<lambda>s. s = ''.'' \<or> s = ''..'') (split_on CHR ''/'' (Clean p))" using ss by simp
    moreover have "Clean p = ''..'' \<or> HasPrefix (Clean p) ''../''"
      using clean ss by (cases rest) simp_all
    ultimately show False using * by (auto simp: IsLocal_def Let_def split: if_splits)
  qed
  with f \<open>ss \<noteq> []\<close> key unrooted show "\<exists>ns. ns \<noteq> [] \<and> (\<forall>s \<in> set ns. plain s) \<and> path_key p = (False, ns)"
    by auto
next
  assume "\<exists>ns. ns \<noteq> [] \<and> (\<forall>s \<in> set ns. plain s) \<and> path_key p = (False, ns)"
  then obtain ns where ns: "ns \<noteq> []" "\<forall>s \<in> set ns. plain s" "path_key p = (False, ns)" by blast
  have form: "clean_form False ns" by (rule clean_form_plain [OF ns(2)])
  have clean: "Clean p = join ''/'' ns" using ns by (simp add: Clean_def key_path_def)
  have split: "split_on CHR ''/'' (Clean p) = ns"
    using clean split_on_join [OF ns(1)] clean_form_no_slash [OF form] by simp
  have "\<not> list_ex (\<lambda>s. s = ''.'' \<or> s = ''..'') (split_on CHR ''/'' (Clean p))"
    using split ns(2) by (auto simp: list_ex_iff plain_def)
  moreover have "Clean p \<noteq> t" if "split_on CHR ''/'' t = [t]" "\<not> plain t" for t
    using that split ns(2) by (metis list.set_intros(1))
  then have "Clean p \<noteq> ''..''" and "Clean p \<noteq> ''.''"
    by (simp_all add: plain_def)
  moreover have "\<not> HasPrefix (Clean p) ''../''"
  proof
    assume "HasPrefix (Clean p) ''../''"
    then obtain t where "Clean p = ''..'' @ CHR ''/'' # t" by (auto simp: HasPrefix_iff)
    then have "ns = ''..'' # split_on CHR ''/'' t"
      using split split_on_append [of "CHR ''/''" "''..''" t] by (simp add: split_on_notin)
    with ns(2) show False by (auto simp: plain_def)
  qed
  ultimately show "IsLocal (Clean p) \<and> Clean p \<noteq> ''.''"
    using is_rooted_join [OF form ns(1)] clean by (simp add: IsLocal_def Let_def)
qed

text \<open>The directory of a path.\<close>

lemma path_key_Dir_of:
  assumes "path_key p = (r, ss @ [s])" and "p = Clean p"
  shows "path_key (Dir_of p) = (r, ss)"
proof -
  have r: "r = is_rooted p" using assms(1) by (simp add: path_key_def)
  have form: "clean_form r (ss @ [s])" using path_key_form [of p] assms(1) r by simp
  have s: "CHR ''/'' \<notin> set s" using clean_form_no_slash [OF form] by simp
  have form': "clean_form r ss" using clean_form_butlast [OF form] by simp
  let ?pre = "if ss = [] then (if r then ''/'' else []) else key_path (r, ss) @ ''/''"
  have p: "p = ?pre @ s"
    using assms by (cases "ss = []") (simp_all add: Clean_def [of p] key_path_def join_append)
  have "rev (dropWhile (\<lambda>c. c \<noteq> CHR ''/'') (rev p)) = ?pre"
  proof -
    have "dropWhile (\<lambda>c. c \<noteq> CHR ''/'') (rev p) = dropWhile (\<lambda>c. c \<noteq> CHR ''/'') (rev ?pre)"
      using s by (subst p) (simp add: dropWhile_append)
    also have "\<dots> = rev ?pre" by auto
    finally show ?thesis by simp
  qed
  then have "path_key (Dir_of p) = path_key ?pre" by (simp add: Dir_of_def)
  also have "\<dots> = (r, ss)"
  proof (cases "ss = []")
    case True
    then show ?thesis by (simp add: path_key_def is_rooted_def)
  next
    case False
    let ?q = "key_path (r, ss)"
    have key: "path_key ?q = (r, ss)" by (rule path_key_key_path [OF form'])
    have "?q \<noteq> []" using key_path_def False is_rooted_join(2) [OF form' False] by (auto simp: key_path_def)
    then have "is_rooted (?q @ ''/'') = is_rooted ?q" by (cases ?q) (auto simp: is_rooted_def)
    moreover have "clean_segs r [] (split_on CHR ''/'' ?q @ [[]]) = clean_segs r [] (split_on CHR ''/'' ?q)"
      for r
    proof -
      have skip: "clean_segs r out (xs @ [[]]) = clean_segs r out xs" for r out xs
        by (induction r out xs rule: clean_segs.induct) (auto split: list.splits)
      show ?thesis by (rule skip)
    qed
    moreover have "is_rooted ?q = r" and "clean_segs r [] (split_on CHR ''/'' ?q) = ss"
      using key by (auto simp: path_key_def)
    ultimately show ?thesis
      using False split_on_append [of "CHR ''/''" ?q "[]"] by (simp add: path_key_def)
  qed
  finally show ?thesis .
qed

end
