(* ===== verification/Storage.thy ===== *)
theory Storage
  imports Go_Strings Errors
begin

text \<open>
  The storage manager of \<open>src/storage/manager.go\<close>, which keeps the definition, the annotations and
  the bind files of every topology in a directory named after its UUID, and a run environment per
  lab in another place.

  The file system is a map from the places paths lead to (\<open>path_key\<close>) to directories and files with
  their permissions. Symbolic links, the umask and partial writes are not modelled. The operating
  system may refuse any operation on the places in \<open>denied\<close>. \<open>cp.Copy\<close> is a third-party function, a
  parameter of \<open>CreateRunEnvironment\<close>. A function that writes its result through a pointer returns
  it instead.
\<close>

section \<open>The file system\<close>

type_synonym place = "bool \<times> string list"

datatype node = Dir nat | File nat string

record fs =
  nodes :: "place \<rightharpoonup> node"
  denied :: "place \<Rightarrow> bool"

definition os_error :: "string \<Rightarrow> string \<Rightarrow> go_error" where
  "os_error op p = Foreign (op @ '' '' @ p)"

text \<open>The root and the working directory are always there.\<close>

definition lookup :: "fs \<Rightarrow> place \<Rightarrow> node option" where
  "lookup f k = (if snd k = [] then Some (Dir 511) else nodes f k)"

definition os_ReadFile :: "string \<Rightarrow> fs \<Rightarrow> string result" where
  "os_ReadFile p f =
     (case lookup f (path_key p) of
        Some (File _ content) \<Rightarrow> if denied f (path_key p) then Inl (os_error ''open'' p) else Inr content
      | _ \<Rightarrow> Inl (os_error ''open'' p))"

text \<open>Whether \<open>os.ReadDir\<close> succeeds.\<close>

definition os_ReadDir :: "string \<Rightarrow> fs \<Rightarrow> bool" where
  "os_ReadDir p f =
     (case lookup f (path_key p) of Some (Dir _) \<Rightarrow> \<not> denied f (path_key p) | _ \<Rightarrow> False)"

fun mkdirs :: "nat \<Rightarrow> bool \<Rightarrow> string list \<Rightarrow> string list \<Rightarrow> fs \<Rightarrow> bool \<times> fs" where
  "mkdirs perm r pre [] f = (True, f)"
| "mkdirs perm r pre (s # ss) f =
     (let k = (r, pre @ [s]) in
      case nodes f k of
        Some (Dir _) \<Rightarrow> mkdirs perm r (pre @ [s]) ss f
      | Some (File _ _) \<Rightarrow> (False, f)
      | None \<Rightarrow> if denied f k then (False, f)
                else mkdirs perm r (pre @ [s]) ss (f\<lparr>nodes := (nodes f)(k \<mapsto> Dir perm)\<rparr>))"

definition os_MkdirAll :: "string \<Rightarrow> nat \<Rightarrow> fs \<Rightarrow> bool \<times> fs" where
  "os_MkdirAll p perm f = (case path_key p of (r, ss) \<Rightarrow> mkdirs perm r [] ss f)"

definition os_WriteFile :: "string \<Rightarrow> string \<Rightarrow> nat \<Rightarrow> fs \<Rightarrow> go_error option \<times> fs" where
  "os_WriteFile p content perm f =
     (let k = path_key p in
      if snd k = [] \<or> denied f k then (Some (os_error ''open'' p), f)
      else case lookup f (fst k, butlast (snd k)) of
        Some (Dir _) \<Rightarrow>
          (case nodes f k of
             None \<Rightarrow> (None, f\<lparr>nodes := (nodes f)(k \<mapsto> File perm content)\<rparr>)
           | Some (File old _) \<Rightarrow> (None, f\<lparr>nodes := (nodes f)(k \<mapsto> File old content)\<rparr>)
           | Some (Dir _) \<Rightarrow> (Some (os_error ''open'' p), f))
      | _ \<Rightarrow> (Some (os_error ''open'' p), f))"

definition below :: "place \<Rightarrow> place \<Rightarrow> bool" where
  "below k k' = (fst k = fst k' \<and> take (length (snd k')) (snd k) = snd k')"

definition os_RemoveAll :: "string \<Rightarrow> fs \<Rightarrow> go_error option \<times> fs" where
  "os_RemoveAll p f =
     (let k = path_key p in
      if denied f k then (Some (os_error ''unlinkat'' p), f)
      else (None, f\<lparr>nodes := (\<lambda>k'. if below k' k then None else nodes f k')\<rparr>))"

section \<open>The manager\<close>

record manager =
  storagePath :: string
  runPath :: string
  dirPerm :: nat
  filePerm :: nat

definition isDirectoryWritable :: "string \<Rightarrow> fs \<Rightarrow> bool" where
  "isDirectoryWritable p f =
     (case lookup f (path_key p) of Some (Dir perm) \<Rightarrow> odd (perm div 2 ^ 7) | _ \<Rightarrow> False)"

text \<open>\<open>None\<close> is \<open>log.Fatal\<close>, which ends the program.\<close>

definition setupDirectory :: "string \<Rightarrow> fs \<Rightarrow> fs option" where
  "setupDirectory p f =
     (if \<not> os_ReadDir p f \<or> \<not> isDirectoryWritable p f then
        (case os_MkdirAll p 488 f of (ok, f) \<Rightarrow> if ok then Some f else None)
      else Some f)"

definition setupDirectories :: "manager \<Rightarrow> fs \<Rightarrow> fs option" where
  "setupDirectories m f = Option.bind (setupDirectory (storagePath m) f) (setupDirectory (runPath m))"

definition CreateManager :: "string \<Rightarrow> string \<Rightarrow> bool \<Rightarrow> fs \<Rightarrow> (manager \<times> fs) option" where
  "CreateManager storage run isDevMode f =
     (let m = \<lparr>storagePath = storage, runPath = run,
               dirPerm = (if isDevMode then 511 else 488), filePerm = (if isDevMode then 438 else 416)\<rparr>
      in map_option (\<lambda>f. (m, f)) (setupDirectories m f))"

definition manager_read :: "manager \<Rightarrow> string \<Rightarrow> fs \<Rightarrow> string result" where
  "manager_read m absoluteFilePath f = os_ReadFile absoluteFilePath f"

definition manager_write :: "manager \<Rightarrow> string \<Rightarrow> string \<Rightarrow> fs \<Rightarrow> go_error option \<times> fs" where
  "manager_write m absoluteFilePath content f =
     (let dir = Dir_of absoluteFilePath in
      case (if os_ReadDir dir f then (True, f) else os_MkdirAll dir (dirPerm m) f) of
        (False, f) \<Rightarrow> (Some (Sentinel ErrFileStorage), f)
      | (True, f) \<Rightarrow> os_WriteFile absoluteFilePath content (filePerm m) f)"

definition manager_delete :: "manager \<Rightarrow> string \<Rightarrow> fs \<Rightarrow> go_error option \<times> fs" where
  "manager_delete m absolutePath f = os_RemoveAll absolutePath f"

definition writeStorage :: "manager \<Rightarrow> string \<Rightarrow> string \<Rightarrow> fs \<Rightarrow> go_error option \<times> fs" where
  "writeStorage m rel content f = manager_write m (Join [storagePath m, rel]) content f"

definition writeRun :: "manager \<Rightarrow> string \<Rightarrow> string \<Rightarrow> fs \<Rightarrow> go_error option \<times> fs" where
  "writeRun m rel content f = manager_write m (Join [runPath m, rel]) content f"

definition readStorage :: "manager \<Rightarrow> string \<Rightarrow> fs \<Rightarrow> string result" where
  "readStorage m rel f = manager_read m (Join [storagePath m, rel]) f"

definition readRun :: "manager \<Rightarrow> string \<Rightarrow> fs \<Rightarrow> string result" where
  "readRun m rel f = manager_read m (Join [runPath m, rel]) f"

definition deleteStorage :: "manager \<Rightarrow> string \<Rightarrow> fs \<Rightarrow> go_error option \<times> fs" where
  "deleteStorage m rel f = manager_delete m (Join [storagePath m, rel]) f"

definition deleteRun :: "manager \<Rightarrow> string \<Rightarrow> fs \<Rightarrow> go_error option \<times> fs" where
  "deleteRun m rel f = manager_delete m (Join [runPath m, rel]) f"

section \<open>Bind file paths\<close>

definition reservedBindFileNames :: "string list" where
  "reservedBindFileNames =
     [''topology.clab.yaml'', ''topology.clab.yaml.annotations.json'', ''topology.yml'',
      ''topology.yml.annotations.json'', ''clab-*'', ''clab_templates'', ''topology.clab_vars.*'',
      ''netlab.snapshot.pickle'', ''netlab.snapshot.yml'', ''netlab.lock'', ''hosts.yml'',
      ''ansible.cfg'', ''group_vars'', ''host_vars'', ''node_files'', ''clab_files'', ''config'']"

text \<open>\<open>path.Match\<close> for patterns whose only special character is \<open>*\<close>.\<close>

fun path_Match :: "string \<Rightarrow> string \<Rightarrow> bool" where
  "path_Match [] s = (s = [])"
| "path_Match (x # p) s =
     (if x = CHR ''*'' then
        path_Match p s \<or> (case s of [] \<Rightarrow> False | c # s' \<Rightarrow> c \<noteq> CHR ''/'' \<and> path_Match (x # p) s')
      else (case s of [] \<Rightarrow> False | c # s' \<Rightarrow> x = c \<and> path_Match p s'))"

definition normalizeBindFilePath :: "string \<Rightarrow> string result" where
  "normalizeBindFilePath filePath =
     (let cleaned = Clean filePath in
      if \<not> IsLocal cleaned \<or> cleaned = ''.''
      then Inl (Wrap (Sentinel ErrInvalidBindFilePath) (quote filePath))
      else Inr cleaned)"

definition checkReservedBindFilePath :: "string \<Rightarrow> go_error option" where
  "checkReservedBindFilePath filePath =
     (let firstSegment = ToLower (fst (Cut CHR ''/'' filePath)) in
      if list_ex (\<lambda>pattern. path_Match pattern firstSegment) reservedBindFileNames
      then Some (Wrap (Sentinel ErrInvalidBindFilePath) (quote filePath @ '' is reserved''))
      else None)"

definition ValidateBindFilePath :: "string \<Rightarrow> string result" where
  "ValidateBindFilePath filePath =
     (case normalizeBindFilePath filePath of
        Inl err \<Rightarrow> Inl err
      | Inr cleaned \<Rightarrow>
          (case checkReservedBindFilePath cleaned of Some err \<Rightarrow> Inl err | None \<Rightarrow> Inr cleaned))"

definition getDefinitionFilePath :: "string \<Rightarrow> string" where
  "getDefinitionFilePath topologyId = Join [topologyId, ''topology.clab.yaml'']"

definition getAnnotationFilePath :: "string \<Rightarrow> string" where
  "getAnnotationFilePath topologyId = Join [topologyId, ''topology.clab.yaml.annotations.json'']"

definition getRunDefinitionFilePath :: "string \<Rightarrow> string" where
  "getRunDefinitionFilePath labId = Join [labId, ''topology.clab.yaml'']"

definition bindFilePath :: "string \<Rightarrow> string \<Rightarrow> string result" where
  "bindFilePath topologyId filePath =
     (case normalizeBindFilePath filePath of
        Inl err \<Rightarrow> Inl err
      | Inr cleaned \<Rightarrow> Inr (Join [topologyId, cleaned]))"

section \<open>Topologies, bind files and run environments\<close>

definition ReadTopology :: "manager \<Rightarrow> string \<Rightarrow> fs \<Rightarrow> (string \<times> string) result" where
  "ReadTopology m topologyId f =
     (case readStorage m (getDefinitionFilePath topologyId) f of
        Inl err \<Rightarrow> Inl err
      | Inr def_text \<Rightarrow>
          (case readStorage m (getAnnotationFilePath topologyId) f of
             Inl err \<Rightarrow> Inl err
           | Inr annotations \<Rightarrow> Inr (def_text, annotations)))"

definition write_optional :: "manager \<Rightarrow> string \<Rightarrow> string option \<Rightarrow> fs \<Rightarrow> go_error option \<times> fs" where
  "write_optional m rel content f =
     (case content of None \<Rightarrow> (None, f) | Some c \<Rightarrow> writeStorage m rel c f)"

definition WriteTopology ::
  "manager \<Rightarrow> string \<Rightarrow> string option \<Rightarrow> string option \<Rightarrow> fs \<Rightarrow> go_error option \<times> fs" where
  "WriteTopology m topologyId def_text annotations f =
     (case write_optional m (getDefinitionFilePath topologyId) def_text f of
        (Some err, f) \<Rightarrow> (Some err, f)
      | (None, f) \<Rightarrow> write_optional m (getAnnotationFilePath topologyId) annotations f)"

definition ReadBindFile :: "manager \<Rightarrow> string \<Rightarrow> string \<Rightarrow> fs \<Rightarrow> string result" where
  "ReadBindFile m topologyId filePath f =
     (case bindFilePath topologyId filePath of
        Inl err \<Rightarrow> Inl err
      | Inr relativePath \<Rightarrow> readStorage m relativePath f)"

definition WriteBindFile ::
  "manager \<Rightarrow> string \<Rightarrow> string \<Rightarrow> string \<Rightarrow> fs \<Rightarrow> go_error option \<times> fs" where
  "WriteBindFile m topologyId filePath content f =
     (case bindFilePath topologyId filePath of
        Inl err \<Rightarrow> (Some err, f)
      | Inr relativePath \<Rightarrow> writeStorage m relativePath content f)"

definition DeleteBindFile :: "manager \<Rightarrow> string \<Rightarrow> string \<Rightarrow> fs \<Rightarrow> go_error option \<times> fs" where
  "DeleteBindFile m topologyId filePath f =
     (case bindFilePath topologyId filePath of
        Inl err \<Rightarrow> (Some err, f)
      | Inr relativePath \<Rightarrow> deleteStorage m relativePath f)"

definition CreateRunEnvironment ::
  "(string \<Rightarrow> string \<Rightarrow> fs \<Rightarrow> go_error option \<times> fs) \<Rightarrow> manager \<Rightarrow> string \<Rightarrow> string \<Rightarrow> string
    \<Rightarrow> fs \<Rightarrow> string result \<times> fs" where
  "CreateRunEnvironment cp_Copy m topologyId labId topologyDefinition f =
     (let absoluteStoragePath = Join [storagePath m, topologyId];
          absoluteRunPath = Join [runPath m, labId] in
      case cp_Copy absoluteStoragePath absoluteRunPath f of
        (Some err, f) \<Rightarrow> (Inl err, f)
      | (None, f) \<Rightarrow>
          (let runDefinitionPath = getRunDefinitionFilePath labId in
           case writeRun m runDefinitionPath topologyDefinition f of
             (Some err, f) \<Rightarrow> (Inl err, f)
           | (None, f) \<Rightarrow> (Inr (Join [runPath m, runDefinitionPath]), f)))"

definition GetRunTopologyDefinitionFile :: "manager \<Rightarrow> string \<Rightarrow> string" where
  "GetRunTopologyDefinitionFile m labId = Join [runPath m, getRunDefinitionFilePath labId]"

definition ReadRunTopologyDefinition :: "manager \<Rightarrow> string \<Rightarrow> fs \<Rightarrow> string result" where
  "ReadRunTopologyDefinition m labId f = readRun m (getRunDefinitionFilePath labId) f"

text \<open>The definition and the path of the file that holds it.\<close>

definition GetRunEnvironment :: "manager \<Rightarrow> string \<Rightarrow> fs \<Rightarrow> (string \<times> string) result" where
  "GetRunEnvironment m labId f =
     (let definitionPath = getRunDefinitionFilePath labId in
      case readRun m definitionPath f of
        Inl err \<Rightarrow> Inl err
      | Inr def_text \<Rightarrow> Inr (def_text, Join [runPath m, definitionPath]))"

definition DeleteRunEnvironment :: "manager \<Rightarrow> string \<Rightarrow> fs \<Rightarrow> go_error option \<times> fs" where
  "DeleteRunEnvironment m labId f = deleteRun m labId f"

section \<open>Facts about the file system\<close>

text \<open>Creating directories only adds directories where nothing was.\<close>

definition adds_dirs :: "fs \<Rightarrow> fs \<Rightarrow> bool" where
  "adds_dirs f f' \<longleftrightarrow> denied f' = denied f
     \<and> (\<forall>k. nodes f' k = nodes f k \<or> (nodes f k = None \<and> (\<exists>perm. nodes f' k = Some (Dir perm))))"

lemma adds_dirs_refl [simp]: "adds_dirs f f"
  by (simp add: adds_dirs_def)

lemma adds_dirs_trans: "adds_dirs f g \<Longrightarrow> adds_dirs g h \<Longrightarrow> adds_dirs f h"
  unfolding adds_dirs_def by (metis option.distinct(1))

lemma adds_dirs_mkdirs: "adds_dirs f (snd (mkdirs perm r pre ss f))"
proof (induction perm r pre ss f rule: mkdirs.induct)
  case (2 perm r pre s ss f)
  let ?k = "(r, pre @ [s])"
  show ?case
  proof (cases "nodes f ?k")
    case None
    have "adds_dirs f (f\<lparr>nodes := (nodes f)(?k \<mapsto> Dir perm)\<rparr>)"
      using None by (auto simp: adds_dirs_def)
    with 2 None adds_dirs_trans show ?thesis by (auto simp: Let_def)
  next
    case (Some n)
    with 2 show ?thesis by (cases n) (auto simp: Let_def)
  qed
qed simp

text \<open>Whatever \<open>write\<close> does, it changes the content of no other file; if it succeeds, it changed its own.\<close>

lemma read_adds_dirs: "adds_dirs f f' \<Longrightarrow> os_ReadFile p f' = os_ReadFile p f"
proof -
  assume ad: "adds_dirs f f'"
  let ?k = "path_key p"
  have d: "denied f' = denied f" using ad by (simp add: adds_dirs_def)
  show ?thesis
  proof (cases "nodes f' ?k = nodes f ?k")
    case True
    with d show ?thesis
      by (simp add: os_ReadFile_def lookup_def split: option.split node.split)
  next
    case False
    then obtain perm where "nodes f ?k = None" "nodes f' ?k = Some (Dir perm)"
      using ad unfolding adds_dirs_def by metis
    with d show ?thesis by (simp add: os_ReadFile_def lookup_def)
  qed
qed

lemma write_frame:
  assumes "manager_write m p content f = (e, f')" and "path_key q \<noteq> path_key p"
  shows "os_ReadFile q f' = os_ReadFile q f"
proof -
  obtain ok g where g: "(if os_ReadDir (Dir_of p) f then (True, f) else os_MkdirAll (Dir_of p) (dirPerm m) f) = (ok, g)"
    by fastforce
  have "adds_dirs f g"
    using g adds_dirs_mkdirs by (auto simp: os_MkdirAll_def split: if_splits prod.splits) (metis snd_conv)
  from read_adds_dirs [OF this] have same: "os_ReadFile q g = os_ReadFile q f" .
  show ?thesis
  proof (cases ok)
    case False
    with assms(1) g same show ?thesis by (simp add: manager_write_def Let_def)
  next
    case True
    with assms(1) g have w: "os_WriteFile p content (filePerm m) g = (e, f')"
      by (simp add: manager_write_def Let_def)
    then have "os_ReadFile q f' = os_ReadFile q g"
      using assms(2)
      by (auto simp: os_WriteFile_def os_ReadFile_def lookup_def Let_def
          split: if_splits option.splits node.splits)
    with same show ?thesis by simp
  qed
qed

lemma write_read:
  assumes "manager_write m p content f = (None, f')"
  shows "os_ReadFile p f' = Inr content"
proof -
  obtain g where "os_WriteFile p content (filePerm m) g = (None, f')"
    using assms by (auto simp: manager_write_def Let_def split: prod.splits bool.splits)
  then show ?thesis
    by (auto simp: os_WriteFile_def os_ReadFile_def lookup_def Let_def
        split: if_splits option.splits node.splits)
qed

section \<open>Facts about bind file paths\<close>

lemma normalize_Inr:
  "normalizeBindFilePath p = Inr c \<longleftrightarrow>
     (\<exists>ns. ns \<noteq> [] \<and> (\<forall>s \<in> set ns. plain s) \<and> path_key p = (False, ns) \<and> c = join ''/'' ns)"
proof
  assume "normalizeBindFilePath p = Inr c"
  then have "IsLocal (Clean p) \<and> Clean p \<noteq> ''.''" and c: "c = Clean p"
    by (auto simp: normalizeBindFilePath_def Let_def split: if_splits)
  then obtain ns where ns: "ns \<noteq> []" "\<forall>s \<in> set ns. plain s" "path_key p = (False, ns)"
    using IsLocal_Clean by blast
  with c have "c = join ''/'' ns" by (simp add: Clean_def key_path_def)
  with ns show "\<exists>ns. ns \<noteq> [] \<and> (\<forall>s \<in> set ns. plain s) \<and> path_key p = (False, ns) \<and> c = join ''/'' ns"
    by blast
next
  assume "\<exists>ns. ns \<noteq> [] \<and> (\<forall>s \<in> set ns. plain s) \<and> path_key p = (False, ns) \<and> c = join ''/'' ns"
  then obtain ns where ns: "ns \<noteq> []" "\<forall>s \<in> set ns. plain s" "path_key p = (False, ns)" "c = join ''/'' ns"
    by blast
  then have "IsLocal (Clean p) \<and> Clean p \<noteq> ''.''" and "Clean p = c"
    using IsLocal_Clean by (blast, simp add: Clean_def key_path_def)
  then show "normalizeBindFilePath p = Inr c"
    by (simp add: normalizeBindFilePath_def Let_def)
qed

lemma normalize_again: "normalizeBindFilePath p = Inr c \<Longrightarrow> normalizeBindFilePath c = Inr c"
  unfolding normalize_Inr using path_key_join by blast

lemma path_key_Join_plain:
  assumes "plain t" and "\<forall>s \<in> set ns. plain s" and "ns \<noteq> []"
  shows "path_key (Join [root, Join [t, join ''/'' ns]]) = (fst (path_key root), snd (path_key root) @ t # ns)"
  using path_key_Join [of "t # ns" root] assms by (simp add: Join_plain)

lemma join_single: "join sep [s] = s"
  by simp

lemma definition_key:
  assumes "plain t"
  shows "path_key (Join [root, getDefinitionFilePath t])
      = (fst (path_key root), snd (path_key root) @ [t, ''topology.clab.yaml''])"
    and "path_key (Join [root, getAnnotationFilePath t])
      = (fst (path_key root), snd (path_key root) @ [t, ''topology.clab.yaml.annotations.json''])"
  using path_key_Join_plain [OF assms, of "[''topology.clab.yaml'']" root]
    path_key_Join_plain [OF assms, of "[''topology.clab.yaml.annotations.json'']" root]
  by (simp_all add: getDefinitionFilePath_def getAnnotationFilePath_def plain_def)

text \<open>The first element of a validated path is not reserved.\<close>

lemma validate_first:
  assumes "ValidateBindFilePath p = Inr c"
  obtains n ns where "\<forall>s \<in> set (n # ns). plain s" and "path_key p = (False, n # ns)"
    and "c = join ''/'' (n # ns)"
    and "\<forall>pattern \<in> set reservedBindFileNames. \<not> path_Match pattern (ToLower n)"
proof -
  have norm: "normalizeBindFilePath p = Inr c" and free: "checkReservedBindFilePath c = None"
    using assms by (auto simp: ValidateBindFilePath_def split: sum.splits option.splits)
  from norm obtain ns where ns: "ns \<noteq> []" "\<forall>s \<in> set ns. plain s" "path_key p = (False, ns)" "c = join ''/'' ns"
    unfolding normalize_Inr by blast
  then obtain n ms where n: "ns = n # ms" by (cases ns) auto
  have "CHR ''/'' \<notin> set n" using ns(2) n by (simp add: plain_def)
  then have "fst (Cut CHR ''/'' c) = n"
    using ns(4) n by (cases ms) simp_all
  with free have "\<forall>pattern \<in> set reservedBindFileNames. \<not> path_Match pattern (ToLower n)"
    by (auto simp: checkReservedBindFilePath_def Let_def list_ex_iff split: if_splits)
  with that ns n show ?thesis by blast
qed

lemma reserved_definition:
  "path_Match ''topology.clab.yaml'' (ToLower ''topology.clab.yaml'')"
  "path_Match ''topology.clab.yaml.annotations.json'' (ToLower ''topology.clab.yaml.annotations.json'')"
  by (simp_all add: ToLower_def to_lower_def Let_def)

text \<open>Writing both files of a topology: they read back, and other topologies keep theirs.\<close>

lemma read_other_topology:
  assumes "plain t" and "plain t'" and "t \<noteq> t'" and "rel \<in> {getDefinitionFilePath t, getAnnotationFilePath t}"
    and "writeStorage m rel content f = (e, f')"
  shows "ReadTopology m t' f' = ReadTopology m t' f"
proof -
  have w: "manager_write m (Join [storagePath m, rel]) content f = (e, f')"
    using assms(5) by (simp add: writeStorage_def)
  have "path_key (Join [storagePath m, getDefinitionFilePath t']) \<noteq> path_key (Join [storagePath m, rel])"
    and "path_key (Join [storagePath m, getAnnotationFilePath t']) \<noteq> path_key (Join [storagePath m, rel])"
    using definition_key [OF assms(1)] definition_key [OF assms(2)] assms(3,4) by auto
  then have "readStorage m (getDefinitionFilePath t') f' = readStorage m (getDefinitionFilePath t') f"
    and "readStorage m (getAnnotationFilePath t') f' = readStorage m (getAnnotationFilePath t') f"
    using write_frame [OF w] by (simp_all add: readStorage_def manager_read_def)
  then show ?thesis by (simp only: ReadTopology_def)
qed

lemma write_optional_cases:
  "write_optional m rel content f = (e, f') \<Longrightarrow>
    (content = None \<and> e = None \<and> f' = f) \<or> (\<exists>c. content = Some c \<and> writeStorage m rel c f = (e, f'))"
  by (auto simp: write_optional_def split: option.splits)

lemma write_topology_frame:
  assumes "plain t" and "plain t'" and "t \<noteq> t'" and "WriteTopology m t d a f = (e, f')"
  shows "ReadTopology m t' f' = ReadTopology m t' f"
proof -
  obtain e1 f1 where w1: "write_optional m (getDefinitionFilePath t) d f = (e1, f1)" by fastforce
  note other = read_other_topology [OF assms(1-3)]
  have 1: "ReadTopology m t' f1 = ReadTopology m t' f"
    using write_optional_cases [OF w1] other [of "getDefinitionFilePath t" m _ f e1 f1] by auto
  show ?thesis
  proof (cases e1)
    case (Some err)
    with assms(4) w1 1 show ?thesis by (simp add: WriteTopology_def)
  next
    case None
    with assms(4) w1 have w2: "write_optional m (getAnnotationFilePath t) a f1 = (e, f')"
      by (simp add: WriteTopology_def)
    show ?thesis
      using write_optional_cases [OF w2] other [of "getAnnotationFilePath t" m _ f1 e f'] 1 by auto
  qed
qed

lemma write_topology_read:
  assumes "plain t" and "WriteTopology m t (Some d) (Some a) f = (None, f')"
  shows "ReadTopology m t f' = Inr (d, a)"
proof -
  obtain f1 where w: "writeStorage m (getDefinitionFilePath t) d f = (None, f1)"
      "writeStorage m (getAnnotationFilePath t) a f1 = (None, f')"
    using assms(2) by (auto simp: WriteTopology_def write_optional_def split: prod.splits option.splits)
  let ?d = "Join [storagePath m, getDefinitionFilePath t]"
  let ?a = "Join [storagePath m, getAnnotationFilePath t]"
  have w': "manager_write m ?d d f = (None, f1)" "manager_write m ?a a f1 = (None, f')"
    using w by (simp_all add: writeStorage_def)
  have "path_key ?d \<noteq> path_key ?a" using definition_key [OF assms(1)] by auto
  then have "os_ReadFile ?d f' = os_ReadFile ?d f1" using write_frame [OF w'(2)] by blast
  with write_read [OF w'(1)] write_read [OF w'(2)] show ?thesis
    by (simp add: ReadTopology_def readStorage_def manager_read_def)
qed

text \<open>Writing to a place that is a directory fails, and reading a file that was removed.\<close>

lemma prepare_dir:
  assumes "(if os_ReadDir d f then (True, f) else os_MkdirAll d perm f) = (ok, g)"
  shows "adds_dirs f g"
proof (cases "os_ReadDir d f")
  case False
  obtain r ss where "path_key d = (r, ss)" by fastforce
  with assms False have "g = snd (mkdirs perm r [] ss f)" by (simp add: os_MkdirAll_def)
  then show ?thesis by (simp add: adds_dirs_mkdirs)
qed (use assms in simp)

lemma write_directory_fails:
  assumes "nodes f (path_key p) = Some (Dir perm)"
  shows "\<exists>err f'. manager_write m p content f = (Some err, f')"
proof -
  obtain ok g where g: "(if os_ReadDir (Dir_of p) f then (True, f) else os_MkdirAll (Dir_of p) (dirPerm m) f) = (ok, g)"
    by fastforce
  have "nodes g (path_key p) = Some (Dir perm)"
    using prepare_dir [OF g] assms unfolding adds_dirs_def by (metis option.distinct(1))
  then have "\<exists>err. os_WriteFile p content (filePerm m) g = (Some err, g)"
    by (auto simp: os_WriteFile_def Let_def split: option.split node.split)
  with g show ?thesis by (cases ok) (auto simp: manager_write_def Let_def)
qed

lemma write_directory_keeps_nothing:
  assumes "nodes f k = None" and "manager_write m p content f = (Some err, f')"
  shows "\<forall>old c. nodes f' k \<noteq> Some (File old c)"
proof -
  obtain ok g where g: "(if os_ReadDir (Dir_of p) f then (True, f) else os_MkdirAll (Dir_of p) (dirPerm m) f) = (ok, g)"
    by fastforce
  have "adds_dirs f g" by (rule prepare_dir [OF g])
  then have "\<forall>old c. nodes g k \<noteq> Some (File old c)"
    using assms(1) unfolding adds_dirs_def by (metis node.distinct(1) option.distinct(1) option.inject)
  moreover have "f' = g"
    using assms(2) g by (auto simp: manager_write_def os_WriteFile_def Let_def
        split: bool.splits if_splits option.splits node.splits)
  ultimately show ?thesis by simp
qed

section \<open>Properties\<close>

text \<open>C20: A bind file path a client sends is rejected or leads strictly below the directory of its
  topology: however many \<open>..\<close> it has, no path leaves the directory, and none names the directory.\<close>

theorem bind_file_confined:
  assumes "bindFilePath topologyId filePath = Inr p" and "plain topologyId"
  shows "\<exists>rest. rest \<noteq> [] \<and> (\<forall>s \<in> set rest. plain s)
    \<and> path_key (Join [storagePath m, p])
        = (fst (path_key (storagePath m)), snd (path_key (storagePath m)) @ topologyId # rest)"
proof -
  obtain c where c: "normalizeBindFilePath filePath = Inr c" "p = Join [topologyId, c]"
    using assms(1) by (auto simp: bindFilePath_def split: sum.splits)
  then obtain ns where "ns \<noteq> []" "\<forall>s \<in> set ns. plain s" "c = join ''/'' ns"
    unfolding normalize_Inr by blast
  with c(2) path_key_Join_plain [OF assms(2)] show ?thesis by blast
qed

theorem bind_file_confined_witness:
  "\<exists>rest. rest \<noteq> [] \<and> path_key (Join [''/data'', Join [''t1'', ''a/b'']]) = (True, [''data''] @ ''t1'' # rest)"
proof -
  have b: "bindFilePath ''t1'' ''x/../a//b'' = Inr (Join [''t1'', ''a/b''])"
    by (simp add: bindFilePath_def normalizeBindFilePath_def Clean_def path_key_def key_path_def
        is_rooted_def IsLocal_def HasPrefix_def)
  have "path_key ''/data'' = (True, [''data''])"
    by (simp add: path_key_def is_rooted_def)
  with bind_file_confined [OF b, of "\<lparr>storagePath = ''/data'', runPath = [], dirPerm = 0, filePerm = 0\<rparr>"]
  show ?thesis by (auto simp: plain_def)
qed

text \<open>The path \<open>ValidateBindFilePath\<close> returns is canonical: validating it again returns it
  unchanged, and its first element is none of the names Antimony, containerlab and netlab keep in
  the topology's directory, in lower or upper case.\<close>

theorem validated_path_canonical:
  assumes "ValidateBindFilePath filePath = Inr c"
  shows "ValidateBindFilePath c = Inr c
    \<and> (\<forall>pattern \<in> set reservedBindFileNames. \<not> path_Match pattern (ToLower (fst (Cut CHR ''/'' c))))"
proof -
  have norm: "normalizeBindFilePath filePath = Inr c" and free: "checkReservedBindFilePath c = None"
    using assms by (auto simp: ValidateBindFilePath_def split: sum.splits option.splits)
  have "ValidateBindFilePath c = Inr c"
    using normalize_again [OF norm] free by (simp add: ValidateBindFilePath_def)
  moreover have "\<forall>pattern \<in> set reservedBindFileNames.
      \<not> path_Match pattern (ToLower (fst (Cut CHR ''/'' c)))"
    using free by (auto simp: checkReservedBindFilePath_def Let_def list_ex_iff split: if_splits)
  ultimately show ?thesis by blast
qed

theorem validated_path_canonical_witness: "ValidateBindFilePath ''r1/a.cfg'' = Inr ''r1/a.cfg''"
proof -
  have "ValidateBindFilePath ''r1//./a.cfg'' = Inr ''r1/a.cfg''"
    by (simp add: ValidateBindFilePath_def normalizeBindFilePath_def checkReservedBindFilePath_def
        Clean_def path_key_def key_path_def is_rooted_def IsLocal_def HasPrefix_def Cut_def ToLower_def
        to_lower_def reservedBindFileNames_def Let_def)
  from validated_path_canonical [OF this] show ?thesis by blast
qed

text \<open>C21: Writing a validated bind file, whether it succeeds or fails, changes neither the definition
  and annotations of any topology nor any other bind file, and after a success the file has the
  written content.\<close>

theorem write_bind_file_isolated:
  assumes "ValidateBindFilePath filePath = Inr c" and "plain topologyId"
    and "WriteBindFile m topologyId filePath content f = (e, f')"
  shows "(\<forall>t. plain t \<longrightarrow> ReadTopology m t f' = ReadTopology m t f)
    \<and> (\<forall>t p. plain t \<longrightarrow> (t, Clean p) \<noteq> (topologyId, c) \<longrightarrow> ReadBindFile m t p f' = ReadBindFile m t p f)
    \<and> (e = None \<longrightarrow> ReadBindFile m topologyId filePath f' = Inr content)"
proof -
  obtain n ns where ns: "\<forall>s \<in> set (n # ns). plain s" "path_key filePath = (False, n # ns)"
      "c = join ''/'' (n # ns)"
      "\<forall>pattern \<in> set reservedBindFileNames. \<not> path_Match pattern (ToLower n)"
    using validate_first [OF assms(1)] by metis
  have norm: "normalizeBindFilePath filePath = Inr c"
    unfolding normalize_Inr using ns by blast
  let ?file = "Join [storagePath m, Join [topologyId, c]]"
  let ?root = "path_key (storagePath m)"
  have key: "path_key ?file = (fst ?root, snd ?root @ topologyId # n # ns)"
    using path_key_Join_plain [OF assms(2) ns(1)] ns(3) by simp
  have w: "manager_write m ?file content f = (e, f')"
    using assms(3) norm by (simp add: WriteBindFile_def bindFilePath_def writeStorage_def)
  note frame = write_frame [OF w]
  have "n \<noteq> ''topology.clab.yaml''" and "n \<noteq> ''topology.clab.yaml.annotations.json''"
    using ns(4) reserved_definition by (auto simp: reservedBindFileNames_def)
  then have "readStorage m (getDefinitionFilePath t) f' = readStorage m (getDefinitionFilePath t) f"
    and "readStorage m (getAnnotationFilePath t) f' = readStorage m (getAnnotationFilePath t) f"
    if "plain t" for t
    using frame definition_key [OF that] key by (simp_all add: readStorage_def manager_read_def)
  then have "ReadTopology m t f' = ReadTopology m t f" if "plain t" for t
    using that by (simp only: ReadTopology_def)
  moreover have "ReadBindFile m t p f' = ReadBindFile m t p f"
    if "plain t" "(t, Clean p) \<noteq> (topologyId, c)" for t p
  proof (cases "normalizeBindFilePath p")
    case (Inl err)
    then show ?thesis by (simp add: ReadBindFile_def bindFilePath_def)
  next
    case (Inr d)
    then obtain ms where ms: "ms \<noteq> []" "\<forall>s \<in> set ms. plain s" "path_key p = (False, ms)" "d = join ''/'' ms"
      unfolding normalize_Inr by blast
    then have "Clean p = d" by (simp add: Clean_def key_path_def)
    then have "(t, ms) \<noteq> (topologyId, n # ns)"
      using that(2) ms(4) ns(3) by auto
    then have "path_key (Join [storagePath m, Join [t, d]]) \<noteq> path_key ?file"
      using path_key_Join_plain [OF that(1) ms(2,1)] ms(4) key by auto
    with frame Inr show ?thesis
      by (simp add: ReadBindFile_def bindFilePath_def readStorage_def manager_read_def)
  qed
  moreover have "ReadBindFile m topologyId filePath f' = Inr content" if "e = None"
    using write_read w norm that
    by (simp add: ReadBindFile_def bindFilePath_def readStorage_def manager_read_def)
  ultimately show ?thesis by blast
qed

theorem write_bind_file_isolated_witness:
  "let m = \<lparr>storagePath = ''/data'', runPath = ''/run'', dirPerm = 488, filePerm = 416\<rparr>;
       f = \<lparr>nodes = [(True, [''data'']) \<mapsto> Dir 488], denied = (\<lambda>_. False)\<rparr>
   in \<exists>f'. WriteBindFile m ''t1'' ''a.cfg'' ''x'' f = (None, f')
     \<and> ReadBindFile m ''t1'' ''a.cfg'' f' = Inr ''x''
     \<and> ReadTopology m ''t2'' f' = ReadTopology m ''t2'' f"
proof -
  let ?m = "\<lparr>storagePath = ''/data'', runPath = ''/run'', dirPerm = 488, filePerm = 416\<rparr>"
  let ?f = "\<lparr>nodes = [(True, [''data'']) \<mapsto> Dir 488], denied = (\<lambda>_. False)\<rparr>"
  have v: "ValidateBindFilePath ''a.cfg'' = Inr ''a.cfg''"
    by (simp add: ValidateBindFilePath_def normalizeBindFilePath_def checkReservedBindFilePath_def
        Clean_def path_key_def key_path_def is_rooted_def IsLocal_def HasPrefix_def Cut_def ToLower_def
        to_lower_def reservedBindFileNames_def Let_def)
  have "\<exists>f'. WriteBindFile ?m ''t1'' ''a.cfg'' ''x'' ?f = (None, f')"
    by (simp add: WriteBindFile_def bindFilePath_def normalizeBindFilePath_def writeStorage_def
        manager_write_def Clean_def path_key_def key_path_def is_rooted_def IsLocal_def HasPrefix_def
        Join_def Dir_of_def os_ReadDir_def os_MkdirAll_def os_WriteFile_def lookup_def Let_def)
  then obtain f' where w: "WriteBindFile ?m ''t1'' ''a.cfg'' ''x'' ?f = (None, f')" by blast
  from write_bind_file_isolated [OF v _ w] w show ?thesis
    by (auto simp: plain_def Let_def)
qed

end
