(* ===== verification/Policy.thy ===== *)
theory Policy
  imports Go_Strings
begin

text \<open>
  The policy engine of \<open>src/policy\<close>, which decides whether a topology is unsafe.

  The generic definition is what \<open>yaml.v3\<close> decodes (\<open>yaml\<close>), and the typed one is what containerlab's
  types decode, of which the records hold the fields the code reads. A Go map is a list of its
  entries in some order. Constants of containerlab are in a parameter, as is the hash function. A
  rule that calls \<open>c.add\<close> returns the findings it adds, in their order.
\<close>

section \<open>Rules, findings and input\<close>

datatype impact = ImpactDeploy | ImpactShell | ImpactUnreviewed

datatype rule_id =
    Netlab | UnreviewedField | GoTemplate | EnvExpansion
  | Mgmt | Prefix | Settings
  | EnvFiles | HostKind | ImageNotAllowed | Privileged | Privileges | HostNamespace | KernelSettings
  | Runtime | HostPorts | Volumes | StaticMgmtAddress | HostExec | RemoteFile | ForeignFile
  | HostLink

fun impact_text :: "impact \<Rightarrow> string" where
  "impact_text ImpactDeploy = ''deploy''"
| "impact_text ImpactShell = ''shell''"
| "impact_text ImpactUnreviewed = ''unreviewed''"

fun rule_text :: "rule_id \<Rightarrow> string" where
  "rule_text Netlab = ''netlab''"
| "rule_text UnreviewedField = ''unreviewed-field''"
| "rule_text GoTemplate = ''go-template''"
| "rule_text EnvExpansion = ''env-expansion''"
| "rule_text Mgmt = ''mgmt''"
| "rule_text Prefix = ''prefix''"
| "rule_text Settings = ''settings''"
| "rule_text EnvFiles = ''env-files''"
| "rule_text HostKind = ''host-kind''"
| "rule_text ImageNotAllowed = ''image-not-allowed''"
| "rule_text Privileged = ''privileged''"
| "rule_text Privileges = ''privileges''"
| "rule_text HostNamespace = ''host-namespace''"
| "rule_text KernelSettings = ''kernel-settings''"
| "rule_text Runtime = ''runtime''"
| "rule_text HostPorts = ''host-ports''"
| "rule_text Volumes = ''volumes''"
| "rule_text StaticMgmtAddress = ''static-mgmt-address''"
| "rule_text HostExec = ''host-exec''"
| "rule_text RemoteFile = ''remote-file''"
| "rule_text ForeignFile = ''foreign-file''"
| "rule_text HostLink = ''host-link''"

record finding =
  f_RuleId :: rule_id
  f_Impact :: impact
  f_Path :: string
  f_Message :: string

datatype yaml = YMap "(string \<times> yaml) list" | YSeq "yaml list" | YScalar string

record stages =
  st_Create :: "string option list option"
  st_CreateLinks :: "string option list option"
  st_Configure :: "string option list option"
  st_Healthy :: "string option list option"
  st_Exit :: "string option list option"

record node_definition =
  nd_Kind :: string
  nd_Image :: string
  nd_Privileged :: "bool option"
  nd_Binds :: "string list"
  nd_StartupConfig :: string
  nd_License :: string
  nd_IdentityFile :: string
  nd_Stages :: "stages option"

text \<open>A link that was decoded: its type, and the nodes of its endpoints if it is a \<open>LinkVEthRaw\<close>.\<close>

record raw_link =
  GetType :: string
  veth_endpoints :: "string option list option"

record clab_topology =
  ct_Defaults :: "node_definition option"
  ct_Kinds :: "(string \<times> node_definition option) list"
  ct_Groups :: "(string \<times> node_definition option) list"
  ct_Nodes :: "(string \<times> node_definition option) list"
  ct_Links :: "raw_link option list"

record clab_constants =
  LinkTypeDummy :: string
  LinkTypeVEth :: string
  CommandTargetContainer :: string

record options =
  AllowedImagePrefixes :: "string list"

text \<open>What one check reads: containerlab's constants, the options and the paths of the bind files.\<close>

record checker =
  clab :: clab_constants
  opts :: options
  bindFiles :: "string list"

definition add :: "string \<Rightarrow> rule_id \<Rightarrow> impact \<Rightarrow> string \<Rightarrow> finding list" where
  "add path ruleId impact message =
     [\<lparr>f_RuleId = ruleId, f_Impact = impact, f_Path = path, f_Message = message\<rparr>]"

definition unknown :: "string \<Rightarrow> finding list" where
  "unknown path = add path UnreviewedField ImpactUnreviewed (quote path @ '' is not a reviewed field'')"

definition sortedKeys :: "(string \<times> 'v) list \<Rightarrow> string list" where
  "sortedKeys mapping = sort (map fst mapping)"

definition NetlabFindings :: "finding list" where
  "NetlabFindings = add [] Netlab ImpactDeploy
     ''netlab topologies run code on the server while the lab is created and deployed''"

section \<open>Rules on the text and the keys\<close>

text \<open>The regular expression \<open>\$(\{|[A-Za-z_])\<close>.\<close>

definition starts_name :: "char \<Rightarrow> bool" where
  "starts_name c = (let n = of_char c :: nat in
     c = CHR 0x7B \<or> c = CHR 0x5F \<or> (65 \<le> n \<and> n \<le> 90) \<or> (97 \<le> n \<and> n \<le> 122))"

fun env_pattern :: "string \<Rightarrow> bool" where
  "env_pattern [] = False"
| "env_pattern (c # s) =
     (c = CHR ''$'' \<and> (case s of [] \<Rightarrow> False | d # _ \<Rightarrow> starts_name d) \<or> env_pattern s)"

definition template_pattern :: "string \<Rightarrow> bool" where
  "template_pattern s = Contains s [CHR 0x7B, CHR 0x7B]"

definition rawTextRules :: "((string \<Rightarrow> bool) \<times> rule_id \<times> string) list" where
  "rawTextRules =
     [(template_pattern, GoTemplate,
       ''containerlab renders the topology as a Go template, so templated topologies can't be checked''),
      (env_pattern, EnvExpansion,
       ''containerlab replaces $VAR and ${VAR} with environment variables of the deploying process'')]"

definition checkRawText :: "string \<Rightarrow> finding list" where
  "checkRawText t = concat (map (\<lambda>(pattern, ruleId, message).
     if pattern t then add [] ruleId ImpactDeploy message else []) rawTextRules)"

datatype node_field = Allowed | Denied rule_id impact string

definition nodeFields :: "(string \<times> node_field) list" where
  "nodeFields = map (\<lambda>k. (k, Allowed))
     [''group'', ''type'', ''startup-delay'', ''enforce-startup-config'', ''suppress-startup-config'',
      ''auto-remove'', ''restart-policy'', ''config'', ''image-pull-policy'', ''position'', ''hostname'',
      ''entrypoint'', ''cmd'', ''exec'', ''env'', ''user'', ''labels'', ''dns'', ''aliases'',
      ''healthcheck'', ''link-apply-mode'', ''credentials'', ''certificate'',
      ''cpu'', ''cpu-set'', ''memory'', ''shm-size'', ''tmpfs'',
      ''kind'', ''image'', ''privileged'', ''stages'', ''binds'', ''startup-config'', ''license'']
   @ [(''env-files'', Denied EnvFiles ImpactDeploy
        ''env files are read on the server and can expand its environment variables''),
      (''network-mode'', Denied HostNamespace ImpactShell
        ''shares a network namespace with the server or another container''),
      (''pid-mode'', Denied HostNamespace ImpactShell
        ''shares a process namespace with the server or another container''),
      (''cgroupns-mode'', Denied HostNamespace ImpactShell ''shares the cgroup namespace with the server''),
      (''cgroup-parent'', Denied HostNamespace ImpactDeploy ''places the node in a cgroup of the server''),
      (''cap-add'', Denied Privileges ImpactShell ''grants additional Linux capabilities''),
      (''devices'', Denied Privileges ImpactShell ''gives the node access to devices of the server''),
      (''security-opts'', Denied Privileges ImpactShell ''changes the node's security profile''),
      (''sysctls'', Denied KernelSettings ImpactDeploy ''changes kernel settings''),
      (''runtime'', Denied Runtime ImpactDeploy ''selects the container runtime''),
      (''ports'', Denied HostPorts ImpactDeploy ''publishes ports on the server''),
      (''volumes'', Denied Volumes ImpactShell ''mounts container volumes, which other labs can share''),
      (''mgmt-ipv4'', Denied StaticMgmtAddress ImpactShell
        ''static management addresses can take another lab's address''),
      (''mgmt-ipv6'', Denied StaticMgmtAddress ImpactShell
        ''static management addresses can take another lab's address''),
      (''extras'', Denied UnreviewedField ImpactUnreviewed
        ''kind-specific extras can reference files on the server''),
      (''components'', Denied UnreviewedField ImpactUnreviewed ''node components are not reviewed'')]"

text \<open>A failed type assertion yields the nil map.\<close>

fun as_map :: "yaml option \<Rightarrow> (string \<times> yaml) list" where
  "as_map (Some (YMap m)) = m"
| "as_map _ = []"

definition checkNodeKeys :: "string \<Rightarrow> yaml option \<Rightarrow> finding list" where
  "checkNodeKeys path value =
     (let def_map = as_map value in
      concat (map (\<lambda>key.
        let fieldPath = path @ ''.'' @ key in
        case map_of nodeFields key of
          None \<Rightarrow> unknown fieldPath
        | Some Allowed \<Rightarrow> []
        | Some (Denied ruleId impact message) \<Rightarrow> add fieldPath ruleId impact message)
      (sortedKeys def_map)))"

definition checkTopologyKeys :: "yaml option \<Rightarrow> finding list" where
  "checkTopologyKeys value =
     (let topo = as_map value in
      concat (map (\<lambda>sect.
        let path = ''topology.'' @ sect in
        if sect = ''defaults'' then checkNodeKeys path (map_of topo sect)
        else if sect \<in> {''kinds'', ''groups'', ''nodes''} then
          (let defs = as_map (map_of topo sect) in
           concat (map (\<lambda>name. checkNodeKeys (path @ ''.'' @ name) (map_of defs name)) (sortedKeys defs)))
        else if sect = ''links'' then []
        else unknown path) (sortedKeys topo)))"

definition checkRootKeys :: "yaml option \<Rightarrow> finding list" where
  "checkRootKeys generic =
     (let root = as_map generic in
      concat (map (\<lambda>key.
        if key \<in> {''name'', ''debug''} then []
        else if key = ''topology'' then checkTopologyKeys (map_of root key)
        else if key = ''mgmt'' then add key Mgmt ImpactShell ''the management network is set by Antimony''
        else if key = ''prefix'' then add key Prefix ImpactDeploy ''the container name prefix is set by Antimony''
        else if key = ''settings'' then add key Settings ImpactDeploy ''lab settings can reference files on the server''
        else unknown key) (sortedKeys root)))"

section \<open>Rules on the typed definition\<close>

definition hostReachingKinds :: "string list" where
  "hostReachingKinds = [''host'', ''bridge'', ''ovs-bridge'', ''ext-container'', ''k8s-kind'', ''tailscale'']"

definition checkImage :: "checker \<Rightarrow> string \<Rightarrow> string \<Rightarrow> finding list" where
  "checkImage c path img =
     (if AllowedImagePrefixes (opts c) = [] then []
      else (let img = TrimSpace img;
                isAllowed = list_ex (HasPrefix img) (AllowedImagePrefixes (opts c))
            in if \<not> isAllowed
               then add path ImageNotAllowed ImpactShell (''image '' @ quote img @ '' is not on the allowlist'')
               else []))"

definition isOwnFile :: "checker \<Rightarrow> string \<Rightarrow> bool" where
  "isOwnFile c reference =
     (if reference = [] \<or> HasPrefix reference ''~'' then False
      else (let cleaned = Clean reference in
            if \<not> IsLocal cleaned \<or> cleaned = ''.'' then False
            else list_ex (\<lambda>bindFile. bindFile = cleaned \<or> HasPrefix bindFile (cleaned @ ''/'')) (bindFiles c)))"

definition checkFileReference :: "checker \<Rightarrow> string \<Rightarrow> string \<Rightarrow> finding list" where
  "checkFileReference c path reference =
     (let reference = TrimSpace reference in
      if Contains reference ''://''
      then add path RemoteFile ImpactDeploy ''remote files are downloaded by the server''
      else if \<not> isOwnFile c reference
      then add path ForeignFile ImpactShell (quote reference @ '' is not one of the topology's files'')
      else [])"

text \<open>The index of an element in a path: \<open>path[i]\<close>.\<close>

definition indexed :: "string \<Rightarrow> nat \<Rightarrow> string" where
  "indexed path i = path @ ''['' @ show_nat i @ '']''"

definition namedStages :: "stages \<Rightarrow> (string \<times> string option list) list" where
  "namedStages st = [(n, execs). (n, Some execs) \<leftarrow>
     [(''create'', st_Create st), (''create-links'', st_CreateLinks st),
      (''configure'', st_Configure st), (''healthy'', st_Healthy st), (''exit'', st_Exit st)]]"

definition checkStages :: "checker \<Rightarrow> string \<Rightarrow> stages option \<Rightarrow> finding list" where
  "checkStages c path stages =
     (case stages of None \<Rightarrow> [] | Some st \<Rightarrow>
       concat (map (\<lambda>name.
         concat (map (\<lambda>(i, exec).
           case exec of None \<Rightarrow> [] | Some t \<Rightarrow>
             (let target = ToLower (TrimSpace t) in
              if target \<noteq> [] \<and> target \<noteq> CommandTargetContainer (clab c)
              then add (indexed (path @ ''.'' @ name @ ''.exec'') i @ ''.target'') HostExec ImpactDeploy
                     ''stage commands with this target run on the server''
              else []))
           (enumerate 0 (the (map_of (namedStages st) name)))))
         (sortedKeys (namedStages st))))"

definition checkNodeDefinition :: "checker \<Rightarrow> string \<Rightarrow> node_definition option \<Rightarrow> finding list" where
  "checkNodeDefinition c path def_opt =
     (case def_opt of None \<Rightarrow> [] | Some d \<Rightarrow>
       (let kind = ToLower (TrimSpace (nd_Kind d)) in
        (if kind \<in> set hostReachingKinds
         then add (path @ ''.kind'') HostKind ImpactShell
                (''kind '' @ quote kind @ '' connects the lab to the server or networks outside the lab'')
         else [])
        @ (if nd_Image d \<noteq> [] then checkImage c (path @ ''.image'') (nd_Image d) else [])
        @ (if nd_Privileged d = Some True
           then add (path @ ''.privileged'') Privileged ImpactShell ''privileged nodes can access the server''
           else [])
        @ concat (map (\<lambda>(i, bind). checkFileReference c (indexed (path @ ''.binds'') i) (fst (Cut CHR '':'' bind)))
            (enumerate 0 (nd_Binds d)))
        @ (if nd_StartupConfig d \<noteq> [] \<and> \<not> Contains (nd_StartupConfig d) [CHR 0x0A]
           then checkFileReference c (path @ ''.startup-config'') (nd_StartupConfig d) else [])
        @ (if nd_License d \<noteq> [] then checkFileReference c (path @ ''.license'') (nd_License d) else [])
        @ (if nd_IdentityFile d \<noteq> []
           then checkFileReference c (path @ ''.credentials.identity-file'') (nd_IdentityFile d) else [])
        @ checkStages c (path @ ''.stages'') (nd_Stages d)))"

definition hostEndpointNodes :: "string list" where
  "hostEndpointNodes = [''host'', ''macvlan'', ''mgmt-net'']"

definition checkVethEndpoints :: "string \<Rightarrow> raw_link \<Rightarrow> finding list" where
  "checkVethEndpoints path rawLink =
     (case veth_endpoints rawLink of None \<Rightarrow> [] | Some endpoints \<Rightarrow>
        concat (map (\<lambda>(j, endpoint).
          case endpoint of None \<Rightarrow> [] | Some n \<Rightarrow>
            if ToLower (TrimSpace n) \<in> set hostEndpointNodes
            then add (indexed (path @ ''.endpoints'') j) HostLink ImpactShell
                   (''endpoint '' @ quote n @ '' connects the lab to the server or networks outside the lab'')
            else []) (enumerate 0 endpoints)))"

definition checkLinks :: "checker \<Rightarrow> string \<Rightarrow> raw_link option list \<Rightarrow> finding list" where
  "checkLinks c path links =
     concat (map (\<lambda>(i, link).
       case link of None \<Rightarrow> [] | Some l \<Rightarrow>
         (let linkPath = indexed path i in
          if GetType l = LinkTypeDummy (clab c) then []
          else if GetType l = LinkTypeVEth (clab c) then checkVethEndpoints linkPath l
          else add linkPath HostLink ImpactShell
                 (''link type '' @ quote (GetType l) @ '' connects the lab to the server or networks outside the lab'')))
       (enumerate 0 links))"

definition check_named :: "checker \<Rightarrow> string \<Rightarrow> (string \<times> node_definition option) list \<Rightarrow> finding list" where
  "check_named c path defs =
     concat (map (\<lambda>name. checkNodeDefinition c (path @ name) (the (map_of defs name))) (sortedKeys defs))"

definition check :: "checker \<Rightarrow> yaml option \<Rightarrow> clab_topology option \<Rightarrow> string \<Rightarrow> finding list" where
  "check c definitionRaw topology definitionString =
     checkRawText definitionString @ checkRootKeys definitionRaw
     @ (case topology of None \<Rightarrow> [] | Some t \<Rightarrow>
          checkNodeDefinition c ''topology.defaults'' (ct_Defaults t)
          @ check_named c ''topology.kinds.'' (ct_Kinds t)
          @ check_named c ''topology.groups.'' (ct_Groups t)
          @ check_named c ''topology.nodes.'' (ct_Nodes t)
          @ checkLinks c ''topology.links'' (ct_Links t))"

section \<open>The cache\<close>

text \<open>
  A findings cache stores the findings of a topology with the hash of the content they belong to.
  \<open>sha256\<close> maps a stream of bytes to its digest.
\<close>

record 'h cache_entry =
  ce_hash :: 'h
  ce_findings :: "finding list"

type_synonym 'h findings_cache = "string \<rightharpoonup> 'h cache_entry"

definition createFindingsCache :: "'h findings_cache" where
  "createFindingsCache = Map.empty"

definition cache_get :: "string \<Rightarrow> 'h \<Rightarrow> 'h findings_cache \<Rightarrow> finding list option" where
  "cache_get topologyId contentHash c =
     (case c topologyId of
        None \<Rightarrow> None
      | Some entry \<Rightarrow> if ce_hash entry \<noteq> contentHash then None else Some (ce_findings entry))"

definition cache_set :: "string \<Rightarrow> 'h \<Rightarrow> finding list \<Rightarrow> 'h findings_cache \<Rightarrow> 'h findings_cache" where
  "cache_set topologyId contentHash findings c =
     c(topologyId \<mapsto> \<lparr>ce_hash = contentHash, ce_findings = findings\<rparr>)"

definition cache_forget :: "string \<Rightarrow> 'h findings_cache \<Rightarrow> 'h findings_cache" where
  "cache_forget topologyId c = c(topologyId := None)"

text \<open>\<open>binary.BigEndian.AppendUint64(nil, uint64(n))\<close>.\<close>

definition be64 :: "nat \<Rightarrow> string" where
  "be64 n = map (\<lambda>i. char_of (n div 256 ^ (7 - i))) [0 ..< 8]"

definition writeField :: "string \<Rightarrow> string" where
  "writeField value = be64 (length value) @ value"

definition hash_stream :: "string \<Rightarrow> string list \<Rightarrow> string" where
  "hash_stream definitionString bindFilePaths =
     writeField definitionString @ concat (map writeField (sort bindFilePaths))"

definition hashInput :: "(string \<Rightarrow> 'h) \<Rightarrow> string \<Rightarrow> string list \<Rightarrow> 'h" where
  "hashInput sha256 definitionString bindFilePaths = sha256 (hash_stream definitionString bindFilePaths)"

record 'h engine =
  engine_options :: options
  engine_cache :: "'h findings_cache"

definition CreateEngine :: "options \<Rightarrow> 'h engine" where
  "CreateEngine o' = \<lparr>engine_options = o', engine_cache = createFindingsCache\<rparr>"

definition engine_Check ::
  "(string \<Rightarrow> 'h) \<Rightarrow> clab_constants \<Rightarrow> string \<Rightarrow> yaml option \<Rightarrow> clab_topology option \<Rightarrow> string
    \<Rightarrow> string list \<Rightarrow> 'h engine \<Rightarrow> finding list \<times> 'h engine" where
  "engine_Check sha256 consts topologyId definitionRaw topology definitionString bindFilePaths e =
     (let inputHash = hashInput sha256 definitionString bindFilePaths in
      case cache_get topologyId inputHash (engine_cache e) of
        Some findings \<Rightarrow> (findings, e)
      | None \<Rightarrow>
          (let findings = check \<lparr>clab = consts, opts = engine_options e, bindFiles = bindFilePaths\<rparr>
                            definitionRaw topology definitionString
           in (findings, e\<lparr>engine_cache := cache_set topologyId inputHash findings (engine_cache e)\<rparr>)))"

definition engine_Forget :: "string \<Rightarrow> 'h engine \<Rightarrow> 'h engine" where
  "engine_Forget topologyId e = e\<lparr>engine_cache := cache_forget topologyId (engine_cache e)\<rparr>"

section \<open>The rules report exactly the unsafe features\<close>

text \<open>A specification of the policy without its traversal and its reports.\<close>

definition safe_keys :: "(string \<Rightarrow> yaml option \<Rightarrow> bool) \<Rightarrow> yaml option \<Rightarrow> bool" where
  "safe_keys ok v \<longleftrightarrow> (\<forall>k \<in> fst ` set (as_map v). ok k (map_of (as_map v) k))"

definition safe_node_keys :: "yaml option \<Rightarrow> bool" where
  "safe_node_keys = safe_keys (\<lambda>k _. map_of nodeFields k = Some Allowed)"

definition safe_section :: "string \<Rightarrow> yaml option \<Rightarrow> bool" where
  "safe_section s v \<longleftrightarrow>
     s = ''links'' \<or> (s = ''defaults'' \<and> safe_node_keys v)
     \<or> (s \<in> {''kinds'', ''groups'', ''nodes''} \<and> safe_keys (\<lambda>_. safe_node_keys) v)"

definition safe_root :: "yaml option \<Rightarrow> bool" where
  "safe_root = safe_keys (\<lambda>k v. k \<in> {''name'', ''debug''} \<or> (k = ''topology'' \<and> safe_keys safe_section v))"

definition safe_file :: "checker \<Rightarrow> string \<Rightarrow> bool" where
  "safe_file c r \<longleftrightarrow> \<not> Contains (TrimSpace r) ''://'' \<and> isOwnFile c (TrimSpace r)"

definition stage_execs :: "stages \<Rightarrow> string option list list" where
  "stage_execs st = [execs. Some execs \<leftarrow>
     [st_Create st, st_CreateLinks st, st_Configure st, st_Healthy st, st_Exit st]]"

definition safe_stages :: "checker \<Rightarrow> stages \<Rightarrow> bool" where
  "safe_stages c st \<longleftrightarrow> (\<forall>execs \<in> set (stage_execs st). \<forall>t. Some t \<in> set execs \<longrightarrow>
     ToLower (TrimSpace t) = [] \<or> ToLower (TrimSpace t) = CommandTargetContainer (clab c))"

definition safe_node :: "checker \<Rightarrow> node_definition \<Rightarrow> bool" where
  "safe_node c d \<longleftrightarrow>
     ToLower (TrimSpace (nd_Kind d)) \<notin> set hostReachingKinds
     \<and> (nd_Image d = [] \<or> AllowedImagePrefixes (opts c) = []
        \<or> (\<exists>p \<in> set (AllowedImagePrefixes (opts c)). HasPrefix (TrimSpace (nd_Image d)) p))
     \<and> nd_Privileged d \<noteq> Some True
     \<and> (\<forall>b \<in> set (nd_Binds d). safe_file c (fst (Cut CHR '':'' b)))
     \<and> (nd_StartupConfig d = [] \<or> Contains (nd_StartupConfig d) [CHR 0x0A] \<or> safe_file c (nd_StartupConfig d))
     \<and> (nd_License d = [] \<or> safe_file c (nd_License d))
     \<and> (nd_IdentityFile d = [] \<or> safe_file c (nd_IdentityFile d))
     \<and> (\<forall>st. nd_Stages d = Some st \<longrightarrow> safe_stages c st)"

definition safe_link :: "checker \<Rightarrow> raw_link \<Rightarrow> bool" where
  "safe_link c l \<longleftrightarrow>
     GetType l = LinkTypeDummy (clab c)
     \<or> (GetType l = LinkTypeVEth (clab c)
        \<and> (\<forall>es. veth_endpoints l = Some es \<longrightarrow>
             (\<forall>n. Some n \<in> set es \<longrightarrow> ToLower (TrimSpace n) \<notin> set hostEndpointNodes)))"

definition safe_named :: "checker \<Rightarrow> (string \<times> node_definition option) list \<Rightarrow> bool" where
  "safe_named c defs \<longleftrightarrow> (\<forall>d. (\<exists>n. map_of defs n = Some (Some d)) \<longrightarrow> safe_node c d)"

definition safe_topology :: "checker \<Rightarrow> clab_topology \<Rightarrow> bool" where
  "safe_topology c t \<longleftrightarrow>
     (\<forall>d. ct_Defaults t = Some d \<longrightarrow> safe_node c d)
     \<and> safe_named c (ct_Kinds t) \<and> safe_named c (ct_Groups t) \<and> safe_named c (ct_Nodes t)
     \<and> (\<forall>l. Some l \<in> set (ct_Links t) \<longrightarrow> safe_link c l)"

text \<open>No finding of a traversal means no finding at any place.\<close>

lemma add_not_Nil [simp]: "add p r i m \<noteq> []" "unknown p \<noteq> []"
  by (simp_all add: add_def unknown_def)

lemma concat_map_Nil: "concat (map f xs) = [] \<longleftrightarrow> (\<forall>x \<in> set xs. f x = [])"
  by (induction xs) auto

lemma set_sortedKeys [simp]: "set (sortedKeys m) = fst ` set m"
  by (simp add: sortedKeys_def)

lemma enumerate_all: "(\<forall>x \<in> set (enumerate n xs). P (snd x)) \<longleftrightarrow> (\<forall>x \<in> set xs. P x)"
  by (induction xs arbitrary: n) auto

lemma enumerate_Nil:
  assumes "\<And>i x. f (i, x) = [] \<longleftrightarrow> P x"
  shows "concat (map f (enumerate n xs)) = [] \<longleftrightarrow> (\<forall>x \<in> set xs. P x)"
  using enumerate_all [of n xs P] assms unfolding concat_map_Nil by (metis prod.collapse)

lemma checkNodeKeys_Nil: "checkNodeKeys p v = [] \<longleftrightarrow> safe_node_keys v"
  unfolding checkNodeKeys_def Let_def concat_map_Nil safe_keys_def safe_node_keys_def set_sortedKeys
  by (rule ball_cong [OF refl]) (auto split: option.split node_field.split)

lemma checkTopologyKeys_Nil: "checkTopologyKeys v = [] \<longleftrightarrow> safe_keys safe_section v"
  unfolding checkTopologyKeys_def Let_def concat_map_Nil safe_keys_def set_sortedKeys
  by (rule ball_cong [OF refl])
     (auto simp: safe_section_def safe_keys_def concat_map_Nil checkNodeKeys_Nil)

lemma checkRootKeys_Nil: "checkRootKeys v = [] \<longleftrightarrow> safe_root v"
  unfolding checkRootKeys_def Let_def concat_map_Nil safe_keys_def safe_root_def set_sortedKeys
  by (rule ball_cong [OF refl]) (auto simp: checkTopologyKeys_Nil safe_keys_def)

lemma checkRawText_Nil: "checkRawText t = [] \<longleftrightarrow> \<not> template_pattern t \<and> \<not> env_pattern t"
  by (simp add: checkRawText_def rawTextRules_def)

lemma checkFileReference_Nil: "checkFileReference c p r = [] \<longleftrightarrow> safe_file c r"
  by (simp add: checkFileReference_def safe_file_def Let_def)

lemma checkImage_Nil: "checkImage c p i = [] \<longleftrightarrow> AllowedImagePrefixes (opts c) = []
    \<or> (\<exists>x \<in> set (AllowedImagePrefixes (opts c)). HasPrefix (TrimSpace i) x)"
  by (auto simp: checkImage_def list_ex_iff Let_def)

lemma checkLinks_Nil: "checkLinks c p ls = [] \<longleftrightarrow> (\<forall>l. Some l \<in> set ls \<longrightarrow> safe_link c l)"
proof -
  have veth: "checkVethEndpoints q l = [] \<longleftrightarrow>
      (\<forall>es. veth_endpoints l = Some es \<longrightarrow>
         (\<forall>n. Some n \<in> set es \<longrightarrow> ToLower (TrimSpace n) \<notin> set hostEndpointNodes))" for q l
  proof (cases "veth_endpoints l")
    case None
    then show ?thesis by (simp add: checkVethEndpoints_def)
  next
    case (Some es)
    let ?ok = "\<lambda>e. case e of None \<Rightarrow> True | Some n \<Rightarrow> ToLower (TrimSpace n) \<notin> set hostEndpointNodes"
    have "checkVethEndpoints q l = [] \<longleftrightarrow> (\<forall>e \<in> set es. ?ok e)"
      unfolding checkVethEndpoints_def Some option.case
      by (rule enumerate_Nil) (auto split: option.split)
    then show ?thesis using Some by (fastforce split: option.splits)
  qed
  show ?thesis
    unfolding checkLinks_def
    by (subst enumerate_Nil [where P = "\<lambda>l. case l of None \<Rightarrow> True | Some l \<Rightarrow> safe_link c l"])
       (auto simp: veth safe_link_def Let_def split: option.splits)
qed

lemma namedStages_facts: "distinct (map fst (namedStages st))" "snd ` set (namedStages st) = set (stage_execs st)"
  unfolding namedStages_def stage_execs_def
  by (cases "st_Create st"; cases "st_CreateLinks st"; cases "st_Configure st"; cases "st_Healthy st";
      cases "st_Exit st"; simp; fail)+

lemma map_of_image:
  "distinct (map fst xs) \<Longrightarrow> (\<forall>k \<in> fst ` set xs. P (the (map_of xs k))) \<longleftrightarrow> (\<forall>v \<in> snd ` set xs. P v)"
  by force

lemma checkStages_Nil: "checkStages c p so = [] \<longleftrightarrow> (\<forall>st. so = Some st \<longrightarrow> safe_stages c st)"
proof (cases so)
  case None
  then show ?thesis by (simp add: checkStages_def)
next
  case (Some st)
  let ?ok = "\<lambda>e. case e of None \<Rightarrow> True | Some t \<Rightarrow>
    ToLower (TrimSpace t) = [] \<or> ToLower (TrimSpace t) = CommandTargetContainer (clab c)"
  have "checkStages c p so = [] \<longleftrightarrow>
      (\<forall>name \<in> fst ` set (namedStages st). \<forall>e \<in> set (the (map_of (namedStages st) name)). ?ok e)"
    unfolding checkStages_def Some option.case Let_def concat_map_Nil [where xs = "sortedKeys (namedStages st)"]
      set_sortedKeys
    by (rule ball_cong [OF refl], rule enumerate_Nil) (auto split: option.split)
  also have "\<dots> \<longleftrightarrow> (\<forall>es \<in> set (stage_execs st). \<forall>e \<in> set es. ?ok e)"
    unfolding namedStages_facts(2) [symmetric] by (rule map_of_image [OF namedStages_facts(1)])
  also have "\<dots> \<longleftrightarrow> safe_stages c st"
    by (fastforce simp: safe_stages_def split: option.splits)
  finally show ?thesis using Some by simp
qed

lemma checkNodeDefinition_Nil:
  "checkNodeDefinition c p do = [] \<longleftrightarrow> (\<forall>d. do = Some d \<longrightarrow> safe_node c d)"
proof (cases do)
  case None
  then show ?thesis by (simp add: checkNodeDefinition_def)
next
  case (Some d)
  have binds: "concat (map (\<lambda>(i, bind). checkFileReference c (indexed (p @ ''.binds'') i) (fst (Cut CHR '':'' bind)))
      (enumerate 0 (nd_Binds d))) = [] \<longleftrightarrow> (\<forall>b \<in> set (nd_Binds d). safe_file c (fst (Cut CHR '':'' b)))"
    by (rule enumerate_Nil) (simp add: checkFileReference_Nil)
  show ?thesis
    unfolding checkNodeDefinition_def Some option.case Let_def append_is_Nil_conv binds
    by (auto simp: safe_node_def checkImage_Nil checkFileReference_Nil checkStages_Nil)
qed

lemma check_named_Nil: "check_named c p defs = [] \<longleftrightarrow> safe_named c defs"
proof -
  have "check_named c p defs = [] \<longleftrightarrow>
      (\<forall>n \<in> fst ` set defs. \<forall>d. the (map_of defs n) = Some d \<longrightarrow> safe_node c d)"
    by (simp add: check_named_def concat_map_Nil checkNodeDefinition_Nil)
  also have "\<dots> \<longleftrightarrow> safe_named c defs"
    unfolding safe_named_def
    by (metis (no_types, lifting) map_of_eq_None_iff option.collapse option.distinct(1) option.sel)
  finally show ?thesis .
qed

lemma check_Nil:
  "check c raw topo text = [] \<longleftrightarrow>
     \<not> template_pattern text \<and> \<not> env_pattern text \<and> safe_root raw
     \<and> (\<forall>t. topo = Some t \<longrightarrow> safe_topology c t)"
  by (cases topo) (auto simp: check_def checkRawText_Nil checkRootKeys_Nil checkNodeDefinition_Nil
      check_named_Nil checkLinks_Nil safe_topology_def)

section \<open>The order of maps and bind files does not matter\<close>

lemma isOwnFile_cong: "set bs = set bs' \<Longrightarrow> isOwnFile (c\<lparr>bindFiles := bs\<rparr>) r = isOwnFile (c\<lparr>bindFiles := bs'\<rparr>) r"
  by (simp add: isOwnFile_def list_ex_iff Let_def)

lemma checker_upd [simp]: "clab (c\<lparr>bindFiles := bs\<rparr>) = clab c" "opts (c\<lparr>bindFiles := bs\<rparr>) = opts c"
  by simp_all

lemma checkFileReference_cong:
  "set bs = set bs' \<Longrightarrow> checkFileReference (c\<lparr>bindFiles := bs\<rparr>) = checkFileReference (c\<lparr>bindFiles := bs'\<rparr>)"
  using isOwnFile_cong [of bs bs' c] by (simp add: checkFileReference_def fun_eq_iff Let_def)

lemma check_other_cong:
  "checkImage (c\<lparr>bindFiles := bs\<rparr>) = checkImage c"
  "checkStages (c\<lparr>bindFiles := bs\<rparr>) = checkStages c"
  "checkLinks (c\<lparr>bindFiles := bs\<rparr>) = checkLinks c"
  unfolding checkImage_def checkStages_def checkLinks_def checker_upd by (rule refl)+

lemma checkNodeDefinition_cong:
  assumes "set bs = set bs'"
  shows "checkNodeDefinition (c\<lparr>bindFiles := bs\<rparr>) = checkNodeDefinition (c\<lparr>bindFiles := bs'\<rparr>)"
  by (intro ext, unfold checkNodeDefinition_def checkFileReference_cong [OF assms] check_other_cong, rule refl)

lemma check_bind_files:
  assumes "set bs = set bs'"
  shows "check (c\<lparr>bindFiles := bs\<rparr>) raw topo text = check (c\<lparr>bindFiles := bs'\<rparr>) raw topo text"
  unfolding check_def check_named_def checkNodeDefinition_cong [OF assms] check_other_cong by (rule refl)

text \<open>The same value with the entries of its maps in another order.\<close>

inductive same_yaml :: "yaml \<Rightarrow> yaml \<Rightarrow> bool" where
  same: "same_yaml v v"
| reordered: "mset (map fst m) = mset (map fst m') \<Longrightarrow>
    (\<forall>k v v'. map_of m k = Some v \<longrightarrow> map_of m' k = Some v' \<longrightarrow> same_yaml v v') \<Longrightarrow>
    same_yaml (YMap m) (YMap m')"

inductive_cases same_yaml_mapE: "same_yaml (YMap m) v"
inductive_simps same_yaml_seq [simp]: "same_yaml (YSeq xs) v"
inductive_simps same_yaml_scalar [simp]: "same_yaml (YScalar x) v"

definition same_defs :: "(string \<times> 'v) list \<Rightarrow> (string \<times> 'v) list \<Rightarrow> bool" where
  "same_defs m m' \<longleftrightarrow> mset m = mset m' \<and> distinct (map fst m)"

lemma sortedKeys_cong: "mset (map fst m) = mset (map fst m') \<Longrightarrow> sortedKeys m = sortedKeys m'"
  unfolding sortedKeys_def by (rule properties_for_sort) (simp_all add: mset_map)

text \<open>The entries of two such values under a key, or \<open>None\<close> in both.\<close>

definition same_opt :: "yaml option \<Rightarrow> yaml option \<Rightarrow> bool" where
  "same_opt v v' \<longleftrightarrow> (v = None \<and> v' = None) \<or> (\<exists>x x'. v = Some x \<and> v' = Some x' \<and> same_yaml x x')"

lemma same_as_map:
  assumes "same_opt v v'"
  shows "sortedKeys (as_map v) = sortedKeys (as_map v')"
    and "same_opt (map_of (as_map v) k) (map_of (as_map v') k)"
proof -
  have "sortedKeys (as_map v) = sortedKeys (as_map v')
      \<and> same_opt (map_of (as_map v) k) (map_of (as_map v') k)"
    if "same_yaml x x'" "v = Some x" "v' = Some x'" for x x'
    using that(1)
  proof cases
    case same
    then show ?thesis using that same_yaml.same by (cases "map_of (as_map v) k") (auto simp: same_opt_def)
  next
    case (reordered m m')
    then have keys: "fst ` set m = fst ` set m'"
      by (metis mset_eq_setD set_map)
    have "map_of m k = None \<longleftrightarrow> map_of m' k = None"
      unfolding map_of_eq_None_iff using keys by simp
    with reordered that(2,3) sortedKeys_cong [OF reordered(3)] show ?thesis
      by (cases "map_of m k"; cases "map_of m' k") (auto simp: same_opt_def)
  qed
  with assms show "sortedKeys (as_map v) = sortedKeys (as_map v')"
    and "same_opt (map_of (as_map v) k) (map_of (as_map v') k)"
    unfolding same_opt_def [of v v'] by (auto simp: same_opt_def)
qed

lemma checkNodeKeys_same: "same_opt v v' \<Longrightarrow> checkNodeKeys p v = checkNodeKeys p v'"
  by (simp add: checkNodeKeys_def same_as_map(1))

lemma checkTopologyKeys_same:
  assumes "same_opt v v'"
  shows "checkTopologyKeys v = checkTopologyKeys v'"
proof -
  note entry = same_as_map(2) [OF assms]
  note entry2 = same_as_map(2) [OF entry]
  show ?thesis
    unfolding checkTopologyKeys_def Let_def same_as_map(1) [OF assms]
    using checkNodeKeys_same [OF entry] checkNodeKeys_same [OF entry2] same_as_map(1) [OF entry]
    by (intro arg_cong [where f = concat] map_cong refl) simp
qed

lemma checkRootKeys_same:
  assumes "same_opt v v'"
  shows "checkRootKeys v = checkRootKeys v'"
  unfolding checkRootKeys_def Let_def same_as_map(1) [OF assms]
  using checkTopologyKeys_same [OF same_as_map(2) [OF assms]]
  by (intro arg_cong [where f = concat] map_cong refl) simp

lemma check_named_same: "same_defs m m' \<Longrightarrow> check_named c p m = check_named c p m'"
proof -
  assume "same_defs m m'"
  then have m: "mset m = mset m'" "distinct (map fst m)" by (simp_all add: same_defs_def)
  then have keys: "mset (map fst m) = mset (map fst m')" by (simp add: mset_map)
  then have "distinct (map fst m')" using m(2) by (metis mset_eq_imp_distinct_iff)
  then have "map_of m = map_of m'"
    using m map_of_inject_set mset_eq_setD by blast
  then show ?thesis
    using sortedKeys_cong [OF keys] by (simp add: check_named_def)
qed

section \<open>The hash tells inputs apart\<close>

lemma length_be64 [simp]: "length (be64 n) = 8"
  by (simp add: be64_def)

lemma be64_inject:
  assumes "be64 n = be64 n'" and "n < 2 ^ 64" and "n' < 2 ^ 64"
  shows "n = n'"
proof -
  have digit: "n div 256 ^ j mod 256 = n' div 256 ^ j mod 256" if "j < 8" for j
  proof -
    from assms(1) have "be64 n ! (7 - j) = be64 n' ! (7 - j)" by simp
    moreover have "[0 ..< 8] ! (7 - j) = 7 - j" and "7 - (7 - j) = j"
      using that nth_upt [of 0 "7 - j" 8] by auto
    ultimately have "(char_of (n div 256 ^ j) :: char) = char_of (n' div 256 ^ j)"
      using that by (simp add: be64_def)
    then have "of_char (char_of (n div 256 ^ j)) = (of_char (char_of (n' div 256 ^ j)) :: nat)"
      by simp
    then show ?thesis by simp
  qed
  have "n mod 256 ^ j = n' mod 256 ^ j" if "j \<le> 8" for j
    using that
  proof (induction j)
    case (Suc j)
    have "m mod 256 ^ Suc j = 256 ^ j * (m div 256 ^ j mod 256) + m mod 256 ^ j" for m :: nat
      using mod_mult2_eq [of m "256 ^ j" 256] by (simp add: mult.commute)
    with Suc digit [of j] show ?case by simp
  qed simp
  from this [of 8] assms(2,3) show ?thesis by simp
qed

lemma writeField_inject:
  assumes "writeField v @ xs = writeField w @ ys" and "length v < 2 ^ 64" and "length w < 2 ^ 64"
  shows "v = w \<and> xs = ys"
proof -
  have "be64 (length v) = be64 (length w)" and rest: "v @ xs = w @ ys"
    using assms(1) by (simp_all add: writeField_def)
  then have "length v = length w"
    using be64_inject assms(2,3) by blast
  with rest show ?thesis by simp
qed

lemma fields_inject:
  assumes "concat (map writeField xs) = concat (map writeField ys)"
    and "\<forall>x \<in> set xs \<union> set ys. length x < 2 ^ 64"
  shows "xs = ys"
  using assms
proof (induction xs arbitrary: ys)
  case Nil
  then show ?case by (cases ys) (auto simp: writeField_def be64_def)
next
  case (Cons x xs)
  then obtain y ys' where ys: "ys = y # ys'"
    by (cases ys) (auto simp: writeField_def be64_def)
  from Cons.prems have "x = y \<and> concat (map writeField xs) = concat (map writeField ys')"
    unfolding ys by (intro writeField_inject) auto
  with Cons ys show ?case by auto
qed

lemma hash_stream_inject:
  assumes "hash_stream d bs = hash_stream d' bs'"
    and "\<forall>x \<in> set (d # d' # bs @ bs'). length x < 2 ^ 64"
  shows "d = d' \<and> mset bs = mset bs'"
proof -
  have "d = d' \<and> concat (map writeField (sort bs)) = concat (map writeField (sort bs'))"
    using assms unfolding hash_stream_def by (intro writeField_inject) auto
  moreover have "sort bs = sort bs'"
    using assms(2) calculation by (intro fields_inject) auto
  ultimately show ?thesis by (metis mset_sort)
qed

section \<open>Coherence of a cache\<close>

text \<open>
  The interface the engine uses the cache through. A cache is coherent when every result it returns
  is right for the hash it is asked with; storing right results and forgetting keep it coherent.
\<close>

locale findings_store =
  fixes get :: "string \<Rightarrow> 'h \<Rightarrow> 'c \<Rightarrow> 'r option"
    and put :: "string \<Rightarrow> 'h \<Rightarrow> 'r \<Rightarrow> 'c \<Rightarrow> 'c"
    and forget :: "string \<Rightarrow> 'c \<Rightarrow> 'c"
    and empty :: 'c
  assumes get_empty: "get k h empty = None"
    and get_put: "get k h (put k' h' r c) =
      (if k = k' then (if h = h' then Some r else None) else get k h c)"
    and get_forget: "get k h (forget k' c) = (if k = k' then None else get k h c)"
begin

definition coherent :: "('h \<Rightarrow> 'r \<Rightarrow> bool) \<Rightarrow> 'c \<Rightarrow> bool" where
  "coherent right c \<longleftrightarrow> (\<forall>k h r. get k h c = Some r \<longrightarrow> right h r)"

lemma coherent_empty: "coherent right empty"
  by (simp add: coherent_def get_empty)

lemma coherent_put: "coherent right c \<Longrightarrow> right h r \<Longrightarrow> coherent right (put k h r c)"
  by (auto simp: coherent_def get_put split: if_splits)

lemma coherent_forget: "coherent right c \<Longrightarrow> coherent right (forget k c)"
  by (auto simp: coherent_def get_forget split: if_splits)

lemma coherent_get: "coherent right c \<Longrightarrow> get k h c = Some r \<Longrightarrow> right h r"
  by (auto simp: coherent_def)

end

interpretation findings_cache: findings_store cache_get cache_set cache_forget createFindingsCache
  by unfold_locales (auto simp: cache_get_def cache_set_def cache_forget_def createFindingsCache_def)

text \<open>A run of the engine: checks and forgets of topologies, with the results of the checks.\<close>

datatype engine_call = CheckCall string string "string list" | ForgetCall string

text \<open>\<open>parse\<close> stands for the two decoders: both work on the text of the definition.\<close>

fun engine_run ::
  "(string \<Rightarrow> 'h) \<Rightarrow> clab_constants \<Rightarrow> (string \<Rightarrow> yaml option \<times> clab_topology option)
    \<Rightarrow> engine_call list \<Rightarrow> 'h engine \<Rightarrow> finding list list" where
  "engine_run sha256 consts parse [] e = []"
| "engine_run sha256 consts parse (CheckCall t text files # calls) e =
     (case engine_Check sha256 consts t (fst (parse text)) (snd (parse text)) text files e of
        (findings, e) \<Rightarrow> findings # engine_run sha256 consts parse calls e)"
| "engine_run sha256 consts parse (ForgetCall t # calls) e =
     engine_run sha256 consts parse calls (engine_Forget t e)"

text \<open>The same run without a cache.\<close>

fun uncached_run ::
  "clab_constants \<Rightarrow> options \<Rightarrow> (string \<Rightarrow> yaml option \<times> clab_topology option)
    \<Rightarrow> engine_call list \<Rightarrow> finding list list" where
  "uncached_run consts o' parse [] = []"
| "uncached_run consts o' parse (CheckCall t text files # calls) =
     check \<lparr>clab = consts, opts = o', bindFiles = files\<rparr> (fst (parse text)) (snd (parse text)) text
       # uncached_run consts o' parse calls"
| "uncached_run consts o' parse (ForgetCall t # calls) = uncached_run consts o' parse calls"

fun small_call :: "engine_call \<Rightarrow> bool" where
  "small_call (CheckCall t text files) = (\<forall>x \<in> set (text # files). length x < 2 ^ 64)"
| "small_call (ForgetCall t) = True"

definition right_findings ::
  "(string \<Rightarrow> 'h) \<Rightarrow> clab_constants \<Rightarrow> options \<Rightarrow> (string \<Rightarrow> yaml option \<times> clab_topology option)
    \<Rightarrow> 'h \<Rightarrow> finding list \<Rightarrow> bool" where
  "right_findings sha256 consts o' parse h r \<longleftrightarrow>
     (\<forall>text files. small_call (CheckCall [] text files) \<longrightarrow> h = hashInput sha256 text files \<longrightarrow>
        r = check \<lparr>clab = consts, opts = o', bindFiles = files\<rparr> (fst (parse text)) (snd (parse text)) text)"

lemma right_findings_check:
  assumes "inj sha256" and "small_call (CheckCall [] text files)"
  shows "right_findings sha256 consts o' parse (hashInput sha256 text files)
    (check \<lparr>clab = consts, opts = o', bindFiles = files\<rparr> (fst (parse text)) (snd (parse text)) text)"
  unfolding right_findings_def
proof (intro allI impI)
  fix d' files'
  assume small: "small_call (CheckCall [] d' files')"
    and hash: "hashInput sha256 text files = hashInput sha256 d' files'"
  have "hash_stream text files = hash_stream d' files'"
    by (rule injD [OF assms(1)], rule hash [unfolded hashInput_def])
  moreover have "\<forall>x \<in> set (text # d' # files @ files'). length x < 2 ^ 64"
    using small assms(2) unfolding small_call.simps by auto
  ultimately have same: "text = d'" "mset files = mset files'"
    using hash_stream_inject by blast+
  have "set files = set files'" using same(2) by (rule mset_eq_setD)
  from check_bind_files [OF this, of "\<lparr>clab = consts, opts = o', bindFiles = []\<rparr>"] same(1)
  show "check \<lparr>clab = consts, opts = o', bindFiles = files\<rparr> (fst (parse text)) (snd (parse text)) text
      = check \<lparr>clab = consts, opts = o', bindFiles = files'\<rparr> (fst (parse d')) (snd (parse d')) d'"
    by simp
qed

lemma engine_run_coherent:
  assumes "inj sha256"
    and "findings_cache.coherent (right_findings sha256 consts (engine_options e) parse) (engine_cache e)"
    and "\<forall>call \<in> set calls. small_call call"
  shows "engine_run sha256 consts parse calls e = uncached_run consts (engine_options e) parse calls"
  using assms(2,3)
proof (induction calls arbitrary: e)
  case Nil
  then show ?case by simp
next
  case (Cons call calls)
  show ?case
  proof (cases call)
    case (ForgetCall t)
    with Cons.IH [of "engine_Forget t e"] Cons.prems(2)
      findings_cache.coherent_forget [OF Cons.prems(1), of t]
    show ?thesis by (simp add: engine_Forget_def)
  next
    case (CheckCall t d files)
    let ?h = "hashInput sha256 d files"
    let ?r = "check \<lparr>clab = consts, opts = engine_options e, bindFiles = files\<rparr>
      (fst (parse d)) (snd (parse d)) d"
    have small: "small_call (CheckCall [] d files)" using Cons.prems(2) CheckCall by simp
    note right = right_findings_check [OF assms(1) small, of "consts" "engine_options e" parse]
    show ?thesis
    proof (cases "cache_get t ?h (engine_cache e)")
      case None
      with Cons.IH [of "e\<lparr>engine_cache := cache_set t ?h ?r (engine_cache e)\<rparr>"] Cons.prems CheckCall
        findings_cache.coherent_put [OF Cons.prems(1) right, of t]
      show ?thesis by (simp add: engine_Check_def Let_def)
    next
      case (Some r)
      have "r = ?r"
        using findings_cache.coherent_get [OF Cons.prems(1) Some] small by (auto simp: right_findings_def)
      with Some Cons.IH [of e] Cons.prems CheckCall show ?thesis
        by (simp add: engine_Check_def Let_def)
    qed
  qed
qed

section \<open>Files a topology may reference\<close>

text \<open>A file a reference may name lies in the directory of the topology.\<close>

lemma isOwnFile_own:
  assumes "isOwnFile c r"
  shows "\<exists>ns. ns \<noteq> [] \<and> (\<forall>s \<in> set ns. plain s) \<and> path_key r = (False, ns)
    \<and> (\<exists>b \<in> set (bindFiles c). b = join ''/'' ns \<or> HasPrefix b (join ''/'' ns @ ''/''))"
proof -
  have ok: "IsLocal (Clean r) \<and> Clean r \<noteq> ''.''"
    and b: "\<exists>b \<in> set (bindFiles c). b = Clean r \<or> HasPrefix b (Clean r @ ''/'')"
    using assms by (auto simp: isOwnFile_def list_ex_iff Let_def split: if_splits)
  from ok obtain ns where ns: "ns \<noteq> []" "\<forall>s \<in> set ns. plain s" "path_key r = (False, ns)"
    unfolding IsLocal_Clean by blast
  then have "Clean r = join ''/'' ns" by (simp add: Clean_def key_path_def)
  with ns b show ?thesis by metis
qed

section \<open>Properties\<close>

text \<open>C1: The engine reports no finding exactly for the topologies that are safe: neither a template nor
  an environment variable in the text, only reviewed and allowed keys on every level of the
  definition, and on the typed definition no kind, image, privilege, file, stage command or link
  that reaches the server. A key the policy does not know makes a topology unsafe.\<close>

theorem no_findings_iff_safe:
  "check c definitionRaw topology definitionString = [] \<longleftrightarrow>
     \<not> template_pattern definitionString \<and> \<not> env_pattern definitionString
     \<and> safe_root definitionRaw \<and> (topology = None \<or> safe_topology c (the topology))"
  by (cases topology) (simp_all add: check_Nil)

theorem no_findings_iff_safe_witness:
  "check \<lparr>clab = \<lparr>LinkTypeDummy = ''dummy'', LinkTypeVEth = ''veth'', CommandTargetContainer = ''container''\<rparr>,
      opts = \<lparr>AllowedImagePrefixes = []\<rparr>, bindFiles = []\<rparr>
    (Some (YMap [(''name'', YScalar ''lab''), (''topology'', YMap [(''nodes'', YMap [(''r1'', YMap
      [(''kind'', YScalar ''linux''), (''image'', YScalar ''alpine'')])])])])) None ''name: lab'' = []"
  by (simp add: no_findings_iff_safe template_pattern_def safe_root_def safe_section_def safe_node_keys_def
      safe_keys_def nodeFields_def)

text \<open>The findings of a topology and their order do not depend on the order in which Go iterates
  over the maps of the definition, on any level, nor on the order of the bind files.\<close>

theorem findings_deterministic:
  assumes "same_yaml raw raw'" and "mset files = mset files'"
    and "same_defs (ct_Kinds t) (ct_Kinds t')" and "same_defs (ct_Groups t) (ct_Groups t')"
    and "same_defs (ct_Nodes t) (ct_Nodes t')"
    and "ct_Defaults t = ct_Defaults t'" and "ct_Links t = ct_Links t'"
  shows "check (c\<lparr>bindFiles := files\<rparr>) (Some raw) (Some t) text
    = check (c\<lparr>bindFiles := files'\<rparr>) (Some raw') (Some t') text"
proof -
  have "checkRootKeys (Some raw) = checkRootKeys (Some raw')"
    using assms(1) by (intro checkRootKeys_same) (simp add: same_opt_def)
  moreover have "check_named d p (ct_Kinds t) = check_named d p (ct_Kinds t')"
    and "check_named d p (ct_Groups t) = check_named d p (ct_Groups t')"
    and "check_named d p (ct_Nodes t) = check_named d p (ct_Nodes t')" for d p
    using check_named_same assms(3-5) by blast+
  ultimately have "check d (Some raw) (Some t) text = check d (Some raw') (Some t') text" for d
    using assms(6,7) by (simp add: check_def)
  then show ?thesis
    using check_bind_files [OF mset_eq_setD [OF assms(2)], of c "Some raw'" "Some t'" "text"] by simp
qed

theorem findings_deterministic_witness:
  "let t = \<lparr>ct_Defaults = None, ct_Kinds = [], ct_Groups = [], ct_Nodes = [], ct_Links = []\<rparr>;
       c = \<lparr>clab = \<lparr>LinkTypeDummy = [], LinkTypeVEth = [], CommandTargetContainer = []\<rparr>,
            opts = \<lparr>AllowedImagePrefixes = []\<rparr>, bindFiles = []\<rparr>
   in check (c\<lparr>bindFiles := [''a'', ''b'']\<rparr>)
        (Some (YMap [(''prefix'', YScalar ''x''), (''mgmt'', YScalar ''y'')])) (Some t) ''z''
      = check (c\<lparr>bindFiles := [''b'', ''a'']\<rparr>)
        (Some (YMap [(''mgmt'', YScalar ''y''), (''prefix'', YScalar ''x'')])) (Some t) ''z''"
proof -
  have "same_yaml (YMap [(''prefix'', YScalar ''x''), (''mgmt'', YScalar ''y'')])
      (YMap [(''mgmt'', YScalar ''y''), (''prefix'', YScalar ''x'')])"
    by (rule reordered) auto
  then show ?thesis
    unfolding Let_def by (rule findings_deterministic) (simp_all add: same_defs_def)
qed

text \<open>C19: The cache is transparent: whatever checks and removals come in whatever order, every check
  returns what it would return without the cache, provided that the hash has no collisions. The
  length prefixes of \<open>writeField\<close> make the hashed stream unambiguous, so a definition or a set of
  bind files that changed is never answered with the findings of another.\<close>

theorem cached_checks_are_right:
  assumes "inj sha256" and "\<forall>call \<in> set calls. small_call call"
  shows "engine_run sha256 consts parse calls (CreateEngine o') = uncached_run consts o' parse calls"
proof -
  have "findings_cache.coherent (right_findings sha256 consts (engine_options (CreateEngine o')) parse)
      (engine_cache (CreateEngine o'))"
    using findings_cache.coherent_empty by (simp add: CreateEngine_def)
  from engine_run_coherent [OF assms(1) this assms(2)] show ?thesis
    by (simp add: CreateEngine_def)
qed

theorem cached_checks_are_right_witness:
  "engine_run (\<lambda>s. s) \<lparr>LinkTypeDummy = ''dummy'', LinkTypeVEth = ''veth'', CommandTargetContainer = ''container''\<rparr> (\<lambda>_. (None, None))
     [CheckCall ''t1'' ''a'' [''x''], CheckCall ''t1'' ''a'' [''y''], ForgetCall ''t1''] (CreateEngine \<lparr>AllowedImagePrefixes = []\<rparr>)
   = [[], []]"
  using cached_checks_are_right [of "\<lambda>s. s"
      "[CheckCall ''t1'' ''a'' [''x''], CheckCall ''t1'' ''a'' [''y''], ForgetCall ''t1'']" "\<lparr>LinkTypeDummy = ''dummy'', LinkTypeVEth = ''veth'', CommandTargetContainer = ''container''\<rparr>"
      "\<lambda>_. (None, None)"
      "\<lparr>AllowedImagePrefixes = []\<rparr>"]
  by (simp add: check_def checkRawText_def rawTextRules_def template_pattern_def checkRootKeys_def
      sortedKeys_def)

text \<open>Every file that a node of a safe topology binds is a file of the topology or a directory of
  its files: the reference is a relative path that does not leave the topology's directory.\<close>

theorem safe_binds_are_own_files:
  assumes "check c definitionRaw (Some t) definitionString = []"
    and "map_of (ct_Nodes t) name = Some (Some d)" and "bind \<in> set (nd_Binds d)"
  shows "\<exists>ns. ns \<noteq> [] \<and> (\<forall>s \<in> set ns. plain s)
    \<and> path_key (TrimSpace (fst (Cut CHR '':'' bind))) = (False, ns)
    \<and> (\<exists>b \<in> set (bindFiles c). b = join ''/'' ns \<or> HasPrefix b (join ''/'' ns @ ''/''))"
proof -
  have "safe_node c d"
    using assms(1,2) by (auto simp: check_Nil safe_topology_def safe_named_def)
  then have "isOwnFile c (TrimSpace (fst (Cut CHR '':'' bind)))"
    using assms(3) by (auto simp: safe_node_def safe_file_def)
  then show ?thesis by (rule isOwnFile_own)
qed

theorem safe_binds_are_own_files_witness:
  "\<exists>ns. ns \<noteq> [] \<and> path_key (TrimSpace (fst (Cut CHR '':'' ''a.cfg:/etc/a''))) = (False, ns)"
proof -
  let ?d = "\<lparr>nd_Kind = ''linux'', nd_Image = [], nd_Privileged = None, nd_Binds = [''a.cfg:/etc/a''],
    nd_StartupConfig = [], nd_License = [], nd_IdentityFile = [], nd_Stages = None\<rparr>"
  let ?t = "\<lparr>ct_Defaults = None, ct_Kinds = [], ct_Groups = [], ct_Nodes = [(''r1'', Some ?d)], ct_Links = []\<rparr>"
  let ?c = "\<lparr>clab = \<lparr>LinkTypeDummy = ''dummy'', LinkTypeVEth = ''veth'', CommandTargetContainer = ''container''\<rparr>,
      opts = \<lparr>AllowedImagePrefixes = []\<rparr>, bindFiles = [''a.cfg'']\<rparr>"
  have "isOwnFile ?c ''a.cfg''"
    by (simp add: isOwnFile_def Clean_def path_key_def key_path_def is_rooted_def IsLocal_def HasPrefix_def)
  then have "safe_node ?c ?d"
    by (simp add: safe_node_def safe_file_def Cut_def TrimSpace_def is_space_def HasPrefix_def
        ToLower_def to_lower_def hostReachingKinds_def Let_def)
  then have "check ?c None (Some ?t) ''x'' = []"
    by (simp add: check_Nil template_pattern_def safe_root_def safe_keys_def safe_topology_def safe_named_def
        split: if_splits)
  from safe_binds_are_own_files [OF this, of "''r1''" ?d "''a.cfg:/etc/a''"] show ?thesis
    by auto
qed

end
