(* ===== verification/Auth.thy ===== *)
theory Auth
  imports Errors Entities Go_Strings Schedule
begin

text \<open>
  The authentication manager of \<open>src/auth/manager.go\<close>. The JWT library is a parameter: \<open>parse\<close> stands
  for \<open>jwt.Parse\<close>, which asks a key function for the key of the signing method of the token, and
  \<open>sign\<close> for the signing of claims with HS256. So is the OpenID client. Tokens have a type of their
  own. A program exit by \<open>log.Fatal\<close> is \<open>None\<close>. \<open>subtle.ConstantTimeCompare\<close> is equality.
\<close>

section \<open>State\<close>

definition NativeUserID :: string where
  "NativeUserID = ''00000000-0000-0000-0000-00000000000''"

record admin_auth_config =
  admin_enabled :: bool
  admin_username :: string
  admin_password :: string

record open_id_auth_config =
  openid_enabled :: bool
  openid_adminGroups :: "string list"
  openid_secret :: string

record desktop_auth_config =
  desktop_enabled :: bool
  desktop_token :: string

record auth_config =
  cfg_admin :: admin_auth_config
  cfg_openId :: open_id_auth_config
  cfg_desktop :: desktop_auth_config

record native_testing_account =
  acc_password :: string
  acc_userId :: string

record auth_manager =
  jwtSecret :: string
  auth_cfg :: auth_config
  nativeTestingAccounts :: "string \<rightharpoonup> native_testing_account"
  authenticatedUsers :: "string \<rightharpoonup> authenticated_user"

section \<open>Tokens\<close>

datatype json = JString string | JBool bool | JNumber int | JOther

type_synonym claims = "string \<rightharpoonup> json"

datatype signing_method = HMAC | OtherMethod

type_synonym key_func = "signing_method \<Rightarrow> string result"

record 'tok jwt =
  parse :: "'tok \<Rightarrow> key_func \<Rightarrow> int \<Rightarrow> claims result"
  sign :: "claims \<Rightarrow> string \<Rightarrow> 'tok result"

definition tokenParser :: "auth_manager \<Rightarrow> key_func" where
  "tokenParser m method =
     (if method \<noteq> HMAC then Inl (Sentinel ErrAccessTokenInvalid) else Inr (jwtSecret m))"

definition hour :: int where "hour = 3600 * 1000000000"
definition minute :: int where "minute = 60 * 1000000000"

definition auth_claims :: "string \<Rightarrow> int \<Rightarrow> claims" where
  "auth_claims userId now =
     [''id'' \<mapsto> JString userId, ''nbf'' \<mapsto> JNumber (unix now), ''exp'' \<mapsto> JNumber (unix (now + hour * 720))]"

definition CreateAuthToken :: "'tok jwt \<Rightarrow> auth_manager \<Rightarrow> string \<Rightarrow> int \<Rightarrow> 'tok result" where
  "CreateAuthToken J m userId now = sign J (auth_claims userId now) (jwtSecret m)"

definition access_claims :: "authenticated_user \<Rightarrow> int \<Rightarrow> claims" where
  "access_claims authUser now =
     [''id'' \<mapsto> JString (UserId authUser), ''isAdmin'' \<mapsto> JBool (IsAdmin authUser),
      ''nbf'' \<mapsto> JNumber (unix now), ''exp'' \<mapsto> JNumber (unix (now + minute * 30))]"

definition CreateAccessToken :: "'tok jwt \<Rightarrow> auth_manager \<Rightarrow> authenticated_user \<Rightarrow> int \<Rightarrow> 'tok result" where
  "CreateAccessToken J m authUser now = sign J (access_claims authUser now) (jwtSecret m)"

definition AuthenticateUser ::
  "'tok jwt \<Rightarrow> auth_manager \<Rightarrow> 'tok \<Rightarrow> int \<Rightarrow> authenticated_user result" where
  "AuthenticateUser J m token now =
     (case parse J token (tokenParser m) now of
        Inl _ \<Rightarrow> Inl (Sentinel ErrAccessTokenInvalid)
      | Inr tokenClaims \<Rightarrow>
          (case tokenClaims ''id'' of
             Some (JString userIdStr) \<Rightarrow>
               (case authenticatedUsers m userIdStr of
                  None \<Rightarrow> Inl (Sentinel ErrAccessTokenInvalid)
                | Some permissions \<Rightarrow> Inr permissions)
           | _ \<Rightarrow> Inl (Sentinel ErrAccessTokenInvalid)))"

definition RefreshAccessToken :: "'tok jwt \<Rightarrow> auth_manager \<Rightarrow> 'tok \<Rightarrow> int \<Rightarrow> 'tok result" where
  "RefreshAccessToken J m authToken now =
     (case AuthenticateUser J m authToken now of
        Inl err \<Rightarrow> Inl err
      | Inr authUser \<Rightarrow> CreateAccessToken J m authUser now)"

text \<open>What a request carries: the token after \<open>Bearer\<close>, or the cookie if there is one.\<close>

record 'tok credentials =
  bearer :: "'tok option"
  cookie :: "'tok option"

datatype 'r middleware_outcome = Abort "int \<times> error_response" | Next 'r

definition AuthenticatorMiddleware ::
  "'tok jwt \<Rightarrow> auth_manager \<Rightarrow> 'tok credentials \<Rightarrow> int \<Rightarrow> authenticated_user middleware_outcome" where
  "AuthenticatorMiddleware J m request now =
     (case (case bearer request of Some t \<Rightarrow> Some t | None \<Rightarrow> cookie request) of
        None \<Rightarrow> Abort (CreateErrorResponse (Sentinel ErrUnauthorized))
      | Some accessToken \<Rightarrow>
          (case AuthenticateUser J m accessToken now of
             Inl _ \<Rightarrow> Abort (CreateErrorResponse (Sentinel ErrAccessTokenInvalid))
           | Inr user \<Rightarrow> Next user))"

section \<open>Users\<close>

definition registerNativeUser :: "auth_manager \<Rightarrow> auth_manager" where
  "registerNativeUser m = m\<lparr>authenticatedUsers := (authenticatedUsers m)
     (NativeUserID \<mapsto> \<lparr>UserId = NativeUserID, Collections = [], IsAdmin = True\<rparr>)\<rparr>"

definition RegisterNativeUser ::
  "string \<Rightarrow> string \<Rightarrow> string \<Rightarrow> string list \<Rightarrow> auth_manager \<Rightarrow> go_error option \<times> auth_manager" where
  "RegisterNativeUser userId username password collections m =
     (if \<not> admin_enabled (cfg_admin (auth_cfg m)) then (Some (Sentinel ErrAdminAuthDisabledError), m)
      else if username = [] \<or> password = [] \<or> username = admin_username (cfg_admin (auth_cfg m))
      then (Some (Sentinel ErrInvalidCredentials), m)
      else if nativeTestingAccounts m username \<noteq> None then (Some (Sentinel ErrInvalidCredentials), m)
      else (None, m\<lparr>nativeTestingAccounts := (nativeTestingAccounts m)
                      (username \<mapsto> \<lparr>acc_password = password, acc_userId = userId\<rparr>),
                    authenticatedUsers := (authenticatedUsers m)
                      (userId \<mapsto> \<lparr>UserId = userId, Collections = collections, IsAdmin = False\<rparr>)\<rparr>))"

definition RegisterTestUser :: "authenticated_user \<Rightarrow> auth_manager \<Rightarrow> string \<times> auth_manager" where
  "RegisterTestUser u m = (UserId u, m\<lparr>authenticatedUsers := (authenticatedUsers m)(UserId u \<mapsto> u)\<rparr>)"

text \<open>The configuration and the environment \<open>CreateManager\<close> reads, and the OpenID provider it finds.\<close>

datatype auth_method = AuthAdmin | AuthOpenID | AuthDesktop

record auth_settings =
  Methods :: "auth_method list"
  OpenIdAdminGroups :: "string list"
  SB_ADMIN_USERNAME :: string
  SB_ADMIN_PASSWORD :: string
  SB_OIDC_SECRET :: string
  SB_DESKTOP_TOKEN :: string
  SB_JWT_SECRET :: string

definition auth_config_of :: "auth_settings \<Rightarrow> auth_config" where
  "auth_config_of s =
     \<lparr>cfg_admin = \<lparr>admin_enabled = (AuthAdmin \<in> set (Methods s)),
        admin_username = SB_ADMIN_USERNAME s, admin_password = SB_ADMIN_PASSWORD s\<rparr>,
      cfg_openId = \<lparr>openid_enabled = (AuthOpenID \<in> set (Methods s)),
        openid_adminGroups = OpenIdAdminGroups s, openid_secret = SB_OIDC_SECRET s\<rparr>,
      cfg_desktop = \<lparr>desktop_enabled = (AuthDesktop \<in> set (Methods s)),
        desktop_token = SB_DESKTOP_TOKEN s\<rparr>\<rparr>"

definition CreateAuthManager :: "string \<Rightarrow> bool \<Rightarrow> auth_settings \<Rightarrow> auth_manager option" where
  "CreateAuthManager rand_Text provider_found s =
     (let cfg = auth_config_of s;
          secret = (if SB_JWT_SECRET s = [] then rand_Text else SB_JWT_SECRET s);
          m = \<lparr>jwtSecret = secret, auth_cfg = cfg, nativeTestingAccounts = Map.empty,
               authenticatedUsers = Map.empty\<rparr> in
      if admin_enabled (cfg_admin cfg) \<and> (admin_username (cfg_admin cfg) = [] \<or> admin_password (cfg_admin cfg) = [])
      then None
      else (let m = (if admin_enabled (cfg_admin cfg) then registerNativeUser m else m) in
        if desktop_enabled (cfg_desktop cfg) \<and> desktop_token (cfg_desktop cfg) = [] then None
        else (let m = (if desktop_enabled (cfg_desktop cfg) then registerNativeUser m else m) in
          if openid_enabled (cfg_openId cfg) \<and> (openid_secret (cfg_openId cfg) = [] \<or> \<not> provider_found) then None
          else Some m)))"

section \<open>Logging in\<close>

definition native_user_id :: "auth_manager \<Rightarrow> string \<Rightarrow> string \<Rightarrow> string" where
  "native_user_id m username password =
     (if username = admin_username (cfg_admin (auth_cfg m)) \<and> password = admin_password (cfg_admin (auth_cfg m))
      then NativeUserID
      else (case nativeTestingAccounts m username of
              Some account \<Rightarrow> if password = acc_password account then acc_userId account else []
            | None \<Rightarrow> []))"

definition LoginNative ::
  "'tok jwt \<Rightarrow> auth_manager \<Rightarrow> string \<Rightarrow> string \<Rightarrow> int \<Rightarrow> ('tok \<times> 'tok) result" where
  "LoginNative J m username password now =
     (if \<not> admin_enabled (cfg_admin (auth_cfg m)) then Inl (Sentinel ErrAdminAuthDisabledError)
      else (let userId = native_user_id m username password in
        case authenticatedUsers m userId of
          None \<Rightarrow> Inl (Sentinel ErrInvalidCredentials)
        | Some authUser \<Rightarrow>
            (case CreateAuthToken J m userId now of
               Inl err \<Rightarrow> Inl err
             | Inr authToken \<Rightarrow>
                 (case CreateAccessToken J m authUser now of
                    Inl err \<Rightarrow> Inl err
                  | Inr accessToken \<Rightarrow> Inr (authToken, accessToken)))))"

text \<open>\<open>None\<close> is the panic on dereferencing a user that is not registered.\<close>

definition LoginDesktop :: "'tok jwt \<Rightarrow> auth_manager \<Rightarrow> string \<Rightarrow> int \<Rightarrow> 'tok result option" where
  "LoginDesktop J m token now =
     (if \<not> desktop_enabled (cfg_desktop (auth_cfg m)) then Some (Inl (Sentinel ErrDesktopAuthDisabledError))
      else if token \<noteq> desktop_token (cfg_desktop (auth_cfg m)) then Some (Inl (Sentinel ErrDesktopTokenInvalid))
      else map_option (\<lambda>authUser. CreateAccessToken J m authUser now) (authenticatedUsers m NativeUserID))"

record oidc_claims =
  Sub :: string
  Groups :: "string list"
  Profile :: string

text \<open>
  The OpenID client: the exchange of a code, the user info and its claims, any of which can fail.
  The mapper works on a state of its own (the user table).
\<close>

record ('code, 'oauth, 'info) oidc =
  Exchange :: "'code \<Rightarrow> 'oauth result"
  UserInfo :: "'oauth \<Rightarrow> 'info result"
  Claims :: "'info \<Rightarrow> oidc_claims result"

definition is_admin_by_groups :: "auth_manager \<Rightarrow> string list \<Rightarrow> bool" where
  "is_admin_by_groups m userGroups =
     list_ex (\<lambda>group. group \<in> set userGroups) (openid_adminGroups (cfg_openId (auth_cfg m)))"

definition AuthenticateWithCode ::
  "('code, 'oauth, 'info) oidc \<Rightarrow> (string \<Rightarrow> string \<Rightarrow> 's \<Rightarrow> string result \<times> 's) \<Rightarrow> 'code
    \<Rightarrow> auth_manager \<times> 's \<Rightarrow> authenticated_user result \<times> auth_manager \<times> 's" where
  "AuthenticateWithCode P userSubToIdMapper authCode ms =
     (case ms of (m, s) \<Rightarrow>
      if \<not> openid_enabled (cfg_openId (auth_cfg m)) then (Inl (Sentinel ErrOpenIDAuthDisabledError), m, s)
      else (case Exchange P authCode of Inl _ \<Rightarrow> (Inl (Sentinel ErrOpenIDError), m, s) | Inr token \<Rightarrow>
        (case UserInfo P token of Inl _ \<Rightarrow> (Inl (Sentinel ErrOpenIDError), m, s) | Inr info \<Rightarrow>
          (case Claims P info of Inl _ \<Rightarrow> (Inl (Sentinel ErrOpenIDError), m, s) | Inr c \<Rightarrow>
            (let isAdmin = is_admin_by_groups m (Groups c) in
             case userSubToIdMapper (Sub c) (Profile c) s of
               (Inl err, s) \<Rightarrow> (Inl err, m, s)
             | (Inr userId, s) \<Rightarrow>
                 (let authenticatedUser = \<lparr>UserId = userId, Collections = Groups c, IsAdmin = isAdmin\<rparr>
                  in (Inr authenticatedUser,
                      m\<lparr>authenticatedUsers := (authenticatedUsers m)(userId \<mapsto> authenticatedUser)\<rparr>, s)))))))"

definition GetAuthCodeURL :: "(string \<Rightarrow> string) \<Rightarrow> auth_manager \<Rightarrow> string \<Rightarrow> string result" where
  "GetAuthCodeURL oauth2_AuthCodeURL m stateToken =
     (if \<not> openid_enabled (cfg_openId (auth_cfg m)) then Inl (Sentinel ErrOpenIDAuthDisabledError)
      else Inr (oauth2_AuthCodeURL stateToken))"

section \<open>The invariant\<close>

text \<open>
  What holds of every manager as long as nobody has logged in with OpenID, which may make other users admins: a user
  is registered under its own id, the empty id is nobody's, every account has a user that is no admin, and the only
  admin is the native user, which is there when the admin login is enabled.
\<close>

definition auth_inv :: "auth_manager \<Rightarrow> bool" where
  "auth_inv m \<longleftrightarrow>
     authenticatedUsers m [] = None
     \<and> (\<forall>k u. authenticatedUsers m k = Some u \<longrightarrow> UserId u = k \<and> (IsAdmin u \<longleftrightarrow> k = NativeUserID))
     \<and> (\<forall>n a. nativeTestingAccounts m n = Some a \<longrightarrow>
          acc_userId a \<noteq> NativeUserID \<and> authenticatedUsers m (acc_userId a) \<noteq> None)
     \<and> (admin_enabled (cfg_admin (auth_cfg m)) \<longrightarrow> authenticatedUsers m NativeUserID \<noteq> None)"

lemma NativeUserID_not_empty [simp]: "NativeUserID \<noteq> []" "[] \<noteq> NativeUserID"
  by (simp_all add: NativeUserID_def)

lemma auth_inv_create: "CreateAuthManager r found s = Some m \<Longrightarrow> auth_inv m"
  by (auto simp: CreateAuthManager_def Let_def registerNativeUser_def auth_inv_def auth_config_of_def
      split: if_splits)

lemma auth_inv_register:
  assumes "auth_inv m" and "userId \<noteq> NativeUserID" and "userId \<noteq> []"
  shows "auth_inv (snd (RegisterNativeUser userId username password collections m))"
  using assms by (auto simp: RegisterNativeUser_def auth_inv_def)

text \<open>
  The managers of a running server: created, with accounts and test users registered and users that have logged in
  with OpenID, where the provider and the mapper of subjects may behave in any of the given ways. Of all of them it
  holds that a user is registered under its own id.
\<close>

inductive manager_reachable ::
  "(('code, 'oauth, 'info) oidc \<times> (string \<Rightarrow> string \<Rightarrow> 's \<Rightarrow> string result \<times> 's)) set \<Rightarrow> auth_manager \<Rightarrow> bool"
  for Ps where
  created: "CreateAuthManager rand_Text found settings = Some m \<Longrightarrow> manager_reachable Ps m"
| registered: "manager_reachable Ps m \<Longrightarrow>
    manager_reachable Ps (snd (RegisterNativeUser userId username password collections m))"
| test_user: "manager_reachable Ps m \<Longrightarrow> manager_reachable Ps (snd (RegisterTestUser u m))"
| with_code: "manager_reachable Ps m \<Longrightarrow> (P, userSubToIdMapper) \<in> Ps \<Longrightarrow>
    AuthenticateWithCode P userSubToIdMapper code (m, s) = (r, m', s') \<Longrightarrow> manager_reachable Ps m'"

definition users_by_id :: "auth_manager \<Rightarrow> bool" where
  "users_by_id m \<longleftrightarrow> (\<forall>k u. authenticatedUsers m k = Some u \<longrightarrow> UserId u = k)"

lemma users_by_id_code:
  "AuthenticateWithCode P f code (m, s) = (r, m', s') \<Longrightarrow> users_by_id m \<Longrightarrow> users_by_id m'"
  by (auto simp: AuthenticateWithCode_def users_by_id_def Let_def split: if_splits sum.splits prod.splits)

lemma manager_reachable_users: "manager_reachable Ps m \<Longrightarrow> users_by_id m"
proof (induction rule: manager_reachable.induct)
  case (created rand_Text found settings m)
  then show ?case
    by (auto simp: CreateAuthManager_def Let_def registerNativeUser_def users_by_id_def split: if_splits)
next
  case (with_code m P f code s r m' s')
  then show ?case by (blast intro: users_by_id_code)
qed (auto simp: users_by_id_def RegisterNativeUser_def RegisterTestUser_def)

record registration =
  reg_userId :: string
  reg_username :: string
  reg_password :: string
  reg_collections :: "string list"

definition register_all :: "registration list \<Rightarrow> auth_manager \<Rightarrow> auth_manager" where
  "register_all regs m = fold (\<lambda>r m.
     snd (RegisterNativeUser (reg_userId r) (reg_username r) (reg_password r) (reg_collections r) m)) regs m"

lemma register_all_inv:
  assumes "auth_inv m" and "\<forall>r \<in> set regs. reg_userId r \<noteq> NativeUserID \<and> reg_userId r \<noteq> []"
  shows "auth_inv (register_all regs m)"
  using assms
proof (induction regs arbitrary: m)
  case (Cons r regs)
  then show ?case
    using auth_inv_register [OF Cons.prems(1), of "reg_userId r"] by (simp add: register_all_def)
qed (simp add: register_all_def)

lemma register_cfg: "auth_cfg (snd (RegisterNativeUser userId username password collections m)) = auth_cfg m"
  by (simp add: RegisterNativeUser_def)

lemma register_accounts:
  "nativeTestingAccounts m (admin_username (cfg_admin (auth_cfg m))) = None \<Longrightarrow>
    nativeTestingAccounts (snd (RegisterNativeUser userId username password collections m))
      (admin_username (cfg_admin (auth_cfg m))) = None"
  by (auto simp: RegisterNativeUser_def)

lemma register_all_cfg: "auth_cfg (register_all regs m) = auth_cfg m"
  by (induction regs arbitrary: m) (simp_all add: register_all_def register_cfg)

text \<open>Which user a pair of credentials belongs to.\<close>

definition credentials_of :: "auth_manager \<Rightarrow> string \<Rightarrow> string \<Rightarrow> authenticated_user \<Rightarrow> bool" where
  "credentials_of m username password u \<longleftrightarrow>
     (if IsAdmin u
      then username = admin_username (cfg_admin (auth_cfg m)) \<and> password = admin_password (cfg_admin (auth_cfg m))
      else (\<exists>a. nativeTestingAccounts m username = Some a \<and> acc_password a = password
              \<and> acc_userId a = UserId u))
     \<and> authenticatedUsers m (UserId u) = Some u"

lemma native_user_credentials:
  assumes "auth_inv m" and "authenticatedUsers m (native_user_id m username password) = Some u"
  shows "credentials_of m username password u"
  using assms by (auto simp: native_user_id_def auth_inv_def credentials_of_def split: if_splits option.splits)

lemma LoginNative_cases:
  assumes "admin_enabled (cfg_admin (auth_cfg m))" and "\<forall>c. \<exists>t. sign J c (jwtSecret m) = Inr t"
  shows "LoginNative J m username password now =
    (case authenticatedUsers m (native_user_id m username password) of
       None \<Rightarrow> Inl (Sentinel ErrInvalidCredentials)
     | Some u \<Rightarrow> Inr (projr (sign J (auth_claims (native_user_id m username password) now) (jwtSecret m)),
                     projr (sign J (access_claims u now) (jwtSecret m))))"
proof -
  have "\<exists>t. sign J (auth_claims (native_user_id m username password) now) (jwtSecret m) = Inr t"
    using assms(2) by blast
  moreover have "\<exists>t. sign J (access_claims u now) (jwtSecret m) = Inr t" for u
    using assms(2) by blast
  ultimately show ?thesis
    using assms(1)
    by (auto simp: LoginNative_def Let_def CreateAuthToken_def CreateAccessToken_def split: option.split sum.split)
       (metis sum.sel(2) old.sum.exhaust sum.distinct(1) sum.inject(2))+
qed

section \<open>Documented behaviour of the JWT library\<close>

text \<open>
  A token is accepted from its \<open>nbf\<close> until before its \<open>exp\<close> when the key function has the key it was
  signed with for the HMAC methods.
\<close>

definition valid_at :: "claims \<Rightarrow> int \<Rightarrow> bool" where
  "valid_at c now \<longleftrightarrow>
     (case c ''exp'' of Some (JNumber e) \<Rightarrow> unix now < e | _ \<Rightarrow> True)
     \<and> (case c ''nbf'' of Some (JNumber n) \<Rightarrow> n \<le> unix now | _ \<Rightarrow> True)"

definition accepts_signed :: "'tok jwt \<Rightarrow> bool" where
  "accepts_signed J \<longleftrightarrow> (\<forall>c key tok kf now.
     sign J c key = Inr tok \<longrightarrow> kf HMAC = Inr key \<longrightarrow> valid_at c now \<longrightarrow> parse J tok kf now = Inr c)"

lemma authenticate_signed:
  assumes "accepts_signed J" and "sign J c (jwtSecret m) = Inr tok" and "valid_at c now"
    and "c ''id'' = Some (JString i)" and "authenticatedUsers m i = Some u"
  shows "AuthenticateUser J m tok now = Inr u"
proof -
  have "tokenParser m HMAC = Inr (jwtSecret m)" by (simp add: tokenParser_def)
  then have "parse J tok (tokenParser m) now = Inr c"
    using assms(1-3) unfolding accepts_signed_def by blast
  with assms(4,5) show ?thesis by (simp add: AuthenticateUser_def)
qed

lemma unix_hours: "unix (t + hour * n) = unix t + 3600 * n" "unix (t + minute * n) = unix t + 60 * n"
proof -
  have "t + hour * n = t + (3600 * n) * 1000000000" "t + minute * n = t + (60 * n) * 1000000000"
    by (simp_all add: hour_def minute_def)
  then show "unix (t + hour * n) = unix t + 3600 * n" "unix (t + minute * n) = unix t + 60 * n"
    unfolding unix_def by (simp_all only: div_mult_self3 [of "1000000000 :: int"])
qed

section \<open>Properties\<close>

text \<open>C25: Whatever users were registered, a login succeeds exactly with the credentials of the admin or of a registered
  account. It then gives an auth token for the id and an access token for the data of the user these credentials belong
  to, so it makes an admin of nobody who does not have the admin's.\<close>

theorem login_exactly_with_credentials:
  assumes "CreateAuthManager rand_Text found settings = Some m0" and "m = register_all regs m0"
    and "\<forall>r \<in> set regs. reg_userId r \<noteq> NativeUserID \<and> reg_userId r \<noteq> []"
    and "AuthAdmin \<in> set (Methods settings)" and "\<forall>c. \<exists>t. sign J c (jwtSecret m) = Inr t"
  shows "(\<exists>u. credentials_of m username password u \<and>
        LoginNative J m username password now =
          Inr (projr (sign J (auth_claims (UserId u) now) (jwtSecret m)),
               projr (sign J (access_claims u now) (jwtSecret m))))
    \<or> ((\<nexists>u. credentials_of m username password u)
        \<and> LoginNative J m username password now = Inl (Sentinel ErrInvalidCredentials))"
proof -
  have inv: "auth_inv m"
    using register_all_inv [OF auth_inv_create [OF assms(1)]] assms(2,3) by simp
  have "auth_cfg m = auth_config_of settings"
    using assms(1,2) register_all_cfg
    by (auto simp: CreateAuthManager_def Let_def registerNativeUser_def split: if_splits)
  then have enabled: "admin_enabled (cfg_admin (auth_cfg m))"
    using assms(4) by (simp add: auth_config_of_def)
  note login = LoginNative_cases [OF enabled assms(5), of username password now]
  show ?thesis
  proof (cases "authenticatedUsers m (native_user_id m username password)")
    case (Some u)
    moreover from this have "UserId u = native_user_id m username password" using inv by (simp add: auth_inv_def)
    ultimately show ?thesis using login native_user_credentials [OF inv Some] by auto
  next
    case None
    have "\<not> credentials_of m username password u" for u
    proof
      assume c: "credentials_of m username password u"
      then have u: "authenticatedUsers m (UserId u) = Some u" by (simp add: credentials_of_def)
      show False
      proof (cases "username = admin_username (cfg_admin (auth_cfg m))
          \<and> password = admin_password (cfg_admin (auth_cfg m))")
        case True
        with None inv enabled show False by (simp add: native_user_id_def auth_inv_def)
      next
        case False
        with c obtain a where "nativeTestingAccounts m username = Some a" "acc_password a = password"
            "acc_userId a = UserId u" by (auto simp: credentials_of_def split: if_splits)
        with False None u show False by (auto simp: native_user_id_def)
      qed
    qed
    with None login show ?thesis by simp
  qed
qed

text \<open>An implementation of the library in which a token is its claims and its key.\<close>

definition plain_jwt :: "(claims \<times> string) jwt" where
  "plain_jwt = \<lparr>parse = (\<lambda>tok kf now.
       case kf HMAC of
         Inl e \<Rightarrow> Inl e
       | Inr key \<Rightarrow> if key = snd tok \<and> valid_at (fst tok) now then Inr (fst tok) else Inl (Foreign [])),
     sign = (\<lambda>c key. Inr (c, key))\<rparr>"

lemma accepts_signed_plain_jwt: "accepts_signed plain_jwt"
  by (auto simp: accepts_signed_def plain_jwt_def)

definition demo_settings :: auth_settings where
  "demo_settings = \<lparr>Methods = [AuthAdmin], OpenIdAdminGroups = [], SB_ADMIN_USERNAME = ''root'',
     SB_ADMIN_PASSWORD = ''secret'', SB_OIDC_SECRET = [], SB_DESKTOP_TOKEN = [], SB_JWT_SECRET = ''k''\<rparr>"

definition demo_manager :: auth_manager where
  "demo_manager = the (CreateAuthManager [] False demo_settings)"

lemma demo_manager_created: "CreateAuthManager [] False demo_settings = Some demo_manager"
  by (simp add: demo_manager_def CreateAuthManager_def demo_settings_def auth_config_of_def Let_def)

theorem login_exactly_with_credentials_witness:
  "LoginNative plain_jwt demo_manager ''root'' ''wrong'' 0 = Inl (Sentinel ErrInvalidCredentials) \<and>
   (\<exists>u. credentials_of demo_manager ''root'' ''secret'' u \<and> IsAdmin u \<and>
      LoginNative plain_jwt demo_manager ''root'' ''secret'' 0 =
        Inr ((auth_claims (UserId u) 0, ''k''), (access_claims u 0, ''k'')))"
proof -
  note defs = credentials_of_def demo_manager_def CreateAuthManager_def demo_settings_def
    auth_config_of_def registerNativeUser_def Let_def
  have none: "\<not> credentials_of demo_manager ''root'' ''wrong'' u" for u by (simp add: defs)
  let ?admin = "\<lparr>UserId = NativeUserID, Collections = [], IsAdmin = True\<rparr>"
  have admin: "credentials_of demo_manager ''root'' ''secret'' ?admin" by (simp add: defs)
  have only: "u = ?admin" if "credentials_of demo_manager ''root'' ''secret'' u" for u
    using that by (auto simp: defs split: if_splits)
  have secret: "projr (sign plain_jwt c (jwtSecret demo_manager)) = (c, ''k'')" for c
    by (simp add: plain_jwt_def defs)
  have "AuthAdmin \<in> set (Methods demo_settings)" by (simp add: demo_settings_def)
  moreover have "\<forall>c. \<exists>t. sign plain_jwt c (jwtSecret demo_manager) = Inr t" by (simp add: plain_jwt_def)
  moreover have "demo_manager = register_all [] demo_manager" by (simp add: register_all_def)
  ultimately have login: "(\<exists>u. credentials_of demo_manager ''root'' p u \<and> LoginNative plain_jwt demo_manager ''root'' p 0 =
        Inr ((auth_claims (UserId u) 0, ''k''), (access_claims u 0, ''k''))) \<or>
      ((\<nexists>u. credentials_of demo_manager ''root'' p u) \<and>
        LoginNative plain_jwt demo_manager ''root'' p 0 = Inl (Sentinel ErrInvalidCredentials))" for p
    using login_exactly_with_credentials [OF demo_manager_created, of demo_manager "[]" plain_jwt "''root''" p 0]
    by (simp add: secret)
  have "LoginNative plain_jwt demo_manager ''root'' ''secret'' 0 =
      Inr ((auth_claims (UserId ?admin) 0, ''k''), (access_claims ?admin 0, ''k''))"
    using login [of "''secret''"] admin only by blast
  moreover have "LoginNative plain_jwt demo_manager ''root'' ''wrong'' 0 = Inl (Sentinel ErrInvalidCredentials)"
    using login [of "''wrong''"] none by blast
  ultimately show ?thesis using admin by (intro conjI exI [of _ ?admin]) simp_all
qed

text \<open>C29: The two tokens of a login identify the user who logged in: the access token for half an hour,
  the auth token for thirty days, as long as the user stays registered, on a server at which nobody has logged in
  with OpenID.\<close>

theorem login_tokens_authenticate:
  assumes "auth_inv m" and "accepts_signed J"
    and "LoginNative J m username password now = Inr (authToken, accessToken)" and "now \<le> later"
  shows "\<exists>u. credentials_of m username password u
    \<and> (unix later < unix now + 30 * 60 \<longrightarrow> AuthenticateUser J m accessToken later = Inr u)
    \<and> (unix later < unix now + 30 * 24 * 3600 \<longrightarrow> AuthenticateUser J m authToken later = Inr u)"
proof -
  let ?i = "native_user_id m username password"
  obtain u where u: "authenticatedUsers m ?i = Some u"
    using assms(3) by (auto simp: LoginNative_def Let_def split: if_splits option.splits)
  then have auth: "sign J (auth_claims ?i now) (jwtSecret m) = Inr authToken"
    and acc: "sign J (access_claims u now) (jwtSecret m) = Inr accessToken"
    using assms(3)
    by (auto simp: LoginNative_def Let_def CreateAuthToken_def CreateAccessToken_def split: if_splits sum.splits)
  have id: "UserId u = ?i" using assms(1) u by (auto simp: auth_inv_def)
  have nbf: "unix now \<le> unix later" by (rule unix_mono [OF assms(4)])
  have "AuthenticateUser J m accessToken later = Inr u" if "unix later < unix now + 30 * 60"
    using that nbf unix_hours(2) [of now 30] id u
    by (intro authenticate_signed [OF assms(2) acc]) (auto simp: valid_at_def access_claims_def)
  moreover have "AuthenticateUser J m authToken later = Inr u" if "unix later < unix now + 30 * 24 * 3600"
    using that nbf unix_hours(1) [of now 720] u
    by (intro authenticate_signed [OF assms(2) auth]) (auto simp: valid_at_def auth_claims_def)
  ultimately show ?thesis
    using native_user_credentials [OF assms(1) u] by blast
qed

theorem login_tokens_authenticate_witness:
  "\<exists>auth acc u. LoginNative plain_jwt demo_manager ''root'' ''secret'' 0 = Inr (auth, acc)
    \<and> AuthenticateUser plain_jwt demo_manager acc (minute * 29) = Inr u"
proof -
  obtain auth acc where l: "LoginNative plain_jwt demo_manager ''root'' ''secret'' 0 = Inr (auth, acc)"
    by (simp add: LoginNative_def native_user_id_def demo_manager_def CreateAuthManager_def demo_settings_def
        auth_config_of_def registerNativeUser_def plain_jwt_def CreateAuthToken_def CreateAccessToken_def Let_def)
  from login_tokens_authenticate [OF auth_inv_create [OF demo_manager_created] accepts_signed_plain_jwt l,
      of "minute * 29"]
  show ?thesis using l by (auto simp: minute_def unix_def)
qed

end
