(* ===== verification/Repositories.thy ===== *)
theory Repositories
  imports Entities Errors
begin

text \<open>
  The repositories of \<open>src/domain/*/repository.go\<close>. The database behind gorm is a parameter: a record
  of its operations per table, over a state \<open>'db\<close> of any type. A query is the list of the clauses the
  code chains before it calls \<open>Find\<close> or \<open>Delete\<close>, with the text of the conditions and their
  arguments. \<open>Find\<close> into a struct takes the first row, and \<open>RowsAffected\<close> is less than one exactly if
  there is none. \<open>Create\<close> returns the row with its primary key.
\<close>

section \<open>The database\<close>

datatype arg = AStr string | AStrs "string list" | ATime int

datatype clause =
    Preload string
  | PreloadAssociations
  | Joins string
  | Where string "arg list"
  | Order string
  | Limit int
  | Offset int
  | Returning string

record ('row, 'db) table =
  Find :: "clause list \<Rightarrow> 'db \<Rightarrow> 'row list result"
  CreateRow :: "'row \<Rightarrow> 'db \<Rightarrow> 'row result \<times> 'db"
  SaveRow :: "'row \<Rightarrow> 'db \<Rightarrow> 'row result \<times> 'db"
  DeleteRow :: "'row \<Rightarrow> 'db \<Rightarrow> go_error option \<times> 'db"
  DeleteWhere :: "clause list \<Rightarrow> 'db \<Rightarrow> 'row list result \<times> 'db"

record 'db database =
  tab_users :: "(user, 'db) table"
  tab_collections :: "(collection, 'db) table"
  tab_topologies :: "(topology, 'db) table"
  tab_bind_files :: "(bind_file, 'db) table"
  tab_labs :: "(lab, 'db) table"

text \<open>The ways the repositories use it. Every error of the database becomes \<open>ErrDatabaseError\<close>.\<close>

definition find_all :: "('row, 'db) table \<Rightarrow> clause list \<Rightarrow> 'db \<Rightarrow> 'row list result" where
  "find_all t q db =
     (case Find t q db of Inl _ \<Rightarrow> Inl (Sentinel ErrDatabaseError) | Inr rows \<Rightarrow> Inr rows)"

definition find_one :: "sentinel \<Rightarrow> ('row, 'db) table \<Rightarrow> clause list \<Rightarrow> 'db \<Rightarrow> 'row result" where
  "find_one not_found t q db =
     (case Find t q db of
        Inl _ \<Rightarrow> Inl (Sentinel ErrDatabaseError)
      | Inr [] \<Rightarrow> Inl (Sentinel not_found)
      | Inr (row # _) \<Rightarrow> Inr row)"

definition find_any :: "('row, 'db) table \<Rightarrow> clause list \<Rightarrow> 'db \<Rightarrow> bool result" where
  "find_any t q db =
     (case Find t q db of Inl _ \<Rightarrow> Inl (Sentinel ErrDatabaseError) | Inr rows \<Rightarrow> Inr (rows \<noteq> []))"

definition create_row :: "('row, 'db) table \<Rightarrow> 'row \<Rightarrow> 'db \<Rightarrow> 'row result \<times> 'db" where
  "create_row t row db =
     (case CreateRow t row db of
        (Inl _, db) \<Rightarrow> (Inl (Sentinel ErrDatabaseError), db)
      | (Inr row, db) \<Rightarrow> (Inr row, db))"

definition save_row :: "('row, 'db) table \<Rightarrow> 'row \<Rightarrow> 'db \<Rightarrow> go_error option \<times> 'db" where
  "save_row t row db =
     (case SaveRow t row db of
        (Inl _, db) \<Rightarrow> (Some (Sentinel ErrDatabaseError), db)
      | (Inr _, db) \<Rightarrow> (None, db))"

definition delete_row :: "('row, 'db) table \<Rightarrow> 'row \<Rightarrow> 'db \<Rightarrow> go_error option \<times> 'db" where
  "delete_row t row db =
     (case DeleteRow t row db of
        (Some _, db) \<Rightarrow> (Some (Sentinel ErrDatabaseError), db)
      | (None, db) \<Rightarrow> (None, db))"

lemma find_one_cases:
  "find_one e t q db = Inl (Sentinel ErrDatabaseError) \<or> find_one e t q db = Inl (Sentinel e)
    \<or> (\<exists>row rows. find_one e t q db = Inr row \<and> Find t q db = Inr (row # rows))"
  by (auto simp: find_one_def split: sum.split list.split)

lemma find_one_Inr: "find_one e t q db = Inr row \<Longrightarrow> \<exists>rows. Find t q db = Inr (row # rows)"
  by (auto simp: find_one_def split: sum.splits list.splits)

section \<open>Users\<close>

definition user_GetByUuid :: "'db database \<Rightarrow> string \<Rightarrow> 'db \<Rightarrow> user result" where
  "user_GetByUuid D userId =
     find_one ErrUuidNotFound (tab_users D) [Where ''uuid = ?'' [AStr userId], Limit 1]"

definition user_GetBySub :: "'db database \<Rightarrow> string \<Rightarrow> 'db \<Rightarrow> (user \<times> bool) result" where
  "user_GetBySub D userSub db =
     (case Find (tab_users D) [Limit 1, Where ''sub = ?'' [AStr userSub]] db of
        Inl _ \<Rightarrow> Inl (Sentinel ErrDatabaseError)
      | Inr [] \<Rightarrow> Inr (zero_user, False)
      | Inr (u # _) \<Rightarrow> Inr (u, True))"

definition user_Update :: "'db database \<Rightarrow> user \<Rightarrow> 'db \<Rightarrow> go_error option \<times> 'db" where
  "user_Update D = save_row (tab_users D)"

definition user_Create :: "'db database \<Rightarrow> user \<Rightarrow> 'db \<Rightarrow> user result \<times> 'db" where
  "user_Create D = create_row (tab_users D)"

section \<open>Collections\<close>

definition collection_GetAll :: "'db database \<Rightarrow> 'db \<Rightarrow> collection list result" where
  "collection_GetAll D = find_all (tab_collections D) [Preload ''Creator'']"

definition collection_GetByUuid :: "'db database \<Rightarrow> string \<Rightarrow> 'db \<Rightarrow> collection result" where
  "collection_GetByUuid D collectionId =
     find_one ErrUuidNotFound (tab_collections D)
       [Preload ''Creator'', Where ''uuid = ?'' [AStr collectionId]]"

definition collection_GetByNames :: "'db database \<Rightarrow> string list \<Rightarrow> 'db \<Rightarrow> collection list result" where
  "collection_GetByNames D collectionNames =
     find_all (tab_collections D) [Preload ''Creator'', Where ''Name IN ?'' [AStrs collectionNames]]"

definition collection_DoesNameExist :: "'db database \<Rightarrow> string \<Rightarrow> 'db \<Rightarrow> bool result" where
  "collection_DoesNameExist D collectionName =
     find_any (tab_collections D)
       [Where ''name = ? AND deleted_at IS NULL'' [AStr collectionName], Limit 1]"

definition collection_repo_Create :: "'db database \<Rightarrow> collection \<Rightarrow> 'db \<Rightarrow> collection result \<times> 'db" where
  "collection_repo_Create D = create_row (tab_collections D)"

definition collection_repo_Update :: "'db database \<Rightarrow> collection \<Rightarrow> 'db \<Rightarrow> go_error option \<times> 'db" where
  "collection_repo_Update D = save_row (tab_collections D)"

definition collection_repo_Delete :: "'db database \<Rightarrow> collection \<Rightarrow> 'db \<Rightarrow> go_error option \<times> 'db" where
  "collection_repo_Delete D = delete_row (tab_collections D)"

section \<open>Topologies and bind files\<close>

definition topology_GetAll :: "'db database \<Rightarrow> 'db \<Rightarrow> topology list result" where
  "topology_GetAll D = find_all (tab_topologies D) [PreloadAssociations]"

definition topology_GetByUuid :: "'db database \<Rightarrow> string \<Rightarrow> 'db \<Rightarrow> topology result" where
  "topology_GetByUuid D topologyId =
     find_one ErrUuidNotFound (tab_topologies D)
       [Where ''uuid = ?'' [AStr topologyId], Preload ''Collection'', Preload ''Creator'']"

definition topology_GetByName :: "'db database \<Rightarrow> string \<Rightarrow> string \<Rightarrow> 'db \<Rightarrow> topology list result" where
  "topology_GetByName D topologyName collectionId =
     find_all (tab_topologies D)
       [Joins ''JOIN collections ON collections.id = topologies.collection_id'',
        Where ''topologies.name = ? AND collections.uuid = ? AND topologies.deleted_at IS NULL''
          [AStr topologyName, AStr collectionId],
        Limit 1]"

definition topology_GetFromCollections :: "'db database \<Rightarrow> string list \<Rightarrow> 'db \<Rightarrow> topology list result" where
  "topology_GetFromCollections D collectionNames =
     find_all (tab_topologies D)
       [PreloadAssociations,
        Joins ''JOIN collections ON collections.id = topologies.collection_id'',
        Where ''collections.name IN ?'' [AStrs collectionNames]]"

definition topology_repo_Create :: "'db database \<Rightarrow> topology \<Rightarrow> 'db \<Rightarrow> topology result \<times> 'db" where
  "topology_repo_Create D = create_row (tab_topologies D)"

definition topology_repo_Update :: "'db database \<Rightarrow> topology \<Rightarrow> 'db \<Rightarrow> go_error option \<times> 'db" where
  "topology_repo_Update D = save_row (tab_topologies D)"

definition topology_repo_Delete :: "'db database \<Rightarrow> topology \<Rightarrow> 'db \<Rightarrow> go_error option \<times> 'db" where
  "topology_repo_Delete D = delete_row (tab_topologies D)"

definition topology_DeleteByCollection :: "'db database \<Rightarrow> string \<Rightarrow> 'db \<Rightarrow> string list result \<times> 'db" where
  "topology_DeleteByCollection D collectionId db =
     (case DeleteWhere (tab_topologies D)
        [Returning ''uuid'',
         Where ''collection_id IN (SELECT id FROM collections WHERE uuid = ?)'' [AStr collectionId]] db of
        (Inl _, db) \<Rightarrow> (Inl (Sentinel ErrDatabaseError), db)
      | (Inr deleted, db) \<Rightarrow> (Inr (map topo_UUID deleted), db))"

definition GetBindFileByUuid :: "'db database \<Rightarrow> string \<Rightarrow> 'db \<Rightarrow> bind_file result" where
  "GetBindFileByUuid D bindFileId =
     find_one ErrUuidNotFound (tab_bind_files D)
       [Preload ''Topology'', Where ''uuid = ?'' [AStr bindFileId]]"

definition GetBindFileForTopology :: "'db database \<Rightarrow> string \<Rightarrow> 'db \<Rightarrow> bind_file list result" where
  "GetBindFileForTopology D topologyId =
     find_all (tab_bind_files D)
       [Preload ''Topology'', Joins ''JOIN topologies ON topologies.id = bind_files.topology_id'',
        Where ''topologies.uuid = ?'' [AStr topologyId]]"

definition bind_file_repo_Create :: "'db database \<Rightarrow> bind_file \<Rightarrow> 'db \<Rightarrow> bind_file result \<times> 'db" where
  "bind_file_repo_Create D = create_row (tab_bind_files D)"

definition bind_file_repo_Update :: "'db database \<Rightarrow> bind_file \<Rightarrow> 'db \<Rightarrow> go_error option \<times> 'db" where
  "bind_file_repo_Update D = save_row (tab_bind_files D)"

definition bind_file_repo_Delete :: "'db database \<Rightarrow> bind_file \<Rightarrow> 'db \<Rightarrow> go_error option \<times> 'db" where
  "bind_file_repo_Delete D = delete_row (tab_bind_files D)"

definition DoesBindFilePathExist ::
  "'db database \<Rightarrow> string \<Rightarrow> string \<Rightarrow> string \<Rightarrow> 'db \<Rightarrow> bool result" where
  "DoesBindFilePathExist D bindFilePath topologyId excludeUUID =
     find_any (tab_bind_files D)
       [Joins ''JOIN topologies ON topologies.id = bind_files.topology_id'',
        Where ''bind_files.file_path = ? AND topologies.uuid = ? AND bind_files.uuid != ?''
          [AStr bindFilePath, AStr topologyId, AStr excludeUUID],
        Limit 1]"

section \<open>Labs\<close>

definition lab_preloads :: "clause list" where
  "lab_preloads = [Preload ''Topology'', Preload ''Collection'', Preload ''Creator'']"

text \<open>The query of a filtered list, clause by clause.\<close>

definition lab_filter_query :: "lab_filter option \<Rightarrow> clause list" where
  "lab_filter_query labFilter =
     lab_preloads @ [Order ''labs.start_time'']
     @ (case labFilter of None \<Rightarrow> [] | Some f \<Rightarrow>
         (let hasCollectionFilter = lf_CollectionFilter f \<noteq> [];
              hasSearchQuery = (case lf_SearchQuery f of None \<Rightarrow> False | Some q \<Rightarrow> q \<noteq> []) in
          (if hasCollectionFilter \<or> hasSearchQuery
           then [Joins ''JOIN collections ON collections.id = labs.collection_id AND collections.deleted_at IS NULL'']
           else [])
          @ (case lf_StartDate f of None \<Rightarrow> [] | Some t \<Rightarrow> [Where ''labs.start_time >= ?'' [ATime t]])
          @ (case lf_EndDate f of None \<Rightarrow> [] | Some t \<Rightarrow> [Where ''labs.end_time <= ?'' [ATime t]])
          @ (if hasCollectionFilter then [Where ''collections.uuid IN ?'' [AStrs (lf_CollectionFilter f)]] else [])
          @ (case lf_SearchQuery f of None \<Rightarrow> [] | Some q \<Rightarrow>
               if hasSearchQuery
               then (let matchQuery = AStr (''%'' @ q @ ''%'') in
                 [Joins ''LEFT JOIN topologies ON topologies.id = labs.topology_id AND topologies.deleted_at IS NULL'',
                  Where ''labs.name LIKE ? OR topologies.name LIKE ? OR collections.name LIKE ?''
                    [matchQuery, matchQuery, matchQuery]])
               else [])
          @ (if 0 < lf_Limit f then [Limit (lf_Limit f)] else [])
          @ (if 0 < lf_Offset f then [Offset (lf_Offset f)] else [])))"

definition lab_GetAll :: "'db database \<Rightarrow> lab_filter option \<Rightarrow> 'db \<Rightarrow> lab list result" where
  "lab_GetAll D labFilter = find_all (tab_labs D) (lab_filter_query labFilter)"

definition lab_GetByUuid :: "'db database \<Rightarrow> string \<Rightarrow> 'db \<Rightarrow> lab result" where
  "lab_GetByUuid D labId =
     find_one ErrUuidNotFound (tab_labs D) (lab_preloads @ [Where ''uuid = ?'' [AStr labId]])"

definition lab_GetByCollection :: "'db database \<Rightarrow> string \<Rightarrow> 'db \<Rightarrow> lab list result" where
  "lab_GetByCollection D collectionId =
     find_all (tab_labs D)
       (lab_preloads @ [Joins ''JOIN collections ON collections.id = labs.collection_id'',
                        Where ''collections.uuid = ?'' [AStr collectionId]])"

definition lab_GetByCollectionAndName :: "'db database \<Rightarrow> string \<Rightarrow> string \<Rightarrow> 'db \<Rightarrow> lab result" where
  "lab_GetByCollectionAndName D collectionName labName =
     find_one ErrLabNotFound (tab_labs D)
       (lab_preloads
        @ [Joins ''JOIN collections ON collections.id = labs.collection_id AND collections.deleted_at IS NULL'',
           Where ''collections.name = ? AND labs.name = ?'' [AStr collectionName, AStr labName]])"

definition lab_repo_Create :: "'db database \<Rightarrow> lab \<Rightarrow> 'db \<Rightarrow> lab result \<times> 'db" where
  "lab_repo_Create D = create_row (tab_labs D)"

definition lab_repo_Update :: "'db database \<Rightarrow> lab \<Rightarrow> 'db \<Rightarrow> go_error option \<times> 'db" where
  "lab_repo_Update D = save_row (tab_labs D)"

definition lab_repo_Delete :: "'db database \<Rightarrow> lab \<Rightarrow> 'db \<Rightarrow> go_error option \<times> 'db" where
  "lab_repo_Delete D = delete_row (tab_labs D)"

text \<open>
  A filter that searches refers to the table of collections only if the query joins it.
\<close>

definition mentions_collections :: "clause \<Rightarrow> bool" where
  "mentions_collections c = (case c of
     Where cond args \<Rightarrow> cond = ''collections.uuid IN ?''
       \<or> cond = ''labs.name LIKE ? OR topologies.name LIKE ? OR collections.name LIKE ?''
   | _ \<Rightarrow> False)"

lemma filter_query_joins:
  assumes "c \<in> set (lab_filter_query f)" and "mentions_collections c"
  shows "Joins ''JOIN collections ON collections.id = labs.collection_id AND collections.deleted_at IS NULL''
    \<in> set (lab_filter_query f)"
  using assms by (cases f) (auto simp: lab_filter_query_def lab_preloads_def mentions_collections_def Let_def
      split: if_splits option.splits)

end
