(* ===== verification/Schema.thy ===== *)
theory Schema
  imports Policy Errors
begin

text \<open>
  The schema service of \<open>src/domain/schema/service.go\<close>. Decoding YAML and JSON and validating against
  a JSON schema are third-party functions, the fields of \<open>parsers\<close>. A validation error is the tree
  that \<open>jsonschema\<close> returns. What the decoders yield is what the policy engine works on.
\<close>

record topology_definition =
  td_Name :: string
  td_Topology :: "clab_topology option"

datatype validation_error = VErr (InstanceLocation: string) (Message: string) (Causes: "validation_error list")

datatype validation = Valid | Invalid validation_error | OtherError

record 'node parsers =
  yaml_Unmarshal :: "string \<Rightarrow> 'node result"
  Decode_raw :: "'node \<Rightarrow> yaml option result"
  Decode_definition :: "'node \<Rightarrow> topology_definition result"
  clabSchema_Validate :: "yaml option \<Rightarrow> validation"
  json_Unmarshal :: "string \<Rightarrow> yaml option result"
  annotationsSchema_Validate :: "yaml option \<Rightarrow> go_error option"

section \<open>Validation errors\<close>

fun causeAt :: "string \<Rightarrow> validation_error \<Rightarrow> validation_error option"
  and causesAt :: "string \<Rightarrow> validation_error list \<Rightarrow> validation_error option" where
  "causeAt location (VErr l m cs) = (if l = location then Some (VErr l m cs) else causesAt location cs)"
| "causesAt location [] = None"
| "causesAt location (c # cs) =
     (case causeAt location c of Some found \<Rightarrow> Some found | None \<Rightarrow> causesAt location cs)"

definition depth_of :: "validation_error \<Rightarrow> nat" where
  "depth_of e = count_list (InstanceLocation e) CHR ''/''"

fun deepestCause :: "validation_error \<Rightarrow> validation_error"
  and deepest_of :: "validation_error option \<Rightarrow> validation_error list \<Rightarrow> validation_error option" where
  "deepestCause (VErr l m []) = VErr l m []"
| "deepestCause (VErr l m (c # cs)) = the (deepest_of (Some (deepestCause c)) cs)"
| "deepest_of deepest [] = deepest"
| "deepest_of deepest (c # cs) =
     (let leaf = deepestCause c in
      deepest_of (case deepest of
          None \<Rightarrow> Some leaf
        | Some d \<Rightarrow> if depth_of d < depth_of leaf then Some leaf else Some d) cs)"

text \<open>\<open>strconv.Atoi\<close> accepts digits with an optional sign, within 64 bits.\<close>

definition is_digit :: "char \<Rightarrow> bool" where
  "is_digit c = (let n = of_char c :: nat in 48 \<le> n \<and> n \<le> 57)"

definition digits_value :: "string \<Rightarrow> nat" where
  "digits_value t = foldl (\<lambda>n c. 10 * n + (of_char c - 48)) 0 t"

definition Atoi_ok :: "string \<Rightarrow> bool" where
  "Atoi_ok s =
     (let negative = (take 1 s = ''-'');
          t = (if negative \<or> take 1 s = ''+'' then drop 1 s else s)
      in t \<noteq> [] \<and> list_all is_digit t \<and> digits_value t < 2 ^ 63 + (if negative then 1 else 0))"

fun ReplaceAll2 :: "char \<times> char \<Rightarrow> char \<Rightarrow> string \<Rightarrow> string" where
  "ReplaceAll2 (a, b) c (x # y # s) =
     (if x = a \<and> y = b then c # ReplaceAll2 (a, b) c s else x # ReplaceAll2 (a, b) c (y # s))"
| "ReplaceAll2 ab c s = s"

definition unescape_token :: "string \<Rightarrow> string" where
  "unescape_token token =
     ReplaceAll2 (CHR ''~'', CHR ''0'') CHR ''~'' (ReplaceAll2 (CHR ''~'', CHR ''1'') CHR ''/'' token)"

fun write_tokens :: "string \<Rightarrow> string list \<Rightarrow> string" where
  "write_tokens path [] = path"
| "write_tokens path (token # tokens) =
     (if token = [] then write_tokens path tokens
      else (let token = unescape_token token in
        if Atoi_ok token then write_tokens (path @ ''['' @ token @ '']'') tokens
        else write_tokens (path @ (if path \<noteq> [] then ''.'' else []) @ token) tokens))"

definition pointerToPath :: "string \<Rightarrow> string" where
  "pointerToPath pointer = write_tokens [] (split_on CHR ''/'' (TrimPrefix pointer ''/''))"

definition describeValidationError :: "validation_error \<Rightarrow> string" where
  "describeValidationError err =
     (let cause = deepestCause err; path = pointerToPath (InstanceLocation cause)
      in if path \<noteq> [] then path @ '': '' @ Message cause else Message cause)"

section \<open>Parsing\<close>

definition schema_Parse ::
  "'node parsers \<Rightarrow> string \<Rightarrow> (topology_definition \<times> yaml option) result" where
  "schema_Parse P data =
     (case yaml_Unmarshal P data of
        Inl err \<Rightarrow> Inl (Wrap (Sentinel ErrInvalidTopology) (error_text err))
      | Inr node \<Rightarrow>
          (case Decode_raw P node of
             Inl err \<Rightarrow> Inl (Wrap (Sentinel ErrInvalidTopology) (error_text err))
           | Inr raw \<Rightarrow>
               (case clabSchema_Validate P raw of
                  OtherError \<Rightarrow> Inl (Sentinel ErrInvalidTopology)
                | Invalid validationErr \<Rightarrow>
                    (case causeAt ''/name'' validationErr of
                       Some nameErr \<Rightarrow> Inl (Wrap (Sentinel ErrInvalidTopologyName) (describeValidationError nameErr))
                     | None \<Rightarrow> Inl (Wrap (Sentinel ErrInvalidTopology) (describeValidationError validationErr)))
                | Valid \<Rightarrow>
                    (case Decode_definition P node of
                       Inl _ \<Rightarrow> Inl (Sentinel ErrInvalidTopology)
                     | Inr d \<Rightarrow> Inr (d, raw)))))"

definition schema_ParseAnnotations :: "'node parsers \<Rightarrow> string \<Rightarrow> yaml option result" where
  "schema_ParseAnnotations P data =
     (case json_Unmarshal P data of
        Inl err \<Rightarrow> Inl (Wrap (Sentinel ErrInvalidTopology) (error_text err))
      | Inr obj \<Rightarrow>
          (case annotationsSchema_Validate P obj of
             Some err \<Rightarrow> Inl (Wrap (Sentinel ErrInvalidTopology) (error_text err))
           | None \<Rightarrow> Inr obj))"

text \<open>The schema string: the remote one, or the fallback file. \<open>None\<close> is \<open>log.Fatal\<close>.\<close>

definition readFallbackSchema :: "(string \<Rightarrow> string result) \<Rightarrow> (string \<Rightarrow> bool) \<Rightarrow> string \<Rightarrow> string option" where
  "readFallbackSchema os_ReadFile json_valid fallback =
     (case os_ReadFile fallback of
        Inl _ \<Rightarrow> None
      | Inr schemaData \<Rightarrow> if json_valid schemaData then Some schemaData else None)"

datatype http_reply = HttpError | HttpReply int "string option"

definition loadSchema ::
  "(string \<Rightarrow> http_reply) \<Rightarrow> (string \<Rightarrow> string result) \<Rightarrow> (string \<Rightarrow> bool) \<Rightarrow> (string \<Rightarrow> 'schema option)
    \<Rightarrow> string \<Rightarrow> string \<Rightarrow> ('schema \<times> string) option" where
  "loadSchema http_Get os_ReadFile json_valid compile url fallback =
     (case (if url = [] then readFallbackSchema os_ReadFile json_valid fallback
            else (case http_Get url of
                    HttpError \<Rightarrow> readFallbackSchema os_ReadFile json_valid fallback
                  | HttpReply status body \<Rightarrow>
                      if status \<noteq> 200 then readFallbackSchema os_ReadFile json_valid fallback else body)) of
        None \<Rightarrow> None
      | Some schemaString \<Rightarrow> map_option (\<lambda>s. (s, schemaString)) (compile schemaString))"

section \<open>Facts about causes\<close>

text \<open>The errors of a tree, and those without causes of their own.\<close>

fun errors_of :: "validation_error \<Rightarrow> validation_error list"
  and errors_of_list :: "validation_error list \<Rightarrow> validation_error list" where
  "errors_of (VErr l m cs) = VErr l m cs # errors_of_list cs"
| "errors_of_list [] = []"
| "errors_of_list (c # cs) = errors_of c @ errors_of_list cs"

lemma causeAt_finds:
  "causeAt location e = find (\<lambda>c. InstanceLocation c = location) (errors_of e)"
  "causesAt location cs = find (\<lambda>c. InstanceLocation c = location) (errors_of_list cs)"
proof (induction e and cs rule: errors_of_errors_of_list.induct)
  case (3 c cs)
  have "find P (xs @ ys) = (case find P xs of None \<Rightarrow> find P ys | Some x \<Rightarrow> Some x)" for P :: "validation_error \<Rightarrow> bool" and xs ys
    by (induction xs) auto
  with 3 show ?case by (auto split: option.splits)
qed auto

definition leaves :: "validation_error \<Rightarrow> validation_error set" where
  "leaves e = {c \<in> set (errors_of e). Causes c = []}"

definition leaves_list :: "validation_error list \<Rightarrow> validation_error set" where
  "leaves_list cs = {c \<in> set (errors_of_list cs). Causes c = []}"

lemma leaves_simps:
  "leaves (VErr l m []) = {VErr l m []}"
  "leaves (VErr l m (c # cs)) = leaves c \<union> leaves_list cs"
  "leaves_list [] = {}" "leaves_list (c # cs) = leaves c \<union> leaves_list cs"
  by (auto simp: leaves_def leaves_list_def)

text \<open>\<open>deepestCause\<close> picks a deepest leaf.\<close>

lemma deepest_facts:
  "deepestCause e \<in> leaves e \<and> (\<forall>c \<in> leaves e. depth_of c \<le> depth_of (deepestCause e))"
  "\<forall>d. deepest = Some d \<longrightarrow> (\<exists>d'. deepest_of deepest cs = Some d' \<and> (d' = d \<or> d' \<in> leaves_list cs)
     \<and> depth_of d \<le> depth_of d' \<and> (\<forall>c \<in> leaves_list cs. depth_of c \<le> depth_of d'))"
proof (induction e and deepest cs rule: deepestCause_deepest_of.induct)
  case (2 l m c cs)
  then obtain d' where "deepest_of (Some (deepestCause c)) cs = Some d'"
      "d' = deepestCause c \<or> d' \<in> leaves_list cs" "depth_of (deepestCause c) \<le> depth_of d'"
      "\<forall>c \<in> leaves_list cs. depth_of c \<le> depth_of d'" by blast
  with 2 show ?case by (auto simp: leaves_simps intro: order_trans)
next
  case (4 deepest c cs)
  show ?case
  proof (intro allI impI)
    fix d assume d: "deepest = Some d"
    let ?e = "if depth_of d < depth_of (deepestCause c) then deepestCause c else d"
    have "deepest_of deepest (c # cs) = deepest_of (Some ?e) cs" using d by (simp add: Let_def)
    moreover obtain d' where "deepest_of (Some ?e) cs = Some d'" "d' = ?e \<or> d' \<in> leaves_list cs"
        "depth_of ?e \<le> depth_of d'" "\<forall>c \<in> leaves_list cs. depth_of c \<le> depth_of d'"
      using 4(2) [OF refl] d by (auto split: if_splits)
    moreover have "depth_of d \<le> depth_of ?e" "depth_of (deepestCause c) \<le> depth_of ?e" by auto
    ultimately show "\<exists>d'. deepest_of deepest (c # cs) = Some d' \<and> (d' = d \<or> d' \<in> leaves_list (c # cs))
        \<and> depth_of d \<le> depth_of d' \<and> (\<forall>c \<in> leaves_list (c # cs). depth_of c \<le> depth_of d')"
      using 4(1) by (intro exI [of _ d']) (auto simp: leaves_simps intro: order_trans split: if_splits)
  qed
qed (auto simp: leaves_simps)

section \<open>Properties\<close>

text \<open>A definition the schema rejects is reported as an invalid name exactly if some error in the
  tree of causes is at the name, and as an invalid topology otherwise; the message is that of a
  deepest cause below the reported error.\<close>

theorem invalid_definition_reported:
  assumes "yaml_Unmarshal P data = Inr node" and "Decode_raw P node = Inr raw"
    and "clabSchema_Validate P raw = Invalid err"
  shows "\<exists>e cause. schema_Parse P data = Inl (Wrap (Sentinel e) (if pointerToPath (InstanceLocation cause) \<noteq> []
        then pointerToPath (InstanceLocation cause) @ '': '' @ Message cause else Message cause))
    \<and> (e = ErrInvalidTopologyName \<longleftrightarrow> (\<exists>c \<in> set (errors_of err). InstanceLocation c = ''/name''))
    \<and> (e = ErrInvalidTopologyName \<or> e = ErrInvalidTopology)
    \<and> Causes cause = []
    \<and> (e = ErrInvalidTopology \<longrightarrow> cause \<in> leaves err \<and> (\<forall>c \<in> leaves err. depth_of c \<le> depth_of cause))"
proof (cases "causeAt ''/name'' err")
  case None
  then have "\<forall>c \<in> set (errors_of err). InstanceLocation c \<noteq> ''/name''"
    by (auto simp: causeAt_finds find_None_iff)
  with None assms deepest_facts(1) [of err] show ?thesis
    by (intro exI [of _ ErrInvalidTopology] exI [of _ "deepestCause err"])
       (auto simp: schema_Parse_def describeValidationError_def Let_def leaves_def)
next
  case (Some n)
  then have "\<exists>c \<in> set (errors_of err). InstanceLocation c = ''/name''"
    by (auto simp: causeAt_finds find_Some_iff)
  with Some assms deepest_facts(1) [of n] show ?thesis
    by (intro exI [of _ ErrInvalidTopologyName] exI [of _ "deepestCause n"])
       (auto simp: schema_Parse_def describeValidationError_def Let_def leaves_def)
qed

definition demo_error :: validation_error where
  "demo_error = VErr [] ''doesn't validate'' [VErr ''/topology/nodes/r1'' ''expected null'' [],
     VErr ''/topology/nodes/r1/binds/0'' ''expected string'' []]"

definition demo_parsers :: "unit parsers" where
  "demo_parsers = \<lparr>yaml_Unmarshal = (\<lambda>_. Inr ()), Decode_raw = (\<lambda>_. Inr None),
     Decode_definition = (\<lambda>_. Inl (Foreign [])), clabSchema_Validate = (\<lambda>_. Invalid demo_error),
     json_Unmarshal = (\<lambda>_. Inr None), annotationsSchema_Validate = (\<lambda>_. None)\<rparr>"

theorem invalid_definition_reported_witness:
  "schema_Parse demo_parsers ''x''
     = Inl (Wrap (Sentinel ErrInvalidTopology) ''topology.nodes.r1.binds[0]: expected string'')"
proof -
  have p: "yaml_Unmarshal demo_parsers ''x'' = Inr ()" "Decode_raw demo_parsers () = Inr None"
      "clabSchema_Validate demo_parsers None = Invalid demo_error"
    by (simp_all add: demo_parsers_def)
  obtain e cause where r: "schema_Parse demo_parsers ''x'' = Inl (Wrap (Sentinel e)
      (if pointerToPath (InstanceLocation cause) \<noteq> []
       then pointerToPath (InstanceLocation cause) @ '': '' @ Message cause else Message cause))"
      "e = ErrInvalidTopologyName \<or> e = ErrInvalidTopology"
      "e = ErrInvalidTopologyName \<longleftrightarrow> (\<exists>c \<in> set (errors_of demo_error). InstanceLocation c = ''/name'')"
      "e = ErrInvalidTopology \<longrightarrow> cause \<in> leaves demo_error
         \<and> (\<forall>c \<in> leaves demo_error. depth_of c \<le> depth_of cause)"
    using invalid_definition_reported [OF p] by blast
  have e: "e = ErrInvalidTopology" using r(2,3) by (auto simp: demo_error_def)
  with r(4) have "cause = VErr ''/topology/nodes/r1/binds/0'' ''expected string'' []"
    by (auto simp: demo_error_def leaves_simps depth_of_def)
  with r(1) e show ?thesis
    by (simp add: pointerToPath_def TrimPrefix_def HasPrefix_def unescape_token_def Atoi_ok_def is_digit_def
        digits_value_def Let_def)
qed

end
