(* ===== verification/Yaml_Nodes.thy ===== *)
theory Yaml_Nodes
  imports Errors Prelude
begin

text \<open>
  Editing YAML documents (\<open>src/utils/yaml.go\<close>) and \<open>renameDefinition\<close> of \<open>src/domain/lab/service.go\<close>.

  The code changes the nodes of a \<open>yaml.v3\<close> document in place and follows pointers between them, so
  the nodes live in a store from addresses to nodes. The recursions follow the content of a node and
  end because a decoded document is a tree; here they have a fuel, and the number of nodes in the
  store is enough for a tree. Decoding and encoding are third-party functions.
\<close>

datatype node_kind = DocumentNode | SequenceNode | MappingNode | ScalarNode | AliasNode

datatype style = PlainStyle | DoubleQuotedStyle | OtherStyle nat

record ynode =
  Kind :: node_kind
  Tag :: string
  Value :: string
  Style :: style
  Anchor :: string
  Content :: "nat list"
  Alias :: "nat option"

record ystore =
  ynodes :: "nat \<Rightarrow> ynode"
  ynext :: nat

definition set_node :: "nat \<Rightarrow> ynode \<Rightarrow> ystore \<Rightarrow> ystore" where
  "set_node i n st = st\<lparr>ynodes := (ynodes st)(i := n)\<rparr>"

definition new_node :: "ynode \<Rightarrow> ystore \<Rightarrow> nat \<times> ystore" where
  "new_node n st = (ynext st, st\<lparr>ynodes := (ynodes st)(ynext st := n), ynext := ynext st + 1\<rparr>)"

definition stringStyle :: "string \<Rightarrow> style \<Rightarrow> style" where
  "stringStyle value style =
     (if list_ex (\<lambda>c. c = CHR 0x0D \<or> c = CHR 0x0A) value then DoubleQuotedStyle else style)"

fun find_value :: "(nat \<Rightarrow> ynode) \<Rightarrow> string \<Rightarrow> nat list \<Rightarrow> nat option" where
  "find_value f key (k # v # rest) = (if Value (f k) = key then Some v else find_value f key rest)"
| "find_value f key _ = None"

definition MappingValue :: "nat \<Rightarrow> string \<Rightarrow> ystore \<Rightarrow> nat option" where
  "MappingValue m key st = find_value (ynodes st) key (Content (ynodes st m))"

definition scalar_node :: "string \<Rightarrow> style \<Rightarrow> ynode" where
  "scalar_node v s = \<lparr>Kind = ScalarNode, Tag = ''!!str'', Value = v, Style = s, Anchor = [],
     Content = [], Alias = None\<rparr>"

definition SetMappingValue :: "nat \<Rightarrow> string \<Rightarrow> string \<Rightarrow> ystore \<Rightarrow> ystore" where
  "SetMappingValue m key value st =
     (case MappingValue m key st of
        Some v \<Rightarrow>
          (let n = ynodes st v;
               style = (if Kind n = ScalarNode then Style n else PlainStyle)
           in set_node v (n\<lparr>Kind := ScalarNode, Tag := ''!!str'', Value := value,
                            Style := stringStyle value style, Content := [], Alias := None\<rparr>) st)
      | None \<Rightarrow>
          (let (k, st) = new_node (scalar_node key PlainStyle) st;
               (v, st) = new_node (scalar_node value (stringStyle value PlainStyle)) st;
               n = ynodes st m
           in set_node m (n\<lparr>Content := Content n @ [k, v]\<rparr>) st))"

fun DetachAliases :: "nat \<Rightarrow> nat \<Rightarrow> nat \<Rightarrow> ystore \<Rightarrow> ystore" where
  "DetachAliases 0 document target st = st"
| "DetachAliases (Suc fuel) document target st =
     fold (\<lambda>(index, child) st.
       if Kind (ynodes st child) = AliasNode \<and> Alias (ynodes st child) = Some target
       then (let (d, st) = new_node ((ynodes st target)\<lparr>Anchor := []\<rparr>) st;
                 n = ynodes st document
             in set_node document (n\<lparr>Content := (Content n)[index := d]\<rparr>) st)
       else DetachAliases fuel child target st)
     (enumerate 0 (Content (ynodes st document))) st"

definition clear_tag :: "nat \<Rightarrow> ystore \<Rightarrow> ystore" where
  "clear_tag key st =
     (let n = ynodes st key in if Tag n = ''!!merge'' then set_node key (n\<lparr>Tag := []\<rparr>) st else st)"

fun keys_of :: "nat list \<Rightarrow> nat list" where
  "keys_of (k # v # rest) = k # keys_of rest"
| "keys_of [k] = [k]"
| "keys_of [] = []"

fun clearMergeTags :: "nat \<Rightarrow> nat \<Rightarrow> ystore \<Rightarrow> ystore" where
  "clearMergeTags 0 node st = st"
| "clearMergeTags (Suc fuel) node st =
     (let st = (if Kind (ynodes st node) = MappingNode
                then fold clear_tag (keys_of (Content (ynodes st node))) st else st)
      in fold (clearMergeTags fuel) (Content (ynodes st node)) st)"

definition EncodeYaml :: "(nat \<Rightarrow> ystore \<Rightarrow> string result) \<Rightarrow> nat \<Rightarrow> ystore \<Rightarrow> string result" where
  "EncodeYaml encode document st = encode document (clearMergeTags (ynext st) document st)"

text \<open>The document with another name, before it is encoded.\<close>

definition rename_document :: "nat \<Rightarrow> string \<Rightarrow> ystore \<Rightarrow> ystore" where
  "rename_document document name st =
     (let root = Content (ynodes st document) ! 0;
          st = (case MappingValue root ''name'' st of
                  Some nameNode \<Rightarrow>
                    if Anchor (ynodes st nameNode) \<noteq> []
                    then (let st = DetachAliases (ynext st) document nameNode st
                          in set_node nameNode ((ynodes st nameNode)\<lparr>Anchor := []\<rparr>) st)
                    else st
                | None \<Rightarrow> st)
      in SetMappingValue root ''name'' name st)"

definition renameDefinition ::
  "(string \<Rightarrow> (nat \<times> ystore) result) \<Rightarrow> (nat \<Rightarrow> ystore \<Rightarrow> string result) \<Rightarrow> string \<Rightarrow> string \<Rightarrow> string result" where
  "renameDefinition unmarshal encode def_text name =
     (case unmarshal def_text of
        Inl err \<Rightarrow> Inl err
      | Inr (document, st) \<Rightarrow>
          (if Content (ynodes st document) = []
              \<or> Kind (ynodes st (Content (ynodes st document) ! 0)) \<noteq> MappingNode
           then Inl (Sentinel ErrInvalidTopology)
           else EncodeYaml encode document (rename_document document name st)))"

section \<open>What detaching aliases changes\<close>

text \<open>
  Nodes of the store keep everything but their content, in which an alias of the target may have
  been replaced by a copy of the target without its anchor.
\<close>

definition replaces :: "nat \<Rightarrow> ystore \<Rightarrow> ystore \<Rightarrow> nat \<Rightarrow> nat \<Rightarrow> bool" where
  "replaces target st st' c c' \<longleftrightarrow>
     c' = c \<or> (Kind (ynodes st c) = AliasNode \<and> Alias (ynodes st c) = Some target
               \<and> ynext st \<le> c' \<and> ynodes st' c' = (ynodes st target)\<lparr>Anchor := []\<rparr>)"

definition detached :: "nat \<Rightarrow> ystore \<Rightarrow> ystore \<Rightarrow> bool" where
  "detached target st st' \<longleftrightarrow>
     ynext st \<le> ynext st'
     \<and> (\<forall>i < ynext st.
          ynodes st' i = (ynodes st i)\<lparr>Content := Content (ynodes st' i)\<rparr>
          \<and> list_all2 (replaces target st st') (Content (ynodes st i)) (Content (ynodes st' i)))"

text \<open>All content is in the store, and the target is a scalar.\<close>

definition closed_store :: "ystore \<Rightarrow> bool" where
  "closed_store st \<longleftrightarrow> (\<forall>i < ynext st. \<forall>c \<in> set (Content (ynodes st i)). c < ynext st)"

definition scalar_at :: "nat \<Rightarrow> ystore \<Rightarrow> bool" where
  "scalar_at t st \<longleftrightarrow> t < ynext st \<and> Kind (ynodes st t) = ScalarNode \<and> Content (ynodes st t) = []"

lemma replaces_refl [simp]: "replaces t st st' c c"
  by (simp add: replaces_def)

lemma detached_refl [simp]: "detached t st st"
  by (simp add: detached_def list_all2_refl)

lemma detached_node:
  "detached t st st' \<Longrightarrow> i < ynext st \<Longrightarrow> ynodes st' i = (ynodes st i)\<lparr>Content := Content (ynodes st' i)\<rparr>"
  by (simp add: detached_def)

lemma detached_next: "detached t st st' \<Longrightarrow> ynext st \<le> ynext st'"
  by (simp add: detached_def)

lemma ynode_eqI:
  "x = y\<lparr>Content := c\<rparr> \<Longrightarrow> Kind x = Kind y \<and> Tag x = Tag y \<and> Value x = Value y \<and> Style x = Style y
     \<and> Anchor x = Anchor y \<and> Alias x = Alias y"
  by (erule ssubst) simp

lemma detached_scalar:
  assumes "detached t st st'" and "scalar_at t st"
  shows "ynodes st' t = ynodes st t"
proof -
  have "t < ynext st" and c: "Content (ynodes st t) = []"
    using assms(2) by (simp_all add: scalar_at_def)
  then have n: "ynodes st' t = (ynodes st t)\<lparr>Content := Content (ynodes st' t)\<rparr>"
    and "list_all2 (replaces t st st') [] (Content (ynodes st' t))"
    using assms(1) by (auto simp: detached_def)
  then have "Content (ynodes st' t) = Content (ynodes st t)" using c by simp
  with n show ?thesis by simp
qed

lemma detached_scalar_at: "detached t st st' \<Longrightarrow> scalar_at t st \<Longrightarrow> scalar_at t st'"
  by (metis detached_scalar detached_next scalar_at_def order_less_le_trans)

lemma replaces_trans:
  assumes d1: "detached t st st1" and d2: "detached t st1 st2" and sc: "scalar_at t st"
    and c: "c < ynext st" and c1: "c1 < ynext st1"
    and r1: "replaces t st st1 c c1" and r2: "replaces t st1 st2 c1 c2"
  shows "replaces t st st2 c c2"
proof (cases "c1 = c")
  case True
  have k: "Kind (ynodes st1 c) = Kind (ynodes st c)" "Alias (ynodes st1 c) = Alias (ynodes st c)"
    using ynode_eqI [OF detached_node [OF d1 c]] by simp_all
  have "ynext st \<le> ynext st1" using d1 by (simp add: detached_def)
  with True r2 k detached_scalar [OF d1 sc] show ?thesis
    by (auto simp: replaces_def)
next
  case False
  then have copy: "Kind (ynodes st c) = AliasNode" "Alias (ynodes st c) = Some t" "ynext st \<le> c1"
      "ynodes st1 c1 = (ynodes st t)\<lparr>Anchor := []\<rparr>"
    using r1 by (auto simp: replaces_def)
  then have scalar: "Kind (ynodes st1 c1) = ScalarNode" "Content (ynodes st1 c1) = []"
    using sc by (simp_all add: scalar_at_def)
  then have "c2 = c1" using r2 by (auto simp: replaces_def)
  have "list_all2 (replaces t st1 st2) [] (Content (ynodes st2 c1))"
      and n: "ynodes st2 c1 = (ynodes st1 c1)\<lparr>Content := Content (ynodes st2 c1)\<rparr>"
    using d2 c1 scalar(2) by (auto simp: detached_def)
  then have "ynodes st2 c1 = ynodes st1 c1" using scalar(2) by simp
  with copy \<open>c2 = c1\<close> show ?thesis by (simp add: replaces_def)
qed

lemma detached_trans:
  assumes d1: "detached t st st1" and d2: "detached t st1 st2" and sc: "scalar_at t st"
    and cl: "closed_store st" and cl1: "closed_store st1"
  shows "detached t st st2"
  unfolding detached_def
proof (intro conjI allI impI)
  show "ynext st \<le> ynext st2" using d1 d2 by (simp add: detached_def)
next
  fix i assume i: "i < ynext st"
  then have i1: "i < ynext st1" using d1 by (simp add: detached_def)
  have "ynodes st1 i = (ynodes st i)\<lparr>Content := Content (ynodes st1 i)\<rparr>"
    and "ynodes st2 i = (ynodes st1 i)\<lparr>Content := Content (ynodes st2 i)\<rparr>"
    using detached_node [OF d1 i] detached_node [OF d2 i1] by blast+
  then show "ynodes st2 i = (ynodes st i)\<lparr>Content := Content (ynodes st2 i)\<rparr>"
    by (metis ynode.update_convs(6) ynode.surjective)
  have l1: "list_all2 (replaces t st st1) (Content (ynodes st i)) (Content (ynodes st1 i))"
    and l2: "list_all2 (replaces t st1 st2) (Content (ynodes st1 i)) (Content (ynodes st2 i))"
    using d1 d2 i i1 by (simp_all add: detached_def)
  show "list_all2 (replaces t st st2) (Content (ynodes st i)) (Content (ynodes st2 i))"
    unfolding list_all2_conv_all_nth
  proof (intro conjI allI impI)
    show "length (Content (ynodes st i)) = length (Content (ynodes st2 i))"
      using l1 l2 by (simp add: list_all2_lengthD)
  next
    fix j assume j: "j < length (Content (ynodes st i))"
    then have "j < length (Content (ynodes st1 i))" using l1 by (simp add: list_all2_lengthD)
    moreover have "Content (ynodes st i) ! j < ynext st" "Content (ynodes st1 i) ! j < ynext st1"
      using cl cl1 i i1 j calculation by (auto simp: closed_store_def)
    ultimately show "replaces t st st2 (Content (ynodes st i) ! j) (Content (ynodes st2 i) ! j)"
      using replaces_trans [OF d1 d2 sc] l1 l2 j by (auto simp: list_all2_conv_all_nth)
  qed
qed

text \<open>One replacement, in a document some aliases of which were replaced already.\<close>

lemma detach_one:
  assumes det: "detached t st s" and cl: "closed_store s" and sc: "scalar_at t st" and d: "document < ynext st"
    and c: "index < length (Content (ynodes st document))" "Content (ynodes st document) ! index = child"
    and al: "Kind (ynodes st child) = AliasNode" "Alias (ynodes st child) = Some t"
    and new: "new_node ((ynodes s t)\<lparr>Anchor := []\<rparr>) s = (k, s1)"
    and s2: "s2 = set_node document ((ynodes s1 document)\<lparr>Content := (Content (ynodes s1 document))[index := k]\<rparr>) s1"
  shows "closed_store s2" and "detached t st s2"
proof -
  have ds: "document < ynext s" using d detached_next [OF det] by simp
  have k: "k = ynext s" "ynext s2 = Suc (ynext s)" and "document \<noteq> k"
    and nodes: "ynodes s2 = (ynodes s)(k := (ynodes s t)\<lparr>Anchor := []\<rparr>,
      document := (ynodes s document)\<lparr>Content := (Content (ynodes s document))[index := k]\<rparr>)"
    using new s2 ds by (auto simp: new_node_def set_node_def)
  have kids: "\<forall>x \<in> set (Content (ynodes s i)). x < ynext s" if "i < ynext s" for i
    using cl that by (simp add: closed_store_def)
  have "scalar_at t s" by (rule detached_scalar_at [OF det sc])
  then have empty: "Content (ynodes s t) = []" by (simp add: scalar_at_def)
  show "closed_store s2"
    unfolding closed_store_def
  proof (intro allI impI ballI)
    fix i x assume i: "i < ynext s2" and x: "x \<in> set (Content (ynodes s2 i))"
    show "x < ynext s2"
    proof (cases "i = document")
      case True
      then have "x \<in> insert k (set (Content (ynodes s document)))"
        using x nodes set_update_subset_insert by fastforce
      with kids [OF ds] k show ?thesis by auto
    next
      case False
      with x nodes empty kids [of i] i k show ?thesis
        by (cases "i = k") (auto simp: less_Suc_eq)
    qed
  qed
  have copy: "ynodes s2 k = (ynodes st t)\<lparr>Anchor := []\<rparr>"
    using nodes \<open>document \<noteq> k\<close> detached_scalar [OF det sc] by simp
  have keep: "replaces t st s2 a b" if "replaces t st s a b" "b < ynext s" for a b
    using that nodes k d by (auto simp: replaces_def)
  show "detached t st s2"
    unfolding detached_def
  proof (intro conjI allI impI)
    show "ynext st \<le> ynext s2" using k detached_next [OF det] by simp
  next
    fix i assume i: "i < ynext st"
    then have i_s: "i < ynext s" using detached_next [OF det] by simp
    have node: "ynodes s i = (ynodes st i)\<lparr>Content := Content (ynodes s i)\<rparr>"
      and l: "list_all2 (replaces t st s) (Content (ynodes st i)) (Content (ynodes s i))"
      using det i by (simp_all only: detached_def)
    have "ynodes s2 i = (ynodes s i)\<lparr>Content := Content (ynodes s2 i)\<rparr>"
      using nodes k i_s by auto
    with node show "ynodes s2 i = (ynodes st i)\<lparr>Content := Content (ynodes s2 i)\<rparr>"
      by (metis ynode.update_convs(6) ynode.surjective)
    have all: "list_all2 (replaces t st s2) (Content (ynodes st i)) (Content (ynodes s i))"
      unfolding list_all2_conv_all_nth
    proof (intro conjI allI impI)
      show "length (Content (ynodes st i)) = length (Content (ynodes s i))"
        using l by (rule list_all2_lengthD)
      fix j assume j: "j < length (Content (ynodes st i))"
      then have "Content (ynodes s i) ! j < ynext s"
        using kids [OF i_s] list_all2_lengthD [OF l] by simp
      with keep list_all2_nthD [OF l j]
      show "replaces t st s2 (Content (ynodes st i) ! j) (Content (ynodes s i) ! j)" by blast
    qed
    show "list_all2 (replaces t st s2) (Content (ynodes st i)) (Content (ynodes s2 i))"
    proof (cases "i = document")
      case True
      have "replaces t st s2 child k"
        using al copy k detached_next [OF det] by (simp add: replaces_def)
      then have "list_all2 (replaces t st s2) ((Content (ynodes st document))[index := child])
          ((Content (ynodes s document))[index := k])"
        using all True by (intro list_all2_update_cong) auto
      moreover have "(Content (ynodes st document))[index := child] = Content (ynodes st document)"
        using c by (metis list_update_id)
      ultimately show ?thesis using True nodes by simp
    next
      case False
      then have "ynodes s2 i = ynodes s i" using nodes k i_s by simp
      with all show ?thesis by simp
    qed
  qed
qed

lemma DetachAliases_detached:
  assumes "closed_store st" and "document < ynext st" and "scalar_at t st"
  shows "closed_store (DetachAliases fuel document t st) \<and> detached t st (DetachAliases fuel document t st)"
  using assms
proof (induction fuel arbitrary: document st)
  case 0
  then show ?case by simp
next
  case (Suc fuel)
  let ?kids = "Content (ynodes st document)"
  let ?f = "\<lambda>(index, child) st.
       if Kind (ynodes st child) = AliasNode \<and> Alias (ynodes st child) = Some t
       then (let (d, st) = new_node ((ynodes st t)\<lparr>Anchor := []\<rparr>) st;
                 n = ynodes st document
             in set_node document (n\<lparr>Content := (Content n)[index := d]\<rparr>) st)
       else DetachAliases fuel child t st"
  have loop: "closed_store (fold ?f ps s) \<and> detached t st (fold ?f ps s)"
    if "\<forall>(index, child) \<in> set ps. index < length ?kids \<and> ?kids ! index = child"
      "closed_store s" "detached t st s" for ps s
    using that
  proof (induction ps arbitrary: s)
    case Nil
    then show ?case by simp
  next
    case (Cons p ps)
    obtain index child where p: "p = (index, child)" by force
    then have at: "index < length ?kids" "?kids ! index = child" using Cons.prems(1) by auto
    have child: "child < ynext st" using Suc.prems(1,2) at by (auto simp: closed_store_def)
    then have child_s: "child < ynext s" using detached_next [OF Cons.prems(3)] by simp
    have sc: "scalar_at t s" by (rule detached_scalar_at [OF Cons.prems(3) Suc.prems(3)])
    have same: "Kind (ynodes s child) = Kind (ynodes st child)" "Alias (ynodes s child) = Alias (ynodes st child)"
      using ynode_eqI [OF detached_node [OF Cons.prems(3) child]] by simp_all
    have "closed_store (?f p s) \<and> detached t st (?f p s)"
    proof (cases "Kind (ynodes s child) = AliasNode \<and> Alias (ynodes s child) = Some t")
      case True
      obtain k s1 where new: "new_node ((ynodes s t)\<lparr>Anchor := []\<rparr>) s = (k, s1)" by fastforce
      from detach_one [OF Cons.prems(3,2) Suc.prems(3,2) at _ _ new refl] True same new p
      show ?thesis by (simp add: Let_def)
    next
      case False
      note ih = Suc.IH [OF Cons.prems(2) child_s sc]
      have "detached t st (DetachAliases fuel child t s)"
        using detached_trans [OF Cons.prems(3) _ Suc.prems(3,1) Cons.prems(2)] ih by blast
      with ih False p show ?thesis by auto
    qed
    with Cons.IH [of "?f p s"] Cons.prems(1) show ?case by simp
  qed
  have "\<forall>(index, child) \<in> set (enumerate 0 ?kids). index < length ?kids \<and> ?kids ! index = child"
    by (auto simp: in_set_enumerate_eq)
  from loop [OF this Suc.prems(1)] show ?case by simp
qed

section \<open>What renaming changes\<close>

lemma find_value_rel:
  "find_value f key xs = Some v \<Longrightarrow> list_all2 R xs ys \<Longrightarrow>
    (\<forall>k \<in> set (keys_of xs). \<forall>y. R k y \<longrightarrow> Value (g y) = Value (f k)) \<Longrightarrow>
    \<exists>v'. find_value g key ys = Some v' \<and> R v v'"
  by (induction f key xs arbitrary: ys rule: find_value.induct)
     (auto simp: list_all2_Cons1 split: if_splits)

lemma find_value_mem: "find_value f key xs = Some v \<Longrightarrow> v \<in> set xs"
  by (induction f key xs rule: find_value.induct) (auto split: if_splits)

lemma find_value_not_key: "find_value f key xs = Some v \<Longrightarrow> distinct xs \<Longrightarrow> v \<notin> set (keys_of xs)"
proof (induction f key xs rule: find_value.induct)
  case (1 f key k v' rest)
  have "set (keys_of rest) \<subseteq> set rest" by (induction rest rule: keys_of.induct) auto
  with 1 find_value_mem [of f key rest v] show ?case by (auto split: if_splits)
qed auto

lemma keys_of_subset: "set (keys_of xs) \<subseteq> set xs"
  by (induction xs rule: keys_of.induct) auto

lemma keys_of_rel:
  "list_all2 R xs ys \<Longrightarrow> y \<in> set (keys_of ys) \<Longrightarrow> \<exists>k \<in> set (keys_of xs). R k y"
proof (induction ys arbitrary: xs rule: keys_of.induct)
  case (1 k v rest)
  then obtain k' v' rest' where "xs = k' # v' # rest'" "R k' k" "list_all2 R rest' rest"
    by (auto simp: list_all2_Cons2)
  with 1 show ?case by auto
qed (auto simp: list_all2_Cons2)

text \<open>What an entry of the document may become: itself, or the old name where it was an alias of it.\<close>

definition keeps_entry :: "nat \<Rightarrow> ystore \<Rightarrow> ystore \<Rightarrow> nat \<Rightarrow> nat \<Rightarrow> bool" where
  "keeps_entry nameNode st st' c c' \<longleftrightarrow>
     c' = c \<or> (Kind (ynodes st c) = AliasNode \<and> Alias (ynodes st c) = Some nameNode \<and> c' \<noteq> nameNode
               \<and> Kind (ynodes st' c') = ScalarNode \<and> Value (ynodes st' c') = Value (ynodes st nameNode)
               \<and> Anchor (ynodes st' c') = [])"

lemma SetMappingValue_Some:
  "MappingValue m key st = Some v \<Longrightarrow> Kind (ynodes st v) = ScalarNode \<Longrightarrow>
    SetMappingValue m key value st = set_node v ((ynodes st v)\<lparr>Kind := ScalarNode, Tag := ''!!str'',
      Value := value, Style := stringStyle value (Style (ynodes st v)), Content := [], Alias := None\<rparr>) st"
  by (simp add: SetMappingValue_def Let_def)

text \<open>The store before the name is set: the aliases are detached if the name has an anchor.\<close>

definition before_set :: "nat \<Rightarrow> nat \<Rightarrow> ystore \<Rightarrow> ystore" where
  "before_set document nameNode st =
     (if Anchor (ynodes st nameNode) \<noteq> []
      then (let st = DetachAliases (ynext st) document nameNode st
            in set_node nameNode ((ynodes st nameNode)\<lparr>Anchor := []\<rparr>) st)
      else st)"

lemma before_set_facts:
  assumes "closed_store st" and "document < ynext st" and "scalar_at n st"
  shows "Kind (ynodes (before_set document n st) n) = ScalarNode"
    and "i < ynext st \<Longrightarrow> i \<noteq> n \<Longrightarrow>
      ynodes (before_set document n st) i
        = (ynodes st i)\<lparr>Content := Content (ynodes (before_set document n st) i)\<rparr>
      \<and> list_all2 (keeps_entry n st (before_set document n st)) (Content (ynodes st i))
          (Content (ynodes (before_set document n st) i))"
proof -
  let ?s = "DetachAliases (ynext st) document n st"
  have d: "detached n st ?s" using DetachAliases_detached [OF assms] by blast
  have sc: "ynodes ?s n = ynodes st n" by (rule detached_scalar [OF d assms(3)])
  have n: "n < ynext st" "Kind (ynodes st n) = ScalarNode" using assms(3) by (simp_all add: scalar_at_def)
  show "Kind (ynodes (before_set document n st) n) = ScalarNode"
    using sc n by (simp add: before_set_def set_node_def Let_def)
  assume i: "i < ynext st" "i \<noteq> n"
  show "ynodes (before_set document n st) i
        = (ynodes st i)\<lparr>Content := Content (ynodes (before_set document n st) i)\<rparr>
      \<and> list_all2 (keeps_entry n st (before_set document n st)) (Content (ynodes st i))
          (Content (ynodes (before_set document n st) i))"
  proof (cases "Anchor (ynodes st n) = []")
    case True
    then show ?thesis by (simp add: before_set_def list_all2_refl keeps_entry_def)
  next
    case False
    then have b: "before_set document n st = set_node n ((ynodes ?s n)\<lparr>Anchor := []\<rparr>) ?s"
      by (simp add: before_set_def Let_def)
    have node: "ynodes (before_set document n st) i = ynodes ?s i"
      using b i by (simp add: set_node_def)
    have "keeps_entry n st (before_set document n st) c c'" if "replaces n st ?s c c'" for c c'
      using that n sc unfolding b by (auto simp: replaces_def keeps_entry_def set_node_def)
    moreover have "list_all2 (replaces n st ?s) (Content (ynodes st i)) (Content (ynodes ?s i))"
      using d i by (simp only: detached_def)
    ultimately show ?thesis
      using detached_node [OF d i(1)] unfolding node by (blast intro: list_all2_mono)
  qed
qed

section \<open>Properties\<close>

text \<open>Renaming a definition sets its name and changes nothing else: every other node keeps its
  kind, tag, value, style and anchor, and the entries of every collection stay in place, except
  that an alias of the name becomes a copy of the old name.\<close>

theorem rename_changes_only_the_name:
  assumes "closed_store st" and "document < ynext st" and "Content (ynodes st document) ! 0 = root"
    and "root < ynext st" and "MappingValue root ''name'' st = Some n" and "scalar_at n st"
    and "root \<noteq> n" and "distinct (Content (ynodes st root))"
    and "\<forall>k \<in> set (keys_of (Content (ynodes st root))). Kind (ynodes st k) \<noteq> AliasNode"
  shows "MappingValue root ''name'' (rename_document document name st) = Some n
    \<and> Value (ynodes (rename_document document name st) n) = name
    \<and> (\<forall>i < ynext st. i \<noteq> n \<longrightarrow>
         ynodes (rename_document document name st) i
           = (ynodes st i)\<lparr>Content := Content (ynodes (rename_document document name st) i)\<rparr>
         \<and> list_all2 (keeps_entry n st (rename_document document name st)) (Content (ynodes st i))
             (Content (ynodes (rename_document document name st) i)))"
proof -
  let ?b = "before_set document n st"
  let ?r = "rename_document document name st"
  note b = before_set_facts [OF assms(1,2,6)]
  have r0: "?r = SetMappingValue root ''name'' name ?b"
    using assms(3,5) by (simp add: rename_document_def before_set_def Let_def)
  have keys: "\<forall>k \<in> set (keys_of (Content (ynodes st root))). \<forall>y. keeps_entry n st ?b k y \<longrightarrow>
      Value (ynodes ?b y) = Value (ynodes st k)"
  proof (intro ballI allI impI)
    fix k y assume k: "k \<in> set (keys_of (Content (ynodes st root)))" and "keeps_entry n st ?b k y"
    then have "y = k" using assms(9) by (auto simp: keeps_entry_def)
    moreover have "k < ynext st"
      using k keys_of_subset assms(1,4) by (fastforce simp: closed_store_def)
    moreover have "k \<noteq> n"
      using k find_value_not_key assms(5,8) by (auto simp: MappingValue_def)
    ultimately show "Value (ynodes ?b y) = Value (ynodes st k)"
      using ynode_eqI b(2) by blast
  qed
  have entries: "list_all2 (keeps_entry n st ?b) (Content (ynodes st root)) (Content (ynodes ?b root))"
    using b(2) assms(4,7) by blast
  obtain v' where v': "find_value (ynodes ?b) ''name'' (Content (ynodes ?b root)) = Some v'" "keeps_entry n st ?b n v'"
    using find_value_rel [OF _ entries keys] assms(5) unfolding MappingValue_def by blast
  moreover have "Kind (ynodes st n) = ScalarNode" using assms(6) by (simp add: scalar_at_def)
  ultimately have m: "MappingValue root ''name'' ?b = Some n"
    by (simp add: MappingValue_def keeps_entry_def)
  note r = r0 [unfolded SetMappingValue_Some [OF m b(1)]]
  have nodes: "ynodes ?r i = ynodes ?b i" if "i \<noteq> n" for i
    using that by (simp add: r set_node_def)
  have "MappingValue root ''name'' ?r = Some n"
  proof -
    have "y \<noteq> n" if y: "y \<in> set (keys_of (Content (ynodes ?b root)))" for y
    proof -
      obtain k where k: "k \<in> set (keys_of (Content (ynodes st root)))" "keeps_entry n st ?b k y"
        using keys_of_rel [OF entries y] by blast
      then have "y = k" using assms(9) by (auto simp: keeps_entry_def)
      then show ?thesis using k(1) find_value_not_key assms(5,8) by (auto simp: MappingValue_def)
    qed
    then have "\<forall>k \<in> set (keys_of (Content (ynodes ?b root))). \<forall>y. k = y \<longrightarrow>
        Value (ynodes ?r y) = Value (ynodes ?b k)"
      using nodes by simp
    from find_value_rel [OF m [unfolded MappingValue_def] list_all2_refl this]
    show ?thesis using nodes [OF assms(7)] by (simp add: MappingValue_def)
  qed
  moreover have "Value (ynodes ?r n) = name"
    by (simp add: r set_node_def)
  moreover have "ynodes ?r i = (ynodes st i)\<lparr>Content := Content (ynodes ?r i)\<rparr>
      \<and> list_all2 (keeps_entry n st ?r) (Content (ynodes st i)) (Content (ynodes ?r i))"
    if "i < ynext st" "i \<noteq> n" for i
  proof -
    have "keeps_entry n st ?r c c'" if "keeps_entry n st ?b c c'" for c c'
      using that nodes [of c'] by (auto simp: keeps_entry_def)
    with b(2) [OF that] show ?thesis
      unfolding nodes [OF that(2)] by (blast intro: list_all2_mono)
  qed
  ultimately show ?thesis by blast
qed

text \<open>The document \<open>name: &n lab\<close>, \<open>prefix: *n\<close>.\<close>

definition demo_store :: ystore where
  "demo_store = \<lparr>ynodes = (\<lambda>i. scalar_node [] PlainStyle)
     (0 := (scalar_node [] PlainStyle)\<lparr>Kind := DocumentNode, Content := [6]\<rparr>,
      6 := (scalar_node [] PlainStyle)\<lparr>Kind := MappingNode, Content := [2, 3, 4, 5]\<rparr>,
      2 := scalar_node ''name'' PlainStyle,
      3 := (scalar_node ''lab'' PlainStyle)\<lparr>Anchor := ''n''\<rparr>,
      4 := scalar_node ''prefix'' PlainStyle,
      5 := (scalar_node ''n'' PlainStyle)\<lparr>Kind := AliasNode, Alias := Some 3\<rparr>), ynext = 7\<rparr>"

lemma demo_store_facts:
  "closed_store demo_store" "scalar_at 3 demo_store" "MappingValue 6 ''name'' demo_store = Some 3"
  "Content (ynodes demo_store 0) = [6]" "Content (ynodes demo_store 6) = [2, 3, 4, 5]"
  "ynext demo_store = 7"
  by (auto simp: closed_store_def scalar_at_def MappingValue_def demo_store_def scalar_node_def
      split: if_splits)

theorem rename_changes_only_the_name_witness:
  "\<exists>c. Content (ynodes (rename_document 0 ''x'' demo_store) 6) ! 3 = c
    \<and> Value (ynodes (rename_document 0 ''x'' demo_store) 3) = ''x'' \<and> keeps_entry 3 demo_store
      (rename_document 0 ''x'' demo_store) 5 c"
proof -
  have "\<forall>k \<in> set (keys_of (Content (ynodes demo_store 6))). Kind (ynodes demo_store k) \<noteq> AliasNode"
    by (simp add: demo_store_def scalar_node_def)
  from rename_changes_only_the_name [OF demo_store_facts(1) _ _ _ demo_store_facts(3,2) _ _ this, of 0 "''x''"]
  have r: "Value (ynodes (rename_document 0 ''x'' demo_store) 3) = ''x''"
    "\<forall>i < 7. i \<noteq> 3 \<longrightarrow> list_all2 (keeps_entry 3 demo_store (rename_document 0 ''x'' demo_store))
      (Content (ynodes demo_store i)) (Content (ynodes (rename_document 0 ''x'' demo_store) i))"
    by (auto simp: demo_store_facts)
  have l: "list_all2 (keeps_entry 3 demo_store (rename_document 0 ''x'' demo_store)) [2, 3, 4, 5]
      (Content (ynodes (rename_document 0 ''x'' demo_store) 6))"
    using r(2) [rule_format, of 6] by (simp add: demo_store_facts)
  have "keeps_entry 3 demo_store (rename_document 0 ''x'' demo_store) ([2, 3, 4, 5] ! 3)
      (Content (ynodes (rename_document 0 ''x'' demo_store) 6) ! 3)"
    by (rule list_all2_nthD [OF l]) simp
  then show ?thesis using r(1) by simp
qed

end
