(* ===== verification/Messages.thy ===== *)
theory Messages
  imports Go_Strings
begin

text \<open>
  The log lines of \<open>src/utils/serverlog\<close> and the status messages of
  \<open>src/domain/statusmessage/entity.go\<close>. A time is shown by its clock in the local time zone, the only
  part \<open>time.TimeOnly\<close> prints. Line breaks and spaces are those of ASCII.
\<close>

section \<open>Levels and entries\<close>

datatype log_level = SuccessLevel | InfoLevel | WarningLevel | ErrorLevel | FatalLevel

fun log_level_String :: "log_level \<Rightarrow> string" where
  "log_level_String SuccessLevel = ''SUCCESS''"
| "log_level_String InfoLevel = ''INFO''"
| "log_level_String WarningLevel = ''WARNING''"
| "log_level_String ErrorLevel = ''ERROR''"
| "log_level_String FatalLevel = ''FATAL''"

record clock =
  Hour :: nat
  Minute :: nat
  Second :: nat

record log_entry =
  le_Level :: log_level
  le_Message :: string
  le_Time :: clock
  le_Source :: string

definition two_digits :: "nat \<Rightarrow> string" where
  "two_digits n = [char_of (48 + n div 10), char_of (48 + n mod 10)]"

definition TimeOnly :: "clock \<Rightarrow> string" where
  "TimeOnly t = two_digits (Hour t) @ '':'' @ two_digits (Minute t) @ '':'' @ two_digits (Second t)"

definition LogEntry_String :: "log_entry \<Rightarrow> string" where
  "LogEntry_String l =
     TimeOnly (le_Time l) @ '' '' @ log_level_String (le_Level l) @ '' '' @ le_Source l @ '' '' @ le_Message l"

section \<open>Escape sequences\<close>

text \<open>A match of \<open>\x1b\[[0-9;]*m\<close> at the start: what follows it.\<close>

definition is_ansi_param :: "char \<Rightarrow> bool" where
  "is_ansi_param c = (let n = of_char c :: nat in 48 \<le> n \<and> n \<le> 57 \<or> n = 59)"

definition after_ansi :: "string \<Rightarrow> string option" where
  "after_ansi s =
     (if take 2 s = [CHR 0x1B, CHR ''['']
      then (case dropWhile is_ansi_param (drop 2 s) of
              [] \<Rightarrow> None
            | c # rest \<Rightarrow> if c = CHR ''m'' then Some rest else None)
      else None)"

lemma after_ansi_shorter: "after_ansi s = Some rest \<Longrightarrow> length rest < length s"
proof -
  assume a: "after_ansi s = Some rest"
  then obtain c where d: "dropWhile is_ansi_param (drop 2 s) = c # rest"
    by (auto simp: after_ansi_def split: if_splits list.splits)
  have "length (dropWhile is_ansi_param (drop 2 s)) \<le> length (drop 2 s)"
    by (rule length_dropWhile_le)
  with d show ?thesis by simp
qed

function ReplaceAnsiCharacters :: "string \<Rightarrow> string" where
  "ReplaceAnsiCharacters s =
     (case after_ansi s of
        Some rest \<Rightarrow> ReplaceAnsiCharacters rest
      | None \<Rightarrow> (case s of [] \<Rightarrow> [] | c # s' \<Rightarrow> c # ReplaceAnsiCharacters s'))"
  by pat_completeness auto

termination
  by (relation "measure length") (auto dest: after_ansi_shorter)

declare ReplaceAnsiCharacters.simps [simp del]

lemma ReplaceAnsi_plain: "CHR 0x1B \<notin> set s \<Longrightarrow> ReplaceAnsiCharacters s = s"
proof (induction s)
  case Nil
  then show ?case by (simp add: ReplaceAnsiCharacters.simps [of "[]"] after_ansi_def)
next
  case (Cons c s)
  then have "after_ansi (c # s) = None" by (cases s) (auto simp: after_ansi_def)
  with Cons show ?case by (simp add: ReplaceAnsiCharacters.simps [of "c # s"])
qed

section \<open>Log lines of the server\<close>

text \<open>\<open>None\<close> is the panic on an empty list of parts.\<close>

fun format_pairs :: "string list \<Rightarrow> string" where
  "format_pairs [] = []"
| "format_pairs [k] = k"
| "format_pairs (k # v # parts) = k @ ''='' @ v @ '' '' @ format_pairs parts"

definition formatMessage :: "string list \<Rightarrow> string option" where
  "formatMessage messageParts =
     (case messageParts of [] \<Rightarrow> None | m # parts \<Rightarrow> Some (m @ '' '' @ format_pairs parts))"

definition CreateAntimonyLog :: "clock \<Rightarrow> log_level \<Rightarrow> string list \<Rightarrow> string option" where
  "CreateAntimonyLog now level messageParts =
     map_option (\<lambda>m. LogEntry_String \<lparr>le_Level = level, le_Message = m, le_Time = now, le_Source = ''SERV''\<rparr>)
       (formatMessage messageParts)"

definition CreateKubeLog :: "log_level \<Rightarrow> clock \<Rightarrow> string list \<Rightarrow> string option" where
  "CreateKubeLog level timestamp messageParts =
     map_option (\<lambda>m. LogEntry_String \<lparr>le_Level = level, le_Message = m, le_Time = timestamp, le_Source = ''KUBE''\<rparr>)
       (formatMessage messageParts)"

section \<open>Log lines of containerlab\<close>

text \<open>\<open>strings.SplitN(line, " ", 3)\<close>, of which only lists of three are used.\<close>

definition split3 :: "string \<Rightarrow> (string \<times> string \<times> string) option" where
  "split3 line =
     (case Cut CHR '' '' line of (a, rest, ok) \<Rightarrow>
        if \<not> ok then None
        else (case Cut CHR '' '' rest of (b, c, ok') \<Rightarrow> if ok' then Some (a, b, c) else None))"

text \<open>
  \<open>time.ParseInLocation("15:04:05", ...)\<close>: an hour of one or two digits, minutes and seconds of two,
  and a fraction of a second, which the layout need not name.
\<close>

definition digit_of :: "char \<Rightarrow> nat option" where
  "digit_of c = (let n = of_char c in if 48 \<le> n \<and> n \<le> 57 then Some (n - 48) else None)"

fun getnum :: "bool \<Rightarrow> string \<Rightarrow> (nat \<times> string) option" where
  "getnum fixed [] = None"
| "getnum fixed (c # s) =
     (case digit_of c of
        None \<Rightarrow> None
      | Some d \<Rightarrow>
          (case s of
             [] \<Rightarrow> if fixed then None else Some (d, s)
           | c' # s' \<Rightarrow>
               (case digit_of c' of
                  None \<Rightarrow> if fixed then None else Some (d, s)
                | Some d' \<Rightarrow> Some (10 * d + d', s'))))"

definition colon :: "string \<Rightarrow> string option" where
  "colon s = (case s of [] \<Rightarrow> None | c # s' \<Rightarrow> if c = CHR '':'' then Some s' else None)"

definition skip_fraction :: "string \<Rightarrow> string" where
  "skip_fraction s =
     (case s of
        c # d # s' \<Rightarrow> if c \<in> {CHR ''.'', CHR '',''} \<and> digit_of d \<noteq> None
                     then dropWhile (\<lambda>x. digit_of x \<noteq> None) s' else s
      | _ \<Rightarrow> s)"

definition parse_clock :: "string \<Rightarrow> clock option" where
  "parse_clock s =
     Option.bind (getnum False s) (\<lambda>(h, s). if 24 \<le> h then None else
     Option.bind (colon s) (\<lambda>s.
     Option.bind (getnum True s) (\<lambda>(m, s). if 60 \<le> m then None else
     Option.bind (colon s) (\<lambda>s.
     Option.bind (getnum True s) (\<lambda>(x, s). if 60 \<le> x then None else
       if skip_fraction s = [] then Some \<lparr>Hour = h, Minute = m, Second = x\<rparr> else None)))))"

definition clabLevels :: "string \<rightharpoonup> log_level" where
  "clabLevels = [''DEBU'' \<mapsto> InfoLevel, ''INFO'' \<mapsto> InfoLevel, ''WARN'' \<mapsto> WarningLevel,
     ''ERRO'' \<mapsto> ErrorLevel, ''FATA'' \<mapsto> FatalLevel]"

definition CreateClabLog :: "clock \<Rightarrow> string \<Rightarrow> string" where
  "CreateClabLog now line0 =
     (let line = ReplaceAnsiCharacters line0;
          entry = \<lparr>le_Level = InfoLevel, le_Message = line, le_Time = now, le_Source = ''CLAB''\<rparr> in
      case split3 line of
        None \<Rightarrow> LogEntry_String entry
      | Some (ts, lv, rest) \<Rightarrow>
          (case (parse_clock ts, clabLevels lv) of
             (Some t, Some level) \<Rightarrow>
               LogEntry_String \<lparr>le_Level = level, le_Message = TrimSpace rest, le_Time = t, le_Source = ''CLAB''\<rparr>
           | _ \<Rightarrow> LogEntry_String entry))"

text \<open>What \<open>FormatClabLog\<close> passes on, if there is a listener. No line of the log is empty.\<close>

definition FormatClabLog :: "clock \<Rightarrow> string \<Rightarrow> string list" where
  "FormatClabLog now message = (let log = CreateClabLog now message in if log \<noteq> [] then [log] else [])"

lemma LogEntry_not_empty [simp]: "LogEntry_String l \<noteq> []"
  by (simp add: LogEntry_String_def TimeOnly_def two_digits_def)

lemma FormatClabLog_one: "length (FormatClabLog now message) = 1"
  by (auto simp: FormatClabLog_def CreateClabLog_def Let_def split: option.splits prod.splits)

section \<open>Status messages\<close>

record message =
  msg_ID :: string
  msg_Source :: string
  msg_Content :: string
  msg_LogContent :: string
  msg_Timestamp :: int
  msg_Severity :: log_level

definition newMessage ::
  "string \<Rightarrow> (int \<Rightarrow> clock) \<Rightarrow> int \<Rightarrow> string \<Rightarrow> string \<Rightarrow> log_level \<Rightarrow> string list \<Rightarrow> message" where
  "newMessage ident local_clock now source content severity logParts =
     \<lparr>msg_ID = ident, msg_Source = source, msg_Content = content,
      msg_LogContent =
        (case CreateAntimonyLog (local_clock now) severity logParts of
           None \<Rightarrow> content
         | Some l \<Rightarrow> l),
      msg_Timestamp = now, msg_Severity = severity\<rparr>"

section \<open>Properties\<close>

lemma digit_of_char [simp]: "n < 10 \<Longrightarrow> digit_of (char_of (48 + n)) = Some n"
  by (simp add: digit_of_def Let_def)

lemma getnum_two_digits [simp]: "n < 100 \<Longrightarrow> getnum fixed (two_digits n @ s) = Some (n, s)"
  by (simp add: two_digits_def)

definition valid_clock :: "clock \<Rightarrow> bool" where
  "valid_clock t \<longleftrightarrow> Hour t < 24 \<and> Minute t < 60 \<and> Second t < 60"

lemma parse_TimeOnly: "valid_clock t \<Longrightarrow> parse_clock (TimeOnly t) = Some t"
proof -
  assume v: "valid_clock t"
  then have n: "Hour t < 100" "Minute t < 100" "Second t < 100" by (simp_all add: valid_clock_def)
  have "getnum fixed (two_digits (Second t)) = Some (Second t, [])" for fixed
    using getnum_two_digits [OF n(3), of fixed "[]"] by simp
  with v n show ?thesis
    by (simp add: parse_clock_def TimeOnly_def colon_def valid_clock_def skip_fraction_def)
qed

lemma two_digits_no_space: "n < 100 \<Longrightarrow> c \<in> set (two_digits n) \<Longrightarrow> 48 \<le> (of_char c :: nat) \<and> (of_char c :: nat) \<le> 57"
  by (auto simp: two_digits_def)

lemma TimeOnly_chars: "valid_clock t \<Longrightarrow> c \<in> set (TimeOnly t) \<Longrightarrow> 48 \<le> (of_char c :: nat) \<and> (of_char c :: nat) \<le> 58"
  using two_digits_no_space [of "Hour t" c] two_digits_no_space [of "Minute t" c]
    two_digits_no_space [of "Second t" c]
  by (auto simp: TimeOnly_def valid_clock_def)

lemma clab_level_chars:
  "clabLevels lv = Some l \<Longrightarrow> lv \<in> {''DEBU'', ''INFO'', ''WARN'', ''ERRO'', ''FATA''}"
  by (auto simp: clabLevels_def split: if_splits)

text \<open>A line containerlab writes with its time and level keeps them and its text: the line of the
  server has the same clock, the level the table gives, and the text without the space around it.\<close>

theorem clab_log_line_kept:
  assumes "valid_clock t" and "clabLevels lv = Some level" and "CHR 0x1B \<notin> set text"
  shows "CreateClabLog now (TimeOnly t @ '' '' @ lv @ '' '' @ text)
    = TimeOnly t @ '' '' @ log_level_String level @ '' CLAB '' @ TrimSpace text"
proof -
  let ?line = "TimeOnly t @ '' '' @ lv @ '' '' @ text"
  note chars = TimeOnly_chars [OF assms(1)]
  have sp: "CHR '' '' \<notin> set (TimeOnly t)" "CHR 0x1B \<notin> set (TimeOnly t)"
    using chars [of "CHR '' ''"] chars [of "CHR 0x1B"] by auto
  have lv: "CHR '' '' \<notin> set lv" "CHR 0x1B \<notin> set lv"
    using clab_level_chars [OF assms(2)] by auto
  have "CHR 0x1B \<notin> set ?line" using sp lv assms(3) by simp
  then have r: "ReplaceAnsiCharacters ?line = ?line" by (rule ReplaceAnsi_plain)
  have "split3 ?line = Some (TimeOnly t, lv, text)"
    using sp lv by (simp add: split3_def)
  with r assms(1,2) show ?thesis
    by (simp add: CreateClabLog_def parse_TimeOnly LogEntry_String_def)
qed

theorem clab_log_line_kept_witness:
  "CreateClabLog \<lparr>Hour = 0, Minute = 0, Second = 0\<rparr> ''14:15:16 WARN low disk''
    = ''14:15:16 WARNING CLAB low disk''"
proof -
  let ?t = "\<lparr>Hour = 14, Minute = 15, Second = 16\<rparr>"
  have v: "valid_clock ?t" by (simp add: valid_clock_def)
  have l: "clabLevels ''WARN'' = Some WarningLevel" by (simp add: clabLevels_def)
  have t: "TimeOnly ?t = ''14:15:16''" by code_simp
  have s: "TrimSpace ''low disk'' = ''low disk''" by code_simp
  show ?thesis
    using clab_log_line_kept [OF v l, of "''low disk''" "\<lparr>Hour = 0, Minute = 0, Second = 0\<rparr>"] t s by simp
qed

end
