(* ===== verification/World.thy ===== *)
theory World
  imports Repositories Schema Storage Policy Yaml_Nodes Auth Messages
begin

text \<open>
  What the domain services of \<open>src/domain/*/service.go\<close> work on. The environment holds what is fixed when
  the server starts: the database (\<open>Repositories\<close>), the storage manager, the parsers, the policy engine's
  constants and the configuration the services read. The world is the state they share: database, file
  system, the cache of the policy engine, the authentication manager, the events published on the lab
  bus in their order, the status messages sent, the number of UUIDs drawn and the time. The rest of the
  server (the instances of the runtime) is the extension of the record.

  A service method is a function from worlds to a result and a world. It is built from the steps below
  in the order of the code: \<open>seq\<close> goes on after a step that succeeded and returns the error of one that
  failed, as \<open>if err != nil { return err }\<close> does.
\<close>

record ('db, 'node, 'h) env =
  e_database :: "'db database"
  e_storage :: manager
  e_parsers :: "'node parsers"
  e_sha256 :: "string \<Rightarrow> 'h"
  e_clab :: clab_constants
  e_TopologyPolicy :: bool
  e_uuid :: "nat \<Rightarrow> string"
  e_local_clock :: "int \<Rightarrow> clock"
  e_Copy :: "string \<Rightarrow> string \<Rightarrow> fs \<Rightarrow> go_error option \<times> fs"
  e_yaml_Unmarshal :: "string \<Rightarrow> (nat \<times> ystore) result"
  e_yaml_Encode :: "nat \<Rightarrow> ystore \<Rightarrow> string result"

record ('db, 'h) world =
  w_db :: 'db
  w_fs :: fs
  w_engine :: "'h engine"
  w_auth :: auth_manager
  w_published :: "(string \<times> lab) list"
  w_status :: "message list"
  w_uuids :: nat
  w_now :: int

section \<open>Steps\<close>

definition ret :: "'a \<Rightarrow> 'w \<Rightarrow> 'a result \<times> 'w" where
  "ret a w = (Inr a, w)"

definition fail :: "go_error \<Rightarrow> 'w \<Rightarrow> 'a result \<times> 'w" where
  "fail e w = (Inl e, w)"

definition seq :: "('w \<Rightarrow> 'a result \<times> 'w) \<Rightarrow> ('a \<Rightarrow> 'w \<Rightarrow> 'b result \<times> 'w) \<Rightarrow> 'w \<Rightarrow> 'b result \<times> 'w" where
  "seq m k w = (case m w of (Inl e, w) \<Rightarrow> (Inl e, w) | (Inr a, w) \<Rightarrow> k a w)"

text \<open>A step whose error the code handles itself.\<close>

definition handle :: "('w \<Rightarrow> 'a result \<times> 'w) \<Rightarrow> (go_error \<Rightarrow> 'w \<Rightarrow> 'a result \<times> 'w) \<Rightarrow> 'w \<Rightarrow> 'a result \<times> 'w" where
  "handle m h w = (case m w of (Inl e, w) \<Rightarrow> h e w | (Inr a, w) \<Rightarrow> (Inr a, w))"

definition lift :: "'a result \<Rightarrow> 'w \<Rightarrow> 'a result \<times> 'w" where
  "lift r w = (r, w)"

definition ask :: "('db \<Rightarrow> 'a result) \<Rightarrow> ('db, 'h, 'z) world_scheme \<Rightarrow> 'a result \<times> ('db, 'h, 'z) world_scheme" where
  "ask q w = (q (w_db w), w)"

definition insert_row ::
  "('db \<Rightarrow> 'a result \<times> 'db) \<Rightarrow> ('db, 'h, 'z) world_scheme \<Rightarrow> 'a result \<times> ('db, 'h, 'z) world_scheme" where
  "insert_row q w = (case q (w_db w) of (r, db) \<Rightarrow> (r, w\<lparr>w_db := db\<rparr>))"

definition to_result :: "go_error option \<Rightarrow> unit result" where
  "to_result e = (case e of None \<Rightarrow> Inr () | Some err \<Rightarrow> Inl err)"

definition exec ::
  "('db \<Rightarrow> go_error option \<times> 'db) \<Rightarrow> ('db, 'h, 'z) world_scheme \<Rightarrow> unit result \<times> ('db, 'h, 'z) world_scheme" where
  "exec q w = (case q (w_db w) of (e, db) \<Rightarrow> (to_result e, w\<lparr>w_db := db\<rparr>))"

definition load :: "(fs \<Rightarrow> 'a result) \<Rightarrow> ('db, 'h, 'z) world_scheme \<Rightarrow> 'a result \<times> ('db, 'h, 'z) world_scheme" where
  "load q w = (q (w_fs w), w)"

definition store ::
  "(fs \<Rightarrow> go_error option \<times> fs) \<Rightarrow> ('db, 'h, 'z) world_scheme \<Rightarrow> unit result \<times> ('db, 'h, 'z) world_scheme" where
  "store q w = (case q (w_fs w) of (e, f) \<Rightarrow> (to_result e, w\<lparr>w_fs := f\<rparr>))"

definition store_result ::
  "(fs \<Rightarrow> 'a result \<times> fs) \<Rightarrow> ('db, 'h, 'z) world_scheme \<Rightarrow> 'a result \<times> ('db, 'h, 'z) world_scheme" where
  "store_result q w = (case q (w_fs w) of (r, f) \<Rightarrow> (r, w\<lparr>w_fs := f\<rparr>))"

definition publish ::
  "string \<Rightarrow> lab \<Rightarrow> ('db, 'h, 'z) world_scheme \<Rightarrow> unit result \<times> ('db, 'h, 'z) world_scheme" where
  "publish topic l w = (Inr (), w\<lparr>w_published := w_published w @ [(topic, l)]\<rparr>)"

definition GenerateUuid ::
  "('db, 'node, 'h) env \<Rightarrow> ('db, 'h, 'z) world_scheme \<Rightarrow> string result \<times> ('db, 'h, 'z) world_scheme" where
  "GenerateUuid E w = (Inr (e_uuid E (w_uuids w)), w\<lparr>w_uuids := Suc (w_uuids w)\<rparr>)"

text \<open>A status message that is built and sent to everyone.\<close>

definition send_status ::
  "('db, 'node, 'h) env \<Rightarrow> log_level \<Rightarrow> string \<Rightarrow> string \<Rightarrow> string list
    \<Rightarrow> ('db, 'h, 'z) world_scheme \<Rightarrow> message result \<times> ('db, 'h, 'z) world_scheme" where
  "send_status E severity source content logParts =
     seq (GenerateUuid E) (\<lambda>ident w.
       (let m = newMessage ident (e_local_clock E) (w_now w) source content severity logParts
        in (Inr m, w\<lparr>w_status := w_status w @ [m]\<rparr>)))"

definition check_policy ::
  "('db, 'node, 'h) env \<Rightarrow> string \<Rightarrow> yaml option \<Rightarrow> clab_topology option \<Rightarrow> string \<Rightarrow> string list
    \<Rightarrow> ('db, 'h, 'z) world_scheme \<Rightarrow> finding list result \<times> ('db, 'h, 'z) world_scheme" where
  "check_policy E topologyId definitionRaw topology definitionString bindFilePaths w =
     (case engine_Check (e_sha256 E) (e_clab E) topologyId definitionRaw topology definitionString
             bindFilePaths (w_engine w) of
        (findings, e) \<Rightarrow> (Inr findings, w\<lparr>w_engine := e\<rparr>))"

definition forget_policy ::
  "string \<Rightarrow> ('db, 'h, 'z) world_scheme \<Rightarrow> unit result \<times> ('db, 'h, 'z) world_scheme" where
  "forget_policy topologyId w = (Inr (), w\<lparr>w_engine := engine_Forget topologyId (w_engine w)\<rparr>)"

section \<open>Facts about steps\<close>

lemma ret_step [simp]: "ret a w = (Inr a, w)"
  by (simp add: ret_def)

lemma fail_step [simp]: "fail e w = (Inl e, w)"
  by (simp add: fail_def)

lemma lift_step [simp]: "lift r w = (r, w)"
  by (simp add: lift_def)

lemma ask_step: "ask q w = (q (w_db w), w)"
  by (simp add: ask_def)

lemma load_step: "load q w = (q (w_fs w), w)"
  by (simp add: load_def)

lemma to_result_simps [simp]: "to_result None = Inr ()" "to_result (Some e) = Inl e"
  by (simp_all add: to_result_def)

lemma to_result_eq [simp]: "to_result x = Inr u \<longleftrightarrow> x = None" "to_result x = Inl e \<longleftrightarrow> x = Some e"
  by (cases x; simp)+

text \<open>A run that succeeded: every step of it did.\<close>

lemma seq_Inr: "seq m k w = (Inr b, w'') \<longleftrightarrow> (\<exists>a w'. m w = (Inr a, w') \<and> k a w' = (Inr b, w''))"
  by (auto simp: seq_def split: prod.split sum.split)

lemma seq_ask_Inr:
  "seq (ask q) k w = (Inr b, w'') \<longleftrightarrow> (\<exists>a. q (w_db w) = Inr a \<and> k a w = (Inr b, w''))"
  by (auto simp: seq_Inr ask_step)

lemma seq_lift_Inr: "seq (lift r) k w = (Inr b, w'') \<longleftrightarrow> (\<exists>a. r = Inr a \<and> k a w = (Inr b, w''))"
  by (auto simp: seq_Inr)

lemma seq_load_Inr:
  "seq (load q) k w = (Inr b, w'') \<longleftrightarrow> (\<exists>a. q (w_fs w) = Inr a \<and> k a w = (Inr b, w''))"
  by (auto simp: seq_Inr load_step)

lemma store_Inr: "store q w = (Inr u, w') \<longleftrightarrow> (\<exists>f. q (w_fs w) = (None, f) \<and> w' = w\<lparr>w_fs := f\<rparr>)"
  by (auto simp: store_def split: prod.splits)

lemma store_result_Inr:
  "store_result q w = (Inr a, w') \<longleftrightarrow> (\<exists>f. q (w_fs w) = (Inr a, f) \<and> w' = w\<lparr>w_fs := f\<rparr>)"
  by (auto simp: store_result_def split: prod.splits)

lemma exec_Inr: "exec q w = (Inr u, w') \<longleftrightarrow> (\<exists>db. q (w_db w) = (None, db) \<and> w' = w\<lparr>w_db := db\<rparr>)"
  by (auto simp: exec_def split: prod.splits)

lemma insert_row_Inr:
  "insert_row q w = (Inr a, w') \<longleftrightarrow> (\<exists>db. q (w_db w) = (Inr a, db) \<and> w' = w\<lparr>w_db := db\<rparr>)"
  by (auto simp: insert_row_def split: prod.splits)

lemma handle_fail_Inr: "handle m (\<lambda>_. fail e) w = (Inr a, w') \<longleftrightarrow> m w = (Inr a, w')"
  by (auto simp: handle_def split: prod.splits sum.splits)

lemma GenerateUuid_Inr:
  "GenerateUuid E w = (Inr u, w') \<longleftrightarrow> u = e_uuid E (w_uuids w) \<and> w' = w\<lparr>w_uuids := Suc (w_uuids w)\<rparr>"
  by (auto simp: GenerateUuid_def)

lemma if_fail_Inr: "(if c then fail e else m) w = (Inr a, w') \<longleftrightarrow> \<not> c \<and> m w = (Inr a, w')"
  by simp

lemmas step_Inr = seq_ask_Inr seq_lift_Inr seq_load_Inr seq_Inr ask_step load_step store_Inr store_result_Inr exec_Inr
  insert_row_Inr handle_fail_Inr GenerateUuid_Inr if_fail_Inr

text \<open>A run that failed: a first step failed.\<close>

lemma seq_Inl:
  "seq m k w = (Inl e, w'') \<longleftrightarrow>
     m w = (Inl e, w'') \<or> (\<exists>a w'. m w = (Inr a, w') \<and> k a w' = (Inl e, w''))"
  by (auto simp: seq_def split: prod.split sum.split)

lemma seq_ask: "seq (ask q) k w = (case q (w_db w) of Inl e \<Rightarrow> (Inl e, w) | Inr a \<Rightarrow> k a w)"
  by (simp add: seq_def ask_def)

lemma seq_lift: "seq (lift r) k w = (case r of Inl e \<Rightarrow> (Inl e, w) | Inr a \<Rightarrow> k a w)"
  by (simp add: seq_def)

lemma seq_load: "seq (load q) k w = (case q (w_fs w) of Inl e \<Rightarrow> (Inl e, w) | Inr a \<Rightarrow> k a w)"
  by (simp add: seq_def load_def)

section \<open>Errors and effects\<close>

text \<open>
  A step is silent on a set of errors if it leaves the world as it was whenever it returns one of
  them. Most steps never return an error that denies access, so a method is silent on those if its
  denials come before its effects.
\<close>

definition silent_on :: "(go_error \<Rightarrow> bool) \<Rightarrow> ('w \<Rightarrow> 'a result \<times> 'w) \<Rightarrow> bool" where
  "silent_on P m \<longleftrightarrow> (\<forall>w e w'. m w = (Inl e, w') \<longrightarrow> P e \<longrightarrow> w' = w)"

definition never :: "(go_error \<Rightarrow> bool) \<Rightarrow> ('w \<Rightarrow> 'a result \<times> 'w) \<Rightarrow> bool" where
  "never P m \<longleftrightarrow> (\<forall>w e w'. m w = (Inl e, w') \<longrightarrow> \<not> P e)"

definition pure :: "('w \<Rightarrow> 'a result \<times> 'w) \<Rightarrow> bool" where
  "pure m \<longleftrightarrow> (\<forall>w. snd (m w) = w)"

named_theorems effects \<open>which errors the steps return, and whether they change the world\<close>

lemma silent_never [effects]: "never P m \<Longrightarrow> silent_on P m"
  by (auto simp: never_def silent_on_def)

lemma silent_pure: "pure m \<Longrightarrow> silent_on P m"
  by (auto simp: pure_def silent_on_def) (metis snd_conv)

lemma never_seq [effects]: "never P m \<Longrightarrow> (\<And>a. never P (k a)) \<Longrightarrow> never P (seq m k)"
  unfolding never_def seq_Inl by blast

lemma silent_seq_pure: "pure m \<Longrightarrow> (\<And>a. silent_on P (k a)) \<Longrightarrow> silent_on P (seq m k)"
  unfolding silent_on_def seq_Inl pure_def by (metis snd_conv)

lemma silent_seq_never: "silent_on P m \<Longrightarrow> (\<And>a. never P (k a)) \<Longrightarrow> silent_on P (seq m k)"
  unfolding silent_on_def seq_Inl never_def by metis

lemma pure_seq [effects]: "pure m \<Longrightarrow> (\<And>a. pure (k a)) \<Longrightarrow> pure (seq m k)"
  by (auto simp: pure_def seq_def split: prod.split sum.split) (metis snd_conv)+

lemma pure_handle [effects]: "pure m \<Longrightarrow> (\<And>e. pure (h e)) \<Longrightarrow> pure (handle m h)"
  by (auto simp: pure_def handle_def split: prod.split sum.split) (metis snd_conv)+

lemma never_handle [effects]: "(\<And>e. never P (h e)) \<Longrightarrow> never P (handle m h)"
  by (auto simp: never_def handle_def split: prod.splits sum.splits)

lemma pure_steps [effects, simp]:
  "pure (ret a)" "pure (fail e)" "pure (lift r)" "pure (ask q)" "pure (load p)"
  by (simp_all add: pure_def ask_def load_def)

lemma never_steps [effects]:
  "never P (ret a)" "\<not> P e \<Longrightarrow> never P (fail e)"
  "never P (publish topic l)" "never P (GenerateUuid E)" "never P (forget_policy t)"
  "never P (check_policy E t raw topo s fs)"
  by (auto simp: never_def publish_def GenerateUuid_def forget_policy_def check_policy_def split: prod.splits)

lemma never_if [effects]: "never P m \<Longrightarrow> never P n \<Longrightarrow> never P (if c then m else n)"
  by simp

lemma silent_if: "silent_on P m \<Longrightarrow> silent_on P n \<Longrightarrow> silent_on P (if c then m else n)"
  by simp

lemma pure_if [effects]: "pure m \<Longrightarrow> pure n \<Longrightarrow> pure (if c then m else n)"
  by simp

lemma returns [simp]:
  "pure (Pair r)" "never P (Pair (Inr a))" "never P (Pair (Inl e)) \<longleftrightarrow> \<not> P e"
  by (auto simp: pure_def never_def)

lemma pure_prod [effects]: "(\<And>x y. pure (k x y)) \<Longrightarrow> pure (case_prod k p)"
  by (cases p) simp

lemma never_prod [effects]: "(\<And>x y. never P (k x y)) \<Longrightarrow> never P (case_prod k p)"
  by (cases p) simp

lemma silent_prod: "(\<And>x y. silent_on P (k x y)) \<Longrightarrow> silent_on P (case_prod k p)"
  by (cases p) simp

lemma pure_option [effects]: "pure a \<Longrightarrow> (\<And>x. pure (f x)) \<Longrightarrow> pure (case_option a f x)"
  by (cases x) simp_all

lemma silent_test: "silent_on P m \<Longrightarrow> silent_on P (\<lambda>w. if c w then (Inl e, w) else m w)"
  by (auto simp: silent_on_def)

text \<open>A method whose checks do not change the world, up to the first step that may.\<close>

lemma silent_steps: "silent_on P (fail e)" "silent_on P (ret a)" "silent_on P (ask q)" "silent_on P (Pair r)"
  by (rule silent_pure, simp)+

lemmas silent_intros = silent_if silent_prod silent_test silent_steps

section \<open>What a step keeps\<close>

definition kept :: "('w \<Rightarrow> 'b) \<Rightarrow> ('w \<Rightarrow> 'a result \<times> 'w) \<Rightarrow> bool" where
  "kept f m \<longleftrightarrow> (\<forall>w. f (snd (m w)) = f w)"

named_theorems keeps \<open>what the steps keep\<close>

lemma kept_apply: "kept f m \<Longrightarrow> f (snd (m w)) = f w"
  by (simp add: kept_def)

lemma keptD: "kept f m \<Longrightarrow> m w = (r, w') \<Longrightarrow> f w' = f w"
  by (auto simp: kept_def) (metis snd_conv)

lemma kept_seq [keeps]: "kept f m \<Longrightarrow> (\<And>a. kept f (k a)) \<Longrightarrow> kept f (seq m k)"
proof -
  assume m: "kept f m" and k: "\<And>a. kept f (k a)"
  have "f (snd (seq m k w)) = f w" for w
  proof (cases "m w")
    case (Pair r w')
    then show ?thesis
      using kept_apply [OF m, of w] kept_apply [OF k, of _ w'] by (cases r) (simp_all add: seq_def)
  qed
  then show ?thesis by (simp add: kept_def)
qed

lemma kept_handle [keeps]: "kept f m \<Longrightarrow> (\<And>e. kept f (h e)) \<Longrightarrow> kept f (handle m h)"
proof -
  assume m: "kept f m" and h: "\<And>e. kept f (h e)"
  have "f (snd (handle m h w)) = f w" for w
  proof (cases "m w")
    case (Pair r w')
    then show ?thesis
      using kept_apply [OF m, of w] kept_apply [OF h, of _ w'] by (cases r) (simp_all add: handle_def)
  qed
  then show ?thesis by (simp add: kept_def)
qed

lemma kept_if [keeps]: "kept f m \<Longrightarrow> kept f n \<Longrightarrow> kept f (if c then m else n)"
  by simp

lemma kept_prod [keeps]: "(\<And>x y. kept f (k x y)) \<Longrightarrow> kept f (case_prod k p)"
  by (cases p) simp

lemma kept_option [keeps]: "kept f a \<Longrightarrow> (\<And>x. kept f (g x)) \<Longrightarrow> kept f (case_option a g x)"
  by (cases x) simp_all

lemma kept_pure: "pure m \<Longrightarrow> kept f m"
  by (simp add: pure_def kept_def)

lemma kept_pure_steps [keeps]:
  "kept f (ret a)" "kept f (fail e)" "kept f (lift r)" "kept f (ask q)" "kept f (load p)"
  by (simp_all add: kept_pure)

lemma kept_return [simp]: "kept f (Pair r)"
  by (simp add: kept_def)

text \<open>The rest of the server is kept by every step, the policy engine by most.\<close>

lemma keeps_more_steps [keeps]:
  "kept world.more (publish topic l)" "kept world.more (GenerateUuid E)" "kept world.more (forget_policy t)"
  "kept world.more (insert_row i)" "kept world.more (exec x)" "kept world.more (store s)"
  "kept world.more (store_result sr)" "kept world.more (check_policy E t' raw topo str fls)"
  by (auto simp: kept_def publish_def GenerateUuid_def forget_policy_def insert_row_def
      exec_def store_def store_result_def check_policy_def split: prod.split)

lemma keeps_engine_steps [keeps]:
  "kept w_engine (publish topic l)" "kept w_engine (GenerateUuid E)" "kept w_engine (insert_row i)"
  "kept w_engine (exec x)" "kept w_engine (store s)" "kept w_engine (store_result sr)"
  by (auto simp: kept_def publish_def GenerateUuid_def insert_row_def exec_def store_def store_result_def
      split: prod.split)

lemma keeps_more_status [keeps]: "kept world.more (send_status E sev src content parts)"
  unfolding send_status_def by (intro keeps) (simp add: kept_def Let_def)

lemma keeps_engine_status [keeps]: "kept w_engine (send_status E sev src content parts)"
  unfolding send_status_def by (intro keeps) (simp add: kept_def Let_def)

end
