(* ===== verification/Memory_Database.thy ===== *)
theory Memory_Database
  imports World
begin

text \<open>
  A database in memory: an instance of the interface of \<open>Repositories\<close> that does what the queries of the
  repositories ask for, on lists of rows. It serves to apply the theorems about the services to
  concrete runs. Rows contain the rows they refer to as they were when the row was saved. There are
  no failures, and \<open>LIKE\<close> and the order of labs are not needed by any run and left out.
\<close>

record memory =
  m_users :: "user list"
  m_collections :: "collection list"
  m_topologies :: "topology list"
  m_bind_files :: "bind_file list"
  m_labs :: "lab list"
  m_next :: nat

definition empty_memory :: memory where
  "empty_memory = \<lparr>m_users = [], m_collections = [], m_topologies = [], m_bind_files = [], m_labs = [], m_next = 1\<rparr>"

section \<open>Conditions\<close>

text \<open>Whether a row satisfies the conditions of a query, given the meaning of a condition.\<close>

fun where_ok :: "(string \<Rightarrow> arg list \<Rightarrow> 'row \<Rightarrow> bool) \<Rightarrow> clause \<Rightarrow> 'row \<Rightarrow> bool" where
  "where_ok sat (Where cond args) row = sat cond args row"
| "where_ok sat _ row = True"

definition select :: "(string \<Rightarrow> arg list \<Rightarrow> 'row \<Rightarrow> bool) \<Rightarrow> clause list \<Rightarrow> 'row list \<Rightarrow> 'row list" where
  "select sat q rows = filter (\<lambda>row. list_all (\<lambda>c. where_ok sat c row) q) rows"

definition user_sat :: "string \<Rightarrow> arg list \<Rightarrow> user \<Rightarrow> bool" where
  "user_sat cond args row =
     (if cond = ''uuid = ?'' then args = [AStr (user_UUID row)]
      else cond = ''sub = ?'' \<and> args = [AStr (user_Sub row)])"

definition collection_sat :: "string \<Rightarrow> arg list \<Rightarrow> collection \<Rightarrow> bool" where
  "collection_sat cond args row =
     (if cond = ''uuid = ?'' then args = [AStr (coll_UUID row)]
      else if cond = ''Name IN ?'' then (case args of [AStrs ns] \<Rightarrow> coll_Name row \<in> set ns | _ \<Rightarrow> False)
      else cond = ''name = ? AND deleted_at IS NULL'' \<and> args = [AStr (coll_Name row)])"

definition topology_sat :: "string \<Rightarrow> arg list \<Rightarrow> topology \<Rightarrow> bool" where
  "topology_sat cond args row =
     (if cond = ''uuid = ?'' then args = [AStr (topo_UUID row)]
      else if cond = ''collections.name IN ?''
      then (case args of [AStrs ns] \<Rightarrow> coll_Name (topo_Collection row) \<in> set ns | _ \<Rightarrow> False)
      else if cond = ''topologies.name = ? AND collections.uuid = ? AND topologies.deleted_at IS NULL''
      then args = [AStr (topo_Name row), AStr (coll_UUID (topo_Collection row))]
      else cond = ''collection_id IN (SELECT id FROM collections WHERE uuid = ?)''
        \<and> args = [AStr (coll_UUID (topo_Collection row))])"

definition bind_file_sat :: "string \<Rightarrow> arg list \<Rightarrow> bind_file \<Rightarrow> bool" where
  "bind_file_sat cond args row =
     (if cond = ''uuid = ?'' then args = [AStr (bind_UUID row)]
      else if cond = ''topologies.uuid = ?'' then args = [AStr (topo_UUID (bind_Topology row))]
      else cond = ''bind_files.file_path = ? AND topologies.uuid = ? AND bind_files.uuid != ?''
        \<and> (case args of [p, t, AStr u] \<Rightarrow>
             p = AStr (bind_FilePath row) \<and> t = AStr (topo_UUID (bind_Topology row)) \<and> u \<noteq> bind_UUID row
           | _ \<Rightarrow> False))"

definition lab_sat :: "string \<Rightarrow> arg list \<Rightarrow> lab \<Rightarrow> bool" where
  "lab_sat cond args row =
     (if cond = ''uuid = ?'' then args = [AStr (lab_UUID row)]
      else if cond = ''collections.uuid = ?'' then args = [AStr (coll_UUID (lab_Collection row))]
      else if cond = ''collections.name = ? AND labs.name = ?''
      then args = [AStr (coll_Name (lab_Collection row)), AStr (lab_Name row)]
      else if cond = ''collections.uuid IN ?''
      then (case args of [AStrs us] \<Rightarrow> coll_UUID (lab_Collection row) \<in> set us | _ \<Rightarrow> False)
      else if cond = ''labs.start_time >= ?''
      then (case args of [ATime t] \<Rightarrow> t \<le> lab_StartTime row | _ \<Rightarrow> False)
      else cond = ''labs.end_time <= ?''
        \<and> (case (args, lab_EndTime row) of ([ATime t], Some e) \<Rightarrow> e \<le> t | _ \<Rightarrow> False))"

section \<open>Tables\<close>

text \<open>A table by its rows in the database, its conditions and its primary key.\<close>

definition memory_table ::
  "(memory \<Rightarrow> 'row list) \<Rightarrow> ('row list \<Rightarrow> memory \<Rightarrow> memory) \<Rightarrow> (string \<Rightarrow> arg list \<Rightarrow> 'row \<Rightarrow> bool)
    \<Rightarrow> ('row \<Rightarrow> nat) \<Rightarrow> (nat \<Rightarrow> 'row \<Rightarrow> 'row) \<Rightarrow> ('row, memory) table" where
  "memory_table rows put sat key set_key = \<lparr>
     Find = (\<lambda>q db. Inr (select sat q (rows db))),
     CreateRow = (\<lambda>row db. let row = set_key (m_next db) row
        in (Inr row, put (rows db @ [row]) (db\<lparr>m_next := Suc (m_next db)\<rparr>))),
     SaveRow = (\<lambda>row db. (Inr row, put (map (\<lambda>r. if key r = key row then row else r) (rows db)) db)),
     DeleteRow = (\<lambda>row db. (None, put (filter (\<lambda>r. key r \<noteq> key row) (rows db)) db)),
     DeleteWhere = (\<lambda>q db. let gone = select sat q (rows db)
        in (Inr gone, put (filter (\<lambda>r. key r \<notin> set (map key gone)) (rows db)) db))\<rparr>"

definition memory_database :: "memory database" where
  "memory_database = \<lparr>
     tab_users = memory_table m_users (\<lambda>rs db. db\<lparr>m_users := rs\<rparr>) user_sat user_ID (\<lambda>k r. r\<lparr>user_ID := k\<rparr>),
     tab_collections = memory_table m_collections (\<lambda>rs db. db\<lparr>m_collections := rs\<rparr>) collection_sat
       coll_ID (\<lambda>k r. r\<lparr>coll_ID := k\<rparr>),
     tab_topologies = memory_table m_topologies (\<lambda>rs db. db\<lparr>m_topologies := rs\<rparr>) topology_sat
       topo_ID (\<lambda>k r. r\<lparr>topo_ID := k\<rparr>),
     tab_bind_files = memory_table m_bind_files (\<lambda>rs db. db\<lparr>m_bind_files := rs\<rparr>) bind_file_sat
       bind_ID (\<lambda>k r. r\<lparr>bind_ID := k\<rparr>),
     tab_labs = memory_table m_labs (\<lambda>rs db. db\<lparr>m_labs := rs\<rparr>) lab_sat lab_ID (\<lambda>k r. r\<lparr>lab_ID := k\<rparr>)\<rparr>"

section \<open>An environment and a world\<close>

text \<open>
  A collection of the user \<open>u1\<close>, who may write to it and deploy in it, with a topology that has a
  bind file \<open>a/b\<close>. Every short text is a definition, and the parsers find a name and no topology in it.
\<close>

definition demo_user :: user where
  "demo_user = \<lparr>user_ID = 1, user_UUID = ''u1'', user_Sub = ''u1'', user_Name = ''u1''\<rparr>"

definition demo_collection :: collection where
  "demo_collection = \<lparr>coll_ID = 2, coll_UUID = ''c1'', coll_Name = ''open'', coll_PublicWrite = True,
     coll_PublicDeploy = True, coll_Creator = demo_user, coll_CreatorID = 1\<rparr>"

definition demo_topology :: topology where
  "demo_topology = \<lparr>topo_ID = 3, topo_UUID = ''t1'', topo_Name = ''net'', topo_SyncUrl = [],
     topo_Collection = demo_collection, topo_CollectionID = 2, topo_Creator = demo_user, topo_CreatorID = 1,
     topo_LastDeployFailed = False\<rparr>"

definition demo_bind_file :: bind_file where
  "demo_bind_file = \<lparr>bind_ID = 4, bind_UUID = ''b1'', bind_FilePath = ''a/b'', bind_Topology = demo_topology,
     bind_TopologyID = 3\<rparr>"

definition demo_lab :: lab where
  "demo_lab = \<lparr>lab_ID = 5, lab_UUID = ''l1'', lab_Name = ''first'', lab_StartTime = 0, lab_EndTime = None,
     lab_Topology = demo_topology, lab_TopologyID = 3, lab_Collection = demo_collection, lab_CollectionID = 2,
     lab_Creator = demo_user, lab_CreatorID = 1, lab_InstanceName = ''net-1'', lab_TopologyDefinition = None,
     lab_TopologyAnnotations = None\<rparr>"

definition demo_memory :: memory where
  "demo_memory = \<lparr>m_users = [demo_user], m_collections = [demo_collection], m_topologies = [demo_topology],
     m_bind_files = [demo_bind_file], m_labs = [demo_lab], m_next = 6\<rparr>"

definition demo_raw :: yaml where
  "demo_raw = YMap [(''name'', YScalar ''net'')]"

definition demo_typed :: topology_definition where
  "demo_typed = \<lparr>td_Name = ''fresh'', td_Topology = None\<rparr>"

definition demo_service_parsers :: "string parsers" where
  "demo_service_parsers = \<lparr>
     yaml_Unmarshal = (\<lambda>s. if length s < 1000 then Inr s else Inl (Foreign ''too long'')), Decode_raw = (\<lambda>_. Inr (Some demo_raw)), Decode_definition = (\<lambda>_. Inr demo_typed),
     clabSchema_Validate = (\<lambda>_. Valid), json_Unmarshal = (\<lambda>_. Inr None), annotationsSchema_Validate = (\<lambda>_. None)\<rparr>"

text \<open>The document \<open>name: net\<close>.\<close>

definition demo_document :: ystore where
  "demo_document = \<lparr>ynodes = (\<lambda>i.
       if i = 0 then (scalar_node [] PlainStyle)\<lparr>Kind := DocumentNode, Content := [1]\<rparr>
       else if i = 1 then (scalar_node [] PlainStyle)\<lparr>Kind := MappingNode, Content := [2, 3]\<rparr>
       else scalar_node (if i = 2 then ''name'' else ''net'') PlainStyle),
     ynext = 4\<rparr>"

definition demo_env :: "(memory, string, string) env" where
  "demo_env = \<lparr>e_database = memory_database,
     e_storage = \<lparr>storagePath = ''/data'', runPath = ''/run'', dirPerm = 488, filePerm = 416\<rparr>,
     e_parsers = demo_service_parsers, e_sha256 = (\<lambda>s. s),
     e_clab = \<lparr>LinkTypeDummy = ''dummy'', LinkTypeVEth = ''veth'', CommandTargetContainer = ''container''\<rparr>,
     e_TopologyPolicy = True, e_uuid = (\<lambda>n. ''id-'' @ replicate n CHR ''x''),
     e_local_clock = (\<lambda>_. \<lparr>Hour = 0, Minute = 0, Second = 0\<rparr>),
     e_Copy = (\<lambda>from to f. (None, f)),
     e_yaml_Unmarshal = (\<lambda>s. Inr (0, demo_document)), e_yaml_Encode = (\<lambda>d st. Inr ''name: net-1'')\<rparr>"

definition demo_fs :: fs where
  "demo_fs = \<lparr>nodes = [(True, [''data'']) \<mapsto> Dir 488, (True, [''run'']) \<mapsto> Dir 488,
       (True, [''data'', ''t1'']) \<mapsto> Dir 488,
       (True, [''data'', ''t1'', ''topology.clab.yaml'']) \<mapsto> File 416 ''name: net'',
       (True, [''data'', ''t1'', ''topology.clab.yaml.annotations.json'']) \<mapsto> File 416 ''{}'',
       (True, [''data'', ''t1'', ''a'']) \<mapsto> Dir 488,
       (True, [''data'', ''t1'', ''a'', ''b'']) \<mapsto> File 416 ''config''],
     denied = (\<lambda>_. False)\<rparr>"

definition demo_world :: "(memory, string) world" where
  "demo_world = \<lparr>w_db = demo_memory, w_fs = demo_fs, w_engine = CreateEngine \<lparr>AllowedImagePrefixes = []\<rparr>,
     w_auth = demo_manager, w_published = [], w_status = [], w_uuids = 0, w_now = 0\<rparr>"

definition demo_login :: authenticated_user where
  "demo_login = \<lparr>UserId = ''u1'', Collections = [''open''], IsAdmin = False\<rparr>"

lemma demo_parts [simp]:
  "e_database demo_env = memory_database" "w_db demo_world = demo_memory" "w_fs demo_world = demo_fs"
  "w_engine demo_world = CreateEngine \<lparr>AllowedImagePrefixes = []\<rparr>" "e_sha256 demo_env = (\<lambda>s. s)"
  "w_published demo_world = []" "w_now demo_world = 0"
  by (simp_all add: demo_env_def demo_world_def)

end
