(* ===== verification/Topology_Service.thy ===== *)
theory Topology_Service
  imports Memory_Database
begin

text \<open>
  The topology service of \<open>src/domain/topology/service.go\<close>. A method is named after its Go name with
  the prefix \<open>topology_service\<close> where other services have one of that name. Calls of the logger are
  left out. \<open>deny_write\<close> and \<open>allowed\<close> are conditions the methods share.
\<close>

definition allowed :: "authenticated_user \<Rightarrow> string \<Rightarrow> bool" where
  "allowed authUser name = (name \<in> set (Collections authUser))"

definition deny_write :: "authenticated_user \<Rightarrow> collection \<Rightarrow> bool" where
  "deny_write authUser c = (\<not> IsAdmin authUser \<and> (\<not> coll_PublicWrite c \<or> \<not> allowed authUser (coll_Name c)))"

section \<open>Files\<close>

definition saveTopology ::
  "('db, 'node, 'h) env \<Rightarrow> string \<Rightarrow> string option \<Rightarrow> string option
    \<Rightarrow> ('db, 'h, 'z) world_scheme \<Rightarrow> unit result \<times> ('db, 'h, 'z) world_scheme" where
  "saveTopology E topologyId def_text annotations = store (WriteTopology (e_storage E) topologyId def_text annotations)"

definition loadBindFile ::
  "('db, 'node, 'h) env \<Rightarrow> string \<Rightarrow> bind_file
    \<Rightarrow> ('db, 'h, 'z) world_scheme \<Rightarrow> bind_file_full result \<times> ('db, 'h, 'z) world_scheme" where
  "loadBindFile E topologyId bindFile =
     seq (load (ReadBindFile (e_storage E) topologyId (bind_FilePath bindFile))) (\<lambda>fileContent.
     ret \<lparr>bf_ID = bind_UUID bindFile, bf_FilePath = bind_FilePath bindFile, bf_Content = fileContent,
          bf_Topology = bind_Topology bindFile\<rparr>)"

definition removeBindFile ::
  "('db, 'node, 'h) env \<Rightarrow> string \<Rightarrow> string
    \<Rightarrow> ('db, 'h, 'z) world_scheme \<Rightarrow> unit result \<times> ('db, 'h, 'z) world_scheme" where
  "removeBindFile E topologyId filePath = store (DeleteBindFile (e_storage E) topologyId filePath)"

definition saveBindFile ::
  "('db, 'node, 'h) env \<Rightarrow> string \<Rightarrow> string \<Rightarrow> string
    \<Rightarrow> ('db, 'h, 'z) world_scheme \<Rightarrow> unit result \<times> ('db, 'h, 'z) world_scheme" where
  "saveBindFile E topologyId filePath fileContent =
     store (WriteBindFile (e_storage E) topologyId filePath fileContent)"

fun load_bind_files ::
  "('db, 'node, 'h) env \<Rightarrow> string \<Rightarrow> bind_file list
    \<Rightarrow> ('db, 'h, 'z) world_scheme \<Rightarrow> bind_file_full list result \<times> ('db, 'h, 'z) world_scheme" where
  "load_bind_files E topologyId [] = ret []"
| "load_bind_files E topologyId (b # bs) =
     seq (loadBindFile E topologyId b) (\<lambda>out.
     seq (load_bind_files E topologyId bs) (\<lambda>outs.
     ret (out # outs)))"

definition LoadTopology ::
  "('db, 'node, 'h) env \<Rightarrow> string \<Rightarrow> bind_file list
    \<Rightarrow> ('db, 'h, 'z) world_scheme \<Rightarrow> (string \<times> string \<times> bind_file_full list) result \<times> ('db, 'h, 'z) world_scheme" where
  "LoadTopology E topologyId files =
     seq (load (ReadTopology (e_storage E) topologyId)) (\<lambda>(def_text, annotations).
     seq (load_bind_files E topologyId files) (\<lambda>bindFilesFull.
     ret (def_text, annotations, bindFilesFull)))"

section \<open>Reading topologies\<close>

record topology_full =
  tf_ID :: string
  tf_Definition :: string
  tf_Annotations :: string
  tf_SyncUrl :: string
  tf_Collection :: collection
  tf_Creator :: user
  tf_BindFiles :: "bind_file_full list"
  tf_LastDeployFailed :: bool
  tf_PolicyFindings :: "finding list"

definition createTopologyFull ::
  "('db, 'node, 'h) env \<Rightarrow> topology
    \<Rightarrow> ('db, 'h, 'z) world_scheme \<Rightarrow> topology_full result \<times> ('db, 'h, 'z) world_scheme" where
  "createTopologyFull E topology =
     seq (handle (ask (GetBindFileForTopology (e_database E) (topo_UUID topology)))
            (\<lambda>_. fail (Sentinel ErrInvalidTopology))) (\<lambda>bindFiles.
     seq (handle (LoadTopology E (topo_UUID topology) bindFiles)
            (\<lambda>_. fail (Sentinel ErrInvalidTopology))) (\<lambda>(definitionString, annotations, bindFilesFull).
     seq (lift (schema_Parse (e_parsers E) definitionString)) (\<lambda>(def_typed, definitionRaw).
     seq (check_policy E (topo_UUID topology) definitionRaw (td_Topology def_typed) definitionString
            (map bind_FilePath bindFiles)) (\<lambda>findings.
     ret \<lparr>tf_ID = topo_UUID topology, tf_Definition = definitionString, tf_Annotations = annotations,
          tf_SyncUrl = topo_SyncUrl topology, tf_Collection = topo_Collection topology,
          tf_Creator = topo_Creator topology, tf_BindFiles = bindFilesFull,
          tf_LastDeployFailed = topo_LastDeployFailed topology, tf_PolicyFindings = findings\<rparr>))))"

text \<open>\<open>lo.FilterMap\<close>: topologies that cannot be read are left out.\<close>

fun create_all ::
  "('db, 'node, 'h) env \<Rightarrow> topology list
    \<Rightarrow> ('db, 'h, 'z) world_scheme \<Rightarrow> topology_full list \<times> ('db, 'h, 'z) world_scheme" where
  "create_all E [] w = ([], w)"
| "create_all E (t # ts) w =
     (case createTopologyFull E t w of
        (Inl _, w) \<Rightarrow> create_all E ts w
      | (Inr full, w) \<Rightarrow> (case create_all E ts w of (fulls, w) \<Rightarrow> (full # fulls, w)))"

definition topology_service_Get ::
  "('db, 'node, 'h) env \<Rightarrow> authenticated_user
    \<Rightarrow> ('db, 'h, 'z) world_scheme \<Rightarrow> topology_full list result \<times> ('db, 'h, 'z) world_scheme" where
  "topology_service_Get E authUser =
     seq (ask (if IsAdmin authUser then topology_GetAll (e_database E)
               else topology_GetFromCollections (e_database E) (Collections authUser))) (\<lambda>topologies w.
     (case create_all E topologies w of (fulls, w) \<Rightarrow> (Inr fulls, w)))"

definition topology_service_GetByUuid ::
  "('db, 'node, 'h) env \<Rightarrow> string \<Rightarrow> authenticated_user
    \<Rightarrow> ('db, 'h, 'z) world_scheme \<Rightarrow> topology_full result \<times> ('db, 'h, 'z) world_scheme" where
  "topology_service_GetByUuid E topologyId authUser =
     seq (ask (topology_GetByUuid (e_database E) topologyId)) (\<lambda>topology.
     if \<not> IsAdmin authUser \<and> \<not> allowed authUser (coll_Name (topo_Collection topology))
     then fail (Sentinel ErrNoAccessToTopology)
     else createTopologyFull E topology)"

section \<open>Writing topologies\<close>

definition topology_service_Create ::
  "('db, 'node, 'h) env \<Rightarrow> topology_in \<Rightarrow> authenticated_user
    \<Rightarrow> ('db, 'h, 'z) world_scheme \<Rightarrow> string result \<times> ('db, 'h, 'z) world_scheme" where
  "topology_service_Create E req authUser =
     seq (ask (collection_GetByUuid (e_database E) (ti_CollectionId req))) (\<lambda>topologyCollection.
     if deny_write authUser topologyCollection then fail (Sentinel ErrNoWriteAccessToCollection)
     else
     seq (lift (schema_Parse (e_parsers E) (ti_Definition req))) (\<lambda>(def_typed, _).
     seq (lift (schema_ParseAnnotations (e_parsers E) (ti_Annotations req))) (\<lambda>_.
     seq (ask (topology_GetByName (e_database E) (td_Name def_typed) (ti_CollectionId req))) (\<lambda>topologies.
     if topologies \<noteq> [] then fail (Sentinel ErrTopologyNameExists)
     else
     seq (GenerateUuid E) (\<lambda>newUuid.
     seq (saveTopology E newUuid (Some (ti_Definition req)) (Some (ti_Annotations req))) (\<lambda>_.
     seq (handle (ask (user_GetByUuid (e_database E) (UserId authUser)))
            (\<lambda>_. fail (Sentinel ErrUnauthorized))) (\<lambda>creatorUser.
     seq (insert_row (topology_repo_Create (e_database E)
            (zero_topology\<lparr>topo_UUID := newUuid, topo_Name := td_Name def_typed, topo_SyncUrl := ti_SyncUrl req,
               topo_Collection := topologyCollection, topo_Creator := creatorUser\<rparr>))) (\<lambda>_.
     ret newUuid))))))))"

text \<open>
  The collection the topology moves to, its name after the update, and the checks of the annotations,
  each read from the request if it is there.
\<close>

definition update_collection ::
  "('db, 'node, 'h) env \<Rightarrow> topology_in_partial \<Rightarrow> authenticated_user \<Rightarrow> topology
    \<Rightarrow> ('db, 'h, 'z) world_scheme \<Rightarrow> collection result \<times> ('db, 'h, 'z) world_scheme" where
  "update_collection E req authUser topology =
     (case tip_CollectionId req of
        None \<Rightarrow> ret (topo_Collection topology)
      | Some collectionId \<Rightarrow>
          seq (ask (collection_GetByUuid (e_database E) collectionId)) (\<lambda>newCollection.
          if deny_write authUser newCollection then fail (Sentinel ErrNoWriteAccessToCollection)
          else ret newCollection))"

definition update_name ::
  "('db, 'node, 'h) env \<Rightarrow> topology_in_partial \<Rightarrow> topology
    \<Rightarrow> ('db, 'h, 'z) world_scheme \<Rightarrow> string result \<times> ('db, 'h, 'z) world_scheme" where
  "update_name E req topology =
     (case tip_Definition req of
        None \<Rightarrow> ret (topo_Name topology)
      | Some def_text \<Rightarrow>
          seq (lift (schema_Parse (e_parsers E) def_text)) (\<lambda>(def_typed, _). ret (td_Name def_typed)))"

definition check_annotations ::
  "('db, 'node, 'h) env \<Rightarrow> topology_in_partial
    \<Rightarrow> ('db, 'h, 'z) world_scheme \<Rightarrow> unit result \<times> ('db, 'h, 'z) world_scheme" where
  "check_annotations E req =
     (case tip_Annotations req of
        None \<Rightarrow> ret ()
      | Some annotations \<Rightarrow> seq (lift (schema_ParseAnnotations (e_parsers E) annotations)) (\<lambda>_. ret ()))"

definition check_free ::
  "('db, 'node, 'h) env \<Rightarrow> topology \<Rightarrow> string \<Rightarrow> collection
    \<Rightarrow> ('db, 'h, 'z) world_scheme \<Rightarrow> unit result \<times> ('db, 'h, 'z) world_scheme" where
  "check_free E topology topologyName topologyCollection =
     (if topologyName \<noteq> topo_Name topology \<or> coll_ID topologyCollection \<noteq> coll_ID (topo_Collection topology)
      then seq (ask (topology_GetByName (e_database E) topologyName (coll_UUID topologyCollection))) (\<lambda>topologies.
        if topologies \<noteq> [] then fail (Sentinel ErrTopologyNameExists) else ret ())
      else ret ())"

definition topology_service_Update ::
  "('db, 'node, 'h) env \<Rightarrow> topology_in_partial \<Rightarrow> string \<Rightarrow> authenticated_user
    \<Rightarrow> ('db, 'h, 'z) world_scheme \<Rightarrow> unit result \<times> ('db, 'h, 'z) world_scheme" where
  "topology_service_Update E req topologyId authUser =
     seq (ask (topology_GetByUuid (e_database E) topologyId)) (\<lambda>topology.
     if \<not> IsAdmin authUser \<and> UserId authUser \<noteq> user_UUID (topo_Creator topology)
     then fail (Sentinel ErrNoWriteAccessToTopology)
     else if deny_write authUser (topo_Collection topology)
     then fail (Sentinel ErrNoWriteAccessToCollection)
     else
     seq (update_collection E req authUser topology) (\<lambda>topologyCollection.
     seq (update_name E req topology) (\<lambda>topologyName.
     seq (check_annotations E req) (\<lambda>_.
     seq (check_free E topology topologyName topologyCollection) (\<lambda>_.
     seq (if tip_Definition req \<noteq> None \<or> tip_Annotations req \<noteq> None
          then saveTopology E (topo_UUID topology) (tip_Definition req) (tip_Annotations req)
          else ret ()) (\<lambda>_.
     exec (topology_repo_Update (e_database E)
       (topology\<lparr>topo_Name := topologyName, topo_Collection := topologyCollection,
          topo_SyncUrl := case_option (topo_SyncUrl topology) id (tip_SyncUrl req)\<rparr>))))))))"

definition topology_service_Delete ::
  "('db, 'node, 'h) env \<Rightarrow> string \<Rightarrow> authenticated_user
    \<Rightarrow> ('db, 'h, 'z) world_scheme \<Rightarrow> unit result \<times> ('db, 'h, 'z) world_scheme" where
  "topology_service_Delete E topologyId authUser =
     seq (ask (topology_GetByUuid (e_database E) topologyId)) (\<lambda>topology.
     if \<not> IsAdmin authUser \<and> UserId authUser \<noteq> user_UUID (topo_Creator topology)
     then fail (Sentinel ErrNoWriteAccessToTopology)
     else
     seq (exec (topology_repo_Delete (e_database E) topology)) (\<lambda>_.
     forget_policy (topo_UUID topology)))"

definition DeleteTopologiesOfCollection ::
  "('db, 'node, 'h) env \<Rightarrow> string
    \<Rightarrow> ('db, 'h, 'z) world_scheme \<Rightarrow> unit result \<times> ('db, 'h, 'z) world_scheme" where
  "DeleteTopologiesOfCollection E collectionId =
     seq (insert_row (topology_DeleteByCollection (e_database E) collectionId)) (\<lambda>topologyIds w.
     (Inr (), w\<lparr>w_engine := fold engine_Forget topologyIds (w_engine w)\<rparr>))"

definition SetLastDeployFailed ::
  "('db, 'node, 'h) env \<Rightarrow> topology \<Rightarrow> bool \<Rightarrow> ('db, 'h, 'z) world_scheme \<Rightarrow> ('db, 'h, 'z) world_scheme" where
  "SetLastDeployFailed E topology hasFailed w =
     snd (exec (topology_repo_Update (e_database E) (topology\<lparr>topo_LastDeployFailed := hasFailed\<rparr>)) w)"

section \<open>Bind files\<close>

definition CreateBindFile ::
  "('db, 'node, 'h) env \<Rightarrow> string \<Rightarrow> bind_file_in \<Rightarrow> authenticated_user
    \<Rightarrow> ('db, 'h, 'z) world_scheme \<Rightarrow> string result \<times> ('db, 'h, 'z) world_scheme" where
  "CreateBindFile E topologyId req authUser =
     seq (ask (topology_GetByUuid (e_database E) topologyId)) (\<lambda>bindFileTopology.
     if \<not> IsAdmin authUser \<and> user_UUID (topo_Creator bindFileTopology) \<noteq> UserId authUser
     then fail (Sentinel ErrNoWriteAccessToBindFile)
     else
     seq (lift (ValidateBindFilePath (bi_FilePath req))) (\<lambda>filePath.
     seq (ask (DoesBindFilePathExist (e_database E) filePath (topo_UUID bindFileTopology) [])) (\<lambda>nameExists.
     if nameExists then fail (Sentinel ErrBindFileExists)
     else
     seq (saveBindFile E topologyId filePath (bi_Content req)) (\<lambda>_.
     seq (GenerateUuid E) (\<lambda>newUuid.
     seq (insert_row (bind_file_repo_Create (e_database E)
            (zero_bind_file\<lparr>bind_UUID := newUuid, bind_FilePath := filePath,
               bind_Topology := bindFileTopology\<rparr>))) (\<lambda>_.
     ret newUuid))))))"

definition new_bind_path ::
  "('db, 'node, 'h) env \<Rightarrow> bind_file_in_partial \<Rightarrow> string \<Rightarrow> bind_file \<Rightarrow> topology
    \<Rightarrow> ('db, 'h, 'z) world_scheme \<Rightarrow> string result \<times> ('db, 'h, 'z) world_scheme" where
  "new_bind_path E req bindFileUuid bindFile bindFileTopology =
     (case bip_FilePath req of
        None \<Rightarrow> ret (bind_FilePath bindFile)
      | Some p \<Rightarrow>
          seq (lift (ValidateBindFilePath p)) (\<lambda>newPath.
          seq (ask (DoesBindFilePathExist (e_database E) newPath (topo_UUID bindFileTopology) bindFileUuid)) (\<lambda>nameExists.
          if nameExists then fail (Sentinel ErrBindFileExists) else ret newPath)))"

definition new_bind_content ::
  "('db, 'node, 'h) env \<Rightarrow> bind_file_in_partial \<Rightarrow> bind_file \<Rightarrow> topology
    \<Rightarrow> ('db, 'h, 'z) world_scheme \<Rightarrow> string result \<times> ('db, 'h, 'z) world_scheme" where
  "new_bind_content E req bindFile bindFileTopology =
     (case bip_Content req of
        Some content \<Rightarrow> ret content
      | None \<Rightarrow> seq (loadBindFile E (topo_UUID bindFileTopology) bindFile) (\<lambda>out. ret (bf_Content out)))"

definition UpdateBindFile ::
  "('db, 'node, 'h) env \<Rightarrow> bind_file_in_partial \<Rightarrow> string \<Rightarrow> authenticated_user
    \<Rightarrow> ('db, 'h, 'z) world_scheme \<Rightarrow> unit result \<times> ('db, 'h, 'z) world_scheme" where
  "UpdateBindFile E req bindFileUuid authUser =
     seq (ask (GetBindFileByUuid (e_database E) bindFileUuid)) (\<lambda>bindFile.
     seq (ask (topology_GetByUuid (e_database E) (topo_UUID (bind_Topology bindFile)))) (\<lambda>bindFileTopology.
     if \<not> IsAdmin authUser \<and> UserId authUser \<noteq> user_UUID (topo_Creator bindFileTopology)
     then fail (Sentinel ErrNoWriteAccessToBindFile)
     else
     seq (new_bind_path E req bindFileUuid bindFile bindFileTopology) (\<lambda>bindFilePath.
     seq (new_bind_content E req bindFile bindFileTopology) (\<lambda>bindFileContent.
     seq (if bind_FilePath bindFile \<noteq> bindFilePath
          then handle (removeBindFile E (topo_UUID bindFileTopology) (bind_FilePath bindFile)) (\<lambda>_. ret ())
          else ret ()) (\<lambda>_.
     seq (saveBindFile E (topo_UUID bindFileTopology) bindFilePath bindFileContent) (\<lambda>_.
     exec (bind_file_repo_Update (e_database E) (bindFile\<lparr>bind_FilePath := bindFilePath\<rparr>))))))))"

definition topology_DeleteBindFile ::
  "('db, 'node, 'h) env \<Rightarrow> string \<Rightarrow> authenticated_user
    \<Rightarrow> ('db, 'h, 'z) world_scheme \<Rightarrow> unit result \<times> ('db, 'h, 'z) world_scheme" where
  "topology_DeleteBindFile E bindFileId authUser =
     seq (ask (GetBindFileByUuid (e_database E) bindFileId)) (\<lambda>bindFile.
     seq (ask (topology_GetByUuid (e_database E) (topo_UUID (bind_Topology bindFile)))) (\<lambda>bindFileTopology.
     if \<not> IsAdmin authUser \<and> UserId authUser \<noteq> user_UUID (topo_Creator bindFileTopology)
     then fail (Sentinel ErrNoWriteAccessToBindFile)
     else
     seq (handle (removeBindFile E (topo_UUID bindFileTopology) (bind_FilePath bindFile)) (\<lambda>_. ret ())) (\<lambda>_.
     exec (bind_file_repo_Delete (e_database E) bindFile))))"

section \<open>Properties\<close>

text \<open>A topology is created only by an admin or by a user who may write to its collection, only from
  a definition and annotations that are valid, with the name the definition gives, and only if no
  topology of the collection has that name. What was sent is read back under the new UUID, and the
  files of all other topologies are untouched.\<close>

theorem create_topology_stored:
  assumes "topology_service_Create E req authUser w = (Inr topologyId, w')" and "plain topologyId"
  shows "(\<exists>c d raw. collection_GetByUuid (e_database E) (ti_CollectionId req) (w_db w) = Inr c
        \<and> (IsAdmin authUser \<or> coll_PublicWrite c \<and> coll_Name c \<in> set (Collections authUser))
        \<and> schema_Parse (e_parsers E) (ti_Definition req) = Inr (d, raw)
        \<and> topology_GetByName (e_database E) (td_Name d) (ti_CollectionId req) (w_db w) = Inr []
        \<and> (\<exists>row row'. topology_repo_Create (e_database E) row (w_db w) = (Inr row', w_db w')
            \<and> topo_UUID row = topologyId \<and> topo_Name row = td_Name d \<and> topo_Collection row = c))
    \<and> ReadTopology (e_storage E) topologyId (w_fs w') = Inr (ti_Definition req, ti_Annotations req)
    \<and> (\<forall>t. plain t \<longrightarrow> t \<noteq> topologyId \<longrightarrow>
          ReadTopology (e_storage E) t (w_fs w') = ReadTopology (e_storage E) t (w_fs w))"
proof -
  from assms(1) obtain c d raw u row row' f db where
    c: "collection_GetByUuid (e_database E) (ti_CollectionId req) (w_db w) = Inr c" "\<not> deny_write authUser c"
    and d: "schema_Parse (e_parsers E) (ti_Definition req) = Inr (d, raw)"
    and free: "topology_GetByName (e_database E) (td_Name d) (ti_CollectionId req) (w_db w) = Inr []"
    and f: "WriteTopology (e_storage E) topologyId (Some (ti_Definition req)) (Some (ti_Annotations req)) (w_fs w)
      = (None, f)"
    and row: "topology_repo_Create (e_database E) row (w_db w) = (Inr row', db)"
      "row = zero_topology\<lparr>topo_UUID := topologyId, topo_Name := td_Name d, topo_SyncUrl := ti_SyncUrl req,
         topo_Collection := c, topo_Creator := u\<rparr>"
    and w': "w' = w\<lparr>w_uuids := Suc (w_uuids w), w_fs := f, w_db := db\<rparr>"
    by (auto simp: topology_service_Create_def saveTopology_def step_Inr split: prod.splits if_splits)
  from c(2) have "IsAdmin authUser \<or> coll_PublicWrite c \<and> coll_Name c \<in> set (Collections authUser)"
    by (auto simp: deny_write_def allowed_def)
  moreover have "topo_UUID row = topologyId \<and> topo_Name row = td_Name d \<and> topo_Collection row = c"
    using row(2) by simp
  moreover have "ReadTopology (e_storage E) topologyId (w_fs w') = Inr (ti_Definition req, ti_Annotations req)"
    using write_topology_read [OF assms(2) f] w' by simp
  moreover have "ReadTopology (e_storage E) t (w_fs w') = ReadTopology (e_storage E) t (w_fs w)"
    if "plain t" "t \<noteq> topologyId" for t
    using write_topology_frame [OF assms(2) that(1) _ f] that(2) w' by auto
  ultimately show ?thesis
    using c(1) d free row(1) w' by auto
qed

definition demo_topology_in :: topology_in where
  "demo_topology_in = \<lparr>ti_Definition = ''name: fresh'', ti_Annotations = ''{}'', ti_SyncUrl = [],
     ti_CollectionId = ''c1''\<rparr>"

theorem create_topology_stored_witness:
  "\<exists>w'. topology_service_Create demo_env demo_topology_in demo_login demo_world = (Inr ''id-'', w')
    \<and> ReadTopology (e_storage demo_env) ''id-'' (w_fs w') = Inr (''name: fresh'', ''{}'')"
proof -
  have "fst (topology_service_Create demo_env demo_topology_in demo_login demo_world) = Inr ''id-''"
    by code_simp
  then obtain w' where w': "topology_service_Create demo_env demo_topology_in demo_login demo_world
      = (Inr ''id-'', w')"
    by (metis prod.collapse)
  have "plain ''id-''" by (simp add: plain_def)
  from create_topology_stored [OF w' this] w' show ?thesis by (simp add: demo_topology_in_def)
qed

lemma new_bind_path_Inr:
  "new_bind_path E req i b t w = (Inr path, w') \<Longrightarrow> w' = w
    \<and> (case bip_FilePath req of None \<Rightarrow> path = bind_FilePath b | Some p \<Rightarrow> ValidateBindFilePath p = Inr path)"
  by (auto simp: new_bind_path_def step_Inr split: option.splits)

lemma new_bind_content_Inr:
  "new_bind_content E req b t w = (Inr content, w') \<Longrightarrow> w' = w
    \<and> (case bip_Content req of Some c \<Rightarrow> content = c
       | None \<Rightarrow> ReadBindFile (e_storage E) (topo_UUID t) (bind_FilePath b) (w_fs w) = Inr content)"
  by (auto simp: new_bind_content_def loadBindFile_def step_Inr split: option.splits)

lemma drop_old_file:
  "(if c then handle (removeBindFile E t p) (\<lambda>_. ret ()) else ret ()) w = (r, w1) \<Longrightarrow> \<exists>f. w1 = w\<lparr>w_fs := f\<rparr>"
  by (auto simp: handle_def removeBindFile_def store_def split: if_splits prod.splits sum.splits intro: exI [of _ "w_fs w"])

lemma save_bind_file_Inr:
  assumes "saveBindFile E t p content w = (Inr u, w')"
  shows "w_db w' = w_db w \<and> ReadBindFile (e_storage E) t p (w_fs w') = Inr content"
proof -
  from assms obtain f where f: "WriteBindFile (e_storage E) t p content (w_fs w) = (None, f)" "w' = w\<lparr>w_fs := f\<rparr>"
    by (auto simp: saveBindFile_def store_Inr)
  then obtain q where "bindFilePath t p = Inr q" "manager_write (e_storage E) (Join [storagePath (e_storage E), q]) content (w_fs w) = (None, f)"
    by (auto simp: WriteBindFile_def writeStorage_def split: sum.splits)
  with write_read f(2) show ?thesis
    by (simp add: ReadBindFile_def readStorage_def manager_read_def)
qed

text \<open>An update of a bind file that succeeds leaves the content that was sent, or the old content if
  none was sent, at the path that was sent, or at the old path if none was sent, and the row of the
  bind file names that path. Only an admin or the creator of the topology can do it.\<close>

theorem update_bind_file_content:
  assumes "UpdateBindFile E req bindFileUuid authUser w = (Inr (), w')"
  shows "\<exists>b t path content. GetBindFileByUuid (e_database E) bindFileUuid (w_db w) = Inr b
    \<and> topology_GetByUuid (e_database E) (topo_UUID (bind_Topology b)) (w_db w) = Inr t
    \<and> (IsAdmin authUser \<or> UserId authUser = user_UUID (topo_Creator t))
    \<and> (case bip_FilePath req of None \<Rightarrow> path = bind_FilePath b | Some p \<Rightarrow> ValidateBindFilePath p = Inr path)
    \<and> (case bip_Content req of Some c \<Rightarrow> content = c
       | None \<Rightarrow> ReadBindFile (e_storage E) (topo_UUID t) (bind_FilePath b) (w_fs w) = Inr content)
    \<and> ReadBindFile (e_storage E) (topo_UUID t) path (w_fs w') = Inr content
    \<and> bind_file_repo_Update (e_database E) (b\<lparr>bind_FilePath := path\<rparr>) (w_db w) = (None, w_db w')"
proof -
  from assms obtain b t path content v1 v2 v3 v4 w1 w2 where
    b: "GetBindFileByUuid (e_database E) bindFileUuid (w_db w) = Inr b"
    and t: "topology_GetByUuid (e_database E) (topo_UUID (bind_Topology b)) (w_db w) = Inr t"
    and may: "IsAdmin authUser \<or> UserId authUser = user_UUID (topo_Creator t)"
    and path: "new_bind_path E req bindFileUuid b t w = (Inr path, v1)"
    and content: "new_bind_content E req b t v1 = (Inr content, v2)"
    and removed: "(if bind_FilePath b \<noteq> path then handle (removeBindFile E (topo_UUID t) (bind_FilePath b)) (\<lambda>_. ret ())
        else ret ()) v2 = (v3, w1)"
    and saved: "saveBindFile E (topo_UUID t) path content w1 = (Inr v4, w2)"
    and updated: "exec (bind_file_repo_Update (e_database E) (b\<lparr>bind_FilePath := path\<rparr>)) w2 = (Inr (), w')"
    unfolding UpdateBindFile_def seq_ask_Inr if_fail_Inr unfolding seq_Inr by blast
  note p = new_bind_path_Inr [OF path] and c = new_bind_content_Inr [OF content]
  obtain f where f: "w1 = v2\<lparr>w_fs := f\<rparr>" using drop_old_file [OF removed] by blast
  note s = save_bind_file_Inr [OF saved]
  from updated obtain db where "bind_file_repo_Update (e_database E) (b\<lparr>bind_FilePath := path\<rparr>) (w_db w2) = (None, db)"
      "w' = w2\<lparr>w_db := db\<rparr>"
    by (auto simp: exec_Inr)
  with p c f s have "bind_file_repo_Update (e_database E) (b\<lparr>bind_FilePath := path\<rparr>) (w_db w) = (None, w_db w')"
    and "ReadBindFile (e_storage E) (topo_UUID t) path (w_fs w') = Inr content"
    by simp_all
  with b t may p c show ?thesis by blast
qed


theorem update_bind_file_content_witness:
  "\<exists>w' (b :: bind_file) t. UpdateBindFile demo_env \<lparr>bip_Content = None, bip_FilePath = Some ''c''\<rparr> ''b1'' demo_login demo_world
      = (Inr (), w')
    \<and> topology_GetByUuid memory_database (topo_UUID (bind_Topology b)) demo_memory = Inr t
    \<and> ReadBindFile (e_storage demo_env) (topo_UUID t) ''c'' (w_fs w')
      = ReadBindFile (e_storage demo_env) (topo_UUID t) (bind_FilePath b) demo_fs"
proof -
  have "fst (UpdateBindFile demo_env \<lparr>bip_Content = None, bip_FilePath = Some ''c''\<rparr> ''b1'' demo_login demo_world)
      = Inr ()"
    by code_simp
  then obtain w' where w': "UpdateBindFile demo_env \<lparr>bip_Content = None, bip_FilePath = Some ''c''\<rparr> ''b1''
      demo_login demo_world = (Inr (), w')"
    by (metis prod.collapse)
  have c: "ValidateBindFilePath ''c'' = Inr ''c''" by code_simp
  from update_bind_file_content [OF w'] obtain b :: bind_file and t path content where
    "ValidateBindFilePath ''c'' = Inr path"
    "topology_GetByUuid memory_database (topo_UUID (bind_Topology b)) demo_memory = Inr t"
    "ReadBindFile (e_storage demo_env) (topo_UUID t) (bind_FilePath b) demo_fs = Inr content"
    "ReadBindFile (e_storage demo_env) (topo_UUID t) path (w_fs w') = Inr content"
    by (simp only: demo_parts bind_file_in_partial.simps option.case) blast
  with c w' have "topology_GetByUuid memory_database (topo_UUID (bind_Topology b)) demo_memory = Inr t
      \<and> ReadBindFile (e_storage demo_env) (topo_UUID t) ''c'' (w_fs w')
        = ReadBindFile (e_storage demo_env) (topo_UUID t) (bind_FilePath b) demo_fs"
    by simp
  with w' show ?thesis by blast
qed

text \<open>
  The old file goes before the new one is written. If the new path is a directory of the topology, which
  is there as soon as a bind file lies below it, writing fails, and the content is in neither place.
\<close>

lemma removed_file:
  assumes "\<not> denied f (path_key p)" and "manager_delete m p f = (e, f')"
  shows "e = None \<and> denied f' = denied f \<and> nodes f' (path_key p) = None
    \<and> (\<forall>k. \<not> below k (path_key p) \<longrightarrow> nodes f' k = nodes f k)"
  using assms by (auto simp: manager_delete_def os_RemoveAll_def Let_def below_def)

text \<open>Renaming a bind file to a path that is a directory loses its content: the update is refused with an
  error, and the file cannot be read any more although its row in the database still names it.\<close>

theorem rename_to_directory_loses_content:
  assumes "GetBindFileByUuid (e_database E) bindFileUuid (w_db w) = Inr b"
    and "topology_GetByUuid (e_database E) (topo_UUID (bind_Topology b)) (w_db w) = Inr t"
    and "IsAdmin authUser \<or> UserId authUser = user_UUID (topo_Creator t)"
    and "bip_FilePath req = Some p" and "ValidateBindFilePath p = Inr newPath"
    and "DoesBindFilePathExist (e_database E) newPath (topo_UUID t) bindFileUuid (w_db w) = Inr False"
    and "newPath \<noteq> bind_FilePath b"
    and "bindFilePath (topo_UUID t) (bind_FilePath b) = Inr old" and "bindFilePath (topo_UUID t) newPath = Inr new"
    and "old_file = Join [storagePath (e_storage E), old]" and "new_file = Join [storagePath (e_storage E), new]"
    and "ReadBindFile (e_storage E) (topo_UUID t) (bind_FilePath b) (w_fs w) = Inr content"
    and "nodes (w_fs w) (path_key new_file) = Some (Dir perm)"
    and "\<not> below (path_key new_file) (path_key old_file)" and "snd (path_key old_file) \<noteq> []"
  shows "\<exists>err w'. UpdateBindFile E req bindFileUuid authUser w = (Inl err, w') \<and> w_db w' = w_db w
    \<and> (\<forall>c. ReadBindFile (e_storage E) (topo_UUID t) (bind_FilePath b) (w_fs w') \<noteq> Inr c)"
proof -
  let ?m = "e_storage E" and ?f = "w_fs w"
  have free: "\<not> denied ?f (path_key old_file)"
    using assms(8,10,12)
    by (auto simp: ReadBindFile_def readStorage_def manager_read_def os_ReadFile_def
        split: option.splits node.splits if_splits)
  obtain e g where d: "manager_delete ?m old_file ?f = (e, g)" by fastforce
  note g = removed_file [OF free d]
  have dir: "nodes g (path_key new_file) = Some (Dir perm)" using g assms(13,14) by metis
  have "\<exists>content'. new_bind_content E req b t w = (Inr content', w)"
    using assms(12) by (cases "bip_Content req") (simp_all add: new_bind_content_def loadBindFile_def seq_def load_step)
  then obtain content' where content: "new_bind_content E req b t w = (Inr content', w)" by blast
  obtain err f' where wr: "manager_write ?m new_file content' g = (Some err, f')"
    using write_directory_fails [OF dir] by blast
  have path: "new_bind_path E req bindFileUuid b t w = (Inr newPath, w)"
    using assms(4-6) by (simp add: new_bind_path_def seq_lift seq_ask)
  have remove: "removeBindFile E (topo_UUID t) (bind_FilePath b) w = (Inr (), w\<lparr>w_fs := g\<rparr>)"
    using d g assms(8,10) by (simp add: removeBindFile_def store_def DeleteBindFile_def deleteStorage_def)
  have save: "saveBindFile E (topo_UUID t) newPath content' (w\<lparr>w_fs := g\<rparr>) = (Inl err, w\<lparr>w_fs := f'\<rparr>)"
    using wr assms(9,11) by (simp add: saveBindFile_def store_def WriteBindFile_def writeStorage_def)
  have run: "UpdateBindFile E req bindFileUuid authUser w = (Inl err, w\<lparr>w_fs := f'\<rparr>)"
    using assms(1-3,7) path content remove save
    by (auto simp: UpdateBindFile_def ask_step seq_def handle_def)
  have "\<forall>n c. nodes f' (path_key old_file) \<noteq> Some (File n c)"
    using g write_directory_keeps_nothing [OF _ wr] by blast
  then have "\<forall>c. ReadBindFile ?m (topo_UUID t) (bind_FilePath b) f' \<noteq> Inr c"
    using assms(8,10,15)
    by (auto simp: ReadBindFile_def readStorage_def manager_read_def os_ReadFile_def lookup_def
        split: option.splits node.splits if_splits)
  with run show ?thesis by simp
qed

theorem rename_to_directory_loses_content_witness:
  "\<exists>err w'. UpdateBindFile demo_env \<lparr>bip_Content = None, bip_FilePath = Some ''a''\<rparr> ''b1'' demo_login demo_world
      = (Inl err, w')
    \<and> ReadBindFile (e_storage demo_env) ''t1'' ''a/b'' (w_fs demo_world) = Inr ''config''
    \<and> (\<forall>c. ReadBindFile (e_storage demo_env) ''t1'' ''a/b'' (w_fs w') \<noteq> Inr c)"
proof -
  let ?old = "Join [storagePath (e_storage demo_env), ''t1/a/b'']"
  let ?new = "Join [storagePath (e_storage demo_env), ''t1/a'']"
  have k: "path_key ?old = (True, [''data'', ''t1'', ''a'', ''b''])" "path_key ?new = (True, [''data'', ''t1'', ''a''])"
    by code_simp+
  have "GetBindFileByUuid (e_database demo_env) ''b1'' (w_db demo_world) = Inr demo_bind_file"
    and "topology_GetByUuid (e_database demo_env) (topo_UUID (bind_Topology demo_bind_file)) (w_db demo_world)
      = Inr demo_topology"
    and "ValidateBindFilePath ''a'' = Inr ''a''"
    and "DoesBindFilePathExist (e_database demo_env) ''a'' (topo_UUID demo_topology) ''b1'' (w_db demo_world) = Inr False"
    and "bindFilePath (topo_UUID demo_topology) (bind_FilePath demo_bind_file) = Inr ''t1/a/b''"
    and "bindFilePath (topo_UUID demo_topology) ''a'' = Inr ''t1/a''"
    and read: "ReadBindFile (e_storage demo_env) (topo_UUID demo_topology) (bind_FilePath demo_bind_file) (w_fs demo_world)
      = Inr ''config''"
    by code_simp+
  from rename_to_directory_loses_content [where authUser = demo_login
      and req = "\<lparr>bip_Content = None, bip_FilePath = Some ''a''\<rparr>" and perm = 488,
      OF this(1,2) _ _ this(3,4) _ this(5,6) refl refl this(7)]
  have "\<exists>err w'. UpdateBindFile demo_env \<lparr>bip_Content = None, bip_FilePath = Some ''a''\<rparr> ''b1'' demo_login demo_world
      = (Inl err, w') \<and> (\<forall>c. ReadBindFile (e_storage demo_env) (topo_UUID demo_topology)
        (bind_FilePath demo_bind_file) (w_fs w') \<noteq> Inr c)"
    using k by (auto simp: demo_login_def demo_topology_def demo_user_def demo_bind_file_def demo_world_def
        demo_fs_def below_def)
  with read show ?thesis by (simp add: demo_topology_def demo_bind_file_def)
qed

end
