(* ===== verification/Lab_Service.thy ===== *)
theory Lab_Service
  imports Topology_Service
begin

text \<open>
  The lab service of \<open>src/domain/lab/service.go\<close>. The runtime it asks which labs are running is an
  interface: two functions of the part of the world the services do not know. Calls of the logger
  are left out.
\<close>

record 'z runtime_service =
  rs_IsRunning :: "string \<Rightarrow> 'z \<Rightarrow> bool"
  rs_CanDelete :: "string \<Rightarrow> 'z \<Rightarrow> bool"

text \<open>A runtime service that is not set yet is \<open>None\<close>.\<close>

definition may_not_update :: "'z runtime_service option \<Rightarrow> string \<Rightarrow> ('db, 'h, 'z) world_scheme \<Rightarrow> bool" where
  "may_not_update rs labId w = (case rs of None \<Rightarrow> True | Some r \<Rightarrow> rs_IsRunning r labId (world.more w))"

definition may_not_delete :: "'z runtime_service option \<Rightarrow> string \<Rightarrow> ('db, 'h, 'z) world_scheme \<Rightarrow> bool" where
  "may_not_delete rs labId w = (case rs of None \<Rightarrow> True | Some r \<Rightarrow> \<not> rs_CanDelete r labId (world.more w))"

definition slash_error :: go_error where
  "slash_error = Wrap (Sentinel ErrInvalidLabName) ''the lab name can't contain slashes''"

section \<open>Reading labs\<close>

definition lab_service_Get ::
  "('db, 'node, 'h) env \<Rightarrow> lab_filter \<Rightarrow> authenticated_user
    \<Rightarrow> ('db, 'h, 'z) world_scheme \<Rightarrow> lab list result \<times> ('db, 'h, 'z) world_scheme" where
  "lab_service_Get E labFilter authUser =
     seq (ask (lab_GetAll (e_database E) (Some labFilter))) (\<lambda>labs.
     ret (filter (\<lambda>l. IsAdmin authUser \<or> allowed authUser (coll_Name (lab_Collection l))) labs))"

definition lab_service_GetByUuid ::
  "('db, 'node, 'h) env \<Rightarrow> string \<Rightarrow> authenticated_user
    \<Rightarrow> ('db, 'h, 'z) world_scheme \<Rightarrow> lab result \<times> ('db, 'h, 'z) world_scheme" where
  "lab_service_GetByUuid E labId authUser =
     seq (ask (lab_GetByUuid (e_database E) labId)) (\<lambda>lab.
     if \<not> IsAdmin authUser \<and> \<not> allowed authUser (coll_Name (lab_Collection lab))
     then fail (Sentinel ErrNoAccessToLab)
     else ret lab)"

section \<open>Run environments\<close>

definition ReplaceAll :: "char \<Rightarrow> string \<Rightarrow> string \<Rightarrow> string" where
  "ReplaceAll c new s = concat (map (\<lambda>x. if x = c then new else [x]) s)"

definition instanceNameSuffix ::
  "('db, 'node, 'h) env \<Rightarrow> ('db, 'h, 'z) world_scheme \<Rightarrow> string result \<times> ('db, 'h, 'z) world_scheme" where
  "instanceNameSuffix E = seq (GenerateUuid E) (\<lambda>u. ret (take 12 (ReplaceAll CHR ''-'' [] u)))"

definition renameTopology ::
  "('db, 'node, 'h) env \<Rightarrow> string \<Rightarrow> string
    \<Rightarrow> ('db, 'h, 'z) world_scheme \<Rightarrow> string result \<times> ('db, 'h, 'z) world_scheme" where
  "renameTopology E topologyId topologyName =
     seq (load (ReadTopology (e_storage E) topologyId)) (\<lambda>(definitionString, _).
     lift (renameDefinition (e_yaml_Unmarshal E) (e_yaml_Encode E) definitionString topologyName))"

definition createLabEnvironment ::
  "('db, 'node, 'h) env \<Rightarrow> lab \<Rightarrow> ('db, 'h, 'z) world_scheme \<Rightarrow> string result \<times> ('db, 'h, 'z) world_scheme" where
  "createLabEnvironment E lab =
     (let name = ReplaceAll CHR ''_'' ''-'' (ReplaceAll CHR '' '' ''-'' (topo_Name (lab_Topology lab))) in
      seq (instanceNameSuffix E) (\<lambda>suffix.
      (let runTopologyName = name @ ''-'' @ suffix in
      seq (renameTopology E (topo_UUID (lab_Topology lab)) runTopologyName) (\<lambda>runTopologyDefinition.
      seq (store_result (CreateRunEnvironment (e_Copy E) (e_storage E) (topo_UUID (lab_Topology lab)) (lab_UUID lab)
             runTopologyDefinition)) (\<lambda>_.
      ret runTopologyName)))))"

section \<open>Writing labs\<close>

text \<open>A name is free if the lookup finds no lab; every other error of it is returned.\<close>

definition check_name ::
  "('db, 'node, 'h) env \<Rightarrow> string \<Rightarrow> string \<Rightarrow> string option
    \<Rightarrow> ('db, 'h, 'z) world_scheme \<Rightarrow> unit result \<times> ('db, 'h, 'z) world_scheme" where
  "check_name E collectionName labName self w =
     (case lab_GetByCollectionAndName (e_database E) collectionName labName (w_db w) of
        Inr existing \<Rightarrow>
          if self = Some (lab_UUID existing) then (Inr (), w) else (Inl (Sentinel ErrLabNameExists), w)
      | Inl err \<Rightarrow> if errors_is err ErrLabNotFound then (Inr (), w) else (Inl err, w))"

text \<open>The gate of the policy: for users who are no admins, if the configuration has it.\<close>

definition policy_gate ::
  "('db, 'node, 'h) env \<Rightarrow> authenticated_user \<Rightarrow> string \<Rightarrow> topology_definition \<Rightarrow> yaml option \<Rightarrow> string
    \<Rightarrow> bind_file list \<Rightarrow> ('db, 'h, 'z) world_scheme \<Rightarrow> unit result \<times> ('db, 'h, 'z) world_scheme" where
  "policy_gate E authUser topologyId def_typed definitionRaw definitionString files =
     (if e_TopologyPolicy E \<and> \<not> IsAdmin authUser then
        seq (check_policy E topologyId definitionRaw (td_Topology def_typed) definitionString
               (map bind_FilePath files)) (\<lambda>findings.
        if findings \<noteq> [] then fail (Sentinel ErrUnsafeTopology) else ret ())
      else ret ())"

text \<open>The end of \<open>Create\<close>, once nothing speaks against the lab.\<close>

definition new_lab :: "lab_in \<Rightarrow> string \<Rightarrow> user \<Rightarrow> topology \<Rightarrow> string \<Rightarrow> string \<Rightarrow> lab" where
  "new_lab req labUuid creator labTopology definitionString annotationsString =
     zero_lab\<lparr>lab_UUID := labUuid, lab_Name := li_Name req, lab_StartTime := li_StartTime req,
       lab_EndTime := li_EndTime req, lab_Creator := creator, lab_Topology := labTopology,
       lab_Collection := topo_Collection labTopology, lab_TopologyDefinition := Some definitionString,
       lab_TopologyAnnotations := Some annotationsString\<rparr>"

definition add_lab ::
  "('db, 'node, 'h) env \<Rightarrow> lab_in \<Rightarrow> user \<Rightarrow> topology \<Rightarrow> string \<Rightarrow> string
    \<Rightarrow> ('db, 'h, 'z) world_scheme \<Rightarrow> string result \<times> ('db, 'h, 'z) world_scheme" where
  "add_lab E req creator labTopology definitionString annotationsString =
     seq (GenerateUuid E) (\<lambda>labUuid.
     (let lab = new_lab req labUuid creator labTopology definitionString annotationsString in
     seq (handle (createLabEnvironment E lab) (\<lambda>_. fail (Sentinel ErrAntimony))) (\<lambda>instanceName.
     seq (insert_row (lab_repo_Create (e_database E) (lab\<lparr>lab_InstanceName := instanceName\<rparr>))) (\<lambda>lab.
     seq (publish ''lab.created'' lab) (\<lambda>_.
     ret labUuid)))))"

definition lab_service_Create ::
  "('db, 'node, 'h) env \<Rightarrow> lab_in \<Rightarrow> authenticated_user
    \<Rightarrow> ('db, 'h, 'z) world_scheme \<Rightarrow> string result \<times> ('db, 'h, 'z) world_scheme" where
  "lab_service_Create E req authUser =
     seq (ask (topology_GetByUuid (e_database E) (li_TopologyId req))) (\<lambda>labTopology.
     if \<not> IsAdmin authUser \<and> (\<not> coll_PublicDeploy (topo_Collection labTopology)
          \<or> \<not> allowed authUser (coll_Name (topo_Collection labTopology)))
     then fail (Sentinel ErrNoDeployAccessToCollection)
     else
     seq (handle (ask (user_GetByUuid (e_database E) (UserId authUser)))
            (\<lambda>_. fail (Sentinel ErrUnauthorized))) (\<lambda>creator.
     if CHR ''/'' \<in> set (li_Name req) then fail slash_error
     else
     seq (check_name E (coll_Name (topo_Collection labTopology)) (li_Name req) None) (\<lambda>_.
     seq (handle (LoadTopology E (topo_UUID labTopology) []) (\<lambda>_. fail (Sentinel ErrAntimony)))
       (\<lambda>(definitionString, annotationsString, _).
     seq (handle (lift (schema_Parse (e_parsers E) definitionString)) (\<lambda>_. fail (Sentinel ErrAntimony)))
       (\<lambda>(def_typed, definitionRaw).
     seq (handle (ask (GetBindFileForTopology (e_database E) (topo_UUID labTopology)))
            (\<lambda>_. fail (Sentinel ErrAntimony))) (\<lambda>bindFiles.
     seq (policy_gate E authUser (topo_UUID labTopology) def_typed definitionRaw definitionString bindFiles) (\<lambda>_.
     add_lab E req creator labTopology definitionString annotationsString)))))))"

text \<open>The fields of a lab a request changes, and whether it changes a time.\<close>

definition new_times :: "lab_in_partial \<Rightarrow> lab \<Rightarrow> lab" where
  "new_times req lab =
     (let lab = (if lip_Indefinite req = Some True then lab\<lparr>lab_EndTime := None\<rparr>
                 else (case lip_EndTime req of None \<Rightarrow> lab | Some t \<Rightarrow> lab\<lparr>lab_EndTime := Some t\<rparr>))
      in case lip_StartTime req of None \<Rightarrow> lab | Some t \<Rightarrow> lab\<lparr>lab_StartTime := t\<rparr>)"

definition time_changed :: "lab_in_partial \<Rightarrow> bool" where
  "time_changed req = (lip_Indefinite req = Some True \<or> lip_EndTime req \<noteq> None \<or> lip_StartTime req \<noteq> None)"

definition new_lab_name ::
  "('db, 'node, 'h) env \<Rightarrow> lab_in_partial \<Rightarrow> lab
    \<Rightarrow> ('db, 'h, 'z) world_scheme \<Rightarrow> string result \<times> ('db, 'h, 'z) world_scheme" where
  "new_lab_name E req lab =
     (case lip_Name req of
        None \<Rightarrow> ret (lab_Name lab)
      | Some name \<Rightarrow>
          if CHR ''/'' \<in> set name then fail slash_error
          else seq (check_name E (coll_Name (lab_Collection lab)) name (Some (lab_UUID lab))) (\<lambda>_. ret name))"

definition lab_service_Update ::
  "('db, 'node, 'h) env \<Rightarrow> 'z runtime_service option \<Rightarrow> lab_in_partial \<Rightarrow> string \<Rightarrow> authenticated_user
    \<Rightarrow> ('db, 'h, 'z) world_scheme \<Rightarrow> unit result \<times> ('db, 'h, 'z) world_scheme" where
  "lab_service_Update E rs req labId authUser =
     seq (ask (lab_GetByUuid (e_database E) labId)) (\<lambda>lab.
     if \<not> IsAdmin authUser \<and> UserId authUser \<noteq> user_UUID (lab_Creator lab)
     then fail (Sentinel ErrNoWriteAccessToLab)
     else (\<lambda>w. if may_not_update rs (lab_UUID lab) w then (Inl (Sentinel ErrLabRunning), w) else
       seq (new_lab_name E req lab) (\<lambda>name.
       (let lab = new_times req (lab\<lparr>lab_Name := name\<rparr>) in
       seq (exec (lab_repo_Update (e_database E) lab)) (\<lambda>_.
       if time_changed req then publish ''lab.moved'' lab else ret ()))) w))"

definition remove_lab ::
  "('db, 'node, 'h) env \<Rightarrow> lab \<Rightarrow> ('db, 'h, 'z) world_scheme \<Rightarrow> unit result \<times> ('db, 'h, 'z) world_scheme" where
  "remove_lab E lab =
     seq (handle (store (DeleteRunEnvironment (e_storage E) (lab_UUID lab))) (\<lambda>err.
       seq (send_status E WarningLevel ''Lab Manager''
         (''Failed to remove run environment for '' @ lab_Name lab @ '': '' @ error_text err)
         [''Failed to remove run environment'', ''lab'', lab_UUID lab, ''instance'', lab_InstanceName lab,
          ''topo'', topo_Name (lab_Topology lab)]) (\<lambda>_. fail err))) (\<lambda>_.
     seq (publish ''lab.deleted'' lab) (\<lambda>_.
     exec (lab_repo_Delete (e_database E) lab)))"

definition deleteLab ::
  "('db, 'node, 'h) env \<Rightarrow> 'z runtime_service option \<Rightarrow> lab
    \<Rightarrow> ('db, 'h, 'z) world_scheme \<Rightarrow> unit result \<times> ('db, 'h, 'z) world_scheme" where
  "deleteLab E rs lab w =
     (if may_not_delete rs (lab_UUID lab) w then (Inl (Sentinel ErrLabRunning), w) else remove_lab E lab w)"

definition lab_service_Delete ::
  "('db, 'node, 'h) env \<Rightarrow> 'z runtime_service option \<Rightarrow> string \<Rightarrow> authenticated_user
    \<Rightarrow> ('db, 'h, 'z) world_scheme \<Rightarrow> unit result \<times> ('db, 'h, 'z) world_scheme" where
  "lab_service_Delete E rs labId authUser =
     seq (ask (lab_GetByUuid (e_database E) labId)) (\<lambda>lab.
     if \<not> IsAdmin authUser \<and> UserId authUser \<noteq> user_UUID (lab_Creator lab)
     then fail (Sentinel ErrNoWriteAccessToLab)
     else deleteLab E rs lab)"

definition still_running :: "lab \<Rightarrow> go_error" where
  "still_running lab = Wrap (Sentinel ErrLabRunning) (''lab '' @ quote (lab_Name lab) @ '' is still running'')"

fun delete_labs ::
  "('db, 'node, 'h) env \<Rightarrow> 'z runtime_service option \<Rightarrow> lab list
    \<Rightarrow> ('db, 'h, 'z) world_scheme \<Rightarrow> unit result \<times> ('db, 'h, 'z) world_scheme" where
  "delete_labs E rs [] = ret ()"
| "delete_labs E rs (l # ls) = seq (deleteLab E rs l) (\<lambda>_. delete_labs E rs ls)"

definition DeleteLabsOfCollection ::
  "('db, 'node, 'h) env \<Rightarrow> 'z runtime_service option \<Rightarrow> string
    \<Rightarrow> ('db, 'h, 'z) world_scheme \<Rightarrow> unit result \<times> ('db, 'h, 'z) world_scheme" where
  "DeleteLabsOfCollection E rs collectionId =
     seq (ask (lab_GetByCollection (e_database E) collectionId)) (\<lambda>labs w.
     case find (\<lambda>l. may_not_delete rs (lab_UUID l) w) labs of
       Some l \<Rightarrow> (Inl (still_running l), w)
     | None \<Rightarrow> delete_labs E rs labs w)"

section \<open>The cache of the policy engine\<close>

text \<open>
  The cache is right if every result it holds is the result of a check of what was hashed. Both forms
  of a definition are functions of its text, those the schema service computes.
\<close>

definition parsed :: "('db, 'node, 'h) env \<Rightarrow> string \<Rightarrow> yaml option \<times> clab_topology option" where
  "parsed E s = (case schema_Parse (e_parsers E) s of Inl _ \<Rightarrow> (None, None) | Inr (d, raw) \<Rightarrow> (raw, td_Topology d))"

definition cache_right :: "('db, 'node, 'h) env \<Rightarrow> 'h engine \<Rightarrow> bool" where
  "cache_right E e \<longleftrightarrow> findings_cache.coherent
     (right_findings (e_sha256 E) (e_clab E) (engine_options e) (parsed E)) (engine_cache e)"

definition engine_check_of ::
  "('db, 'node, 'h) env \<Rightarrow> 'h engine \<Rightarrow> yaml option \<Rightarrow> clab_topology option \<Rightarrow> string \<Rightarrow> string list \<Rightarrow> finding list" where
  "engine_check_of E e raw topology s files =
     check \<lparr>clab = e_clab E, opts = engine_options e, bindFiles = files\<rparr> raw topology s"

text \<open>No text that parses and no path in the database has 2^64 bytes, so the lengths that are hashed are exact.\<close>

definition small_texts :: "('db, 'node, 'h) env \<Rightarrow> ('db, 'h, 'z) world_scheme \<Rightarrow> bool" where
  "small_texts E w \<longleftrightarrow>
     (\<forall>s r. schema_Parse (e_parsers E) s = Inr r \<longrightarrow> length s < 2 ^ 64)
     \<and> (\<forall>t files f. GetBindFileForTopology (e_database E) t (w_db w) = Inr files \<longrightarrow> f \<in> set files \<longrightarrow>
          length (bind_FilePath f) < 2 ^ 64)"

lemma cache_right_create: "cache_right E (CreateEngine o')"
  using findings_cache.coherent_empty by (simp add: cache_right_def CreateEngine_def)

lemma cache_right_forget: "cache_right E e \<Longrightarrow> cache_right E (engine_Forget t e)"
  using findings_cache.coherent_forget by (simp add: cache_right_def engine_Forget_def)

lemma check_policy_right:
  assumes "inj (e_sha256 E)" and "cache_right E (w_engine w)"
    and "schema_Parse (e_parsers E) s = Inr (d, raw)" and "\<forall>x \<in> set (s # files). length x < 2 ^ 64"
    and "check_policy E t raw (td_Topology d) s files w = (r, w')"
  shows "r = Inr (engine_check_of E (w_engine w) raw (td_Topology d) s files)
    \<and> cache_right E (w_engine w') \<and> engine_options (w_engine w') = engine_options (w_engine w)
    \<and> w' = w\<lparr>w_engine := w_engine w'\<rparr>"
proof -
  let ?e = "w_engine w" and ?h = "hashInput (e_sha256 E) s files"
  let ?right = "right_findings (e_sha256 E) (e_clab E) (engine_options ?e) (parsed E)"
  let ?r = "engine_check_of E ?e raw (td_Topology d) s files"
  have small: "small_call (CheckCall [] s files)" using assms(4) by simp
  have p: "parsed E s = (raw, td_Topology d)" using assms(3) by (simp add: parsed_def)
  have right: "?right ?h ?r"
    using right_findings_check [OF assms(1) small, of "e_clab E" "engine_options ?e" "parsed E"] p
    by (simp add: engine_check_of_def)
  have coh: "findings_cache.coherent ?right (engine_cache ?e)" using assms(2) by (simp add: cache_right_def)
  show ?thesis
  proof (cases "cache_get t ?h (engine_cache ?e)")
    case None
    with assms(5) findings_cache.coherent_put [OF coh right, of t] show ?thesis
      by (auto simp: check_policy_def engine_Check_def Let_def engine_check_of_def cache_right_def)
  next
    case (Some fs)
    have "fs = ?r"
      using findings_cache.coherent_get [OF coh Some] small p by (auto simp: right_findings_def engine_check_of_def)
    with Some assms(2,5) show ?thesis by (auto simp: check_policy_def engine_Check_def Let_def)
  qed
qed

section \<open>Deleting the labs of a collection\<close>

text \<open>Deleting a lab does not reach the runtime, so what could be deleted before can be deleted after.\<close>

lemma remove_lab_more: "kept world.more (remove_lab E l)"
  unfolding remove_lab_def by (intro keeps)

lemma deleteLab_more: "kept world.more (deleteLab E rs l)"
  by (simp add: kept_def deleteLab_def kept_apply [OF remove_lab_more])

lemma never_running_delete:
  assumes "deleteLab E rs l w = (Inl e, w')" and "\<not> may_not_delete rs (lab_UUID l) w"
  shows "\<not> errors_is e ErrLabRunning"
  using assms by (auto simp: deleteLab_def remove_lab_def seq_def handle_def store_def publish_def exec_def send_status_def
      GenerateUuid_def Let_def DeleteRunEnvironment_def deleteRun_def manager_delete_def os_RemoveAll_def os_error_def
      lab_repo_Delete_def delete_row_def to_result_def split: if_splits prod.splits sum.splits option.splits)

lemma may_not_delete_more:
  "world.more w' = world.more w \<Longrightarrow> may_not_delete rs labId w' = may_not_delete rs labId w"
  by (cases rs) (simp_all add: may_not_delete_def)

lemma delete_labs_not_running:
  assumes "delete_labs E rs ls w = (Inl e, w')" and "\<forall>l \<in> set ls. \<not> may_not_delete rs (lab_UUID l) w"
  shows "\<not> errors_is e ErrLabRunning"
  using assms
proof (induction ls arbitrary: w)
  case (Cons l ls)
  then consider "deleteLab E rs l w = (Inl e, w')"
    | u w1 where "deleteLab E rs l w = (Inr u, w1)" "delete_labs E rs ls w1 = (Inl e, w')"
    by (auto simp: seq_Inl)
  then show ?case
  proof cases
    case 1
    with Cons.prems(2) never_running_delete show ?thesis by fastforce
  next
    case 2
    then have "\<forall>l \<in> set ls. \<not> may_not_delete rs (lab_UUID l) w1"
      using Cons.prems(2) may_not_delete_more [OF keptD [OF deleteLab_more 2(1)]] by auto
    with Cons.IH 2 show ?thesis by blast
  qed
qed simp

lemma labs_of_collection_blocked:
  assumes "DeleteLabsOfCollection E rs collectionId w = (Inl e, w')" and "errors_is e ErrLabRunning"
  shows "w' = w"
proof -
  consider "w' = w"
    | labs where "find (\<lambda>l. may_not_delete rs (lab_UUID l) w) labs = None" "delete_labs E rs labs w = (Inl e, w')"
    using assms(1) by (auto simp: DeleteLabsOfCollection_def seq_Inl ask_step split: option.splits)
  then show ?thesis
  proof cases
    case 2
    then have "\<forall>l \<in> set labs. \<not> may_not_delete rs (lab_UUID l) w" by (auto simp: find_None_iff)
    with delete_labs_not_running [OF 2(2)] assms(2) show ?thesis by blast
  qed
qed

lemma labs_of_collection_running:
  assumes "lab_GetByCollection (e_database E) collectionId (w_db w) = Inr labs" and "l \<in> set labs"
    and "may_not_delete rs (lab_UUID l) w"
  shows "\<exists>l'. DeleteLabsOfCollection E rs collectionId w = (Inl (still_running l'), w)"
proof -
  obtain l' where "find (\<lambda>l. may_not_delete rs (lab_UUID l) w) labs = Some l'"
    using assms(2,3) by (cases "find (\<lambda>l. may_not_delete rs (lab_UUID l) w) labs") (auto simp: find_None_iff)
  with assms(1) show ?thesis by (auto simp: DeleteLabsOfCollection_def seq_ask)
qed

section \<open>Properties\<close>

definition name_free :: "'db database \<Rightarrow> string \<Rightarrow> string \<Rightarrow> string option \<Rightarrow> 'db \<Rightarrow> bool" where
  "name_free D collectionName labName self db \<longleftrightarrow>
     (case lab_GetByCollectionAndName D collectionName labName db of
        Inr existing \<Rightarrow> self = Some (lab_UUID existing)
      | Inl err \<Rightarrow> errors_is err ErrLabNotFound)"

lemma check_name_Inr:
  "check_name E c n self w = (Inr u, w') \<longleftrightarrow> name_free (e_database E) c n self (w_db w) \<and> w' = w"
  by (auto simp: check_name_def name_free_def split: sum.splits if_splits)

lemma LoadTopology_Inr:
  "LoadTopology E t [] w = (Inr x, w') \<longleftrightarrow>
     (\<exists>d a. x = (d, a, []) \<and> ReadTopology (e_storage E) t (w_fs w) = Inr (d, a)) \<and> w' = w"
  by (auto simp: LoadTopology_def seq_load_Inr step_Inr split: prod.splits)

text \<open>A run of \<open>Create\<close> that succeeded, step by step.\<close>

lemma lab_create_Inr:
  assumes "lab_service_Create E req authUser w = (Inr labId, w')"
  obtains t u d a d' raw files v w1 where
    "topology_GetByUuid (e_database E) (li_TopologyId req) (w_db w) = Inr t"
    "IsAdmin authUser \<or> coll_PublicDeploy (topo_Collection t) \<and> allowed authUser (coll_Name (topo_Collection t))"
    "user_GetByUuid (e_database E) (UserId authUser) (w_db w) = Inr u"
    "name_free (e_database E) (coll_Name (topo_Collection t)) (li_Name req) None (w_db w)"
    "ReadTopology (e_storage E) (topo_UUID t) (w_fs w) = Inr (d, a)"
    "schema_Parse (e_parsers E) d = Inr (d', raw)"
    "GetBindFileForTopology (e_database E) (topo_UUID t) (w_db w) = Inr files"
    "policy_gate E authUser (topo_UUID t) d' raw d files w = (Inr v, w1)"
    "add_lab E req u t d a w1 = (Inr labId, w')"
  using assms
  by (clarsimp simp: lab_service_Create_def step_Inr LoadTopology_Inr check_name_Inr split: prod.splits)

lemma policy_gate_Inr:
  assumes "policy_gate E authUser t d raw s files w = (Inr v, w1)"
    and "e_TopologyPolicy E" and "\<not> IsAdmin authUser"
    and "inj (e_sha256 E)" and "cache_right E (w_engine w)" and "schema_Parse (e_parsers E) s = Inr (d, raw)"
    and "\<forall>x \<in> set (s # map bind_FilePath files). length x < 2 ^ 64"
  shows "engine_check_of E (w_engine w) raw (td_Topology d) s (map bind_FilePath files) = []"
proof -
  have "check_policy E t raw (td_Topology d) s (map bind_FilePath files) w = (Inr [], w1)"
    using assms(1-3) by (auto simp: policy_gate_def seq_Inr split: if_splits)
  from check_policy_right [OF assms(4-7) this] show ?thesis by simp
qed

text \<open>C2: A user who is no admin creates a lab, with the policy enabled, only in a collection they are in
  that allows deployments, and only from a topology whose stored definition has no unsafe feature:
  no template, only reviewed and allowed keys, and nothing in the typed definition that reaches the
  server. The cache of the engine does not change that, whatever checks came before.\<close>

theorem create_lab_only_from_safe_topology:
  assumes "lab_service_Create E req authUser w = (Inr labId, w')" and "\<not> IsAdmin authUser"
    and "e_TopologyPolicy E" and "inj (e_sha256 E)" and "cache_right E (w_engine w)" and "small_texts E w"
  shows "\<exists>t d a typed raw files. topology_GetByUuid (e_database E) (li_TopologyId req) (w_db w) = Inr t
    \<and> coll_PublicDeploy (topo_Collection t) \<and> coll_Name (topo_Collection t) \<in> set (Collections authUser)
    \<and> ReadTopology (e_storage E) (topo_UUID t) (w_fs w) = Inr (d, a)
    \<and> schema_Parse (e_parsers E) d = Inr (typed, raw)
    \<and> GetBindFileForTopology (e_database E) (topo_UUID t) (w_db w) = Inr files
    \<and> \<not> template_pattern d \<and> \<not> env_pattern d \<and> safe_root raw
    \<and> (\<forall>topo. td_Topology typed = Some topo \<longrightarrow> safe_topology
        \<lparr>clab = e_clab E, opts = engine_options (w_engine w), bindFiles = map bind_FilePath files\<rparr> topo)"
proof -
  obtain t u d a d' raw files v w1 where
    t: "topology_GetByUuid (e_database E) (li_TopologyId req) (w_db w) = Inr t"
    and may: "IsAdmin authUser \<or> coll_PublicDeploy (topo_Collection t) \<and> allowed authUser (coll_Name (topo_Collection t))"
    and d: "ReadTopology (e_storage E) (topo_UUID t) (w_fs w) = Inr (d, a)"
    and p: "schema_Parse (e_parsers E) d = Inr (d', raw)"
    and files: "GetBindFileForTopology (e_database E) (topo_UUID t) (w_db w) = Inr files"
    and gate: "policy_gate E authUser (topo_UUID t) d' raw d files w = (Inr v, w1)"
    using lab_create_Inr [OF assms(1)] by metis
  have small: "\<forall>x \<in> set (d # map bind_FilePath files). length x < 2 ^ 64"
    using assms(6) p files by (auto simp: small_texts_def)
  note none = policy_gate_Inr [OF gate assms(3,2,4,5) p small]
  have "\<not> template_pattern d \<and> \<not> env_pattern d \<and> safe_root raw
    \<and> (\<forall>topo. td_Topology d' = Some topo \<longrightarrow> safe_topology
        \<lparr>clab = e_clab E, opts = engine_options (w_engine w), bindFiles = map bind_FilePath files\<rparr> topo)"
    using none by (cases "td_Topology d'") (auto simp: engine_check_of_def check_Nil)
  with t may assms(2) d p files show ?thesis by (auto simp: allowed_def)
qed

text \<open>A lab that was created is ready to be deployed: its name is free in its collection and has no
  slash, its run environment holds the definition of the topology with the instance name for its name,
  the row that was saved has that instance name, and the scheduler is told of it last.\<close>

theorem create_lab_prepares_run:
  assumes "lab_service_Create E req authUser w = (Inr labId, w')"
  shows "\<exists>t d a iname def_run row row'. topology_GetByUuid (e_database E) (li_TopologyId req) (w_db w) = Inr t
    \<and> name_free (e_database E) (coll_Name (topo_Collection t)) (li_Name req) None (w_db w)
    \<and> ReadTopology (e_storage E) (topo_UUID t) (w_fs w) = Inr (d, a)
    \<and> renameDefinition (e_yaml_Unmarshal E) (e_yaml_Encode E) d iname = Inr def_run
    \<and> ReadRunTopologyDefinition (e_storage E) labId (w_fs w') = Inr def_run
    \<and> lab_repo_Create (e_database E) row (w_db w) = (Inr row', w_db w')
    \<and> lab_UUID row = labId \<and> lab_Name row = li_Name req \<and> lab_InstanceName row = iname
    \<and> lab_StartTime row = li_StartTime req \<and> lab_EndTime row = li_EndTime req
    \<and> w_published w' = w_published w @ [(''lab.created'', row')]"
proof -
  obtain t u d a d' raw files v w1 where
    t: "topology_GetByUuid (e_database E) (li_TopologyId req) (w_db w) = Inr t"
    and free: "name_free (e_database E) (coll_Name (topo_Collection t)) (li_Name req) None (w_db w)"
    and d: "ReadTopology (e_storage E) (topo_UUID t) (w_fs w) = Inr (d, a)"
    and gate: "policy_gate E authUser (topo_UUID t) d' raw d files w = (Inr v, w1)"
    and add: "add_lab E req u t d a w1 = (Inr labId, w')"
    using lab_create_Inr [OF assms(1)] by metis
  have w1: "w_fs w1 = w_fs w" "w_db w1 = w_db w" "w_published w1 = w_published w"
    using gate by (auto simp: policy_gate_def seq_Inr check_policy_def split: if_splits prod.splits)
  let ?w2 = "w1\<lparr>w_uuids := Suc (w_uuids w1)\<rparr>" and ?lab = "new_lab req labId u t d a"
  obtain iname w3 row' db where
    run: "createLabEnvironment E ?lab ?w2 = (Inr iname, w3)"
    and row: "lab_repo_Create (e_database E) (?lab\<lparr>lab_InstanceName := iname\<rparr>) (w_db w3) = (Inr row', db)"
    and w': "w' = w3\<lparr>w_db := db, w_published := w_published w3 @ [(''lab.created'', row')]\<rparr>"
    using add by (auto simp: add_lab_def Let_def step_Inr publish_def)
  have lab: "lab_Topology ?lab = t" "lab_UUID ?lab = labId" "lab_Name ?lab = li_Name req"
      "lab_StartTime ?lab = li_StartTime req" "lab_EndTime ?lab = li_EndTime req"
    by (simp_all add: new_lab_def)
  obtain def_run p f where
    ren: "renameDefinition (e_yaml_Unmarshal E) (e_yaml_Encode E) d iname = Inr def_run"
    and c: "CreateRunEnvironment (e_Copy E) (e_storage E) (topo_UUID t) labId def_run (w_fs w) = (Inr p, f)"
    and w3: "w3 = ?w2\<lparr>w_uuids := Suc (w_uuids ?w2), w_fs := f\<rparr>"
    using run d lab w1
    by (auto simp: createLabEnvironment_def Let_def instanceNameSuffix_def renameTopology_def step_Inr)
  obtain g where "manager_write (e_storage E)
      (Join [runPath (e_storage E), getRunDefinitionFilePath labId]) def_run g = (None, f)"
    using c by (auto simp: CreateRunEnvironment_def Let_def writeRun_def split: prod.splits option.splits)
  from write_read [OF this] have "ReadRunTopologyDefinition (e_storage E) labId (w_fs w') = Inr def_run"
    using w3 w' by (simp add: ReadRunTopologyDefinition_def readRun_def manager_read_def)
  moreover have "lab_repo_Create (e_database E) (?lab\<lparr>lab_InstanceName := iname\<rparr>) (w_db w) = (Inr row', w_db w')"
    and "w_published w' = w_published w @ [(''lab.created'', row')]"
    using row w' w3 w1 by simp_all
  moreover have "lab_UUID (?lab\<lparr>lab_InstanceName := iname\<rparr>) = labId \<and> lab_Name (?lab\<lparr>lab_InstanceName := iname\<rparr>) = li_Name req
      \<and> lab_InstanceName (?lab\<lparr>lab_InstanceName := iname\<rparr>) = iname
      \<and> lab_StartTime (?lab\<lparr>lab_InstanceName := iname\<rparr>) = li_StartTime req
      \<and> lab_EndTime (?lab\<lparr>lab_InstanceName := iname\<rparr>) = li_EndTime req"
    using lab by simp
  ultimately show ?thesis using t free d ren by blast
qed

definition demo_lab_in :: lab_in where
  "demo_lab_in = \<lparr>li_Name = ''second'', li_StartTime = 5, li_EndTime = None, li_TopologyId = ''t1''\<rparr>"

lemma demo_rename: "renameDefinition (e_yaml_Unmarshal demo_env) (e_yaml_Encode demo_env) s name = Inr ''name: net-1''"
  by (simp add: renameDefinition_def demo_env_def demo_document_def scalar_node_def EncodeYaml_def)

lemma demo_run_created:
  obtains p f where "CreateRunEnvironment (e_Copy demo_env) (e_storage demo_env) ''t1'' ''id-'' ''name: net-1'' demo_fs = (Inr p, f)"
proof -
  have "fst (CreateRunEnvironment (e_Copy demo_env) (e_storage demo_env) ''t1'' ''id-'' ''name: net-1'' demo_fs)
      = Inr ''/run/id-/topology.clab.yaml''" by code_simp
  with that show thesis by (metis prod.collapse)
qed

lemma demo_queries:
  "topology_GetByUuid memory_database ''t1'' demo_memory = Inr demo_topology"
  "user_GetByUuid memory_database ''u1'' demo_memory = Inr demo_user"
  "lab_GetByCollectionAndName memory_database ''open'' ''second'' demo_memory = Inl (Sentinel ErrLabNotFound)"
  "GetBindFileForTopology memory_database ''t1'' demo_memory = Inr [demo_bind_file]"
  "ReadTopology (e_storage demo_env) ''t1'' demo_fs = Inr (''name: net'', ''{}'')"
  "schema_Parse (e_parsers demo_env) ''name: net'' = Inr (demo_typed, Some demo_raw)"
  by code_simp+

lemma demo_safe:
  "check \<lparr>clab = e_clab demo_env, opts = o', bindFiles = files\<rparr> (Some demo_raw) None ''name: net'' = []"
  by (simp add: check_Nil template_pattern_def demo_raw_def safe_root_def safe_keys_def)

lemma demo_check:
  obtains e where "check_policy demo_env ''t1'' (Some demo_raw) None ''name: net'' [''a/b''] demo_world
    = (Inr [], demo_world\<lparr>w_engine := e\<rparr>)"
  using that by (simp add: check_policy_def engine_Check_def CreateEngine_def findings_cache.get_empty demo_safe Let_def)

lemma demo_gate:
  obtains v w where "policy_gate demo_env demo_login ''t1'' demo_typed (Some demo_raw) ''name: net'' [demo_bind_file] demo_world
    = (Inr v, w)" "w_fs w = demo_fs" "w_db w = demo_memory" "w_uuids w = 0" "w_published w = []"
proof -
  obtain e where "check_policy demo_env ''t1'' (Some demo_raw) None ''name: net'' [''a/b''] demo_world
      = (Inr [], demo_world\<lparr>w_engine := e\<rparr>)"
    by (rule demo_check)
  moreover have "e_TopologyPolicy demo_env" "\<not> IsAdmin demo_login" by (simp_all add: demo_env_def demo_login_def)
  ultimately have "policy_gate demo_env demo_login ''t1'' demo_typed (Some demo_raw) ''name: net'' [demo_bind_file] demo_world
    = (Inr (), demo_world\<lparr>w_engine := e\<rparr>)"
    by (simp add: policy_gate_def seq_def demo_typed_def demo_bind_file_def)
  then show thesis by (rule that) (simp_all add: demo_world_def)
qed

lemma demo_lab_created:
  obtains w' where "lab_service_Create demo_env demo_lab_in demo_login demo_world = (Inr ''id-'', w')"
proof -
  obtain p f where c: "CreateRunEnvironment (e_Copy demo_env) (e_storage demo_env) ''t1'' ''id-'' ''name: net-1'' demo_fs
      = (Inr p, f)" by (rule demo_run_created)
  obtain v w where g: "policy_gate demo_env demo_login ''t1'' demo_typed (Some demo_raw) ''name: net'' [demo_bind_file]
      demo_world = (Inr v, w)" "w_fs w = demo_fs" "w_db w = demo_memory" "w_uuids w = 0" "w_published w = []" by (rule demo_gate)
  have uuid: "e_uuid demo_env 0 = ''id-''" by (simp add: demo_env_def)
  have "\<exists>w'. add_lab demo_env demo_lab_in demo_user demo_topology ''name: net'' ''{}'' w = (Inr ''id-'', w')"
    using c g(2-) uuid demo_queries(5)
    by (simp add: add_lab_def new_lab_def seq_def handle_def GenerateUuid_def createLabEnvironment_def
        instanceNameSuffix_def renameTopology_def load_step store_result_def demo_rename Let_def demo_topology_def
        insert_row_def lab_repo_Create_def create_row_def memory_database_def memory_table_def publish_def)
  then obtain w' where a: "add_lab demo_env demo_lab_in demo_user demo_topology ''name: net'' ''{}'' w = (Inr ''id-'', w')"
    by blast
  have t: "topo_UUID demo_topology = ''t1''" "coll_PublicDeploy (topo_Collection demo_topology)"
      "coll_Name (topo_Collection demo_topology) = ''open''" "allowed demo_login ''open''" "\<not> IsAdmin demo_login"
      "UserId demo_login = ''u1''" "li_TopologyId demo_lab_in = ''t1''" "li_Name demo_lab_in = ''second''"
    by (simp_all add: demo_topology_def demo_collection_def demo_login_def allowed_def demo_lab_in_def)
  have "LoadTopology demo_env ''t1'' [] demo_world = (Inr (''name: net'', ''{}'', []), demo_world)"
    using demo_queries(5) by (simp add: LoadTopology_Inr)
  then have "lab_service_Create demo_env demo_lab_in demo_login demo_world = (Inr ''id-'', w')"
    using a g(1) t demo_queries
    by (simp add: lab_service_Create_def seq_def handle_def ask_step check_name_def)
  then show thesis by (rule that)
qed

theorem create_lab_prepares_run_witness:
  "\<exists>w' iname def_run. lab_service_Create demo_env demo_lab_in demo_login demo_world = (Inr ''id-'', w')
    \<and> renameDefinition (e_yaml_Unmarshal demo_env) (e_yaml_Encode demo_env) ''name: net'' iname = Inr def_run
    \<and> ReadRunTopologyDefinition (e_storage demo_env) ''id-'' (w_fs w') = Inr def_run"
proof -
  obtain w' where w': "lab_service_Create demo_env demo_lab_in demo_login demo_world = (Inr ''id-'', w')"
    by (rule demo_lab_created)
  have "topology_GetByUuid memory_database ''t1'' demo_memory = Inr demo_topology" by code_simp
  moreover have "ReadTopology (e_storage demo_env) (topo_UUID demo_topology) demo_fs = Inr (''name: net'', ''{}'')"
    by code_simp
  ultimately show ?thesis
    using create_lab_prepares_run [OF w'] w' by (auto simp: demo_lab_in_def)
qed

lemma demo_small: "small_texts demo_env demo_world"
proof -
  have "length s < 2 ^ 64" if "schema_Parse (e_parsers demo_env) s = Inr r" for s r
    using that by (auto simp: schema_Parse_def demo_env_def demo_service_parsers_def split: if_splits sum.splits)
  moreover have "files \<in> {[], [demo_bind_file]}"
    if "GetBindFileForTopology memory_database t demo_memory = Inr files" for t files
    using that by (auto simp: GetBindFileForTopology_def find_all_def memory_database_def memory_table_def
        select_def demo_memory_def split: if_splits)
  ultimately show ?thesis
    by (fastforce simp: small_texts_def demo_bind_file_def)
qed

theorem create_lab_only_from_safe_topology_witness:
  "\<not> template_pattern ''name: net'' \<and> safe_root (Some demo_raw)"
proof -
  obtain w' where w': "lab_service_Create demo_env demo_lab_in demo_login demo_world = (Inr ''id-'', w')"
    by (rule demo_lab_created)
  have "topology_GetByUuid memory_database ''t1'' demo_memory = Inr demo_topology" by code_simp
  moreover have "ReadTopology (e_storage demo_env) (topo_UUID demo_topology) demo_fs = Inr (''name: net'', ''{}'')"
    by code_simp
  moreover have "schema_Parse (e_parsers demo_env) ''name: net'' = Inr (demo_typed, Some demo_raw)"
    by code_simp
  moreover have "inj (\<lambda>s :: string. s)" "e_TopologyPolicy demo_env" "\<not> IsAdmin demo_login"
    by (simp_all add: demo_env_def demo_login_def)
  ultimately show ?thesis
    using create_lab_only_from_safe_topology [OF w' _ _ _ _ demo_small] cache_right_create [of demo_env]
    by (auto simp: demo_lab_in_def)
qed

end
