(* ===== verification/Collection_Service.thy ===== *)
theory Collection_Service
  imports Lab_Service
begin

text \<open>
  The collection service of \<open>src/domain/collection/service.go\<close>. It deletes labs and topologies through
  the interfaces \<open>LabRemover\<close> and \<open>TopologyRemover\<close>, the two functions \<open>collection_service_Delete\<close> takes.
  What it relies on is the locale \<open>lab_remover\<close>, which the lab service provides.
\<close>

definition collection_service_Get ::
  "('db, 'node, 'h) env \<Rightarrow> authenticated_user
    \<Rightarrow> ('db, 'h, 'z) world_scheme \<Rightarrow> collection list result \<times> ('db, 'h, 'z) world_scheme" where
  "collection_service_Get E authUser =
     ask (if IsAdmin authUser then collection_GetAll (e_database E)
          else collection_GetByNames (e_database E) (Collections authUser))"

definition collection_service_Create ::
  "('db, 'node, 'h) env \<Rightarrow> collection_in \<Rightarrow> authenticated_user
    \<Rightarrow> ('db, 'h, 'z) world_scheme \<Rightarrow> string result \<times> ('db, 'h, 'z) world_scheme" where
  "collection_service_Create E req authUser =
     (if \<not> IsAdmin authUser then fail (Sentinel ErrNoPermissionToCreateCollections)
      else
      seq (ask (collection_DoesNameExist (e_database E) (ci_Name req))) (\<lambda>nameExists.
      if nameExists then fail (Sentinel ErrCollectionExists)
      else
      seq (GenerateUuid E) (\<lambda>newUuid.
      seq (ask (user_GetByUuid (e_database E) (UserId authUser))) (\<lambda>creator.
      seq (insert_row (collection_repo_Create (e_database E)
             (zero_collection\<lparr>coll_UUID := newUuid, coll_Name := ci_Name req, coll_PublicWrite := ci_PublicWrite req,
                coll_PublicDeploy := ci_PublicDeploy req, coll_Creator := creator\<rparr>))) (\<lambda>_.
      ret newUuid)))))"

definition new_collection_name ::
  "('db, 'node, 'h) env \<Rightarrow> collection_in_partial \<Rightarrow> collection
    \<Rightarrow> ('db, 'h, 'z) world_scheme \<Rightarrow> string result \<times> ('db, 'h, 'z) world_scheme" where
  "new_collection_name E req collection =
     (case cip_Name req of
        None \<Rightarrow> ret (coll_Name collection)
      | Some name \<Rightarrow>
          if coll_Name collection \<noteq> name then
            seq (ask (collection_DoesNameExist (e_database E) name)) (\<lambda>nameExists.
            if nameExists then fail (Sentinel ErrCollectionExists) else ret name)
          else ret name)"

definition collection_service_Update ::
  "('db, 'node, 'h) env \<Rightarrow> collection_in_partial \<Rightarrow> string \<Rightarrow> authenticated_user
    \<Rightarrow> ('db, 'h, 'z) world_scheme \<Rightarrow> unit result \<times> ('db, 'h, 'z) world_scheme" where
  "collection_service_Update E req collectionId authUser =
     seq (ask (collection_GetByUuid (e_database E) collectionId)) (\<lambda>collection.
     if \<not> IsAdmin authUser \<and> UserId authUser \<noteq> user_UUID (coll_Creator collection)
     then fail (Sentinel ErrNoWriteAccessToCollection)
     else
     seq (new_collection_name E req collection) (\<lambda>name.
     exec (collection_repo_Update (e_database E)
       (collection\<lparr>coll_Name := name,
          coll_PublicWrite := case_option (coll_PublicWrite collection) id (cip_PublicWrite req),
          coll_PublicDeploy := case_option (coll_PublicDeploy collection) id (cip_PublicDeploy req)\<rparr>))))"

definition collection_service_Delete ::
  "('db, 'node, 'h) env
    \<Rightarrow> (string \<Rightarrow> ('db, 'h, 'z) world_scheme \<Rightarrow> unit result \<times> ('db, 'h, 'z) world_scheme)
    \<Rightarrow> (string \<Rightarrow> ('db, 'h, 'z) world_scheme \<Rightarrow> unit result \<times> ('db, 'h, 'z) world_scheme)
    \<Rightarrow> string \<Rightarrow> authenticated_user
    \<Rightarrow> ('db, 'h, 'z) world_scheme \<Rightarrow> unit result \<times> ('db, 'h, 'z) world_scheme" where
  "collection_service_Delete E labRemover topologyRemover collectionId authUser =
     seq (ask (collection_GetByUuid (e_database E) collectionId)) (\<lambda>collection.
     if \<not> IsAdmin authUser \<and> UserId authUser \<noteq> user_UUID (coll_Creator collection)
     then fail (Sentinel ErrNoWriteAccessToCollection)
     else
     seq (labRemover collectionId) (\<lambda>_.
     seq (topologyRemover collectionId) (\<lambda>_.
     exec (collection_repo_Delete (e_database E) collection))))"

section \<open>The interface of the lab remover\<close>

text \<open>
  A remover deletes all labs of a collection or, if one of them is running, none: it returns an error
  that is \<open>ErrLabRunning\<close> and has changed nothing.
\<close>

locale lab_remover =
  fixes remove :: "string \<Rightarrow> 'w \<Rightarrow> unit result \<times> 'w"
    and blocked :: "string \<Rightarrow> 'w \<Rightarrow> bool"
  assumes blocked_error: "blocked c w \<Longrightarrow> \<exists>e. remove c w = (Inl e, w) \<and> errors_is e ErrLabRunning"
    and running_unchanged: "remove c w = (Inl e, w') \<Longrightarrow> errors_is e ErrLabRunning \<Longrightarrow> w' = w"
begin

lemma running_iff_unchanged:
  assumes "remove c w = (r, w')" and "w' \<noteq> w"
  shows "\<not> blocked c w \<and> (\<forall>e. r = Inl e \<longrightarrow> \<not> errors_is e ErrLabRunning)"
  using assms blocked_error running_unchanged by fastforce

text \<open>What follows in a method that calls the remover first, and returns its error.\<close>

lemma blocked_method:
  assumes "blocked c w"
  shows "\<exists>e. seq (remove c) k w = (Inl e, w) \<and> errors_is e ErrLabRunning"
  using blocked_error [OF assms] by (auto simp: seq_def)

end

definition has_running_lab ::
  "('db, 'node, 'h) env \<Rightarrow> 'z runtime_service option \<Rightarrow> string \<Rightarrow> ('db, 'h, 'z) world_scheme \<Rightarrow> bool" where
  "has_running_lab E rs collectionId w \<longleftrightarrow>
     (\<exists>labs l. lab_GetByCollection (e_database E) collectionId (w_db w) = Inr labs \<and> l \<in> set labs
        \<and> may_not_delete rs (lab_UUID l) w)"

lemma still_running_is [simp]: "errors_is (still_running l) ErrLabRunning"
  by (simp add: still_running_def)

interpretation labs: lab_remover "DeleteLabsOfCollection E rs" "has_running_lab E rs" for E rs
proof unfold_locales
  fix c w assume "has_running_lab E rs c w"
  then show "\<exists>e. DeleteLabsOfCollection E rs c w = (Inl e, w) \<and> errors_is e ErrLabRunning"
    using labs_of_collection_running still_running_is unfolding has_running_lab_def by metis
qed (rule labs_of_collection_blocked)

section \<open>Properties\<close>

text \<open>A collection with a lab that runs cannot be deleted, not even by an admin: the request is
  refused, and no lab, topology or run environment of it is gone.\<close>

theorem running_lab_keeps_collection:
  assumes "has_running_lab E rs collectionId w"
    and "collection_service_Delete E (DeleteLabsOfCollection E rs) (DeleteTopologiesOfCollection E) collectionId
      authUser w = (r, w')"
  shows "(\<exists>e. r = Inl e) \<and> w' = w"
proof -
  let ?k = "\<lambda>c _. seq (DeleteTopologiesOfCollection E collectionId)
    (\<lambda>_. exec (collection_repo_Delete (e_database E) c))"
  have "\<exists>e. seq (DeleteLabsOfCollection E rs collectionId) (?k c) w = (Inl e, w)" for c
    using labs.blocked_method [OF assms(1), of "?k c"] by blast
  moreover have "(\<exists>e. (r, w') = (Inl e, w))
      \<or> (\<exists>c. seq (DeleteLabsOfCollection E rs collectionId) (?k c) w = (r, w'))"
    using assms(2) by (auto simp: collection_service_Delete_def seq_ask split: sum.splits if_splits)
  ultimately show ?thesis by (metis prod.inject)
qed

text \<open>The instance of the runtime in the witness has the lab of the world running.\<close>

theorem running_lab_keeps_collection_witness:
  "\<exists>e. collection_service_Delete demo_env
      (DeleteLabsOfCollection demo_env (Some \<lparr>rs_IsRunning = (\<lambda>l u. l = ''l1''), rs_CanDelete = (\<lambda>l u. l \<noteq> ''l1'')\<rparr>))
      (DeleteTopologiesOfCollection demo_env) ''c1'' demo_login demo_world = (Inl e, demo_world)"
proof -
  let ?rs = "Some \<lparr>rs_IsRunning = (\<lambda>l (u :: unit). l = ''l1''), rs_CanDelete = (\<lambda>l u. l \<noteq> ''l1'')\<rparr>"
  have "lab_GetByCollection memory_database ''c1'' demo_memory = Inr [demo_lab]" by code_simp
  then have r: "has_running_lab demo_env ?rs ''c1'' demo_world"
    by (simp add: has_running_lab_def may_not_delete_def demo_lab_def)
  obtain r w' where run: "collection_service_Delete demo_env (DeleteLabsOfCollection demo_env ?rs)
      (DeleteTopologiesOfCollection demo_env) ''c1'' demo_login demo_world = (r, w')" by fastforce
  from running_lab_keeps_collection [OF r run] run show ?thesis by auto
qed

end
