(* ===== verification/User_Service.thy ===== *)
theory User_Service
  imports World
begin

text \<open>
  The user service of \<open>src/domain/user/service.go\<close>. The methods that only call the authentication
  manager pass its state through the world.
\<close>

record native_user_in =
  nui_Username :: string
  nui_Password :: string
  nui_Collections :: "string list"

text \<open>\<open>CreateService\<close> makes sure that the native user has a row; \<open>None\<close> is \<open>log.Fatal\<close>.\<close>

definition native_user_row :: user where
  "native_user_row = zero_user\<lparr>user_UUID := NativeUserID, user_Sub := ''Admin'', user_Name := ''Admin''\<rparr>"

definition CreateUserService :: "('db, 'node, 'h) env \<Rightarrow> 'db \<Rightarrow> 'db option" where
  "CreateUserService E db =
     (case user_GetByUuid (e_database E) NativeUserID db of
        Inr _ \<Rightarrow> Some db
      | Inl err \<Rightarrow>
          if errors_is err ErrUuidNotFound then
            (case user_Create (e_database E) native_user_row db of
               (Inl _, _) \<Rightarrow> None
             | (Inr _, db) \<Rightarrow> Some db)
          else Some db)"

definition IsTokenValid :: "'tok jwt \<Rightarrow> 'tok \<Rightarrow> ('db, 'h, 'z) world_scheme \<Rightarrow> bool" where
  "IsTokenValid J accessToken w =
     (case AuthenticateUser J (w_auth w) accessToken (w_now w) of Inl _ \<Rightarrow> False | Inr _ \<Rightarrow> True)"

definition user_RefreshAccessToken ::
  "'tok jwt \<Rightarrow> 'tok \<Rightarrow> ('db, 'h, 'z) world_scheme \<Rightarrow> 'tok result \<times> ('db, 'h, 'z) world_scheme" where
  "user_RefreshAccessToken J authToken w = (RefreshAccessToken J (w_auth w) authToken (w_now w), w)"

definition user_service_GetByUuid ::
  "('db, 'node, 'h) env \<Rightarrow> string \<Rightarrow> ('db, 'h, 'z) world_scheme \<Rightarrow> user result \<times> ('db, 'h, 'z) world_scheme" where
  "user_service_GetByUuid E userId = ask (user_GetByUuid (e_database E) userId)"

text \<open>The function \<open>AuthenticateWithCode\<close> passes to the manager, which maps a subject to a user.\<close>

definition userSubToIdMapper ::
  "('db, 'node, 'h) env \<Rightarrow> string \<Rightarrow> string \<Rightarrow> ('db, 'h, 'z) world_scheme
    \<Rightarrow> string result \<times> ('db, 'h, 'z) world_scheme" where
  "userSubToIdMapper E userSub userProfile =
     seq (ask (user_GetBySub (e_database E) userSub)) (\<lambda>(user, userExists).
       if \<not> userExists then
         seq (GenerateUuid E) (\<lambda>uuid.
         seq (insert_row (user_Create (e_database E)
                (zero_user\<lparr>user_UUID := uuid, user_Sub := userSub, user_Name := userProfile\<rparr>))) (\<lambda>user.
         ret (user_UUID user)))
       else
         seq (exec (user_Update (e_database E) (user\<lparr>user_Name := userProfile\<rparr>))) (\<lambda>_.
         ret (user_UUID user)))"

definition user_AuthenticateWithCode ::
  "('db, 'node, 'h) env \<Rightarrow> 'tok jwt \<Rightarrow> ('code, 'oauth, 'info) oidc \<Rightarrow> 'code
    \<Rightarrow> ('db, 'h, 'z) world_scheme \<Rightarrow> ('tok \<times> 'tok) result \<times> ('db, 'h, 'z) world_scheme" where
  "user_AuthenticateWithCode E J P authCode w =
     (case AuthenticateWithCode P (userSubToIdMapper E) authCode (w_auth w, w) of
        (Inl err, m, w) \<Rightarrow> (Inl err, w\<lparr>w_auth := m\<rparr>)
      | (Inr authUser, m, w) \<Rightarrow>
          (case CreateAuthToken J m (UserId authUser) (w_now w) of
             Inl err \<Rightarrow> (Inl err, w\<lparr>w_auth := m\<rparr>)
           | Inr authToken \<Rightarrow>
               (case CreateAccessToken J m authUser (w_now w) of
                  Inl err \<Rightarrow> (Inl err, w\<lparr>w_auth := m\<rparr>)
                | Inr accessToken \<Rightarrow> (Inr (authToken, accessToken), w\<lparr>w_auth := m\<rparr>))))"

definition register_native ::
  "string \<Rightarrow> native_user_in \<Rightarrow> ('db, 'h, 'z) world_scheme \<Rightarrow> unit result \<times> ('db, 'h, 'z) world_scheme" where
  "register_native userId req w =
     (case RegisterNativeUser userId (nui_Username req) (nui_Password req) (nui_Collections req) (w_auth w) of
        (e, m) \<Rightarrow> (to_result e, w\<lparr>w_auth := m\<rparr>))"

definition CreateNativeUser ::
  "('db, 'node, 'h) env \<Rightarrow> native_user_in \<Rightarrow> authenticated_user
    \<Rightarrow> ('db, 'h, 'z) world_scheme \<Rightarrow> string result \<times> ('db, 'h, 'z) world_scheme" where
  "CreateNativeUser E req authUser =
     (if \<not> IsAdmin authUser then fail (Sentinel ErrForbidden)
      else seq (GenerateUuid E) (\<lambda>userId.
        seq (register_native userId req) (\<lambda>_.
        seq (insert_row (user_Create (e_database E)
               (zero_user\<lparr>user_UUID := userId, user_Sub := nui_Username req, user_Name := nui_Username req\<rparr>))) (\<lambda>_.
        ret userId))))"

end
