(* ===== verification/Services.thy ===== *)
theory Services
  imports Collection_Service User_Service
begin

text \<open>
  The domain services together. A request is a call of one of their methods by an authenticated user,
  as the handlers of \<open>src/transport/http\<close> make them; \<open>serve\<close> calls the method and keeps the error and the
  world. The properties here are about every request and every sequence of requests.
\<close>

datatype request =
    TopologyGet
  | TopologyGetByUuid string
  | TopologyCreate topology_in
  | TopologyUpdate topology_in_partial string
  | TopologyDelete string
  | BindFileCreate string bind_file_in
  | BindFileUpdate bind_file_in_partial string
  | BindFileDelete string
  | LabGet lab_filter
  | LabGetByUuid string
  | LabCreate lab_in
  | LabUpdate lab_in_partial string
  | LabDelete string
  | CollectionGet
  | CollectionCreate collection_in
  | CollectionUpdate collection_in_partial string
  | CollectionDelete string
  | NativeUserCreate native_user_in

definition answer :: "('w \<Rightarrow> 'a result \<times> 'w) \<Rightarrow> 'w \<Rightarrow> go_error option \<times> 'w" where
  "answer m w = (case m w of (Inl e, w) \<Rightarrow> (Some e, w) | (Inr _, w) \<Rightarrow> (None, w))"

fun serve ::
  "('db, 'node, 'h) env \<Rightarrow> 'z runtime_service option \<Rightarrow> authenticated_user \<Rightarrow> request
    \<Rightarrow> ('db, 'h, 'z) world_scheme \<Rightarrow> go_error option \<times> ('db, 'h, 'z) world_scheme" where
  "serve E rs u TopologyGet = answer (topology_service_Get E u)"
| "serve E rs u (TopologyGetByUuid i) = answer (topology_service_GetByUuid E i u)"
| "serve E rs u (TopologyCreate req) = answer (topology_service_Create E req u)"
| "serve E rs u (TopologyUpdate req i) = answer (topology_service_Update E req i u)"
| "serve E rs u (TopologyDelete i) = answer (topology_service_Delete E i u)"
| "serve E rs u (BindFileCreate i req) = answer (CreateBindFile E i req u)"
| "serve E rs u (BindFileUpdate req i) = answer (UpdateBindFile E req i u)"
| "serve E rs u (BindFileDelete i) = answer (topology_DeleteBindFile E i u)"
| "serve E rs u (LabGet f) = answer (lab_service_Get E f u)"
| "serve E rs u (LabGetByUuid i) = answer (lab_service_GetByUuid E i u)"
| "serve E rs u (LabCreate req) = answer (lab_service_Create E req u)"
| "serve E rs u (LabUpdate req i) = answer (lab_service_Update E rs req i u)"
| "serve E rs u (LabDelete i) = answer (lab_service_Delete E rs i u)"
| "serve E rs u CollectionGet = answer (collection_service_Get E u)"
| "serve E rs u (CollectionCreate req) = answer (collection_service_Create E req u)"
| "serve E rs u (CollectionUpdate req i) = answer (collection_service_Update E req i u)"
| "serve E rs u (CollectionDelete i) =
     answer (collection_service_Delete E (DeleteLabsOfCollection E rs) (DeleteTopologiesOfCollection E) i u)"
| "serve E rs u (NativeUserCreate req) = answer (CreateNativeUser E req u)"

section \<open>Denied requests\<close>

definition denies :: "go_error \<Rightarrow> bool" where
  "denies e \<longleftrightarrow> (\<exists>s \<in> set access_errors. errors_is e s)"

lemma denies_simps [simp]:
  "denies (Sentinel s) \<longleftrightarrow> s \<in> set access_errors" "denies (Wrap e t) \<longleftrightarrow> denies e" "denies (Prefixed t e) \<longleftrightarrow> denies e" "\<not> denies (Foreign t)"
  by (auto simp: denies_def)

text \<open>The errors of the storage, of the database and of the parsers deny nothing.\<close>

lemma never_store:
  "(\<And>f e f'. q f = (Some e, f') \<Longrightarrow> \<not> P e) \<Longrightarrow> never P (store q)"
  by (auto simp: never_def store_def split: prod.splits)

lemma never_exec: "(\<And>f e f'. q f = (Some e, f') \<Longrightarrow> \<not> P e) \<Longrightarrow> never P (exec q)"
  by (auto simp: never_def exec_def split: prod.splits)

lemma never_insert: "(\<And>f e f'. q f = (Inl e, f') \<Longrightarrow> \<not> P e) \<Longrightarrow> never P (insert_row q)"
  by (auto simp: never_def insert_row_def split: prod.splits)

lemma manager_write_error: "manager_write m p c f = (Some e, f') \<Longrightarrow> \<not> denies e"
  by (auto simp: manager_write_def os_WriteFile_def os_error_def Let_def access_errors_def
      split: prod.splits bool.splits if_splits option.splits node.splits)

lemma write_topology_error: "WriteTopology m t d a f = (Some e, f') \<Longrightarrow> \<not> denies e"
  by (auto simp: WriteTopology_def write_optional_def writeStorage_def manager_write_error
      split: prod.splits option.splits)

lemma bind_path_error: "bindFilePath t p = Inl e \<Longrightarrow> \<not> denies e"
  by (auto simp: bindFilePath_def normalizeBindFilePath_def Let_def access_errors_def split: sum.splits if_splits)

lemma write_bind_file_error: "WriteBindFile m t p c f = (Some e, f') \<Longrightarrow> \<not> denies e"
  by (auto simp: WriteBindFile_def writeStorage_def manager_write_error bind_path_error split: sum.splits)

lemma remove_run_error: "DeleteRunEnvironment m l f = (Some e, f') \<Longrightarrow> \<not> denies e"
  by (auto simp: DeleteRunEnvironment_def deleteRun_def manager_delete_def os_RemoveAll_def os_error_def Let_def
      split: if_splits)

lemma never_denies_db [effects]:
  "never denies (exec (save_row t row))" "never denies (exec (delete_row t row))"
  "never denies (insert_row (create_row t row))" "never denies (insert_row (topology_DeleteByCollection D c))"
  by (auto intro!: never_exec never_insert simp: save_row_def delete_row_def create_row_def
      topology_DeleteByCollection_def access_errors_def split: prod.splits sum.splits option.splits)

lemma never_denies_files [effects]:
  "never denies (saveTopology E t d a)" "never denies (saveBindFile E t p c)"
  by (auto intro!: never_store simp: saveTopology_def saveBindFile_def write_topology_error write_bind_file_error)

lemmas repo_writes = topology_repo_Create_def topology_repo_Update_def topology_repo_Delete_def
  bind_file_repo_Create_def bind_file_repo_Update_def bind_file_repo_Delete_def lab_repo_Create_def
  lab_repo_Update_def lab_repo_Delete_def collection_repo_Create_def collection_repo_Update_def
  collection_repo_Delete_def user_Create_def

text \<open>The checks of the methods change nothing.\<close>

lemma pure_checks [simp]:
  "pure (update_collection E preq u t)" "pure (update_name E preq t)" "pure (check_annotations E preq)"
  "pure (check_free E t n c)" "pure (new_bind_path E breq i b t)" "pure (new_bind_content E breq b t)"
  "pure (loadBindFile E tid b)"
  unfolding update_collection_def update_name_def check_annotations_def check_free_def new_bind_path_def
    new_bind_content_def loadBindFile_def
  by (intro effects)+

lemma pure_check_name [simp]: "pure (check_name E c n self)"
  by (auto simp: pure_def check_name_def split: sum.split)

lemma pure_new_names [simp]: "pure (new_lab_name E req l)" "pure (new_collection_name E creq c)"
  unfolding new_lab_name_def new_collection_name_def by (intro effects pure_check_name)+

lemma pure_load_bind_files [simp]: "pure (load_bind_files E t bs)"
proof (induction bs)
  case (Cons b bs)
  then show ?case unfolding load_bind_files.simps by (intro effects) simp_all
qed simp

lemma pure_load_topology [simp]: "pure (LoadTopology E t bs)"
  unfolding LoadTopology_def by (intro effects pure_load_bind_files)

lemma pure_handled [simp]: "pure m \<Longrightarrow> pure (handle m (\<lambda>_. fail e))" "pure (handle (lift r) (\<lambda>_. fail e))"
  by (intro effects; assumption?)+

text \<open>What comes after them never denies the request.\<close>

lemma never_denies_gate [effects]: "never denies (policy_gate E u t d raw str bs)"
  unfolding policy_gate_def by (intro effects) (simp add: access_errors_def)

lemma never_denies_add_lab [effects]: "never denies (add_lab E req u t d a)"
  unfolding add_lab_def Let_def repo_writes by (intro effects) (simp add: access_errors_def)

lemma never_denies_remove_lab: "never denies (remove_lab E l)"
proof -
  have "never denies (handle (store (DeleteRunEnvironment (e_storage E) (lab_UUID l)))
      (\<lambda>err. seq (send_status E sev src (content err) parts) (\<lambda>_. fail err)))" for sev src content parts
    by (auto simp: never_def handle_def store_def seq_def send_status_def GenerateUuid_def Let_def
        split: prod.splits sum.splits dest: remove_run_error)
  then show ?thesis unfolding remove_lab_def repo_writes by (rule never_seq) (intro effects)
qed

lemma never_denies_delete_lab [effects]: "never denies (deleteLab E rs l)"
  using never_denies_remove_lab [of E l] by (auto simp: never_def deleteLab_def access_errors_def)

lemma never_denies_delete_labs: "never denies (delete_labs E rs ls)"
  by (induction ls) (auto intro: effects)

lemma never_denies_query:
  "lab_GetByCollection D c db = Inl e \<Longrightarrow> \<not> denies e"
  by (auto simp: lab_GetByCollection_def find_all_def access_errors_def split: sum.splits)

lemma never_denies_labs_of_collection [effects]: "never denies (DeleteLabsOfCollection E rs c)"
  using never_denies_delete_labs [of E rs] never_denies_query [of "e_database E" c]
  by (auto simp: never_def DeleteLabsOfCollection_def seq_Inl ask_step still_running_def access_errors_def
      split: option.splits)

lemma never_denies_topologies_of_collection [effects]: "never denies (DeleteTopologiesOfCollection E c)"
  unfolding DeleteTopologiesOfCollection_def by (intro effects) (simp add: never_def)

lemma never_denies_user [effects]: "never denies (ask (user_GetByUuid D i))"
  by (auto simp: never_def ask_def user_GetByUuid_def find_one_def access_errors_def split: sum.splits list.splits)

lemma never_denies_register [effects]: "never denies (register_native i req)"
  by (auto simp: never_def register_native_def RegisterNativeUser_def to_result_def access_errors_def
      split: prod.splits option.splits if_splits)

lemma silent_topology_service_Create:
  "silent_on denies (topology_service_Create E req u)"
  unfolding topology_service_Create_def repo_writes Let_def
  by ((rule silent_intros | (rule silent_seq_pure, (simp; fail)))+, rule silent_never,
    (intro effects; simp add: access_errors_def))

lemma silent_topology_service_Update:
  "silent_on denies (topology_service_Update E preq i u)"
  unfolding topology_service_Update_def repo_writes Let_def
  by ((rule silent_intros | (rule silent_seq_pure, (simp; fail)))+, rule silent_never,
    (intro effects; simp add: access_errors_def))

lemma silent_topology_service_Delete:
  "silent_on denies (topology_service_Delete E i u)"
  unfolding topology_service_Delete_def repo_writes Let_def
  by ((rule silent_intros | (rule silent_seq_pure, (simp; fail)))+, rule silent_never,
    (intro effects; simp add: access_errors_def))

lemma silent_topology_service_GetByUuid:
  "silent_on denies (topology_service_GetByUuid E i u)"
  unfolding topology_service_GetByUuid_def createTopologyFull_def repo_writes Let_def
  by ((rule silent_intros | (rule silent_seq_pure, (simp; fail)))+, rule silent_never,
    (intro effects; simp add: access_errors_def))

lemma silent_CreateBindFile:
  "silent_on denies (CreateBindFile E i req u)"
  unfolding CreateBindFile_def repo_writes Let_def
  by ((rule silent_intros | (rule silent_seq_pure, (simp; fail)))+, rule silent_never,
    (intro effects; simp add: access_errors_def))

lemma silent_UpdateBindFile:
  "silent_on denies (UpdateBindFile E preq i u)"
  unfolding UpdateBindFile_def repo_writes Let_def
  by ((rule silent_intros | (rule silent_seq_pure, (simp; fail)))+, rule silent_never,
    (intro effects; simp add: access_errors_def))

lemma silent_topology_DeleteBindFile:
  "silent_on denies (topology_DeleteBindFile E i u)"
  unfolding topology_DeleteBindFile_def repo_writes Let_def
  by ((rule silent_intros | (rule silent_seq_pure, (simp; fail)))+, rule silent_never,
    (intro effects; simp add: access_errors_def))

lemma silent_lab_service_Create:
  "silent_on denies (lab_service_Create E req u)"
  unfolding lab_service_Create_def repo_writes Let_def
  by ((rule silent_intros | (rule silent_seq_pure, (simp; fail)))+, rule silent_never,
    (intro effects; simp add: access_errors_def))

lemma silent_lab_service_Update:
  "silent_on denies (lab_service_Update E rs preq i u)"
  unfolding lab_service_Update_def repo_writes Let_def
  by ((rule silent_intros | (rule silent_seq_pure, (simp; fail)))+, rule silent_never,
    (intro effects; simp add: access_errors_def))

lemma silent_lab_service_Delete:
  "silent_on denies (lab_service_Delete E rs i u)"
  unfolding lab_service_Delete_def repo_writes Let_def
  by ((rule silent_intros | (rule silent_seq_pure, (simp; fail)))+, rule silent_never,
    (intro effects; simp add: access_errors_def))

lemma silent_collection_service_Create:
  "silent_on denies (collection_service_Create E req u)"
  unfolding collection_service_Create_def repo_writes Let_def
  by ((rule silent_intros | (rule silent_seq_pure, (simp; fail)))+, rule silent_never,
    (intro effects; simp add: access_errors_def))

lemma silent_collection_service_Update:
  "silent_on denies (collection_service_Update E preq i u)"
  unfolding collection_service_Update_def repo_writes Let_def
  by ((rule silent_intros | (rule silent_seq_pure, (simp; fail)))+, rule silent_never,
    (intro effects; simp add: access_errors_def))

lemma silent_collection_service_Delete:
  "silent_on denies (collection_service_Delete E (DeleteLabsOfCollection E rs) (DeleteTopologiesOfCollection E) i u)"
  unfolding collection_service_Delete_def repo_writes Let_def
  by ((rule silent_intros | (rule silent_seq_pure, (simp; fail)))+, rule silent_never,
    (intro effects; simp add: access_errors_def))

lemma silent_CreateNativeUser: "silent_on denies (CreateNativeUser E req u)"
  unfolding CreateNativeUser_def repo_writes
  by (intro silent_if silent_steps silent_never effects; simp add: access_errors_def)

lemma create_all_silent: "silent_on denies (topology_service_Get E u)"
  unfolding topology_service_Get_def
  by (rule silent_seq_pure) (auto simp: silent_on_def split: prod.splits)

lemma silent_reads:
  "silent_on denies (lab_service_Get E f u)" "silent_on denies (lab_service_GetByUuid E i u)"
  "silent_on denies (collection_service_Get E u)"
  unfolding lab_service_Get_def lab_service_GetByUuid_def collection_service_Get_def
  by (rule silent_pure, intro effects)+

lemmas silent_methods = create_all_silent silent_reads silent_topology_service_GetByUuid
  silent_topology_service_Create silent_topology_service_Update silent_topology_service_Delete
  silent_CreateBindFile silent_UpdateBindFile silent_topology_DeleteBindFile
  silent_lab_service_Create silent_lab_service_Update silent_lab_service_Delete
  silent_collection_service_Create silent_collection_service_Update silent_collection_service_Delete
  silent_CreateNativeUser

lemma answer_silent: "silent_on P m \<Longrightarrow> answer m w = (Some e, w') \<Longrightarrow> P e \<Longrightarrow> w' = w"
  by (auto simp: answer_def silent_on_def split: prod.splits sum.splits)

lemma denied_changes_nothing:
  assumes "serve E rs u r w = (Some e, w')" and "fst (CreateErrorResponse e) = 403"
  shows "w' = w"
proof -
  have d: "denies e" using assms(2) by (simp add: denies_def forbidden_iff_access_error)
  show ?thesis using assms(1)
    by (cases r; simp) (erule answer_silent [where P = denies, OF _ _ d, rotated], rule silent_methods)+
qed

text \<open>C3: A request that is denied changes nothing: whenever a method of the services returns an error that
  denies access (the errors the handlers answer with the status 403), the database, the files, the policy
  cache, the sessions and the rest of the server are exactly as before, and no event and no message was
  sent. No method writes before it has finished all of its permission checks.\<close>

theorem denied_request_changes_nothing:
  assumes "serve E rs u r w = (Some e, w')" and "fst (CreateErrorResponse e) = 403"
  shows "w' = w"
  by (rule denied_changes_nothing [OF assms])

theorem denied_request_changes_nothing_witness:
  "serve demo_env (None :: unit runtime_service option) (demo_login\<lparr>Collections := []\<rparr>)
      (TopologyGetByUuid ''t1'') demo_world = (Some (Sentinel ErrNoAccessToTopology), demo_world)"
proof -
  have run: "topology_GetByUuid memory_database ''t1'' demo_memory = Inr demo_topology" by code_simp
  then obtain w' where w': "serve demo_env (None :: unit runtime_service option) (demo_login\<lparr>Collections := []\<rparr>)
      (TopologyGetByUuid ''t1'') demo_world = (Some (Sentinel ErrNoAccessToTopology), w')"
    by (simp add: answer_def topology_service_GetByUuid_def seq_def ask_step demo_login_def allowed_def)
  have "fst (CreateErrorResponse (Sentinel ErrNoAccessToTopology)) = 403" by code_simp
  from denied_request_changes_nothing [OF w' this] w' show ?thesis by simp
qed

section \<open>The findings shown\<close>

text \<open>
  The worlds the services reach from a start with an empty cache, when other parts of the server may
  change anything but the policy engine in between.
\<close>

inductive reached :: "('db, 'node, 'h) env \<Rightarrow> 'z runtime_service option \<Rightarrow> options \<Rightarrow> ('db, 'h, 'z) world_scheme \<Rightarrow> bool"
  for E rs o' where
  start: "w_engine w = CreateEngine o' \<Longrightarrow> reached E rs o' w"
| request: "reached E rs o' w \<Longrightarrow> small_texts E w \<Longrightarrow> serve E rs u r w = (e, w') \<Longrightarrow> reached E rs o' w'"
| other: "reached E rs o' w \<Longrightarrow> w_engine w' = w_engine w \<Longrightarrow> reached E rs o' w'"

text \<open>A step keeps a right cache right, in a database whose texts are short.\<close>

definition right_cache :: "('db, 'node, 'h) env \<Rightarrow> options \<Rightarrow> ('db, 'h, 'z) world_scheme \<Rightarrow> bool" where
  "right_cache E o' w \<longleftrightarrow> cache_right E (w_engine w) \<and> engine_options (w_engine w) = o'"

definition keeps_cache ::
  "('db, 'node, 'h) env \<Rightarrow> options \<Rightarrow> (('db, 'h, 'z) world_scheme \<Rightarrow> 'a \<times> ('db, 'h, 'z) world_scheme) \<Rightarrow> bool" where
  "keeps_cache E o' m \<longleftrightarrow> (\<forall>w. small_texts E w \<longrightarrow> right_cache E o' w \<longrightarrow> right_cache E o' (snd (m w)))"

lemma keeps_cache_kept: "kept w_engine m \<Longrightarrow> keeps_cache E o' m"
  by (simp add: keeps_cache_def right_cache_def kept_def)

lemma keeps_cacheD: "keeps_cache E o' m \<Longrightarrow> small_texts E w \<Longrightarrow> right_cache E o' w \<Longrightarrow> m w = (r, w') \<Longrightarrow> right_cache E o' w'"
  unfolding keeps_cache_def by (metis snd_conv)

lemma keeps_cache_pure_seq:
  fixes m :: "('db, 'h, 'z) world_scheme \<Rightarrow> 'a result \<times> ('db, 'h, 'z) world_scheme"
  assumes "pure m" and "\<And>a. keeps_cache E o' (k a)"
  shows "keeps_cache E o' (seq m k)"
  unfolding keeps_cache_def
proof (intro allI impI)
  fix w :: "('db, 'h, 'z) world_scheme"
  assume w: "small_texts E w" "right_cache E o' w"
  obtain r where "m w = (r, w)" using assms(1) by (metis pure_def prod.collapse)
  with w assms(2) show "right_cache E o' (snd (seq m k w))" by (cases r) (simp_all add: seq_def keeps_cache_def)
qed

lemma loaded_paths:
  "load_bind_files E t bs w = (Inr fs, w') \<Longrightarrow> map bf_FilePath fs = map bind_FilePath bs"
  by (induction bs arbitrary: fs w') (auto simp: seq_Inr loadBindFile_def step_Inr)

definition findings_right :: "('db, 'node, 'h) env \<Rightarrow> options \<Rightarrow> topology_full \<Rightarrow> bool" where
  "findings_right E o' t \<longleftrightarrow> (\<exists>d raw. schema_Parse (e_parsers E) (tf_Definition t) = Inr (d, raw)
     \<and> tf_PolicyFindings t = check \<lparr>clab = e_clab E, opts = o', bindFiles = map bf_FilePath (tf_BindFiles t)\<rparr>
         raw (td_Topology d) (tf_Definition t))"

lemma pureD: "pure m \<Longrightarrow> m w = (r, w') \<Longrightarrow> w' = w"
  by (metis pure_def snd_conv)

lemmas load_topology_world = pureD [OF pure_load_topology]

lemma full_topology_right:
  assumes "inj (e_sha256 E)" and "small_texts E w" and "right_cache E o' w"
    and run: "createTopologyFull E t w = (r, w')"
  shows "right_cache E o' w' \<and> w' = w\<lparr>w_engine := w_engine w'\<rparr> \<and> (\<forall>full. r = Inr full \<longrightarrow> findings_right E o' full)"
proof -
  consider "w' = w" "\<exists>e. r = Inl e"
    | fs d a bs typed raw w2 where "GetBindFileForTopology (e_database E) (topo_UUID t) (w_db w) = Inr fs"
      "LoadTopology E (topo_UUID t) fs w = (Inr (d, a, bs), w2)"
      "schema_Parse (e_parsers E) d = Inr (typed, raw)"
    using run
    by (fastforce simp: createTopologyFull_def seq_def handle_def ask_step split: prod.splits sum.splits
        dest: load_topology_world)
  then show ?thesis
  proof cases
    case 1
    with assms(3) show ?thesis by auto
  next
    case 2
    note [simp] = load_topology_world [OF 2(2)]
    from 2(2) have paths: "map bf_FilePath bs = map bind_FilePath fs"
      by (auto simp: LoadTopology_def step_Inr dest: loaded_paths split: prod.splits)
    have small: "\<forall>x \<in> set (d # map bind_FilePath fs). length x < 2 ^ 64"
      using assms(2) 2(1,3) by (auto simp: small_texts_def)
    obtain r' w1 where c: "check_policy E (topo_UUID t) raw (td_Topology typed) d (map bind_FilePath fs) w = (r', w1)"
      by fastforce
    from check_policy_right [OF assms(1) _ 2(3) small c] assms(3)
    have right: "r' = Inr (engine_check_of E (w_engine w) raw (td_Topology typed) d (map bind_FilePath fs))"
        "right_cache E o' w1" "w1 = w\<lparr>w_engine := w_engine w1\<rparr>"
      by (auto simp: right_cache_def)
    have "w' = w1 \<and> (\<forall>full. r = Inr full \<longrightarrow> tf_Definition full = d \<and> tf_BindFiles full = bs \<and> r' = Inr (tf_PolicyFindings full))"
      using run 2 c right(1) by (auto simp: createTopologyFull_def seq_def handle_def ask_step)
    with right paths 2(3) assms(3) show ?thesis
      by (auto simp: findings_right_def engine_check_of_def right_cache_def)
  qed
qed

lemma small_texts_engine [simp]: "small_texts E (w\<lparr>w_engine := e\<rparr>) = small_texts E w"
  by (simp add: small_texts_def)

lemma create_all_right:
  assumes "inj (e_sha256 E)" and "small_texts E w" and "right_cache E o' w" and "create_all E ts w = (fulls, w')"
  shows "right_cache E o' w' \<and> (\<forall>full \<in> set fulls. findings_right E o' full)"
  using assms(2-4)
proof (induction ts arbitrary: w fulls)
  case (Cons t ts)
  obtain r w1 where c: "createTopologyFull E t w = (r, w1)" by fastforce
  note right = full_topology_right [OF assms(1) Cons.prems(1,2) c]
  then have "small_texts E w1" using Cons.prems(1) by (metis small_texts_engine)
  with Cons.IH [OF this] right Cons.prems(3) c show ?case by (auto split: sum.splits prod.splits)
qed simp

text \<open>Every other method keeps a right cache: it leaves the engine alone, or it forgets a topology.\<close>

definition keeps_right ::
  "('db, 'node, 'h) env \<Rightarrow> options \<Rightarrow> (('db, 'h, 'z) world_scheme \<Rightarrow> 'a result \<times> ('db, 'h, 'z) world_scheme) \<Rightarrow> bool" where
  "keeps_right E o' m \<longleftrightarrow> (\<forall>w. right_cache E o' w \<longrightarrow> right_cache E o' (snd (m w)))"

named_theorems cache_kept \<open>the steps that keep the cache right\<close>

lemma keeps_right_engine: "kept w_engine m \<Longrightarrow> keeps_right E o' m"
  by (simp add: keeps_right_def right_cache_def kept_def)

lemma keeps_right_steps [cache_kept]:
  "keeps_right E o' (ret a)" "keeps_right E o' (fail e)" "keeps_right E o' (lift r)" "keeps_right E o' (ask q)"
  "keeps_right E o' (load p)" "keeps_right E o' (publish topic l)" "keeps_right E o' (GenerateUuid E')"
  "keeps_right E o' (insert_row i)" "keeps_right E o' (exec x)" "keeps_right E o' (store s)"
  "keeps_right E o' (store_result sr)" "keeps_right E o' (send_status E' sev src content parts)"
  by (rule keeps_right_engine, rule keeps)+

lemma forget_options [simp]: "engine_options (engine_Forget t e) = engine_options e"
  by (simp add: engine_Forget_def)

lemma keeps_right_forget [cache_kept]: "keeps_right E o' (forget_policy t)"
  by (simp add: keeps_right_def forget_policy_def right_cache_def cache_right_forget)

lemma right_cache_forgets:
  "right_cache E o' w \<Longrightarrow> right_cache E o' (w\<lparr>w_engine := fold engine_Forget ts (w_engine w)\<rparr>)"
proof -
  have "cache_right E e \<Longrightarrow> cache_right E (fold engine_Forget ts e) \<and>
      engine_options (fold engine_Forget ts e) = engine_options e" for e
    by (induction ts arbitrary: e) (simp_all add: cache_right_forget)
  then show "right_cache E o' w \<Longrightarrow> ?thesis" by (simp add: right_cache_def)
qed

lemma keeps_right_seq [cache_kept]:
  assumes "keeps_right E o' m" and "\<And>a. keeps_right E o' (k a)"
  shows "keeps_right E o' (seq m k)"
  using assms by (fastforce simp: keeps_right_def seq_def split: prod.split sum.split)

lemma keeps_right_handle [cache_kept]:
  assumes "keeps_right E o' m" and "\<And>e. keeps_right E o' (h e)"
  shows "keeps_right E o' (handle m h)"
  using assms by (fastforce simp: keeps_right_def handle_def split: prod.split sum.split)

lemma keeps_right_cases [cache_kept]:
  "keeps_right E o' m \<Longrightarrow> keeps_right E o' n \<Longrightarrow> keeps_right E o' (if c then m else n)"
  "keeps_right E o' (case_prod k p)" if "\<And>x y. keeps_right E o' (k x y)"
  by (simp_all add: that split: prod.split)

lemma keeps_right_option [cache_kept]:
  "keeps_right E o' a \<Longrightarrow> (\<And>x. keeps_right E o' (g x)) \<Longrightarrow> keeps_right E o' (case_option a g x)"
  by (cases x) simp_all

lemma keeps_right_test [cache_kept]: "keeps_right E o' m \<Longrightarrow> keeps_right E o' (\<lambda>w. if c w then (r, w) else m w)"
  by (simp add: keeps_right_def)

lemma keeps_right_return [simp]: "keeps_right E o' (Pair r)"
  by (simp add: keeps_right_def)

lemma keeps_right_pure: "pure m \<Longrightarrow> keeps_right E o' m"
  by (simp add: keeps_right_engine kept_pure)

lemma keeps_right_cache: "keeps_right E o' m \<Longrightarrow> keeps_cache E o' m"
  by (simp add: keeps_right_def keeps_cache_def)

lemma keeps_right_files [cache_kept]:
  "keeps_right E o' (saveTopology E' t d a)" "keeps_right E o' (saveBindFile E' t p c)"
  "keeps_right E o' (removeBindFile E' t p)"
  unfolding saveTopology_def saveBindFile_def removeBindFile_def by (intro cache_kept)+

lemma keeps_right_names [cache_kept]: "keeps_right E o' (instanceNameSuffix E')" "keeps_right E o' (renameTopology E' t n)"
  unfolding renameTopology_def instanceNameSuffix_def by (intro cache_kept)+

lemma keeps_right_labs [cache_kept]:
  "keeps_right E o' (add_lab E' req u t d a)" "keeps_right E o' (deleteLab E' rs l)"
proof -
  show "keeps_right E o' (add_lab E' req u t d a)"
    unfolding add_lab_def createLabEnvironment_def Let_def by (rule cache_kept | (rule keeps_right_pure, (simp; fail)))+
  have "keeps_right E o' (remove_lab E' l)"
    unfolding remove_lab_def by (intro cache_kept)
  then show "keeps_right E o' (deleteLab E' rs l)"
    by (auto simp: keeps_right_def deleteLab_def)
qed

lemma keeps_right_delete_labs [cache_kept]: "keeps_right E o' (delete_labs E' rs ls)"
  by (induction ls) (simp_all add: keeps_right_labs keeps_right_seq)

lemma right_topology_service_Create [cache_kept]:
  "keeps_right E o' (topology_service_Create E' req u)"
  unfolding topology_service_Create_def Let_def
  by (rule cache_kept | (rule keeps_right_pure, (simp; fail)))+

lemma right_topology_service_Update [cache_kept]:
  "keeps_right E o' (topology_service_Update E' preq i u)"
  unfolding topology_service_Update_def Let_def
  by (rule cache_kept | (rule keeps_right_pure, (simp; fail)))+

lemma right_topology_service_Delete [cache_kept]:
  "keeps_right E o' (topology_service_Delete E' i u)"
  unfolding topology_service_Delete_def Let_def
  by (rule cache_kept | (rule keeps_right_pure, (simp; fail)))+

lemma right_CreateBindFile [cache_kept]:
  "keeps_right E o' (CreateBindFile E' i req u)"
  unfolding CreateBindFile_def Let_def
  by (rule cache_kept | (rule keeps_right_pure, (simp; fail)))+

lemma right_UpdateBindFile [cache_kept]:
  "keeps_right E o' (UpdateBindFile E' preq i u)"
  unfolding UpdateBindFile_def Let_def
  by (rule cache_kept | (rule keeps_right_pure, (simp; fail)))+

lemma right_topology_DeleteBindFile [cache_kept]:
  "keeps_right E o' (topology_DeleteBindFile E' i u)"
  unfolding topology_DeleteBindFile_def Let_def
  by (rule cache_kept | (rule keeps_right_pure, (simp; fail)))+

lemma right_lab_service_Update [cache_kept]:
  "keeps_right E o' (lab_service_Update E' rs preq i u)"
  unfolding lab_service_Update_def Let_def
  by (rule cache_kept | (rule keeps_right_pure, (simp; fail)))+

lemma right_lab_service_Delete [cache_kept]:
  "keeps_right E o' (lab_service_Delete E' rs i u)"
  unfolding lab_service_Delete_def Let_def
  by (rule cache_kept | (rule keeps_right_pure, (simp; fail)))+

lemma right_lab_service_Get [cache_kept]:
  "keeps_right E o' (lab_service_Get E' f u)"
  unfolding lab_service_Get_def Let_def
  by (rule cache_kept | (rule keeps_right_pure, (simp; fail)))+

lemma right_lab_service_GetByUuid [cache_kept]:
  "keeps_right E o' (lab_service_GetByUuid E' i u)"
  unfolding lab_service_GetByUuid_def Let_def
  by (rule cache_kept | (rule keeps_right_pure, (simp; fail)))+

lemma right_collection_service_Create [cache_kept]:
  "keeps_right E o' (collection_service_Create E' req u)"
  unfolding collection_service_Create_def Let_def
  by (rule cache_kept | (rule keeps_right_pure, (simp; fail)))+

lemma right_collection_service_Update [cache_kept]:
  "keeps_right E o' (collection_service_Update E' preq i u)"
  unfolding collection_service_Update_def Let_def
  by (rule cache_kept | (rule keeps_right_pure, (simp; fail)))+

lemma right_collection_service_Get [cache_kept]:
  "keeps_right E o' (collection_service_Get E' u)"
  unfolding collection_service_Get_def Let_def
  by (rule cache_kept | (rule keeps_right_pure, (simp; fail)))+

lemma right_CreateNativeUser [cache_kept]: "keeps_right E o' (CreateNativeUser E' req u)"
proof -
  have "kept w_engine (register_native i r)" for i r
    by (simp add: kept_def register_native_def split: prod.split)
  then have "keeps_right E o' (register_native i r)" for i r by (rule keeps_right_engine)
  then show ?thesis unfolding CreateNativeUser_def user_Create_def by (intro cache_kept)
qed

lemma right_collection_remove [cache_kept]:
  "keeps_right E o' (DeleteLabsOfCollection E' rs c)" "keeps_right E o' (DeleteTopologiesOfCollection E' c)"
proof -
  show "keeps_right E o' (DeleteLabsOfCollection E' rs c)"
    using keeps_right_delete_labs [of E o' E' rs]
    by (auto simp: keeps_right_def DeleteLabsOfCollection_def seq_def ask_step split: sum.split option.split)
  show "keeps_right E o' (DeleteTopologiesOfCollection E' c)"
    unfolding DeleteTopologiesOfCollection_def
    by (intro cache_kept) (simp add: keeps_right_def right_cache_forgets)
qed

lemma right_collection_service_Delete [cache_kept]:
  "keeps_right E o' (collection_service_Delete E' (DeleteLabsOfCollection E' rs) (DeleteTopologiesOfCollection E') i u)"
  unfolding collection_service_Delete_def Let_def
  by (rule cache_kept | (rule keeps_right_pure, (simp; fail)))+

text \<open>The three methods that check a topology.\<close>

lemma cache_full_topology: "inj (e_sha256 E) \<Longrightarrow> keeps_cache E o' (createTopologyFull E t)"
  unfolding keeps_cache_def by (metis full_topology_right prod.collapse)

lemma cache_topology_GetByUuid: "inj (e_sha256 E) \<Longrightarrow> keeps_cache E o' (topology_service_GetByUuid E i u)"
  unfolding topology_service_GetByUuid_def
  by (rule keeps_cache_pure_seq) (auto simp: keeps_right_cache keeps_right_steps cache_full_topology)

lemma cache_topology_Get: "inj (e_sha256 E) \<Longrightarrow> keeps_cache E o' (topology_service_Get E u)"
  unfolding topology_service_Get_def
  by (rule keeps_cache_pure_seq) (auto simp: keeps_cache_def split: prod.splits dest: create_all_right)

lemma right_cache_after_check:
  assumes "pure m" and "right_cache E o' w" and "\<And>a. m w = (Inr a, w) \<Longrightarrow> right_cache E o' (snd (k a w))"
  shows "right_cache E o' (snd (seq m k w))"
proof -
  obtain r where "m w = (r, w)" using assms(1) by (metis pure_def prod.collapse)
  with assms(2,3) show ?thesis by (cases r) (simp_all add: seq_def)
qed

lemma right_cache_gate:
  assumes "inj (e_sha256 E)" and "right_cache E o' w" and "schema_Parse (e_parsers E) s = Inr (d, raw)"
    and "\<forall>x \<in> set (s # map bind_FilePath fs). length x < 2 ^ 64"
  shows "right_cache E o' (snd (policy_gate E u t d raw s fs w))"
proof -
  obtain r w1 where c: "check_policy E t raw (td_Topology d) s (map bind_FilePath fs) w = (r, w1)" by fastforce
  from check_policy_right [OF assms(1) _ assms(3,4) c] assms(2) c show ?thesis
    by (auto simp: policy_gate_def right_cache_def seq_def split: sum.split)
qed

lemma cache_lab_Create:
  fixes E :: "('db, 'node, 'h) env"
  assumes "inj (e_sha256 E)"
  shows "keeps_cache E o' (lab_service_Create E req u :: ('db, 'h, 'z) world_scheme \<Rightarrow> _)"
proof -
  define G where "G = (\<lambda>t d raw s fs c lt a.
    seq (policy_gate E u t d raw s fs) (\<lambda>_. add_lab E req c lt s a :: ('db, 'h, 'z) world_scheme \<Rightarrow> _))"
  have G: "seq (policy_gate E u t d raw s fs) (\<lambda>_. add_lab E req c lt s a) = G t d raw s fs c lt a" for t d raw s fs c lt a
    by (simp add: G_def)
  have gate: "right_cache E o' (snd (G t d raw s fs c lt a w))"
    if "small_texts E w" "right_cache E o' w" "schema_Parse (e_parsers E) s = Inr (d, raw)"
      "GetBindFileForTopology (e_database E) t (w_db w) = Inr fs" for t d raw s fs c lt a w
  proof -
    have "right_cache E o' (snd (policy_gate E u t d raw s fs w))"
      using that by (intro right_cache_gate assms) (auto simp: small_texts_def)
    moreover have "keeps_right E o' (add_lab E req c lt s a)" by (rule cache_kept)
    ultimately show ?thesis
      by (auto simp: G_def seq_def keeps_right_def split: prod.split sum.split)
  qed
  show ?thesis unfolding keeps_cache_def lab_service_Create_def G
    by (auto intro!: right_cache_after_check gate simp: handle_def ask_step split: sum.splits if_splits)
qed

lemmas cache_methods = cache_topology_GetByUuid cache_topology_Get cache_lab_Create

lemma serve_keeps_cache:
  assumes "inj (e_sha256 E)"
  shows "keeps_cache E o' (serve E rs u r)"
proof -
  have *: "keeps_cache E o' (answer m)" if "keeps_cache E o' m" for m
    using that by (fastforce simp: keeps_cache_def answer_def split: prod.split sum.split)
  show ?thesis
    by (cases r; simp; rule *; (rule cache_methods [OF assms] | rule keeps_right_cache, rule cache_kept))
qed

lemma reached_right: "inj (e_sha256 E) \<Longrightarrow> reached E rs o' w \<Longrightarrow> right_cache E o' w"
proof (rotate_tac, induction rule: reached.induct)
  case (start w)
  then show ?case by (simp add: right_cache_def cache_right_create) (simp add: CreateEngine_def)
next
  case (request w u r e w')
  then show ?case using keeps_cacheD [OF serve_keeps_cache] by blast
qed (simp add: right_cache_def)

text \<open>C18: Whatever requests were served before, the findings a topology is shown with are those of a fresh
  check of the very definition and bind files shown with it, under the options the server started with:
  neither the cache, nor renamed files, nor topologies that were changed or deleted in between can make
  the server show the findings of another text.\<close>

theorem shown_findings_are_right:
  assumes "reached E rs o' w" and "inj (e_sha256 E)" and "small_texts E w"
    and "topology_service_GetByUuid E i u w = (Inr t, w')"
  shows "\<exists>d raw. schema_Parse (e_parsers E) (tf_Definition t) = Inr (d, raw)
    \<and> tf_PolicyFindings t = check \<lparr>clab = e_clab E, opts = o', bindFiles = map bf_FilePath (tf_BindFiles t)\<rparr>
        raw (td_Topology d) (tf_Definition t)"
proof -
  obtain topology where "createTopologyFull E topology w = (Inr t, w')"
    using assms(4) by (auto simp: topology_service_GetByUuid_def seq_Inr ask_step split: if_splits)
  from full_topology_right [OF assms(2,3) reached_right [OF assms(2,1)] this] show ?thesis
    by (simp add: findings_right_def)
qed

lemma demo_full_topology:
  obtains t w' where "topology_service_GetByUuid demo_env ''t1'' demo_login demo_world = (Inr t, w')"
    "tf_Definition t = ''name: net''"
proof -
  obtain e where c: "check_policy demo_env ''t1'' (Some demo_raw) None ''name: net'' [''a/b''] demo_world
      = (Inr [], demo_world\<lparr>w_engine := e\<rparr>)"
    by (rule demo_check)
  have "topology_GetByUuid memory_database ''t1'' demo_memory = Inr demo_topology"
    "GetBindFileForTopology memory_database ''t1'' demo_memory = Inr [demo_bind_file]"
    "schema_Parse (e_parsers demo_env) ''name: net'' = Inr (demo_typed, Some demo_raw)" by code_simp+
  moreover have "ReadTopology (e_storage demo_env) ''t1'' demo_fs = Inr (''name: net'', ''{}'')"
    "ReadBindFile (e_storage demo_env) ''t1'' (bind_FilePath demo_bind_file) demo_fs = Inr ''config''" by code_simp+
  then obtain fs where
    "LoadTopology demo_env ''t1'' [demo_bind_file] demo_world = (Inr (''name: net'', ''{}'', fs), demo_world)"
    by (simp add: LoadTopology_def seq_def load_step loadBindFile_def)
  moreover have "topo_UUID demo_topology = ''t1''" "allowed demo_login (coll_Name (topo_Collection demo_topology))"
    "td_Topology demo_typed = None" "bind_FilePath demo_bind_file = ''a/b''"
    by (simp_all add: demo_topology_def demo_collection_def allowed_def demo_login_def demo_typed_def demo_bind_file_def)
  ultimately show thesis
    using c that by (simp add: topology_service_GetByUuid_def createTopologyFull_def seq_def handle_def ask_step)
qed

theorem shown_findings_are_right_witness:
  "\<exists>t w'. topology_service_GetByUuid demo_env ''t1'' demo_login demo_world = (Inr t, w')
    \<and> (\<exists>d raw. schema_Parse (e_parsers demo_env) ''name: net'' = Inr (d, raw)
        \<and> tf_PolicyFindings t = check \<lparr>clab = e_clab demo_env, opts = \<lparr>AllowedImagePrefixes = []\<rparr>,
            bindFiles = map bf_FilePath (tf_BindFiles t)\<rparr> raw (td_Topology d) ''name: net'')"
proof -
  obtain t w' where t: "topology_service_GetByUuid demo_env ''t1'' demo_login demo_world = (Inr t, w')"
    "tf_Definition t = ''name: net''" by (rule demo_full_topology)
  have "reached demo_env (None :: unit runtime_service option) \<lparr>AllowedImagePrefixes = []\<rparr> demo_world"
    by (rule reached.start) simp
  from shown_findings_are_right [OF this _ demo_small t(1)] t show ?thesis by auto
qed

end
