(* ===== verification/Instances.thy ===== *)
theory Instances
  imports Services Schedule
begin

text \<open>
  The instances of labs: the data of \<open>src/runtime/instance/instance.go\<close>, the monitor of
  \<open>monitor.go\<close>, and the functions of \<open>service.go\<close> that run inside one critical section. The nodes of an
  instance are an association list whose order is the order a loop over the map takes; an instance is
  referred to by its address in a heap, since the code shares pointers to it. The state of the service
  is the extension of the world of the domain services. The operations that wait, and the threads that
  run them, are in \<open>Instance_Steps\<close>.
\<close>

section \<open>Nodes and instances\<close>

datatype node_state = NodeStopped | NodeStarting | NodeRunning | NodeStopping

record node_interface =
  if_Name :: string
  if_Address :: string
  if_MTU :: int
  if_State :: string

record inspect_container =
  ic_Name :: string
  ic_State :: node_state
  ic_ContainerId :: string
  ic_ContainerName :: string
  ic_IPv4Address :: string
  ic_IPv6Address :: string

text \<open>A log namespace is known by its path.\<close>

record instance_node =
  n_Name :: string
  n_Kind :: string
  n_CanRestart :: bool
  n_LogNamespace :: "string list"
  n_IPv4 :: string
  n_IPv6 :: string
  n_State :: node_state
  n_IsReady :: bool
  n_ContainerId :: string
  n_ContainerName :: string
  n_Interfaces :: "node_interface list"

definition Reset :: "instance_node \<Rightarrow> instance_node" where
  "Reset n = n\<lparr>n_IPv4 := [], n_IPv6 := [], n_IsReady := False, n_ContainerId := [], n_ContainerName := [],
     n_State := NodeStopping, n_Interfaces := []\<rparr>"

definition SetReady :: "node_interface list \<Rightarrow> instance_node \<Rightarrow> instance_node" where
  "SetReady interfaces n = n\<lparr>n_IsReady := True, n_Interfaces := interfaces\<rparr>"

datatype instance_state = InstDeploying | InstRunning | InstStopping | InstFailed

text \<open>
  \<open>i_OpMutex\<close> is the thread that holds the \<open>OperationMutex\<close>; contexts are numbered, and the cancel function
  of a context is the context. The other mutexes are not state: what they protect is one step.
\<close>

record runtime_instance =
  i_Name :: string
  i_TopologyFile :: string
  i_LogNamespace :: "string list"
  i_Nodes :: "(string \<times> instance_node) list"
  i_OpMutex :: "nat option"
  i_DeploymentCtx :: "nat option"
  i_DeploymentCancel :: "nat option"
  i_Deployed :: int
  i_LatestStateChange :: int
  i_State :: instance_state
  i_Recovered :: bool
  i_IsDestroyed :: bool

definition on_nodes :: "(instance_node \<Rightarrow> instance_node) \<Rightarrow> runtime_instance \<Rightarrow> runtime_instance" where
  "on_nodes f i = i\<lparr>i_Nodes := map (apsnd f) (i_Nodes i)\<rparr>"

definition on_node :: "string \<Rightarrow> (instance_node \<Rightarrow> instance_node) \<Rightarrow> runtime_instance \<Rightarrow> runtime_instance" where
  "on_node k f i = i\<lparr>i_Nodes := map (\<lambda>(k', n). (k', if k' = k then f n else n)) (i_Nodes i)\<rparr>"

text \<open>\<open>getInstanceNode\<close>: the key of the first node with a name.\<close>

definition getInstanceNode :: "runtime_instance \<Rightarrow> string \<Rightarrow> (string \<times> instance_node) option" where
  "getInstanceNode i nodeName = find (\<lambda>(_, n). n_Name n = nodeName) (i_Nodes i)"

section \<open>The state of the service\<close>

record monitored_node =
  mon_name :: string
  mon_instanceName :: string
  mon_ctx :: "nat option"

text \<open>Calls of the deployment provider, with the context they run under.\<close>

datatype provider_call =
    CallDeploy nat string string
  | CallRedeploy nat string string
  | CallDestroy string string
  | CallStartNode "nat option" string string
  | CallStopNode "nat option" string string
  | CallRestartNode "nat option" string string
  | CallStreamContainerLogs "nat option" string string

text \<open>
  \<open>rt_heap\<close> holds every instance ever made, at its address; \<open>rt_cancelled\<close> the contexts that are
  cancelled; \<open>rt_updates\<close> what was sent on \<open>lab-updates\<close>; \<open>rt_logs\<close> what was sent on the log namespaces;
  \<open>rt_created\<close> and \<open>rt_released\<close> the namespaces that were created, with their capacity, and released.
\<close>

record runtime =
  rt_instances :: "string \<rightharpoonup> nat"
  rt_heap :: "runtime_instance list"
  rt_ctxs :: nat
  rt_cancelled :: "nat set"
  rt_monitor :: "string \<rightharpoonup> monitored_node"
  rt_closed :: bool
  rt_updates :: "string option list"
  rt_logs :: "(string list \<times> string) list"
  rt_created :: "(string list \<times> int) list"
  rt_released :: "string list list"
  rt_calls :: "provider_call list"

type_synonym ('db, 'h) server = "('db, 'h, runtime) world_scheme"

definition CreateInstanceService :: runtime where
  "CreateInstanceService = \<lparr>rt_instances = Map.empty, rt_heap = [], rt_ctxs = 0, rt_cancelled = {},
     rt_monitor = Map.empty, rt_closed = False, rt_updates = [], rt_logs = [],
     rt_created = [([''lab-updates''], 0)], rt_released = [], rt_calls = []\<rparr>"

abbreviation rt :: "('db, 'h) server \<Rightarrow> runtime" where
  "rt \<equiv> world.more"

definition on_rt :: "(runtime \<Rightarrow> runtime) \<Rightarrow> ('db, 'h) server \<Rightarrow> ('db, 'h) server" where
  "on_rt f w = world.more_update f w"

definition on_inst :: "nat \<Rightarrow> (runtime_instance \<Rightarrow> runtime_instance) \<Rightarrow> runtime \<Rightarrow> runtime" where
  "on_inst a f r = r\<lparr>rt_heap := (rt_heap r)[a := f (rt_heap r ! a)]\<rparr>"

abbreviation inst :: "nat \<Rightarrow> ('db, 'h) server \<Rightarrow> runtime_instance" where
  "inst a w \<equiv> rt_heap (rt w) ! a"

definition ctx_cancelled :: "nat option \<Rightarrow> runtime \<Rightarrow> bool" where
  "ctx_cancelled c r = (case c of None \<Rightarrow> False | Some c \<Rightarrow> c \<in> rt_cancelled r)"

definition cancel_deployment :: "nat \<Rightarrow> runtime \<Rightarrow> runtime" where
  "cancel_deployment a r =
     (case i_DeploymentCancel (rt_heap r ! a) of
        None \<Rightarrow> r
      | Some c \<Rightarrow> r\<lparr>rt_cancelled := insert c (rt_cancelled r)\<rparr>)"

definition send_update :: "string option \<Rightarrow> runtime \<Rightarrow> runtime" where
  "send_update labId r = r\<lparr>rt_updates := rt_updates r @ [labId]\<rparr>"

definition send_log :: "string list \<Rightarrow> string \<Rightarrow> runtime \<Rightarrow> runtime" where
  "send_log ns msg r = r\<lparr>rt_logs := rt_logs r @ [(ns, msg)]\<rparr>"

definition release :: "string list \<Rightarrow> runtime \<Rightarrow> runtime" where
  "release ns r = r\<lparr>rt_released := rt_released r @ [ns]\<rparr>"

definition create_namespace :: "string list \<Rightarrow> int \<Rightarrow> runtime \<Rightarrow> runtime" where
  "create_namespace ns capacity r = r\<lparr>rt_created := rt_created r @ [(ns, capacity)]\<rparr>"

text \<open>What a provider call logs while it runs goes to the log of the instance.\<close>

definition send_logs :: "string list \<Rightarrow> string list \<Rightarrow> runtime \<Rightarrow> runtime" where
  "send_logs ns lines r = fold (send_log ns) lines r"

section \<open>The monitor\<close>

text \<open>\<open>AddNode\<close> on a known container only clears the backlog of its namespace.\<close>

definition AddNode :: "nat option \<Rightarrow> string \<Rightarrow> string \<Rightarrow> string \<Rightarrow> runtime \<Rightarrow> runtime" where
  "AddNode ctx instanceName nodeName containerId r =
     (if rt_monitor r containerId \<noteq> None then r
      else (create_namespace [''stats'', containerId] 20 r)
        \<lparr>rt_monitor := (rt_monitor r)(containerId \<mapsto>
           \<lparr>mon_name = nodeName, mon_instanceName = instanceName, mon_ctx = ctx\<rparr>)\<rparr>)"

definition RemoveNode :: "string \<Rightarrow> runtime \<Rightarrow> runtime" where
  "RemoveNode containerId r =
     (if rt_monitor r containerId \<noteq> None then release [''stats'', containerId] r else r)
       \<lparr>rt_monitor := (rt_monitor r)(containerId := None)\<rparr>"

text \<open>One reading of the stats of a node of the copied list: an error removes the node.\<close>

definition monitor_reading :: "string \<Rightarrow> go_error option \<Rightarrow> runtime \<Rightarrow> runtime" where
  "monitor_reading containerId err r = (case err of Some _ \<Rightarrow> RemoveNode containerId r | None \<Rightarrow> r)"

definition monitor_Close :: "string list \<Rightarrow> runtime \<Rightarrow> runtime" where
  "monitor_Close containerIds r = fold RemoveNode containerIds r"

section \<open>Inspections\<close>

definition updateNodeWithContainer :: "inspect_container \<Rightarrow> instance_node \<Rightarrow> instance_node" where
  "updateNodeWithContainer container n =
     (if ic_State container = NodeStopped
      then n\<lparr>n_State := ic_State container, n_ContainerId := [], n_ContainerName := [], n_IPv4 := [], n_IPv6 := []\<rparr>
      else n\<lparr>n_State := ic_State container, n_ContainerId := ic_ContainerId container,
             n_ContainerName := ic_ContainerName container, n_IPv4 := ic_IPv4Address container,
             n_IPv6 := ic_IPv6Address container\<rparr>)"

text \<open>What the result of inspecting a lab makes of a node: \<open>None\<close> is the inspection that failed.\<close>

definition inspected_node :: "inspect_container list option \<Rightarrow> instance_node \<Rightarrow> instance_node" where
  "inspected_node containers n =
     (case containers of
        None \<Rightarrow> n\<lparr>n_State := NodeStopped\<rparr>
      | Some cs \<Rightarrow>
          (case find (\<lambda>c. ic_Name c = n_Name n) cs of
             None \<Rightarrow> n\<lparr>n_State := NodeStopped\<rparr>
           | Some c \<Rightarrow> updateNodeWithContainer c (Reset n)))"

text \<open>The end of \<open>fetchNode\<close>: whether the state of the node changed, and the node.\<close>

definition fetched_node :: "inspect_container result \<Rightarrow> instance_node \<Rightarrow> bool \<times> instance_node" where
  "fetched_node r n =
     (case r of
        Inl _ \<Rightarrow> (False, n)
      | Inr c \<Rightarrow> if n_State n = ic_State c then (False, n) else (True, updateNodeWithContainer c n))"

section \<open>Messages\<close>

definition apos :: "string \<Rightarrow> string" where
  "apos s = CHR 0x27 # s @ [CHR 0x27]"

definition sendLabUpdate ::
  "('db, 'node, 'h) env \<Rightarrow> lab \<Rightarrow> log_level \<Rightarrow> string \<Rightarrow> string list \<Rightarrow> string list option
    \<Rightarrow> ('db, 'h) server \<Rightarrow> ('db, 'h) server" where
  "sendLabUpdate E lab severity content logParts logNamespace w =
     (case send_status E severity ''Runtime'' content logParts (on_rt (send_update (Some (lab_UUID lab))) w) of
        (Inl _, w) \<Rightarrow> w
      | (Inr m, w) \<Rightarrow>
          (case logNamespace of None \<Rightarrow> w | Some ns \<Rightarrow> on_rt (send_log ns (msg_LogContent m)) w))"

definition updateLabAndSendUpdate ::
  "('db, 'node, 'h) env \<Rightarrow> lab \<Rightarrow> nat \<Rightarrow> instance_state \<Rightarrow> log_level \<Rightarrow> string \<Rightarrow> string list
    \<Rightarrow> ('db, 'h) server \<Rightarrow> ('db, 'h) server" where
  "updateLabAndSendUpdate E lab a s severity content logParts w =
     sendLabUpdate E lab severity content logParts (Some (i_LogNamespace (inst a w)))
       (on_rt (on_inst a (\<lambda>i. i\<lparr>i_State := s, i_LatestStateChange := w_now w\<rparr>)) w)"

section \<open>Making instances\<close>

text \<open>
  What the service reads of the configuration. \<open>cfg_nodeKindConfigs\<close> is the file of node kinds, of which
  the service uses \<open>canRestart\<close>; \<open>cfg_GetNodeKind\<close> is containerlab's resolution of the kind of a node.
\<close>

record inst_config =
  cfg_ClabLogBacklog :: int
  cfg_ContainerLogBacklog :: int
  cfg_ExcludedInterfaces :: "string list"
  cfg_nodeKindConfigs :: "string \<rightharpoonup> bool option"
  cfg_GetNodeKind :: "clab_topology \<Rightarrow> string \<Rightarrow> string"

definition new_node :: "inst_config \<Rightarrow> clab_topology \<Rightarrow> string \<Rightarrow> string \<Rightarrow> instance_node" where
  "new_node C topo labId nodeName =
     (let kind = cfg_GetNodeKind C topo nodeName;
          canRestart = (case cfg_nodeKindConfigs C kind of Some (Some b) \<Rightarrow> b | _ \<Rightarrow> False)
      in \<lparr>n_Name = nodeName, n_Kind = kind, n_CanRestart = canRestart, n_LogNamespace = [''logs'', labId, nodeName],
          n_IPv4 = [], n_IPv6 = [], n_State = NodeStopped, n_IsReady = False, n_ContainerId = [],
          n_ContainerName = [], n_Interfaces = []\<rparr>)"

definition createNodesFromTopology ::
  "inst_config \<Rightarrow> topology_definition \<Rightarrow> string \<Rightarrow> runtime \<Rightarrow> (string \<times> instance_node) list result \<times> runtime" where
  "createNodesFromTopology C topologyDefinition labId r =
     (case td_Topology topologyDefinition of
        None \<Rightarrow> (Inl (Foreign ''topology definition has no nodes''), r)
      | Some topo \<Rightarrow>
          if ct_Nodes topo = [] then (Inl (Foreign ''topology definition has no nodes''), r)
          else (Inr (map (\<lambda>(k, _). (k, new_node C topo labId k)) (ct_Nodes topo)),
                fold (\<lambda>(k, _). create_namespace [''logs'', labId, k] (cfg_ContainerLogBacklog C)) (ct_Nodes topo) r))"

definition createInstance ::
  "('db, 'node, 'h) env \<Rightarrow> inst_config \<Rightarrow> string \<Rightarrow> string list \<Rightarrow> string \<Rightarrow> string \<Rightarrow> string
    \<Rightarrow> ('db, 'h) server \<Rightarrow> runtime_instance result \<times> ('db, 'h) server" where
  "createInstance E C name logNamespace topologyFile topologyDefinitionString labId w =
     (case schema_Parse (e_parsers E) topologyDefinitionString of
        Inl _ \<Rightarrow> (Inl (Sentinel ErrAntimony), w)
      | Inr (topologyDefinition, _) \<Rightarrow>
          (case createNodesFromTopology C topologyDefinition labId (rt w) of
             (Inl _, r) \<Rightarrow> (Inl (Sentinel ErrAntimony), on_rt (\<lambda>_. r) w)
           | (Inr nodeList, r) \<Rightarrow>
               (Inr \<lparr>i_Name = name, i_TopologyFile = topologyFile, i_LogNamespace = logNamespace, i_Nodes = nodeList,
                  i_OpMutex = None, i_DeploymentCtx = None, i_DeploymentCancel = None, i_Deployed = w_now w,
                  i_LatestStateChange = w_now w, i_State = InstDeploying, i_Recovered = False,
                  i_IsDestroyed = False\<rparr>, on_rt (\<lambda>_. r) w)))"

section \<open>Who may do what\<close>

definition canAccessLab :: "('db, 'node, 'h) env \<Rightarrow> string \<Rightarrow> authenticated_user \<Rightarrow> ('db, 'h) server \<Rightarrow> bool" where
  "canAccessLab E labId user w \<longleftrightarrow>
     IsAdmin user
     \<or> (case lab_GetByUuid (e_database E) labId (w_db w) of
          Inl _ \<Rightarrow> False
        | Inr targetLab \<Rightarrow> allowed user (coll_Name (lab_Collection targetLab)))"

definition lab_lookup :: "('db, 'node, 'h) env \<Rightarrow> string \<Rightarrow> 'db \<Rightarrow> lab result" where
  "lab_lookup E labId db =
     (case lab_GetByUuid (e_database E) labId db of
        Inl err \<Rightarrow> Inl (if errors_is err ErrUuidNotFound then Sentinel ErrLabNotFound else err)
      | Inr l \<Rightarrow> Inr l)"

definition validateLabCommand ::
  "('db, 'node, 'h) env \<Rightarrow> string option \<Rightarrow> authenticated_user \<Rightarrow> ('db, 'h) server \<Rightarrow> lab result" where
  "validateLabCommand E labId authUser w =
     (case labId of
        None \<Rightarrow> Inl (Wrap (Sentinel ErrLabNotFound) ''no lab specified'')
      | Some labId \<Rightarrow>
          (case lab_lookup E labId (w_db w) of
             Inl err \<Rightarrow> Inl err
           | Inr instanceLab \<Rightarrow>
               if \<not> IsAdmin authUser \<and> UserId authUser \<noteq> user_UUID (lab_Creator instanceLab)
               then Inl (Sentinel ErrNoDeployAccessToLab)
               else Inr instanceLab))"

definition validateNodeCommand ::
  "('db, 'node, 'h) env \<Rightarrow> string \<Rightarrow> string option \<Rightarrow> authenticated_user \<Rightarrow> ('db, 'h) server
    \<Rightarrow> (lab \<times> nat \<times> string) result" where
  "validateNodeCommand E labId nodeName authUser w =
     (case nodeName of
        None \<Rightarrow> Inl (Sentinel ErrNodeNotFound)
      | Some nodeName \<Rightarrow>
          (case lab_lookup E labId (w_db w) of
             Inl err \<Rightarrow> Inl err
           | Inr instanceLab \<Rightarrow>
               if \<not> IsAdmin authUser \<and> UserId authUser \<noteq> user_UUID (lab_Creator instanceLab)
               then Inl (Sentinel ErrNoDestroyAccessToLab)
               else (case rt_instances (rt w) (lab_UUID instanceLab) of
                       None \<Rightarrow> Inl (Sentinel ErrLabNotRunning)
                     | Some a \<Rightarrow> Inr (instanceLab, a, nodeName))))"

section \<open>Questions about instances\<close>

definition GetInstance :: "string \<Rightarrow> runtime \<Rightarrow> runtime_instance option" where
  "GetInstance labId r = map_option ((!) (rt_heap r)) (rt_instances r labId)"

definition IsRunning :: "string \<Rightarrow> runtime \<Rightarrow> bool" where
  "IsRunning labId r \<longleftrightarrow> rt_instances r labId \<noteq> None"

definition CanDelete :: "string \<Rightarrow> runtime \<Rightarrow> bool" where
  "CanDelete labId r =
     (case rt_instances r labId of None \<Rightarrow> True | Some a \<Rightarrow> i_State (rt_heap r ! a) = InstFailed)"

text \<open>The service as the runtime the lab service asks.\<close>

definition instance_service :: "runtime runtime_service" where
  "instance_service = \<lparr>rs_IsRunning = IsRunning, rs_CanDelete = CanDelete\<rparr>"

text \<open>
  \<open>GetInstanceNode\<close>: the lab, the instance and the key of the node for the identifiers given. \<open>keys\<close> are the
  keys of the map of instances in the order a loop over it takes. A lab that was not looked up is \<open>None\<close>.
\<close>

definition locate_by_lab ::
  "lab result \<Rightarrow> (lab \<Rightarrow> nat option) \<Rightarrow> string \<Rightarrow> lab result option \<times> nat option \<times> string" where
  "locate_by_lab l a nodeName =
     (case l of Inl err \<Rightarrow> (Some (Inl err), None, []) | Inr lab \<Rightarrow> (Some (Inr lab), a lab, nodeName))"

definition node_with_container :: "string \<Rightarrow> runtime_instance \<Rightarrow> string option" where
  "node_with_container containerId i =
     map_option fst (find (\<lambda>(_, n). n_ContainerId n = containerId) (i_Nodes i))"

definition locate_node ::
  "('db, 'node, 'h) env \<Rightarrow> string list \<Rightarrow> string option \<Rightarrow> string option \<Rightarrow> string option \<Rightarrow> string option
    \<Rightarrow> string option \<Rightarrow> string option \<Rightarrow> ('db, 'h) server
    \<Rightarrow> (lab result option \<times> nat option \<times> string) result" where
  "locate_node E keys labId instanceName collectionName labName nodeName containerId w =
     (let instances = rt_instances (rt w); i = (\<lambda>k. rt_heap (rt w) ! the (instances k)) in
      case (containerId, labId, instanceName, collectionName, labName, nodeName) of
        (Some c, _) \<Rightarrow>
          (case find (\<lambda>k. node_with_container c (i k) \<noteq> None) keys of
             None \<Rightarrow> Inl (Sentinel ErrNodeNotFound)
           | Some k \<Rightarrow> Inr (locate_by_lab (lab_GetByUuid (e_database E) k (w_db w)) (\<lambda>_. instances k)
                             (the (node_with_container c (i k)))))
      | (None, Some l, _, _, _, Some n) \<Rightarrow>
          Inr (locate_by_lab (lab_GetByUuid (e_database E) l (w_db w)) (\<lambda>lab. instances (lab_UUID lab)) n)
      | (None, _, Some name, _, _, Some n) \<Rightarrow>
          (case find (\<lambda>k. i_Name (i k) = name) keys of
             None \<Rightarrow> Inr (None, None, [])
           | Some k \<Rightarrow> Inr (locate_by_lab (lab_GetByUuid (e_database E) k (w_db w)) (\<lambda>_. instances k) n))
      | (None, _, _, Some cn, Some ln, Some n) \<Rightarrow>
          Inr (locate_by_lab (lab_GetByCollectionAndName (e_database E) cn ln (w_db w))
                 (\<lambda>lab. instances (lab_UUID lab)) n)
      | _ \<Rightarrow> Inl (Sentinel ErrInvalidSocketRequest))"

definition GetInstanceNode ::
  "('db, 'node, 'h) env \<Rightarrow> string list \<Rightarrow> string option \<Rightarrow> string option \<Rightarrow> string option \<Rightarrow> string option
    \<Rightarrow> string option \<Rightarrow> string option \<Rightarrow> authenticated_user option \<Rightarrow> ('db, 'h) server
    \<Rightarrow> (instance_node \<times> string) result" where
  "GetInstanceNode E keys labId instanceName collectionName labName nodeName containerId authUser w =
     (case locate_node E keys labId instanceName collectionName labName nodeName containerId w of
        Inl err \<Rightarrow> Inl err
      | Inr (Some (Inl labError), _) \<Rightarrow> Inl (Wrap (Sentinel ErrNodeNotFound) (error_text labError))
      | Inr (targetLab, targetInstance, targetNodeName) \<Rightarrow>
          if (case (targetLab, authUser) of
                (Some (Inr l), Some u) \<Rightarrow> \<not> IsAdmin u \<and> \<not> allowed u (coll_Name (lab_Collection l))
              | _ \<Rightarrow> False)
          then Inl (Sentinel ErrNoAccessToLab)
          else (case targetInstance of
                  None \<Rightarrow> Inl (Sentinel ErrLabNotRunning)
                | Some a \<Rightarrow>
                    (case map_of (i_Nodes (inst a w)) targetNodeName of
                       None \<Rightarrow> Inl (Sentinel ErrNodeNotFound)
                     | Some node \<Rightarrow> Inr (node, i_Name (inst a w)))))"

section \<open>The probe of a node that starts\<close>

definition sshServerResponded :: "string \<Rightarrow> bool" where
  "sshServerResponded out \<longleftrightarrow>
     list_ex (Contains out) [''Permission denied'', ''Host key verification'', ''Too many authentication failures'']"

text \<open>The cases of \<open>waitForNodeStarted\<close> for the output and the exit code of \<open>ssh\<close>.\<close>

datatype probe = Retry | Started | NotStarted go_error

definition probe_result :: "(string \<times> int) result \<Rightarrow> probe" where
  "probe_result r =
     (case r of
        Inl err \<Rightarrow> if errors_is err ErrNodeNotRunning then Retry else NotStarted err
      | Inr (out, code) \<Rightarrow>
          if code = 0 then Started
          else if code = 126 \<or> code = 127 then Started
          else if code = 255 \<and> sshServerResponded out then Started
          else if code = 255 then Retry
          else NotStarted (Foreign (''unexpected exit '' @ show_int code @ '' from ssh probe: '' @ TrimSpace out)))"

section \<open>Excluded interfaces\<close>

text \<open>
  \<open>path.Match\<close> of the standard library on ASCII: a pattern that is malformed matches nothing. The match
  is the one of the documentation; the library takes the first place where a part after a star fits,
  which is the same unless a class of characters can match a slash.
\<close>

datatype glob = GStar | GAny | GClass bool "(char \<times> char) list" | GChar char

definition getEsc :: "string \<Rightarrow> (char \<times> string) option" where
  "getEsc chunk =
     (case chunk of
        [] \<Rightarrow> None
      | c # s \<Rightarrow>
          if c = CHR ''-'' \<or> c = CHR '']'' then None
          else if c = CHR 0x5C then (case s of [] \<Rightarrow> None | d # s' \<Rightarrow> if s' = [] then None else Some (d, s'))
          else if s = [] then None else Some (c, s))"

lemma getEsc_shorter: "getEsc s = Some (c, s') \<Longrightarrow> length s' < length s"
  by (auto simp: getEsc_def split: list.splits if_splits)

function glob_ranges :: "bool \<Rightarrow> string \<Rightarrow> ((char \<times> char) list \<times> string) option" where
  "glob_ranges some chunk =
     (if some \<and> take 1 chunk = '']'' then Some ([], drop 1 chunk)
      else case getEsc chunk of
        None \<Rightarrow> None
      | Some (lo, rest) \<Rightarrow>
          if take 1 rest = ''-'' then
            (case getEsc (drop 1 rest) of
               None \<Rightarrow> None
             | Some (hi, rest') \<Rightarrow> map_option (apfst ((#) (lo, hi))) (glob_ranges True rest'))
          else map_option (apfst ((#) (lo, lo))) (glob_ranges True rest))"
  by pat_completeness auto

termination
proof (relation "measure (length \<circ> snd)", goal_cases)
  case (2 some chunk p lo rest q hi rest')
  then have "length rest < length chunk" "length rest' < length (drop 1 rest)" by (auto dest: getEsc_shorter)
  then show ?case by simp
next
  case (3 some chunk p lo rest)
  then show ?case by (auto dest: getEsc_shorter)
qed simp

declare glob_ranges.simps [simp del]

lemma glob_ranges_shorter: "glob_ranges some s = Some (rs, s') \<Longrightarrow> length s' \<le> length s"
proof (induction some s arbitrary: rs rule: glob_ranges.induct)
  case (1 some chunk)
  show ?case
  proof (cases "some \<and> take 1 chunk = '']''")
    case True
    with 1(3) show ?thesis by (auto simp: glob_ranges.simps [of True chunk])
  next
    case False
    with 1(3) obtain lo rest where e: "getEsc chunk = Some (lo, rest)"
      by (auto simp: glob_ranges.simps [of some chunk] split: option.splits)
    show ?thesis
    proof (cases "take 1 rest = ''-''")
      case True
      with 1(3) False e obtain hi rest' rs' where r: "getEsc (drop 1 rest) = Some (hi, rest')"
          "glob_ranges True rest' = Some (rs', s')"
        by (auto simp: glob_ranges.simps [of some chunk] split: option.splits)
      from 1(1) [OF False e refl True r(1) refl r(2)] getEsc_shorter [OF e] getEsc_shorter [OF r(1)]
      show ?thesis by simp
    next
      case no: False
      with 1(3) False e obtain rs' where r: "glob_ranges True rest = Some (rs', s')"
        by (auto simp: glob_ranges.simps [of some chunk] split: option.splits)
      from 1(2) [OF False e refl no r] getEsc_shorter [OF e] show ?thesis by simp
    qed
  qed
qed

function glob_parse :: "string \<Rightarrow> glob list option" where
  "glob_parse [] = Some []"
| "glob_parse (c # p) =
     (if c = CHR ''*'' then map_option ((#) GStar) (glob_parse p)
      else if c = CHR ''?'' then map_option ((#) GAny) (glob_parse p)
      else if c = CHR 0x5C then
        (case p of [] \<Rightarrow> None | d # p' \<Rightarrow> map_option ((#) (GChar d)) (glob_parse p'))
      else if c = CHR ''['' then
        (let negated = take 1 p = ''^'' in
         case glob_ranges False (if negated then drop 1 p else p) of
           None \<Rightarrow> None
         | Some (rs, p') \<Rightarrow> map_option ((#) (GClass negated rs)) (glob_parse p'))
      else map_option ((#) (GChar c)) (glob_parse p))"
  by pat_completeness auto

termination
  by (relation "measure length") (auto dest!: glob_ranges_shorter split: if_splits)

fun glob_match :: "glob list \<Rightarrow> string \<Rightarrow> bool" where
  "glob_match [] s = (s = [])"
| "glob_match (GStar # p) s =
     (glob_match p s \<or> (case s of [] \<Rightarrow> False | c # s' \<Rightarrow> c \<noteq> CHR ''/'' \<and> glob_match (GStar # p) s'))"
| "glob_match (GAny # p) s = (case s of [] \<Rightarrow> False | c # s' \<Rightarrow> c \<noteq> CHR ''/'' \<and> glob_match p s')"
| "glob_match (GChar x # p) s = (case s of [] \<Rightarrow> False | c # s' \<Rightarrow> c = x \<and> glob_match p s')"
| "glob_match (GClass negated rs # p) s =
     (case s of
        [] \<Rightarrow> False
      | c # s' \<Rightarrow> (list_ex (\<lambda>(lo, hi). lo \<le> c \<and> c \<le> hi) rs \<noteq> negated) \<and> glob_match p s')"

definition interface_excluded :: "inst_config \<Rightarrow> node_interface \<Rightarrow> bool" where
  "interface_excluded C i =
     list_ex (\<lambda>p. case glob_parse p of None \<Rightarrow> False | Some g \<Rightarrow> glob_match g (if_Name i)) (cfg_ExcludedInterfaces C)"

end
