(* ===== verification/Instance_Steps.thy ===== *)
theory Instance_Steps
  imports Instances
begin

text \<open>
  The operations of \<open>src/runtime/instance/service.go\<close> that wait: for a mutex, for the deployment provider
  or for a node. Each of them is a thread, and the place it has reached is a \<open>pc\<close> that holds the local
  variables still needed. A step of a thread is the code between two such places, that is one critical
  section with the messages sent after it, or the return of one call of the provider with what the
  code does with the result. What the provider and the timers answer is the \<open>reply\<close> of the step.
\<close>

section \<open>Places and replies\<close>

datatype node_op = OpStart | OpStop | OpRestart

text \<open>\<open>nat\<close> is the address of an instance, or the number of a context where a second one follows.\<close>

datatype pc =
    DeployCommand "string option" authenticated_user
  | DeployStart lab
  | DeployContext lab nat bool
  | DeployWait lab nat bool nat
  | DeployBegin lab nat bool nat
  | DeployCall lab nat nat
  | DeployInspect lab nat nat
  | DeployInspected lab nat nat
  | DeployStream lab nat nat "string list"
  | DeployDone lab nat nat
  | DestroyCommand "string option" authenticated_user
  | DestroyStart lab
  | DestroyCancel lab nat
  | DestroyWait lab nat
  | DestroyBegin lab nat
  | DestroyCall lab nat
  | DestroyMark lab nat
  | DestroyRemove lab nat
  | NodeCommand node_op string "string option" authenticated_user
  | NodeTry node_op string lab nat string
  | NodeReset node_op string lab nat string
  | NodeCall node_op string lab nat string
  | NodeFetch node_op string lab nat string
  | ListenerStart string nat string bool
  | ListenerProbe string nat string bool "nat option" int
  | ListenerPause string nat string bool "nat option" int
  | ListenerStream string nat string "nat option" "go_error option"
  | ListenerOutcome string nat string "nat option" "go_error option"
  | ListenerInterfaces string nat string "nat option"
  | EventStart string
  | EventFetch string nat string
  | Finished "go_error option"

text \<open>
  \<open>Silent\<close> is the reply of a step that asks nobody; \<open>ProviderDone\<close> that of a call that logs lines and may
  fail; \<open>Expired\<close> is a context that is done, with its error; \<open>Chosen\<close> the lab an iteration over the map
  of instances comes upon first.
\<close>

datatype reply =
    Silent
  | ProviderDone "string list" "go_error option"
  | LabInspected "string list" "inspect_container list result"
  | NodeInspected "string list" "inspect_container result"
  | ProbeDone "(string \<times> int) result"
  | TimerFired
  | Expired go_error
  | InterfacesRead "node_interface list result"
  | Chosen string

type_synonym ('db, 'h) outcome = "(pc \<times> pc list \<times> ('db, 'h) server) option"

text \<open>A step goes on at a place, with new threads, in a new state of the server; \<open>None\<close> is a step that is not possible.\<close>

definition goto :: "pc \<Rightarrow> ('db, 'h) server \<Rightarrow> ('db, 'h) outcome" where
  "goto p w = Some (p, [], w)"

definition unlock :: "nat \<Rightarrow> ('db, 'h) server \<Rightarrow> ('db, 'h) server" where
  "unlock a = on_rt (on_inst a (\<lambda>i. i\<lparr>i_OpMutex := None\<rparr>))"

definition lock :: "nat \<Rightarrow> nat \<Rightarrow> ('db, 'h) server \<Rightarrow> ('db, 'h) server" where
  "lock tid a = on_rt (on_inst a (\<lambda>i. i\<lparr>i_OpMutex := Some tid\<rparr>))"

text \<open>Returning from an operation that holds the mutex.\<close>

definition return_unlocked :: "nat \<Rightarrow> go_error option \<Rightarrow> ('db, 'h) server \<Rightarrow> ('db, 'h) outcome" where
  "return_unlocked a err w = goto (Finished err) (unlock a w)"

definition set_last_failed :: "('db, 'node, 'h) env \<Rightarrow> lab \<Rightarrow> bool \<Rightarrow> ('db, 'h) server \<Rightarrow> ('db, 'h) server" where
  "set_last_failed E lab failed = SetLastDeployFailed E (lab_Topology lab) failed"

section \<open>Deploying\<close>

definition deploy_command ::
  "('db, 'node, 'h) env \<Rightarrow> string option \<Rightarrow> authenticated_user \<Rightarrow> ('db, 'h) server \<Rightarrow> ('db, 'h) outcome" where
  "deploy_command E labId authUser w =
     (case validateLabCommand E labId authUser w of
        Inl err \<Rightarrow> goto (Finished (Some err)) w
      | Inr l \<Rightarrow>
          let ended = (case lab_EndTime l of None \<Rightarrow> False | Some t \<Rightarrow> unix t \<le> unix (w_now w));
              l' = (if ended then l\<lparr>lab_EndTime := None\<rparr> else l);
              w = (if ended then snd (exec (lab_repo_Update (e_database E) l') w) else w)
          in goto (DeployStart l') (snd (publish ''lab.manually-deployed'' l' w)))"

text \<open>The part under \<open>instancesMutex\<close>: the instance of the lab, or a new one.\<close>

definition deploy_start ::
  "('db, 'node, 'h) env \<Rightarrow> inst_config \<Rightarrow> lab \<Rightarrow> ('db, 'h) server \<Rightarrow> ('db, 'h) outcome" where
  "deploy_start E C lab w =
     (case rt_instances (rt w) (lab_UUID lab) of
        Some a \<Rightarrow> goto (DeployContext lab a True) w
      | None \<Rightarrow>
          (case GetRunEnvironment (e_storage E) (lab_UUID lab) (w_fs w) of
             Inl _ \<Rightarrow>
               goto (Finished (Some (Sentinel ErrAntimony)))
                 (set_last_failed E lab True
                   (sendLabUpdate E lab ErrorLevel (''Failed to get environment for lab '' @ apos (lab_Name lab))
                     [''Failed to get environment for lab. Please check Antimony logs for more details.'',
                      ''name'', lab_Name lab, ''id'', lab_UUID lab] None w))
           | Inr (topologyDefinitionString, topologyFile) \<Rightarrow>
               let ns = [''logs'', lab_UUID lab];
                   w = on_rt (create_namespace ns (cfg_ClabLogBacklog C)) w
               in (case createInstance E C (lab_InstanceName lab) ns topologyFile topologyDefinitionString
                         (lab_UUID lab) w of
                     (Inl err, w) \<Rightarrow> goto (Finished (Some err)) w
                   | (Inr i, w) \<Rightarrow>
                       let i = on_nodes (\<lambda>n. n\<lparr>n_State := NodeStarting\<rparr>) i; a = length (rt_heap (rt w))
                       in goto (DeployContext lab a False)
                            (on_rt (\<lambda>r. r\<lparr>rt_heap := rt_heap r @ [i],
                               rt_instances := (rt_instances r)(lab_UUID lab \<mapsto> a)\<rparr>) w))))"

definition deploy_context :: "lab \<Rightarrow> nat \<Rightarrow> bool \<Rightarrow> ('db, 'h) server \<Rightarrow> ('db, 'h) outcome" where
  "deploy_context lab a instanceRunning w =
     (let ctx = rt_ctxs (rt w) in
      goto (DeployWait lab a instanceRunning ctx)
        (on_rt (\<lambda>r. on_inst a (\<lambda>i. i\<lparr>i_DeploymentCtx := Some ctx, i_DeploymentCancel := Some ctx\<rparr>)
           ((cancel_deployment a r)\<lparr>rt_ctxs := Suc ctx\<rparr>)) w))"

text \<open>Once it has the mutex, a deployment that was cancelled or whose instance is gone does nothing.\<close>

definition deploy_wait :: "nat \<Rightarrow> lab \<Rightarrow> nat \<Rightarrow> bool \<Rightarrow> nat \<Rightarrow> ('db, 'h) server \<Rightarrow> ('db, 'h) outcome" where
  "deploy_wait tid lab a instanceRunning ctx w =
     (if i_OpMutex (inst a w) \<noteq> None then None
      else if ctx \<in> rt_cancelled (rt w) \<or> i_IsDestroyed (inst a w) then goto (Finished None) w
      else goto (DeployBegin lab a instanceRunning ctx) (lock tid a w))"

definition deploy_begin ::
  "('db, 'node, 'h) env \<Rightarrow> lab \<Rightarrow> nat \<Rightarrow> bool \<Rightarrow> nat \<Rightarrow> ('db, 'h) server \<Rightarrow> ('db, 'h) outcome" where
  "deploy_begin E lab a instanceRunning ctx w =
     goto (DeployCall lab a ctx)
       (if instanceRunning then
          on_rt (\<lambda>r. r\<lparr>rt_calls := rt_calls r @ [CallRedeploy ctx (i_TopologyFile (rt_heap r ! a)) (lab_InstanceName lab)]\<rparr>)
            (updateLabAndSendUpdate E lab a InstDeploying InfoLevel (''Redeploying lab '' @ apos (lab_Name lab))
              [''Starting redeployment of lab'', ''name'', lab_Name lab, ''id'', lab_UUID lab]
              (on_rt (on_inst a (on_nodes Reset)) w))
        else
          on_rt (\<lambda>r. r\<lparr>rt_calls := rt_calls r @ [CallDeploy ctx (i_TopologyFile (rt_heap r ! a)) (lab_InstanceName lab)]\<rparr>)
            (updateLabAndSendUpdate E lab a InstDeploying InfoLevel (''Deploying lab '' @ apos (lab_Name lab))
              [''Starting deployment of lab'', ''name'', lab_Name lab, ''id'', lab_UUID lab] w))"

definition log_to_instance :: "nat \<Rightarrow> string list \<Rightarrow> ('db, 'h) server \<Rightarrow> ('db, 'h) server" where
  "log_to_instance a lines = on_rt (\<lambda>r. send_logs (i_LogNamespace (rt_heap r ! a)) lines r)"

definition deploy_call ::
  "('db, 'node, 'h) env \<Rightarrow> lab \<Rightarrow> nat \<Rightarrow> nat \<Rightarrow> string list \<Rightarrow> go_error option \<Rightarrow> ('db, 'h) server
    \<Rightarrow> ('db, 'h) outcome" where
  "deploy_call E lab a ctx lines err w0 =
     (let w = log_to_instance a lines w0 in
      case err of
        None \<Rightarrow> goto (DeployInspect lab a ctx) w
      | Some e \<Rightarrow>
          if ctx \<in> rt_cancelled (rt w) then return_unlocked a None w
          else return_unlocked a (Some (Sentinel ErrProvider))
            (set_last_failed E lab True
              (updateLabAndSendUpdate E lab a InstFailed ErrorLevel
                (''Failed to deploy lab '' @ apos (lab_Name lab) @ '': '' @ error_text e)
                [''Deployment of lab failed'', ''name'', lab_Name lab, ''id'', lab_UUID lab, ''err'', error_text e]
                (on_rt (on_inst a (on_nodes (\<lambda>n. n\<lparr>n_State := NodeStopped\<rparr>))) w))))"

definition deploy_inspect ::
  "('db, 'node, 'h) env \<Rightarrow> lab \<Rightarrow> nat \<Rightarrow> nat \<Rightarrow> string list \<Rightarrow> inspect_container list result
    \<Rightarrow> ('db, 'h) server \<Rightarrow> ('db, 'h) outcome" where
  "deploy_inspect E lab a ctx lines containers w0 =
     (let w = log_to_instance a lines w0 in
      case containers of
        Inr cs \<Rightarrow> goto (DeployInspected lab a ctx) (on_rt (on_inst a (on_nodes (inspected_node (Some cs)))) w)
      | Inl e \<Rightarrow>
          let w = on_rt (on_inst a (on_nodes (inspected_node None))) w in
          if ctx \<in> rt_cancelled (rt w) then return_unlocked a None w
          else return_unlocked a (Some (Sentinel ErrProvider))
            (set_last_failed E lab True
              (updateLabAndSendUpdate E lab a InstFailed WarningLevel
                (''Failed to inspect lab '' @ apos (lab_Name lab) @ '': '' @ error_text e)
                [''Inspection of lab failed'', ''name'', lab_Name lab, ''id'', lab_UUID lab, ''err'', error_text e] w)))"

definition deploy_inspected :: "lab \<Rightarrow> nat \<Rightarrow> nat \<Rightarrow> ('db, 'h) server \<Rightarrow> ('db, 'h) outcome" where
  "deploy_inspected lab a ctx w =
     goto (DeployStream lab a ctx (map fst (i_Nodes (inst a w))))
       (on_rt (on_inst a (\<lambda>i. i\<lparr>i_Recovered := False, i_Deployed := w_now w\<rparr>)) w)"

text \<open>The loop over the nodes: a stopped node is skipped, the others get a log stream and a listener.\<close>

definition deploy_stream ::
  "lab \<Rightarrow> nat \<Rightarrow> nat \<Rightarrow> string list \<Rightarrow> reply \<Rightarrow> ('db, 'h) server \<Rightarrow> ('db, 'h) outcome" where
  "deploy_stream lab a ctx keys reply w =
     (case keys of
        [] \<Rightarrow> if reply = Silent then goto (DeployDone lab a ctx) w else None
      | k # ks \<Rightarrow>
          (case map_of (i_Nodes (inst a w)) k of
             None \<Rightarrow> None
           | Some n \<Rightarrow>
               if n_State n = NodeStopped
               then (if reply = Silent then goto (DeployStream lab a ctx ks) w else None)
               else (case reply of
                       ProviderDone lines err \<Rightarrow>
                         let w = on_rt (\<lambda>r. send_logs (n_LogNamespace n) lines
                               (r\<lparr>rt_calls := rt_calls r @ [CallStreamContainerLogs (Some ctx) (i_Name (inst a w)) (n_Name n)]\<rparr>)) w in
                         if err \<noteq> None \<and> ctx \<in> rt_cancelled (rt w) then return_unlocked a None w
                         else Some (DeployStream lab a ctx ks, [ListenerStart (lab_UUID lab) a k False], w)
                     | _ \<Rightarrow> None)))"

definition deploy_done ::
  "('db, 'node, 'h) env \<Rightarrow> lab \<Rightarrow> nat \<Rightarrow> ('db, 'h) server \<Rightarrow> ('db, 'h) outcome" where
  "deploy_done E lab a w =
     return_unlocked a None
       (set_last_failed E lab False
         (updateLabAndSendUpdate E lab a InstRunning SuccessLevel (''Successfully deployed lab '' @ apos (lab_Name lab))
           [''Deployment of lab was successful'', ''name'', lab_Name lab, ''id'', lab_UUID lab] w))"

section \<open>Destroying\<close>

definition destroy_command ::
  "('db, 'node, 'h) env \<Rightarrow> string option \<Rightarrow> authenticated_user \<Rightarrow> ('db, 'h) server \<Rightarrow> ('db, 'h) outcome" where
  "destroy_command E labId authUser w =
     (case validateLabCommand E labId authUser w of
        Inl err \<Rightarrow> goto (Finished (Some err)) w
      | Inr l \<Rightarrow> goto (DestroyStart l) (snd (publish ''lab.deleted'' l w)))"

definition destroy_start :: "lab \<Rightarrow> ('db, 'h) server \<Rightarrow> ('db, 'h) outcome" where
  "destroy_start lab w =
     (case rt_instances (rt w) (lab_UUID lab) of
        None \<Rightarrow> goto (Finished (Some (Sentinel ErrLabNotRunning))) w
      | Some a \<Rightarrow> goto (DestroyCancel lab a) w)"

definition destroy_cancel :: "lab \<Rightarrow> nat \<Rightarrow> ('db, 'h) server \<Rightarrow> ('db, 'h) outcome" where
  "destroy_cancel lab a w = goto (DestroyWait lab a) (on_rt (cancel_deployment a) w)"

definition destroy_wait :: "nat \<Rightarrow> lab \<Rightarrow> nat \<Rightarrow> ('db, 'h) server \<Rightarrow> ('db, 'h) outcome" where
  "destroy_wait tid lab a w =
     (if i_OpMutex (inst a w) \<noteq> None then None else goto (DestroyBegin lab a) (lock tid a w))"

definition destroy_begin ::
  "('db, 'node, 'h) env \<Rightarrow> lab \<Rightarrow> nat \<Rightarrow> ('db, 'h) server \<Rightarrow> ('db, 'h) outcome" where
  "destroy_begin E lab a w =
     goto (DestroyCall lab a)
       (on_rt (\<lambda>r. r\<lparr>rt_calls := rt_calls r @ [CallDestroy (i_TopologyFile (rt_heap r ! a)) (lab_InstanceName lab)]\<rparr>)
         (updateLabAndSendUpdate E lab a InstStopping InfoLevel (''Destroying lab '' @ apos (lab_Name lab))
           [''Destruction of lab has begun'', ''name'', lab_Name lab, ''id'', lab_UUID lab]
           (on_rt (on_inst a (on_nodes (\<lambda>n. n\<lparr>n_State := NodeStopped, n_Interfaces := []\<rparr>))) w)))"

definition destroy_call ::
  "('db, 'node, 'h) env \<Rightarrow> lab \<Rightarrow> nat \<Rightarrow> string list \<Rightarrow> go_error option \<Rightarrow> ('db, 'h) server \<Rightarrow> ('db, 'h) outcome" where
  "destroy_call E lab a lines err w0 =
     (let w = log_to_instance a lines w0 in
      case err of
        None \<Rightarrow> goto (DestroyMark lab a) w
      | Some e \<Rightarrow>
          return_unlocked a (Some (Sentinel ErrProvider))
            (updateLabAndSendUpdate E lab a InstFailed ErrorLevel
              (''Failed to destroy lab '' @ apos (lab_Name lab) @ '': '' @ error_text e)
              [''Destruction of lab failed'', ''name'', lab_Name lab, ''id'', lab_UUID lab, ''err'', error_text e] w))"

definition destroy_mark :: "lab \<Rightarrow> nat \<Rightarrow> ('db, 'h) server \<Rightarrow> ('db, 'h) outcome" where
  "destroy_mark lab a w =
     goto (DestroyRemove lab a)
       (on_rt (\<lambda>r. fold (\<lambda>(_, n). release (n_LogNamespace n)) (i_Nodes (rt_heap r ! a))
           (release (i_LogNamespace (rt_heap r ! a)) (on_inst a (\<lambda>i. i\<lparr>i_IsDestroyed := True\<rparr>) r))) w)"

definition destroy_remove ::
  "('db, 'node, 'h) env \<Rightarrow> lab \<Rightarrow> nat \<Rightarrow> ('db, 'h) server \<Rightarrow> ('db, 'h) outcome" where
  "destroy_remove E lab a w =
     return_unlocked a None
       (snd (send_status E SuccessLevel ''Runtime'' (''Successfully destroyed lab '' @ apos (lab_Name lab))
         [''Destruction of lab was successful'', ''name'', lab_Name lab, ''id'', lab_UUID lab]
         (on_rt (\<lambda>r. send_update (Some (lab_UUID lab))
             (r\<lparr>rt_instances := (rt_instances r)(lab_UUID lab := None)\<rparr>)) w)))"

section \<open>Commands for one node\<close>

definition node_command ::
  "('db, 'node, 'h) env \<Rightarrow> node_op \<Rightarrow> string \<Rightarrow> string option \<Rightarrow> authenticated_user \<Rightarrow> ('db, 'h) server
    \<Rightarrow> ('db, 'h) outcome" where
  "node_command E op labId nodeName authUser w =
     (case validateNodeCommand E labId nodeName authUser w of
        Inl err \<Rightarrow> goto (Finished (Some err)) w
      | Inr (l, a, nodeName) \<Rightarrow> goto (NodeTry op labId l a nodeName) w)"

text \<open>Why an operation is not allowed on a node in a state.\<close>

fun node_state_error :: "node_op \<Rightarrow> node_state \<Rightarrow> go_error option" where
  "node_state_error OpStart NodeStarting = Some (Wrap (Sentinel ErrInvalidNodeOperation) ''node is already starting'')"
| "node_state_error OpStart NodeRunning = Some (Wrap (Sentinel ErrInvalidNodeOperation) ''node is already running'')"
| "node_state_error OpStart NodeStopping = Some (Wrap (Sentinel ErrInvalidNodeOperation) ''node is currently stopping'')"
| "node_state_error OpStop NodeStopping = Some (Wrap (Sentinel ErrInvalidNodeOperation) ''node is already stopping'')"
| "node_state_error OpStop NodeStopped = Some (Wrap (Sentinel ErrInvalidNodeOperation) ''node is already stopped'')"
| "node_state_error OpRestart NodeStopping = Some (Wrap (Sentinel ErrInvalidNodeOperation) ''node is currently stopping'')"
| "node_state_error OpRestart NodeStarting = Some (Wrap (Sentinel ErrInvalidNodeOperation) ''node is currently starting'')"
| "node_state_error _ _ = None"

definition node_refused :: "node_op \<Rightarrow> runtime_instance \<Rightarrow> string \<Rightarrow> go_error option" where
  "node_refused op i nodeName =
     (case getInstanceNode i nodeName of
        None \<Rightarrow> Some (Sentinel ErrNodeNotFound)
      | Some (_, n) \<Rightarrow>
          if \<not> n_CanRestart n
          then Some (Wrap (Sentinel ErrInvalidNodeOperation)
                       (''unable to manually start nodes of kind '' @ apos (n_Kind n)))
          else node_state_error op (n_State n))"

text \<open>A busy lab is not waited for. A start calls the provider at once, the others reset the node first.\<close>

definition node_try ::
  "nat \<Rightarrow> node_op \<Rightarrow> string \<Rightarrow> lab \<Rightarrow> nat \<Rightarrow> string \<Rightarrow> ('db, 'h) server \<Rightarrow> ('db, 'h) outcome" where
  "node_try tid op labId lab a nodeName w =
     (if i_OpMutex (inst a w) \<noteq> None then goto (Finished (Some (Sentinel ErrLabOperationInProgress))) w
      else case node_refused op (inst a w) nodeName of
        Some err \<Rightarrow> goto (Finished (Some err)) w
      | None \<Rightarrow>
          let k = fst (the (getInstanceNode (inst a w) nodeName)); w = lock tid a w in
          if op = OpStart
          then goto (NodeCall op labId lab a k)
                 (on_rt (\<lambda>r. r\<lparr>rt_calls := rt_calls r @ [CallStartNode (i_DeploymentCtx (rt_heap r ! a)) (lab_InstanceName lab) nodeName]\<rparr>) w)
          else goto (NodeReset op labId lab a k) w)"

definition node_reset ::
  "node_op \<Rightarrow> string \<Rightarrow> lab \<Rightarrow> nat \<Rightarrow> string \<Rightarrow> ('db, 'h) server \<Rightarrow> ('db, 'h) outcome" where
  "node_reset op labId lab a k w =
     (case map_of (i_Nodes (inst a w)) k of
        None \<Rightarrow> None
      | Some n \<Rightarrow>
          goto (NodeCall op labId lab a k)
            (on_rt (\<lambda>r.
               let r = send_update (Some labId) (on_inst a (on_node k Reset) r);
                   c = i_DeploymentCtx (rt_heap r ! a)
               in r\<lparr>rt_calls := rt_calls r @
                      [if op = OpStop then CallStopNode c (lab_InstanceName lab) (n_Name n)
                       else CallRestartNode c (lab_InstanceName lab) (n_Name n)]\<rparr>) w))"

definition node_call ::
  "node_op \<Rightarrow> string \<Rightarrow> lab \<Rightarrow> nat \<Rightarrow> string \<Rightarrow> go_error option \<Rightarrow> ('db, 'h) server \<Rightarrow> ('db, 'h) outcome" where
  "node_call op labId lab a k err w =
     (case err of
        Some e \<Rightarrow> return_unlocked a (Some e) w
      | None \<Rightarrow> goto (NodeFetch op labId lab a k) w)"

text \<open>\<open>fetchNode\<close>, whose result these commands ignore; a start and a restart are followed by a listener.\<close>

definition fetch_node ::
  "nat \<Rightarrow> string \<Rightarrow> inspect_container result \<Rightarrow> runtime \<Rightarrow> bool \<times> runtime" where
  "fetch_node a k container r =
     (case map_of (i_Nodes (rt_heap r ! a)) k of
        None \<Rightarrow> (False, r)
      | Some n \<Rightarrow> (fst (fetched_node container n), on_inst a (on_node k (\<lambda>n. snd (fetched_node container n))) r))"

definition node_fetch ::
  "node_op \<Rightarrow> string \<Rightarrow> lab \<Rightarrow> nat \<Rightarrow> string \<Rightarrow> string list \<Rightarrow> inspect_container result \<Rightarrow> ('db, 'h) server
    \<Rightarrow> ('db, 'h) outcome" where
  "node_fetch op labId lab a k lines container w0 =
     (let w = log_to_instance a lines w0 in
      Some (Finished None, if op = OpStop then [] else [ListenerStart labId a k True],
        unlock a (on_rt (\<lambda>r. send_update (Some labId) (snd (fetch_node a k container r))) w)))"

section \<open>Listeners\<close>

definition listener_start ::
  "string \<Rightarrow> nat \<Rightarrow> string \<Rightarrow> bool \<Rightarrow> ('db, 'h) server \<Rightarrow> ('db, 'h) outcome" where
  "listener_start labId a k stream w =
     goto (ListenerProbe labId a k stream (i_DeploymentCtx (inst a w)) (w_now w + 600 * 1000000000)) w"

text \<open>The end of \<open>waitForNodeStarted\<close>, with its error: the logs are streamed next if they have to be.\<close>

definition listener_waited ::
  "string \<Rightarrow> nat \<Rightarrow> string \<Rightarrow> bool \<Rightarrow> nat option \<Rightarrow> go_error option \<Rightarrow> pc" where
  "listener_waited labId a k stream ctx err =
     (if stream then ListenerStream labId a k ctx err else ListenerOutcome labId a k ctx err)"

definition listener_probe ::
  "string \<Rightarrow> nat \<Rightarrow> string \<Rightarrow> bool \<Rightarrow> nat option \<Rightarrow> int \<Rightarrow> (string \<times> int) result \<Rightarrow> ('db, 'h) server
    \<Rightarrow> ('db, 'h) outcome" where
  "listener_probe labId a k stream ctx deadline r w =
     goto (case probe_result r of
             Retry \<Rightarrow> ListenerPause labId a k stream ctx deadline
           | Started \<Rightarrow> listener_waited labId a k stream ctx None
           | NotStarted err \<Rightarrow> listener_waited labId a k stream ctx (Some err)) w"

text \<open>The context of the wait is done when the deployment is cancelled or after ten minutes.\<close>

definition listener_pause ::
  "string \<Rightarrow> nat \<Rightarrow> string \<Rightarrow> bool \<Rightarrow> nat option \<Rightarrow> int \<Rightarrow> reply \<Rightarrow> ('db, 'h) server \<Rightarrow> ('db, 'h) outcome" where
  "listener_pause labId a k stream ctx deadline reply w =
     (case reply of
        TimerFired \<Rightarrow> goto (ListenerProbe labId a k stream ctx deadline) w
      | Expired err \<Rightarrow>
          if ctx_cancelled ctx (rt w) \<or> deadline \<le> w_now w
          then goto (listener_waited labId a k stream ctx (Some err)) w else None
      | _ \<Rightarrow> None)"

definition listener_stream ::
  "string \<Rightarrow> nat \<Rightarrow> string \<Rightarrow> nat option \<Rightarrow> go_error option \<Rightarrow> string list \<Rightarrow> go_error option \<Rightarrow> ('db, 'h) server
    \<Rightarrow> ('db, 'h) outcome" where
  "listener_stream labId a k ctx waitErr lines err w =
     (case map_of (i_Nodes (inst a w)) k of
        None \<Rightarrow> None
      | Some n \<Rightarrow>
          let w = on_rt (\<lambda>r. send_logs (n_LogNamespace n) lines
                (r\<lparr>rt_calls := rt_calls r @ [CallStreamContainerLogs ctx (i_Name (inst a w)) (n_Name n)]\<rparr>)) w in
          if err \<noteq> None \<and> ctx_cancelled ctx (rt w) then goto (Finished None) w
          else goto (ListenerOutcome labId a k ctx waitErr) w)"

definition listener_outcome ::
  "string \<Rightarrow> nat \<Rightarrow> string \<Rightarrow> nat option \<Rightarrow> go_error option \<Rightarrow> ('db, 'h) server \<Rightarrow> ('db, 'h) outcome" where
  "listener_outcome labId a k ctx waitErr w =
     (case waitErr of
        None \<Rightarrow> goto (ListenerInterfaces labId a k (i_DeploymentCtx (inst a w))) w
      | Some _ \<Rightarrow>
          if ctx_cancelled ctx (rt w) then goto (Finished None) w
          else goto (Finished None)
            (on_rt (\<lambda>r. send_update (Some labId) (on_inst a (on_node k (\<lambda>n. n\<lparr>n_State := NodeStopped\<rparr>)) r)) w))"

text \<open>\<open>onNodeStarted\<close> from the return of \<open>GetNetworkInterfaces\<close> on.\<close>

definition onNodeStarted ::
  "inst_config \<Rightarrow> string \<Rightarrow> nat \<Rightarrow> string \<Rightarrow> nat option \<Rightarrow> node_interface list result \<Rightarrow> ('db, 'h) server
    \<Rightarrow> ('db, 'h) outcome" where
  "onNodeStarted C labId a k ctx interfaces w =
     (if ctx_cancelled ctx (rt w) then goto (Finished None) w
      else case map_of (i_Nodes (inst a w)) k of
        None \<Rightarrow> None
      | Some n \<Rightarrow>
          let ifs = (case interfaces of Inl _ \<Rightarrow> [] | Inr is \<Rightarrow> filter (\<lambda>i. \<not> interface_excluded C i) is)
          in goto (Finished None)
               (on_rt (\<lambda>r. send_update (Some labId)
                  (AddNode ctx (i_Name (rt_heap r ! a)) (n_Name n) (n_ContainerId n)
                    (on_inst a (on_node k (SetReady ifs)) r))) w))"

section \<open>Events of the provider\<close>

definition has_node :: "string \<Rightarrow> nat \<Rightarrow> ('db, 'h) server \<Rightarrow> bool" where
  "has_node nodeName a w \<longleftrightarrow> nodeName \<in> fst ` set (i_Nodes (inst a w))"

text \<open>The keys of the map cannot be listed, so this is not executable.\<close>

definition some_instance_has :: "string \<Rightarrow> ('db, 'h) server \<Rightarrow> bool" where
  "some_instance_has nodeName w \<longleftrightarrow> (\<exists>labId a. rt_instances (rt w) labId = Some a \<and> has_node nodeName a w)"

declare some_instance_has_def [code del]

text \<open>The first instance the loop comes upon that has a node of that name, if there is one.\<close>

definition event_start :: "string \<Rightarrow> reply \<Rightarrow> ('db, 'h) server \<Rightarrow> ('db, 'h) outcome" where
  "event_start nodeName reply w =
     (case reply of
        Chosen labId \<Rightarrow>
          (case rt_instances (rt w) labId of
             Some a \<Rightarrow> if has_node nodeName a w then goto (EventFetch labId a nodeName) w else None
           | None \<Rightarrow> None)
      | Silent \<Rightarrow> if some_instance_has nodeName w then None else goto (Finished None) w
      | _ \<Rightarrow> None)"

definition event_fetch ::
  "string \<Rightarrow> nat \<Rightarrow> string \<Rightarrow> inspect_container result \<Rightarrow> ('db, 'h) server \<Rightarrow> ('db, 'h) outcome" where
  "event_fetch labId a k container w =
     goto (Finished None)
       (on_rt (\<lambda>r. case fetch_node a k container r of
          (changed, r) \<Rightarrow> if changed then send_update (Some labId) r else r) w)"

section \<open>One step of a thread\<close>

fun thread_step ::
  "('db, 'node, 'h) env \<Rightarrow> inst_config \<Rightarrow> nat \<Rightarrow> reply \<Rightarrow> pc \<Rightarrow> ('db, 'h) server \<Rightarrow> ('db, 'h) outcome" where
  "thread_step E C tid y (DeployCommand l u) w = (if y = Silent then deploy_command E l u w else None)"
| "thread_step E C tid y (DeployStart l) w = (if y = Silent then deploy_start E C l w else None)"
| "thread_step E C tid y (DeployContext l a run) w = (if y = Silent then deploy_context l a run w else None)"
| "thread_step E C tid y (DeployWait l a run c) w = (if y = Silent then deploy_wait tid l a run c w else None)"
| "thread_step E C tid y (DeployBegin l a run c) w = (if y = Silent then deploy_begin E l a run c w else None)"
| "thread_step E C tid y (DeployCall l a c) w =
     (case y of ProviderDone lines err \<Rightarrow> deploy_call E l a c lines err w | _ \<Rightarrow> None)"
| "thread_step E C tid y (DeployInspect l a c) w =
     (case y of LabInspected lines cs \<Rightarrow> deploy_inspect E l a c lines cs w | _ \<Rightarrow> None)"
| "thread_step E C tid y (DeployInspected l a c) w = (if y = Silent then deploy_inspected l a c w else None)"
| "thread_step E C tid y (DeployStream l a c ks) w = deploy_stream l a c ks y w"
| "thread_step E C tid y (DeployDone l a c) w = (if y = Silent then deploy_done E l a w else None)"
| "thread_step E C tid y (DestroyCommand l u) w = (if y = Silent then destroy_command E l u w else None)"
| "thread_step E C tid y (DestroyStart l) w = (if y = Silent then destroy_start l w else None)"
| "thread_step E C tid y (DestroyCancel l a) w = (if y = Silent then destroy_cancel l a w else None)"
| "thread_step E C tid y (DestroyWait l a) w = (if y = Silent then destroy_wait tid l a w else None)"
| "thread_step E C tid y (DestroyBegin l a) w = (if y = Silent then destroy_begin E l a w else None)"
| "thread_step E C tid y (DestroyCall l a) w =
     (case y of ProviderDone lines err \<Rightarrow> destroy_call E l a lines err w | _ \<Rightarrow> None)"
| "thread_step E C tid y (DestroyMark l a) w = (if y = Silent then destroy_mark l a w else None)"
| "thread_step E C tid y (DestroyRemove l a) w = (if y = Silent then destroy_remove E l a w else None)"
| "thread_step E C tid y (NodeCommand op i n u) w = (if y = Silent then node_command E op i n u w else None)"
| "thread_step E C tid y (NodeTry op i l a n) w = (if y = Silent then node_try tid op i l a n w else None)"
| "thread_step E C tid y (NodeReset op i l a k) w = (if y = Silent then node_reset op i l a k w else None)"
| "thread_step E C tid y (NodeCall op i l a k) w =
     (case y of ProviderDone _ err \<Rightarrow> node_call op i l a k err w | _ \<Rightarrow> None)"
| "thread_step E C tid y (NodeFetch op i l a k) w =
     (case y of NodeInspected lines c \<Rightarrow> node_fetch op i l a k lines c w | _ \<Rightarrow> None)"
| "thread_step E C tid y (ListenerStart i a k b) w = (if y = Silent then listener_start i a k b w else None)"
| "thread_step E C tid y (ListenerProbe i a k b c d) w =
     (case y of ProbeDone r \<Rightarrow> listener_probe i a k b c d r w | _ \<Rightarrow> None)"
| "thread_step E C tid y (ListenerPause i a k b c d) w = listener_pause i a k b c d y w"
| "thread_step E C tid y (ListenerStream i a k c e) w =
     (case y of ProviderDone lines err \<Rightarrow> listener_stream i a k c e lines err w | _ \<Rightarrow> None)"
| "thread_step E C tid y (ListenerOutcome i a k c e) w = (if y = Silent then listener_outcome i a k c e w else None)"
| "thread_step E C tid y (ListenerInterfaces i a k c) w =
     (case y of InterfacesRead ifs \<Rightarrow> onNodeStarted C i a k c ifs w | _ \<Rightarrow> None)"
| "thread_step E C tid y (EventStart n) w = event_start n y w"
| "thread_step E C tid y (EventFetch i a k) w =
     (case y of NodeInspected _ c \<Rightarrow> event_fetch i a k c w | _ \<Rightarrow> None)"
| "thread_step E C tid y (Finished e) w = None"

end
