(* ===== verification/Instance_System.thy ===== *)
theory Instance_System
  imports Instance_Steps
begin

text \<open>
  The instance service as a whole: how it is started, with the instances it finds again
  (\<open>reviveInstances\<close>), how it is closed, and the system of all its threads. Commands, the scheduler and
  the provider start threads at any time; the other services change the rest of the world in between.
\<close>

section \<open>Finding instances again\<close>

definition revived_node :: "inspect_container list \<Rightarrow> instance_node \<Rightarrow> instance_node" where
  "revived_node containers n =
     (case find (\<lambda>c. ic_Name c = n_Name n) containers of
        None \<Rightarrow> n
      | Some c \<Rightarrow> updateNodeWithContainer c (Reset n))"

definition streams_logs :: "inspect_container list \<Rightarrow> instance_node \<Rightarrow> bool" where
  "streams_logs containers n \<longleftrightarrow>
     find (\<lambda>c. ic_Name c = n_Name n) containers \<noteq> None \<and> n_State (revived_node containers n) \<noteq> NodeStopped"

definition revived_instance :: "lab \<Rightarrow> string \<Rightarrow> nat \<Rightarrow> (string \<times> instance_node) list \<Rightarrow> int \<Rightarrow> runtime_instance" where
  "revived_instance savedLab topologyFile ctx nodeList now =
     \<lparr>i_Name = lab_InstanceName savedLab, i_TopologyFile = topologyFile,
      i_LogNamespace = [''logs'', lab_UUID savedLab], i_Nodes = nodeList, i_OpMutex = None,
      i_DeploymentCtx = Some ctx, i_DeploymentCancel = Some ctx, i_Deployed = now, i_LatestStateChange = now,
      i_State = InstRunning, i_Recovered = True, i_IsDestroyed = False\<rparr>"

text \<open>The listeners of the nodes that run or start.\<close>

definition revived_listeners :: "string \<Rightarrow> nat \<Rightarrow> (string \<times> instance_node) list \<Rightarrow> pc list" where
  "revived_listeners labId a nodeList =
     map (\<lambda>(k, _). ListenerStart labId a k False)
       (filter (\<lambda>(_, n). n_State n = NodeRunning \<or> n_State n = NodeStarting) nodeList)"

definition revive_found ::
  "('db, 'node, 'h) env \<Rightarrow> inst_config \<Rightarrow> inspect_container list \<Rightarrow> lab \<Rightarrow> topology_definition
    \<Rightarrow> pc list \<times> ('db, 'h) server \<Rightarrow> pc list \<times> ('db, 'h) server" where
  "revive_found E C containers savedLab topologyDefinition s =
     (let w = on_rt (create_namespace [''logs'', lab_UUID savedLab] (cfg_ClabLogBacklog C)) (snd s) in
      case createNodesFromTopology C topologyDefinition (lab_UUID savedLab) (rt w) of
        (Inl _, r) \<Rightarrow> (fst s, on_rt (\<lambda>_. r) w)
      | (Inr nodeList, r) \<Rightarrow>
          let ctx = rt_ctxs r; a = length (rt_heap r);
              revived = map (apsnd (revived_node containers)) nodeList;
              i = revived_instance savedLab (GetRunTopologyDefinitionFile (e_storage E) (lab_UUID savedLab)) ctx
                    revived (w_now w);
              r = r\<lparr>rt_ctxs := Suc ctx, rt_heap := rt_heap r @ [i],
                    rt_instances := (rt_instances r)(lab_UUID savedLab \<mapsto> a),
                    rt_calls := rt_calls r @ map (\<lambda>(_, n). CallStreamContainerLogs (Some ctx) (lab_InstanceName savedLab) (n_Name n))
                      (filter (\<lambda>(_, n). streams_logs containers n) nodeList)\<rparr>
          in (fst s @ revived_listeners (lab_UUID savedLab) a revived,
              snd (publish ''lab.restored'' savedLab (on_rt (\<lambda>_. r) w))))"

text \<open>A lab that is not deployed is scheduled again if it starts in the future; one that cannot be read is skipped.\<close>

definition revive_lab ::
  "('db, 'node, 'h) env \<Rightarrow> inst_config \<Rightarrow> (string \<rightharpoonup> inspect_container list) \<Rightarrow> lab
    \<Rightarrow> pc list \<times> ('db, 'h) server \<Rightarrow> pc list \<times> ('db, 'h) server" where
  "revive_lab E C result savedLab s =
     (case result (lab_InstanceName savedLab) of
        None \<Rightarrow>
          if unix (w_now (snd s)) \<le> unix (lab_StartTime savedLab)
          then (fst s, snd (publish ''lab.created'' savedLab (snd s))) else s
      | Some containers \<Rightarrow>
          (case ReadRunTopologyDefinition (e_storage E) (lab_UUID savedLab) (w_fs (snd s)) of
             Inl _ \<Rightarrow> s
           | Inr topologyDefinitionString \<Rightarrow>
               (case schema_Parse (e_parsers E) topologyDefinitionString of
                  Inl _ \<Rightarrow> s
                | Inr (topologyDefinition, _) \<Rightarrow> revive_found E C containers savedLab topologyDefinition s)))"

text \<open>\<open>None\<close> is \<open>log.Fatal\<close>.\<close>

definition reviveInstances ::
  "('db, 'node, 'h) env \<Rightarrow> inst_config \<Rightarrow> (string \<rightharpoonup> inspect_container list) result \<Rightarrow> ('db, 'h) server
    \<Rightarrow> (pc list \<times> ('db, 'h) server) option" where
  "reviveInstances E C inspected w =
     (case lab_GetAll (e_database E) None (w_db w) of
        Inl _ \<Rightarrow> None
      | Inr savedLabs \<Rightarrow>
          (case inspected of
             Inl _ \<Rightarrow> None
           | Inr result \<Rightarrow> Some (fold (revive_lab E C result) savedLabs ([], w))))"

definition Revive ::
  "('db, 'node, 'h) env \<Rightarrow> inst_config \<Rightarrow> (string \<rightharpoonup> inspect_container list) result \<Rightarrow> ('db, 'h) server
    \<Rightarrow> (pc list \<times> ('db, 'h) server) option" where
  "Revive E C inspected w = map_option (apsnd (on_rt (send_update None))) (reviveInstances E C inspected w)"

section \<open>Closing\<close>

text \<open>\<open>keys\<close> and \<open>containerIds\<close> are the keys of the instances and of the monitored nodes, in the order of the loops.\<close>

definition close_instance :: "string \<Rightarrow> runtime \<Rightarrow> runtime" where
  "close_instance labId r =
     (case rt_instances r labId of
        None \<Rightarrow> r
      | Some a \<Rightarrow>
          (release (i_LogNamespace (rt_heap r ! a)) (cancel_deployment a r))
            \<lparr>rt_instances := (rt_instances r)(labId := None)\<rparr>)"

definition instance_Close :: "string list \<Rightarrow> string list \<Rightarrow> runtime \<Rightarrow> runtime" where
  "instance_Close keys containerIds r =
     (if rt_closed r then r
      else release [''lab-updates''] (fold close_instance keys (monitor_Close containerIds (r\<lparr>rt_closed := True\<rparr>))))"

section \<open>The system\<close>

fun startable :: "pc \<Rightarrow> bool" where
  "startable (DeployCommand l u) = True"
| "startable (DeployStart l) = True"
| "startable (DestroyCommand l u) = True"
| "startable (DestroyStart l) = True"
| "startable (NodeCommand op i n u) = True"
| "startable (EventStart n) = True"
| "startable _ = False"

inductive sys_step ::
  "('db, 'node, 'h) env \<Rightarrow> inst_config \<Rightarrow> pc list \<times> ('db, 'h) server \<Rightarrow> pc list \<times> ('db, 'h) server \<Rightarrow> bool"
  for E C where
  thread: "t < length ths \<Longrightarrow> thread_step E C t y (ths ! t) w = Some (p, new, w') \<Longrightarrow>
    sys_step E C (ths, w) (ths[t := p] @ new, w')"
| begins: "startable p \<Longrightarrow> sys_step E C (ths, w) (ths @ [p], w)"
| services: "rt w' = rt w \<Longrightarrow> sys_step E C (ths, w) (ths, w')"
| monitored: "sys_step E C (ths, w) (ths, on_rt (monitor_reading containerId err) w)"
| node_log: "sys_step E C (ths, w) (ths, on_rt (send_log ns line) w)"
| closed: "distinct keys \<Longrightarrow> set keys = dom (rt_instances (rt w)) \<Longrightarrow>
    sys_step E C (ths, w) (ths, on_rt (instance_Close keys containerIds) w)"

inductive sys_reach :: "('db, 'node, 'h) env \<Rightarrow> inst_config \<Rightarrow> pc list \<times> ('db, 'h) server \<Rightarrow> bool" for E C where
  revived: "rt w = CreateInstanceService \<Longrightarrow> Revive E C inspected w = Some s \<Longrightarrow> sys_reach E C s"
| step: "sys_reach E C s \<Longrightarrow> sys_step E C s s' \<Longrightarrow> sys_reach E C s'"

inductive_cases sys_stepE: "sys_step E C s s'"

end
