(* ===== verification/Lifecycle.thy ===== *)
theory Lifecycle
  imports Main
begin

text \<open>
  What the instance service (\<open>src/runtime/instance/service.go\<close>) promises about the life of the labs,
  without what it does to nodes, files and clients: a lab has at most one live instance; an instance has a
  mutex, the context of its last deployment, a state, and a mark once it is destroyed. Threads deploy,
  destroy and work on instances. \<open>Instance_Refinement\<close> shows that the steps of the service are steps of this
  system, so that the invariants here hold for the service.
\<close>

section \<open>The system\<close>

datatype life_state = Deploying | Running | Stopping | Failed

record core =
  c_lab :: string
  c_mutex :: "nat option"
  c_cancel :: "nat option"
  c_state :: life_state
  c_destroyed :: bool

record life =
  lf_lives :: "string \<rightharpoonup> nat"
  lf_cores :: "core list"
  lf_ctxs :: nat
  lf_cancelled :: "nat set"

text \<open>
  The phases of a thread. The first argument is the address of the instance; a deployment that has its
  context carries it. \<open>Busy\<close> phases hold the mutex of the instance.
\<close>

datatype phase =
    Outside
  | Deciding string nat
  | DeployWaiting string nat nat
  | DeployBusy string nat nat
  | Cancelling string nat
  | DestroyWaiting string nat
  | DestroyBusy string nat
  | Destroyed string nat
  | NodeChosen nat
  | NodeBusy nat

definition on_core :: "nat \<Rightarrow> (core \<Rightarrow> core) \<Rightarrow> life \<Rightarrow> life" where
  "on_core a f L = L\<lparr>lf_cores := (lf_cores L)[a := f (lf_cores L ! a)]\<rparr>"

definition cancel :: "nat \<Rightarrow> life \<Rightarrow> life" where
  "cancel a L = L\<lparr>lf_cancelled := set_option (c_cancel (lf_cores L ! a)) \<union> lf_cancelled L\<rparr>"

definition free :: "nat \<Rightarrow> life \<Rightarrow> bool" where
  "free a L \<longleftrightarrow> c_mutex (lf_cores L ! a) = None"

definition take_mutex :: "nat \<Rightarrow> nat \<Rightarrow> life \<Rightarrow> life" where
  "take_mutex t a = on_core a (\<lambda>c. c\<lparr>c_mutex := Some t\<rparr>)"

definition give_mutex :: "nat \<Rightarrow> life \<Rightarrow> life" where
  "give_mutex a = on_core a (\<lambda>c. c\<lparr>c_mutex := None\<rparr>)"

definition set_state :: "nat \<Rightarrow> life_state \<Rightarrow> life \<Rightarrow> life" where
  "set_state a s = on_core a (\<lambda>c. c\<lparr>c_state := s\<rparr>)"

definition new_core :: "string \<Rightarrow> core" where
  "new_core l = \<lparr>c_lab = l, c_mutex = None, c_cancel = None, c_state = Deploying, c_destroyed = False\<rparr>"

text \<open>The steps of one thread.\<close>

inductive move :: "nat \<Rightarrow> phase \<Rightarrow> life \<Rightarrow> phase \<Rightarrow> life \<Rightarrow> bool" for t where
  stay: "move t p L p L"
| choose: "lf_lives L l = Some a \<Longrightarrow> move t Outside L (Deciding l a) L"
| create: "lf_lives L l = None \<Longrightarrow> a = length (lf_cores L) \<Longrightarrow>
    move t Outside L (Deciding l a) (L\<lparr>lf_cores := lf_cores L @ [new_core l], lf_lives := (lf_lives L)(l \<mapsto> a)\<rparr>)"
| new_context: "c = lf_ctxs L \<Longrightarrow>
    move t (Deciding l a) L (DeployWaiting l a c)
      (on_core a (\<lambda>x. x\<lparr>c_cancel := Some c\<rparr>) ((cancel a L)\<lparr>lf_ctxs := Suc c\<rparr>))"
| give_up: "free a L \<Longrightarrow> c \<in> lf_cancelled L \<or> c_destroyed (lf_cores L ! a) \<Longrightarrow>
    move t (DeployWaiting l a c) L Outside L"
| enter: "free a L \<Longrightarrow> c \<notin> lf_cancelled L \<Longrightarrow> \<not> c_destroyed (lf_cores L ! a) \<Longrightarrow>
    move t (DeployWaiting l a c) L (DeployBusy l a c) (take_mutex t a L)"
| deploying: "move t (DeployBusy l a c) L (DeployBusy l a c) (set_state a Deploying L)"
| aborted: "c \<in> lf_cancelled L \<Longrightarrow> move t (DeployBusy l a c) L Outside (give_mutex a L)"
| deployed: "s \<in> {Running, Failed} \<Longrightarrow>
    move t (DeployBusy l a c) L Outside (give_mutex a (set_state a s L))"
| choose_destroy: "lf_lives L l = Some a \<Longrightarrow> move t Outside L (Cancelling l a) L"
| cancels: "move t (Cancelling l a) L (DestroyWaiting l a) (cancel a L)"
| enter_destroy: "free a L \<Longrightarrow> move t (DestroyWaiting l a) L (DestroyBusy l a) (take_mutex t a L)"
| stopping: "move t (DestroyBusy l a) L (DestroyBusy l a) (set_state a Stopping L)"
| destroy_failed: "move t (DestroyBusy l a) L Outside (give_mutex a (set_state a Failed L))"
| destroyed: "move t (DestroyBusy l a) L (Destroyed l a) (on_core a (\<lambda>c. c\<lparr>c_destroyed := True\<rparr>) L)"
| removed: "move t (Destroyed l a) L Outside (give_mutex a (L\<lparr>lf_lives := (lf_lives L)(l := None)\<rparr>))"
| choose_node: "lf_lives L l = Some a \<Longrightarrow> move t Outside L (NodeChosen a) L"
| refused: "move t (NodeChosen a) L Outside L"
| enter_node: "free a L \<Longrightarrow> move t (NodeChosen a) L (NodeBusy a) (take_mutex t a L)"
| node_done: "move t (NodeBusy a) L Outside (give_mutex a L)"

text \<open>
  The steps of the system, whose threads are numbered: a thread moves, or the service is closed, which
  forgets all instances and cancels their contexts. A thread that does not exist yet is outside.
\<close>

inductive life_step :: "(nat \<Rightarrow> phase) \<times> life \<Rightarrow> (nat \<Rightarrow> phase) \<times> life \<Rightarrow> bool" where
  thread: "move t (ps t) L p L' \<Longrightarrow> life_step (ps, L) (ps(t := p), L')"
| close: "life_step (ps, L)
    (ps, L\<lparr>lf_lives := Map.empty,
           lf_cancelled := (\<Union>a \<in> ran (lf_lives L). set_option (c_cancel (lf_cores L ! a))) \<union> lf_cancelled L\<rparr>)"

text \<open>It starts with the instances that were recovered, which are running.\<close>

inductive life_reach :: "(nat \<Rightarrow> phase) \<times> life \<Rightarrow> bool" where
  start: "lf_cancelled L = {} \<Longrightarrow>
    (\<And>l a. lf_lives L l = Some a \<Longrightarrow> a < length (lf_cores L) \<and> c_lab (lf_cores L ! a) = l) \<Longrightarrow>
    (\<And>c. c \<in> set (lf_cores L) \<Longrightarrow> c_mutex c = None \<and> c_state c = Running \<and> \<not> c_destroyed c
       \<and> (\<forall>x. c_cancel c = Some x \<longrightarrow> x < lf_ctxs L)) \<Longrightarrow> life_reach (\<lambda>_. Outside, L)"
| step: "life_reach s \<Longrightarrow> life_step s s' \<Longrightarrow> life_reach s'"

section \<open>The invariant\<close>

fun holds :: "nat \<Rightarrow> phase \<Rightarrow> bool" where
  "holds a (DeployBusy l b c) = (a = b)"
| "holds a (DestroyBusy l b) = (a = b)"
| "holds a (Destroyed l b) = (a = b)"
| "holds a (NodeBusy b) = (a = b)"
| "holds a _ = False"

text \<open>The threads that will leave the instance in a state of rest, whatever happens.\<close>

fun committed :: "nat set \<Rightarrow> nat \<Rightarrow> phase \<Rightarrow> bool" where
  "committed X a (Deciding l b) = (a = b)"
| "committed X a (DeployWaiting l b c) = (a = b \<and> c \<notin> X)"
| "committed X a (DeployBusy l b c) = (a = b \<and> c \<notin> X)"
| "committed X a (Cancelling l b) = (a = b)"
| "committed X a (DestroyWaiting l b) = (a = b)"
| "committed X a (DestroyBusy l b) = (a = b)"
| "committed X a (Destroyed l b) = (a = b)"
| "committed X a _ = False"

fun phase_ok :: "life \<Rightarrow> phase \<Rightarrow> bool" where
  "phase_ok L (Deciding l a) = (a < length (lf_cores L) \<and> c_lab (lf_cores L ! a) = l)"
| "phase_ok L (DeployWaiting l a c) = (a < length (lf_cores L) \<and> c_lab (lf_cores L ! a) = l \<and> c < lf_ctxs L)"
| "phase_ok L (DeployBusy l a c) = (a < length (lf_cores L) \<and> c_lab (lf_cores L ! a) = l \<and> c < lf_ctxs L)"
| "phase_ok L (Cancelling l a) = (a < length (lf_cores L) \<and> c_lab (lf_cores L ! a) = l)"
| "phase_ok L (DestroyWaiting l a) = (a < length (lf_cores L) \<and> c_lab (lf_cores L ! a) = l)"
| "phase_ok L (DestroyBusy l a) = (a < length (lf_cores L) \<and> c_lab (lf_cores L ! a) = l)"
| "phase_ok L (Destroyed l a) = (a < length (lf_cores L) \<and> c_lab (lf_cores L ! a) = l \<and> c_destroyed (lf_cores L ! a))"
| "phase_ok L (NodeChosen a) = (a < length (lf_cores L))"
| "phase_ok L (NodeBusy a) = (a < length (lf_cores L))"
| "phase_ok L Outside = True"

definition at_work :: "nat \<Rightarrow> (nat \<Rightarrow> phase) \<Rightarrow> life \<Rightarrow> bool" where
  "at_work a ps L \<longleftrightarrow> c_state (lf_cores L ! a) \<in> {Deploying, Stopping} \<or> (\<exists>t l c. ps t = DeployBusy l a c)"

definition wf_life :: "(nat \<Rightarrow> phase) \<Rightarrow> life \<Rightarrow> bool" where
  "wf_life ps L \<longleftrightarrow>
     (\<forall>l a. lf_lives L l = Some a \<longrightarrow> a < length (lf_cores L) \<and> c_lab (lf_cores L ! a) = l)
     \<and> (\<forall>t. phase_ok L (ps t))
     \<and> (\<forall>x \<in> lf_cancelled L. x < lf_ctxs L)
     \<and> (\<forall>a x. a < length (lf_cores L) \<longrightarrow> c_cancel (lf_cores L ! a) = Some x \<longrightarrow> x < lf_ctxs L)"

definition mutexes :: "(nat \<Rightarrow> phase) \<Rightarrow> life \<Rightarrow> bool" where
  "mutexes ps L \<longleftrightarrow> (\<forall>a t. a < length (lf_cores L) \<longrightarrow>
     (c_mutex (lf_cores L ! a) = Some t \<longleftrightarrow> holds a (ps t)))"

definition gone_is_removed :: "(nat \<Rightarrow> phase) \<Rightarrow> life \<Rightarrow> bool" where
  "gone_is_removed ps L \<longleftrightarrow> (\<forall>l a. lf_lives L l = Some a \<longrightarrow> c_destroyed (lf_cores L ! a) \<longrightarrow>
     (\<exists>t. ps t = Destroyed l a))"

definition work_is_done :: "(nat \<Rightarrow> phase) \<Rightarrow> life \<Rightarrow> bool" where
  "work_is_done ps L \<longleftrightarrow> (\<forall>l a. lf_lives L l = Some a \<longrightarrow> at_work a ps L \<longrightarrow>
     (\<exists>t. committed (lf_cancelled L) a (ps t)))"

lemmas life_ops = on_core_def cancel_def free_def take_mutex_def give_mutex_def set_state_def new_core_def

lemma nth_update: "xs[i := x] ! j = (if i = j \<and> j < length xs then x else xs ! j)"
  by (cases "i < length xs") (auto simp: nth_list_update list_update_beyond)

lemma phase_ok_mono:
  assumes "phase_ok L p" and "length (lf_cores L) \<le> length (lf_cores L')" and "lf_ctxs L \<le> lf_ctxs L'"
    and "\<And>a. a < length (lf_cores L) \<Longrightarrow> c_lab (lf_cores L' ! a) = c_lab (lf_cores L ! a)
       \<and> (c_destroyed (lf_cores L ! a) \<longrightarrow> c_destroyed (lf_cores L' ! a))"
  shows "phase_ok L' p"
  using assms by (cases p) auto

lemma move_wf:
  assumes "move t (ps t) L p L'" and "wf_life ps L"
  shows "wf_life (ps(t := p)) L'"
proof -
  have ok: "phase_ok L (ps i)" for i using assms(2) by (simp add: wf_life_def)
  have mono: "length (lf_cores L) \<le> length (lf_cores L') \<and> lf_ctxs L \<le> lf_ctxs L'
    \<and> (\<forall>a < length (lf_cores L). c_lab (lf_cores L' ! a) = c_lab (lf_cores L ! a)
       \<and> (c_destroyed (lf_cores L ! a) \<longrightarrow> c_destroyed (lf_cores L' ! a)))"
    using assms(1) by cases (auto simp: life_ops nth_update nth_append)
  then have "phase_ok L' (ps i)" for i using ok phase_ok_mono by blast
  moreover have "phase_ok L' p"
    using assms(1) ok [of t] assms(2) by cases (auto simp: life_ops wf_life_def nth_update)
  moreover have "(\<forall>l a. lf_lives L' l = Some a \<longrightarrow> a < length (lf_cores L') \<and> c_lab (lf_cores L' ! a) = l)
     \<and> (\<forall>x \<in> lf_cancelled L'. x < lf_ctxs L')
     \<and> (\<forall>a x. a < length (lf_cores L') \<longrightarrow> c_cancel (lf_cores L' ! a) = Some x \<longrightarrow> x < lf_ctxs L')"
    using assms(1) ok [of t] assms(2)
    by cases (auto simp: life_ops wf_life_def nth_update nth_append intro: less_SucI split: if_splits)
  ultimately show ?thesis by (simp add: wf_life_def)
qed

lemma holders_agree:
  assumes "mutexes ps L" and "a < length (lf_cores L)" and "holds a (ps t)" and "holds a (ps t')"
  shows "t = t'"
  using assms unfolding mutexes_def by (metis option.inject)

lemma holds_ok: "phase_ok L p \<Longrightarrow> holds a p \<Longrightarrow> a < length (lf_cores L)"
  by (cases p) auto

lemma move_mutexes:
  assumes "move t (ps t) L p L'" and "wf_life ps L" and "mutexes ps L"
  shows "mutexes (ps(t := p)) L'"
proof -
  have ok: "phase_ok L (ps i)" for i using assms(2) by (simp add: wf_life_def)
  have out: "\<not> holds (length (lf_cores L)) (ps i)" for i using ok [of i] by (cases "ps i") auto
  have one: "holds a (ps t) \<Longrightarrow> holds a (ps i) \<Longrightarrow> i = t" for a i
    using holders_agree [OF assms(3)] holds_ok [OF ok] by metis
  show ?thesis using assms(1)
    by cases (use assms(3) ok [of t] out one in
      \<open>auto simp: mutexes_def life_ops nth_update nth_append less_Suc_eq\<close>)
qed

lemma move_gone:
  assumes "move t (ps t) L p L'" and "wf_life ps L" and "gone_is_removed ps L"
  shows "gone_is_removed (ps(t := p)) L'"
  unfolding gone_is_removed_def
proof (intro allI impI)
  fix l a assume l: "lf_lives L' l = Some a" and d: "c_destroyed (lf_cores L' ! a)"
  have lives: "lf_lives L k = Some b \<Longrightarrow> b < length (lf_cores L) \<and> c_lab (lf_cores L ! b) = k" for k b
    using assms(2) by (simp add: wf_life_def)
  have ok: "phase_ok L (ps t)" using assms(2) by (simp add: wf_life_def)
  show "\<exists>i. (ps(t := p)) i = Destroyed l a"
  proof (cases "p = Destroyed l a")
    case False
    have "lf_lives L l = Some a \<and> c_destroyed (lf_cores L ! a) \<and> ps t \<noteq> Destroyed l a"
      using assms(1) by cases (use l d lives [of l a] ok False in
        \<open>auto simp: life_ops nth_update nth_append split: if_splits\<close>)
    then show ?thesis using assms(3) unfolding gone_is_removed_def by (metis fun_upd_apply)
  qed (auto intro: exI [of _ t])
qed

text \<open>Who cancels a context of an instance takes over.\<close>

lemma committed_mono: "committed X a p \<Longrightarrow> Y \<subseteq> X \<Longrightarrow> committed Y a p"
  by (cases p) auto

fun context_of :: "phase \<Rightarrow> (nat \<times> nat) option" where
  "context_of (DeployWaiting l a c) = Some (a, c)"
| "context_of (DeployBusy l a c) = Some (a, c)"
| "context_of _ = None"

definition own_contexts :: "(nat \<Rightarrow> phase) \<Rightarrow> life \<Rightarrow> bool" where
  "own_contexts ps L \<longleftrightarrow> (\<forall>t a b c. context_of (ps t) = Some (a, c) \<longrightarrow> b < length (lf_cores L) \<longrightarrow>
     c_cancel (lf_cores L ! b) = Some c \<longrightarrow> b = a)"

lemma context_ok: "phase_ok L p \<Longrightarrow> context_of p = Some (a, c) \<Longrightarrow> a < length (lf_cores L) \<and> c < lf_ctxs L"
  by (cases p) auto

lemma move_contexts:
  assumes "move t (ps t) L p L'" and "wf_life ps L" and "own_contexts ps L"
  shows "own_contexts (ps(t := p)) L'"
proof -
  have ok: "phase_ok L (ps i)" for i using assms(2) by (simp add: wf_life_def)
  have fresh: "context_of (ps i) \<noteq> Some (a, lf_ctxs L)" for i a using context_ok [OF ok] by blast
  have old: "b < length (lf_cores L) \<Longrightarrow> c_cancel (lf_cores L ! b) \<noteq> Some (lf_ctxs L)" for b
    using assms(2) by (auto simp: wf_life_def)
  have own: "context_of (ps i) = Some (a, c) \<Longrightarrow> b < length (lf_cores L) \<Longrightarrow> c_cancel (lf_cores L ! b) = Some c \<Longrightarrow> b = a"
    for i a b c using assms(3) by (simp add: own_contexts_def)
  have "b = a" if "context_of ((ps(t := p)) i) = Some (a, c)" "b < length (lf_cores L')"
      "c_cancel (lf_cores L' ! b) = Some c" for i a b c
    using assms(1) by cases
      (use that fresh [of i] old [of b] own [of i a c b] own [of t a c b] in
        \<open>auto simp: life_ops nth_update nth_append split: if_splits\<close>)
  then show ?thesis unfolding own_contexts_def by blast
qed

lemma still_committed:
  assumes "committed X a p" and "\<And>c. context_of p = Some (a, c) \<Longrightarrow> c \<notin> Y"
  shows "committed (Y \<union> X) a p"
  using assms by (cases p) auto

text \<open>How a committed thread leaves an instance.\<close>

lemma committed_leaves:
  assumes "move t p L p' L'" and "committed (lf_cancelled L) a p" and "\<not> committed (lf_cancelled L') a p'"
    and "phase_ok L p" and "\<forall>x \<in> lf_cancelled L. x < lf_ctxs L"
    and "\<forall>x. c_cancel (lf_cores L ! a) = Some x \<longrightarrow> x < lf_ctxs L"
  shows "c_destroyed (lf_cores L ! a) \<or> holds a p \<and> p' = Outside \<and> c_state (lf_cores L' ! a) \<in> {Running, Failed}
    \<or> (\<exists>l. p = Destroyed l a \<and> lf_lives L' l = None)"
  using assms(1) by cases (use assms(2-) in \<open>auto simp: life_ops nth_update split: if_splits\<close>)

lemma alive_before:
  assumes "move t p L p' L'" and "lf_lives L' l = Some a" and "\<not> committed (lf_cancelled L') a p'"
  shows "lf_lives L l = Some a"
  using assms(1) by cases (use assms(2,3) in \<open>auto simp: life_ops split: if_splits\<close>)

lemma state_before:
  assumes "move t p L p' L'" and "a < length (lf_cores L)" and "c_state (lf_cores L' ! a) \<in> {Deploying, Stopping}"
    and "\<not> committed (lf_cancelled L') a p'"
  shows "c_state (lf_cores L ! a) \<in> {Deploying, Stopping} \<or> (\<exists>l c. p = DeployBusy l a c)"
  using assms(1) by cases (use assms(2-) in \<open>auto simp: life_ops nth_update nth_append split: if_splits\<close>)

lemma busy_before:
  assumes "move t p L (DeployBusy l a c) L'" and "\<not> committed (lf_cancelled L') a (DeployBusy l a c)"
  shows "p = DeployBusy l a c"
  using assms(1) by cases (use assms(2) in \<open>auto simp: life_ops\<close>)

lemma move_cancels:
  assumes "move t p L p' L'" and "phase_ok L p" and "\<forall>x \<in> lf_cancelled L. x < lf_ctxs L"
    and "\<forall>b x. b < length (lf_cores L) \<longrightarrow> c_cancel (lf_cores L ! b) = Some x \<longrightarrow> x < lf_ctxs L"
  shows "lf_cancelled L' = lf_cancelled L
    \<or> (\<exists>b. lf_cancelled L' = set_option (c_cancel (lf_cores L ! b)) \<union> lf_cancelled L
         \<and> b < length (lf_cores L) \<and> committed (lf_cancelled L') b p')"
  using assms(1) by cases (use assms(2-) in \<open>auto simp: life_ops\<close>)

lemma others_committed:
  assumes "move t (ps t) L p L'" and "\<not> committed (lf_cancelled L') a p" and "wf_life ps L" and "own_contexts ps L"
    and "committed (lf_cancelled L) a (ps i)"
  shows "committed (lf_cancelled L') a (ps i)"
proof -
  have "phase_ok L (ps t)" "\<forall>x \<in> lf_cancelled L. x < lf_ctxs L"
    "\<forall>b x. b < length (lf_cores L) \<longrightarrow> c_cancel (lf_cores L ! b) = Some x \<longrightarrow> x < lf_ctxs L"
    using assms(3) by (auto simp: wf_life_def)
  then consider "lf_cancelled L' = lf_cancelled L"
    | b where "lf_cancelled L' = set_option (c_cancel (lf_cores L ! b)) \<union> lf_cancelled L"
        "b < length (lf_cores L)" "committed (lf_cancelled L') b p"
    using move_cancels [OF assms(1)] by blast
  then show ?thesis
  proof cases
    case 2
    with assms(2) have "b \<noteq> a" by metis
    have "c \<notin> set_option (c_cancel (lf_cores L ! b))" if "context_of (ps i) = Some (a, c)" for c
      using assms(4) that 2(2) \<open>b \<noteq> a\<close> unfolding own_contexts_def by fastforce
    from still_committed [OF assms(5) this] 2(1) show ?thesis by simp
  qed (use assms(5) in simp)
qed

lemma move_work:
  assumes "move t (ps t) L p L'" and "wf_life ps L" and "mutexes ps L" and "gone_is_removed ps L"
    and "own_contexts ps L" and "work_is_done ps L"
  shows "work_is_done (ps(t := p)) L'"
  unfolding work_is_done_def
proof (intro allI impI)
  fix l a assume l: "lf_lives L' l = Some a" and w: "at_work a (ps(t := p)) L'"
  have ok: "phase_ok L (ps i)" for i using assms(2) by (simp add: wf_life_def)
  show "\<exists>i. committed (lf_cancelled L') a ((ps(t := p)) i)"
  proof (cases "committed (lf_cancelled L') a p")
    case False
    have before: "lf_lives L l = Some a" by (rule alive_before [OF assms(1) l False])
    then have alive: "a < length (lf_cores L)" using assms(2) by (auto simp: wf_life_def)
    have "at_work a ps L"
      using w state_before [OF assms(1) alive _ False] busy_before [of t "ps t" L _ a _ L'] assms(1) False
      unfolding at_work_def by (metis fun_upd_apply)
    then obtain i where i: "committed (lf_cancelled L) a (ps i)"
      using assms(6) before unfolding work_is_done_def by blast
    show ?thesis
    proof (cases "\<exists>i. i \<noteq> t \<and> committed (lf_cancelled L) a (ps i)")
      case True
      with others_committed [OF assms(1) False assms(2,5)] show ?thesis by (metis fun_upd_apply)
    next
      case none: False
      with i have t: "committed (lf_cancelled L) a (ps t)" by metis
      have "\<forall>x \<in> lf_cancelled L. x < lf_ctxs L" "\<forall>x. c_cancel (lf_cores L ! a) = Some x \<longrightarrow> x < lf_ctxs L"
        using assms(2) alive by (auto simp: wf_life_def)
      from committed_leaves [OF assms(1) t False ok this]
      consider "c_destroyed (lf_cores L ! a)"
        | "holds a (ps t)" "p = Outside" "c_state (lf_cores L' ! a) \<in> {Running, Failed}"
        | k where "ps t = Destroyed k a" "lf_lives L' k = None" by blast
      then show ?thesis
      proof cases
        case 1
        then obtain j where j: "ps j = Destroyed l a"
          using assms(4) before unfolding gone_is_removed_def by blast
        then have "j = t" using none by (metis committed.simps(7))
        with j ok [of t] assms(1) False l show ?thesis by (auto elim!: move.cases simp: life_ops)
      next
        case 2
        then obtain i k c where "ps i = DeployBusy k a c" "i \<noteq> t"
          using w unfolding at_work_def by (auto split: if_splits)
        then have "holds a (ps i)" by simp
        with \<open>i \<noteq> t\<close> holders_agree [OF assms(3) alive 2(1)] show ?thesis by metis
      next
        case 3
        with ok [of t] before assms(2) l show ?thesis by (auto simp: wf_life_def)
      qed
    qed
  qed (auto intro: exI [of _ t])
qed

definition life_inv :: "(nat \<Rightarrow> phase) \<Rightarrow> life \<Rightarrow> bool" where
  "life_inv ps L \<longleftrightarrow> wf_life ps L \<and> mutexes ps L \<and> gone_is_removed ps L \<and> own_contexts ps L \<and> work_is_done ps L"

lemma life_inv_move: "life_inv ps L \<Longrightarrow> move t (ps t) L p L' \<Longrightarrow> life_inv (ps(t := p)) L'"
  unfolding life_inv_def using move_wf move_mutexes move_gone move_contexts move_work by metis

lemma life_inv_close:
  assumes "life_inv ps L"
  shows "life_inv ps (L\<lparr>lf_lives := Map.empty,
    lf_cancelled := (\<Union>a \<in> ran (lf_lives L). set_option (c_cancel (lf_cores L ! a))) \<union> lf_cancelled L\<rparr>)"
proof -
  have "x < lf_ctxs L" if "lf_lives L l = Some a" "c_cancel (lf_cores L ! a) = Some x" for l a x
    using assms that unfolding life_inv_def wf_life_def by metis
  moreover have "phase_ok L p \<Longrightarrow> phase_ok (L\<lparr>lf_lives := m, lf_cancelled := X\<rparr>) p" for p m X by (cases p) auto
  ultimately show ?thesis
    using assms by (auto simp: life_inv_def wf_life_def mutexes_def gone_is_removed_def own_contexts_def
        work_is_done_def ran_def)
qed

lemma life_reach_inv: "life_reach (ps, L) \<Longrightarrow> life_inv ps L"
proof (induction "(ps, L)" arbitrary: ps L rule: life_reach.induct)
  case (start L)
  then have "\<And>a. a < length (lf_cores L) \<Longrightarrow> c_mutex (lf_cores L ! a) = None
      \<and> c_state (lf_cores L ! a) = Running \<and> \<not> c_destroyed (lf_cores L ! a)
      \<and> (\<forall>x. c_cancel (lf_cores L ! a) = Some x \<longrightarrow> x < lf_ctxs L)" by (meson nth_mem)
  with start show ?case
    by (auto simp: life_inv_def wf_life_def mutexes_def gone_is_removed_def own_contexts_def work_is_done_def at_work_def)
next
  case (step s ps' L')
  obtain ps L where s: "s = (ps, L)" by fastforce
  then have inv: "life_inv ps L" using step.hyps by blast
  from step.hyps(3) s show ?case
    by cases (auto simp: life_inv_move [OF inv] life_inv_close [OF inv])
qed

section \<open>What the invariant says\<close>

text \<open>Two threads never hold the mutex of the same instance.\<close>

lemma one_holder:
  assumes "life_reach (ps, L)" and "holds a (ps t)" and "holds a (ps t')"
  shows "t = t'"
proof -
  have "wf_life ps L" "mutexes ps L" using life_reach_inv [OF assms(1)] by (simp_all add: life_inv_def)
  then show ?thesis using holders_agree holds_ok assms(2,3) unfolding wf_life_def by metis
qed

text \<open>An instance of the map that is being deployed or destroyed has a thread that will finish that work.\<close>

lemma work_has_worker:
  assumes "life_reach (ps, L)" and "lf_lives L l = Some a" and "c_state (lf_cores L ! a) \<in> {Deploying, Stopping}"
  shows "\<exists>t. committed (lf_cancelled L) a (ps t)"
  using life_reach_inv [OF assms(1)] assms(2,3) unfolding life_inv_def work_is_done_def at_work_def by blast

text \<open>A destroyed instance is in the map only until the thread that destroyed it removes it.\<close>

lemma destroyed_is_removed:
  assumes "life_reach (ps, L)" and "lf_lives L l = Some a" and "c_destroyed (lf_cores L ! a)"
  shows "\<exists>t. ps t = Destroyed l a"
  using life_reach_inv [OF assms(1)] assms(2,3) unfolding life_inv_def gone_is_removed_def by blast

end
