(* ===== verification/Instance_Refinement.thy ===== *)
theory Instance_Refinement
  imports Instance_System Lifecycle
begin

text \<open>
  The instance service refines the lifecycle of labs: every step of a thread of \<open>Instance_Steps\<close> is a step
  of the thread of \<open>Lifecycle\<close> it stands for. The abstraction forgets nodes, files, messages and the time,
  and keeps of an instance its lab (the last part of its log namespace), its mutex, the context of its
  deployment, its state and whether it is destroyed.
\<close>

section \<open>The abstraction\<close>

fun life_state_of :: "instance_state \<Rightarrow> life_state" where
  "life_state_of InstDeploying = Deploying"
| "life_state_of InstRunning = Running"
| "life_state_of InstStopping = Stopping"
| "life_state_of InstFailed = Failed"

definition core_of :: "runtime_instance \<Rightarrow> core" where
  "core_of i = \<lparr>c_lab = last (i_LogNamespace i), c_mutex = i_OpMutex i, c_cancel = i_DeploymentCancel i,
     c_state = life_state_of (i_State i), c_destroyed = i_IsDestroyed i\<rparr>"

definition life_of :: "runtime \<Rightarrow> life" where
  "life_of r = \<lparr>lf_lives = rt_instances r, lf_cores = map core_of (rt_heap r), lf_ctxs = rt_ctxs r,
     lf_cancelled = rt_cancelled r\<rparr>"

fun phase_of :: "pc \<Rightarrow> phase" where
  "phase_of (DeployContext l a b) = Deciding (lab_UUID l) a"
| "phase_of (DeployWait l a b c) = DeployWaiting (lab_UUID l) a c"
| "phase_of (DeployBegin l a b c) = DeployBusy (lab_UUID l) a c"
| "phase_of (DeployCall l a c) = DeployBusy (lab_UUID l) a c"
| "phase_of (DeployInspect l a c) = DeployBusy (lab_UUID l) a c"
| "phase_of (DeployInspected l a c) = DeployBusy (lab_UUID l) a c"
| "phase_of (DeployStream l a c ks) = DeployBusy (lab_UUID l) a c"
| "phase_of (DeployDone l a c) = DeployBusy (lab_UUID l) a c"
| "phase_of (DestroyCancel l a) = Cancelling (lab_UUID l) a"
| "phase_of (DestroyWait l a) = DestroyWaiting (lab_UUID l) a"
| "phase_of (DestroyBegin l a) = DestroyBusy (lab_UUID l) a"
| "phase_of (DestroyCall l a) = DestroyBusy (lab_UUID l) a"
| "phase_of (DestroyMark l a) = DestroyBusy (lab_UUID l) a"
| "phase_of (DestroyRemove l a) = Destroyed (lab_UUID l) a"
| "phase_of (NodeTry op i l a n) = NodeChosen a"
| "phase_of (NodeReset op i l a k) = NodeBusy a"
| "phase_of (NodeCall op i l a k) = NodeBusy a"
| "phase_of (NodeFetch op i l a k) = NodeBusy a"
| "phase_of _ = Outside"

section \<open>What the operations do to the abstraction\<close>

lemma rt_on_rt [simp]: "rt (on_rt f w) = f (rt w)"
  by (simp add: on_rt_def)

lemma on_rt_parts [simp]: "w_now (on_rt f w) = w_now w" "w_db (on_rt f w) = w_db w" "w_fs (on_rt f w) = w_fs w"
  by (simp_all add: on_rt_def)

lemma rt_services [simp]:
  "rt (snd (send_status E sev src content parts w)) = rt w" "rt (snd (publish topic l w)) = rt w"
  "rt (snd (exec q w)) = rt w" "rt (set_last_failed E lab b w) = rt w"
  using kept_apply [OF keeps_more_status] kept_apply [OF keeps_more_steps(1)] kept_apply [OF keeps_more_steps(5)]
  by (simp_all add: set_last_failed_def SetLastDeployFailed_def)

lemma life_of_fields [simp]:
  "lf_lives (life_of r) = rt_instances r" "lf_cores (life_of r) = map core_of (rt_heap r)"
  "lf_ctxs (life_of r) = rt_ctxs r" "lf_cancelled (life_of r) = rt_cancelled r"
  by (simp_all add: life_of_def)

lemma core_of_fields [simp]:
  "c_mutex (core_of i) = i_OpMutex i" "c_cancel (core_of i) = i_DeploymentCancel i"
  "c_state (core_of i) = life_state_of (i_State i)" "c_destroyed (core_of i) = i_IsDestroyed i"
  "c_lab (core_of i) = last (i_LogNamespace i)"
  by (simp_all add: core_of_def)

lemma core_of_nodes [simp]: "core_of (on_nodes f i) = core_of i" "core_of (on_node k f i) = core_of i"
  by (simp_all add: core_of_def on_nodes_def on_node_def)

lemma send_logs_fields [simp]:
  "rt_instances (send_logs ns ls r) = rt_instances r" "rt_heap (send_logs ns ls r) = rt_heap r"
  "rt_ctxs (send_logs ns ls r) = rt_ctxs r" "rt_cancelled (send_logs ns ls r) = rt_cancelled r"
  unfolding send_logs_def by (induction ls arbitrary: r) (simp_all add: send_log_def)

lemma outputs_fields [simp]:
  "rt_instances (send_update u r) = rt_instances r" "rt_heap (send_update u r) = rt_heap r"
  "rt_ctxs (send_update u r) = rt_ctxs r" "rt_cancelled (send_update u r) = rt_cancelled r"
  "rt_instances (send_log ns m r) = rt_instances r" "rt_heap (send_log ns m r) = rt_heap r"
  "rt_ctxs (send_log ns m r) = rt_ctxs r" "rt_cancelled (send_log ns m r) = rt_cancelled r"
  "rt_instances (release ns r) = rt_instances r" "rt_heap (release ns r) = rt_heap r"
  "rt_ctxs (release ns r) = rt_ctxs r" "rt_cancelled (release ns r) = rt_cancelled r"
  "rt_instances (create_namespace ns n r) = rt_instances r" "rt_heap (create_namespace ns n r) = rt_heap r"
  "rt_ctxs (create_namespace ns n r) = rt_ctxs r" "rt_cancelled (create_namespace ns n r) = rt_cancelled r"
  by (simp_all add: send_update_def send_log_def release_def create_namespace_def)

lemma life_of_outputs [simp]:
  "life_of (send_update u r) = life_of r" "life_of (send_log ns m r) = life_of r"
  "life_of (send_logs ns ls r) = life_of r" "life_of (release ns r) = life_of r"
  "life_of (create_namespace ns n r) = life_of r" "life_of (r\<lparr>rt_calls := cs\<rparr>) = life_of r"
  "life_of (AddNode c i nn k r) = life_of r"
  by (simp_all add: life_of_def AddNode_def)

lemma life_of_releases [simp]: "life_of (fold (\<lambda>(_, n). release (f n)) ns r) = life_of r"
  by (induction ns arbitrary: r) auto

lemma heap_releases [simp]: "rt_heap (fold (\<lambda>(_, n). release (f n)) ns r) = rt_heap r"
  by (induction ns arbitrary: r) auto

lemma life_of_creates [simp]: "life_of (fold (\<lambda>(k, _). create_namespace (f k) n) ns r) = life_of r"
  by (induction ns arbitrary: r) auto

lemma map_core_update:
  "core_of x = f (core_of (h ! a)) \<Longrightarrow> map core_of (h[a := x]) = (map core_of h)[a := f (map core_of h ! a)]"
  by (cases "a < length h") (simp_all add: map_update list_update_beyond)

lemma life_of_inst:
  assumes "core_of (f (rt_heap r ! a)) = g (core_of (rt_heap r ! a))"
  shows "life_of (on_inst a f r) = on_core a g (life_of r)"
  by (simp add: life_of_def on_inst_def on_core_def map_core_update [where f = g, OF assms])

lemma life_of_inst_same:
  assumes "core_of (f (rt_heap r ! a)) = core_of (rt_heap r ! a)"
  shows "life_of (on_inst a f r) = life_of r"
proof -
  have "map core_of ((rt_heap r)[a := f (rt_heap r ! a)]) = map core_of (rt_heap r)"
    using assms by (cases "a < length (rt_heap r)") (simp_all add: map_update list_update_same_conv list_update_beyond)
  then show ?thesis by (simp add: life_of_def on_inst_def)
qed

lemma life_of_cancel [simp]:
  assumes "a < length (rt_heap r)"
  shows "life_of (cancel_deployment a r) = cancel a (life_of r)"
  using assms by (auto simp: life_of_def cancel_deployment_def cancel_def split: option.split)

lemma life_of_lock [simp]:
  "life_of (rt (lock t a w)) = take_mutex t a (life_of (rt w))"
  "life_of (rt (unlock a w)) = give_mutex a (life_of (rt w))"
  unfolding lock_def unlock_def take_mutex_def give_mutex_def rt_on_rt
  by (rule life_of_inst, simp add: core_of_def)+

lemma rt_send_lab_update:
  "life_of (rt (sendLabUpdate E lab sev content parts ns w)) = life_of (rt w)"
  "rt_heap (rt (sendLabUpdate E lab sev content parts ns w)) = rt_heap (rt w)"
proof -
  obtain m w' where s: "send_status E sev ''Runtime'' content parts (on_rt (send_update (Some (lab_UUID lab))) w) = (m, w')"
    by fastforce
  then have "rt w' = send_update (Some (lab_UUID lab)) (rt w)"
    by (metis rt_services(1) rt_on_rt snd_conv)
  with s show "life_of (rt (sendLabUpdate E lab sev content parts ns w)) = life_of (rt w)"
    "rt_heap (rt (sendLabUpdate E lab sev content parts ns w)) = rt_heap (rt w)"
    by (simp_all add: sendLabUpdate_def split: sum.split option.split)
qed

lemma life_of_update [simp]:
  "life_of (rt (updateLabAndSendUpdate E lab a s sev content parts w)) = set_state a (life_state_of s) (life_of (rt w))"
  unfolding updateLabAndSendUpdate_def rt_send_lab_update set_state_def rt_on_rt
  by (rule life_of_inst) (simp add: core_of_def)

lemma life_of_log [simp]: "life_of (rt (log_to_instance a ls w)) = life_of (rt w)"
  by (simp add: log_to_instance_def)

section \<open>The steps\<close>

lemma life_nth [simp]: "a < length (rt_heap r) \<Longrightarrow> lf_cores (life_of r) ! a = core_of (rt_heap r ! a)"
  by simp

lemma life_of_nodes [simp]:
  "life_of (on_inst a (on_nodes f) r) = life_of r" "life_of (on_inst a (on_node k f) r) = life_of r"
  by (simp_all add: life_of_inst_same)

lemma life_of_times [simp]: "life_of (on_inst a (\<lambda>i. i\<lparr>i_Recovered := b, i_Deployed := t\<rparr>) r) = life_of r"
  by (simp add: life_of_inst_same core_of_def)

lemma life_of_fetch [simp]: "life_of (snd (fetch_node a k c r)) = life_of r"
  by (simp add: fetch_node_def split: option.split)

lemma life_of_context:
  assumes "a < length (rt_heap r)"
  shows "life_of (on_inst a (\<lambda>i. i\<lparr>i_DeploymentCtx := Some c, i_DeploymentCancel := Some c\<rparr>)
      ((cancel_deployment a r)\<lparr>rt_ctxs := n\<rparr>))
    = on_core a (\<lambda>x. x\<lparr>c_cancel := Some c\<rparr>) ((cancel a (life_of r))\<lparr>lf_ctxs := n\<rparr>)"
proof -
  have "life_of ((cancel_deployment a r)\<lparr>rt_ctxs := n\<rparr>) = (cancel a (life_of r))\<lparr>lf_ctxs := n\<rparr>"
    using assms by (auto simp: life_of_def cancel_deployment_def cancel_def split: option.split)
  moreover have "life_of (on_inst a (\<lambda>i. i\<lparr>i_DeploymentCtx := Some c, i_DeploymentCancel := Some c\<rparr>)
      ((cancel_deployment a r)\<lparr>rt_ctxs := n\<rparr>))
    = on_core a (\<lambda>x. x\<lparr>c_cancel := Some c\<rparr>) (life_of ((cancel_deployment a r)\<lparr>rt_ctxs := n\<rparr>))"
    by (rule life_of_inst) (simp add: core_of_def)
  ultimately show ?thesis by simp
qed

lemma life_of_create:
  assumes "createInstance E C name ns file d labId w = (res, w')"
  shows "life_of (rt w') = life_of (rt w) \<and> length (rt_heap (rt w')) = length (rt_heap (rt w))
    \<and> rt_instances (rt w') = rt_instances (rt w)
    \<and> (\<forall>i. res = Inr i \<longrightarrow> core_of i = \<lparr>c_lab = last ns, c_mutex = None, c_cancel = None, c_state = Deploying,
          c_destroyed = False\<rparr>)"
proof -
  have nodes: "createNodesFromTopology C t labId r = (x, r') \<Longrightarrow> life_of r' = life_of r" for t r x r'
    by (auto simp: createNodesFromTopology_def split: option.splits if_splits)
  have "life_of (rt w') = life_of (rt w) \<and> (\<forall>i. res = Inr i \<longrightarrow> core_of i = \<lparr>c_lab = last ns, c_mutex = None,
      c_cancel = None, c_state = Deploying, c_destroyed = False\<rparr>)"
    using assms by (auto simp: createInstance_def core_of_def dest: nodes split: sum.splits prod.splits)
  moreover from this have "map core_of (rt_heap (rt w')) = map core_of (rt_heap (rt w))"
    "rt_instances (rt w') = rt_instances (rt w)" by (metis life_of_fields(2), metis life_of_fields(1))
  ultimately show ?thesis using map_eq_imp_length_eq by blast
qed

lemmas deploy_defs = deploy_command_def deploy_start_def deploy_context_def deploy_wait_def deploy_begin_def
  deploy_call_def deploy_inspect_def deploy_inspected_def deploy_stream_def deploy_done_def
lemmas destroy_defs = destroy_command_def destroy_start_def destroy_cancel_def destroy_wait_def destroy_begin_def
  destroy_call_def destroy_mark_def destroy_remove_def
lemmas node_defs = node_command_def node_try_def node_reset_def node_call_def node_fetch_def
lemmas listener_defs = listener_start_def listener_probe_def listener_waited_def listener_pause_def
  listener_stream_def listener_outcome_def onNodeStarted_def event_start_def event_fetch_def

abbreviation moves :: "nat \<Rightarrow> pc \<Rightarrow> ('db, 'h) server \<Rightarrow> pc \<Rightarrow> ('db, 'h) server \<Rightarrow> bool" where
  "moves tid p w p' w' \<equiv> move tid (phase_of p) (life_of (rt w)) (phase_of p') (life_of (rt w'))"

definition refines :: "nat \<Rightarrow> pc \<Rightarrow> ('db, 'h) server \<Rightarrow> ('db, 'h) outcome \<Rightarrow> bool" where
  "refines tid p w out \<longleftrightarrow> (\<forall>p' new w'. out = Some (p', new, w') \<longrightarrow>
     moves tid p w p' w' \<and> (\<forall>q \<in> set new. phase_of q = Outside))"

lemma refines_None [simp]: "refines tid p w None"
  by (simp add: refines_def)

lemma refines_goto: "moves tid p w p' w' \<Longrightarrow> refines tid p w (goto p' w')"
  by (simp add: refines_def goto_def)

lemma refines_stay: "phase_of p' = phase_of p \<Longrightarrow> life_of (rt w') = life_of (rt w) \<Longrightarrow> refines tid p w (goto p' w')"
  by (rule refines_goto) (simp add: move.stay)

lemma refines_deploy_command: "refines tid (DeployCommand l u) w (deploy_command E l u w)"
  unfolding deploy_command_def
  by (auto simp: Let_def intro!: refines_stay split: sum.split option.split)

lemma refines_deploy_start: "refines tid (DeployStart lab) w (deploy_start E C lab w)"
proof (cases "rt_instances (rt w) (lab_UUID lab)")
  case (Some a)
  then show ?thesis by (auto simp: deploy_start_def intro!: refines_goto move.choose)
next
  case None
  show ?thesis
  proof (cases "GetRunEnvironment (e_storage E) (lab_UUID lab) (w_fs w)")
    case (Inl e)
    with None show ?thesis by (auto simp: deploy_start_def rt_send_lab_update intro!: refines_stay)
  next
    case (Inr df)
    obtain d f where df: "df = (d, f)" by fastforce
    let ?ns = "[''logs'', lab_UUID lab]"
    let ?w = "on_rt (create_namespace ?ns (cfg_ClabLogBacklog C)) w"
    obtain res w' where c: "createInstance E C (lab_InstanceName lab) ?ns f d (lab_UUID lab) ?w = (res, w')"
      by fastforce
    note l = life_of_create [OF c]
    show ?thesis
    proof (cases res)
      case (Inl e)
      with None Inr df c l show ?thesis by (auto simp: deploy_start_def Let_def intro!: refines_stay)
    next
      case new: (Inr i)
      let ?a = "length (rt_heap (rt w'))"
      let ?i = "on_nodes (\<lambda>n. n\<lparr>n_State := NodeStarting\<rparr>) i"
      have "deploy_start E C lab w = goto (DeployContext lab ?a False) (on_rt (\<lambda>r. r\<lparr>rt_heap := rt_heap r @ [?i],
          rt_instances := (rt_instances r)(lab_UUID lab \<mapsto> ?a)\<rparr>) w')"
        using None Inr df c new by (simp add: deploy_start_def Let_def)
      moreover have "life_of ((rt w')\<lparr>rt_heap := rt_heap (rt w') @ [?i], rt_instances := (rt_instances (rt w'))(lab_UUID lab \<mapsto> ?a)\<rparr>)
        = (life_of (rt w))\<lparr>lf_cores := lf_cores (life_of (rt w)) @ [new_core (lab_UUID lab)],
            lf_lives := (lf_lives (life_of (rt w)))(lab_UUID lab \<mapsto> ?a)\<rparr>"
      proof -
        have "life_of (rt w') = life_of (rt w)" "core_of ?i = new_core (lab_UUID lab)"
          using l new by (auto simp: new_core_def)
        then show ?thesis by (simp add: life_of_def)
      qed
      moreover have "lf_lives (life_of (rt w)) (lab_UUID lab) = None" "?a = length (lf_cores (life_of (rt w)))"
        using None l by simp_all
      ultimately show ?thesis by (auto intro!: refines_goto move.create simp del: life_of_fields)
    qed
  qed
qed

lemma refines_deploy_context:
  assumes "phase_ok (life_of (rt w)) (phase_of (DeployContext lab a b))"
  shows "refines tid (DeployContext lab a b) w (deploy_context lab a b w)"
proof -
  have "a < length (rt_heap (rt w))" using assms by simp
  from life_of_context [OF this] show ?thesis
    unfolding deploy_context_def Let_def
    by (auto intro!: refines_goto move.new_context)
qed

lemma refines_deploy_wait:
  assumes "phase_ok (life_of (rt w)) (phase_of (DeployWait lab a b c))"
  shows "refines tid (DeployWait lab a b c) w (deploy_wait tid lab a b c w)"
  using assms unfolding deploy_wait_def
  by (auto intro!: refines_goto move.give_up move.enter simp: free_def)

lemma refines_deploy_begin: "refines tid (DeployBegin lab a b c) w (deploy_begin E lab a b c w)"
  unfolding deploy_begin_def by (auto intro!: refines_goto move.deploying)

lemma refines_return:
  "move tid (phase_of p) (life_of (rt w)) Outside (give_mutex a (life_of (rt w')))
    \<Longrightarrow> refines tid p w (return_unlocked a err w')"
  unfolding return_unlocked_def by (rule refines_goto) simp

lemma refines_deploy_call: "refines tid (DeployCall lab a c) w (deploy_call E lab a c ls err w)"
  unfolding deploy_call_def Let_def
  by (auto intro!: refines_stay refines_return move.aborted move.deployed split: option.split)
    (simp_all add: log_to_instance_def)

lemma refines_deploy_inspect: "refines tid (DeployInspect lab a c) w (deploy_inspect E lab a c ls cs w)"
  unfolding deploy_inspect_def Let_def
  by (auto intro!: refines_stay refines_return move.aborted move.deployed split: sum.split)
    (simp_all add: log_to_instance_def on_inst_def)

lemma refines_deploy_inspected: "refines tid (DeployInspected lab a c) w (deploy_inspected lab a c w)"
  unfolding deploy_inspected_def by (auto intro!: refines_stay)

lemma refines_deploy_stream: "refines tid (DeployStream lab a c ks) w (deploy_stream lab a c ks y w)"
  unfolding deploy_stream_def Let_def
  by (auto simp: refines_def goto_def return_unlocked_def intro: move.stay move.aborted
      split: list.split option.split reply.split if_splits)

lemma refines_deploy_done: "refines tid (DeployDone lab a c) w (deploy_done E lab a w)"
  unfolding deploy_done_def by (auto intro!: refines_return move.deployed)

lemma refines_destroy:
  "refines tid (DestroyCommand l u) w (destroy_command E l u w)"
  "refines tid (DestroyStart lab) w (destroy_start lab w)"
  "refines tid (DestroyBegin lab a) w (destroy_begin E lab a w)"
  "refines tid (DestroyCall lab a) w (destroy_call E lab a ls err w)"
  unfolding destroy_command_def destroy_start_def destroy_begin_def destroy_call_def Let_def
  by (auto intro!: refines_goto refines_return move.stay move.choose_destroy move.stopping move.destroy_failed
      split: sum.split option.split)

lemma refines_destroy_remove: "refines tid (DestroyRemove lab a) w (destroy_remove E lab a w)"
proof -
  have "life_of (send_update u ((rt w)\<lparr>rt_instances := (rt_instances (rt w))(l := None)\<rparr>))
      = (life_of (rt w))\<lparr>lf_lives := (lf_lives (life_of (rt w)))(l := None)\<rparr>" for u l
    by (simp add: life_of_def send_update_def)
  then show ?thesis
    unfolding destroy_remove_def by (auto intro!: refines_return move.removed simp del: life_of_fields)
qed

lemma refines_destroy_waits:
  "phase_ok (life_of (rt w)) (phase_of (DestroyCancel lab a)) \<Longrightarrow>
    refines tid (DestroyCancel lab a) w (destroy_cancel lab a w)"
  "phase_ok (life_of (rt w)) (phase_of (DestroyWait lab a)) \<Longrightarrow>
    refines tid (DestroyWait lab a) w (destroy_wait tid lab a w)"
  unfolding destroy_cancel_def destroy_wait_def
  by (auto intro!: refines_goto move.cancels move.enter_destroy simp: free_def)

lemma refines_destroy_mark: "refines tid (DestroyMark lab a) w (destroy_mark lab a w)"
proof -
  have "life_of (on_inst a (\<lambda>i. i\<lparr>i_IsDestroyed := True\<rparr>) (rt w)) = on_core a (\<lambda>c. c\<lparr>c_destroyed := True\<rparr>) (life_of (rt w))"
    by (rule life_of_inst) (simp add: core_of_def)
  then show ?thesis unfolding destroy_mark_def by (auto intro!: refines_goto move.destroyed)
qed

lemma refines_node:
  "refines tid (NodeCommand op i n u) w (node_command E op i n u w)"
  "refines tid (NodeReset op i l a k) w (node_reset op i l a k w)"
  "refines tid (NodeCall op i l a k) w (node_call op i l a k err w)"
  unfolding node_command_def node_reset_def node_call_def
  by (auto simp: validateNodeCommand_def Let_def life_of_inst_same intro!: refines_goto refines_return move.stay
      move.choose_node move.node_done split: sum.splits option.splits if_splits)

lemma refines_node_fetch: "refines tid (NodeFetch op i l a k) w (node_fetch op i l a k ls c w)"
  unfolding node_fetch_def Let_def by (auto simp: refines_def intro: move.node_done)

lemma refines_node_try:
  assumes "phase_ok (life_of (rt w)) (phase_of (NodeTry op i l a n))"
  shows "refines tid (NodeTry op i l a n) w (node_try tid op i l a n w)"
  using assms unfolding node_try_def Let_def
  by (auto intro!: refines_goto move.refused move.enter_node simp: free_def split: option.split)

lemma refines_listener:
  "refines tid (ListenerStart i a k b) w (listener_start i a k b w)"
  "refines tid (ListenerProbe i a k b c d) w (listener_probe i a k b c d r w)"
  "refines tid (ListenerPause i a k b c d) w (listener_pause i a k b c d y w)"
  "refines tid (ListenerStream i a k c e) w (listener_stream i a k c e ls err w)"
  "refines tid (ListenerOutcome i a k c e) w (listener_outcome i a k c e w)"
  "refines tid (ListenerInterfaces i a k c) w (onNodeStarted C i a k c ifs w)"
  unfolding listener_defs Let_def
  by (auto intro!: refines_stay split: probe.split reply.split option.split)

lemma refines_event:
  "refines tid (EventStart n) w (event_start n y w)"
  "refines tid (EventFetch i a k) w (event_fetch i a k c w)"
proof -
  show "refines tid (EventStart n) w (event_start n y w)"
    unfolding event_start_def Let_def by (auto intro!: refines_stay split: reply.split option.split)
  have "life_of (case fetch_node a k c r of (changed, r) \<Rightarrow> if changed then send_update u r else r) = life_of r" for r u
    using life_of_fetch [of a k c r] by (cases "fetch_node a k c r") simp
  then show "refines tid (EventFetch i a k) w (event_fetch i a k c w)"
    unfolding event_fetch_def by (auto intro!: refines_stay)
qed

lemmas refines_all = refines_deploy_command refines_deploy_start refines_deploy_context refines_deploy_wait
  refines_deploy_begin refines_deploy_call refines_deploy_inspect refines_deploy_inspected refines_deploy_stream
  refines_deploy_done refines_destroy refines_destroy_waits refines_destroy_mark refines_destroy_remove refines_node
  refines_node_fetch refines_node_try refines_listener refines_event

lemma refines_step:
  assumes "phase_ok (life_of (rt w)) (phase_of p)"
  shows "refines tid p w (thread_step E C tid y p w)"
  using assms by (cases p) (auto intro!: refines_all split: reply.split simp del: phase_of.simps phase_ok.simps)

section \<open>The system\<close>

definition phases :: "pc list \<Rightarrow> nat \<Rightarrow> phase" where
  "phases ths t = (if t < length ths then phase_of (ths ! t) else Outside)"

lemma phases_begin: "startable p \<Longrightarrow> phases (ths @ [p]) = phases ths"
  by (cases p) (auto simp: phases_def nth_append less_Suc_eq intro!: ext)

lemma phases_thread:
  "t < length ths \<Longrightarrow> \<forall>q \<in> set new. phase_of q = Outside \<Longrightarrow>
    phases (ths[t := p] @ new) = (phases ths)(t := phase_of p)"
  by (auto simp: phases_def nth_append nth_list_update intro!: ext)

lemma life_of_monitor [simp]:
  "life_of (RemoveNode k r) = life_of r" "life_of (monitor_reading k err r) = life_of r"
  "life_of (monitor_Close ks r) = life_of r"
proof -
  show r: "life_of (RemoveNode k r) = life_of r" for k r by (simp add: life_of_def RemoveNode_def)
  show "life_of (monitor_reading k err r) = life_of r" by (simp add: monitor_reading_def r split: option.split)
  show "life_of (monitor_Close ks r) = life_of r" unfolding monitor_Close_def by (induction ks arbitrary: r) (simp_all add: r)
qed

text \<open>Closing all instances, whatever the order of the loop.\<close>

definition close_lives :: "string list \<Rightarrow> life \<Rightarrow> life" where
  "close_lives keys L = L\<lparr>lf_lives := (lf_lives L) |` (- set keys),
     lf_cancelled := (\<Union>a \<in> ran (lf_lives L |` set keys). set_option (c_cancel (lf_cores L ! a))) \<union> lf_cancelled L\<rparr>"

lemma life_of_close_instance:
  assumes "\<And>l a. rt_instances r l = Some a \<Longrightarrow> a < length (rt_heap r)"
  shows "life_of (close_instance k r) = close_lives [k] (life_of r)"
proof (cases "rt_instances r k")
  case None
  then have "rt_instances r |` (- {k}) = rt_instances r" "ran (rt_instances r |` {k}) = {}"
    by (auto simp: restrict_map_def ran_def intro!: ext)
  with None show ?thesis by (simp add: close_instance_def close_lives_def life_of_def)
next
  case (Some a)
  then have "rt_instances r |` (- {k}) = (rt_instances r)(k := None)" "ran (rt_instances r |` {k}) = {a}"
    by (auto simp: restrict_map_def ran_def intro!: ext)
  with Some assms [OF Some] show ?thesis
    by (auto simp: close_instance_def close_lives_def life_of_def cancel_deployment_def release_def split: option.split)
qed

lemma life_of_closes:
  assumes "\<And>l a. rt_instances r l = Some a \<Longrightarrow> a < length (rt_heap r)" and "distinct keys"
  shows "life_of (fold close_instance keys r) = close_lives keys (life_of r)"
  using assms
proof (induction keys arbitrary: r)
  case Nil
  have "rt_instances r |` UNIV = rt_instances r" by (simp add: restrict_map_def)
  then show ?case by (simp add: close_lives_def life_of_def)
next
  case (Cons k keys)
  have one: "life_of (close_instance k r) = close_lives [k] (life_of r)"
    using Cons.prems(1) by (rule life_of_close_instance)
  have heap: "length (rt_heap (close_instance k r)) = length (rt_heap r)"
    and inst: "rt_instances (close_instance k r) = (rt_instances r) |` (- {k})"
    using one unfolding close_lives_def life_of_def by (auto dest: map_eq_imp_length_eq)
  have "life_of (fold close_instance (k # keys) r) = close_lives keys (close_lives [k] (life_of r))"
  proof -
    have "rt_instances (close_instance k r) l = Some a \<Longrightarrow> a < length (rt_heap (close_instance k r))" for l a
      using Cons.prems(1) heap inst by (auto simp: restrict_map_def split: if_splits)
    from Cons.IH [OF this] Cons.prems(2) one show ?thesis by simp
  qed
  also have "\<dots> = close_lives (k # keys) (life_of r)"
  proof -
    have "k \<notin> set keys" using Cons.prems by simp
    have "rt_instances r |` (- {k}) |` (- set keys) = rt_instances r |` (- set (k # keys))"
      by (rule ext) (auto simp: restrict_map_def)
    moreover have "ran (rt_instances r |` set (k # keys)) = ran (rt_instances r |` {k}) \<union> ran (rt_instances r |` (- {k}) |` set keys)"
      using \<open>k \<notin> set keys\<close> by (auto simp: ran_def restrict_map_def split: if_splits)
    ultimately show ?thesis by (simp add: close_lives_def Un_ac)
  qed
  finally show ?case .
qed

lemma life_of_Close:
  assumes "\<forall>l a. rt_instances r l = Some a \<longrightarrow> a < length (rt_heap r)" and "distinct keys"
    and "set keys = dom (rt_instances r)"
  shows "life_of (instance_Close keys cs r) = life_of r
    \<or> life_of (instance_Close keys cs r) = (life_of r)\<lparr>lf_lives := Map.empty, lf_cancelled :=
        (\<Union>a \<in> ran (lf_lives (life_of r)). set_option (c_cancel (lf_cores (life_of r) ! a))) \<union> lf_cancelled (life_of r)\<rparr>"
proof (cases "rt_closed r")
  case False
  let ?r = "monitor_Close cs (r\<lparr>rt_closed := True\<rparr>)"
  have flag: "life_of (r\<lparr>rt_closed := True\<rparr>) = life_of r" by (simp add: life_of_def)
  then have l: "life_of ?r = life_of r" by simp
  then have i: "rt_instances ?r = rt_instances r" and h: "length (rt_heap ?r) = length (rt_heap r)"
    unfolding life_of_def by (auto dest: map_eq_imp_length_eq)
  have "life_of (fold close_instance keys ?r) = close_lives keys (life_of ?r)"
    using assms(1) i h by (intro life_of_closes [OF _ assms(2)]) auto
  then have "life_of (instance_Close keys cs r) = close_lives keys (life_of r)"
    using False flag by (simp add: instance_Close_def)
  moreover have "rt_instances r |` (- set keys) = Map.empty" "rt_instances r |` set keys = rt_instances r"
    using assms(3) by (auto simp: restrict_map_def domIff intro!: ext)
  ultimately show ?thesis by (simp add: close_lives_def)
qed (simp add: instance_Close_def)

text \<open>The state of the system as one of \<open>Lifecycle\<close>, and the simulation.\<close>

definition life_view :: "pc list \<times> ('db, 'h) server \<Rightarrow> (nat \<Rightarrow> phase) \<times> life" where
  "life_view s = (phases (fst s), life_of (rt (snd s)))"

lemma step_refines_lifecycle:
  assumes "sys_step E C s s'" and "wf_life (phases (fst s)) (life_of (rt (snd s)))"
  shows "life_view s' = life_view s \<or> life_step (life_view s) (life_view s')"
  using assms(1)
proof cases
  case (thread t ths y w p new w')
  have "phase_ok (life_of (rt w)) (phases ths t)" using assms(2) thread(1) by (simp add: wf_life_def)
  then have "phase_ok (life_of (rt w)) (phase_of (ths ! t))" using thread(3) by (simp add: phases_def)
  from refines_step [OF this, of t E C y] thread(4)
  have m: "move t (phase_of (ths ! t)) (life_of (rt w)) (phase_of p) (life_of (rt w'))"
      "\<forall>q \<in> set new. phase_of q = Outside"
    by (auto simp: refines_def)
  then have "life_step (phases ths, life_of (rt w)) ((phases ths)(t := phase_of p), life_of (rt w'))"
    using thread(3) by (intro life_step.thread) (simp add: phases_def)
  with m thread show ?thesis by (simp add: life_view_def phases_thread)
next
  case (begins p ths w)
  then show ?thesis by (simp add: life_view_def phases_begin)
next
  case (closed keys w ths containerIds)
  have "\<forall>l a. rt_instances (rt w) l = Some a \<longrightarrow> a < length (rt_heap (rt w))"
    using assms(2) closed(1) by (simp add: wf_life_def)
  from life_of_Close [where cs = containerIds, OF this closed(3,4)] show ?thesis
    using closed(1,2) life_step.close [of "phases ths" "life_of (rt w)"] by (auto simp: life_view_def)
qed (auto simp: life_view_def)

text \<open>Reviving: every instance made so far is running, and nobody holds its mutex.\<close>

definition fresh :: "life \<Rightarrow> bool" where
  "fresh L \<longleftrightarrow> lf_cancelled L = {}
     \<and> (\<forall>l a. lf_lives L l = Some a \<longrightarrow> a < length (lf_cores L) \<and> c_lab (lf_cores L ! a) = l)
     \<and> (\<forall>c \<in> set (lf_cores L). c_mutex c = None \<and> c_state c = Running \<and> \<not> c_destroyed c
          \<and> (\<forall>x. c_cancel c = Some x \<longrightarrow> x < lf_ctxs L))"

definition fresh_life :: "pc list \<times> ('db, 'h) server \<Rightarrow> bool" where
  "fresh_life s \<longleftrightarrow> fresh (life_of (rt (snd s))) \<and> (\<forall>p \<in> set (fst s). phase_of p = Outside)"

lemma fresh_add:
  assumes "fresh L"
  shows "fresh (L\<lparr>lf_ctxs := Suc (lf_ctxs L), lf_cores := lf_cores L @ [\<lparr>c_lab = l, c_mutex = None,
    c_cancel = Some (lf_ctxs L), c_state = Running, c_destroyed = False\<rparr>],
    lf_lives := (lf_lives L)(l \<mapsto> length (lf_cores L))\<rparr>)"
  using assms by (auto simp: fresh_def nth_append intro: less_SucI)

lemma fresh_life_publish: "fresh_life (ths, snd (publish topic l w)) = fresh_life (ths, w)"
  by (simp add: fresh_life_def)

lemma fresh_life_same: "life_of (rt w') = life_of (rt w) \<Longrightarrow> fresh_life (ths, w) \<Longrightarrow> fresh_life (ths, w')"
  by (simp add: fresh_life_def del: life_of_fields)

lemma revive_found_fresh:
  assumes "fresh_life s"
  shows "fresh_life (revive_found E C cs savedLab d s)"
proof -
  obtain ths w where s: "s = (ths, w)" by fastforce
  let ?w = "on_rt (create_namespace [''logs'', lab_UUID savedLab] (cfg_ClabLogBacklog C)) w"
  obtain res r where c: "createNodesFromTopology C d (lab_UUID savedLab) (rt ?w) = (res, r)" by fastforce
  have l: "life_of r = life_of (rt w)"
    using c by (auto simp: createNodesFromTopology_def split: option.splits if_splits)
  show ?thesis
  proof (cases res)
    case (Inl e)
    with c s l assms show ?thesis by (auto simp: revive_found_def Let_def intro: fresh_life_same)
  next
    case (Inr ns)
    let ?ctx = "rt_ctxs r" and ?a = "length (rt_heap r)"
    let ?nodes = "map (apsnd (revived_node cs)) ns"
    let ?i = "revived_instance savedLab (GetRunTopologyDefinitionFile (e_storage E) (lab_UUID savedLab)) ?ctx ?nodes (w_now ?w)"
    obtain calls where run: "revive_found E C cs savedLab d s
        = (ths @ revived_listeners (lab_UUID savedLab) ?a ?nodes,
           snd (publish ''lab.restored'' savedLab (on_rt (\<lambda>_. r\<lparr>rt_ctxs := Suc ?ctx, rt_heap := rt_heap r @ [?i],
             rt_instances := (rt_instances r)(lab_UUID savedLab \<mapsto> ?a), rt_calls := calls\<rparr>) ?w)))"
      using c s Inr by (simp add: revive_found_def Let_def)
    have "core_of ?i = \<lparr>c_lab = lab_UUID savedLab, c_mutex = None, c_cancel = Some ?ctx, c_state = Running, c_destroyed = False\<rparr>"
      by (simp add: revived_instance_def core_of_def)
    then have "life_of (r\<lparr>rt_ctxs := Suc ?ctx, rt_heap := rt_heap r @ [?i],
        rt_instances := (rt_instances r)(lab_UUID savedLab \<mapsto> ?a), rt_calls := calls\<rparr>)
      = (life_of r)\<lparr>lf_ctxs := Suc (lf_ctxs (life_of r)), lf_cores := lf_cores (life_of r) @ [\<lparr>c_lab = lab_UUID savedLab,
          c_mutex = None, c_cancel = Some (lf_ctxs (life_of r)), c_state = Running, c_destroyed = False\<rparr>],
          lf_lives := (lf_lives (life_of r))(lab_UUID savedLab \<mapsto> length (lf_cores (life_of r)))\<rparr>"
      by (simp add: life_of_def)
    moreover have "fresh (life_of r)" using l assms s by (simp add: fresh_life_def)
    moreover have "\<forall>p \<in> set (revived_listeners l a x). phase_of p = Outside" for l a x
      by (auto simp: revived_listeners_def)
    ultimately show ?thesis
      using run assms s fresh_add [of "life_of r" "lab_UUID savedLab"] by (auto simp: fresh_life_def)
  qed
qed

lemma revive_lab_fresh: "fresh_life s \<Longrightarrow> fresh_life (revive_lab E C result savedLab s)"
  by (cases s) (auto simp: revive_lab_def revive_found_fresh fresh_life_publish split: option.split sum.split prod.split)

lemma revive_fresh:
  assumes "rt w = CreateInstanceService" and "Revive E C inspected w = Some s"
  shows "fresh_life s"
proof -
  have "fresh_life ([], w)"
    using assms(1) by (simp add: fresh_life_def fresh_def life_of_def CreateInstanceService_def)
  then have "fresh_life (fold (revive_lab E C result) labs ([], w))" for result labs
    by (rule fold_invariant [where Q = "\<lambda>_. True", rotated]) (simp_all add: revive_lab_fresh)
  moreover obtain result labs where "s = apsnd (on_rt (send_update None)) (fold (revive_lab E C result) labs ([], w))"
    using assms(2) unfolding Revive_def reviveInstances_def by (simp split: sum.splits) (metis apsnd_conv)
  ultimately show ?thesis by (simp add: fresh_life_def)
qed

lemma fresh_life_reach:
  assumes "fresh_life (ths, w)"
  shows "life_reach (life_view (ths, w))"
proof -
  have "phases ths = (\<lambda>_. Outside)"
    using assms by (auto simp: fresh_life_def phases_def intro!: ext)
  moreover have "life_reach (\<lambda>_. Outside, life_of (rt w))"
    using assms unfolding fresh_life_def fresh_def by (intro life_reach.start) (auto simp del: life_of_fields)
  ultimately show ?thesis by (simp add: life_view_def)
qed

text \<open>Every reachable state of the service is one of the lifecycle, so its invariants hold.\<close>

lemma sys_life_reach: "sys_reach E C s \<Longrightarrow> life_reach (life_view s)"
proof (induction rule: sys_reach.induct)
  case (revived w inspected s)
  then show ?case using fresh_life_reach revive_fresh by (metis prod.collapse)
next
  case (step s s')
  have "life_inv (phases (fst s)) (life_of (rt (snd s)))"
    using life_reach_inv step.IH by (simp add: life_view_def)
  then show ?case
    using step_refines_lifecycle [OF step.hyps(2)] step.IH life_reach.step
    by (metis life_inv_def)
qed

lemma sys_inv: "sys_reach E C (ths, w) \<Longrightarrow> life_inv (phases ths) (life_of (rt w))"
  using sys_life_reach life_reach_inv unfolding life_view_def by fastforce

end
