(* ===== verification/Instance_Runs.thy ===== *)
theory Instance_Runs
  imports Instance_System Memory_Database
begin

text \<open>
  Concrete runs of the instance service, over the environment of \<open>Memory_Database\<close> with a topology of one
  node and the files of the lab \<open>l1\<close> in the run directory. They serve to apply the theorems about the
  service.
\<close>

section \<open>Playing a schedule\<close>

text \<open>The threads that are started, then the steps they make, each with its reply.\<close>

fun play ::
  "('db, 'node, 'h) env \<Rightarrow> inst_config \<Rightarrow> (nat \<times> reply) list \<Rightarrow> pc list \<times> ('db, 'h) server
    \<Rightarrow> (pc list \<times> ('db, 'h) server) option" where
  "play E C [] s = Some s"
| "play E C ((t, y) # moves) s =
     (if t < length (fst s) then
        (case thread_step E C t y (fst s ! t) (snd s) of
           None \<Rightarrow> None
         | Some (p, new, w') \<Rightarrow> play E C moves ((fst s)[t := p] @ new, w'))
      else None)"

lemma play_reach: "play E C moves s = Some s' \<Longrightarrow> sys_reach E C s \<Longrightarrow> sys_reach E C s'"
proof (induction E C moves s rule: play.induct)
  case (2 E C t y moves s)
  obtain p new w' where step: "t < length (fst s)" "thread_step E C t y (fst s ! t) (snd s) = Some (p, new, w')"
    using 2(2) by (auto split: if_splits option.splits)
  then have "sys_step E C (fst s, snd s) ((fst s)[t := p] @ new, w')" by (intro sys_step.thread)
  then have "sys_reach E C ((fst s)[t := p] @ new, w')" using 2(3) sys_reach.step by fastforce
  with 2(1) [OF step(1) step(2) refl refl] step 2(2) show ?case by simp
qed simp

lemma begin_reach: "list_all startable ps \<Longrightarrow> sys_reach E C (ths, w) \<Longrightarrow> sys_reach E C (ths @ ps, w)"
proof (induction ps arbitrary: ths)
  case (Cons p ps)
  then have "sys_reach E C (ths @ [p], w)" by (auto intro: sys_reach.step sys_step.begins)
  with Cons show ?case using Cons.IH [of "ths @ [p]"] by simp
qed simp

section \<open>A service\<close>

definition demo_topology_of_labs :: topology_definition where
  "demo_topology_of_labs = \<lparr>td_Name = ''net-1'', td_Topology = Some
     \<lparr>ct_Defaults = None, ct_Kinds = [], ct_Groups = [], ct_Nodes = [(''r1'', None)], ct_Links = []\<rparr>\<rparr>"

definition demo_lab_env :: "(memory, string, string) env" where
  "demo_lab_env = demo_env\<lparr>e_parsers := demo_service_parsers\<lparr>Decode_definition := (\<lambda>_. Inr demo_topology_of_labs)\<rparr>\<rparr>"

definition demo_config :: inst_config where
  "demo_config = \<lparr>cfg_ClabLogBacklog = 10, cfg_ContainerLogBacklog = 10, cfg_ExcludedInterfaces = [''lo''],
     cfg_nodeKindConfigs = (\<lambda>_. Some (Some True)), cfg_GetNodeKind = (\<lambda>_ _. ''linux'')\<rparr>"

definition demo_run_fs :: fs where
  "demo_run_fs = demo_fs\<lparr>nodes := (nodes demo_fs)
     ((True, [''run'', ''l1'']) \<mapsto> Dir 488,
      (True, [''run'', ''l1'', ''topology.clab.yaml'']) \<mapsto> File 416 ''name: net-1'')\<rparr>"

definition demo_server :: "(memory, string) server" where
  "demo_server = \<lparr>w_db = demo_memory, w_fs = demo_run_fs, w_engine = CreateEngine \<lparr>AllowedImagePrefixes = []\<rparr>,
     w_auth = demo_manager, w_published = [], w_status = [], w_uuids = 0, w_now = 2000000000, \<dots> = CreateInstanceService\<rparr>"

text \<open>The service once it is started, with no container running.\<close>

definition demo_start :: "pc list \<times> (memory, string) server" where
  "demo_start = ([], on_rt (send_update None) demo_server)"

lemma demo_start_reach: "sys_reach demo_lab_env demo_config demo_start"
proof (rule sys_reach.revived)
  show "rt demo_server = CreateInstanceService" by (simp add: demo_server_def)
  have "lab_GetAll memory_database None demo_memory = Inr [demo_lab]" by code_simp
  moreover have "\<not> unix 2000000000 \<le> unix 0" by code_simp
  ultimately show "Revive demo_lab_env demo_config (Inr Map.empty) demo_server = Some demo_start"
    by (simp add: Revive_def reviveInstances_def revive_lab_def demo_start_def demo_server_def demo_lab_env_def
        demo_env_def demo_lab_def)
qed

text \<open>The service once it is started with the node of the lab running.\<close>

definition demo_container :: inspect_container where
  "demo_container = \<lparr>ic_Name = ''r1'', ic_State = NodeRunning, ic_ContainerId = ''k1'', ic_ContainerName = ''clab-r1'',
     ic_IPv4Address = ''172.20.0.2'', ic_IPv6Address = []\<rparr>"

definition demo_revived :: "pc list \<times> (memory, string) server" where
  "demo_revived = the (Revive demo_lab_env demo_config (Inr [''net-1'' \<mapsto> [demo_container]]) demo_server)"

lemma demo_revived_reach: "sys_reach demo_lab_env demo_config demo_revived"
proof (rule sys_reach.revived)
  show "rt demo_server = CreateInstanceService" by (simp add: demo_server_def)
  have "lab_GetAll (e_database demo_lab_env) None (w_db demo_server) = Inr [demo_lab]" by code_simp
  then show "Revive demo_lab_env demo_config (Inr [''net-1'' \<mapsto> [demo_container]]) demo_server = Some demo_revived"
    by (simp add: demo_revived_def Revive_def reviveInstances_def)
qed

text \<open>What holds at the end of a schedule holds in a reachable state.\<close>

definition ends_in ::
  "pc list \<times> (memory, string) server \<Rightarrow> pc list \<Rightarrow> (nat \<times> reply) list \<Rightarrow> (pc list \<Rightarrow> (memory, string) server \<Rightarrow> bool) \<Rightarrow> bool" where
  "ends_in s ps moves P \<longleftrightarrow>
     (case s of (ths, w) \<Rightarrow>
        case play demo_lab_env demo_config moves (ths @ ps, w) of None \<Rightarrow> False | Some (ths, w) \<Rightarrow> P ths w)"

lemma ends_in_reach:
  assumes "ends_in s ps moves P" and "sys_reach demo_lab_env demo_config s" and "list_all startable ps"
  shows "\<exists>ths w. sys_reach demo_lab_env demo_config (ths, w) \<and> P ths w"
proof -
  have "sys_reach demo_lab_env demo_config (fst s @ ps, snd s)"
    using assms(2) by (intro begin_reach [OF assms(3)]) simp
  then show ?thesis
    using assms(1) play_reach by (fastforce simp: ends_in_def split: option.splits prod.splits)
qed

section \<open>Runs\<close>

text \<open>Two deployments of the lab: the second has cancelled the first and waits for it.\<close>

definition two_deployments :: "(nat \<times> reply) list" where
  "two_deployments = replicate 4 (0, Silent) @ replicate 2 (1, Silent)"

definition end_of_destruction :: "nat \<Rightarrow> (nat \<times> reply) list" where
  "end_of_destruction t = map (Pair t) [Silent, Silent, ProviderDone [] None, Silent, Silent]"

text \<open>
  Two destructions choose the instance of a running lab; the first destroys it; the lab is deployed again.
  Thread 0 listens to the node that ran at first.
\<close>

definition destroyed_and_deployed :: "(nat \<times> reply) list" where
  "destroyed_and_deployed = [(1, Silent), (1, Silent), (2, Silent), (2, Silent)] @ end_of_destruction 1
     @ replicate 4 (3, Silent)"

end
