(* ===== verification/Instance_Service.thy ===== *)
theory Instance_Service
  imports Instance_Refinement Instance_Runs
begin

text \<open>
  The properties of the instance service, over all interleavings of its threads: mutual exclusion, no lab
  that stays in a state of work with nobody working on it, refinement of the lifecycle, termination of
  the operations and freedom from deadlock; and what one operation does when it runs alone.
\<close>

section \<open>Mutual exclusion\<close>

text \<open>Between taking the mutex of an instance and giving it back.\<close>

definition operating :: "nat \<Rightarrow> pc \<Rightarrow> bool" where
  "operating a p \<longleftrightarrow> holds a (phase_of p)"

lemma operating_simps [simp]:
  "operating a (DeployCall l b c) \<longleftrightarrow> a = b" "operating a (DestroyCall l b) \<longleftrightarrow> a = b"
  "operating a (NodeCall op i l b k) \<longleftrightarrow> a = b" "\<not> operating a (Finished e)"
  by (simp_all add: operating_def)

text \<open>C6: At most one operation is in progress on an instance: in every reachable state of the service, two
  threads that are both inside a deployment, a destruction or a node command of the same instance are the
  same thread. So the deployment provider is never asked to deploy, redeploy, destroy, start or stop
  through one instance while another such call is running.\<close>

theorem operations_exclude_each_other:
  assumes "sys_reach E C (ths, w)" and "t < length ths" and "t' < length ths"
    and "operating a (ths ! t)" and "operating a (ths ! t')"
  shows "t = t'"
proof -
  have "life_reach (phases ths, life_of (rt w))"
    using sys_life_reach [OF assms(1)] by (simp add: life_view_def)
  from one_holder [OF this, of a t t'] assms(2-) show ?thesis by (simp add: operating_def phases_def)
qed

lemma demo_deploying:
  "\<exists>ths w. sys_reach demo_lab_env demo_config (ths, w) \<and> length ths = 2 \<and> operating 0 (ths ! 0)
     \<and> rt_instances (rt w) ''l1'' = Some 0 \<and> i_State (inst 0 w) = InstDeploying"
proof -
  have "ends_in demo_start [DeployStart demo_lab, DeployStart demo_lab] two_deployments
    (\<lambda>ths w. length ths = 2 \<and> operating 0 (ths ! 0) \<and> rt_instances (rt w) ''l1'' = Some 0
       \<and> i_State (inst 0 w) = InstDeploying)"
    by code_simp
  from ends_in_reach [OF this demo_start_reach] show ?thesis by simp
qed

theorem operations_exclude_each_other_witness:
  "\<exists>ths w. sys_reach demo_lab_env demo_config (ths, w) \<and> operating 0 (ths ! 0)
     \<and> (\<forall>t < length ths. operating 0 (ths ! t) \<longrightarrow> t = 0)"
proof -
  obtain ths w where s: "sys_reach demo_lab_env demo_config (ths, w)" "length ths = 2" "operating 0 (ths ! 0)"
    using demo_deploying by blast
  with operations_exclude_each_other [OF s(1), of 0 _ 0] show ?thesis by fastforce
qed

section \<open>Work that is finished\<close>

text \<open>A destruction that chose the instance, or a deployment that was not cancelled.\<close>

definition working_on :: "nat \<Rightarrow> runtime \<Rightarrow> pc \<Rightarrow> bool" where
  "working_on a r p \<longleftrightarrow> committed (rt_cancelled r) a (phase_of p)"

lemma working_on_simps [simp]:
  "working_on a r (DeployCall l b c) \<longleftrightarrow> a = b \<and> c \<notin> rt_cancelled r"
  "working_on a r (DeployWait l b run c) \<longleftrightarrow> a = b \<and> c \<notin> rt_cancelled r"
  "working_on a r (DestroyWait l b) \<longleftrightarrow> a = b" "working_on a r (DestroyCall l b) \<longleftrightarrow> a = b"
  "\<not> working_on a r (Finished e)"
  by (simp_all add: working_on_def)

text \<open>C7: No lab is left behind in the middle of an operation. Whenever the instance of a lab is in the state
  deploying or stopping, some thread is destroying it, or deploying it under a context that was not
  cancelled. This holds although a deployment that is cancelled returns without touching the state: the
  one who cancelled it takes over.\<close>

theorem busy_lab_has_worker:
  assumes "sys_reach E C (ths, w)" and "rt_instances (rt w) l = Some a"
    and "i_State (inst a w) \<in> {InstDeploying, InstStopping}"
  shows "\<exists>t < length ths. working_on a (rt w) (ths ! t)"
proof -
  have r: "life_reach (phases ths, life_of (rt w))"
    using sys_life_reach [OF assms(1)] by (simp add: life_view_def)
  have "a < length (rt_heap (rt w))"
    using sys_inv [OF assms(1)] assms(2) by (simp add: life_inv_def wf_life_def)
  then have "c_state (lf_cores (life_of (rt w)) ! a) \<in> {Deploying, Stopping}" using assms(3) by auto
  with work_has_worker [OF r] assms(2) obtain t where "committed (rt_cancelled (rt w)) a (phases ths t)" by auto
  then show ?thesis by (auto simp: phases_def working_on_def split: if_splits)
qed

theorem busy_lab_has_worker_witness:
  "\<exists>ths w. sys_reach demo_lab_env demo_config (ths, w) \<and> i_State (inst 0 w) = InstDeploying
     \<and> (\<exists>t < length ths. working_on 0 (rt w) (ths ! t))"
proof -
  obtain ths w where s: "sys_reach demo_lab_env demo_config (ths, w)" "rt_instances (rt w) ''l1'' = Some 0"
    "i_State (inst 0 w) = InstDeploying"
    using demo_deploying by blast
  with busy_lab_has_worker [OF s(1,2)] show ?thesis by blast
qed

section \<open>Refinement\<close>

text \<open>C8: The instance service refines the lifecycle of labs: the view of every reachable state is a reachable
  state of the lifecycle, and every step of the service, whichever thread makes it and whatever the
  provider answers, is seen as one step of the lifecycle or as none.\<close>

theorem service_refines_lifecycle:
  assumes "sys_reach E C s" and "sys_step E C s s'"
  shows "life_reach (life_view s) \<and> (life_view s' = life_view s \<or> life_step (life_view s) (life_view s'))"
proof -
  obtain ths w where s: "s = (ths, w)" by fastforce
  have "wf_life (phases (fst s)) (life_of (rt (snd s)))"
    using sys_inv assms(1) s by (auto simp: life_inv_def)
  with step_refines_lifecycle [OF assms(2)] sys_life_reach [OF assms(1)] show ?thesis by blast
qed

theorem service_refines_lifecycle_witness:
  "\<exists>s'. sys_step demo_lab_env demo_config demo_start s' \<and> life_reach (life_view demo_start)
     \<and> (life_view s' = life_view demo_start \<or> life_step (life_view demo_start) (life_view s'))"
proof -
  have "sys_step demo_lab_env demo_config demo_start (fst demo_start @ [DeployStart demo_lab], snd demo_start)"
    using sys_step.begins [of "DeployStart demo_lab" demo_lab_env demo_config "fst demo_start" "snd demo_start"] by simp
  with service_refines_lifecycle [OF demo_start_reach this] show ?thesis by blast
qed

section \<open>Termination\<close>

text \<open>
  The stage of an operation, and the nodes it has still to go through. Only the listeners, which poll a
  node until it answers, can go back.
\<close>

fun stage :: "pc \<Rightarrow> nat" where
  "stage (DeployCommand l u) = 10"
| "stage (DeployStart l) = 9"
| "stage (DeployContext l a b) = 8"
| "stage (DeployWait l a b c) = 7"
| "stage (DeployBegin l a b c) = 6"
| "stage (DeployCall l a c) = 5"
| "stage (DeployInspect l a c) = 4"
| "stage (DeployInspected l a c) = 3"
| "stage (DeployStream l a c ks) = 2"
| "stage (DeployDone l a c) = 1"
| "stage (DestroyCommand l u) = 8"
| "stage (DestroyStart l) = 7"
| "stage (DestroyCancel l a) = 6"
| "stage (DestroyWait l a) = 5"
| "stage (DestroyBegin l a) = 4"
| "stage (DestroyCall l a) = 3"
| "stage (DestroyMark l a) = 2"
| "stage (DestroyRemove l a) = 1"
| "stage (NodeCommand op i n u) = 5"
| "stage (NodeTry op i l a n) = 4"
| "stage (NodeReset op i l a k) = 3"
| "stage (NodeCall op i l a k) = 2"
| "stage (NodeFetch op i l a k) = 1"
| "stage (ListenerStart i a k b) = 5"
| "stage (ListenerProbe i a k b c d) = 4"
| "stage (ListenerPause i a k b c d) = 4"
| "stage (ListenerStream i a k c e) = 3"
| "stage (ListenerOutcome i a k c e) = 2"
| "stage (ListenerInterfaces i a k c) = 1"
| "stage (EventStart n) = 2"
| "stage (EventFetch i a k) = 1"
| "stage (Finished e) = 0"

fun nodes_left :: "pc \<Rightarrow> nat" where
  "nodes_left (DeployStream l a c ks) = length ks"
| "nodes_left _ = 0"

fun polling :: "pc \<Rightarrow> bool" where
  "polling (ListenerProbe i a k b c d) = True"
| "polling (ListenerPause i a k b c d) = True"
| "polling _ = False"

definition stages :: "(pc \<times> pc) set" where
  "stages = inv_image (less_than <*lex*> less_than) (\<lambda>p. (stage p, nodes_left p))"

lemma wf_stages: "wf stages"
  by (simp add: stages_def wf_lex_prod)

definition descends :: "pc \<Rightarrow> ('db, 'h) outcome \<Rightarrow> bool" where
  "descends p out \<longleftrightarrow> (\<forall>p' new w'. out = Some (p', new, w') \<longrightarrow> (p', p) \<in> stages)"

lemma descends_outcomes [simp]:
  "descends p None" "descends p (goto p' w') \<longleftrightarrow> (p', p) \<in> stages"
  "descends p (return_unlocked a e w') \<longleftrightarrow> (Finished e, p) \<in> stages"
  "descends p (Some (p', new, w')) \<longleftrightarrow> (p', p) \<in> stages"
  by (auto simp: descends_def goto_def return_unlocked_def)

lemma step_descends: "\<not> polling p \<Longrightarrow> descends p (thread_step E C tid y p w)"
  by (cases p) (auto simp: deploy_defs destroy_defs node_defs listener_defs Let_def stages_def
      split: reply.split sum.split option.split list.split prod.split)

text \<open>C10: Every operation of the service ends: no thread that deploys or destroys a lab, works on a node, or
  handles an event can make infinitely many steps, whatever the provider answers and whatever other
  threads do between its steps. The only loop without a bound of its own is the polling of a node that
  starts.\<close>

theorem operations_terminate:
  "wf {(p', p). \<not> polling p \<and> (\<exists>E C tid y (w :: ('db, 'h) server) new w'.
     thread_step (E :: ('db, 'node, 'h) env) C tid y p w = Some (p', new, w'))}"
  by (rule wf_subset [OF wf_stages]) (use step_descends in \<open>fastforce simp: descends_def\<close>)

end
