(* ===== verification/Instance_Progress.thy ===== *)
theory Instance_Progress
  imports Instance_Service
begin

text \<open>
  Freedom from deadlock of the instance service.
\<close>

section \<open>Deadlock\<close>

text \<open>
  A thread is only ever kept from its next step by the mutex of the instance it waits for. The keys of the
  nodes of an instance never change, so a thread that goes on with a node finds it.
\<close>

definition keys_at :: "nat \<Rightarrow> runtime \<Rightarrow> string list" where
  "keys_at a r = map fst (i_Nodes (rt_heap r ! a))"

fun node_ok :: "runtime \<Rightarrow> pc \<Rightarrow> bool" where
  "node_ok r (DeployStream l a c ks) = (a < length (rt_heap r) \<and> set ks \<subseteq> set (keys_at a r))"
| "node_ok r (NodeReset op i l a k) = (a < length (rt_heap r) \<and> k \<in> set (keys_at a r))"
| "node_ok r (NodeCall op i l a k) = (a < length (rt_heap r) \<and> k \<in> set (keys_at a r))"
| "node_ok r (NodeFetch op i l a k) = (a < length (rt_heap r) \<and> k \<in> set (keys_at a r))"
| "node_ok r (ListenerStart i a k b) = (a < length (rt_heap r) \<and> k \<in> set (keys_at a r))"
| "node_ok r (ListenerProbe i a k b c d) = (a < length (rt_heap r) \<and> k \<in> set (keys_at a r))"
| "node_ok r (ListenerPause i a k b c d) = (a < length (rt_heap r) \<and> k \<in> set (keys_at a r))"
| "node_ok r (ListenerStream i a k c e) = (a < length (rt_heap r) \<and> k \<in> set (keys_at a r))"
| "node_ok r (ListenerOutcome i a k c e) = (a < length (rt_heap r) \<and> k \<in> set (keys_at a r))"
| "node_ok r (ListenerInterfaces i a k c) = (a < length (rt_heap r) \<and> k \<in> set (keys_at a r))"
| "node_ok r _ = True"

text \<open>Nothing that happens loses an instance or one of its nodes.\<close>

definition grows :: "runtime \<Rightarrow> runtime \<Rightarrow> bool" where
  "grows r r' \<longleftrightarrow> length (rt_heap r) \<le> length (rt_heap r')
     \<and> (\<forall>a < length (rt_heap r). keys_at a r' = keys_at a r)"

lemma grows_refl [simp]: "grows r r"
  by (simp add: grows_def)

lemma grows_trans: "grows r r' \<Longrightarrow> grows r' r'' \<Longrightarrow> grows r r''"
  by (auto simp: grows_def)

lemma grows_heap: "rt_heap r' = rt_heap r \<Longrightarrow> grows r r'"
  by (simp add: grows_def keys_at_def)

lemma node_ok_grows: "grows r r' \<Longrightarrow> node_ok r p \<Longrightarrow> node_ok r' p"
  by (cases p) (auto simp: grows_def)

lemma map_fst_nodes [simp]:
  "map fst (i_Nodes (on_nodes f i)) = map fst (i_Nodes i)" "map fst (i_Nodes (on_node k f i)) = map fst (i_Nodes i)"
  by (auto simp: on_nodes_def on_node_def)

lemma grows_inst:
  assumes "map fst (i_Nodes (f (rt_heap r ! a))) = map fst (i_Nodes (rt_heap r ! a))"
  shows "grows r (on_inst a f r)"
  using assms by (auto simp: grows_def keys_at_def on_inst_def nth_update split: if_splits)

lemma grows_append: "rt_heap r' = rt_heap r @ is \<Longrightarrow> grows r r'"
  by (auto simp: grows_def keys_at_def nth_append)

named_theorems growing \<open>the operations under which the instances grow\<close>

lemma grows_rt [growing]:
  "grows r (f (rt w)) \<Longrightarrow> grows r (rt (on_rt f w))"
  by simp

lemma grows_services [growing]:
  "grows r (rt w) \<Longrightarrow> grows r (rt (snd (publish topic l w)))" "grows r (rt w) \<Longrightarrow> grows r (rt (snd (exec q w)))"
  "grows r (rt w) \<Longrightarrow> grows r (rt (set_last_failed E lab b w))"
  "grows r (rt w) \<Longrightarrow> grows r (rt (snd (send_status E sev src content parts w)))"
  by simp_all

lemma grows_updates [growing]:
  "grows r (rt w) \<Longrightarrow> grows r (rt (sendLabUpdate E lab sev content parts ns w))"
  "grows r (rt w) \<Longrightarrow> grows r (rt (updateLabAndSendUpdate E lab a s sev content parts w))"
  "grows r (rt w) \<Longrightarrow> grows r (rt (log_to_instance a ls w))"
  "grows r (rt w) \<Longrightarrow> grows r (rt (lock t a w))" "grows r (rt w) \<Longrightarrow> grows r (rt (unlock a w))"
proof -
  have send: "grows (rt w) (rt (sendLabUpdate E lab sev content parts ns w))" for w :: "('db, 'h) server" and E :: "('db, 'node, 'h) env" and ns
    by (simp add: grows_heap rt_send_lab_update)
  then show "grows r (rt w) \<Longrightarrow> grows r (rt (sendLabUpdate E lab sev content parts ns w))" by (blast intro: grows_trans)
  show "grows r (rt w) \<Longrightarrow> grows r (rt (updateLabAndSendUpdate E lab a s sev content parts w))"
    unfolding updateLabAndSendUpdate_def
    by (rule grows_trans [OF _ send], rule grows_rt, erule grows_trans, rule grows_inst) simp
  show "grows r (rt w) \<Longrightarrow> grows r (rt (log_to_instance a ls w))"
    unfolding log_to_instance_def by (rule grows_rt, erule grows_trans, rule grows_heap) simp
  show "grows r (rt w) \<Longrightarrow> grows r (rt (lock t a w))" "grows r (rt w) \<Longrightarrow> grows r (rt (unlock a w))"
    unfolding lock_def unlock_def by (rule grows_rt, erule grows_trans, rule grows_inst, simp)+
qed

lemma grows_outputs [growing]:
  "grows r x \<Longrightarrow> grows r (send_update u x)" "grows r x \<Longrightarrow> grows r (release ns x)"
  "grows r x \<Longrightarrow> grows r (send_logs ns ls x)" "grows r x \<Longrightarrow> grows r (x\<lparr>rt_calls := cs\<rparr>)"
  "grows r x \<Longrightarrow> grows r (create_namespace ns n x)" "grows r x \<Longrightarrow> grows r (x\<lparr>rt_instances := m\<rparr>)"
  "grows r x \<Longrightarrow> grows r (x\<lparr>rt_ctxs := c\<rparr>)" "grows r x \<Longrightarrow> grows r (send_log ns m' x)"
  "grows r x \<Longrightarrow> grows r (cancel_deployment a x)" "grows r x \<Longrightarrow> grows r (AddNode ct i nn k x)"
  by (erule grows_trans, rule grows_heap,
      (simp add: send_update_def release_def create_namespace_def send_log_def cancel_deployment_def AddNode_def
        split: option.split; fail))+

lemma grows_insts [growing]:
  "grows r x \<Longrightarrow> grows r (on_inst a (on_nodes f) x)" "grows r x \<Longrightarrow> grows r (on_inst a (on_node k f) x)"
  "grows r x \<Longrightarrow> grows r (on_inst a (\<lambda>i. i\<lparr>i_IsDestroyed := b\<rparr>) x)"
  "grows r x \<Longrightarrow> grows r (on_inst a (\<lambda>i. i\<lparr>i_Recovered := b, i_Deployed := t\<rparr>) x)"
  "grows r x \<Longrightarrow> grows r (on_inst a (\<lambda>i. i\<lparr>i_DeploymentCtx := c, i_DeploymentCancel := c'\<rparr>) x)"
  by (erule grows_trans, rule grows_inst, simp)+

lemma grows_create [simp]: "grows (create_namespace ns n r) x \<longleftrightarrow> grows r x"
  by (simp add: grows_def keys_at_def create_namespace_def)

lemma grows_fetch [growing]: "grows r x \<Longrightarrow> grows r (snd (fetch_node a k c x))"
  by (auto simp: fetch_node_def intro!: growing split: option.split)

lemma grows_releases [growing]: "grows r x \<Longrightarrow> grows r (fold (\<lambda>(_, n). release (f n)) ns x)"
  by (erule grows_trans) (simp add: grows_heap)

text \<open>A step keeps what was there, and goes on with nodes that exist.\<close>

definition finds_nodes :: "('db, 'h) server \<Rightarrow> ('db, 'h) outcome \<Rightarrow> bool" where
  "finds_nodes w out \<longleftrightarrow> (\<forall>p' new w'. out = Some (p', new, w') \<longrightarrow>
     grows (rt w) (rt w') \<and> node_ok (rt w') p' \<and> (\<forall>q \<in> set new. node_ok (rt w') q))"

lemma finds_None [simp]: "finds_nodes w None"
  by (simp add: finds_nodes_def)

lemma finds_goto: "grows (rt w) (rt w') \<Longrightarrow> node_ok (rt w') p \<Longrightarrow> finds_nodes w (goto p w')"
  by (simp add: finds_nodes_def goto_def)

lemma finds_return: "grows (rt w) (rt w') \<Longrightarrow> finds_nodes w (return_unlocked a e w')"
  by (simp add: finds_nodes_def return_unlocked_def goto_def grows_updates)

lemma finds_plain: "\<forall>r. node_ok r p \<Longrightarrow> grows (rt w) (rt w') \<Longrightarrow> finds_nodes w (goto p w')"
  by (rule finds_goto) simp_all

text \<open>Going on with a node that exists.\<close>

lemma finds_at:
  assumes "a < length (rt_heap (rt w)) \<and> k \<in> set (keys_at a (rt w))" and "grows (rt w) (rt w')"
    and "\<forall>r. a < length (rt_heap r) \<and> k \<in> set (keys_at a r) \<longrightarrow> node_ok r p"
  shows "finds_nodes w (goto p w')"
  using assms by (intro finds_goto) (auto simp: grows_def)

lemma heap_of_nodes: "createNodesFromTopology C t l r = (res, r') \<Longrightarrow> rt_heap r' = rt_heap r"
proof -
  have "rt_heap (fold (\<lambda>(k, _). create_namespace (g k) m) ks r) = rt_heap r" for g m and ks :: "(string \<times> 'q) list" and r
    by (induction ks arbitrary: r) auto
  then show "createNodesFromTopology C t l r = (res, r') \<Longrightarrow> rt_heap r' = rt_heap r"
    by (auto simp: createNodesFromTopology_def split: option.splits if_splits)
qed

lemma finds_deploy_start: "finds_nodes w (deploy_start E C lab w)"
proof -
  have create: "grows (rt x) (rt x')" if "createInstance E C n ns f d l x = (res, x')" for n ns f d l x res x'
    using that heap_of_nodes by (auto simp: createInstance_def intro!: grows_heap split: sum.splits prod.splits)
  have new: "grows r x \<Longrightarrow> grows r (x\<lparr>rt_heap := rt_heap x @ is, rt_instances := m\<rparr>)" for r x "is" m
    by (erule grows_trans, rule grows_append) simp
  show ?thesis
    by (auto simp: deploy_start_def Let_def intro!: finds_plain growing new
        split: option.split sum.split prod.split)
      (auto dest!: create intro!: new)
qed


lemma keys_of: "map_of (i_Nodes (rt_heap r ! a)) k = Some n \<Longrightarrow> k \<in> set (keys_at a r)"
  by (force simp: keys_at_def dest: map_of_SomeD)

lemma finds_deploy: "finds_nodes w (deploy_command E l u w)" "finds_nodes w (deploy_context x a run w)"
  "finds_nodes w (deploy_wait tid x a run c w)" "finds_nodes w (deploy_begin E x a run c w)"
  "finds_nodes w (deploy_call E x a c lines err w)" "finds_nodes w (deploy_inspect E x a c lines cs w)"
  "finds_nodes w (deploy_done E x a w)"
  by (auto simp: deploy_defs Let_def intro!: finds_plain finds_return growing split: option.split sum.split)

lemma finds_destroy: "finds_nodes w (destroy_command E l u w)" "finds_nodes w (destroy_start x w)"
  "finds_nodes w (destroy_cancel x a w)" "finds_nodes w (destroy_wait tid x a w)"
  "finds_nodes w (destroy_begin E x a w)"
  "finds_nodes w (destroy_call E x a lines err w)" "finds_nodes w (destroy_mark x a w)"
  "finds_nodes w (destroy_remove E x a w)"
  by (auto simp: destroy_defs Let_def intro!: finds_plain finds_return growing split: option.split sum.split)

lemma keys_at_inst [simp]:
  "map fst (i_Nodes (f (rt_heap r ! a))) = map fst (i_Nodes (rt_heap r ! a)) \<Longrightarrow> keys_at b (on_inst a f r) = keys_at b r"
  by (auto simp: keys_at_def on_inst_def nth_update)

lemma length_on_inst [simp]: "length (rt_heap (on_inst a f r)) = length (rt_heap r)"
  by (simp add: on_inst_def)

lemma finds_inspected:
  assumes "a < length (rt_heap (rt w))"
  shows "finds_nodes w (deploy_inspected x a c w)"
proof -
  have "grows (rt w) (on_inst a (\<lambda>i. i\<lparr>i_Recovered := b, i_Deployed := t\<rparr>) (rt w))" for b t
    by (rule grows_inst) simp
  moreover have "node_ok (on_inst a (\<lambda>i. i\<lparr>i_Recovered := b, i_Deployed := t\<rparr>) (rt w))
      (DeployStream x a c (map fst (i_Nodes (inst a w))))" for b t
    using assms by (simp add: keys_at_def on_inst_def)
  ultimately show ?thesis
    unfolding deploy_inspected_def by (intro finds_goto) simp_all
qed

lemma finds_stream:
  assumes "node_ok (rt w) (DeployStream x a c ks)"
  shows "finds_nodes w (deploy_stream x a c ks y w)"
proof (cases ks)
  case Nil
  then show ?thesis by (auto simp: deploy_stream_def intro!: finds_plain)
next
  case (Cons k ks')
  have ok: "node_ok r (DeployStream x a c ks') \<and> node_ok r (ListenerStart i a k b)" if "grows (rt w) r" for r i b
    using that assms Cons by (auto simp: grows_def)
  have new: "grows (rt w) (rt w') \<Longrightarrow> finds_nodes w (Some (DeployStream x a c ks', [ListenerStart i a k b], w'))" for i b w'
    using ok by (auto simp: finds_nodes_def)
  show ?thesis
    by (auto simp: deploy_stream_def Let_def Cons simp del: node_ok.simps
        intro!: finds_goto new conjunct1 [OF ok] finds_return growing split: option.split reply.split)
qed

lemma node_of_name: "getInstanceNode i n = Some p \<Longrightarrow> fst p \<in> fst ` set (i_Nodes i)"
  by (auto simp: getInstanceNode_def find_Some_iff dest!: nth_mem intro: rev_image_eqI)

lemma finds_node:
  assumes "a < length (rt_heap (rt w))" and "k \<in> set (keys_at a (rt w))"
  shows "finds_nodes w (node_reset op i l a k w)" "finds_nodes w (node_call op i l a k err w)"
    "finds_nodes w (node_fetch op i l a k lines c w)"
proof -
  have ok: "node_ok r (NodeCall op i l a k) \<and> node_ok r (NodeFetch op i l a k) \<and> node_ok r (ListenerStart i a k True)"
    if "grows (rt w) r" for r
    using that assms by (auto simp: grows_def)
  show "finds_nodes w (node_reset op i l a k w)"
    by (auto simp: node_reset_def Let_def intro!: finds_goto conjunct1 [OF ok] growing split: option.split)
  show "finds_nodes w (node_call op i l a k err w)"
    using ok by (auto simp: node_call_def intro!: finds_goto finds_return growing split: option.split)
  have "grows (rt w) (rt (unlock a (on_rt (\<lambda>r. send_update u (snd (fetch_node a k c r))) (log_to_instance a lines w))))" for u
    by (auto intro!: growing)
  with ok show "finds_nodes w (node_fetch op i l a k lines c w)"
    by (auto simp: node_fetch_def Let_def finds_nodes_def)
qed

lemma finds_node_command: "finds_nodes w (node_command E op i n u w)"
  by (auto simp: node_command_def intro!: finds_plain split: sum.split)

lemma finds_node_try:
  assumes "a < length (rt_heap (rt w))"
  shows "finds_nodes w (node_try tid op i l a m w)"
proof (cases "i_OpMutex (inst a w) \<noteq> None \<or> node_refused op (inst a w) m \<noteq> None")
  case True
  then show ?thesis by (auto simp: node_try_def intro!: finds_plain)
next
  case False
  then obtain p where p: "getInstanceNode (inst a w) m = Some p"
    by (auto simp: node_refused_def split: option.splits)
  then have "fst p \<in> set (keys_at a (rt w))" using node_of_name [OF p] by (simp add: keys_at_def)
  moreover have "grows (rt w) (rt (lock tid a w))" by (intro growing) simp
  ultimately show ?thesis
    using assms False p
    by (auto simp: node_try_def Let_def intro!: finds_at [of a w "fst p"] growing)
qed

lemma finds_listener:
  assumes "a < length (rt_heap (rt w)) \<and> k \<in> set (keys_at a (rt w))"
  shows "finds_nodes w (listener_start i a k b w)" "finds_nodes w (listener_probe i a k b c d r w)"
    "finds_nodes w (listener_pause i a k b c d y w)" "finds_nodes w (listener_stream i a k c e lines err w)"
    "finds_nodes w (listener_outcome i a k c e w)" "finds_nodes w (onNodeStarted C i a k c ifs w)"
proof -
  note [intro!] = finds_at [OF assms] finds_at [OF assms, where p = "Finished None"] growing
  show "finds_nodes w (listener_start i a k b w)" "finds_nodes w (listener_probe i a k b c d r w)"
    "finds_nodes w (listener_pause i a k b c d y w)" "finds_nodes w (listener_outcome i a k c e w)"
    by (auto simp: listener_start_def listener_probe_def listener_waited_def listener_pause_def listener_outcome_def
        split: probe.split reply.split option.split)
  show "finds_nodes w (listener_stream i a k c e lines err w)" "finds_nodes w (onNodeStarted C i a k c ifs w)"
    by (auto simp: listener_stream_def onNodeStarted_def Let_def split: option.split)
qed

lemma finds_event: "finds_nodes w (event_start n y w)" "finds_nodes w (event_fetch i a k c w)"
proof -
  show "finds_nodes w (event_start n y w)"
    by (auto simp: event_start_def Let_def intro!: finds_plain split: reply.split option.split)
  have "grows (rt w) (case fetch_node a k c (rt w) of (changed, r) \<Rightarrow> if changed then send_update (Some i) r else r)"
    using grows_fetch [of "rt w" "rt w" a k c] by (auto intro!: growing split: prod.split)
  then show "finds_nodes w (event_fetch i a k c w)"
    by (auto simp: event_fetch_def intro!: finds_plain)
qed

lemmas finds_all = finds_deploy finds_deploy_start finds_inspected finds_stream finds_destroy finds_node
  finds_node_command finds_node_try finds_listener finds_event

lemma finds_step:
  assumes "phase_ok (life_of (rt w)) (phase_of p)" and "node_ok (rt w) p"
  shows "finds_nodes w (thread_step E C tid y p w)"
  using assms by (cases p) (auto intro!: finds_all split: reply.split)

text \<open>In a reachable state every thread finds the nodes it works on.\<close>

definition all_found :: "pc list \<times> ('db, 'h) server \<Rightarrow> bool" where
  "all_found s \<longleftrightarrow> (\<forall>p \<in> set (fst s). node_ok (rt (snd s)) p)"

lemma all_found_grows: "grows (rt w) (rt w') \<Longrightarrow> all_found (ths, w) \<Longrightarrow> all_found (ths, w')"
  using node_ok_grows by (auto simp: all_found_def)

lemma heap_of_monitor [simp]:
  "rt_heap (RemoveNode k r) = rt_heap r" "rt_heap (monitor_reading k err r) = rt_heap r"
  "rt_heap (monitor_Close ks r) = rt_heap r"
proof -
  show r: "rt_heap (RemoveNode k r) = rt_heap r" for k r by (simp add: RemoveNode_def release_def)
  show "rt_heap (monitor_reading k err r) = rt_heap r" by (simp add: monitor_reading_def r split: option.split)
  show "rt_heap (monitor_Close ks r) = rt_heap r" unfolding monitor_Close_def by (induction ks arbitrary: r) (simp_all add: r)
qed

lemma heap_of_Close [simp]: "rt_heap (instance_Close keys cs r) = rt_heap r"
proof -
  have "rt_heap (close_instance k r) = rt_heap r" for k r
    by (simp add: close_instance_def release_def cancel_deployment_def split: option.split)
  then have "rt_heap (fold close_instance keys r) = rt_heap r" for r by (induction keys arbitrary: r) simp_all
  then show ?thesis by (simp add: instance_Close_def release_def)
qed

lemma startable_ok: "startable p \<Longrightarrow> node_ok r p"
  by (cases p) auto

lemma all_found_heap: "rt_heap (rt w') = rt_heap (rt w) \<Longrightarrow> all_found (ths, w) \<Longrightarrow> all_found (ths, w')"
  by (rule all_found_grows [OF grows_heap])

lemma all_found_step:
  assumes "sys_step E C s s'" and "all_found s" and "\<forall>t. phase_ok (life_of (rt (snd s))) (phases (fst s) t)"
  shows "all_found s'"
  using assms(1)
proof cases
  case (thread t ths y w p new w')
  have "phase_ok (life_of (rt w)) (phase_of (ths ! t))"
    using assms(3) thread(1,3) by (metis fst_conv snd_conv phases_def)
  moreover have "node_ok (rt w) (ths ! t)" using assms(2) thread by (simp add: all_found_def)
  ultimately have f: "finds_nodes w (Some (p, new, w'))" using thread(4) finds_step by metis
  with assms(2) thread(1) all_found_grows have "all_found (ths, w')" by (auto simp: finds_nodes_def)
  with f show ?thesis
    unfolding thread(2) by (auto simp: all_found_def finds_nodes_def dest: set_update_subset_insert [THEN subsetD])
next
  case (begins p ths w)
  then show ?thesis using assms(2) startable_ok by (auto simp: all_found_def)
next
  case (services w' w ths)
  then show ?thesis using assms(2) by (simp add: all_found_def)
next
  case (monitored ths w containerId err)
  then show ?thesis using assms(2) all_found_heap [of "on_rt (monitor_reading containerId err) w" w] by simp
next
  case (node_log ths w ns line)
  then show ?thesis using assms(2) all_found_heap [of "on_rt (send_log ns line) w" w] by (simp add: send_log_def)
next
  case (closed keys w ths containerIds)
  then show ?thesis using assms(2) all_found_heap [of "on_rt (instance_Close keys containerIds) w" w] by simp
qed

lemma map_fst_apsnd: "fst ` set (map (apsnd f) xs) = fst ` set xs"
  by (induction xs) auto

lemma revive_found_found:
  assumes "all_found s"
  shows "all_found (revive_found E C cs savedLab d s)"
proof -
  obtain ths w where s: "s = (ths, w)" by fastforce
  let ?w = "on_rt (create_namespace [''logs'', lab_UUID savedLab] (cfg_ClabLogBacklog C)) w"
  obtain res r where c: "createNodesFromTopology C d (lab_UUID savedLab) (rt ?w) = (res, r)" by fastforce
  have h: "rt_heap r = rt_heap (rt w)"
    using c heap_of_nodes by (fastforce simp: create_namespace_def)
  have old: "rt_heap r' = rt_heap r @ is \<Longrightarrow> p \<in> set ths \<Longrightarrow> node_ok r' p" for r' "is" p
    using assms h s node_ok_grows [OF grows_append] by (simp add: all_found_def)
  have new: "p \<in> set (revived_listeners l (length (rt_heap r)) ns) \<Longrightarrow> rt_heap r' = rt_heap r @ [i] \<Longrightarrow> i_Nodes i = ns
      \<Longrightarrow> node_ok r' p" for p l ns r' i
    by (force simp: revived_listeners_def keys_at_def)
  show ?thesis
  proof (cases res)
    case (Inl e)
    then have "revive_found E C cs savedLab d s = (ths, on_rt (\<lambda>_. r) ?w)"
      using c s by (simp add: revive_found_def)
    with all_found_heap [of "on_rt (\<lambda>_. r) ?w" w ths] h assms s show ?thesis by simp
  next
    case (Inr ns)
    let ?ns = "map (apsnd (revived_node cs)) ns"
    obtain i w' where i: "i_Nodes i = ?ns" and h': "rt_heap (rt w') = rt_heap r @ [i]"
      and run: "revive_found E C cs savedLab d s = (ths @ revived_listeners (lab_UUID savedLab) (length (rt_heap r)) ?ns, w')"
      using c s Inr by (force simp: revive_found_def Let_def revived_instance_def)
    show ?thesis unfolding run using old [OF h'] new [OF _ h' i] by (auto simp: all_found_def)
  qed
qed

lemma revive_lab_found: "all_found s \<Longrightarrow> all_found (revive_lab E C result savedLab s)"
  by (cases s) (auto simp: revive_lab_def revive_found_found intro: all_found_heap [rotated]
      split: option.split sum.split prod.split)

lemma heap_of_update: "rt_heap (send_update u r) = rt_heap r"
  by (simp add: send_update_def)

lemma revive_all_found:
  assumes "Revive E C inspected w = Some s"
  shows "all_found s"
proof -
  have "all_found (fold (revive_lab E C result) labs ([], w))" for result labs
    by (rule fold_invariant [where Q = "\<lambda>_. True" and P = all_found, rotated])
      (simp_all add: revive_lab_found, simp add: all_found_def)
  moreover obtain result labs where "s = apsnd (on_rt (send_update None)) (fold (revive_lab E C result) labs ([], w))"
    using assms unfolding Revive_def reviveInstances_def by (simp split: sum.splits) (metis apsnd_conv)
  moreover obtain ths w' where "fold (revive_lab E C result) labs ([], w) = (ths, w')" by fastforce
  ultimately show ?thesis
    using all_found_heap [of "on_rt (send_update None) w'" w' ths] by (metis apsnd_conv heap_of_update rt_on_rt)
qed

lemma sys_found: "sys_reach E C s \<Longrightarrow> all_found s"
proof (induction rule: sys_reach.induct)
  case (revived w inspected s)
  then show ?case by (simp add: revive_all_found)
next
  case (step s s')
  have "life_inv (phases (fst s)) (life_of (rt (snd s)))" using sys_inv step.hyps(1) by (metis prod.collapse)
  then have "\<forall>t. phase_ok (life_of (rt (snd s))) (phases (fst s) t)" unfolding life_inv_def wf_life_def by blast
  from all_found_step [OF step.hyps(2) step.IH this] show ?case .
qed

section \<open>Who can go on\<close>

text \<open>The instance whose mutex a thread waits for.\<close>

fun waits_for :: "pc \<Rightarrow> nat option" where
  "waits_for (DeployWait l a b c) = Some a"
| "waits_for (DestroyWait l a) = Some a"
| "waits_for _ = None"

definition can_step :: "('db, 'node, 'h) env \<Rightarrow> inst_config \<Rightarrow> nat \<Rightarrow> pc \<Rightarrow> ('db, 'h) server \<Rightarrow> bool" where
  "can_step E C t p w \<longleftrightarrow> (\<exists>y. thread_step E C t y p w \<noteq> None)"

lemma possible [simp]: "\<exists>q new w'. goto p w = Some (q, new, w')" "\<exists>q new w'. return_unlocked a e w = Some (q, new, w')"
  by (simp_all add: goto_def return_unlocked_def)

lemma possible_deploy [simp]:
  "deploy_command E l u w \<noteq> None" "deploy_start E C x w \<noteq> None" "deploy_context x a b w \<noteq> None"
  "deploy_begin E x a b c w \<noteq> None" "deploy_call E x a c lines err w \<noteq> None"
  "deploy_inspect E x a c lines cs w \<noteq> None" "deploy_inspected x a c w \<noteq> None" "deploy_done E x a w \<noteq> None"
  by (auto simp: deploy_defs Let_def split: option.splits sum.splits prod.splits)

lemma possible_destroy [simp]:
  "destroy_command E l u w \<noteq> None" "destroy_start x w \<noteq> None" "destroy_cancel x a w \<noteq> None"
  "destroy_begin E x a w \<noteq> None" "destroy_call E x a lines err w \<noteq> None" "destroy_mark x a w \<noteq> None"
  "destroy_remove E x a w \<noteq> None"
  by (auto simp: destroy_defs Let_def split: option.splits sum.splits)

lemma possible_node [simp]:
  "node_command E op i n u w \<noteq> None" "node_try t op i l a m w \<noteq> None" "node_call op i l a k err w \<noteq> None"
  "node_fetch op i l a k lines c w \<noteq> None" "event_fetch i a k c w \<noteq> None"
  by (auto simp: node_defs event_fetch_def Let_def split: option.splits sum.splits)

lemma possible_listener [simp]:
  "listener_start i a k b w \<noteq> None" "listener_probe i a k b c d r w \<noteq> None"
  "listener_pause i a k b c d TimerFired w \<noteq> None" "listener_outcome i a k c e w \<noteq> None"
  by (auto simp: listener_start_def listener_probe_def listener_pause_def listener_outcome_def
      split: option.splits)

lemma node_there: "k \<in> set (keys_at a r) \<Longrightarrow> \<exists>n. map_of (i_Nodes (rt_heap r ! a)) k = Some n"
  by (auto simp: keys_at_def dest: weak_map_of_SomeI)

lemma can_step_event: "can_step E C t (EventStart n) w"
proof (cases "some_instance_has n w")
  case True
  then obtain l a where "rt_instances (rt w) l = Some a" "has_node n a w" by (auto simp: some_instance_has_def)
  then have "thread_step E C t (Chosen l) (EventStart n) w \<noteq> None" by (simp add: event_start_def)
  then show ?thesis unfolding can_step_def by blast
next
  case False
  then have "thread_step E C t Silent (EventStart n) w \<noteq> None" by (simp add: event_start_def)
  then show ?thesis unfolding can_step_def by blast
qed

lemma can_step_stream:
  assumes "node_ok (rt w) (DeployStream l a c ks)"
  shows "can_step E C t (DeployStream l a c ks) w"
proof (cases ks)
  case Nil
  then have "thread_step E C t Silent (DeployStream l a c ks) w \<noteq> None" by (simp add: deploy_stream_def)
  then show ?thesis unfolding can_step_def by blast
next
  case (Cons k ks')
  with assms obtain n where n: "map_of (i_Nodes (inst a w)) k = Some n" using node_there by fastforce
  show ?thesis
  proof (cases "n_State n = NodeStopped")
    case True
    with Cons n have "thread_step E C t Silent (DeployStream l a c ks) w \<noteq> None" by (simp add: deploy_stream_def)
    then show ?thesis unfolding can_step_def by blast
  next
    case False
    with Cons n have "thread_step E C t (ProviderDone [] None) (DeployStream l a c ks) w \<noteq> None"
      by (simp add: deploy_stream_def Let_def)
    then show ?thesis unfolding can_step_def by blast
  qed
qed

text \<open>A reply with which a thread can go on, whatever the state, where it does not depend on the state.\<close>

fun some_reply :: "pc \<Rightarrow> reply" where
  "some_reply (DeployCall l a c) = ProviderDone [] None"
| "some_reply (DeployInspect l a c) = LabInspected [] (Inr [])"
| "some_reply (DestroyCall l a) = ProviderDone [] None"
| "some_reply (NodeCall op i l a k) = ProviderDone [] None"
| "some_reply (NodeFetch op i l a k) = NodeInspected [] (Inl (Foreign []))"
| "some_reply (ListenerProbe i a k b c d) = ProbeDone (Inr ([], 0))"
| "some_reply (ListenerPause i a k b c d) = TimerFired"
| "some_reply (ListenerStream i a k c e) = ProviderDone [] None"
| "some_reply (ListenerInterfaces i a k c) = InterfacesRead (Inr [])"
| "some_reply (EventFetch i a k) = NodeInspected [] (Inl (Foreign []))"
| "some_reply _ = Silent"

lemma step_or_wait:
  assumes "node_ok (rt w) p" and "\<not> (\<exists>e. p = Finished e)"
    and "\<forall>a. waits_for p = Some a \<longrightarrow> i_OpMutex (inst a w) = None"
  shows "can_step E C t p w"
proof (cases "(\<exists>n. p = EventStart n) \<or> (\<exists>l a c ks. p = DeployStream l a c ks)")
  case True
  then show ?thesis
  proof (elim disjE exE)
    fix n assume "p = EventStart n"
    then show ?thesis by (simp add: can_step_event)
  next
    fix l a c ks assume p: "p = DeployStream l a c ks"
    show ?thesis using can_step_stream assms(1) unfolding p by blast
  qed
next
  case False
  have "thread_step E C t (some_reply p) p w \<noteq> None"
  proof (cases p)
    case (NodeReset op i l a k)
    then show ?thesis using assms(1) node_there [of k a "rt w"] by (auto simp: node_reset_def)
  next
    case (ListenerStream i a k c e)
    then show ?thesis using assms(1) node_there [of k a "rt w"] by (auto simp: listener_stream_def Let_def)
  next
    case (ListenerInterfaces i a k c)
    then show ?thesis using assms(1) node_there [of k a "rt w"] by (auto simp: onNodeStarted_def Let_def)
  qed (use assms False in \<open>simp_all add: deploy_wait_def destroy_wait_def\<close>)
  then show ?thesis unfolding can_step_def by blast
qed

lemma holders_do_not_wait: "holds a (phase_of p) \<Longrightarrow> waits_for p = None \<and> \<not> (\<exists>e. p = Finished e)"
  by (cases p) auto

text \<open>C9: The service cannot come to a deadlock. In every reachable state, each thread that is not finished
  can make its next step, for some answer of the provider or of a timer, or it waits for the mutex
  of an instance, and the thread that holds this mutex can make its next step.\<close>

theorem no_deadlock:
  assumes "sys_reach E C (ths, w)" and "t < length ths" and "\<not> (\<exists>e. ths ! t = Finished e)"
  shows "can_step E C t (ths ! t) w
    \<or> (\<exists>a t'. waits_for (ths ! t) = Some a \<and> t' < length ths \<and> operating a (ths ! t')
         \<and> can_step E C t' (ths ! t') w)"
proof (cases "\<exists>a. waits_for (ths ! t) = Some a \<and> i_OpMutex (inst a w) \<noteq> None")
  case False
  then have "\<forall>a. waits_for (ths ! t) = Some a \<longrightarrow> i_OpMutex (inst a w) = None" by blast
  moreover have "node_ok (rt w) (ths ! t)" using sys_found [OF assms(1)] assms(2) by (simp add: all_found_def)
  ultimately show ?thesis using step_or_wait assms(3) by blast
next
  case True
  then obtain a t' where wait: "waits_for (ths ! t) = Some a" and m: "i_OpMutex (inst a w) = Some t'" by auto
  have inv: "life_inv (phases ths) (life_of (rt w))" by (rule sys_inv [OF assms(1)])
  then have "phase_ok (life_of (rt w)) (phases ths t)" by (simp add: life_inv_def wf_life_def)
  then have a: "a < length (rt_heap (rt w))"
    using wait assms(2) by (cases "ths ! t") (auto simp: phases_def)
  have h: "holds a (phases ths t')" using inv a m by (auto simp: life_inv_def mutexes_def)
  then have t': "t' < length ths" by (auto simp: phases_def split: if_splits)
  with h have h': "holds a (phase_of (ths ! t'))" by (simp add: phases_def)
  have "node_ok (rt w) (ths ! t')" using sys_found [OF assms(1)] t' by (simp add: all_found_def)
  then have "can_step E C t' (ths ! t') w" by (rule step_or_wait) (use holders_do_not_wait [OF h'] in auto)
  with wait t' h' show ?thesis by (auto simp: operating_def)
qed

theorem no_deadlock_witness:
  "\<exists>ths w. sys_reach demo_lab_env demo_config (ths, w) \<and> waits_for (ths ! 1) = Some 0
     \<and> (can_step demo_lab_env demo_config 1 (ths ! 1) w
       \<or> (\<exists>a t'. waits_for (ths ! 1) = Some a \<and> t' < length ths \<and> operating a (ths ! t')
            \<and> can_step demo_lab_env demo_config t' (ths ! t') w))"
proof -
  have "ends_in demo_start [DeployStart demo_lab, DeployStart demo_lab] two_deployments
    (\<lambda>ths w. length ths = 2 \<and> waits_for (ths ! 1) = Some 0)"
    by code_simp
  from ends_in_reach [OF this demo_start_reach] obtain ths w where s: "sys_reach demo_lab_env demo_config (ths, w)"
    "length ths = 2" "waits_for (ths ! 1) = Some 0" by auto
  then have "\<not> (\<exists>e. ths ! 1 = Finished e)" by auto
  from no_deadlock [OF s(1) _ this] s(2) have "can_step demo_lab_env demo_config 1 (ths ! 1) w
       \<or> (\<exists>a t'. waits_for (ths ! 1) = Some a \<and> t' < length ths \<and> operating a (ths ! t')
            \<and> can_step demo_lab_env demo_config t' (ths ! t') w)" by simp
  with s(1,3) show ?thesis by blast
qed

end
