(* ===== verification/Instance_Behaviour.thy ===== *)
theory Instance_Behaviour
  imports Instance_Refinement Instance_Runs
begin

text \<open>
  What single operations of the instance service do: a deployment and a destruction that run alone, the
  commands for nodes, the questions of other services; and two runs in which operations disturb each
  other.
\<close>

section \<open>Fields of an instance\<close>

lemma inst_same [simp]: "a < length (rt_heap r) \<Longrightarrow> rt_heap (on_inst a f r) ! a = f (rt_heap r ! a)"
  by (simp add: on_inst_def)

lemma on_inst_fields [simp]:
  "rt_instances (on_inst a f r) = rt_instances r" "rt_cancelled (on_inst a f r) = rt_cancelled r"
  "rt_ctxs (on_inst a f r) = rt_ctxs r" "rt_calls (on_inst a f r) = rt_calls r"
  "length (rt_heap (on_inst a f r)) = length (rt_heap r)"
  by (simp_all add: on_inst_def)

lemma outputs_calls [simp]:
  "rt_calls (send_update u r) = rt_calls r" "rt_calls (send_log ns m r) = rt_calls r"
  "rt_calls (release ns r) = rt_calls r" "rt_calls (create_namespace ns n r) = rt_calls r"
  "rt_calls (send_logs ns ls r) = rt_calls r"
proof -
  show *: "rt_calls (send_update u r) = rt_calls r" "rt_calls (send_log ns m r) = rt_calls r" for r m
    by (simp_all add: send_update_def send_log_def)
  show "rt_calls (send_logs ns ls r) = rt_calls r"
    unfolding send_logs_def by (induction ls arbitrary: r) (simp_all add: *)
qed (simp_all add: release_def create_namespace_def)

lemma rt_of_send_update:
  "rt_instances (rt (sendLabUpdate E lab sev content parts ns w)) = rt_instances (rt w)"
  "rt_cancelled (rt (sendLabUpdate E lab sev content parts ns w)) = rt_cancelled (rt w)"
  "rt_ctxs (rt (sendLabUpdate E lab sev content parts ns w)) = rt_ctxs (rt w)"
  "rt_calls (rt (sendLabUpdate E lab sev content parts ns w)) = rt_calls (rt w)"
proof -
  obtain m w' where s: "send_status E sev ''Runtime'' content parts (on_rt (send_update (Some (lab_UUID lab))) w) = (m, w')"
    by fastforce
  then have "rt w' = send_update (Some (lab_UUID lab)) (rt w)" by (metis rt_services(1) rt_on_rt snd_conv)
  with s show "rt_instances (rt (sendLabUpdate E lab sev content parts ns w)) = rt_instances (rt w)"
    "rt_cancelled (rt (sendLabUpdate E lab sev content parts ns w)) = rt_cancelled (rt w)"
    "rt_ctxs (rt (sendLabUpdate E lab sev content parts ns w)) = rt_ctxs (rt w)"
    "rt_calls (rt (sendLabUpdate E lab sev content parts ns w)) = rt_calls (rt w)"
    by (simp_all add: sendLabUpdate_def split: sum.split option.split)
qed

lemma update_fields [simp]:
  "rt_instances (rt (updateLabAndSendUpdate E lab a s sev content parts w)) = rt_instances (rt w)"
  "rt_cancelled (rt (updateLabAndSendUpdate E lab a s sev content parts w)) = rt_cancelled (rt w)"
  "rt_ctxs (rt (updateLabAndSendUpdate E lab a s sev content parts w)) = rt_ctxs (rt w)"
  "rt_calls (rt (updateLabAndSendUpdate E lab a s sev content parts w)) = rt_calls (rt w)"
  "rt_heap (rt (updateLabAndSendUpdate E lab a s sev content parts w))
    = rt_heap (on_inst a (\<lambda>i. i\<lparr>i_State := s, i_LatestStateChange := w_now w\<rparr>) (rt w))"
  by (simp_all add: updateLabAndSendUpdate_def rt_of_send_update rt_send_lab_update)

lemma lock_fields [simp]:
  "rt (lock t a w) = on_inst a (\<lambda>i. i\<lparr>i_OpMutex := Some t\<rparr>) (rt w)"
  "rt (unlock a w) = on_inst a (\<lambda>i. i\<lparr>i_OpMutex := None\<rparr>) (rt w)"
  by (simp_all add: lock_def unlock_def)

lemma log_fields [simp]: "rt (log_to_instance a ls w) = send_logs (i_LogNamespace (inst a w)) ls (rt w)"
  by (simp add: log_to_instance_def)

lemma on_nodes_fields [simp]:
  "i_State (on_nodes f i) = i_State i" "i_OpMutex (on_nodes f i) = i_OpMutex i"
  "i_Nodes (on_nodes f i) = map (apsnd f) (i_Nodes i)" "i_IsDestroyed (on_nodes f i) = i_IsDestroyed i"
  "i_TopologyFile (on_nodes f i) = i_TopologyFile i" "i_LogNamespace (on_nodes f i) = i_LogNamespace i"
  "i_DeploymentCancel (on_nodes f i) = i_DeploymentCancel i" "i_Name (on_nodes f i) = i_Name i"
  by (simp_all add: on_nodes_def)

section \<open>A deployment that fails\<close>

text \<open>When the provider fails to deploy a lab and the deployment was not cancelled, the command returns the
  provider error, the instance stays in the state failed with all its nodes stopped, the next operation
  can have its mutex, and the lab may be deleted. A deployment that was cancelled returns without an
  error and changes nothing but the mutex and the log.\<close>

theorem failed_deployment:
  assumes "a < length (rt_heap (rt w))" and "rt_instances (rt w) (lab_UUID lab) = Some a"
    and "deploy_call E lab a ctx lines (Some err) w = Some (p, new, w')"
  shows "new = [] \<and> i_OpMutex (inst a w') = None \<and> rt_instances (rt w') = rt_instances (rt w)
    \<and> (if ctx \<in> rt_cancelled (rt w)
       then p = Finished None \<and> i_Nodes (inst a w') = i_Nodes (inst a w) \<and> i_State (inst a w') = i_State (inst a w)
       else p = Finished (Some (Sentinel ErrProvider)) \<and> i_State (inst a w') = InstFailed
         \<and> (\<forall>(k, n) \<in> set (i_Nodes (inst a w')). n_State n = NodeStopped) \<and> CanDelete (lab_UUID lab) (rt w'))"
  using assms by (auto simp: deploy_call_def return_unlocked_def goto_def CanDelete_def split: if_splits)

text \<open>The running lab \<open>l1\<close>.\<close>

lemma demo_running:
  "\<exists>w n. sys_reach demo_lab_env demo_config ([ListenerStart ''l1'' 0 ''r1'' False], w) \<and> rt_instances (rt w) ''l1'' = Some 0
     \<and> length (rt_heap (rt w)) = 1 \<and> i_Nodes (inst 0 w) = [(''r1'', n)] \<and> n_Name n = ''r1'' \<and> n_State n = NodeRunning
     \<and> i_State (inst 0 w) = InstRunning \<and> i_OpMutex (inst 0 w) = None \<and> i_Name (inst 0 w) = ''net-1''
     \<and> lab_GetByUuid memory_database ''l1'' (w_db w) = Inr demo_lab"
proof -
  have "ends_in demo_revived [] [] (\<lambda>ths w. ths = [ListenerStart ''l1'' 0 ''r1'' False] \<and> rt_instances (rt w) ''l1'' = Some 0
     \<and> length (rt_heap (rt w)) = 1 \<and> i_State (inst 0 w) = InstRunning \<and> i_OpMutex (inst 0 w) = None
     \<and> i_Name (inst 0 w) = ''net-1'' \<and> lab_GetByUuid memory_database ''l1'' (w_db w) = Inr demo_lab
     \<and> map (\<lambda>(k, n). (k, n_Name n, n_State n)) (i_Nodes (inst 0 w)) = [(''r1'', ''r1'', NodeRunning)])"
    by code_simp
  from ends_in_reach [OF this demo_revived_reach]
  obtain w where w: "sys_reach demo_lab_env demo_config ([ListenerStart ''l1'' 0 ''r1'' False], w)"
    "rt_instances (rt w) ''l1'' = Some 0" "length (rt_heap (rt w)) = 1" "i_State (inst 0 w) = InstRunning"
    "i_OpMutex (inst 0 w) = None" "i_Name (inst 0 w) = ''net-1''" "lab_GetByUuid memory_database ''l1'' (w_db w) = Inr demo_lab"
    and n: "map (\<lambda>(k, n). (k, n_Name n, n_State n)) (i_Nodes (inst 0 w)) = [(''r1'', ''r1'', NodeRunning)]"
    by auto
  from n obtain n where "i_Nodes (inst 0 w) = [(''r1'', n)]" "n_Name n = ''r1''" "n_State n = NodeRunning" by auto
  with w show ?thesis by blast
qed

lemma demo_lab_id [simp]: "lab_UUID demo_lab = ''l1''" "lab_InstanceName demo_lab = ''net-1''"
  by (simp_all add: demo_lab_def)

lemma demo_lab_database: "e_database demo_lab_env = memory_database"
  by (simp add: demo_lab_env_def)

theorem failed_deployment_witness:
  "\<exists>(w :: (memory, string) server) p w'. deploy_call demo_lab_env demo_lab 0 1 [] (Some (Foreign ''x'')) w = Some (p, [], w')
     \<and> i_OpMutex (inst 0 w') = None \<and> rt_instances (rt w') ''l1'' = Some 0"
proof -
  obtain w :: "(memory, string) server" where w: "rt_instances (rt w) ''l1'' = Some 0" "length (rt_heap (rt w)) = 1" using demo_running by blast
  obtain p new w' where d: "deploy_call demo_lab_env demo_lab 0 1 [] (Some (Foreign ''x'')) w = Some (p, new, w')"
    by (cases "(1 :: nat) \<in> rt_cancelled (rt w)") (auto simp: deploy_call_def return_unlocked_def goto_def)
  with failed_deployment [OF _ _ d] w
  have "new = []" "i_OpMutex (inst 0 w') = None" "rt_instances (rt w') ''l1'' = Some 0" by auto
  with d show ?thesis by blast
qed

section \<open>A node that does not stop\<close>

lemma find_on_names:
  "(\<And>x. n_Name (f x) = n_Name x) \<Longrightarrow> find (\<lambda>(_, n). n_Name n = m) (map (\<lambda>(k', n). (k', if k' = k then f n else n)) xs)
    = map_option (\<lambda>(k', n). (k', if k' = k then f n else n)) (find (\<lambda>(_, n). n_Name n = m) xs)"
  by (induction xs) auto

lemma named_after_reset:
  "getInstanceNode i m = Some (k, n) \<Longrightarrow> getInstanceNode (on_node k Reset i) m = Some (k, Reset n)"
  by (simp add: getInstanceNode_def on_node_def find_on_names Reset_def)

lemma map_of_on_node: "map_of (i_Nodes (on_node k f i)) k = map_option f (map_of (i_Nodes i) k)"
proof -
  have "map_of (map (\<lambda>(k', n). (k', if k' = k then f n else n)) xs) k = map_option f (map_of xs k)" for xs
    by (induction xs) auto
  then show ?thesis by (simp add: on_node_def)
qed

text \<open>A stop or restart that the provider refuses leaves the node in the state stopping, without its
  addresses and its container, and from then on every start, stop and restart of the node is refused: only
  a redeployment or the inspection after an event of the provider can change it.\<close>

theorem failed_stop_blocks_node:
  assumes "a < length (rt_heap (rt w))" and "getInstanceNode (inst a w) m = Some (k, n)"
    and "distinct (map fst (i_Nodes (inst a w)))" and "op \<noteq> OpStart"
    and "node_reset op labId lab a k w = Some (p, new, w1)"
    and "node_call op labId lab a k (Some err) w1 = Some (p', new', w2)"
  shows "p' = Finished (Some err) \<and> i_OpMutex (inst a w2) = None
    \<and> map_of (i_Nodes (inst a w2)) k = Some (Reset n)
    \<and> (\<forall>op'. \<exists>err'. node_refused op' (inst a w2) m = Some err')"
proof -
  have k: "map_of (i_Nodes (inst a w)) k = Some n" using assms(2,3)
    by (auto simp: getInstanceNode_def find_Some_iff) (metis nth_mem)
  have w1: "inst a w1 = on_node k Reset (inst a w)" "a < length (rt_heap (rt w1))"
    using assms(1,5) k by (auto simp: node_reset_def goto_def Let_def)
  have w2: "inst a w2 = (inst a w1)\<lparr>i_OpMutex := None\<rparr>" "p' = Finished (Some err)"
    using assms(6) w1(2) by (auto simp: node_call_def return_unlocked_def goto_def)
  have "getInstanceNode (inst a w2) m = Some (k, Reset n)"
    using named_after_reset [OF assms(2)] w1(1) w2(1) by (simp add: getInstanceNode_def)
  then have "\<exists>err'. node_refused op' (inst a w2) m = Some err'" for op'
    by (cases op') (auto simp: node_refused_def Reset_def)
  moreover have "map_of (i_Nodes (inst a w2)) k = Some (Reset n)"
    using k by (simp add: w2(1) w1(1) map_of_on_node)
  ultimately show ?thesis using w2 by simp
qed

theorem failed_stop_blocks_node_witness:
  "\<exists>(w :: (memory, string) server) w1 w2 n. node_reset OpStop ''l1'' demo_lab 0 ''r1'' w = Some (NodeCall OpStop ''l1'' demo_lab 0 ''r1'', [], w1)
     \<and> node_call OpStop ''l1'' demo_lab 0 ''r1'' (Some (Foreign ''x'')) w1 = Some (Finished (Some (Foreign ''x'')), [], w2)
     \<and> map_of (i_Nodes (inst 0 w2)) ''r1'' = Some (Reset n)"
proof -
  obtain w :: "(memory, string) server" and n where w: "length (rt_heap (rt w)) = 1" "i_Nodes (inst 0 w) = [(''r1'', n)]" "n_Name n = ''r1''"
    using demo_running by blast
  then obtain w1 where 1: "node_reset OpStop ''l1'' demo_lab 0 ''r1'' w = Some (NodeCall OpStop ''l1'' demo_lab 0 ''r1'', [], w1)"
    by (simp add: node_reset_def goto_def)
  obtain w2 where 2: "node_call OpStop ''l1'' demo_lab 0 ''r1'' (Some (Foreign ''x'')) w1 = Some (Finished (Some (Foreign ''x'')), [], w2)"
    by (simp add: node_call_def return_unlocked_def goto_def)
  have g: "getInstanceNode (inst 0 w) ''r1'' = Some (''r1'', n)" using w(2,3) by (simp add: getInstanceNode_def)
  from failed_stop_blocks_node [OF _ g _ _ 1 2] w have "map_of (i_Nodes (inst 0 w2)) ''r1'' = Some (Reset n)" by simp
  with 1 2 show ?thesis by blast
qed

section \<open>Deleting labs\<close>

text \<open>With the instance service as its runtime, the lab service deletes no lab that is being deployed, running
  or being destroyed: the request is answered with an error and nothing changes.\<close>

theorem lab_with_instance_not_deleted:
  assumes "rt_instances (rt w) labId = Some a" and "i_State (inst a w) \<noteq> InstFailed"
    and "lab_GetByUuid (e_database E) labId (w_db w) = Inr lab" and "lab_UUID lab = labId"
  shows "\<exists>e. lab_service_Delete E (Some instance_service) labId user w = (Inl e, w)
    \<and> (IsAdmin user \<or> UserId user = user_UUID (lab_Creator lab) \<longrightarrow> e = Sentinel ErrLabRunning)"
  using assms by (auto simp: lab_service_Delete_def seq_def ask_def fail_def deleteLab_def may_not_delete_def
      instance_service_def CanDelete_def)

theorem lab_with_instance_not_deleted_witness:
  "\<exists>w. sys_reach demo_lab_env demo_config ([ListenerStart ''l1'' 0 ''r1'' False], w)
     \<and> lab_service_Delete demo_lab_env (Some instance_service) ''l1'' demo_login w = (Inl (Sentinel ErrLabRunning), w)"
proof -
  obtain w where w: "sys_reach demo_lab_env demo_config ([ListenerStart ''l1'' 0 ''r1'' False], w)"
    "rt_instances (rt w) ''l1'' = Some 0" "i_State (inst 0 w) = InstRunning"
    "lab_GetByUuid (e_database demo_lab_env) ''l1'' (w_db w) = Inr demo_lab"
    using demo_running unfolding demo_lab_database by blast
  have "UserId demo_login = user_UUID (lab_Creator demo_lab)" by (simp add: demo_login_def demo_lab_def demo_user_def)
  with lab_with_instance_not_deleted [OF w(2) _ w(4), of demo_login] w(1,3) show ?thesis by auto
qed

section \<open>Who sees a node\<close>

lemma GetInstanceNode_allowed:
  assumes "GetInstanceNode E keys labId instanceName collectionName labName nodeName containerId authUser w = Inr (n, name)"
  shows "\<exists>lab a k.
    ((\<exists>u. lab_GetByUuid (e_database E) u (w_db w) = Inr lab
        \<and> (rt_instances (rt w) u = Some a \<or> rt_instances (rt w) (lab_UUID lab) = Some a))
     \<or> (\<exists>cn ln. lab_GetByCollectionAndName (e_database E) cn ln (w_db w) = Inr lab
        \<and> rt_instances (rt w) (lab_UUID lab) = Some a))
    \<and> map_of (i_Nodes (inst a w)) k = Some n \<and> name = i_Name (inst a w)
    \<and> (\<forall>user. authUser = Some user \<longrightarrow> IsAdmin user \<or> allowed user (coll_Name (lab_Collection lab)))"
proof -
  obtain l a k where loc: "locate_node E keys labId instanceName collectionName labName nodeName containerId w
      = Inr (l, Some a, k)"
    and n: "map_of (i_Nodes (inst a w)) k = Some n" "name = i_Name (inst a w)"
    and ok: "\<forall>lab user. l = Some (Inr lab) \<longrightarrow> authUser = Some user \<longrightarrow>
      IsAdmin user \<or> allowed user (coll_Name (lab_Collection lab))"
    using assms by (auto simp: GetInstanceNode_def split: sum.splits option.splits prod.splits if_splits)
  have "\<exists>lab. l = Some (Inr lab) \<and>
    ((\<exists>u. lab_GetByUuid (e_database E) u (w_db w) = Inr lab
        \<and> (rt_instances (rt w) u = Some a \<or> rt_instances (rt w) (lab_UUID lab) = Some a))
     \<or> (\<exists>cn ln. lab_GetByCollectionAndName (e_database E) cn ln (w_db w) = Inr lab
        \<and> rt_instances (rt w) (lab_UUID lab) = Some a))"
    using loc by (auto simp: locate_node_def locate_by_lab_def Let_def split: option.splits sum.splits)
  with n ok show ?thesis by blast
qed

text \<open>A node of an instance is handed out only together with a lab that was found: the one whose instance it
  belongs to. When a user is given, they are an admin or a member of the collection of that lab.\<close>

theorem node_only_for_members:
  assumes "GetInstanceNode E keys labId instanceName collectionName labName nodeName containerId authUser w = Inr (n, name)"
  shows "\<exists>lab a k.
    ((\<exists>u. lab_GetByUuid (e_database E) u (w_db w) = Inr lab
        \<and> (rt_instances (rt w) u = Some a \<or> rt_instances (rt w) (lab_UUID lab) = Some a))
     \<or> (\<exists>cn ln. lab_GetByCollectionAndName (e_database E) cn ln (w_db w) = Inr lab
        \<and> rt_instances (rt w) (lab_UUID lab) = Some a))
    \<and> map_of (i_Nodes (inst a w)) k = Some n \<and> name = i_Name (inst a w)
    \<and> (\<forall>user. authUser = Some user \<longrightarrow> IsAdmin user \<or> allowed user (coll_Name (lab_Collection lab)))"
  using assms by (rule GetInstanceNode_allowed)

theorem node_only_for_members_witness:
  "\<exists>(w :: (memory, string) server) n. GetInstanceNode demo_lab_env [''l1''] (Some ''l1'') None None None (Some ''r1'') None (Some demo_login) w
      = Inr (n, ''net-1'')
    \<and> (\<exists>lab :: lab. IsAdmin demo_login \<or> allowed demo_login (coll_Name (lab_Collection lab)))"
proof -
  obtain w :: "(memory, string) server" and n where w: "rt_instances (rt w) ''l1'' = Some 0"
    "i_Nodes (inst 0 w) = [(''r1'', n)]" "i_Name (inst 0 w) = ''net-1''"
    "lab_GetByUuid (e_database demo_lab_env) ''l1'' (w_db w) = Inr demo_lab"
    using demo_running unfolding demo_lab_database by blast
  have "allowed demo_login (coll_Name (lab_Collection demo_lab))"
    by (simp add: allowed_def demo_login_def demo_lab_def demo_collection_def)
  with w have g: "GetInstanceNode demo_lab_env [''l1''] (Some ''l1'') None None None (Some ''r1'') None (Some demo_login) w
      = Inr (n, ''net-1'')"
    by (simp add: GetInstanceNode_def locate_node_def locate_by_lab_def)
  from node_only_for_members [OF g] obtain lab :: lab where "IsAdmin demo_login \<or> allowed demo_login (coll_Name (lab_Collection lab))"
    by blast
  with g show ?thesis by blast
qed

section \<open>A deployment that runs alone\<close>

lemma play_head [simp]:
  "play E C ((0, y) # ms) (p # ths, w) =
     (case thread_step E C 0 y p w of
        None \<Rightarrow> None | Some (p', new, w') \<Rightarrow> play E C ms (p' # ths @ new, w'))"
  by (auto split: option.split)

lemma play_append: "play E C (xs @ ys) s = (case play E C xs s of None \<Rightarrow> None | Some s' \<Rightarrow> play E C ys s')"
  by (induction E C xs s rule: play.induct) (auto split: option.split)

lemma play_goto [simp]: "(case goto p w of None \<Rightarrow> None | Some (p', new, w') \<Rightarrow> f p' new w') = f p [] w"
  by (simp add: goto_def)

text \<open>The nodes of a new instance.\<close>

definition starting_nodes :: "inst_config \<Rightarrow> clab_topology \<Rightarrow> string \<Rightarrow> (string \<times> instance_node) list" where
  "starting_nodes C topo labId =
     map (\<lambda>(k, _). (k, (new_node C topo labId k)\<lparr>n_State := NodeStarting\<rparr>)) (ct_Nodes topo)"

text \<open>What the provider answers while the logs of the nodes are opened, if nothing fails.\<close>

definition stream_replies :: "(string \<times> instance_node) list \<Rightarrow> reply list" where
  "stream_replies ns = map (\<lambda>(k, n). if n_State n = NodeStopped then Silent else ProviderDone [] None) ns"

definition started :: "(string \<times> instance_node) list \<Rightarrow> (string \<times> instance_node) list" where
  "started = filter (\<lambda>(k, n). n_State n \<noteq> NodeStopped)"

lemma creates_fields [simp]:
  "rt_instances (fold (\<lambda>(k, _). create_namespace (f k) m) xs r) = rt_instances r"
  "rt_heap (fold (\<lambda>(k, _). create_namespace (f k) m) xs r) = rt_heap r"
  "rt_cancelled (fold (\<lambda>(k, _). create_namespace (f k) m) xs r) = rt_cancelled r"
  "rt_ctxs (fold (\<lambda>(k, _). create_namespace (f k) m) xs r) = rt_ctxs r"
  "rt_calls (fold (\<lambda>(k, _). create_namespace (f k) m) xs r) = rt_calls r"
  by (induction xs arbitrary: r) auto

lemma create_ok:
  assumes "schema_Parse (e_parsers E) txt = Inr (d, raw)" and "td_Topology d = Some topo" and "ct_Nodes topo \<noteq> []"
  shows "\<exists>i w'. createInstance E C name ns defFile txt labId w = (Inr i, w')
    \<and> i_Nodes (on_nodes (\<lambda>n. n\<lparr>n_State := NodeStarting\<rparr>) i) = starting_nodes C topo labId
    \<and> i_Name i = name \<and> i_OpMutex i = None \<and> i_DeploymentCancel i = None \<and> \<not> i_IsDestroyed i
    \<and> i_TopologyFile i = defFile \<and> i_LogNamespace i = ns
    \<and> rt_instances (rt w') = rt_instances (rt w) \<and> rt_heap (rt w') = rt_heap (rt w)
    \<and> rt_cancelled (rt w') = rt_cancelled (rt w) \<and> rt_ctxs (rt w') = rt_ctxs (rt w) \<and> rt_calls (rt w') = rt_calls (rt w)"
  using assms by (auto simp: createInstance_def createNodesFromTopology_def starting_nodes_def)

lemma deploy_begins:
  assumes new: "rt_instances (rt w) (lab_UUID lab) = None"
    and env: "GetRunEnvironment (e_storage E) (lab_UUID lab) (w_fs w) = Inr (txt, defFile)"
    and parse: "schema_Parse (e_parsers E) txt = Inr (d, raw)" "td_Topology d = Some topo" "ct_Nodes topo \<noteq> []"
    and ctxs: "\<forall>c \<in> rt_cancelled (rt w). c < rt_ctxs (rt w)"
  shows "\<exists>w'. play E C (replicate 4 (0, Silent)) ([DeployStart lab], w)
      = Some ([DeployCall lab (length (rt_heap (rt w))) (rt_ctxs (rt w))], w')
    \<and> rt_instances (rt w') = (rt_instances (rt w))(lab_UUID lab \<mapsto> length (rt_heap (rt w)))
    \<and> length (rt_heap (rt w')) = Suc (length (rt_heap (rt w)))
    \<and> i_Nodes (inst (length (rt_heap (rt w))) w') = starting_nodes C topo (lab_UUID lab)
    \<and> i_Name (inst (length (rt_heap (rt w))) w') = lab_InstanceName lab
    \<and> \<not> i_IsDestroyed (inst (length (rt_heap (rt w))) w')
    \<and> rt_ctxs (rt w) \<notin> rt_cancelled (rt w')
    \<and> rt_calls (rt w') = rt_calls (rt w) @ [CallDeploy (rt_ctxs (rt w)) defFile (lab_InstanceName lab)]"
proof -
  let ?ns = "[''logs'', lab_UUID lab]"
  let ?w = "on_rt (create_namespace ?ns (cfg_ClabLogBacklog C)) w"
  obtain i w' where c: "createInstance E C (lab_InstanceName lab) ?ns defFile txt (lab_UUID lab) ?w = (Inr i, w')"
    and i: "i_Nodes (on_nodes (\<lambda>n. n\<lparr>n_State := NodeStarting\<rparr>) i) = starting_nodes C topo (lab_UUID lab)"
      "i_Name i = lab_InstanceName lab" "i_OpMutex i = None" "i_DeploymentCancel i = None" "\<not> i_IsDestroyed i"
      "i_TopologyFile i = defFile"
    and r: "rt_instances (rt w') = rt_instances (rt w)" "rt_heap (rt w') = rt_heap (rt w)"
      "rt_cancelled (rt w') = rt_cancelled (rt w)" "rt_ctxs (rt w') = rt_ctxs (rt w)" "rt_calls (rt w') = rt_calls (rt w)"
    using create_ok [OF parse, where C = C and name = "lab_InstanceName lab" and ns = ?ns and defFile = defFile
        and labId = "lab_UUID lab" and w = ?w] by auto
  have fresh: "rt_ctxs (rt w) \<notin> rt_cancelled (rt w)" using ctxs by blast
  show ?thesis
    using new env c i r fresh
    by (simp add: eval_nat_numeral deploy_start_def Let_def deploy_context_def deploy_wait_def deploy_begin_def
        cancel_deployment_def)
qed

lemma deploy_inspects:
  assumes "a < length (rt_heap (rt w))"
  shows "\<exists>w'. play E C [(0, ProviderDone lines None), (0, LabInspected lines' (Inr cs)), (0, Silent)]
        (DeployCall lab a c # ths, w)
      = Some (DeployStream lab a c (map fst (i_Nodes (inst a w))) # ths, w')
    \<and> rt_instances (rt w') = rt_instances (rt w) \<and> length (rt_heap (rt w')) = length (rt_heap (rt w))
    \<and> i_Nodes (inst a w') = map (apsnd (inspected_node (Some cs))) (i_Nodes (inst a w))
    \<and> i_Name (inst a w') = i_Name (inst a w) \<and> i_IsDestroyed (inst a w') = i_IsDestroyed (inst a w)
    \<and> \<not> i_Recovered (inst a w')
    \<and> rt_cancelled (rt w') = rt_cancelled (rt w) \<and> rt_calls (rt w') = rt_calls (rt w)"
  using assms by (simp add: deploy_call_def deploy_inspect_def deploy_inspected_def Let_def)

lemma deploy_streams:
  assumes "a < length (rt_heap (rt w))" and "\<forall>(k, n) \<in> set ns. map_of (i_Nodes (inst a w)) k = Some n"
  shows "\<exists>w'. play E C (map (Pair 0) (stream_replies ns)) (DeployStream lab a c (map fst ns) # ths, w)
      = Some (DeployStream lab a c [] # ths @ map (\<lambda>(k, n). ListenerStart (lab_UUID lab) a k False) (started ns), w')
    \<and> rt_instances (rt w') = rt_instances (rt w) \<and> rt_heap (rt w') = rt_heap (rt w)
    \<and> rt_calls (rt w') = rt_calls (rt w)
      @ map (\<lambda>(k, n). CallStreamContainerLogs (Some c) (i_Name (inst a w)) (n_Name n)) (started ns)"
  using assms
proof (induction ns arbitrary: ths w)
  case Nil
  then show ?case by (simp add: stream_replies_def started_def)
next
  case (Cons p ns)
  obtain k n where p: "p = (k, n)" by fastforce
  with Cons.prems have n: "map_of (i_Nodes (inst a w)) k = Some n" by simp
  show ?case
  proof (cases "n_State n = NodeStopped")
    case True
    with n p Cons.IH [of w ths] Cons.prems show ?thesis
      by (simp add: stream_replies_def started_def deploy_stream_def)
  next
    case False
    let ?w = "on_rt (\<lambda>r. send_logs (n_LogNamespace n) []
      (r\<lparr>rt_calls := rt_calls r @ [CallStreamContainerLogs (Some c) (i_Name (inst a w)) (n_Name n)]\<rparr>)) w"
    have "thread_step E C 0 (ProviderDone [] None) (DeployStream lab a c (k # map fst ns)) w
        = Some (DeployStream lab a c (map fst ns), [ListenerStart (lab_UUID lab) a k False], ?w)"
      using False n by (simp add: deploy_stream_def)
    with False p Cons.IH [of ?w "ths @ [ListenerStart (lab_UUID lab) a k False]"] Cons.prems show ?thesis
      by (simp add: stream_replies_def started_def)
  qed
qed

lemma deployment_run:
  assumes "rt_instances (rt w) (lab_UUID lab) = None"
    and "GetRunEnvironment (e_storage E) (lab_UUID lab) (w_fs w) = Inr (txt, defFile)"
    and "schema_Parse (e_parsers E) txt = Inr (d, raw)" and "td_Topology d = Some topo" and "ct_Nodes topo \<noteq> []"
    and "distinct (map fst (ct_Nodes topo))"
    and "\<forall>c \<in> rt_cancelled (rt w). c < rt_ctxs (rt w)"
  shows "\<exists>w'. let a = length (rt_heap (rt w)); c = rt_ctxs (rt w);
      ns = map (apsnd (inspected_node (Some cs))) (starting_nodes C topo (lab_UUID lab)) in
    play E C (replicate 4 (0, Silent) @ [(0, ProviderDone lines None), (0, LabInspected lines' (Inr cs)), (0, Silent)]
        @ map (Pair 0) (stream_replies ns) @ replicate 2 (0, Silent)) ([DeployStart lab], w)
      = Some (Finished None # map (\<lambda>(k, n). ListenerStart (lab_UUID lab) a k False) (started ns), w')
    \<and> GetInstance (lab_UUID lab) (rt w') = Some (inst a w')
    \<and> i_State (inst a w') = InstRunning \<and> i_Nodes (inst a w') = ns \<and> i_OpMutex (inst a w') = None
    \<and> rt_calls (rt w') = rt_calls (rt w) @ CallDeploy c defFile (lab_InstanceName lab)
        # map (\<lambda>(k, n). CallStreamContainerLogs (Some c) (lab_InstanceName lab) (n_Name n)) (started ns)"
proof -
  let ?a = "length (rt_heap (rt w))" and ?c = "rt_ctxs (rt w)"
  let ?ns = "map (apsnd (inspected_node (Some cs))) (starting_nodes C topo (lab_UUID lab))"
  obtain w1 where 1: "play E C (replicate 4 (0, Silent)) ([DeployStart lab], w) = Some ([DeployCall lab ?a ?c], w1)"
    and w1: "rt_instances (rt w1) = (rt_instances (rt w))(lab_UUID lab \<mapsto> ?a)" "?a < length (rt_heap (rt w1))"
      "i_Nodes (inst ?a w1) = starting_nodes C topo (lab_UUID lab)" "i_Name (inst ?a w1) = lab_InstanceName lab"
      "rt_calls (rt w1) = rt_calls (rt w) @ [CallDeploy ?c defFile (lab_InstanceName lab)]"
    using deploy_begins [OF assms(1-5,7), of C] by auto
  obtain w2 where 2: "play E C [(0, ProviderDone lines None), (0, LabInspected lines' (Inr cs)), (0, Silent)]
      ([DeployCall lab ?a ?c], w1) = Some ([DeployStream lab ?a ?c (map fst ?ns)], w2)"
    and w2: "rt_instances (rt w2) = rt_instances (rt w1)" "?a < length (rt_heap (rt w2))"
      "i_Nodes (inst ?a w2) = ?ns" "i_Name (inst ?a w2) = lab_InstanceName lab" "rt_calls (rt w2) = rt_calls (rt w1)"
    using deploy_inspects [OF w1(2), where E = E and C = C and lines = lines and lines' = lines' and cs = cs
        and lab = lab and c = ?c and ths = "[]"] w1 by (auto simp: comp_def)
  have "distinct (map fst ?ns)" using assms(6) by (simp add: starting_nodes_def comp_def case_prod_beta)
  then have nodes: "\<forall>(k, n) \<in> set ?ns. map_of (i_Nodes (inst ?a w2)) k = Some n" unfolding w2(3) by auto
  obtain w3 where 3: "play E C (map (Pair 0) (stream_replies ?ns)) ([DeployStream lab ?a ?c (map fst ?ns)], w2)
      = Some (DeployStream lab ?a ?c [] # map (\<lambda>(k, n). ListenerStart (lab_UUID lab) ?a k False) (started ?ns), w3)"
    and w3: "rt_instances (rt w3) = rt_instances (rt w2)" "rt_heap (rt w3) = rt_heap (rt w2)"
      "rt_calls (rt w3) = rt_calls (rt w2)
        @ map (\<lambda>(k, n). CallStreamContainerLogs (Some ?c) (lab_InstanceName lab) (n_Name n)) (started ?ns)"
    using deploy_streams [OF w2(2) nodes, where E = E and C = C and lab = lab and c = ?c and ths = "[]"] w2(4) by auto
  let ?moves = "replicate 4 (0, Silent) @ [(0, ProviderDone lines None), (0, LabInspected lines' (Inr cs)), (0, Silent)]
    @ map (Pair 0) (stream_replies ?ns) @ replicate 2 (0, Silent)"
  have "\<exists>w'. play E C ?moves ([DeployStart lab], w)
      = Some (Finished None # map (\<lambda>(k, n). ListenerStart (lab_UUID lab) ?a k False) (started ?ns), w')
    \<and> GetInstance (lab_UUID lab) (rt w') = Some (inst ?a w')
    \<and> i_State (inst ?a w') = InstRunning \<and> i_Nodes (inst ?a w') = ?ns \<and> i_OpMutex (inst ?a w') = None
    \<and> rt_calls (rt w') = rt_calls (rt w) @ CallDeploy ?c defFile (lab_InstanceName lab)
        # map (\<lambda>(k, n). CallStreamContainerLogs (Some ?c) (lab_InstanceName lab) (n_Name n)) (started ?ns)"
    unfolding play_append 1 2 3 option.case
    using w1 w2 w3
    by (simp add: eval_nat_numeral deploy_stream_def deploy_done_def return_unlocked_def GetInstance_def)
  then show ?thesis unfolding Let_def by blast
qed

text \<open>C30: A deployment of a lab that has no instance yet, with nobody else at work, a readable run environment and a
  provider that does what it is asked, runs to its end: the provider was asked once to deploy the
  definition in the run directory of the lab, the lab has a new instance that is running, its nodes are
  those of the topology as the inspection found them, and the logs of exactly the nodes that are not
  stopped are streamed and exactly these nodes are listened to.\<close>

theorem deployment_completes:
  assumes "rt_instances (rt w) (lab_UUID lab) = None"
    and "GetRunEnvironment (e_storage E) (lab_UUID lab) (w_fs w) = Inr (txt, defFile)"
    and "schema_Parse (e_parsers E) txt = Inr (d, raw)" and "td_Topology d = Some topo" and "ct_Nodes topo \<noteq> []"
    and "distinct (map fst (ct_Nodes topo))"
    and "\<forall>c \<in> rt_cancelled (rt w). c < rt_ctxs (rt w)"
  shows "\<exists>w'. let a = length (rt_heap (rt w)); c = rt_ctxs (rt w);
      ns = map (apsnd (inspected_node (Some cs))) (starting_nodes C topo (lab_UUID lab)) in
    play E C (replicate 4 (0, Silent) @ [(0, ProviderDone lines None), (0, LabInspected lines' (Inr cs)), (0, Silent)]
        @ map (Pair 0) (stream_replies ns) @ replicate 2 (0, Silent)) ([DeployStart lab], w)
      = Some (Finished None # map (\<lambda>(k, n). ListenerStart (lab_UUID lab) a k False) (started ns), w')
    \<and> GetInstance (lab_UUID lab) (rt w') = Some (inst a w')
    \<and> i_State (inst a w') = InstRunning \<and> i_Nodes (inst a w') = ns \<and> i_OpMutex (inst a w') = None
    \<and> rt_calls (rt w') = rt_calls (rt w) @ CallDeploy c defFile (lab_InstanceName lab)
        # map (\<lambda>(k, n). CallStreamContainerLogs (Some c) (lab_InstanceName lab) (n_Name n)) (started ns)"
  using assms by (rule deployment_run)

theorem deployment_completes_witness:
  "\<exists>w'. play demo_lab_env demo_config (replicate 4 (0, Silent) @ [(0, ProviderDone [] None), (0, LabInspected [] (Inr [])), (0, Silent)]
        @ map (Pair 0) (stream_replies (map (apsnd (inspected_node (Some []))) (starting_nodes demo_config
            (the (td_Topology demo_topology_of_labs)) ''l1''))) @ replicate 2 (0, Silent)) ([DeployStart demo_lab], demo_server)
      = Some ([Finished None], w') \<and> i_State (inst 0 w') = InstRunning"
proof -
  have new: "rt_instances (rt demo_server) (lab_UUID demo_lab) = None" by code_simp
  have env: "GetRunEnvironment (e_storage demo_lab_env) (lab_UUID demo_lab) (w_fs demo_server)
      = Inr (''name: net-1'', ''/run/l1/topology.clab.yaml'')" by code_simp
  have parse: "schema_Parse (e_parsers demo_lab_env) ''name: net-1'' = Inr (demo_topology_of_labs, Some demo_raw)" by code_simp
  have topo: "td_Topology demo_topology_of_labs = Some (the (td_Topology demo_topology_of_labs))"
    "ct_Nodes (the (td_Topology demo_topology_of_labs)) = [(''r1'', None)]"
    by (simp_all add: demo_topology_of_labs_def)
  have "rt_heap (rt demo_server) = []" "rt_cancelled (rt demo_server) = {}"
    by (simp_all add: demo_server_def CreateInstanceService_def)
  with deployment_completes [OF new env parse topo(1), where cs = "[]" and C = demo_config and lines = "[]" and lines' = "[]"] topo(2)
  show ?thesis by (auto simp: Let_def started_def starting_nodes_def inspected_node_def)
qed

section \<open>A destruction that runs alone\<close>

lemma releases_fields [simp]:
  "rt_instances (fold (\<lambda>(_, n). release (f n)) ns r) = rt_instances r"
  "rt_calls (fold (\<lambda>(_, n). release (f n)) ns r) = rt_calls r"
  "rt_released (fold (\<lambda>(_, n). release (f n)) ns r) = rt_released r @ map (\<lambda>(_, n). f n) ns"
  "rt_cancelled (fold (\<lambda>(_, n). release (f n)) ns r) = rt_cancelled r"
proof -
  show "rt_instances (fold (\<lambda>(_, n). release (f n)) ns r) = rt_instances r"
    "rt_cancelled (fold (\<lambda>(_, n). release (f n)) ns r) = rt_cancelled r"
    "rt_calls (fold (\<lambda>(_, n). release (f n)) ns r) = rt_calls r"
    by (induction ns arbitrary: r) auto
  show "rt_released (fold (\<lambda>(_, n). release (f n)) ns r) = rt_released r @ map (\<lambda>(_, n). f n) ns"
    by (induction ns arbitrary: r) (auto simp: release_def)
qed

lemma cancel_fields [simp]:
  "rt_instances (cancel_deployment a r) = rt_instances r" "rt_heap (cancel_deployment a r) = rt_heap r"
  "rt_calls (cancel_deployment a r) = rt_calls r"
  by (simp_all add: cancel_deployment_def split: option.split)

lemma cancel_cancels [simp]:
  "i_DeploymentCancel (rt_heap r ! a) = Some c \<Longrightarrow> c \<in> rt_cancelled (cancel_deployment a r)"
  by (simp add: cancel_deployment_def)

text \<open>C31: A destruction of a lab whose instance nobody works on cancels the deployment of the instance and asks the
  provider once to destroy it. If that works, the lab has no instance any more, and the command succeeds. If it fails,
  the lab keeps the instance in the state failed with its nodes marked as stopped, and the command returns the
  provider error. In both cases the mutex is free again.\<close>

theorem destruction_completes:
  assumes "rt_instances (rt w) (lab_UUID lab) = Some a" and "a < length (rt_heap (rt w))"
    and "i_OpMutex (inst a w) = None"
  shows "\<exists>w'. play E C (replicate 4 (0, Silent) @ (0, ProviderDone lines err) # (if err = None then replicate 2 (0, Silent) else []))
        ([DestroyStart lab], w) = Some ([Finished (if err = None then None else Some (Sentinel ErrProvider))], w')
    \<and> rt_calls (rt w') = rt_calls (rt w) @ [CallDestroy (i_TopologyFile (inst a w)) (lab_InstanceName lab)]
    \<and> (\<forall>c. i_DeploymentCancel (inst a w) = Some c \<longrightarrow> c \<in> rt_cancelled (rt w'))
    \<and> i_OpMutex (inst a w') = None
    \<and> (if err = None then rt_instances (rt w') = (rt_instances (rt w))(lab_UUID lab := None) \<and> i_IsDestroyed (inst a w')
       else rt_instances (rt w') = rt_instances (rt w) \<and> i_State (inst a w') = InstFailed
         \<and> (\<forall>(k, n) \<in> set (i_Nodes (inst a w')). n_State n = NodeStopped))"
proof (cases err)
  case None
  with assms show ?thesis
    by (auto simp: eval_nat_numeral destroy_defs return_unlocked_def)
next
  case (Some e)
  with assms show ?thesis
    by (auto simp: eval_nat_numeral destroy_defs return_unlocked_def)
qed

theorem destruction_completes_witness:
  "\<exists>ths w. sys_reach demo_lab_env demo_config (ths, w) \<and> (\<exists>w'. play demo_lab_env demo_config
        (replicate 4 (0, Silent) @ (0, ProviderDone [] None) # replicate 2 (0, Silent)) ([DestroyStart demo_lab], w)
      = Some ([Finished None], w') \<and> rt_instances (rt w') ''l1'' = None)"
proof -
  obtain ths w where s: "sys_reach demo_lab_env demo_config (ths, w)"
    "rt_instances (rt w) ''l1'' = Some 0" "length (rt_heap (rt w)) = 1" "i_OpMutex (inst 0 w) = None"
    using demo_running by blast
  from destruction_completes [where lab = demo_lab and a = 0 and w = w and E = demo_lab_env and C = demo_config
      and lines = "[]" and err = None] s(2-4)
  obtain w' where "play demo_lab_env demo_config (replicate 4 (0, Silent) @ (0, ProviderDone [] None) # replicate 2 (0, Silent))
      ([DestroyStart demo_lab], w) = Some ([Finished None], w')" "rt_instances (rt w') = (rt_instances (rt w))(''l1'' := None)"
    by auto
  with s(1) show ?thesis by (intro exI conjI) (assumption+, simp)
qed

section \<open>A destruction that comes too late\<close>

lemma inst_other [simp]: "b \<noteq> a \<Longrightarrow> rt_heap (on_inst a f r) ! b = rt_heap r ! b"
  by (simp add: on_inst_def)

text \<open>A destruction that waited while another one destroyed the instance goes on with the instance it chose, although
  that is gone. If the lab was deployed again in the meantime, the late destruction asks the provider to
  destroy the containers of the new instance, takes the lab out of the map of instances and reports
  success, while the new instance keeps the state it had and can no longer be reached.\<close>

theorem late_destruction_hits_new_instance:
  assumes "t < length ths" and "ths ! t = DestroyWait lab a" and "a < length (rt_heap (rt w))"
    and "i_OpMutex (inst a w) = None" and "rt_instances (rt w) (lab_UUID lab) = Some b" and "b \<noteq> a"
  shows "\<exists>w'. play E C (end_of_destruction t) (ths, w) = Some (ths[t := Finished None], w')
    \<and> rt_instances (rt w') = (rt_instances (rt w))(lab_UUID lab := None) \<and> inst b w' = inst b w
    \<and> rt_calls (rt w') = rt_calls (rt w) @ [CallDestroy (i_TopologyFile (inst a w)) (lab_InstanceName lab)]"
  using assms by (simp add: end_of_destruction_def destroy_defs return_unlocked_def)

theorem late_destruction_hits_new_instance_witness:
  "\<exists>ths w w'. sys_reach demo_lab_env demo_config (ths, w)
     \<and> rt_instances (rt w) ''l1'' = Some 1 \<and> i_State (inst 1 w) = InstDeploying
     \<and> play demo_lab_env demo_config (end_of_destruction 2) (ths, w) = Some (ths[2 := Finished None], w')
     \<and> rt_instances (rt w') ''l1'' = None \<and> i_State (inst 1 w') = InstDeploying"
proof -
  have "ends_in demo_revived [DestroyStart demo_lab, DestroyStart demo_lab, DeployStart demo_lab] destroyed_and_deployed
    (\<lambda>ths w. length ths = 4 \<and> length (rt_heap (rt w)) = 2 \<and> rt_instances (rt w) ''l1'' = Some 1
       \<and> i_State (inst 1 w) = InstDeploying \<and> i_OpMutex (inst 0 w) = None
       \<and> ths ! 2 = DestroyWait demo_lab 0)"
    by code_simp
  from ends_in_reach [OF this demo_revived_reach]
  obtain ths w where s: "sys_reach demo_lab_env demo_config (ths, w)" "length ths = 4" "length (rt_heap (rt w)) = 2"
    "rt_instances (rt w) ''l1'' = Some 1" "i_State (inst 1 w) = InstDeploying" "i_OpMutex (inst 0 w) = None"
    "ths ! 2 = DestroyWait demo_lab 0"
    by auto
  from late_destruction_hits_new_instance [of 2 ths demo_lab 0 w 1 demo_lab_env demo_config] s(2-7)
  obtain w' where "play demo_lab_env demo_config (end_of_destruction 2) (ths, w) = Some (ths[2 := Finished None], w')"
    "rt_instances (rt w') ''l1'' = None" "inst 1 w' = inst 1 w"
    by auto
  with s(1,4,5) show ?thesis by (intro exI conjI) (assumption+, simp)
qed

end
