(* ===== verification/Statistics.thy ===== *)
theory Statistics
  imports Go_Strings Errors "HOL-Library.Word"
begin

text \<open>
  Reading the statistics of nodes: \<open>src/deployment/stats.go\<close> and the two samplers
  \<open>sampler_docker.go\<close> and \<open>sampler_remote.go\<close>. Counters are 64-bit words. The sums of the code are those of
  words, so they wrap. Floating-point arithmetic is not modelled: the two places where the code divides
  counters as floats are parameters.
\<close>

section \<open>Numbers in texts\<close>

text \<open>\<open>strings.Fields\<close> on ASCII.\<close>

fun split_space :: "string \<Rightarrow> string list" where
  "split_space [] = [[]]"
| "split_space (x # xs) =
     (if is_space x then [] # split_space xs
      else (case split_space xs of [] \<Rightarrow> [[x]] | y # ys \<Rightarrow> (x # y) # ys))"

definition Fields :: "string \<Rightarrow> string list" where
  "Fields s = filter (\<lambda>w. w \<noteq> []) (split_space s)"

text \<open>
  \<open>strconv.ParseUint\<close> in base 10 with 64 bits. It stops at the first character that is no digit, or at
  the first digit with which the number is too large, whichever comes first; the value is returned with the
  error, and for a number that is too large it is the greatest one.
\<close>

datatype num_error = ErrSyntax | ErrRange

definition digit_value :: "char \<Rightarrow> nat option" where
  "digit_value c = (let n = of_char c :: nat in if 48 \<le> n \<and> n \<le> 57 then Some (n - 48) else None)"

definition max_uint :: nat where
  "max_uint = 2 ^ 64 - 1"

fun parse_digits :: "nat \<Rightarrow> string \<Rightarrow> 64 word \<times> num_error option" where
  "parse_digits n [] = (of_nat n, None)"
| "parse_digits n (c # cs) =
     (case digit_value c of
        None \<Rightarrow> (0, Some ErrSyntax)
      | Some d \<Rightarrow> if max_uint < n * 10 + d then (of_nat max_uint, Some ErrRange) else parse_digits (n * 10 + d) cs)"

definition ParseUint :: "string \<Rightarrow> 64 word \<times> num_error option" where
  "ParseUint s = (if s = [] then (0, Some ErrSyntax) else parse_digits 0 s)"

section \<open>Parsing the files of the kernel\<close>

definition clockTicks :: "64 word" where
  "clockTicks = 100"

text \<open>A sample: the network counters are those received and sent, by interface.\<close>

record stats_sample =
  cpuNs :: "64 word"
  systemNs :: "64 word"
  onlineCPUs :: int
  memUsage :: "64 word"
  memLimit :: "64 word"
  net :: "string \<rightharpoonup> 64 word \<times> 64 word"

definition counterDelta :: "64 word \<Rightarrow> 64 word \<Rightarrow> 64 word" where
  "counterDelta current previous = (if current < previous then 0 else current - previous)"

fun parseKeyedUint :: "string list \<Rightarrow> string \<Rightarrow> 64 word" where
  "parseKeyedUint [] key = 0"
| "parseKeyedUint (l # ls) key =
     (if \<not> HasPrefix l (key @ '' '') \<and> \<not> HasPrefix l (key @ [CHR 0x09]) then parseKeyedUint ls key
      else (case Fields (drop (length key) l) of [] \<Rightarrow> 0 | f # fs \<Rightarrow> fst (ParseUint f)))"

definition parseMemoryMax :: "string \<Rightarrow> 64 word \<Rightarrow> 64 word" where
  "parseMemoryMax s systemTotal =
     (let s = TrimSpace s in
      if s = ''max'' then systemTotal
      else case ParseUint s of
        (v, err) \<Rightarrow> if err \<noteq> None \<or> 0x7FFFFFFFFFFFF000 \<le> v then systemTotal else v)"

definition parseMemoryUsage :: "64 word \<Rightarrow> 64 word \<Rightarrow> 64 word" where
  "parseMemoryUsage current inactiveFile = (if inactiveFile \<le> current then current - inactiveFile else current)"

text \<open>The inner loop of \<open>parseProcStat\<close>, which leaves out fields that are no numbers, and its loop over the lines.\<close>

definition add_field :: "string \<Rightarrow> 64 word \<Rightarrow> 64 word" where
  "add_field f tot = (case ParseUint f of (v, None) \<Rightarrow> tot + v | _ \<Rightarrow> tot)"

definition procstat_line :: "string \<Rightarrow> 64 word \<times> nat \<Rightarrow> 64 word \<times> nat" where
  "procstat_line line acc =
     (case acc of (tot, n) \<Rightarrow>
        if \<not> HasPrefix line ''cpu'' \<or> length line < 4 then (tot, n)
        else if line ! 3 = CHR '' '' then (fold add_field (Fields (drop 4 line)) tot, n)
        else (tot, n + 1))"

definition parseProcStat :: "string list \<Rightarrow> 64 word \<times> int" where
  "parseProcStat lines =
     (case fold procstat_line lines (0, 0) of
        (tot, n) \<Rightarrow> (tot * 1000000000 div clockTicks, if n = 0 then 1 else int n))"

definition parseMemTotal :: "string list \<Rightarrow> 64 word" where
  "parseMemTotal lines = parseKeyedUint lines ''MemTotal:'' * 1024"

definition netdev_line :: "string \<Rightarrow> (string \<rightharpoonup> 64 word \<times> 64 word) \<Rightarrow> (string \<rightharpoonup> 64 word \<times> 64 word)" where
  "netdev_line line out =
     (case Cut CHR '':'' line of
        (before, after, found) \<Rightarrow>
          let name = TrimSpace before; f = Fields after in
          if \<not> found \<or> name = ''lo'' \<or> length f < 9 then out
          else out(name \<mapsto> (fst (ParseUint (f ! 0)), fst (ParseUint (f ! 8)))))"

definition parseNetDev :: "string list \<Rightarrow> (string \<rightharpoonup> 64 word \<times> 64 word)" where
  "parseNetDev lines = fold netdev_line lines Map.empty"

section \<open>The reader\<close>

text \<open>
  The floats of the code: \<open>fl_percent\<close> is \<open>cpuDelta / sysDelta * onlineCPUs * 100\<close>, and \<open>fl_rate\<close> the
  integer part of a difference of counters by seconds, for a time in nanoseconds.
\<close>

record 'f floats =
  fl_zero :: 'f
  fl_percent :: "64 word \<Rightarrow> 64 word \<Rightarrow> int \<Rightarrow> 'f"
  fl_rate :: "64 word \<Rightarrow> int \<Rightarrow> int"

record interface_stats =
  RxBytes :: "64 word"
  TxBytes :: "64 word"
  RxBps :: int
  TxBps :: int

record 'f node_stats =
  Timestamp :: int
  CPUUsage :: "64 word"
  SystemUsage :: "64 word"
  CPUUsagePercent :: 'f
  MemoryUsage :: "64 word"
  MemoryLimit :: "64 word"
  Interfaces :: "string \<rightharpoonup> interface_stats"

definition interface_rates ::
  "'f floats \<Rightarrow> 'f node_stats option \<Rightarrow> int \<Rightarrow> string \<Rightarrow> 64 word \<times> 64 word \<Rightarrow> interface_stats" where
  "interface_rates F prev now name c =
     (let rate = (\<lambda>get_old x.
            case prev of
              None \<Rightarrow> 0
            | Some p \<Rightarrow>
                if 0 < now - Timestamp p then
                  (case Interfaces p name of
                     None \<Rightarrow> 0
                   | Some old \<Rightarrow> fl_rate F (counterDelta x (get_old old)) (now - Timestamp p))
                else 0)
      in \<lparr>RxBytes = fst c, TxBytes = snd c, RxBps = rate RxBytes (fst c), TxBps = rate TxBytes (snd c)\<rparr>)"

definition cpu_percent :: "'f floats \<Rightarrow> 'f node_stats option \<Rightarrow> stats_sample \<Rightarrow> 'f" where
  "cpu_percent F prev s =
     (case prev of
        None \<Rightarrow> fl_zero F
      | Some p \<Rightarrow>
          let cpuDelta = counterDelta (cpuNs s) (CPUUsage p); sysDelta = counterDelta (systemNs s) (SystemUsage p) in
          if 0 < cpuDelta \<and> 0 < sysDelta then fl_percent F cpuDelta sysDelta (onlineCPUs s) else fl_zero F)"

definition reader_compute ::
  "'f floats \<Rightarrow> string \<Rightarrow> stats_sample \<Rightarrow> int \<Rightarrow> (string \<rightharpoonup> 'f node_stats)
    \<Rightarrow> 'f node_stats \<times> (string \<rightharpoonup> 'f node_stats)" where
  "reader_compute F nodeId s now nodeCache =
     (let prev = nodeCache nodeId;
          stats = \<lparr>Timestamp = now, CPUUsage = cpuNs s, SystemUsage = systemNs s,
            CPUUsagePercent = cpu_percent F prev s, MemoryUsage = memUsage s, MemoryLimit = memLimit s,
            Interfaces = (\<lambda>name. map_option (interface_rates F prev now name) (net s name))\<rparr>
      in (stats, nodeCache(nodeId \<mapsto> stats)))"

definition reader_forget :: "string \<Rightarrow> (string \<rightharpoonup> 'f node_stats) \<Rightarrow> (string \<rightharpoonup> 'f node_stats)" where
  "reader_forget nodeId nodeCache = nodeCache(nodeId := None)"

definition reader_Read ::
  "'f floats \<Rightarrow> string \<Rightarrow> (go_error + stats_sample) \<Rightarrow> int \<Rightarrow> (string \<rightharpoonup> 'f node_stats)
    \<Rightarrow> (go_error + 'f node_stats) \<times> (string \<rightharpoonup> 'f node_stats)" where
  "reader_Read F nodeId sample now nodeCache =
     (case sample of
        Inl err \<Rightarrow> (Inl err, reader_forget nodeId nodeCache)
      | Inr s \<Rightarrow> (case reader_compute F nodeId s now nodeCache of (stats, cache) \<Rightarrow> (Inr stats, cache)))"

section \<open>The samplers\<close>

text \<open>
  The sampler on the host of the containers reads the files of their control groups. Reading a file gives
  its content, or an error, \<open>None\<close> when the file does not exist.
\<close>

type_synonym files = "string \<Rightarrow> go_error option + string"

record docker_target =
  fullContainerId :: string
  dt_pid :: nat

record docker_sampler =
  systemMemoryTotal :: "64 word"
  targetCache :: "string \<times> string \<rightharpoonup> docker_target"
  sysReadAt :: int
  sysCPUNs :: "64 word"
  sysCPUCount :: int

definition readLines :: "files \<Rightarrow> string \<Rightarrow> go_error option + string list" where
  "readLines f path = (case f path of Inl err \<Rightarrow> Inl err | Inr b \<Rightarrow> Inr (split_on CHR 0x0A b))"

definition readUint :: "files \<Rightarrow> string \<Rightarrow> go_error option + 64 word" where
  "readUint f path =
     (case f path of
        Inl err \<Rightarrow> Inl err
      | Inr b \<Rightarrow> (case ParseUint (TrimSpace b) of
          (v, None) \<Rightarrow> Inr v | (_, Some _) \<Rightarrow> Inl (Some (Foreign (''strconv.ParseUint'')))))"

definition system_cpu :: "files \<Rightarrow> int \<Rightarrow> docker_sampler \<Rightarrow> (go_error option + 64 word \<times> int) \<times> docker_sampler" where
  "system_cpu f now s =
     (if now - sysReadAt s < 200 * 1000000 then (Inr (sysCPUNs s, sysCPUCount s), s)
      else case readLines f ''/proc/stat'' of
        Inl err \<Rightarrow> (Inl err, s)
      | Inr lines \<Rightarrow>
          (case parseProcStat lines of
             (ns, n) \<Rightarrow> (Inr (ns, n), s\<lparr>sysCPUNs := ns, sysCPUCount := n, sysReadAt := now\<rparr>)))"

definition cgroup_file :: "docker_target \<Rightarrow> string \<Rightarrow> string" where
  "cgroup_file t name = Join [Join [''/sys/fs/cgroup/system.slice'', ''docker-'' @ fullContainerId t @ ''.scope''], name]"

definition lines_or_none :: "go_error option + string list \<Rightarrow> string list" where
  "lines_or_none r = (case r of Inl _ \<Rightarrow> [] | Inr ls \<Rightarrow> ls)"

definition readTarget ::
  "files \<Rightarrow> int \<Rightarrow> docker_target \<Rightarrow> docker_sampler \<Rightarrow> (go_error option + stats_sample) \<times> docker_sampler" where
  "readTarget f now t s =
     (case readLines f (cgroup_file t ''cpu.stat'') of
        Inl err \<Rightarrow> (Inl err, s)
      | Inr cpuStat \<Rightarrow>
     (case readUint f (cgroup_file t ''memory.current'') of
        Inl err \<Rightarrow> (Inl err, s)
      | Inr memCurrent \<Rightarrow>
     let memStat = lines_or_none (readLines f (cgroup_file t ''memory.stat'')) in
     (case f (cgroup_file t ''memory.max'') of
        Inl err \<Rightarrow> (Inl err, s)
      | Inr memMax \<Rightarrow>
     (case readLines f (''/proc/'' @ show_nat (dt_pid t) @ ''/net/dev'') of
        Inl err \<Rightarrow> (Inl err, s)
      | Inr netDev \<Rightarrow>
     (case system_cpu f now s of
        (Inl err, s) \<Rightarrow> (Inl err, s)
      | (Inr (ns, n), s) \<Rightarrow>
          (Inr \<lparr>cpuNs = parseKeyedUint cpuStat ''usage_usec'' * 1000, systemNs = ns, onlineCPUs = n,
             memUsage = parseMemoryUsage memCurrent (parseKeyedUint memStat ''inactive_file''),
             memLimit = parseMemoryMax memMax (systemMemoryTotal s), net = parseNetDev netDev\<rparr>, s))))))"

text \<open>\<open>resolve\<close> asks Docker for the container of a node.\<close>

definition getTarget ::
  "(string \<times> string \<Rightarrow> go_error + docker_target) \<Rightarrow> string \<times> string \<Rightarrow> docker_sampler
    \<Rightarrow> (go_error + docker_target) \<times> docker_sampler" where
  "getTarget resolve ref s =
     (case targetCache s ref of
        Some t \<Rightarrow> (Inr t, s)
      | None \<Rightarrow>
          (case resolve ref of
             Inl err \<Rightarrow> (Inl err, s)
           | Inr t \<Rightarrow> (Inr t, s\<lparr>targetCache := (targetCache s)(ref \<mapsto> t)\<rparr>)))"

definition docker_Sample ::
  "(string \<times> string \<Rightarrow> go_error + docker_target) \<Rightarrow> files \<Rightarrow> int \<Rightarrow> string \<times> string \<Rightarrow> docker_sampler
    \<Rightarrow> (go_error + stats_sample) \<times> docker_sampler" where
  "docker_Sample resolve f now ref s =
     (case getTarget resolve ref s of
        (Inl err, s) \<Rightarrow> (Inl err, s)
      | (Inr t, s) \<Rightarrow>
          (case readTarget f now t s of
             (Inr sample, s) \<Rightarrow> (Inr sample, s)
           | (Inl None, s) \<Rightarrow>
               (Inl (Wrap (Sentinel ErrNodeNotRunning) (fst ref @ ''/'' @ snd ref)),
                s\<lparr>targetCache := (targetCache s)(ref := None)\<rparr>)
           | (Inl (Some err), s) \<Rightarrow> (Inl err, s)))"

text \<open>The sampler for nodes elsewhere parses what a script prints that runs in the node.\<close>

definition section_line :: "string \<Rightarrow> (string \<Rightarrow> string list) \<times> string \<Rightarrow> (string \<Rightarrow> string list) \<times> string" where
  "section_line line acc =
     (case acc of (sections, current) \<Rightarrow>
        if HasPrefix line ''=='' then (sections, drop 2 line)
        else (sections(current := sections current @ [line]), current))"

definition required_sections :: "string list" where
  "required_sections = [''cpu'', ''memcur'', ''memmax'', ''procstat'', ''meminfo'', ''netdev'']"

definition parseRemoteStats :: "string \<Rightarrow> go_error + stats_sample" where
  "parseRemoteStats out =
     (let sections = fst (fold section_line (split_on CHR 0x0A out) (\<lambda>_. [], [])) in
      case find (\<lambda>r. sections r = []) required_sections of
        Some r \<Rightarrow> Inl (Foreign (''stats output missing section '' @ quote r))
      | None \<Rightarrow>
          (case ParseUint (TrimSpace (hd (sections ''memcur''))) of
             (_, Some _) \<Rightarrow> Inl (Foreign ''parse memory.current'')
           | (memCurrent, None) \<Rightarrow>
               (case parseProcStat (sections ''procstat'') of
                  (ns, n) \<Rightarrow>
                    Inr \<lparr>cpuNs = parseKeyedUint (sections ''cpu'') ''usage_usec'' * 1000, systemNs = ns, onlineCPUs = n,
                      memUsage = parseMemoryUsage memCurrent (parseKeyedUint (sections ''memstat'') ''inactive_file''),
                      memLimit = parseMemoryMax (hd (sections ''memmax'')) (parseMemTotal (sections ''meminfo'')),
                      net = parseNetDev (sections ''netdev'')\<rparr>)))"

text \<open>The loop of \<open>run\<close> over the lines that the scanner delivers: the current block, and the latest sample.\<close>

definition run_line :: "string \<Rightarrow> string list \<times> stats_sample option \<Rightarrow> string list \<times> stats_sample option" where
  "run_line line acc =
     (case acc of (block, latest) \<Rightarrow>
        if line \<noteq> ''==end'' then (block @ [line], latest)
        else (case parseRemoteStats (join [CHR 0x0A] block) of
          Inr s \<Rightarrow> ([], Some s)
        | Inl _ \<Rightarrow> ([], latest)))"

text \<open>The lines one round of \<open>remoteSampleScript\<close> prints, when these are the lines of the files.\<close>

record kernel_files =
  kf_cpu :: "string list"
  kf_memcur :: "string list"
  kf_memmax :: "string list"
  kf_memstat :: "string list"
  kf_procstat :: "string list"
  kf_meminfo :: "string list"
  kf_netdev :: "string list"

definition remoteSampleScript :: "kernel_files \<Rightarrow> string list" where
  "remoteSampleScript k =
     [''==cpu''] @ kf_cpu k @ [''==memcur''] @ kf_memcur k @ [''==memmax''] @ kf_memmax k @
     [''==memstat''] @ kf_memstat k @ [''==procstat''] @ kf_procstat k @ [''==meminfo''] @ kf_meminfo k @
     [''==netdev''] @ kf_netdev k @ [''==end'']"

section \<open>Facts about numbers\<close>

lemma digit_value_char [simp]: "d < 10 \<Longrightarrow> digit_value (char_of (48 + d)) = Some d"
  by (simp add: digit_value_def of_char_of)

lemma unat_of_small: "n \<le> max_uint \<Longrightarrow> unat (of_nat n :: 64 word) = n"
  by (simp add: unat_of_nat max_uint_def)

lemma parse_digits_snoc:
  assumes "d < 10" "m \<le> max_uint"
  shows "parse_digits m (xs @ [char_of (48 + d)]) =
    (case parse_digits m xs of
       (v, None) \<Rightarrow> if max_uint < unat v * 10 + d then (of_nat max_uint, Some ErrRange) else (of_nat (unat v * 10 + d), None)
     | r \<Rightarrow> r)"
  using assms(2)
proof (induction xs arbitrary: m)
  case Nil
  then have "unat (of_nat m :: 64 word) = m" by (rule unat_of_small)
  with \<open>d < 10\<close> show ?case by simp
next
  case (Cons c xs)
  then show ?case by (auto split: option.split)
qed

lemma parse_digits_show:
  "parse_digits 0 (show_nat n) = (if n \<le> max_uint then (of_nat n, None) else (of_nat max_uint, Some ErrRange))"
proof (induction n rule: show_nat.induct)
  case (1 n)
  show ?case
  proof (cases "n < 10")
    case True
    then have "parse_digits 0 (show_nat n) = (of_nat n, None)"
      by (subst show_nat.simps) (simp add: max_uint_def)
    with True show ?thesis by (simp add: max_uint_def)
  next
    case False
    have split: "n div 10 * 10 + n mod 10 = n" by simp
    from False 1 have ih: "parse_digits 0 (show_nat (n div 10)) =
        (if n div 10 \<le> max_uint then (of_nat (n div 10), None) else (of_nat max_uint, Some ErrRange))" by simp
    have show_step: "show_nat n = show_nat (n div 10) @ [char_of (48 + n mod 10)]"
      using False by (subst show_nat.simps) simp
    have step: "parse_digits 0 (show_nat n) =
      (case parse_digits 0 (show_nat (n div 10)) of
         (v, None) \<Rightarrow> if max_uint < unat v * 10 + n mod 10 then (of_nat max_uint, Some ErrRange)
                    else (of_nat (unat v * 10 + n mod 10), None)
       | r \<Rightarrow> r)"
      unfolding show_step by (rule parse_digits_snoc) simp_all
    show ?thesis
    proof (cases "n div 10 \<le> max_uint")
      case True
      then have "unat (of_nat (n div 10) :: 64 word) = n div 10" by (rule unat_of_small)
      with True show ?thesis unfolding step ih by (simp add: split not_less)
    next
      case F: False
      then have "\<not> n \<le> max_uint" by linarith
      with F show ?thesis unfolding step ih by simp
    qed
  qed
qed

lemma show_nat_nonempty [simp]: "show_nat n \<noteq> []"
  by (subst show_nat.simps) simp

text \<open>A number is read as it is written exactly when it fits into 64 bits. A greater one is refused, and the
  callers that look at the value only get the greatest one.\<close>

theorem ParseUint_show:
  "ParseUint (show_nat n) = (if n < 2 ^ 64 then (of_nat n, None) else (of_nat (2 ^ 64 - 1), Some ErrRange))"
  by (simp add: ParseUint_def parse_digits_show max_uint_def less_Suc_eq_le flip: less_eq_Suc_le)

section \<open>The system time\<close>

text \<open>The number of clock ticks that the lines of the processors add up to.\<close>

definition field_ticks :: "string \<Rightarrow> nat" where
  "field_ticks f = (case ParseUint f of (v, None) \<Rightarrow> unat v | _ \<Rightarrow> 0)"

definition is_total_line :: "string \<Rightarrow> bool" where
  "is_total_line l \<longleftrightarrow> HasPrefix l ''cpu '' "

definition is_core_line :: "string \<Rightarrow> bool" where
  "is_core_line l \<longleftrightarrow> HasPrefix l ''cpu'' \<and> 4 \<le> length l \<and> \<not> HasPrefix l ''cpu '' "

definition jiffies :: "string list \<Rightarrow> nat" where
  "jiffies lines = sum_list (map (\<lambda>l. sum_list (map field_ticks (Fields (drop 4 l)))) (filter is_total_line lines))"

lemma fold_add_field: "fold add_field fs t = t + of_nat (sum_list (map field_ticks fs))"
  by (induction fs arbitrary: t) (auto simp: add_field_def field_ticks_def split: prod.split option.split)

lemma procstat_line_eq:
  "procstat_line l (t, n) =
     (if is_total_line l then (t + of_nat (sum_list (map field_ticks (Fields (drop 4 l)))), n)
      else if is_core_line l then (t, n + 1) else (t, n))"
proof (cases "HasPrefix l ''cpu'' \<and> 4 \<le> length l")
  case True
  then obtain x ys where l: "l = ''cpu'' @ x # ys"
    by (auto simp: HasPrefix_iff) (metis append_Nil2 One_nat_def Suc_le_length_iff list.exhaust_sel)
  then show ?thesis
    by (auto simp: procstat_line_def is_total_line_def is_core_line_def HasPrefix_def fold_add_field)
next
  case False
  moreover have "HasPrefix l ''cpu '' \<Longrightarrow> HasPrefix l ''cpu'' \<and> 4 \<le> length l"
    by (auto simp: HasPrefix_iff)
  ultimately show ?thesis by (auto simp: procstat_line_def is_total_line_def is_core_line_def)
qed

lemma fold_procstat:
  "fold procstat_line ls (t, n) = (t + of_nat (jiffies ls), n + length (filter is_core_line ls))"
proof (induction ls arbitrary: t n)
  case (Cons l ls)
  then show ?case
    by (auto simp: procstat_line_eq jiffies_def is_core_line_def is_total_line_def)
qed (simp add: jiffies_def)

lemma scaled_mod_div:
  fixes j :: nat
  shows "(j * 1000000000 mod 2 ^ 64) div 100 = j * 10000000 \<longleftrightarrow> j * 1000000000 < 2 ^ 64"
proof
  assume "j * 1000000000 < 2 ^ 64"
  then have "j * 1000000000 mod 2 ^ 64 = j * 1000000000" by (rule mod_less)
  then show "(j * 1000000000 mod 2 ^ 64) div 100 = j * 10000000" by simp
next
  assume eq: "(j * 1000000000 mod 2 ^ 64) div 100 = j * 10000000"
  show "j * 1000000000 < 2 ^ 64"
  proof (rule ccontr)
    define m where "m = j * 1000000000"
    assume "\<not> j * 1000000000 < 2 ^ 64"
    then have big: "2 ^ 64 \<le> m" by (simp add: m_def)
    have "m mod 2 ^ 64 < 2 ^ 64" by simp
    then have "m mod 2 ^ 64 div 100 * 100 < 2 ^ 64" by (meson div_times_less_eq_dividend le_less_trans)
    moreover have "m mod 2 ^ 64 div 100 * 100 = m" using eq by (simp add: m_def)
    ultimately show False using big by simp
  qed
qed

text \<open>The system time in nanoseconds that is read from \<open>/proc/stat\<close> is exact if and only if the product of the
  ticks with \<open>10 ^ 9\<close> fits into 64 bits; otherwise it is what is left of it after the wrap-around. The number
  of processors is never less than one.\<close>

theorem parseProcStat_bound:
  "unat (fst (parseProcStat lines)) = (jiffies lines * 10 ^ 9 mod 2 ^ 64) div 100 \<and>
   (unat (fst (parseProcStat lines)) = jiffies lines * 10 ^ 7 \<longleftrightarrow> jiffies lines * 10 ^ 9 < 2 ^ 64) \<and>
   snd (parseProcStat lines) = max 1 (int (length (filter is_core_line lines)))"
proof (intro conjI)
  have prod: "of_nat (jiffies lines) * 1000000000 = (of_nat (jiffies lines * 1000000000) :: 64 word)" by simp
  show val: "unat (fst (parseProcStat lines)) = (jiffies lines * 10 ^ 9 mod 2 ^ 64) div 100"
    unfolding parseProcStat_def fold_procstat clockTicks_def split fst_conv add_0 prod
    by (simp add: unat_div unat_of_nat del: of_nat_mult)
  then show "unat (fst (parseProcStat lines)) = jiffies lines * 10 ^ 7 \<longleftrightarrow> jiffies lines * 10 ^ 9 < 2 ^ 64"
    using scaled_mod_div [of "jiffies lines"] by simp
  show "snd (parseProcStat lines) = max 1 (int (length (filter is_core_line lines)))"
    by (cases "filter is_core_line lines") (simp_all add: parseProcStat_def fold_procstat)
qed

text \<open>
  So a host whose ticks pass the bound, after 33 days with 64 processors, shows a smaller system time than before,
  and \<open>counterDelta\<close> makes no growth of it.
\<close>

lemma parseProcStat_wraps:
  "parseProcStat [''cpu  18446744073 0''] = (184467440730000000, 1) \<and>
   parseProcStat [''cpu  18446744074 0''] = (2904483, 1) \<and>
   counterDelta 2904483 184467440730000000 = 0"
  by (simp add: parseProcStat_def procstat_line_def HasPrefix_def Fields_def add_field_def ParseUint_def
      digit_value_def max_uint_def is_space_def clockTicks_def counterDelta_def)

section \<open>The two samplers agree\<close>

definition text_of :: "string list \<Rightarrow> string" where
  "text_of ls = concat (map (\<lambda>l. l @ [CHR 0x0A]) ls)"

lemma split_on_text_of:
  "\<forall>l \<in> set ls. CHR 0x0A \<notin> set l \<Longrightarrow> split_on CHR 0x0A (text_of ls) = ls @ [[]]"
  by (induction ls) (auto simp: text_of_def split_on_append split_on_notin)

lemma TrimSpace_newline [simp]: "TrimSpace (l @ [CHR 0x0A]) = TrimSpace l"
proof -
  have nl: "is_space CHR 0x0A" by (simp add: is_space_def)
  show ?thesis
  proof (cases "\<forall>x \<in> set l. is_space x")
    case True
    then have "dropWhile is_space (l @ [CHR 0x0A]) = []" "dropWhile is_space l = []"
      using nl by (simp_all only: dropWhile_eq_Nil_conv set_append) auto
    then show ?thesis by (simp only: TrimSpace_def)
  next
    case False
    then have "dropWhile is_space (l @ [CHR 0x0A]) = dropWhile is_space l @ [CHR 0x0A]"
      by (auto simp: dropWhile_append)
    then show ?thesis using nl by (simp add: TrimSpace_def)
  qed
qed

text \<open>The empty piece after the last newline counts for none of the parsers.\<close>

lemma parseKeyedUint_end [simp]: "parseKeyedUint (ls @ [[]]) key = parseKeyedUint ls key"
  by (induction ls) (auto simp: HasPrefix_def)

lemma parseProcStat_end [simp]: "parseProcStat (ls @ [[]]) = parseProcStat ls"
  by (simp add: parseProcStat_def procstat_line_def HasPrefix_def split: prod.split)

lemma parseNetDev_end [simp]: "parseNetDev (ls @ [[]]) = parseNetDev ls"
  by (simp add: parseNetDev_def netdev_line_def)

definition plain_lines :: "string list \<Rightarrow> bool" where
  "plain_lines ls \<longleftrightarrow> (\<forall>l \<in> set ls. CHR 0x0A \<notin> set l \<and> \<not> HasPrefix l ''=='')"

lemma fold_section:
  "plain_lines ls \<Longrightarrow> fold section_line ls (S, c) = (S(c := S c @ ls), c)"
  by (induction ls arbitrary: S) (auto simp: section_line_def plain_lines_def)

lemma section_head: "HasPrefix l ''=='' \<Longrightarrow> section_line l (S, c) = (S, drop 2 l)"
  by (simp add: section_line_def)

lemma fold_block:
  "plain_lines ls \<Longrightarrow> fold run_line ls (block, latest) = (block @ ls, latest)"
  by (induction ls arbitrary: block) (auto simp: run_line_def plain_lines_def HasPrefix_def)

text \<open>The files as the kernel writes them: their lines are plain, two have one line, and four are not empty.\<close>

definition kernel_files_ok :: "kernel_files \<Rightarrow> bool" where
  "kernel_files_ok k \<longleftrightarrow>
     list_all plain_lines [kf_cpu k, kf_memcur k, kf_memmax k, kf_memstat k, kf_procstat k, kf_meminfo k, kf_netdev k] \<and>
     length (kf_memcur k) = 1 \<and> length (kf_memmax k) = 1 \<and>
     kf_cpu k \<noteq> [] \<and> kf_procstat k \<noteq> [] \<and> kf_meminfo k \<noteq> [] \<and> kf_netdev k \<noteq> []"

definition sections_of :: "kernel_files \<Rightarrow> string \<Rightarrow> string list" where
  "sections_of k = (\<lambda>_. [])(''cpu'' := kf_cpu k, ''memcur'' := kf_memcur k, ''memmax'' := kf_memmax k,
     ''memstat'' := kf_memstat k, ''procstat'' := kf_procstat k, ''meminfo'' := kf_meminfo k, ''netdev'' := kf_netdev k)"

lemma sections_of_script:
  assumes "kernel_files_ok k"
  shows "fst (fold section_line (butlast (remoteSampleScript k)) (\<lambda>_. [], [])) = sections_of k"
  using assms
  by (simp add: remoteSampleScript_def kernel_files_ok_def fold_section section_head HasPrefix_def butlast_append
      sections_of_def)

lemma script_lines_no_newline:
  assumes "kernel_files_ok k"
  shows "\<forall>l \<in> set (remoteSampleScript k). CHR 0x0A \<notin> set l"
  using assms by (auto simp: remoteSampleScript_def kernel_files_ok_def plain_lines_def)

lemma script_butlast: "remoteSampleScript k = butlast (remoteSampleScript k) @ [''==end'']"
  by (simp add: remoteSampleScript_def butlast_append)

lemma fold_script_block:
  assumes "kernel_files_ok k"
  shows "fold run_line (butlast (remoteSampleScript k)) ([], latest) = (butlast (remoteSampleScript k), latest)"
  using assms
  by (simp add: remoteSampleScript_def kernel_files_ok_def fold_block run_line_def butlast_append)

definition sample_of :: "kernel_files \<Rightarrow> 64 word \<Rightarrow> stats_sample" where
  "sample_of k memCurrent =
     \<lparr>cpuNs = parseKeyedUint (kf_cpu k) ''usage_usec'' * 1000, systemNs = fst (parseProcStat (kf_procstat k)),
      onlineCPUs = snd (parseProcStat (kf_procstat k)),
      memUsage = parseMemoryUsage memCurrent (parseKeyedUint (kf_memstat k) ''inactive_file''),
      memLimit = parseMemoryMax (hd (kf_memmax k)) (parseMemTotal (kf_meminfo k)), net = parseNetDev (kf_netdev k)\<rparr>"

lemma parseRemoteStats_script:
  assumes "kernel_files_ok k"
  shows "parseRemoteStats (join [CHR 0x0A] (butlast (remoteSampleScript k))) =
    (case ParseUint (TrimSpace (hd (kf_memcur k))) of
       (_, Some _) \<Rightarrow> Inl (Foreign ''parse memory.current'')
     | (memCurrent, None) \<Rightarrow> Inr (sample_of k memCurrent))"
proof -
  have ne: "butlast (remoteSampleScript k) \<noteq> []" by (simp add: remoteSampleScript_def)
  have nl: "\<forall>l \<in> set (butlast (remoteSampleScript k)). CHR 0x0A \<notin> set l"
    using script_lines_no_newline [OF assms] by (blast dest: in_set_butlastD)
  from assms show ?thesis
    by (simp add: parseRemoteStats_def split_on_join [OF ne nl] sections_of_script required_sections_def)
       (auto simp: sections_of_def kernel_files_ok_def sample_of_def length_Suc_conv split: prod.split option.split)
qed

lemma run_script:
  assumes "kernel_files_ok k"
  shows "snd (fold run_line (remoteSampleScript k) ([], latest)) =
    (case ParseUint (TrimSpace (hd (kf_memcur k))) of
       (_, Some _) \<Rightarrow> latest | (memCurrent, None) \<Rightarrow> Some (sample_of k memCurrent))"
  by (subst script_butlast)
     (auto simp: fold_script_block [OF assms] run_line_def parseRemoteStats_script [OF assms]
      split: prod.split option.split)

text \<open>The files of a container, as the sampler on its host reads them.\<close>

definition host_files :: "kernel_files \<Rightarrow> docker_target \<Rightarrow> files \<Rightarrow> bool" where
  "host_files k t f \<longleftrightarrow>
     f (cgroup_file t ''cpu.stat'') = Inr (text_of (kf_cpu k)) \<and>
     f (cgroup_file t ''memory.current'') = Inr (text_of (kf_memcur k)) \<and>
     f (cgroup_file t ''memory.max'') = Inr (text_of (kf_memmax k)) \<and>
     f (cgroup_file t ''memory.stat'') = Inr (text_of (kf_memstat k)) \<and>
     f (''/proc/'' @ show_nat (dt_pid t) @ ''/net/dev'') = Inr (text_of (kf_netdev k)) \<and>
     f ''/proc/stat'' = Inr (text_of (kf_procstat k))"

lemma single_text: "length ls = 1 \<Longrightarrow> TrimSpace (text_of ls) = TrimSpace (hd ls)"
  by (auto simp: length_Suc_conv text_of_def)

lemma parseMemoryMax_text: "length ls = 1 \<Longrightarrow> parseMemoryMax (text_of ls) m = parseMemoryMax (hd ls) m"
  by (simp add: parseMemoryMax_def single_text)

lemma readTarget_host:
  assumes ok: "kernel_files_ok k" and host: "host_files k t f"
    and mem: "systemMemoryTotal s = parseMemTotal (kf_meminfo k)" and "200 * 1000000 \<le> now - sysReadAt s"
  shows "fst (readTarget f now t s) =
    (case ParseUint (TrimSpace (hd (kf_memcur k))) of
       (_, Some _) \<Rightarrow> Inl (Some (Foreign ''strconv.ParseUint'')) | (memCurrent, None) \<Rightarrow> Inr (sample_of k memCurrent))"
proof -
  have lines: "plain_lines ls \<Longrightarrow> split_on CHR 0x0A (text_of ls) = ls @ [[]]" for ls
    by (rule split_on_text_of) (simp add: plain_lines_def)
  from ok have one: "length (kf_memcur k) = 1" "length (kf_memmax k) = 1"
    and pl: "plain_lines (kf_cpu k)" "plain_lines (kf_memstat k)" "plain_lines (kf_procstat k)" "plain_lines (kf_netdev k)"
    by (simp_all add: kernel_files_ok_def)
  from assms(4) have sys: "system_cpu f now s =
      (Inr (parseProcStat (kf_procstat k)), s\<lparr>sysCPUNs := fst (parseProcStat (kf_procstat k)),
        sysCPUCount := snd (parseProcStat (kf_procstat k)), sysReadAt := now\<rparr>)"
    using host by (simp add: system_cpu_def readLines_def host_files_def lines pl split: prod.split)
  show ?thesis
    using host mem
    by (auto simp: readTarget_def readLines_def readUint_def host_files_def lines pl sys single_text [OF one(1)]
        parseMemoryMax_text [OF one(2)] lines_or_none_def sample_of_def split: prod.split option.split)
qed

text \<open>C34: The sampler on the host of a container and the sampler that runs a script in it give the same sample when
  they see the same files of the kernel.\<close>

theorem samplers_agree:
  assumes "kernel_files_ok k" "host_files k t f"
    and "systemMemoryTotal s = parseMemTotal (kf_meminfo k)" "200 * 1000000 \<le> now - sysReadAt s"
  shows "fst (readTarget f now t s) = Inr sample \<longleftrightarrow>
    snd (fold run_line (remoteSampleScript k) ([], None)) = Some sample"
  unfolding readTarget_host [OF assms] run_script [OF assms(1)]
  by (auto split: prod.split option.split)

definition ex_kernel :: kernel_files where
  "ex_kernel = \<lparr>kf_cpu = [''usage_usec 42'', ''user_usec 40''], kf_memcur = [''4096''], kf_memmax = [''max''],
     kf_memstat = [''inactive_file 96''], kf_procstat = [''cpu  1 2'', ''cpu0 1 2''], kf_meminfo = [''MemTotal: 16 kB''],
     kf_netdev = [''Inter-|   Receive'', ''  eth0: 10 1 0 0 0 0 0 0 7 1'']\<rparr>"

definition ex_target :: docker_target where
  "ex_target = \<lparr>fullContainerId = ''ab'', dt_pid = 7\<rparr>"

definition ex_files :: files where
  "ex_files p = (case map_of
     [(''/sys/fs/cgroup/system.slice/docker-ab.scope/cpu.stat'', kf_cpu ex_kernel),
      (''/sys/fs/cgroup/system.slice/docker-ab.scope/memory.current'', kf_memcur ex_kernel),
      (''/sys/fs/cgroup/system.slice/docker-ab.scope/memory.max'', kf_memmax ex_kernel),
      (''/sys/fs/cgroup/system.slice/docker-ab.scope/memory.stat'', kf_memstat ex_kernel),
      (''/proc/7/net/dev'', kf_netdev ex_kernel), (''/proc/stat'', kf_procstat ex_kernel)] p of
     None \<Rightarrow> Inl None | Some ls \<Rightarrow> Inr (text_of ls))"

lemma show_nat_seven: "show_nat 7 = ''7''"
  by (subst show_nat.simps) (simp, code_simp)

lemma ex_paths:
  "cgroup_file ex_target ''cpu.stat'' = ''/sys/fs/cgroup/system.slice/docker-ab.scope/cpu.stat''"
  "cgroup_file ex_target ''memory.current'' = ''/sys/fs/cgroup/system.slice/docker-ab.scope/memory.current''"
  "cgroup_file ex_target ''memory.max'' = ''/sys/fs/cgroup/system.slice/docker-ab.scope/memory.max''"
  "cgroup_file ex_target ''memory.stat'' = ''/sys/fs/cgroup/system.slice/docker-ab.scope/memory.stat''"
  by code_simp+

lemma ex_proc_path: "''/proc/'' @ show_nat (dt_pid ex_target) @ ''/net/dev'' = ''/proc/7/net/dev''"
  by (simp add: ex_target_def show_nat_seven)

lemma ex_kernel_ok: "kernel_files_ok ex_kernel" "host_files ex_kernel ex_target ex_files"
  by code_simp (simp add: host_files_def ex_paths ex_proc_path [simplified] ex_files_def)

lemma ex_memcur: "ParseUint (TrimSpace (hd (kf_memcur ex_kernel))) = (4096, None)"
  by (simp add: ex_kernel_def ParseUint_def TrimSpace_def is_space_def digit_value_def max_uint_def)

lemma samplers_agree_witness:
  "fst (readTarget ex_files 200000000 ex_target
     \<lparr>systemMemoryTotal = parseMemTotal (kf_meminfo ex_kernel), targetCache = Map.empty, sysReadAt = 0,
      sysCPUNs = 0, sysCPUCount = 0\<rparr>) = Inr (sample_of ex_kernel 4096)"
  by (subst samplers_agree [OF ex_kernel_ok]) (simp_all add: run_script [OF ex_kernel_ok(1)] ex_memcur)

end
