(* ===== verification/Sockets.thy ===== *)
theory Sockets
  imports Ring Errors Auth
begin

text \<open>
  The namespaces over the socket.io server: \<open>src/socket/namespace.go\<close>, \<open>manager.go\<close> and \<open>socket.go\<close>. The
  server itself is third-party code. A socket is a number, and what is emitted to sockets is kept in a log.
  The first part gives the methods as functions. The second part gives them as threads whose steps are the
  sections between two mutexes, since connections and messages run concurrently.
\<close>

section \<open>State\<close>

text \<open>The interface \<open>Ring\<close> of a backlog, which value rings and byte rings implement.\<close>

record ('r, 'o) ring_ops =
  ring_Add :: "'o \<Rightarrow> 'r \<Rightarrow> 'r"
  ring_AddMany :: "'o list \<Rightarrow> 'r \<Rightarrow> 'r"
  ring_Items :: "'r \<Rightarrow> 'o list"
  ring_Clear :: "'r \<Rightarrow> 'r"

definition value_ring_ops :: "'o \<Rightarrow> ('o value_ring, 'o) ring_ops" where
  "value_ring_ops z = \<lparr>ring_Add = ValueRing_Add, ring_AddMany = ValueRing_AddMany, ring_Items = ValueRing_Items,
     ring_Clear = ValueRing_Clear z\<rparr>"

definition byte_ring_ops :: "(byte_ring, char) ring_ops" where
  "byte_ring_ops = \<lparr>ring_Add = ByteRing_Add, ring_AddMany = ByteRing_AddMany, ring_Items = ByteRing_Items,
     ring_Clear = ByteRing_Clear\<rparr>"

text \<open>Each connection makes a \<open>ConnectedUser\<close> of its own, so that the socket stands for the pointer.\<close>

record ConnectedUser =
  cu_socket :: nat
  cu_user :: "authenticated_user option"

record 'r namespace =
  connectedClients :: "ConnectedUser list"
  connectedClientsMap :: "string \<rightharpoonup> ConnectedUser"
  useRawInput :: bool
  useRawOutput :: bool
  isAnonymous :: bool
  backlog :: "'r option"
  sioNamespaceName :: string

text \<open>
  Input types: whether the type is \<open>string\<close>, the conversion of a raw string to it, and the decoder of JSON.
\<close>

record 'i input_type =
  it_is_string :: bool
  it_raw :: "string \<Rightarrow> 'i option"
  it_unmarshal :: "string \<Rightarrow> 'i result"

definition CreateIONamespace :: "'i input_type \<Rightarrow> bool \<Rightarrow> 'r option \<Rightarrow> bool \<Rightarrow> string list \<Rightarrow> 'r namespace" where
  "CreateIONamespace I anonymous bl rawOutput namespacePath =
     \<lparr>connectedClients = [], connectedClientsMap = Map.empty, useRawInput = it_is_string I, useRawOutput = rawOutput,
      isAnonymous = anonymous, backlog = bl, sioNamespaceName = ''/'' @ join ''/'' namespacePath\<rparr>"

definition CreateInputNamespace :: "'i input_type \<Rightarrow> bool \<Rightarrow> 'r option \<Rightarrow> string list \<Rightarrow> 'r namespace" where
  "CreateInputNamespace I anonymous bl namespacePath = CreateIONamespace I anonymous bl True namespacePath"

definition any_type :: "unit input_type" where
  "any_type = \<lparr>it_is_string = False, it_raw = (\<lambda>_. Some ()), it_unmarshal = (\<lambda>_. Inr ())\<rparr>"

definition CreateOutputNamespace :: "bool \<Rightarrow> 'r option \<Rightarrow> bool \<Rightarrow> string list \<Rightarrow> 'r namespace" where
  "CreateOutputNamespace anonymous bl rawOutput namespacePath =
     CreateIONamespace any_type anonymous bl rawOutput namespacePath"

section \<open>Users\<close>

text \<open>
  The manager keeps the users by access token. The middleware runs before a socket connects to a namespace; it
  returns the text of the error with which the connection is refused.
\<close>

definition GetAuthUser :: "('tok \<rightharpoonup> authenticated_user) \<Rightarrow> 'tok \<Rightarrow> authenticated_user option" where
  "GetAuthUser users accessToken = users accessToken"

definition SocketAuthenticatorMiddleware ::
  "'tok jwt \<Rightarrow> (authenticated_user \<Rightarrow> bool) option \<Rightarrow> auth_manager \<Rightarrow> int \<Rightarrow> 'tok option
    \<Rightarrow> ('tok \<rightharpoonup> authenticated_user) \<Rightarrow> string option \<times> ('tok \<rightharpoonup> authenticated_user)" where
  "SocketAuthenticatorMiddleware J accessCheck m now token users =
     (case token of
        None \<Rightarrow> (Some ''Unauthorized'', users)
      | Some accessToken \<Rightarrow>
          (case AuthenticateUser J m accessToken now of
             Inl _ \<Rightarrow> (Some ''Invalid Token'', users)
           | Inr authUser \<Rightarrow>
               if (case accessCheck of None \<Rightarrow> False | Some check \<Rightarrow> \<not> check authUser) then (Some ''No Access'', users)
               else (None, users(accessToken \<mapsto> authUser))))"

section \<open>Clients\<close>

definition getAllClients :: "'r namespace \<Rightarrow> ConnectedUser list" where
  "getAllClients m = connectedClients m"

definition getClientsFor :: "string list \<Rightarrow> 'r namespace \<Rightarrow> ConnectedUser list" where
  "getClientsFor userIds m = List.map_filter (connectedClientsMap m) userIds"

text \<open>\<open>client.IsAdmin\<close> panics for a client without a user, then the value is \<open>None\<close>.\<close>

definition getAdminClients :: "'r namespace \<Rightarrow> ConnectedUser list option" where
  "getAdminClients m =
     (if \<exists>c \<in> set (connectedClients m). cu_user c = None then None
      else Some (filter (\<lambda>c. IsAdmin (the (cu_user c))) (connectedClients m)))"

definition addClient :: "ConnectedUser \<Rightarrow> 'r namespace \<Rightarrow> 'r namespace" where
  "addClient client m =
     (case cu_user client of
        None \<Rightarrow> m\<lparr>connectedClients := connectedClients m @ [client]\<rparr>
      | Some authUser \<Rightarrow>
          m\<lparr>connectedClients := connectedClients m @ [client],
            connectedClientsMap := (connectedClientsMap m)(UserId authUser \<mapsto> client)\<rparr>)"

definition client_index :: "ConnectedUser \<Rightarrow> 'r namespace \<Rightarrow> nat option" where
  "client_index client m = find_index (\<lambda>c. cu_socket c = cu_socket client) (connectedClients m)"

text \<open>The handler of \<open>disconnect\<close>. For an anonymous client the index is looked up before the mutex is taken.\<close>

definition removeClient :: "ConnectedUser \<Rightarrow> authenticated_user \<Rightarrow> 'r namespace \<Rightarrow> 'r namespace" where
  "removeClient client authUser m =
     (case client_index client m of
        None \<Rightarrow> m\<lparr>connectedClientsMap := (connectedClientsMap m)(UserId authUser := None)\<rparr>
      | Some i \<Rightarrow>
          m\<lparr>connectedClients := remove_at i (connectedClients m),
            connectedClientsMap := (connectedClientsMap m)(UserId authUser := None)\<rparr>)"

definition removeAnonymousAt :: "nat \<Rightarrow> 'r namespace \<Rightarrow> 'r namespace option" where
  "removeAnonymousAt i m =
     (if i < length (connectedClients m) then Some (m\<lparr>connectedClients := remove_at i (connectedClients m)\<rparr>)
      else None)"

section \<open>Messages\<close>

text \<open>What is emitted: the event \<open>data\<close> with a message, raw or wrapped, or the event \<open>backlog\<close>.\<close>

datatype 'o emission =
    Data 'o | DataBulk "'o list" | DataOk "'o ok_response"
  | Backlog "'o list" | BacklogOk "'o ok_response list"

datatype 'o batch = One 'o | Many "'o list"

fun items_of :: "'o batch \<Rightarrow> 'o list" where
  "items_of (One x) = [x]"
| "items_of (Many xs) = xs"

definition addBacklog :: "('r, 'o) ring_ops \<Rightarrow> 'o batch \<Rightarrow> 'r namespace \<Rightarrow> 'r namespace" where
  "addBacklog R msg m =
     m\<lparr>backlog := map_option (\<lambda>r. case msg of One x \<Rightarrow> ring_Add R x r | Many xs \<Rightarrow> ring_AddMany R xs r) (backlog m)\<rparr>"

definition ClearBacklog :: "('r, 'o) ring_ops \<Rightarrow> 'r namespace \<Rightarrow> 'r namespace option" where
  "ClearBacklog R m = (case backlog m of None \<Rightarrow> None | Some r \<Rightarrow> Some (m\<lparr>backlog := Some (ring_Clear R r)\<rparr>))"

fun message_emissions :: "bool \<Rightarrow> 'o batch \<Rightarrow> 'o emission list" where
  "message_emissions raw (One x) = (if raw then [Data x] else [DataOk (CreateSocketOkResponse x)])"
| "message_emissions raw (Many xs) = (if raw then [DataBulk xs] else map (\<lambda>x. DataOk (CreateSocketOkResponse x)) xs)"

definition emissions :: "bool \<Rightarrow> 'o batch \<Rightarrow> ConnectedUser list \<Rightarrow> (nat \<times> 'o emission) list" where
  "emissions raw msg receivers = concat (map (\<lambda>c. map (Pair (cu_socket c)) (message_emissions raw msg)) receivers)"

definition backlogItems :: "('r, 'o) ring_ops \<Rightarrow> bool \<Rightarrow> 'r \<Rightarrow> 'o emission" where
  "backlogItems R raw r =
     (if raw then Backlog (ring_Items R r) else BacklogOk (map CreateSocketOkResponse (ring_Items R r)))"

text \<open>\<open>sendTo\<close> and \<open>sendBulkTo\<close> on a namespace and the log.\<close>

definition sendTo ::
  "('r, 'o) ring_ops \<Rightarrow> 'o \<Rightarrow> ConnectedUser list \<Rightarrow> 'r namespace \<Rightarrow> 'r namespace \<times> (nat \<times> 'o emission) list" where
  "sendTo R msg receivers m = (addBacklog R (One msg) m, emissions (useRawOutput m) (One msg) receivers)"

definition sendBulkTo ::
  "('r, 'o) ring_ops \<Rightarrow> 'o list \<Rightarrow> ConnectedUser list \<Rightarrow> 'r namespace \<Rightarrow> 'r namespace \<times> (nat \<times> 'o emission) list" where
  "sendBulkTo R msgs receivers m = (addBacklog R (Many msgs) m, emissions (useRawOutput m) (Many msgs) receivers)"

definition Send :: "('r, 'o) ring_ops \<Rightarrow> 'o \<Rightarrow> 'r namespace \<Rightarrow> 'r namespace \<times> (nat \<times> 'o emission) list" where
  "Send R msg m = sendTo R msg (getAllClients m) m"

definition SendBulk :: "('r, 'o) ring_ops \<Rightarrow> 'o list \<Rightarrow> 'r namespace \<Rightarrow> 'r namespace \<times> (nat \<times> 'o emission) list" where
  "SendBulk R msgs m = sendBulkTo R msgs (getAllClients m) m"

definition SendTo ::
  "('r, 'o) ring_ops \<Rightarrow> 'o \<Rightarrow> string list \<Rightarrow> 'r namespace \<Rightarrow> 'r namespace \<times> (nat \<times> 'o emission) list" where
  "SendTo R msg receivers m = (if isAnonymous m then (m, []) else sendTo R msg (getClientsFor receivers m) m)"

definition SendBulkTo ::
  "('r, 'o) ring_ops \<Rightarrow> 'o list \<Rightarrow> string list \<Rightarrow> 'r namespace \<Rightarrow> 'r namespace \<times> (nat \<times> 'o emission) list" where
  "SendBulkTo R msgs receivers m = (if isAnonymous m then (m, []) else sendBulkTo R msgs (getClientsFor receivers m) m)"

definition SendToAdmins ::
  "('r, 'o) ring_ops \<Rightarrow> 'o \<Rightarrow> 'r namespace \<Rightarrow> ('r namespace \<times> (nat \<times> 'o emission) list) option" where
  "SendToAdmins R msg m =
     (if isAnonymous m then Some (m, [])
      else (case getAdminClients m of None \<Rightarrow> None | Some clients \<Rightarrow> Some (sendTo R msg clients m)))"

definition SendBulkToAdmins ::
  "('r, 'o) ring_ops \<Rightarrow> 'o list \<Rightarrow> 'r namespace \<Rightarrow> ('r namespace \<times> (nat \<times> 'o emission) list) option" where
  "SendBulkToAdmins R msgs m =
     (if isAnonymous m then Some (m, [])
      else (case getAdminClients m of None \<Rightarrow> None | Some clients \<Rightarrow> Some (sendBulkTo R msgs clients m)))"

section \<open>Input\<close>

text \<open>
  The arguments of an event: strings, functions that acknowledge, and values of other types, with the name of
  the type. \<open>handleData\<close> calls the handler of the namespace with the data, the user and the two functions that
  answer. The handler is a function on a state that yields its answers; each reaches the function that
  acknowledges, or nobody when there is none.
\<close>

datatype raw_arg = RawString string | RawAck nat | RawOther string

datatype 'a reply = Answer "'a ok_response" | Failure error_response

fun type_name :: "raw_arg \<Rightarrow> string" where
  "type_name (RawString _) = ''string''"
| "type_name (RawAck _) = ''func([]interface {}, error)''"
| "type_name (RawOther t) = t"

definition split_ack :: "raw_arg list \<Rightarrow> nat option \<times> raw_arg list" where
  "split_ack raw = (if raw = [] then (None, [])
     else (case last raw of RawAck k \<Rightarrow> (Some k, butlast raw) | _ \<Rightarrow> (None, raw)))"

definition acknowledge :: "nat option \<Rightarrow> 'a reply list \<Rightarrow> (nat \<times> 'a reply) list" where
  "acknowledge ack replies = (case ack of None \<Rightarrow> [] | Some k \<Rightarrow> map (Pair k) replies)"

definition reject :: "nat option \<Rightarrow> string \<Rightarrow> (nat \<times> 'a reply) list" where
  "reject ack msg =
     acknowledge ack [Failure (CreateSocketErrorResponse (Wrap (Sentinel ErrInvalidSocketRequest) msg))]"

definition decode_input :: "'i input_type \<Rightarrow> bool \<Rightarrow> string \<Rightarrow> string + 'i" where
  "decode_input I rawInput dataRaw =
     (if rawInput then
        (case it_raw I dataRaw of
           None \<Rightarrow> Inl ''namespace expects another type, cannot use raw string input''
         | Some data \<Rightarrow> Inr data)
      else (case it_unmarshal I dataRaw of
           Inl err \<Rightarrow> Inl (''invalid JSON payload: '' @ error_text err)
         | Inr data \<Rightarrow> Inr data))"

definition handleData ::
  "'i input_type \<Rightarrow> ('i \<Rightarrow> authenticated_user \<Rightarrow> 's \<Rightarrow> 'a reply list \<times> 's) \<Rightarrow> 'r namespace \<Rightarrow> authenticated_user
    \<Rightarrow> raw_arg list \<Rightarrow> 's \<Rightarrow> (nat \<times> 'a reply) list \<times> 's" where
  "handleData I onData m authUser raw s =
     (case split_ack raw of
        (ack, []) \<Rightarrow> (reject ack ''no data provided'', s)
      | (ack, RawString dataRaw # _) \<Rightarrow>
          (case decode_input I (useRawInput m) dataRaw of
             Inl msg \<Rightarrow> (reject ack msg, s)
           | Inr data \<Rightarrow> (case onData data authUser s of (replies, s) \<Rightarrow> (acknowledge ack replies, s)))
      | (ack, arg # _) \<Rightarrow> (reject ack (''expected a string payload, got '' @ type_name arg), s))"

section \<open>Connections and messages as threads\<close>

datatype send_target = Everyone | Users "string list" | Admins

text \<open>
  The places of a thread. A connection passes the middleware with the number of the state the authentication
  manager is in and the time, then \<open>handleConnection\<close>. \<open>Elsewhere\<close> is the middleware of another namespace of the same manager.
\<close>

datatype ('tok, 'o) ns_pc =
    Handshake nat "'tok option" nat int
  | Elsewhere "'tok option" "(authenticated_user \<Rightarrow> bool) option" nat int
  | HandleConnection nat "'tok option"
  | AddClient ConnectedUser
  | Replay ConnectedUser
  | Greeting ConnectedUser "'o emission"
  | Emitting "(nat \<times> 'o emission) list"
  | Online ConnectedUser
  | Leaving ConnectedUser
  | RemoveAt nat
  | Sending "'o batch" send_target
  | AddBacklog "'o batch" "ConnectedUser list"
  | Refused string
  | Finished
  | Panicked

record ('r, 'o, 'tok) ns_env =
  ne_ring :: "('r, 'o) ring_ops"
  ne_check :: "(authenticated_user \<Rightarrow> bool) option"
  ne_jwt :: "'tok jwt"
  ne_auth :: "nat \<Rightarrow> auth_manager"

record ('r, 'o, 'tok) ns_world =
  w_ns :: "'r namespace"
  w_users :: "'tok \<rightharpoonup> authenticated_user"
  w_log :: "(nat \<times> 'o emission) list"

definition target_clients :: "send_target \<Rightarrow> 'r namespace \<Rightarrow> ConnectedUser list option" where
  "target_clients t m =
     (case t of
        Everyone \<Rightarrow> Some (getAllClients m)
      | Users userIds \<Rightarrow> Some (getClientsFor userIds m)
      | Admins \<Rightarrow> getAdminClients m)"

text \<open>One step of a thread. A place that has ended has no step.\<close>

fun ns_exec ::
  "('r, 'o, 'tok) ns_env \<Rightarrow> ('tok, 'o) ns_pc \<Rightarrow> ('r, 'o, 'tok) ns_world \<Rightarrow> (('tok, 'o) ns_pc \<times> ('r, 'o, 'tok) ns_world) option"
where
  "ns_exec E (Handshake k token m now) w =
     (if isAnonymous (w_ns w) then Some (HandleConnection k token, w)
      else (case SocketAuthenticatorMiddleware (ne_jwt E) (ne_check E) (ne_auth E m) now token (w_users w) of
        (Some err, users) \<Rightarrow> Some (Refused err, w)
      | (None, users) \<Rightarrow> Some (HandleConnection k token, w\<lparr>w_users := users\<rparr>)))"
| "ns_exec E (Elsewhere token check m now) w =
     Some (Finished, w\<lparr>w_users := snd (SocketAuthenticatorMiddleware (ne_jwt E) check (ne_auth E m) now token (w_users w))\<rparr>)"
| "ns_exec E (HandleConnection k token) w =
     (if isAnonymous (w_ns w) then Some (AddClient \<lparr>cu_socket = k, cu_user = None\<rparr>, w)
      else (case Option.bind token (GetAuthUser (w_users w)) of
        None \<Rightarrow> Some (Finished, w)
      | Some authUser \<Rightarrow> Some (AddClient \<lparr>cu_socket = k, cu_user = Some authUser\<rparr>, w)))"
| "ns_exec E (AddClient c) w =
     Some (if isAnonymous (w_ns w) then Online c else Replay c, w\<lparr>w_ns := addClient c (w_ns w)\<rparr>)"
| "ns_exec E (Replay c) w =
     Some (case backlog (w_ns w) of
        None \<Rightarrow> Online c
      | Some r \<Rightarrow> Greeting c (backlogItems (ne_ring E) (useRawOutput (w_ns w)) r), w)"
| "ns_exec E (Greeting c e) w = Some (Online c, w\<lparr>w_log := w_log w @ [(cu_socket c, e)]\<rparr>)"
| "ns_exec E (Emitting []) w = Some (Finished, w)"
| "ns_exec E (Emitting (e # es)) w = Some (Emitting es, w\<lparr>w_log := w_log w @ [e]\<rparr>)"
| "ns_exec E (Leaving c) w =
     (case cu_user c of
        Some authUser \<Rightarrow> Some (Finished, w\<lparr>w_ns := removeClient c authUser (w_ns w)\<rparr>)
      | None \<Rightarrow> Some (case client_index c (w_ns w) of None \<Rightarrow> Finished | Some i \<Rightarrow> RemoveAt i, w))"
| "ns_exec E (RemoveAt i) w =
     Some (case removeAnonymousAt i (w_ns w) of
        None \<Rightarrow> (Panicked, w) | Some m \<Rightarrow> (Finished, w\<lparr>w_ns := m\<rparr>))"
| "ns_exec E (Sending msg t) w =
     Some (if t \<noteq> Everyone \<and> isAnonymous (w_ns w) then Finished
       else (case target_clients t (w_ns w) of None \<Rightarrow> Panicked | Some receivers \<Rightarrow> AddBacklog msg receivers), w)"
| "ns_exec E (AddBacklog msg receivers) w =
     Some (Emitting (emissions (useRawOutput (w_ns w)) msg receivers), w\<lparr>w_ns := addBacklog (ne_ring E) msg (w_ns w)\<rparr>)"
| "ns_exec E _ w = None"

text \<open>
  Threads run one step at a time, in any order. A socket gets the number of its thread. A client can leave as
  soon as it has been added.
\<close>

fun ns_request :: "nat \<Rightarrow> ('tok, 'o) ns_pc \<Rightarrow> bool" where
  "ns_request n (Handshake k _ _ _) \<longleftrightarrow> k = n"
| "ns_request n (Elsewhere _ _ _ _) \<longleftrightarrow> True"
| "ns_request n (Sending _ _) \<longleftrightarrow> True"
| "ns_request n _ \<longleftrightarrow> False"

fun joined :: "('tok, 'o) ns_pc \<Rightarrow> ConnectedUser option" where
  "joined (Replay c) = Some c"
| "joined (Greeting c _) = Some c"
| "joined (Online c) = Some c"
| "joined _ = None"

inductive ns_step ::
  "('r, 'o, 'tok) ns_env \<Rightarrow> ('tok, 'o) ns_pc list \<times> ('r, 'o, 'tok) ns_world
    \<Rightarrow> ('tok, 'o) ns_pc list \<times> ('r, 'o, 'tok) ns_world \<Rightarrow> bool" for E where
  ns_begin: "ns_request (length ps) p \<Longrightarrow> ns_step E (ps, w) (ps @ [p], w)"
| ns_run: "i < length ps \<Longrightarrow> ns_exec E (ps ! i) w = Some (p, w') \<Longrightarrow> ns_step E (ps, w) (ps[i := p], w')"
| ns_leave: "p \<in> set ps \<Longrightarrow> joined p = Some c \<Longrightarrow> ns_step E (ps, w) (ps @ [Leaving c], w)"

inductive_cases ns_stepE: "ns_step E s s'"

definition ns_start :: "'r namespace \<Rightarrow> ('tok, 'o) ns_pc list \<times> ('r, 'o, 'tok) ns_world" where
  "ns_start m = ([], \<lparr>w_ns = m, w_users = Map.empty, w_log = []\<rparr>)"

definition ns_reachable ::
  "('r, 'o, 'tok) ns_env \<Rightarrow> 'r namespace \<Rightarrow> ('tok, 'o) ns_pc list \<times> ('r, 'o, 'tok) ns_world \<Rightarrow> bool" where
  "ns_reachable E m s \<longleftrightarrow> (ns_step E)\<^sup>*\<^sup>* (ns_start m) s"

section \<open>What always holds\<close>

definition passes :: "('r, 'o, 'tok) ns_env \<Rightarrow> authenticated_user \<Rightarrow> bool" where
  "passes E u \<longleftrightarrow> (case ne_check E of None \<Rightarrow> True | Some check \<Rightarrow> check u)"

text \<open>
  The user of a client comes from a token that authenticates it, and with that token a user has passed the check.
  The two differ only when the users of the manager change between the middleware and the connection.
\<close>

definition admitted :: "('r, 'o, 'tok) ns_env \<Rightarrow> authenticated_user \<Rightarrow> bool" where
  "admitted E u \<longleftrightarrow> (\<exists>token m now m' now' u'.
     AuthenticateUser (ne_jwt E) (ne_auth E m) token now = Inr u \<and>
     AuthenticateUser (ne_jwt E) (ne_auth E m') token now' = Inr u' \<and> passes E u')"

definition users_ok :: "('r, 'o, 'tok) ns_env \<Rightarrow> ('tok \<rightharpoonup> authenticated_user) \<Rightarrow> bool" where
  "users_ok E users \<longleftrightarrow> (\<forall>token u. users token = Some u \<longrightarrow> (\<exists>m now. AuthenticateUser (ne_jwt E) (ne_auth E m) token now = Inr u))"

definition joined_at :: "('tok, 'o) ns_pc list \<Rightarrow> nat \<Rightarrow> ConnectedUser option" where
  "joined_at ps k = (if k < length ps then joined (ps ! k) else None)"

definition client_ok :: "('tok, 'o) ns_pc list \<Rightarrow> ConnectedUser \<Rightarrow> bool" where
  "client_ok ps c \<longleftrightarrow> joined_at ps (cu_socket c) = Some c"

fun pc_ok :: "('r, 'o, 'tok) ns_env \<Rightarrow> ('tok, 'o) ns_pc list \<Rightarrow> nat \<Rightarrow> ('tok, 'o) ns_pc \<Rightarrow> bool" where
  "pc_ok E ps i (Handshake k _ _ _) \<longleftrightarrow> k = i"
| "pc_ok E ps i (HandleConnection k token) \<longleftrightarrow> k = i \<and>
     (\<exists>t m now u. token = Some t \<and> AuthenticateUser (ne_jwt E) (ne_auth E m) t now = Inr u \<and> passes E u)"
| "pc_ok E ps i (AddClient c) \<longleftrightarrow> cu_socket c = i \<and> (\<exists>u. cu_user c = Some u \<and> admitted E u)"
| "pc_ok E ps i (Replay c) \<longleftrightarrow> cu_socket c = i \<and> (\<exists>u. cu_user c = Some u \<and> admitted E u)"
| "pc_ok E ps i (Greeting c _) \<longleftrightarrow> cu_socket c = i \<and> (\<exists>u. cu_user c = Some u \<and> admitted E u)"
| "pc_ok E ps i (Online c) \<longleftrightarrow> cu_socket c = i \<and> (\<exists>u. cu_user c = Some u \<and> admitted E u)"
| "pc_ok E ps i (Leaving c) \<longleftrightarrow> client_ok ps c"
| "pc_ok E ps i (RemoveAt _) \<longleftrightarrow> False"
| "pc_ok E ps i Panicked \<longleftrightarrow> False"
| "pc_ok E ps i (AddBacklog _ receivers) \<longleftrightarrow> (\<forall>c \<in> set receivers. client_ok ps c)"
| "pc_ok E ps i (Emitting es) \<longleftrightarrow> (\<forall>k \<in> set (map fst es). joined_at ps k \<noteq> None)"
| "pc_ok E ps i _ \<longleftrightarrow> True"

definition clients_ok :: "'r namespace \<Rightarrow> bool" where
  "clients_ok m \<longleftrightarrow>
     distinct (map cu_socket (connectedClients m)) \<and>
     (\<forall>c \<in> set (connectedClients m). cu_user c \<noteq> None) \<and>
     (\<forall>i c. connectedClientsMap m i = Some c \<longrightarrow>
        c \<in> set (connectedClients m) \<and> (\<exists>u. cu_user c = Some u \<and> UserId u = i))"

definition ns_inv :: "('r, 'o, 'tok) ns_env \<Rightarrow> ('tok, 'o) ns_pc list \<times> ('r, 'o, 'tok) ns_world \<Rightarrow> bool" where
  "ns_inv E s \<longleftrightarrow>
     (case s of (ps, w) \<Rightarrow>
       \<not> isAnonymous (w_ns w) \<and> clients_ok (w_ns w) \<and> users_ok E (w_users w) \<and>
       (\<forall>c \<in> set (connectedClients (w_ns w)). client_ok ps c) \<and>
       (\<forall>i < length ps. pc_ok E ps i (ps ! i)) \<and>
       (\<forall>k \<in> set (map fst (w_log w)). joined_at ps k \<noteq> None))"

subsection \<open>The clients\<close>

lemma distinct_remove_at: "distinct (map f xs) \<Longrightarrow> distinct (map f (remove_at i xs))"
proof (induction xs arbitrary: i)
  case (Cons y ys)
  then show ?case using set_remove_at_subset by (cases i) fastforce+
qed simp

lemma clients_ok_add:
  assumes "clients_ok m" "cu_user c = Some u" "cu_socket c \<notin> cu_socket ` set (connectedClients m)"
  shows "clients_ok (addClient c m)"
  using assms by (auto simp: clients_ok_def addClient_def)

lemma clients_ok_remove:
  assumes ok: "clients_ok m" and u: "cu_user c = Some u"
    and same: "\<And>d. d \<in> set (connectedClients m) \<Longrightarrow> cu_socket d = cu_socket c \<Longrightarrow> d = c"
  shows "clients_ok (removeClient c u m)"
proof (cases "client_index c m")
  case None
  then show ?thesis using ok by (auto simp: removeClient_def clients_ok_def)
next
  case (Some i)
  then have i: "i < length (connectedClients m)" "connectedClients m ! i = c"
    using same by (auto simp: client_index_def dest!: find_index_SomeD)
  have "d \<in> set (remove_at i (connectedClients m))"
    if "connectedClientsMap m j = Some d" "j \<noteq> UserId u" for j d
  proof (rule in_set_remove_at)
    from ok that have d: "d \<in> set (connectedClients m)" "\<exists>v. cu_user d = Some v \<and> UserId v = j"
      by (auto simp: clients_ok_def)
    then show "d \<in> set (connectedClients m)" by simp
    from d(2) that u have "d \<noteq> c" by auto
    then show "d \<noteq> connectedClients m ! i" using i by simp
  qed (rule i)
  then show ?thesis
    using ok Some set_remove_at_subset distinct_remove_at
    by (fastforce simp: removeClient_def clients_ok_def)
qed

lemma removeClient_subset: "set (connectedClients (removeClient c u m)) \<subseteq> set (connectedClients m)"
  by (auto simp: removeClient_def dest: set_remove_at_subset [THEN subsetD] split: option.splits)

lemma addClient_set: "set (connectedClients (addClient c m)) = insert c (set (connectedClients m))"
  by (auto simp: addClient_def split: option.split)

lemma namespace_fields [simp]:
  "isAnonymous (addClient c m) = isAnonymous m" "isAnonymous (removeClient c u m) = isAnonymous m"
  "isAnonymous (addBacklog R msg m) = isAnonymous m"
  "connectedClients (addBacklog R msg m) = connectedClients m"
  "connectedClientsMap (addBacklog R msg m) = connectedClientsMap m"
  "useRawOutput (addClient c m) = useRawOutput m" "useRawOutput (addBacklog R msg m) = useRawOutput m"
  "backlog (addClient c m) = backlog m" "backlog (removeClient c u m) = backlog m"
  by (simp_all add: addClient_def removeClient_def addBacklog_def split: option.split)

lemma clients_ok_addBacklog [simp]: "clients_ok (addBacklog R msg m) = clients_ok m"
  by (simp add: clients_ok_def)

text \<open>Where messages go: to connected clients, of the given users or admins.\<close>

lemma getClientsFor_in:
  "clients_ok m \<Longrightarrow> c \<in> set (getClientsFor us m) \<longleftrightarrow>
     c \<in> set (connectedClients m) \<and> (\<exists>u. cu_user c = Some u \<and> UserId u \<in> set us \<and> connectedClientsMap m (UserId u) = Some c)"
  by (force simp: getClientsFor_def clients_ok_def map_filter_def)

lemma getAdminClients_ok:
  "clients_ok m \<Longrightarrow> getAdminClients m = Some (filter (\<lambda>c. IsAdmin (the (cu_user c))) (connectedClients m))"
  by (auto simp: getAdminClients_def clients_ok_def)

lemma target_clients_in:
  assumes "clients_ok m"
  obtains rs where "target_clients t m = Some rs" "set rs \<subseteq> set (connectedClients m)"
proof (cases t)
  case Everyone
  then show ?thesis using that by (simp add: target_clients_def getAllClients_def)
next
  case (Users us)
  then show ?thesis using that getClientsFor_in [OF assms] by (simp add: target_clients_def subset_iff)
next
  case Admins
  then show ?thesis using that by (simp add: target_clients_def getAdminClients_ok [OF assms])
qed

lemma emissions_in: "k \<in> set (map fst (emissions raw msg rs)) \<Longrightarrow> \<exists>c \<in> set rs. cu_socket c = k"
  by (auto simp: emissions_def)

subsection \<open>The threads\<close>

lemma joined_kept: "ns_exec E p w = Some (p', w') \<Longrightarrow> joined p = Some c \<Longrightarrow> joined p' = Some c"
  by (cases p) (auto split: option.splits)

lemma joined_at_step:
  assumes "i < length ps" "ns_exec E (ps ! i) w = Some (p, w')" "joined_at ps k = Some c"
  shows "joined_at (ps[i := p]) k = Some c"
  using assms joined_kept [OF assms(2)] by (auto simp: joined_at_def nth_list_update split: if_splits)

lemma joined_at_begin: "joined_at ps k = Some c \<Longrightarrow> joined_at (ps @ [p]) k = Some c"
  by (auto simp: joined_at_def nth_append split: if_splits)

text \<open>What is true of a place stays true when threads move on or begin.\<close>

lemma pc_ok_mono:
  assumes "\<forall>k c. joined_at ps k = Some c \<longrightarrow> joined_at ps' k = Some c" "pc_ok E ps i p"
  shows "pc_ok E ps' i p"
  using assms by (cases p) (fastforce simp: client_ok_def)+

lemma ns_inv_begin:
  assumes "ns_inv E (ps, w)" "pc_ok E (ps @ [p]) (length ps) p"
  shows "ns_inv E (ps @ [p], w)"
proof -
  have mono: "\<forall>k c. joined_at ps k = Some c \<longrightarrow> joined_at (ps @ [p]) k = Some c"
    using joined_at_begin by blast
  have "pc_ok E (ps @ [p]) i ((ps @ [p]) ! i)" if "i < length (ps @ [p])" for i
    using assms that
    by (cases "i = length ps") (auto simp: ns_inv_def nth_append less_Suc_eq intro!: pc_ok_mono [OF mono])
  then show ?thesis using assms(1) mono by (fastforce simp: ns_inv_def client_ok_def)
qed

text \<open>A step of a thread changes the world as the invariant says; the places of the others follow.\<close>

lemma ns_inv_run:
  assumes inv: "ns_inv E (ps, w)" and i: "i < length ps" and ex: "ns_exec E (ps ! i) w = Some (p, w')"
    and here: "pc_ok E (ps[i := p]) i p"
    and world: "\<not> isAnonymous (w_ns w')" "clients_ok (w_ns w')" "users_ok E (w_users w')"
      "\<forall>c \<in> set (connectedClients (w_ns w')). client_ok (ps[i := p]) c"
      "\<forall>k \<in> set (map fst (w_log w')). joined_at (ps[i := p]) k \<noteq> None"
  shows "ns_inv E (ps[i := p], w')"
proof -
  have mono: "\<forall>k c. joined_at ps k = Some c \<longrightarrow> joined_at (ps[i := p]) k = Some c"
    using joined_at_step [OF i ex] by blast
  have "pc_ok E (ps[i := p]) j (ps[i := p] ! j)" if "j < length ps" for j
    using inv that here i by (cases "j = i") (auto simp: ns_inv_def intro!: pc_ok_mono [OF mono])
  with world show ?thesis by (simp add: ns_inv_def)
qed

lemma users_ok_middleware:
  assumes "users_ok E users"
  shows "users_ok E (snd (SocketAuthenticatorMiddleware (ne_jwt E) check (ne_auth E m) now token users))"
  using assms by (auto simp: SocketAuthenticatorMiddleware_def users_ok_def split: option.splits sum.splits)

lemma users_ok_passed:
  "SocketAuthenticatorMiddleware (ne_jwt E) check (ne_auth E m) now token users = (err, users') \<Longrightarrow> users_ok E users \<Longrightarrow> users_ok E users'"
  using users_ok_middleware by (metis snd_conv)

lemma middleware_passed:
  assumes "SocketAuthenticatorMiddleware (ne_jwt E) (ne_check E) (ne_auth E m) now token users = (None, users')"
  shows "\<exists>t u. token = Some t \<and> AuthenticateUser (ne_jwt E) (ne_auth E m) t now = Inr u \<and> passes E u"
  using assms
  by (auto simp: SocketAuthenticatorMiddleware_def passes_def split: option.splits sum.splits if_splits)

lemma client_ok_user:
  assumes "ns_inv E (ps, w)" "client_ok ps c"
  shows "\<exists>u. cu_user c = Some u \<and> admitted E u"
proof -
  from assms(2) have j: "cu_socket c < length ps" "joined (ps ! cu_socket c) = Some c"
    by (auto simp: client_ok_def joined_at_def split: if_splits)
  then have "pc_ok E ps (cu_socket c) (ps ! cu_socket c)" using assms(1) by (simp add: ns_inv_def)
  with j(2) show ?thesis by (cases "ps ! cu_socket c") auto
qed

text \<open>The state of the world after a step, whatever the thread.\<close>

lemma ns_world_step:
  assumes inv: "ns_inv E (ps, w)" and i: "i < length ps" and ex: "ns_exec E (ps ! i) w = Some (p, w')"
  shows "\<not> isAnonymous (w_ns w')" "clients_ok (w_ns w')" "users_ok E (w_users w')"
proof -
  from inv i have ok: "\<not> isAnonymous (w_ns w)" "clients_ok (w_ns w)" "users_ok E (w_users w)"
    "\<forall>c \<in> set (connectedClients (w_ns w)). client_ok ps c" "pc_ok E ps i (ps ! i)"
    by (auto simp: ns_inv_def)
  from ok(1) ex show "\<not> isAnonymous (w_ns w')"
    by (cases "(E, ps ! i, w)" rule: ns_exec.cases)
      (auto simp: removeAnonymousAt_def split: prod.splits option.splits if_splits)
  show "users_ok E (w_users w')"
    using ok(3) ex
    by (cases "(E, ps ! i, w)" rule: ns_exec.cases)
      (auto split: prod.splits option.splits if_splits dest: users_ok_passed intro: users_ok_middleware)
  show "clients_ok (w_ns w')"
  proof (cases "ps ! i")
    case (AddClient c)
    then obtain u where c: "cu_socket c = i" "cu_user c = Some u" using ok(5) by auto
    have "cu_socket c \<notin> cu_socket ` set (connectedClients (w_ns w))"
      using ok(4) i AddClient c(1) by (auto simp: client_ok_def joined_at_def)
    then show ?thesis using clients_ok_add [OF ok(2) c(2)] AddClient ex by auto
  next
    case (Leaving c)
    then obtain u where u: "cu_user c = Some u" using client_ok_user [OF inv] ok(5) by auto
    have "d = c" if "d \<in> set (connectedClients (w_ns w))" "cu_socket d = cu_socket c" for d
    proof -
      have "client_ok ps d" "client_ok ps c" using ok(4,5) that(1) Leaving by auto
      then show ?thesis using that(2) unfolding client_ok_def by (metis option.inject)
    qed
    then have "clients_ok (removeClient c u (w_ns w))" by (rule clients_ok_remove [OF ok(2) u])
    then show ?thesis using Leaving ex u by auto
  next
    case (Emitting es)
    then show ?thesis using ok ex by (cases es) auto
  qed (use ok ex in \<open>auto split: prod.splits option.splits if_splits\<close>)
qed

lemma client_ok_mono:
  assumes "\<forall>k c. joined_at ps k = Some c \<longrightarrow> joined_at ps' k = Some c" "client_ok ps c"
  shows "client_ok ps' c"
  using assms by (simp add: client_ok_def)

lemma ns_inv_step:
  assumes inv: "ns_inv E (ps, w)" and i: "i < length ps" and ex: "ns_exec E (ps ! i) w = Some (p, w')"
  shows "ns_inv E (ps[i := p], w')"
proof (rule ns_inv_run [OF inv i ex _ ns_world_step [OF inv i ex]])
  from inv i have ok: "\<not> isAnonymous (w_ns w)" "clients_ok (w_ns w)" "users_ok E (w_users w)"
    "\<forall>c \<in> set (connectedClients (w_ns w)). client_ok ps c" "pc_ok E ps i (ps ! i)"
    "\<forall>k \<in> set (map fst (w_log w)). joined_at ps k \<noteq> None"
    by (auto simp: ns_inv_def)
  have mono: "\<forall>k c. joined_at ps k = Some c \<longrightarrow> joined_at (ps[i := p]) k = Some c"
    using joined_at_step [OF i ex] by blast
  have clients: "\<forall>c \<in> set (connectedClients (w_ns w)). client_ok (ps[i := p]) c"
    using ok(4) client_ok_mono [OF mono] by blast
  have logged: "\<forall>k \<in> set (map fst (w_log w)). joined_at (ps[i := p]) k \<noteq> None"
    using ok(6) mono by (metis not_None_eq)
  have here: "joined p = Some c \<Longrightarrow> joined_at (ps[i := p]) i = Some c" for c
    using i by (simp add: joined_at_def)
  show "\<forall>c \<in> set (connectedClients (w_ns w')). client_ok (ps[i := p]) c"
  proof (cases "ps ! i")
    case (AddClient c)
    then have "joined p = Some c" "cu_socket c = i" using ex ok(1,5) by auto
    then have "client_ok (ps[i := p]) c" using here by (simp add: client_ok_def)
    then show ?thesis using AddClient ex clients by (auto simp: addClient_set)
  next
    case (Leaving c)
    then show ?thesis using ex clients removeClient_subset by (fastforce split: option.splits)
  next
    case (Emitting es)
    then show ?thesis using ex clients by (cases es) auto
  qed (use ex clients ok(5) in \<open>auto split: prod.splits option.splits if_splits\<close>)
  show "\<forall>k \<in> set (map fst (w_log w')). joined_at (ps[i := p]) k \<noteq> None"
  proof (cases "ps ! i")
    case (Emitting es)
    then show ?thesis using ex logged ok(5) mono by (cases es) auto
  next
    case (Greeting c e)
    then have "joined p = Some c" "cu_socket c = i" using ex ok(5) by auto
    then show ?thesis using here logged Greeting ex by auto
  qed (use ex logged in \<open>auto split: prod.splits option.splits if_splits\<close>)
  show "pc_ok E (ps[i := p]) i p"
  proof (cases "ps ! i")
    case (Handshake k token m now)
    then show ?thesis using ex ok middleware_passed by (fastforce split: prod.splits option.splits)
  next
    case (HandleConnection k token)
    then obtain t m now u where h: "k = i" "token = Some t" "AuthenticateUser (ne_jwt E) (ne_auth E m) t now = Inr u" "passes E u"
      using ok(5) by auto
    have "admitted E v" if v: "w_users w t = Some v" for v
    proof -
      obtain m' now' where "AuthenticateUser (ne_jwt E) (ne_auth E m') t now' = Inr v"
        using ok(3) v unfolding users_ok_def by blast
      then show ?thesis using h(3,4) unfolding admitted_def by blast
    qed
    then show ?thesis using h ok ex HandleConnection by (auto simp: GetAuthUser_def split: option.splits)
  next
    case (Emitting es)
    then have "\<forall>k \<in> set (map fst es). joined_at ps k \<noteq> None" using ok(5) by simp
    then have "\<forall>k \<in> set (map fst es). joined_at (ps[i := p]) k \<noteq> None" using mono by (metis not_None_eq)
    then show ?thesis using ex Emitting by (cases es) auto
  next
    case (Leaving c)
    then obtain u where "cu_user c = Some u" using client_ok_user [OF inv] ok(5) by auto
    then show ?thesis using ex Leaving by auto
  next
    case (Sending msg t)
    obtain rs where "target_clients t (w_ns w) = Some rs" "set rs \<subseteq> set (connectedClients (w_ns w))"
      using target_clients_in [OF ok(2)] by metis
    moreover from this clients have "\<forall>c \<in> set rs. client_ok (ps[i := p]) c" by blast
    ultimately show ?thesis using ex Sending ok(1) by auto
  next
    case (AddBacklog msg rs)
    then have "\<forall>c \<in> set rs. client_ok (ps[i := p]) c" using ok(5) client_ok_mono [OF mono] by auto
    then show ?thesis using ex AddBacklog emissions_in by (fastforce simp: client_ok_def)
  qed (use ex ok in \<open>auto split: prod.splits option.splits if_splits\<close>)
qed

lemma ns_request_ok: "ns_request n p \<Longrightarrow> pc_ok E ps n p"
  by (cases p) auto

lemma ns_inv_reachable:
  assumes "ns_reachable E m s" "\<not> isAnonymous m" "connectedClients m = []" "connectedClientsMap m = Map.empty"
  shows "ns_inv E s"
  using assms(1) unfolding ns_reachable_def
proof (induction rule: rtranclp_induct)
  case base
  then show ?case using assms by (simp add: ns_start_def ns_inv_def clients_ok_def users_ok_def)
next
  case (step s s')
  from step(2) step(3) show ?case
  proof (cases rule: ns_step.cases)
    case (ns_begin ps p w)
    then show ?thesis using ns_inv_begin ns_request_ok step(3) by blast
  next
    case (ns_run i ps w p w')
    then show ?thesis using ns_inv_step step(3) by blast
  next
    case (ns_leave p ps c w)
    then obtain j where j: "j < length ps" "ps ! j = p" by (auto simp: in_set_conv_nth)
    then have "pc_ok E ps j p" using step(3) ns_leave by (auto simp: ns_inv_def)
    then have "cu_socket c = j" using ns_leave by (cases p) auto
    then have "client_ok ps c" using j ns_leave by (simp add: client_ok_def joined_at_def)
    then have "client_ok (ps @ [Leaving c]) c" by (simp add: client_ok_def joined_at_begin)
    then have "pc_ok E (ps @ [Leaving c]) (length ps) (Leaving c)" by simp
    then show ?thesis using ns_leave step(3) ns_inv_begin by metis
  qed
qed

section \<open>Properties\<close>

lemma emitted_client:
  assumes "ns_inv E (ps, w)" "(k, e) \<in> set (w_log w)"
  shows "k < length ps \<and> (\<exists>c u. joined (ps ! k) = Some c \<and> cu_socket c = k \<and> cu_user c = Some u \<and> admitted E u)"
proof -
  from assms(2) have "k \<in> set (map fst (w_log w))" by force
  with assms(1) obtain c where c: "joined_at ps k = Some c" by (auto simp: ns_inv_def)
  then have k: "k < length ps" "joined (ps ! k) = Some c" by (auto simp: joined_at_def split: if_splits)
  then have "pc_ok E ps k (ps ! k)" using assms(1) by (simp add: ns_inv_def)
  with k show ?thesis by (cases "ps ! k") auto
qed

text \<open>A user that was admitted has the id of one that passed the check, as an id does not change with a token.\<close>

definition stable_claims :: "'tok jwt \<Rightarrow> bool" where
  "stable_claims J \<longleftrightarrow> (\<forall>tok kf now c kf' now' c'. parse J tok kf now = Inr c \<longrightarrow> parse J tok kf' now' = Inr c' \<longrightarrow> c = c')"

lemma authenticated_id:
  assumes "AuthenticateUser J m token now = Inr u" "users_by_id m"
  shows "\<exists>c. parse J token (tokenParser m) now = Inr c \<and> c ''id'' = Some (JString (UserId u))"
  using assms by (auto simp: AuthenticateUser_def users_by_id_def split: sum.splits option.splits json.splits)

lemma admitted_id:
  assumes "admitted E u" "stable_claims (ne_jwt E)" "\<forall>n. users_by_id (ne_auth E n)"
  shows "\<exists>u'. passes E u' \<and> UserId u' = UserId u"
proof -
  from assms(1) obtain token m now m' now' u' where
    a: "AuthenticateUser (ne_jwt E) (ne_auth E m) token now = Inr u"
      "AuthenticateUser (ne_jwt E) (ne_auth E m') token now' = Inr u'" "passes E u'"
    unfolding admitted_def by blast
  obtain c where c: "parse (ne_jwt E) token (tokenParser (ne_auth E m)) now = Inr c"
      "c ''id'' = Some (JString (UserId u))"
    using authenticated_id [OF a(1)] assms(3) by blast
  obtain c' where c': "parse (ne_jwt E) token (tokenParser (ne_auth E m')) now' = Inr c'"
      "c' ''id'' = Some (JString (UserId u'))"
    using authenticated_id [OF a(2)] assms(3) by blast
  have "c = c'" using assms(2) c(1) c'(1) unfolding stable_claims_def by blast
  with c c' a(3) show ?thesis by auto
qed

text \<open>C11: In an authenticated namespace nothing is emitted to a socket, live or from the backlog, that did not connect
  with a token that authenticates its user and passed the access check, whatever connections, disconnections and
  messages run concurrently.\<close>

theorem emitted_only_to_admitted:
  assumes "ns_reachable E m (ps, w)" "\<not> isAnonymous m" "connectedClients m = []" "connectedClientsMap m = Map.empty"
    and "(k, e) \<in> set (w_log w)"
  shows "k < length ps \<and> (\<exists>c u. joined (ps ! k) = Some c \<and> cu_socket c = k \<and> cu_user c = Some u \<and> admitted E u)"
  using ns_inv_reachable [OF assms(1-4)] assms(5) by (rule emitted_client)

text \<open>Messages to given users, or to the admins, go to connected clients of these users and of no others, and to
  no client twice when no user is named twice. Looking for the admins does not panic.\<close>

theorem sent_only_to_addressed:
  assumes "ns_reachable E m (ps, w)" "\<not> isAnonymous m" "connectedClients m = []" "connectedClientsMap m = Map.empty"
  shows "(\<forall>k \<in> set (map fst (snd (SendTo R x us (w_ns w)))).
      \<exists>c \<in> set (connectedClients (w_ns w)). \<exists>u. cu_socket c = k \<and> cu_user c = Some u \<and> UserId u \<in> set us) \<and>
    (\<exists>m' out. SendToAdmins R x (w_ns w) = Some (m', out) \<and>
      (\<forall>k \<in> set (map fst out).
        \<exists>c \<in> set (connectedClients (w_ns w)). \<exists>u. cu_socket c = k \<and> cu_user c = Some u \<and> IsAdmin u))"
proof -
  have "ns_inv E (ps, w)" by (rule ns_inv_reachable [OF assms])
  then have ok: "\<not> isAnonymous (w_ns w)" "clients_ok (w_ns w)" by (auto simp: ns_inv_def)
  have users: "\<forall>c \<in> set (connectedClients (w_ns w)). \<exists>u. cu_user c = Some u"
    using ok(2) by (auto simp: clients_ok_def)
  show ?thesis
    using ok(1) users
    by (auto simp: SendTo_def SendToAdmins_def sendTo_def getAdminClients_ok [OF ok(2)] getClientsFor_in [OF ok(2)]
        simp del: set_map dest!: emissions_in) fastforce+
qed

subsection \<open>Runs\<close>

text \<open>A run given by its choices: a thread begins, moves on, or its client leaves.\<close>

datatype ('tok, 'o) ns_choice = Begin "('tok, 'o) ns_pc" | Move nat | Leave nat

fun ns_choose ::
  "('r, 'o, 'tok) ns_env \<Rightarrow> ('tok, 'o) ns_choice \<Rightarrow> ('tok, 'o) ns_pc list \<times> ('r, 'o, 'tok) ns_world
    \<Rightarrow> (('tok, 'o) ns_pc list \<times> ('r, 'o, 'tok) ns_world) option" where
  "ns_choose E (Begin p) (ps, w) = (if ns_request (length ps) p then Some (ps @ [p], w) else None)"
| "ns_choose E (Move i) (ps, w) =
     (if i < length ps then map_option (\<lambda>(p, w'). (ps[i := p], w')) (ns_exec E (ps ! i) w) else None)"
| "ns_choose E (Leave i) (ps, w) =
     (if i < length ps then map_option (\<lambda>c. (ps @ [Leaving c], w)) (joined (ps ! i)) else None)"

fun ns_follow ::
  "('r, 'o, 'tok) ns_env \<Rightarrow> ('tok, 'o) ns_choice list \<Rightarrow> ('tok, 'o) ns_pc list \<times> ('r, 'o, 'tok) ns_world
    \<Rightarrow> (('tok, 'o) ns_pc list \<times> ('r, 'o, 'tok) ns_world) option" where
  "ns_follow E [] s = Some s"
| "ns_follow E (c # cs) s = Option.bind (ns_choose E c s) (ns_follow E cs)"

lemma ns_choose_step: "ns_choose E c s = Some s' \<Longrightarrow> ns_step E s s'"
  by (cases "(E, c, s)" rule: ns_choose.cases) (auto split: if_splits intro: ns_step.intros ns_leave [OF nth_mem])

lemma ns_follow_steps: "ns_follow E cs s = Some s' \<Longrightarrow> (ns_step E)\<^sup>*\<^sup>* s s'"
  by (induction cs arbitrary: s)
    (auto simp: Option.bind_eq_Some_conv intro: converse_rtranclp_into_rtranclp ns_choose_step)

lemma ns_follow_reachable: "ns_follow E cs (ns_start m) = Some s \<Longrightarrow> ns_reachable E m s"
  unfolding ns_reachable_def by (rule ns_follow_steps)

text \<open>A library whose tokens are the ids of the users, two users and a namespace for them.\<close>

definition name_jwt :: "string jwt" where
  "name_jwt = \<lparr>parse = (\<lambda>tok kf now. Inr [''id'' \<mapsto> JString tok]), sign = (\<lambda>c key. Inr [])\<rparr>"

definition two_users :: auth_manager where
  "two_users = demo_manager\<lparr>authenticatedUsers :=
     [''a'' \<mapsto> \<lparr>UserId = ''a'', Collections = [], IsAdmin = False\<rparr>, ''b'' \<mapsto> \<lparr>UserId = ''b'', Collections = [], IsAdmin = False\<rparr>]\<rparr>"

definition ex_ns :: "nat value_ring namespace" where
  "ex_ns = CreateOutputNamespace False (Some (CreateValueRing 0 2)) True [''lab'']"

definition ex_ns_env :: "(nat value_ring, nat, string) ns_env" where
  "ex_ns_env = \<lparr>ne_ring = value_ring_ops 0, ne_check = None, ne_jwt = name_jwt,
     ne_auth = (\<lambda>_. two_users)\<rparr>"

definition join_as :: "string \<Rightarrow> nat \<Rightarrow> (string, nat) ns_pc" where
  "join_as name k = Handshake k (Some name) 0 0"

text \<open>The log and the backlog at the end of a run in which no thread has anything left to do.\<close>

definition settled :: "('tok, 'o) ns_pc \<Rightarrow> bool" where
  "settled p \<longleftrightarrow> (case p of Online _ \<Rightarrow> True | Finished \<Rightarrow> True | _ \<Rightarrow> False)"

definition run_log :: "(string, nat) ns_choice list \<Rightarrow> ((nat \<times> nat emission) list \<times> nat list) option" where
  "run_log cs = (case ns_follow ex_ns_env cs (ns_start ex_ns) of
     None \<Rightarrow> None
   | Some (ps, w) \<Rightarrow> if list_all settled ps then Some (w_log w, ValueRing_Items (the (backlog (w_ns w)))) else None)"

lemma run_log_reachable:
  "run_log cs = Some (l, items) \<Longrightarrow> \<exists>ps w. ns_reachable ex_ns_env ex_ns (ps, w) \<and> list_all settled ps \<and>
     w_log w = l \<and> ValueRing_Items (the (backlog (w_ns w))) = items"
  by (auto simp: run_log_def split: option.splits prod.splits if_splits intro: ns_follow_reachable)

lemma lost_run:
  "run_log ([Begin (Sending (One 7) Everyone), Begin (join_as ''a'' 1), Move 0] @ replicate 5 (Move 1) @ [Move 0, Move 0])
     = Some ([(1, Backlog [])], [7])"
  by code_simp

lemma repeated_run:
  "run_log ([Begin (Sending (One 7) Everyone), Begin (join_as ''a'' 1)] @ replicate 3 (Move 1) @ [Move 0, Move 0, Move 1, Move 1, Move 0, Move 0])
     = Some ([(1, Backlog [7]), (1, Data 7)], [7])"
  by code_simp

lemma missed_run:
  "run_log ([Begin (join_as ''a'' 0), Begin (join_as ''a'' 1)] @ replicate 5 (Move 0) @ replicate 5 (Move 1) @ [Leave 1, Move 2,
      Begin (Sending (One 7) (Users [''a''])), Move 3, Move 3, Move 3])
     = Some ([(0, Backlog []), (1, Backlog [])], [7])"
  by code_simp

lemma leaked_run:
  "run_log ([Begin (Sending (One 7) (Users [''a''])), Move 0, Move 0, Move 0, Begin (join_as ''b'' 1)] @ replicate 5 (Move 1))
     = Some ([(1, Backlog [7])], [7])"
  by code_simp

text \<open>A client that connects while a message is sent to everyone can miss it, when it is added between the look at
  the clients and the write to the backlog and reads the backlog in between, and can get it twice, once from the
  backlog and once live.\<close>

theorem connecting_client_misses_or_repeats:
  "(\<exists>ps w. ns_reachable ex_ns_env ex_ns (ps, w) \<and> list_all settled ps \<and>
      w_log w = [(1, Backlog [])] \<and> ValueRing_Items (the (backlog (w_ns w))) = [7]) \<and>
   (\<exists>ps w. ns_reachable ex_ns_env ex_ns (ps, w) \<and> list_all settled ps \<and>
      w_log w = [(1, Backlog [7]), (1, Data 7)] \<and> ValueRing_Items (the (backlog (w_ns w))) = [7])"
  using run_log_reachable [OF lost_run] run_log_reachable [OF repeated_run] by simp

text \<open>A message to user \<open>a\<close> reaches nobody although a client of \<open>a\<close> is connected, once a second client of \<open>a\<close> has
  left; and a message to \<open>a\<close> is shown to \<open>b\<close>, who connects later, since it is kept in the backlog of all.\<close>

theorem addressed_message_missed_or_leaked:
  "(\<exists>ps w. ns_reachable ex_ns_env ex_ns (ps, w) \<and> list_all settled ps \<and>
      w_log w = [(0, Backlog []), (1, Backlog [])] \<and> ValueRing_Items (the (backlog (w_ns w))) = [7]) \<and>
   (\<exists>ps w. ns_reachable ex_ns_env ex_ns (ps, w) \<and> list_all settled ps \<and>
      w_log w = [(1, Backlog [7])] \<and> ValueRing_Items (the (backlog (w_ns w))) = [7])"
  using run_log_reachable [OF missed_run] run_log_reachable [OF leaked_run] by simp

subsection \<open>One after the other\<close>

text \<open>What a socket receives, and messages sent to everyone one after the other.\<close>

definition received :: "nat \<Rightarrow> (nat \<times> 'o emission) list \<Rightarrow> 'o emission list" where
  "received k l = map snd (filter (\<lambda>e. fst e = k) l)"

fun send_all :: "('r, 'o) ring_ops \<Rightarrow> 'o list \<Rightarrow> 'r namespace \<Rightarrow> 'r namespace \<times> (nat \<times> 'o emission) list" where
  "send_all R [] m = (m, [])"
| "send_all R (x # xs) m =
     (case Send R x m of (m1, l1) \<Rightarrow> case send_all R xs m1 of (m2, l2) \<Rightarrow> (m2, l1 @ l2))"

lemma received_append [simp]: "received k (a @ b) = received k a @ received k b"
  by (simp add: received_def)

lemma received_pairs: "received k (map (Pair j) es) = (if j = k then es else [])"
  by (induction es) (auto simp: received_def)

lemma received_emissions:
  assumes "distinct (map cu_socket cs)"
  shows "received k (emissions raw msg cs) = (if k \<in> cu_socket ` set cs then message_emissions raw msg else [])"
  using assms
proof (induction cs)
  case (Cons c cs)
  then show ?case by (auto simp: emissions_def received_pairs)
qed (simp add: emissions_def received_def)

lemma Send_facts:
  "connectedClients (fst (Send R x m)) = connectedClients m" "useRawOutput (fst (Send R x m)) = useRawOutput m"
  "backlog (fst (Send R x m)) = map_option (ring_Add R x) (backlog m)"
  by (simp_all add: Send_def sendTo_def) (simp add: addBacklog_def)

lemma received_Send:
  assumes "distinct (map cu_socket (connectedClients m))" "useRawOutput m"
  shows "received k (snd (Send R x m)) = (if k \<in> cu_socket ` set (connectedClients m) then [Data x] else [])"
  using assms by (simp add: Send_def sendTo_def getAllClients_def received_emissions)

lemma send_all_facts:
  assumes "distinct (map cu_socket (connectedClients m))" "useRawOutput m"
  shows "connectedClients (fst (send_all R xs m)) = connectedClients m \<and> useRawOutput (fst (send_all R xs m)) \<and>
    backlog (fst (send_all R xs m)) = map_option (fold (ring_Add R) xs) (backlog m) \<and>
    received k (snd (send_all R xs m)) = (if k \<in> cu_socket ` set (connectedClients m) then map Data xs else [])"
  using assms
proof (induction xs arbitrary: m)
  case Nil
  then show ?case by (simp add: received_def option.map_ident)
next
  case (Cons x xs)
  obtain m1 l1 where s: "Send R x m = (m1, l1)" by fastforce
  with Cons(2-) have "received k l1 = (if k \<in> cu_socket ` set (connectedClients m) then [Data x] else [])"
    using received_Send [of m k R x] by simp
  moreover have "connectedClients m1 = connectedClients m" "useRawOutput m1" "backlog m1 = map_option (ring_Add R x) (backlog m)"
    using Send_facts [of R x m] s Cons(3) by simp_all
  ultimately show ?case
    using Cons(1) [of m1] Cons(2-) s by (auto simp: option.map_comp o_def split: prod.split)
qed

text \<open>A client that connects after some messages and before others, none of them at the same time, receives first
  the most recent of the earlier ones, as many as the backlog holds, and then each later one once, in order.\<close>

theorem client_sees_recent_then_live:
  assumes "useRawOutput m" "backlog m = Some (CreateValueRing z n)" "clients_ok m"
    and "cu_socket c \<notin> cu_socket ` set (connectedClients m)" "cu_user c = Some u"
    and "send_all (value_ring_ops z) xs m = (m1, l1)" "m2 = addClient c m1"
    and "l2 = [(cu_socket c, backlogItems (value_ring_ops z) (useRawOutput m2) (the (backlog m2)))]"
    and "send_all (value_ring_ops z) ys m2 = (m3, l3)"
  shows "received (cu_socket c) (l1 @ l2 @ l3) = Backlog (take_last (nat n) xs) # map Data ys"
proof -
  have m1: "connectedClients m1 = connectedClients m" "useRawOutput m1"
      "backlog m1 = Some (fold ValueRing_Add xs (CreateValueRing z n))" "received (cu_socket c) l1 = []"
    using send_all_facts [of m "value_ring_ops z" xs "cu_socket c"] assms
    by (auto simp: clients_ok_def value_ring_ops_def)
  have m2: "distinct (map cu_socket (connectedClients m2))" "cu_socket c \<in> cu_socket ` set (connectedClients m2)"
    using m1(1) assms(3-5,7) by (auto simp: addClient_def clients_ok_def)
  have "ValueRing_Items (fold ValueRing_Add xs (CreateValueRing z n)) = take_last (nat n) xs"
  proof -
    have "ValueRing_Items (CreateValueRing z n) = []" "value_ring_cap (CreateValueRing z n) = nat n"
      by (simp_all add: ValueRing_Items_def CreateValueRing_def Let_def)
    then show ?thesis using value_ring.fold_add [OF value_ring_inv_create, of xs z n] by simp
  qed
  moreover have "received (cu_socket c) l3 = map Data ys"
    using send_all_facts [OF m2(1), of "value_ring_ops z" ys "cu_socket c"] m2(2) assms(7,9) m1(2) by simp
  ultimately show ?thesis
    using m1 assms(7,8) by (simp add: received_def backlogItems_def value_ring_ops_def)
qed

theorem client_sees_recent_then_live_witness:
  "received 3 (snd (send_all (value_ring_ops 0) [1, 2, 3] ex_ns) @ [(3, Backlog [2, 3])] @
     snd (send_all (value_ring_ops 0) [4, 5] (addClient \<lparr>cu_socket = 3,
       cu_user = Some \<lparr>UserId = ''a'', Collections = [], IsAdmin = False\<rparr>\<rparr>
       (fst (send_all (value_ring_ops 0) [1, 2, 3] ex_ns))))) = [Backlog [2, 3], Data 4, Data (5 :: nat)]"
proof -
  define c where "c = \<lparr>cu_socket = 3, cu_user = Some \<lparr>UserId = ''a'', Collections = [], IsAdmin = False\<rparr>\<rparr>"
  define m1 where "m1 = fst (send_all (value_ring_ops 0) [1, 2, 3] ex_ns)"
  have b: "the (backlog m1) = fold ValueRing_Add [1, 2, 3] (CreateValueRing 0 2)" "useRawOutput m1"
    unfolding m1_def by code_simp+
  have "[(3, Backlog [2, 3])] = [(cu_socket c, backlogItems (value_ring_ops 0) (useRawOutput (addClient c m1)) (the (backlog (addClient c m1))))]"
    by (simp add: b c_def backlogItems_def value_ring_ops_def) code_simp
  from client_sees_recent_then_live [OF _ _ _ _ _ _ refl this, where m = ex_ns and n = 2 and xs = "[1, 2, 3]"
      and u = "\<lparr>UserId = ''a'', Collections = [], IsAdmin = False\<rparr>" and ys = "[4, 5]"
      and ?l1.0 = "snd (send_all (value_ring_ops 0) [1, 2, 3] ex_ns)"
      and ?m3.0 = "fst (send_all (value_ring_ops 0) [4, 5] (addClient c m1))"
      and ?l3.0 = "snd (send_all (value_ring_ops 0) [4, 5] (addClient c m1))"]
  show ?thesis
    by (simp add: m1_def c_def ex_ns_def CreateOutputNamespace_def CreateIONamespace_def clients_ok_def take_last_def)
qed

text \<open>The witnesses of the two properties of all runs, at the run in which a message reaches the wrong user.\<close>

lemma leaked_state:
  obtains ps w where "ns_reachable ex_ns_env ex_ns (ps, w)" "w_log w = [(1, Backlog [7])]"
  using run_log_reachable [OF leaked_run] by blast

lemma ex_ns_empty: "\<not> isAnonymous ex_ns" "connectedClients ex_ns = []" "connectedClientsMap ex_ns = Map.empty"
  by (simp_all add: ex_ns_def CreateOutputNamespace_def CreateIONamespace_def)

lemma emitted_only_to_admitted_witness:
  "\<exists>ps w. ns_reachable ex_ns_env ex_ns (ps, w) \<and> w_log w = [(1, Backlog [7])] \<and> 1 < length ps \<and>
     (\<exists>c u. joined (ps ! 1) = Some c \<and> cu_socket c = 1 \<and> cu_user c = Some u \<and> admitted ex_ns_env u)"
proof -
  obtain ps w where s: "ns_reachable ex_ns_env ex_ns (ps, w)" "w_log w = [(1, Backlog [7])]" by (rule leaked_state)
  then have "(1, Backlog [7]) \<in> set (w_log w)" by simp
  from emitted_only_to_admitted [OF s(1) ex_ns_empty this] s show ?thesis by blast
qed

lemma sent_only_to_addressed_witness:
  "\<exists>ps w. ns_reachable ex_ns_env ex_ns (ps, w) \<and> w_log w = [(1, Backlog [7])] \<and>
    (\<forall>k \<in> set (map fst (snd (SendTo (value_ring_ops 0) 8 [''b''] (w_ns w)))).
      \<exists>c \<in> set (connectedClients (w_ns w)). \<exists>u. cu_socket c = k \<and> cu_user c = Some u \<and> UserId u \<in> {''b''})"
proof -
  obtain ps w where s: "ns_reachable ex_ns_env ex_ns (ps, w)" "w_log w = [(1, Backlog [7])]" by (rule leaked_state)
  from sent_only_to_addressed [OF s(1) ex_ns_empty, of "value_ring_ops 0" 8 "[''b'']"] s show ?thesis by force
qed

end
