(* ===== verification/Shells.thy ===== *)
theory Shells
  imports Sockets Instances
begin

text \<open>
  The shells of nodes: \<open>src/runtime/shell/service.go\<close>. A shell has a session with a node, which the provider or the
  SSH library opens, a namespace for its data and an entry in \<open>openShells\<close>. The commands of users, the reader of
  each shell, the manager that closes shells without interaction and the end of the service run concurrently.
  Each is a thread whose steps are the sections between two uses of \<open>openShellsMutex\<close>.
\<close>

section \<open>State\<close>

text \<open>
  A \<open>shellConfig\<close> is known by its address. Its session goes over SSH or is one of the provider; of the session and
  of the namespace the state here is whether they are closed and released. How often \<open>Close\<close> was called on the
  session is counted; what that does to a session of the provider is the provider's.
\<close>

datatype shell_session = OverSsh | OverProvider

record shellConfig =
  sc_id :: string
  sc_owner :: authenticated_user
  sc_labId :: string
  sc_node :: string
  sc_lastInteraction :: int
  sc_cancelled :: bool
  sc_released :: bool
  sc_sessionClosed :: bool
  sc_session :: shell_session
  sc_closeCalls :: nat

record shellData =
  sd_Id :: string
  sd_Node :: string

datatype shellCommand = ShellError | ShellClose

record shellControlData =
  ctl_LabId :: string
  ctl_Command :: shellCommand
  ctl_Node :: string
  ctl_ShellId :: string
  ctl_Message :: string

text \<open>
  \<open>openShells\<close> maps ids to addresses. A loop over it takes its entries in any order, which the steps are
  given. \<open>written\<close> and \<open>shown\<close> are what was written to the sessions, with the user, and sent on the namespaces.
\<close>

record shell_service =
  openShells :: "(string \<times> nat) list"
  shellHeap :: "shellConfig list"
  shellUuids :: nat
  control :: "shellControlData list"
  controlReleased :: bool
  managerCancelled :: bool
  closedOnce :: bool
  written :: "(nat \<times> authenticated_user \<times> string) list"
  shown :: "(nat \<times> string) list"

definition shell_entry :: "string \<Rightarrow> shell_service \<Rightarrow> nat option" where
  "shell_entry shellId s = map_of (openShells s) shellId"

definition delete_entry :: "string \<Rightarrow> shell_service \<Rightarrow> shell_service" where
  "delete_entry shellId s = s\<lparr>openShells := filter (\<lambda>e. fst e \<noteq> shellId) (openShells s)\<rparr>"

definition insert_entry :: "string \<Rightarrow> nat \<Rightarrow> shell_service \<Rightarrow> shell_service" where
  "insert_entry shellId a s = s\<lparr>openShells := (shellId, a) # filter (\<lambda>e. fst e \<noteq> shellId) (openShells s)\<rparr>"

definition on_shell :: "nat \<Rightarrow> (shellConfig \<Rightarrow> shellConfig) \<Rightarrow> shell_service \<Rightarrow> shell_service" where
  "on_shell a f s = s\<lparr>shellHeap := (shellHeap s)[a := f (shellHeap s ! a)]\<rparr>"

section \<open>Sessions over SSH\<close>

text \<open>
  The stages of \<open>openSshSession\<close>, each of which may fail, and what it closes then. The result is the first error.
\<close>

datatype ssh_stage = DialNode | NewClientConn | NewSession | RequestPty | StdinPipe | StdoutPipe | StartShell

datatype ssh_resource = SshSession | SshClient | SshStdin

definition ssh_cleanup :: "ssh_stage \<Rightarrow> ssh_resource list" where
  "ssh_cleanup stage =
     (if stage \<in> {DialNode, NewClientConn} then []
      else if stage = NewSession then [SshClient]
      else [SshSession, SshClient])"

definition openSshSession :: "(ssh_stage \<Rightarrow> go_error option) \<Rightarrow> unit result \<times> ssh_resource list" where
  "openSshSession fails =
     (case find (\<lambda>stage. fails stage \<noteq> None)
             [DialNode, NewClientConn, NewSession, RequestPty, StdinPipe, StdoutPipe, StartShell] of
        None \<Rightarrow> (Inr (), [])
      | Some stage \<Rightarrow> (Inl (the (fails stage)), ssh_cleanup stage))"

text \<open>The user and the methods of the SSH connection. A kind of nodes may have a user and a password configured.\<close>

record node_kind_config =
  SSHUsername :: "string option"
  SSHPassword :: "string option"

datatype ssh_auth = PublicKeys string | Password string

definition ssh_client_config ::
  "(string \<rightharpoonup> node_kind_config) \<Rightarrow> ssh_auth list \<Rightarrow> string \<Rightarrow> string \<times> ssh_auth list" where
  "ssh_client_config kinds defaultSshAuth kind =
     (case kinds kind of
        None \<Rightarrow> (''admin'', defaultSshAuth)
      | Some c \<Rightarrow>
          ((case SSHUsername c of None \<Rightarrow> ''admin'' | Some u \<Rightarrow> u),
           defaultSshAuth @ (case SSHPassword c of None \<Rightarrow> [] | Some p \<Rightarrow> [Password p])))"

definition ssh_key_files :: "string list" where
  "ssh_key_files = [''id_rsa'', ''id_ed25519'', ''id_ecdsa'', ''id_dsa'', ''id_ecdsa_sk'', ''id_ed25519_sk'']"

text \<open>\<open>getSshKeyAuth\<close>: the key files of the home directory that can be read and parsed.\<close>

definition getSshKeyAuth ::
  "string option \<Rightarrow> (string \<Rightarrow> string option) \<Rightarrow> (string \<Rightarrow> string option) \<Rightarrow> ssh_auth list" where
  "getSshKeyAuth home read_file parse_key =
     (case home of
        None \<Rightarrow> []
      | Some h \<Rightarrow>
          List.map_filter (\<lambda>name.
            case read_file (Join [Join [h, ''.ssh''], name]) of
              None \<Rightarrow> None
            | Some d \<Rightarrow> map_option PublicKeys (parse_key d)) ssh_key_files)"

text \<open>Closing skips the end of the input when a write holds the mutex.\<close>

definition sshSession_Close :: "bool \<Rightarrow> ssh_resource list" where
  "sshSession_Close writing = (if writing then [] else [SshStdin]) @ [SshSession, SshClient]"

text \<open>\<open>OpenShell\<close> falls back to the provider when there is no session over SSH.\<close>

definition OpenShell :: "(ssh_stage \<Rightarrow> go_error option) \<Rightarrow> go_error option \<Rightarrow> shell_session result" where
  "OpenShell ssh exec_interactive =
     (case fst (openSshSession ssh) of
        Inr _ \<Rightarrow> Inr OverSsh
      | Inl _ \<Rightarrow> (case exec_interactive of None \<Rightarrow> Inr OverProvider | Some err \<Rightarrow> Inl err))"

section \<open>Closing\<close>

definition control_data :: "shellConfig \<Rightarrow> shellCommand \<Rightarrow> string \<Rightarrow> shellControlData" where
  "control_data c cmd message =
     \<lparr>ctl_LabId = sc_labId c, ctl_Command = cmd, ctl_Node = sc_node c, ctl_ShellId = sc_id c, ctl_Message = message\<rparr>"

definition shellConfig_Close :: "shellConfig \<Rightarrow> shellConfig" where
  "shellConfig_Close c =
     c\<lparr>sc_cancelled := True, sc_released := True, sc_sessionClosed := True, sc_closeCalls := sc_closeCalls c + 1\<rparr>"

definition closeShell :: "nat \<Rightarrow> string \<Rightarrow> shell_service \<Rightarrow> shell_service" where
  "closeShell a reason s =
     on_shell a shellConfig_Close (s\<lparr>control := control s @ [control_data (shellHeap s ! a) ShellClose reason]\<rparr>)"

section \<open>The parts of the commands\<close>

definition CreateShellService :: shell_service where
  "CreateShellService = \<lparr>openShells = [], shellHeap = [], shellUuids = 0, control = [], controlReleased = False,
     managerCancelled = False, closedOnce = False, written = [], shown = []\<rparr>"

definition owned_by :: "string \<Rightarrow> shell_service \<Rightarrow> nat" where
  "owned_by userId s = length (filter (\<lambda>e. UserId (sc_owner (shellHeap s ! snd e)) = userId) (openShells s))"

definition FetchShellsCommand ::
  "('db, 'node, 'h) env \<Rightarrow> (string \<times> nat) list \<Rightarrow> string \<Rightarrow> authenticated_user \<Rightarrow> ('db, 'h) server \<Rightarrow> shell_service
    \<Rightarrow> shellData list result" where
  "FetchShellsCommand E order labId authUser w s =
     (case lab_GetByUuid (e_database E) labId (w_db w) of
        Inl err \<Rightarrow> Inl err
      | Inr targetLab \<Rightarrow>
          if \<not> IsAdmin authUser \<and> coll_Name (lab_Collection targetLab) \<notin> set (Collections authUser)
          then Inl (Sentinel ErrNoAccessToLab)
          else Inr (map (\<lambda>e. \<lparr>sd_Id = fst e, sd_Node = sc_node (shellHeap s ! snd e)\<rparr>)
            (filter (\<lambda>e. sc_labId (shellHeap s ! snd e) = labId \<and>
               UserId (sc_owner (shellHeap s ! snd e)) = UserId authUser) order)))"

definition find_shell_node ::
  "('db, 'node, 'h) env \<Rightarrow> string list \<Rightarrow> string \<Rightarrow> string option \<Rightarrow> nat option \<Rightarrow> nat option \<Rightarrow> authenticated_user
    \<Rightarrow> ('db, 'h) server \<Rightarrow> (instance_node \<times> string) result" where
  "find_shell_node E keys labId nodeName cols rows authUser w =
     (if nodeName = None \<or> cols = None \<or> rows = None then Inl (Sentinel ErrInvalidSocketRequest)
      else GetInstanceNode E keys (Some labId) None None None nodeName None (Some authUser) w)"

definition check_limit :: "int \<Rightarrow> authenticated_user \<Rightarrow> shell_service \<Rightarrow> go_error option" where
  "check_limit userLimit authUser s =
     (if userLimit \<le> int (owned_by (UserId authUser) s) then Some (Sentinel ErrShellLimitReached) else None)"

definition create_shell ::
  "(nat \<Rightarrow> string) \<Rightarrow> shell_session \<Rightarrow> authenticated_user \<Rightarrow> string \<Rightarrow> string \<Rightarrow> int \<Rightarrow> shell_service \<Rightarrow> shell_service" where
  "create_shell uuid shellSession authUser labId nodeName now s =
     s\<lparr>shellHeap := shellHeap s @ [\<lparr>sc_id = uuid (shellUuids s), sc_owner = authUser, sc_labId = labId, sc_node = nodeName,
         sc_lastInteraction = unix now, sc_cancelled = False, sc_released = False, sc_sessionClosed = False,
         sc_session = shellSession, sc_closeCalls = 0\<rparr>],
       shellUuids := shellUuids s + 1\<rparr>"

text \<open>The checks that closing and resizing share.\<close>

definition find_own_shell :: "string \<Rightarrow> authenticated_user \<Rightarrow> shell_service \<Rightarrow> nat result" where
  "find_own_shell shellId authUser s =
     (case shell_entry shellId s of
        None \<Rightarrow> Inl (Sentinel ErrShellNotFound)
      | Some a \<Rightarrow>
          if \<not> IsAdmin authUser \<and> UserId (sc_owner (shellHeap s ! a)) \<noteq> UserId authUser
          then Inl (Sentinel ErrNoAccessToShell) else Inr a)"

definition ResizeShellCommand ::
  "go_error option \<Rightarrow> string option \<Rightarrow> nat option \<Rightarrow> nat option \<Rightarrow> authenticated_user \<Rightarrow> shell_service
    \<Rightarrow> go_error option" where
  "ResizeShellCommand resized shellId cols rows authUser s =
     (case (shellId, cols, rows) of
        (Some i, Some _, Some _) \<Rightarrow>
          (case find_own_shell i authUser s of Inl err \<Rightarrow> Some err | Inr _ \<Rightarrow> resized)
      | _ \<Rightarrow> Some (Sentinel ErrInvalidSocketRequest))"

definition user_data :: "string \<Rightarrow> authenticated_user \<Rightarrow> shell_service \<Rightarrow> nat result" where
  "user_data shellId authUser s =
     (case shell_entry shellId s of
        None \<Rightarrow> Inl (Sentinel ErrShellNotFound)
      | Some a \<Rightarrow>
          if UserId (sc_owner (shellHeap s ! a)) \<noteq> UserId authUser then Inl (Sentinel ErrNoAccessToShell) else Inr a)"

definition write_data ::
  "go_error option \<Rightarrow> nat \<Rightarrow> authenticated_user \<Rightarrow> string \<Rightarrow> int \<Rightarrow> shell_service \<Rightarrow> shell_service" where
  "write_data failure a authUser data now s =
     on_shell a (\<lambda>c. c\<lparr>sc_lastInteraction := unix now\<rparr>)
       (if failure = None then s\<lparr>written := written s @ [(a, authUser, data)]\<rparr> else s)"

text \<open>One round of \<open>runManager\<close>, which holds the mutex.\<close>

definition close_expired :: "int \<Rightarrow> int \<Rightarrow> (string \<times> nat) \<Rightarrow> shell_service \<Rightarrow> shell_service" where
  "close_expired timeout now e s =
     (if timeout < unix now - sc_lastInteraction (shellHeap s ! snd e)
      then delete_entry (fst e) (closeShell (snd e) ''shell was inactive for too long'' s)
      else s)"

definition runManager_round :: "int \<Rightarrow> int \<Rightarrow> (string \<times> nat) list \<Rightarrow> shell_service \<Rightarrow> shell_service" where
  "runManager_round timeout now order s = fold (close_expired timeout now) order s"

section \<open>Threads\<close>

text \<open>
  The places of a thread. Opening a shell starts its reader before the shell has an entry. What a step learns from
  outside is its reply: the state of the instance service, whether a call failed, what was read, the time, and
  the order in which a loop takes the entries.
\<close>

datatype shell_pc =
    OpenCall string "string option" "nat option" "nat option" authenticated_user
  | OpenFound string string authenticated_user
  | OpenCounted string string authenticated_user
  | OpenInsert nat
  | CloseCall "string option" authenticated_user
  | CloseDelete string nat
  | CloseRun nat string
  | UserData string authenticated_user string
  | UserWrite nat authenticated_user string
  | Reader nat
  | ReaderDelete nat
  | ManagerRound
  | ManagerWait
  | CloseService
  | CloseTake
  | CloseEach "nat list"
  | ShellReturned "string result"

datatype ('db, 'h) shell_reply =
    Go
  | SeenServer "string list" "('db, 'h) server"
  | Opened "ssh_stage \<Rightarrow> go_error option" "go_error option" int
  | Called "go_error option" int
  | ReadBytes string
  | ReadEOF
  | ReadError go_error
  | Loop "(string \<times> nat) list" int
  | Stop

record ('db, 'node, 'h) shell_env =
  se_env :: "('db, 'node, 'h) env"
  se_uuid :: "nat \<Rightarrow> string"
  se_UserLimit :: int
  se_Timeout :: int

text \<open>A call returns an error, or the id of the shell it opened and nothing else otherwise.\<close>

definition returned :: "go_error option \<Rightarrow> string result" where
  "returned e = (case e of None \<Rightarrow> Inr [] | Some err \<Rightarrow> Inl err)"

type_synonym shell_outcome = "(shell_pc \<times> shell_pc list \<times> shell_service) option"

definition shell_goto :: "shell_pc \<Rightarrow> shell_service \<Rightarrow> shell_outcome" where
  "shell_goto p s = Some (p, [], s)"

definition same_entries :: "(string \<times> nat) list \<Rightarrow> shell_service \<Rightarrow> bool" where
  "same_entries order s \<longleftrightarrow> mset order = mset (openShells s)"

text \<open>One turn of the loop of \<open>runShell\<close>, with what the read of the session returns.\<close>

definition runShell :: "nat \<Rightarrow> ('db, 'h) shell_reply \<Rightarrow> shell_service \<Rightarrow> shell_outcome" where
  [simp]: "runShell a r s =
     (case r of
        ReadBytes b \<Rightarrow> shell_goto (Reader a) (s\<lparr>shown := shown s @ [(a, b)]\<rparr>)
      | ReadEOF \<Rightarrow> shell_goto (ReaderDelete a) s
      | ReadError err \<Rightarrow>
          shell_goto (ShellReturned (Inr []))
            (if sc_cancelled (shellHeap s ! a) then s
             else s\<lparr>control := control s @ [control_data (shellHeap s ! a) ShellError (error_text err)]\<rparr>)
      | _ \<Rightarrow> None)"

fun shell_exec ::
  "('db, 'node, 'h) shell_env \<Rightarrow> shell_pc \<Rightarrow> ('db, 'h) shell_reply \<Rightarrow> shell_service \<Rightarrow> shell_outcome"
where
  "shell_exec E (OpenCall labId nodeName cols rows u) r s =
     (case r of
        SeenServer keys w \<Rightarrow>
          (case find_shell_node (se_env E) keys labId nodeName cols rows u w of
             Inl err \<Rightarrow> shell_goto (ShellReturned (Inl err)) s
           | Inr _ \<Rightarrow> shell_goto (OpenFound labId (the nodeName) u) s)
      | _ \<Rightarrow> None)"
| "shell_exec E (OpenFound labId nodeName u) r s =
     (case check_limit (se_UserLimit E) u s of
        Some err \<Rightarrow> shell_goto (ShellReturned (Inl err)) s
      | None \<Rightarrow> shell_goto (OpenCounted labId nodeName u) s)"
| "shell_exec E (OpenCounted labId nodeName u) r s =
     (case r of
        Opened ssh exec_interactive now \<Rightarrow>
          (case OpenShell ssh exec_interactive of
             Inl err \<Rightarrow> shell_goto (ShellReturned (Inl err)) s
           | Inr shellSession \<Rightarrow> Some (OpenInsert (length (shellHeap s)), [Reader (length (shellHeap s))],
               create_shell (se_uuid E) shellSession u labId nodeName now s))
      | _ \<Rightarrow> None)"
| "shell_exec E (OpenInsert a) r s =
     shell_goto (ShellReturned (Inr (sc_id (shellHeap s ! a)))) (insert_entry (sc_id (shellHeap s ! a)) a s)"
| "shell_exec E (CloseCall shellId u) r s =
     (case shellId of
        None \<Rightarrow> shell_goto (ShellReturned (Inl (Sentinel ErrInvalidSocketRequest))) s
      | Some i \<Rightarrow>
          (case find_own_shell i u s of
             Inl err \<Rightarrow> shell_goto (ShellReturned (Inl err)) s
           | Inr a \<Rightarrow> shell_goto (CloseDelete i a) s))"
| "shell_exec E (CloseDelete shellId a) r s =
     shell_goto (CloseRun a ''shell was closed by the user'') (delete_entry shellId s)"
| "shell_exec E (CloseRun a reason) r s =
     (case r of Called e _ \<Rightarrow> shell_goto (ShellReturned (returned e)) (closeShell a reason s) | _ \<Rightarrow> None)"
| "shell_exec E (UserData shellId u data) r s =
     (case user_data shellId u s of
        Inl err \<Rightarrow> shell_goto (ShellReturned (Inl err)) s
      | Inr a \<Rightarrow> shell_goto (UserWrite a u data) s)"
| "shell_exec E (UserWrite a u data) r s =
     (case r of Called e now \<Rightarrow> shell_goto (ShellReturned (returned e)) (write_data e a u data now s) | _ \<Rightarrow> None)"
| "shell_exec E (Reader a) r s = runShell a r s"
| "shell_exec E (ReaderDelete a) r s =
     shell_goto (CloseRun a ''The connection has been terminated'') (delete_entry (sc_id (shellHeap s ! a)) s)"
| "shell_exec E ManagerRound r s =
     (case r of
        Loop order now \<Rightarrow>
          if same_entries order s then shell_goto ManagerWait (runManager_round (se_Timeout E) now order s) else None
      | _ \<Rightarrow> None)"
| "shell_exec E ManagerWait r s =
     (case r of
        Go \<Rightarrow> shell_goto ManagerRound s
      | Stop \<Rightarrow> if managerCancelled s then shell_goto (ShellReturned (Inr [])) s else None
      | _ \<Rightarrow> None)"
| "shell_exec E CloseService r s =
     (if closedOnce s then shell_goto (ShellReturned (Inr [])) s
      else shell_goto CloseTake (s\<lparr>closedOnce := True, managerCancelled := True\<rparr>))"
| "shell_exec E CloseTake r s =
     (case r of
        Loop order _ \<Rightarrow>
          if same_entries order s then shell_goto (CloseEach (map snd order)) (s\<lparr>openShells := []\<rparr>) else None
      | _ \<Rightarrow> None)"
| "shell_exec E (CloseEach []) r s = shell_goto (ShellReturned (Inr [])) (s\<lparr>controlReleased := True\<rparr>)"
| "shell_exec E (CloseEach (a # as)) r s =
     shell_goto (CloseEach as) (closeShell a ''the server is shutting down'' s)"
| "shell_exec E (ShellReturned _) r s = None"

fun shell_request :: "shell_pc \<Rightarrow> bool" where
  "shell_request (OpenCall _ _ _ _ _) \<longleftrightarrow> True"
| "shell_request (CloseCall _ _) \<longleftrightarrow> True"
| "shell_request (UserData _ _ _) \<longleftrightarrow> True"
| "shell_request CloseService \<longleftrightarrow> True"
| "shell_request _ \<longleftrightarrow> False"

type_synonym shell_state = "shell_pc list \<times> shell_service"

inductive shell_step :: "('db, 'node, 'h) shell_env \<Rightarrow> shell_state \<Rightarrow> shell_state \<Rightarrow> bool" for E where
  shell_begin: "shell_request p \<Longrightarrow> shell_step E (ps, s) (ps @ [p], s)"
| shell_run: "i < length ps \<Longrightarrow> shell_exec E (ps ! i) r s = Some (p, qs, s') \<Longrightarrow>
    shell_step E (ps, s) (ps[i := p] @ qs, s')"

definition shell_start :: shell_state where
  "shell_start = ([ManagerRound], CreateShellService)"

definition shell_reachable :: "('db, 'node, 'h) shell_env \<Rightarrow> shell_state \<Rightarrow> bool" where
  "shell_reachable E s \<longleftrightarrow> (shell_step E)\<^sup>*\<^sup>* shell_start s"

section \<open>What always holds\<close>

text \<open>What does not change of a shell.\<close>

definition identity :: "shellConfig \<Rightarrow> string \<times> authenticated_user \<times> string \<times> string" where
  "identity c = (sc_id c, sc_owner c, sc_labId c, sc_node c)"

lemma identity_eq:
  "identity c = identity d \<longleftrightarrow> sc_id c = sc_id d \<and> sc_owner c = sc_owner d \<and> sc_labId c = sc_labId d \<and> sc_node c = sc_node d"
  by (auto simp: identity_def)

definition shell_kept :: "shell_service \<Rightarrow> shell_service \<Rightarrow> bool" where
  "shell_kept s s' \<longleftrightarrow> length (shellHeap s) \<le> length (shellHeap s') \<and>
     (\<forall>a < length (shellHeap s). identity (shellHeap s' ! a) = identity (shellHeap s ! a) \<and>
        (sc_sessionClosed (shellHeap s ! a) \<longrightarrow> sc_sessionClosed (shellHeap s' ! a)))"

lemma kept_refl [simp]: "shell_kept s s"
  by (simp add: shell_kept_def)

lemma kept_trans: "shell_kept s t \<Longrightarrow> shell_kept t u \<Longrightarrow> shell_kept s u"
  unfolding shell_kept_def by (metis order.trans order_less_le_trans)

lemma kept_same_heap: "shellHeap s' = shellHeap s \<Longrightarrow> shell_kept s s'"
  by (simp add: shell_kept_def)

lemma on_shell_length [simp]: "length (shellHeap (on_shell a f s)) = length (shellHeap s)"
  by (simp add: on_shell_def)

lemma on_shell_nth: "b < length (shellHeap s) \<Longrightarrow>
  shellHeap (on_shell a f s) ! b = (if a = b then f (shellHeap s ! a) else shellHeap s ! b)"
  by (auto simp: on_shell_def nth_list_update)

lemma closeShell_facts:
  "openShells (closeShell a reason s) = openShells s" "written (closeShell a reason s) = written s"
  "shellUuids (closeShell a reason s) = shellUuids s" "length (shellHeap (closeShell a reason s)) = length (shellHeap s)"
  by (simp_all add: closeShell_def on_shell_def)

lemma closeShell_nth: "b < length (shellHeap s) \<Longrightarrow>
  shellHeap (closeShell a reason s) ! b = (if a = b then shellConfig_Close (shellHeap s ! a) else shellHeap s ! b)"
  by (simp add: closeShell_def on_shell_def nth_list_update)

lemma kept_closeShell: "shell_kept s (closeShell a reason s)"
  by (auto simp: shell_kept_def closeShell_nth closeShell_facts identity_def shellConfig_Close_def)

lemma kept_on_shell:
  assumes "\<And>c. identity (f c) = identity c" "\<And>c. sc_sessionClosed c \<Longrightarrow> sc_sessionClosed (f c)"
  shows "shell_kept s (on_shell a f s)"
  using assms by (auto simp: shell_kept_def on_shell_nth)

lemma delete_entry_heap [simp]: "shellHeap (delete_entry i s) = shellHeap s" "shellHeap (insert_entry i a s) = shellHeap s"
  by (simp_all add: delete_entry_def insert_entry_def)

text \<open>A shell is opened only after the instance service has shown the node to its user.\<close>

definition may_open :: "('db, 'node, 'h) shell_env \<Rightarrow> string \<Rightarrow> string \<Rightarrow> authenticated_user \<Rightarrow> bool" where
  "may_open E labId nodeName u \<longleftrightarrow> (\<exists>keys (w :: ('db, 'h) server) x.
     GetInstanceNode (se_env E) keys (Some labId) None None None (Some nodeName) None (Some u) w = Inr x)"

fun spc_ok :: "('db, 'node, 'h) shell_env \<Rightarrow> shell_service \<Rightarrow> shell_pc \<Rightarrow> bool" where
  "spc_ok E s (OpenFound l n u) \<longleftrightarrow> may_open E l n u"
| "spc_ok E s (OpenCounted l n u) \<longleftrightarrow> may_open E l n u"
| "spc_ok E s (OpenInsert a) \<longleftrightarrow> a < length (shellHeap s)"
| "spc_ok E s (Reader a) \<longleftrightarrow> a < length (shellHeap s)"
| "spc_ok E s (ReaderDelete a) \<longleftrightarrow> a < length (shellHeap s)"
| "spc_ok E s (CloseRun a _) \<longleftrightarrow> a < length (shellHeap s)"
| "spc_ok E s (CloseDelete i a) \<longleftrightarrow> a < length (shellHeap s) \<and> sc_id (shellHeap s ! a) = i"
| "spc_ok E s (UserWrite a u _) \<longleftrightarrow> a < length (shellHeap s) \<and> UserId (sc_owner (shellHeap s ! a)) = UserId u"
| "spc_ok E s (CloseEach as) \<longleftrightarrow> (\<forall>a \<in> set as. a < length (shellHeap s))"
| "spc_ok E s _ \<longleftrightarrow> True"

definition shell_ok :: "('db, 'node, 'h) shell_env \<Rightarrow> nat \<Rightarrow> shellConfig \<Rightarrow> bool" where
  "shell_ok E a c \<longleftrightarrow> sc_id c = se_uuid E a \<and> may_open E (sc_labId c) (sc_node c) (sc_owner c)"

definition entry_ok :: "shellConfig list \<Rightarrow> string \<times> nat \<Rightarrow> bool" where
  "entry_ok h e \<longleftrightarrow> snd e < length h \<and> sc_id (h ! snd e) = fst e"

definition write_ok :: "shellConfig list \<Rightarrow> nat \<times> authenticated_user \<times> string \<Rightarrow> bool" where
  "write_ok h x \<longleftrightarrow> fst x < length h \<and> UserId (sc_owner (h ! fst x)) = UserId (fst (snd x))"

definition shells_ok :: "('db, 'node, 'h) shell_env \<Rightarrow> shell_service \<Rightarrow> bool" where
  "shells_ok E s \<longleftrightarrow>
     shellUuids s = length (shellHeap s) \<and>
     (\<forall>a < length (shellHeap s). shell_ok E a (shellHeap s ! a)) \<and>
     distinct (map fst (openShells s)) \<and>
     (\<forall>e \<in> set (openShells s). entry_ok (shellHeap s) e) \<and>
     (\<forall>x \<in> set (written s). write_ok (shellHeap s) x)"

definition shell_inv :: "('db, 'node, 'h) shell_env \<Rightarrow> shell_state \<Rightarrow> bool" where
  "shell_inv E st \<longleftrightarrow> (case st of (ps, s) \<Rightarrow> shells_ok E s \<and> (\<forall>p \<in> set ps. spc_ok E s p))"

lemma kept_length: "shell_kept s s' \<Longrightarrow> a < length (shellHeap s) \<Longrightarrow> a < length (shellHeap s')"
  by (auto simp: shell_kept_def)

lemma kept_identity:
  assumes "shell_kept s s'" "a < length (shellHeap s)"
  shows "sc_id (shellHeap s' ! a) = sc_id (shellHeap s ! a)" "sc_owner (shellHeap s' ! a) = sc_owner (shellHeap s ! a)"
    "sc_labId (shellHeap s' ! a) = sc_labId (shellHeap s ! a)" "sc_node (shellHeap s' ! a) = sc_node (shellHeap s ! a)"
  using assms by (auto simp: shell_kept_def identity_def)

lemma spc_ok_kept: "shell_kept s s' \<Longrightarrow> spc_ok E s p \<Longrightarrow> spc_ok E s' p"
  by (cases p) (auto simp: kept_length kept_identity)

lemma entry_ok_kept: "shell_kept s s' \<Longrightarrow> entry_ok (shellHeap s) e \<Longrightarrow> entry_ok (shellHeap s') e"
  by (auto simp: entry_ok_def kept_length kept_identity)

lemma write_ok_kept: "shell_kept s s' \<Longrightarrow> write_ok (shellHeap s) x \<Longrightarrow> write_ok (shellHeap s') x"
  by (auto simp: write_ok_def kept_length kept_identity)

lemma shell_ok_kept:
  "shell_kept s s' \<Longrightarrow> a < length (shellHeap s) \<Longrightarrow> shell_ok E a (shellHeap s ! a) \<Longrightarrow> shell_ok E a (shellHeap s' ! a)"
  by (auto simp: shell_ok_def kept_identity)

lemma entry_ok_append: "entry_ok h e \<Longrightarrow> entry_ok (h @ [c]) e"
  by (simp add: entry_ok_def nth_append)

lemma write_ok_append: "write_ok h x \<Longrightarrow> write_ok (h @ [c]) x"
  by (simp add: write_ok_def nth_append)

text \<open>Changes that add no shell keep the state right when they keep the entries and the record of writes right.\<close>

lemma shells_ok_change:
  assumes "shells_ok E s" "shell_kept s s'" "length (shellHeap s') = length (shellHeap s)" "shellUuids s' = shellUuids s"
    and "set (openShells s') \<subseteq> set (openShells s)" "distinct (map fst (openShells s'))" "written s' = written s"
  shows "shells_ok E s'"
proof -
  have "shell_ok E a (shellHeap s' ! a)" if "a < length (shellHeap s')" for a
    using shell_ok_kept [OF assms(2), of a E] that assms(1,3) by (simp add: shells_ok_def)
  moreover have "\<forall>e \<in> set (openShells s'). entry_ok (shellHeap s') e"
    using assms(1,5) entry_ok_kept [OF assms(2)] unfolding shells_ok_def by blast
  moreover have "\<forall>x \<in> set (written s'). write_ok (shellHeap s') x"
    using assms(1,7) write_ok_kept [OF assms(2)] unfolding shells_ok_def by simp
  ultimately show ?thesis using assms(1,3,4,6) unfolding shells_ok_def by simp
qed

lemma distinct_filter_fst: "distinct (map fst xs) \<Longrightarrow> distinct (map fst (filter P xs))"
  by (induction xs) auto

lemma delete_entry_ok: "shells_ok E s \<Longrightarrow> shells_ok E (delete_entry i s)"
  by (rule shells_ok_change) (auto simp: delete_entry_def kept_same_heap shells_ok_def distinct_filter_fst)

lemma closeShell_ok: "shells_ok E s \<Longrightarrow> shells_ok E (closeShell a reason s)"
  by (rule shells_ok_change) (auto simp: closeShell_facts kept_closeShell shells_ok_def)

lemma kept_delete [simp]: "shell_kept s (delete_entry i s)" "shell_kept s (insert_entry i a s)"
  by (simp_all add: kept_same_heap)

lemma close_expired_ok: "shells_ok E s \<Longrightarrow> shells_ok E (close_expired timeout now e s)"
  by (simp add: close_expired_def delete_entry_ok closeShell_ok)

lemma kept_close_expired: "shell_kept s (close_expired timeout now e s)"
  by (simp add: close_expired_def) (blast intro: kept_trans [OF kept_closeShell] kept_delete)

lemma manager_round_ok: "shells_ok E s \<Longrightarrow> shells_ok E (runManager_round timeout now order s) \<and> shell_kept s (runManager_round timeout now order s)"
  unfolding runManager_round_def
  by (induction order arbitrary: s) (auto intro: close_expired_ok kept_trans [OF kept_close_expired])

lemma insert_entry_ok:
  assumes "shells_ok E s" "a < length (shellHeap s)"
  shows "shells_ok E (insert_entry (sc_id (shellHeap s ! a)) a s)"
  using assms by (auto simp: shells_ok_def insert_entry_def distinct_filter_fst entry_ok_def [of _ "(_, a)"])

lemma create_shell_facts:
  "shellHeap (create_shell uuid x u l n now s) = shellHeap s @ [\<lparr>sc_id = uuid (shellUuids s), sc_owner = u, sc_labId = l,
     sc_node = n, sc_lastInteraction = unix now, sc_cancelled = False, sc_released = False, sc_sessionClosed = False,
     sc_session = x, sc_closeCalls = 0\<rparr>]"
  "openShells (create_shell uuid x u l n now s) = openShells s" "written (create_shell uuid x u l n now s) = written s"
  "shellUuids (create_shell uuid x u l n now s) = shellUuids s + 1"
  by (simp_all add: create_shell_def)

lemma kept_create [simp]: "shell_kept s (create_shell uuid x u l n now s)"
  by (simp add: shell_kept_def create_shell_facts nth_append)

lemma create_shell_ok:
  assumes "shells_ok E s" "may_open E l n u"
  shows "shells_ok E (create_shell (se_uuid E) x u l n now s)"
  using assms
  by (auto simp: shells_ok_def create_shell_facts nth_append less_Suc_eq shell_ok_def entry_ok_append write_ok_append)

lemma write_data_facts:
  "openShells (write_data e a u d now s) = openShells s" "shellUuids (write_data e a u d now s) = shellUuids s"
  "length (shellHeap (write_data e a u d now s)) = length (shellHeap s)"
  "set (written (write_data e a u d now s)) \<subseteq> insert (a, u, d) (set (written s))"
  by (auto simp: write_data_def on_shell_def)

lemma kept_write: "shell_kept s (write_data e a u d now s)"
  unfolding write_data_def
  by (rule kept_trans [OF kept_same_heap kept_on_shell]) (auto simp: identity_def)

lemma write_data_ok:
  assumes "shells_ok E s" "a < length (shellHeap s)" "UserId (sc_owner (shellHeap s ! a)) = UserId u"
  shows "shells_ok E (write_data e a u d now s)"
proof -
  have "write_ok (shellHeap (write_data e a u d now s)) (a, u, d)"
    using assms(2,3) kept_identity [OF kept_write assms(2)] by (simp add: write_ok_def write_data_facts)
  moreover have "shells_ok E (write_data e a u d now s\<lparr>written := written s\<rparr>)"
    using kept_write [of s e a u d now] assms(1)
    by (intro shells_ok_change [OF assms(1)]) (auto simp: write_data_facts shells_ok_def shell_kept_def)
  ultimately show ?thesis
    using write_data_facts(4) [of e a u d now s] by (auto simp: shells_ok_def)
qed

lemma entry_found: "shells_ok E s \<Longrightarrow> shell_entry i s = Some a \<Longrightarrow> a < length (shellHeap s) \<and> sc_id (shellHeap s ! a) = i"
  by (auto simp: shells_ok_def shell_entry_def entry_ok_def dest!: map_of_SomeD)

lemma shell_exec_ok:
  assumes "shells_ok E s" "spc_ok E s p" "shell_exec E p r s = Some (p', qs, s')"
  shows "shells_ok E s' \<and> shell_kept s s' \<and> (\<forall>q \<in> set (p' # qs). spc_ok E s' q)"
proof (cases p)
  case (OpenCall l n c ro u)
  have "may_open E l (the n) u" if "find_shell_node (se_env E) keys l n c ro u w = Inr x" for keys w x
    using that by (cases x) (fastforce simp: find_shell_node_def may_open_def split: if_splits)
  with OpenCall assms show ?thesis by (auto simp: shell_goto_def split: shell_reply.splits sum.splits)
next
  case (OpenCounted l n u)
  with assms show ?thesis
    by (auto simp: shell_goto_def create_shell_ok create_shell_facts split: shell_reply.splits sum.splits)
next
  case (CloseCall i u)
  with assms show ?thesis
    by (auto simp: shell_goto_def find_own_shell_def dest: entry_found split: option.splits if_splits)
next
  case (CloseRun a reason)
  with assms show ?thesis
    by (auto simp: shell_goto_def closeShell_ok kept_closeShell split: shell_reply.splits)
next
  case (UserData i u d)
  with assms show ?thesis
    by (auto simp: shell_goto_def user_data_def dest: entry_found split: option.splits if_splits)
next
  case (UserWrite a u d)
  with assms show ?thesis
    by (auto simp: shell_goto_def write_data_ok kept_write split: shell_reply.splits)
next
  case (Reader a)
  have "shells_ok E (s\<lparr>shown := x\<rparr>)" "shells_ok E (s\<lparr>control := y\<rparr>)" for x y
    using assms(1) by (auto simp: shells_ok_def)
  with Reader assms show ?thesis
    by (auto simp: shell_goto_def kept_same_heap split: shell_reply.splits)
next
  case (CloseEach as)
  have "shells_ok E (s\<lparr>controlReleased := True\<rparr>)" using assms(1) by (auto simp: shells_ok_def)
  with CloseEach assms show ?thesis
    by (cases as) (auto simp: shell_goto_def closeShell_ok kept_closeShell closeShell_facts kept_same_heap)
next
  case CloseTake
  have "shells_ok E (s\<lparr>openShells := []\<rparr>)" using assms(1) by (simp add: shells_ok_def)
  with CloseTake assms show ?thesis
    by (auto simp: shell_goto_def kept_same_heap same_entries_def shells_ok_def entry_ok_def dest!: mset_eq_setD
        split: shell_reply.splits if_splits)
next
  case CloseService
  have "shells_ok E (s\<lparr>closedOnce := x, managerCancelled := y\<rparr>)" for x y using assms(1) by (auto simp: shells_ok_def)
  with CloseService assms show ?thesis by (auto simp: shell_goto_def kept_same_heap split: if_splits)
qed (use assms in \<open>auto simp: shell_goto_def insert_entry_ok delete_entry_ok manager_round_ok
      split: shell_reply.splits option.splits if_splits\<close>)

lemma shell_inv_run:
  assumes "shell_inv E (ps, s)" "i < length ps" "shell_exec E (ps ! i) r s = Some (p, qs, s')"
  shows "shell_inv E (ps[i := p] @ qs, s')" "shell_kept s s'"
proof -
  from assms have "shells_ok E s" "spc_ok E s (ps ! i)" by (auto simp: shell_inv_def)
  from shell_exec_ok [OF this assms(3)] have new: "shells_ok E s'" "shell_kept s s'" "\<forall>q \<in> set (p # qs). spc_ok E s' q"
    by auto
  then show "shell_kept s s'" by simp
  have "spc_ok E s' q" if "q \<in> set (ps[i := p] @ qs)" for q
    using that new spc_ok_kept [OF new(2)] assms(1) set_update_subset_insert [of ps i p]
    by (auto simp: shell_inv_def)
  with new(1) show "shell_inv E (ps[i := p] @ qs, s')" by (simp add: shell_inv_def)
qed

lemma shell_request_ok: "shell_request p \<Longrightarrow> spc_ok E s p"
  by (cases p) auto

lemma shell_inv_start: "shell_inv E shell_start"
  by (simp add: shell_inv_def shell_start_def shells_ok_def CreateShellService_def)

lemma shell_inv_step: "shell_step E st st' \<Longrightarrow> shell_inv E st \<Longrightarrow> shell_inv E st'"
proof (induction rule: shell_step.induct)
  case (shell_begin p ps s)
  then show ?case using shell_request_ok by (auto simp: shell_inv_def)
qed (rule shell_inv_run)

lemma shell_inv_reachable: "shell_reachable E st \<Longrightarrow> shell_inv E st"
  unfolding shell_reachable_def by (induction rule: rtranclp_induct) (auto intro: shell_inv_start shell_inv_step)

subsection \<open>No shell is forgotten\<close>

text \<open>
  A shell whose session is open has an entry, or a thread is about to give it one or to close it. This needs
  that the ids are distinct.
\<close>

fun in_hands :: "shell_pc \<Rightarrow> nat \<Rightarrow> bool" where
  "in_hands (OpenInsert b) a \<longleftrightarrow> a = b"
| "in_hands (CloseRun b _) a \<longleftrightarrow> a = b"
| "in_hands (CloseEach as) a \<longleftrightarrow> a \<in> set as"
| "in_hands _ a \<longleftrightarrow> False"

definition listed :: "shell_service \<Rightarrow> nat \<Rightarrow> bool" where
  "listed s a \<longleftrightarrow> sc_sessionClosed (shellHeap s ! a) \<or> a \<in> snd ` set (openShells s)"

definition none_forgotten :: "shell_state \<Rightarrow> bool" where
  "none_forgotten st \<longleftrightarrow> (case st of (ps, s) \<Rightarrow>
     \<forall>a < length (shellHeap s). listed s a \<or> (\<exists>p \<in> set ps. in_hands p a))"

lemma listed_released [simp]: "listed (s\<lparr>controlReleased := x\<rparr>) a = listed s a"
  by (simp add: listed_def)

lemma entry_address:
  assumes "shells_ok E s" "inj (se_uuid E)" "(sc_id (shellHeap s ! a), b) \<in> set (openShells s)" "a < length (shellHeap s)"
  shows "b = a"
proof -
  have "entry_ok (shellHeap s) (sc_id (shellHeap s ! a), b)" using assms(1,3) by (auto simp: shells_ok_def)
  then have "b < length (shellHeap s)" "sc_id (shellHeap s ! b) = sc_id (shellHeap s ! a)" by (auto simp: entry_ok_def)
  then have "se_uuid E b = se_uuid E a" using assms(1,4) by (auto simp: shells_ok_def shell_ok_def)
  then show ?thesis using assms(2) by (simp add: inj_eq)
qed

lemma listed_delete:
  assumes "shells_ok E s" "inj (se_uuid E)" "a < length (shellHeap s)" "sc_id (shellHeap s ! a) = i" "listed s b" "b \<noteq> a"
  shows "listed (delete_entry i s) b"
  using assms entry_address [OF assms(1,2) _ assms(3)] by (force simp: listed_def delete_entry_def)

lemma listed_insert:
  assumes "shells_ok E s" "inj (se_uuid E)" "b < length (shellHeap s)" "listed s a \<or> a = b"
  shows "listed (insert_entry (sc_id (shellHeap s ! b)) b s) a"
proof (cases "a = b")
  case True
  then show ?thesis by (simp add: listed_def insert_entry_def)
next
  case False
  have "i \<noteq> sc_id (shellHeap s ! b)" if "(i, a) \<in> set (openShells s)" for i
    using entry_address [OF assms(1,2) _ assms(3), of a] that False by auto
  then show ?thesis using assms(4) False by (force simp: listed_def insert_entry_def)
qed

lemma listed_closeShell:
  assumes "b < length (shellHeap s)" "listed s b"
  shows "listed (closeShell a reason s) b"
  using assms by (auto simp: listed_def closeShell_facts closeShell_nth shellConfig_Close_def)

lemma listed_closed: "a < length (shellHeap s) \<Longrightarrow> listed (closeShell a reason s) a"
  by (simp add: listed_def closeShell_nth shellConfig_Close_def)

lemma listed_expired:
  assumes "shells_ok E s" "inj (se_uuid E)" "b < length (shellHeap s)" "listed s b" "entry_ok (shellHeap s) e"
  shows "listed (close_expired timeout now e s) b"
proof (cases "timeout < unix now - sc_lastInteraction (shellHeap s ! snd e)")
  case True
  let ?s = "closeShell (snd e) ''shell was inactive for too long'' s"
  have e: "snd e < length (shellHeap s)" "sc_id (shellHeap s ! snd e) = fst e" using assms(5) by (auto simp: entry_ok_def)
  have "sc_id (shellHeap ?s ! snd e) = fst e" using e kept_identity [OF kept_closeShell] by simp
  with e assms True show ?thesis
    using listed_delete [where s = ?s and a = "snd e" and i = "fst e" and b = b, OF closeShell_ok [OF assms(1)] assms(2)]
      listed_closeShell [OF assms(3,4)]
    by (cases "b = snd e")
      (auto simp: close_expired_def closeShell_facts listed_def closeShell_nth shellConfig_Close_def)
qed (use assms in \<open>simp add: close_expired_def\<close>)

lemma listed_manager:
  assumes "shells_ok E s" "inj (se_uuid E)" "b < length (shellHeap s)" "listed s b" "\<forall>e \<in> set order. entry_ok (shellHeap s) e"
  shows "listed (runManager_round timeout now order s) b"
  using assms unfolding runManager_round_def
proof (induction order arbitrary: s)
  case (Cons e es)
  let ?s = "close_expired timeout now e s"
  have k: "shell_kept s ?s" by (rule kept_close_expired)
  have "listed ?s b" using listed_expired Cons(2-) by (meson list.set_intros(1))
  then show ?case
    using Cons(1) [OF close_expired_ok [OF Cons(2)] Cons(3) kept_length [OF k Cons(4)]] Cons(6) entry_ok_kept [OF k]
    by simp
qed simp

lemma none_forgotten_exec:
  assumes ok: "shells_ok E s" "spc_ok E s p" and inj: "inj (se_uuid E)" and ex: "shell_exec E p r s = Some (p', qs, s')"
    and a: "a < length (shellHeap s)" "listed s a \<or> in_hands p a"
  shows "listed s' a \<or> (\<exists>q \<in> set (p' # qs). in_hands q a)"
proof (cases p)
  case (OpenCounted l n u)
  with ex a show ?thesis
    by (auto simp: shell_goto_def listed_def create_shell_facts nth_append split: shell_reply.splits sum.splits)
next
  case (OpenInsert b)
  then have "b < length (shellHeap s)" using ok(2) by simp
  from listed_insert [OF ok(1) inj this] OpenInsert ex a show ?thesis by (auto simp: shell_goto_def)
next
  case (CloseDelete i b)
  with ex a ok listed_delete [OF ok(1) inj, of b i a] show ?thesis by (cases "a = b") (auto simp: shell_goto_def)
next
  case (CloseRun b reason)
  with ex a listed_closeShell [OF a(1)] listed_closed [OF a(1)] show ?thesis
    by (auto simp: shell_goto_def split: shell_reply.splits)
next
  case (UserWrite b u d)
  have "listed (write_data e b u d now s) a" if "listed s a" for e now
    using that a(1) kept_write [of s e b u d now] by (auto simp: listed_def write_data_facts shell_kept_def)
  with UserWrite ex a show ?thesis by (auto simp: shell_goto_def split: shell_reply.splits)
next
  case (ReaderDelete b)
  with ex a ok listed_delete [OF ok(1) inj, of b _ a] show ?thesis by (cases "a = b") (auto simp: shell_goto_def)
next
  case ManagerRound
  have "listed (runManager_round t now order s) a" if "same_entries order s" "listed s a" for t now order
    using listed_manager [OF ok(1) inj a(1) that(2), of order] that(1) ok(1)
    by (auto simp: same_entries_def shells_ok_def dest!: mset_eq_setD)
  with ManagerRound ex a show ?thesis by (auto simp: shell_goto_def split: shell_reply.splits if_splits)
next
  case CloseTake
  with ex a show ?thesis
    by (auto simp: shell_goto_def same_entries_def listed_def image_iff dest!: mset_eq_setD
        split: shell_reply.splits if_splits) force
next
  case (CloseEach as)
  with ex a listed_closeShell [OF a(1)] listed_closed [OF a(1)] show ?thesis
    by (cases as) (auto simp: shell_goto_def)
qed (use ex a in \<open>auto simp: shell_goto_def listed_def split: shell_reply.splits option.splits sum.splits if_splits\<close>)

lemma new_shell_in_hands:
  assumes "shell_exec E p r s = Some (p', qs, s')" "length (shellHeap s) \<le> a" "a < length (shellHeap s')"
  shows "in_hands p' a"
proof (cases p)
  case (OpenCounted l n u)
  with assms show ?thesis
    by (auto simp: shell_goto_def create_shell_facts split: shell_reply.splits sum.splits)
next
  case ManagerRound
  have "length (shellHeap (runManager_round t now order s)) = length (shellHeap s)" for t now order
    unfolding runManager_round_def
    by (induction order arbitrary: s) (auto simp: close_expired_def closeShell_facts)
  with ManagerRound assms show ?thesis by (auto simp: shell_goto_def split: shell_reply.splits if_splits)
next
  case (CloseEach as)
  with assms show ?thesis by (cases as) (auto simp: shell_goto_def closeShell_facts)
qed (use assms in \<open>auto simp: shell_goto_def closeShell_facts write_data_facts
      split: shell_reply.splits option.splits sum.splits if_splits\<close>)

lemma none_forgotten_step:
  assumes "shell_step E st st'" "shell_inv E st" "inj (se_uuid E)" "none_forgotten st"
  shows "none_forgotten st'"
  using assms
proof (induction rule: shell_step.induct)
  case (shell_begin p ps s)
  then show ?case by (auto simp: none_forgotten_def)
next
  case (shell_run i ps r s p qs s')
  then have ok: "shells_ok E s" "spc_ok E s (ps ! i)" by (auto simp: shell_inv_def)
  have "listed s' a \<or> (\<exists>q \<in> set (ps[i := p] @ qs). in_hands q a)" if a: "a < length (shellHeap s')" for a
  proof (cases "a < length (shellHeap s)")
    case False
    then have "in_hands p a" using new_shell_in_hands [OF shell_run(2)] a by simp
    then show ?thesis using shell_run(1) by (auto intro: set_update_memI)
  next
    case True
    have new: "set (p # qs) \<subseteq> set (ps[i := p] @ qs)" using shell_run(1) by (auto intro: set_update_memI)
    from True shell_run(5) consider "listed s a" | j where "j < length ps" "in_hands (ps ! j) a"
      unfolding none_forgotten_def split by (metis in_set_conv_nth)
    then show ?thesis
    proof cases
      case 1
      then show ?thesis using none_forgotten_exec [OF ok shell_run(4,2) True] new by blast
    next
      case (2 j)
      show ?thesis
      proof (cases "j = i")
        case True
        then show ?thesis
          using none_forgotten_exec [OF ok shell_run(4,2) \<open>a < length (shellHeap s)\<close>] 2 new by blast
      next
        case False
        then have "ps ! j \<in> set (ps[i := p])" using 2(1) by (metis length_list_update nth_list_update_neq nth_mem)
        then show ?thesis using 2(2) by auto
      qed
    qed
  qed
  then show ?case by (simp add: none_forgotten_def)
qed

subsection \<open>The limit\<close>

fun opens_for :: "string \<Rightarrow> shell_service \<Rightarrow> shell_pc \<Rightarrow> bool" where
  "opens_for u s (OpenCounted _ _ v) \<longleftrightarrow> UserId v = u"
| "opens_for u s (OpenInsert a) \<longleftrightarrow> UserId (sc_owner (shellHeap s ! a)) = u"
| "opens_for u s _ \<longleftrightarrow> False"

text \<open>The calls of a user that have passed the check of the limit and have no entry yet.\<close>

definition openers :: "string \<Rightarrow> shell_state \<Rightarrow> nat" where
  "openers u st = (case st of (ps, s) \<Rightarrow> length (filter (opens_for u s) ps))"

lemma length_filter_weaken: "\<forall>x \<in> set xs. P x \<longrightarrow> Q x \<Longrightarrow> length (filter P xs) \<le> length (filter Q xs)"
  by (induction xs) auto

lemma owned_by_sub:
  assumes "shells_ok E s" "shell_kept s s'" "openShells s' = filter P (openShells s)"
  shows "owned_by u s' \<le> owned_by u s"
proof -
  have "sc_owner (shellHeap s' ! snd e) = sc_owner (shellHeap s ! snd e)" if "e \<in> set (openShells s)" for e
    using assms(1,2) that kept_identity(2) by (auto simp: shells_ok_def entry_ok_def)
  then show ?thesis
    using length_filter_weaken [of "openShells s" "\<lambda>e. P e \<and> UserId (sc_owner (shellHeap s' ! snd e)) = u"]
    by (simp add: owned_by_def assms(3) conj_commute)
qed

lemma manager_entries: "\<exists>P. openShells (runManager_round t now order s) = filter P (openShells s)"
  unfolding runManager_round_def
proof (induction order arbitrary: s)
  case (Cons e es)
  obtain P where "openShells (fold (close_expired t now) es (close_expired t now e s)) = filter P (openShells (close_expired t now e s))"
    using Cons by blast
  moreover obtain Q where "openShells (close_expired t now e s) = filter Q (openShells s)"
    by (cases "t < unix now - sc_lastInteraction (shellHeap s ! snd e)")
      (auto simp: close_expired_def delete_entry_def closeShell_facts intro: filter_True [symmetric])
  ultimately show ?case by (simp add: filter_filter) blast
qed (auto intro: filter_True [symmetric])

lemma filter_None: "\<exists>P. [] = filter P xs"
  by (rule exI [of _ "\<lambda>_. False"]) simp

lemma exec_entries:
  assumes "shell_exec E p r s = Some (p', qs, s')" "\<forall>a. p \<noteq> OpenInsert a"
  shows "\<exists>P. openShells s' = filter P (openShells s)"
proof -
  have same: "\<exists>P. openShells s = filter P (openShells s)" by (auto intro: filter_True [symmetric])
  show ?thesis
  proof (cases p)
    case (CloseEach as)
    with assms same show ?thesis by (cases as) (auto simp: shell_goto_def closeShell_facts)
  next
    case ManagerRound
    with assms manager_entries show ?thesis by (auto simp: shell_goto_def split: shell_reply.splits if_splits)
  next
    case CloseTake
    with assms filter_None show ?thesis by (auto simp: shell_goto_def split: shell_reply.splits if_splits)
  qed (use assms same in \<open>auto simp: shell_goto_def closeShell_facts write_data_facts delete_entry_def create_shell_facts
      split: shell_reply.splits option.splits sum.splits if_splits\<close>)
qed

lemma owned_by_insert:
  assumes "shells_ok E s"
  shows "owned_by u (insert_entry i a s) \<le> owned_by u s + (if UserId (sc_owner (shellHeap s ! a)) = u then 1 else 0)"
  using length_filter_weaken [of "openShells s" "\<lambda>e. fst e \<noteq> i \<and> UserId (sc_owner (shellHeap s ! snd e)) = u"]
  by (simp add: owned_by_def insert_entry_def conj_commute)

text \<open>The entries of a user and its calls on the way to one, before and after a step.\<close>

lemma limit_step:
  assumes ok: "shells_ok E s" "spc_ok E s p" and ex: "shell_exec E p r s = Some (p', qs, s')"
  shows "\<forall>q \<in> set qs. \<not> opens_for u s' q"
    and "owned_by u s' + (if opens_for u s' p' then 1 else 0) \<le> owned_by u s + (if opens_for u s p then 1 else 0) \<or>
      (owned_by u s' \<le> owned_by u s \<and> int (owned_by u s) < se_UserLimit E)"
proof -
  from ex show "\<forall>q \<in> set qs. \<not> opens_for u s' q"
    by (cases "(E, p, r, s)" rule: shell_exec.cases)
      (auto simp: shell_goto_def split: shell_reply.splits option.splits sum.splits if_splits)
  have kept: "shell_kept s s'" using shell_exec_ok [OF ok ex] by simp
  show "owned_by u s' + (if opens_for u s' p' then 1 else 0) \<le> owned_by u s + (if opens_for u s p then 1 else 0) \<or>
      (owned_by u s' \<le> owned_by u s \<and> int (owned_by u s) < se_UserLimit E)"
  proof (cases "\<exists>a. p = OpenInsert a")
    case True
    then obtain a where a: "p = OpenInsert a" by blast
    then have "s' = insert_entry (sc_id (shellHeap s ! a)) a s" "p' = ShellReturned (Inr (sc_id (shellHeap s ! a)))"
      using ex by (auto simp: shell_goto_def)
    then show ?thesis using a owned_by_insert [OF ok(1), of u "sc_id (shellHeap s ! a)" a] by auto
  next
    case False
    then obtain P where "openShells s' = filter P (openShells s)" using exec_entries [OF ex] by blast
    then have le: "owned_by u s' \<le> owned_by u s" by (rule owned_by_sub [OF ok(1) kept])
    show ?thesis
    proof (cases "opens_for u s' p' \<and> \<not> opens_for u s p")
      case True
      then obtain l n v where "p = OpenFound l n v"
        using ex False
        by (cases "(E, p, r, s)" rule: shell_exec.cases)
          (auto simp: shell_goto_def create_shell_facts nth_append split: shell_reply.splits option.splits sum.splits if_splits)
      then show ?thesis using ex True le
        by (auto simp: shell_goto_def check_limit_def split: if_splits)
    qed (use le in auto)
  qed
qed

lemma opens_for_kept: "shell_kept s s' \<Longrightarrow> spc_ok E s p \<Longrightarrow> opens_for u s' p = opens_for u s p"
  by (cases p) (auto simp: kept_identity)

lemma length_filter_update:
  "i < length xs \<Longrightarrow> length (filter P (xs[i := y])) + (if P (xs ! i) then 1 else 0) = length (filter P xs) + (if P y then 1 else 0)"
proof (induction xs arbitrary: i)
  case (Cons x xs)
  then show ?case by (cases i) auto
qed simp

text \<open>Runs in which no more than \<open>k\<close> calls of a user are past the check at the same time.\<close>

definition paced :: "('db, 'node, 'h) shell_env \<Rightarrow> string \<Rightarrow> nat \<Rightarrow> shell_state \<Rightarrow> bool" where
  "paced E u k st \<longleftrightarrow> (\<lambda>st st'. shell_step E st st' \<and> openers u st' \<le> k)\<^sup>*\<^sup>* shell_start st"

lemma limit_holds:
  assumes "paced E u k st" "0 \<le> se_UserLimit E" "1 \<le> k"
  shows "shell_inv E st \<and> int (owned_by u (snd st) + openers u st) \<le> se_UserLimit E - 1 + int k"
  using assms(1) unfolding paced_def
proof (induction rule: rtranclp_induct)
  case base
  then show ?case using shell_inv_start assms(2,3)
    by (simp add: shell_start_def owned_by_def openers_def CreateShellService_def)
next
  case (step st st')
  then have inv: "shell_inv E st'" and few: "openers u st' \<le> k" using shell_inv_step by blast+
  from step(2) have st: "shell_step E st st'" by simp
  have "int (owned_by u (snd st') + openers u st') \<le> se_UserLimit E - 1 + int k"
    using st
  proof (cases rule: shell_step.cases)
    case (shell_begin p ps s)
    then have "\<not> opens_for u s p" by (cases p) auto
    then show ?thesis using shell_begin step(3) by (simp add: openers_def)
  next
    case (shell_run i ps r s p qs s')
    then have ok: "shells_ok E s" "spc_ok E s (ps ! i)" "\<forall>q \<in> set ps. spc_ok E s q"
      using step(3) by (auto simp: shell_inv_def)
    have kept: "shell_kept s s'" using shell_exec_ok [OF ok(1,2)] shell_run by blast
    have "length (filter (opens_for u s') (ps[i := p])) + (if opens_for u s (ps ! i) then 1 else 0) =
        length (filter (opens_for u s) ps) + (if opens_for u s' p then 1 else 0)"
    proof -
      have "filter (opens_for u s') ps = filter (opens_for u s) ps"
        using opens_for_kept [OF kept] ok(3) by (intro filter_cong) auto
      then show ?thesis
        using length_filter_update [of i ps "opens_for u s'" p] shell_run(3) opens_for_kept [OF kept ok(2)] by simp
    qed
    moreover have "filter (opens_for u s') qs = []"
      using limit_step(1) [OF ok(1,2)] shell_run(4) by (simp add: filter_empty_conv)
    ultimately show ?thesis
      using limit_step(2) [OF ok(1,2) shell_run(4), of u] step(3) few shell_run(1,2)
      by (auto simp: openers_def split: if_splits)
  qed
  with inv show ?case by simp
qed

end
