(* ===== verification/Shell_Behaviour.thy ===== *)
theory Shell_Behaviour
  imports Shells Instance_Behaviour
begin

text \<open>
  Properties of the shell service: who may open, write to and see a shell, what becomes of every shell, and the
  limit of shells for each user, with runs that show where it is passed.
\<close>

section \<open>What is always true\<close>

lemma none_forgotten_reachable:
  assumes "shell_reachable E st" "inj (se_uuid E)"
  shows "none_forgotten st"
  using assms(1) unfolding shell_reachable_def
proof (induction rule: rtranclp_induct)
  case base
  then show ?case by (simp add: none_forgotten_def shell_start_def CreateShellService_def)
next
  case (step st st')
  then have "shell_inv E st" using shell_inv_reachable by (simp add: shell_reachable_def)
  with step assms(2) show ?case using none_forgotten_step by blast
qed

text \<open>C15: A shell is opened only for an admin or a member of the collection of the lab whose node it runs on, and only
  the user who opened it writes to it.\<close>

theorem shell_for_member_and_owner:
  assumes "shell_reachable E (ps, s)"
  shows "(\<forall>c \<in> set (shellHeap s). IsAdmin (sc_owner c) \<or>
      (\<exists>lab :: lab. allowed (sc_owner c) (coll_Name (lab_Collection lab)) \<and>
        (\<exists>db. lab_GetByUuid (e_database (se_env E)) (sc_labId c) db = Inr lab))) \<and>
    (\<forall>(a, u, d) \<in> set (written s). a < length (shellHeap s) \<and> UserId u = UserId (sc_owner (shellHeap s ! a)))"
proof
  have ok: "shells_ok E s" using shell_inv_reachable [OF assms] by (simp add: shell_inv_def)
  show "\<forall>(a, u, d) \<in> set (written s). a < length (shellHeap s) \<and> UserId u = UserId (sc_owner (shellHeap s ! a))"
    using ok by (auto simp: shells_ok_def write_ok_def)
  show "\<forall>c \<in> set (shellHeap s). IsAdmin (sc_owner c) \<or>
      (\<exists>lab :: lab. allowed (sc_owner c) (coll_Name (lab_Collection lab)) \<and>
        (\<exists>db. lab_GetByUuid (e_database (se_env E)) (sc_labId c) db = Inr lab))"
  proof
    fix c
    assume "c \<in> set (shellHeap s)"
    then have "may_open E (sc_labId c) (sc_node c) (sc_owner c)"
      using ok by (auto simp: shells_ok_def shell_ok_def in_set_conv_nth)
    then obtain keys and w :: "('a, 'c) server" and n name where
      "GetInstanceNode (se_env E) keys (Some (sc_labId c)) None None None (Some (sc_node c)) None (Some (sc_owner c)) w = Inr (n, name)"
      unfolding may_open_def by (metis surj_pair)
    then show "IsAdmin (sc_owner c) \<or> (\<exists>lab :: lab. allowed (sc_owner c) (coll_Name (lab_Collection lab)) \<and>
        (\<exists>db. lab_GetByUuid (e_database (se_env E)) (sc_labId c) db = Inr lab))"
      by (auto simp: GetInstanceNode_def locate_node_def locate_by_lab_def split: sum.splits option.splits if_splits)
  qed
qed

text \<open>C12: Every shell whose session is open has an entry, from which it can be closed, or a thread holds it that is about
  to make the entry or to close the session. This is so at every moment of every run.\<close>

theorem no_shell_forgotten:
  assumes "shell_reachable E (ps, s)" "inj (se_uuid E)" "a < length (shellHeap s)"
  shows "sc_sessionClosed (shellHeap s ! a) \<or> a \<in> snd ` set (openShells s) \<or> (\<exists>p \<in> set ps. in_hands p a)"
  using none_forgotten_reachable [OF assms(1,2)] assms(3) by (auto simp: none_forgotten_def listed_def)

text \<open>C36: When no more than \<open>k\<close> calls of a user are between the check of the limit and the new entry at the same time,
  the user never has more shells than the limit and \<open>k - 1\<close>: calls one after the other keep the limit.\<close>

theorem shell_limit_kept:
  assumes "paced E u k (ps, s)" "0 \<le> se_UserLimit E" "1 \<le> k"
  shows "int (owned_by u s) \<le> se_UserLimit E + int (k - 1)"
  using limit_holds [OF assms] assms(3) by (simp add: of_nat_diff)

section \<open>Runs\<close>

datatype ('db, 'h) shell_choice = SBegin shell_pc | SMove nat "('db, 'h) shell_reply"

fun shell_choose :: "('db, 'node, 'h) shell_env \<Rightarrow> ('db, 'h) shell_choice \<Rightarrow> shell_state \<Rightarrow> shell_state option" where
  "shell_choose E (SBegin p) (ps, s) = (if shell_request p then Some (ps @ [p], s) else None)"
| "shell_choose E (SMove i r) (ps, s) =
     (if i < length ps then map_option (\<lambda>(p, qs, s'). (ps[i := p] @ qs, s')) (shell_exec E (ps ! i) r s) else None)"

fun shell_follow :: "('db, 'node, 'h) shell_env \<Rightarrow> ('db, 'h) shell_choice list \<Rightarrow> shell_state \<Rightarrow> shell_state option" where
  "shell_follow E [] st = Some st"
| "shell_follow E (c # cs) st = Option.bind (shell_choose E c st) (shell_follow E cs)"

lemma shell_choose_step: "shell_choose E c st = Some st' \<Longrightarrow> shell_step E st st'"
  by (cases "(E, c, st)" rule: shell_choose.cases) (auto split: if_splits intro: shell_step.intros)

lemma shell_follow_steps: "shell_follow E cs st = Some st' \<Longrightarrow> (shell_step E)\<^sup>*\<^sup>* st st'"
  by (induction cs arbitrary: st)
    (auto simp: Option.bind_eq_Some_conv intro: converse_rtranclp_into_rtranclp shell_choose_step)

text \<open>Runs in which no more than \<open>k\<close> calls of a user are past the check of the limit, checked after each step.\<close>

fun paced_follow ::
  "('db, 'node, 'h) shell_env \<Rightarrow> string \<Rightarrow> nat \<Rightarrow> ('db, 'h) shell_choice list \<Rightarrow> shell_state \<Rightarrow> shell_state option" where
  "paced_follow E u k [] st = Some st"
| "paced_follow E u k (c # cs) st =
     Option.bind (shell_choose E c st) (\<lambda>st'. if openers u st' \<le> k then paced_follow E u k cs st' else None)"

lemma paced_follow_paced: "paced E u k st \<Longrightarrow> paced_follow E u k cs st = Some st' \<Longrightarrow> paced E u k st'"
proof (induction cs arbitrary: st)
  case (Cons c cs)
  then obtain st1 where "shell_choose E c st = Some st1" "openers u st1 \<le> k" "paced_follow E u k cs st1 = Some st'"
    by (auto simp: Option.bind_eq_Some_conv split: if_splits)
  moreover from this have "paced E u k st1"
    using Cons.prems(1) shell_choose_step unfolding paced_def
    by (metis (mono_tags, lifting) rtranclp.rtrancl_into_rtrancl)
  ultimately show ?case using Cons.IH by blast
qed simp

lemma shell_follow_reachable: "shell_follow E cs shell_start = Some st \<Longrightarrow> shell_reachable E st"
  unfolding shell_reachable_def by (rule shell_follow_steps)

definition demo_shell_env :: "(memory, string, string) shell_env" where
  "demo_shell_env = \<lparr>se_env = demo_lab_env, se_uuid = (\<lambda>n. replicate n CHR ''x''), se_UserLimit = 1, se_Timeout = 600\<rparr>"

definition demo_open :: "(memory, string) shell_choice" where
  "demo_open = SBegin (OpenCall ''l1'' (Some ''r1'') (Some 80) (Some 24) demo_login)"

definition opened_now :: "(memory, string) shell_reply" where
  "opened_now = Opened (\<lambda>_. None) None 0"

lemma demo_node_found:
  obtains w :: "(memory, string) server" and x where
    "find_shell_node demo_lab_env [''l1''] ''l1'' (Some ''r1'') (Some 80) (Some 24) demo_login w = Inr x"
proof -
  obtain w :: "(memory, string) server" and n where w: "rt_instances (rt w) ''l1'' = Some 0"
    "i_Nodes (inst 0 w) = [(''r1'', n)]" "i_Name (inst 0 w) = ''net-1''"
    "lab_GetByUuid (e_database demo_lab_env) ''l1'' (w_db w) = Inr demo_lab"
    using demo_running unfolding demo_lab_database by blast
  have "allowed demo_login (coll_Name (lab_Collection demo_lab))"
    by (simp add: allowed_def demo_login_def demo_lab_def demo_collection_def)
  with w have "find_shell_node demo_lab_env [''l1''] ''l1'' (Some ''r1'') (Some 80) (Some 24) demo_login w = Inr (n, ''net-1'')"
    by (simp add: find_shell_node_def GetInstanceNode_def locate_node_def locate_by_lab_def)
  then show ?thesis by (rule that)
qed

lemmas shell_run_simps =
  demo_open_def opened_now_def returned_def shell_start_def demo_shell_env_def CreateShellService_def shell_goto_def
  check_limit_def owned_by_def OpenShell_def openSshSession_def create_shell_def insert_entry_def demo_login_def
  delete_entry_def closeShell_def on_shell_def shellConfig_Close_def same_entries_def runManager_round_def

text \<open>Two calls both pass the check before either of them makes its entry.\<close>

lemma over_limit_run:
  assumes "find_shell_node demo_lab_env [''l1''] ''l1'' (Some ''r1'') (Some 80) (Some 24) demo_login w = Inr x"
  shows "\<exists>s. shell_follow demo_shell_env
      [demo_open, demo_open, SMove 1 (SeenServer [''l1''] w), SMove 2 (SeenServer [''l1''] w), SMove 1 Go, SMove 2 Go,
       SMove 1 opened_now, SMove 2 opened_now, SMove 1 Go, SMove 2 Go] shell_start =
      Some ([ManagerRound, ShellReturned (Inr []), ShellReturned (Inr ''x''), Reader 0, Reader 1], s) \<and> owned_by ''u1'' s = 2"
  using assms by (simp add: shell_run_simps)

text \<open>The session ends before the shell has its entry.\<close>

lemma stale_run:
  assumes "find_shell_node demo_lab_env [''l1''] ''l1'' (Some ''r1'') (Some 80) (Some 24) demo_login w = Inr x"
  shows "\<exists>s. shell_follow demo_shell_env
      [demo_open, SMove 1 (SeenServer [''l1''] w), SMove 1 Go, SMove 1 opened_now, SMove 2 ReadEOF, SMove 2 Go,
       SMove 2 (Called None 0), SMove 1 Go] shell_start =
      Some ([ManagerRound, ShellReturned (Inr []), ShellReturned (Inr [])], s) \<and> openShells s = [([], 0)] \<and>
      sc_sessionClosed (shellHeap s ! 0) \<and> check_limit 1 demo_login s = Some (Sentinel ErrShellLimitReached)"
  using assms by (simp add: shell_run_simps)

text \<open>The service is closed, and its manager has ended, while a call opens a session.\<close>

lemma leak_run:
  assumes "find_shell_node demo_lab_env [''l1''] ''l1'' (Some ''r1'') (Some 80) (Some 24) demo_login w = Inr x"
  shows "\<exists>s. shell_follow demo_shell_env
      [demo_open, SMove 1 (SeenServer [''l1''] w), SMove 1 Go, SBegin CloseService, SMove 2 Go, SMove 2 (Loop [] 0),
       SMove 2 Go, SMove 0 (Loop [] 0), SMove 0 Stop, SMove 1 opened_now, SMove 1 Go] shell_start =
      Some ([ShellReturned (Inr []), ShellReturned (Inr []), ShellReturned (Inr []), Reader 0], s) \<and> closedOnce s \<and>
      openShells s = [([], 0)] \<and> \<not> sc_sessionClosed (shellHeap s ! 0)"
  using assms by (simp add: shell_run_simps)

text \<open>Calls at the same time can pass the limit; a session that ends before its shell has an entry leaves an entry of
  a closed session, which counts for the limit; and a session opened while the service is closed stays open when
  no manager is left to close it.\<close>

theorem shell_races:
  "se_UserLimit demo_shell_env = 1 \<and>
   (\<exists>s. shell_reachable demo_shell_env ([ManagerRound, ShellReturned (Inr []), ShellReturned (Inr ''x''), Reader 0, Reader 1], s) \<and>
      owned_by ''u1'' s = 2) \<and>
   (\<exists>s. shell_reachable demo_shell_env ([ManagerRound, ShellReturned (Inr []), ShellReturned (Inr [])], s) \<and>
      openShells s = [([], 0)] \<and> sc_sessionClosed (shellHeap s ! 0) \<and>
      check_limit 1 demo_login s = Some (Sentinel ErrShellLimitReached)) \<and>
   (\<exists>s. shell_reachable demo_shell_env ([ShellReturned (Inr []), ShellReturned (Inr []), ShellReturned (Inr []), Reader 0], s) \<and>
      closedOnce s \<and> openShells s = [([], 0)] \<and> \<not> sc_sessionClosed (shellHeap s ! 0))"
proof -
  obtain w :: "(memory, string) server" and x where
    "find_shell_node demo_lab_env [''l1''] ''l1'' (Some ''r1'') (Some 80) (Some 24) demo_login w = Inr x"
    by (rule demo_node_found)
  note found = this
  have "se_UserLimit demo_shell_env = 1" by (simp add: demo_shell_env_def)
  with over_limit_run [OF found] stale_run [OF found] leak_run [OF found] shell_follow_reachable
  show ?thesis by (intro conjI) blast+
qed

section \<open>What a shell shows\<close>

text \<open>The namespace of the data of a shell, with the check that \<open>OpenShellCommand\<close> gives it.\<close>

definition string_type :: "string input_type" where
  "string_type = \<lparr>it_is_string = True, it_raw = Some, it_unmarshal = (\<lambda>_. Inl (Foreign []))\<rparr>"

definition shell_namespace :: "int \<Rightarrow> string \<Rightarrow> byte_ring namespace" where
  "shell_namespace ClabLogBacklog shellId =
     CreateIONamespace string_type False (Some (CreateByteRing ClabLogBacklog)) True [''shell'', shellId]"

definition shell_access :: "authenticated_user \<Rightarrow> authenticated_user \<Rightarrow> bool" where
  "shell_access owner user \<longleftrightarrow> UserId user = UserId owner"

definition shell_ns_env ::
  "authenticated_user \<Rightarrow> 'tok jwt \<Rightarrow> (nat \<Rightarrow> auth_manager) \<Rightarrow> (byte_ring, char, 'tok) ns_env" where
  "shell_ns_env owner J M = \<lparr>ne_ring = byte_ring_ops, ne_check = Some (shell_access owner), ne_jwt = J, ne_auth = M\<rparr>"

text \<open>C35: Whatever a shell shows, live or from its backlog, is emitted only to sockets that its owner has connected, if the
  claims of a token do not change. The authentication manager may be in any states it reaches, with users and admins of
  an OpenID provider.\<close>

theorem shell_output_only_to_owner:
  assumes "ns_reachable (shell_ns_env owner J M) (shell_namespace n shellId) (ps, w)"
    and "stable_claims J" "\<forall>i. manager_reachable Ps (M i)" "(k, e) \<in> set (w_log w)"
  shows "k < length ps \<and> (\<exists>c u. joined (ps ! k) = Some c \<and> cu_user c = Some u \<and> UserId u = UserId owner)"
proof -
  have "ns_inv (shell_ns_env owner J M) (ps, w)"
    by (rule ns_inv_reachable [OF assms(1)]) (simp_all add: shell_namespace_def CreateIONamespace_def)
  from emitted_client [OF this assms(4)] obtain c u where c: "k < length ps" "joined (ps ! k) = Some c"
    "cu_user c = Some u" "admitted (shell_ns_env owner J M) u" by blast
  have "\<forall>i. users_by_id (M i)" using manager_reachable_users assms(3) by blast
  with admitted_id [OF c(4)] assms(2) obtain v where "passes (shell_ns_env owner J M) v" "UserId v = UserId u"
    by (auto simp: shell_ns_env_def)
  then have "UserId u = UserId owner" by (simp add: passes_def shell_ns_env_def shell_access_def)
  with c show ?thesis by blast
qed

text \<open>A server at which alice has logged in with OpenID, as a member of a group of admins.\<close>

definition openid_settings :: auth_settings where
  "openid_settings = \<lparr>Methods = [AuthAdmin, AuthOpenID], OpenIdAdminGroups = [''ops''], SB_ADMIN_USERNAME = ''root'',
     SB_ADMIN_PASSWORD = ''secret'', SB_OIDC_SECRET = ''s'', SB_DESKTOP_TOKEN = [], SB_JWT_SECRET = ''k''\<rparr>"

definition openid_provider :: "(string, string, string) oidc" where
  "openid_provider = \<lparr>Exchange = Inr, UserInfo = Inr, Claims = (\<lambda>_. Inr \<lparr>Sub = ''sub'', Groups = [''ops''], Profile = ''alice''\<rparr>)\<rparr>"

definition alice_mapper :: "string \<Rightarrow> string \<Rightarrow> unit \<Rightarrow> string result \<times> unit" where
  "alice_mapper sub profile s = (Inr ''a'', s)"

definition openid_manager :: auth_manager where
  "openid_manager = the (CreateAuthManager [] True openid_settings)"

definition alice_manager :: auth_manager where
  "alice_manager = fst (snd (AuthenticateWithCode openid_provider alice_mapper ''code'' (openid_manager, ())))"

lemma alice_ok: "manager_reachable {(openid_provider, alice_mapper)} alice_manager"
proof (rule manager_reachable.with_code)
  have "CreateAuthManager [] True openid_settings = Some openid_manager"
    by (simp add: openid_manager_def CreateAuthManager_def openid_settings_def auth_config_of_def Let_def)
  then show "manager_reachable {(openid_provider, alice_mapper)} openid_manager" by (rule manager_reachable.created)
  show "AuthenticateWithCode openid_provider alice_mapper ''code'' (openid_manager, ()) =
      (fst (AuthenticateWithCode openid_provider alice_mapper ''code'' (openid_manager, ())), alice_manager, ())"
    by (simp add: alice_manager_def prod_eq_iff)
qed simp

definition alice :: authenticated_user where
  "alice = \<lparr>UserId = ''a'', Collections = [], IsAdmin = False\<rparr>"

lemma alice_run:
  "map_option (w_log \<circ> snd) (ns_follow (shell_ns_env alice name_jwt (\<lambda>_. alice_manager))
     ([Begin (Sending (Many ''hi'') Everyone), Move 0, Move 0, Move 0, Begin (Handshake 1 (Some ''a'') 0 0)] @ replicate 5 (Move 1))
     (ns_start (shell_namespace 5 ''s''))) = Some [(1, Backlog ''hi'')]"
  by code_simp

lemma shell_output_only_to_owner_witness:
  "\<exists>ps w. ns_reachable (shell_ns_env alice name_jwt (\<lambda>_. alice_manager)) (shell_namespace 5 ''s'') (ps, w) \<and>
     (1, Backlog ''hi'') \<in> set (w_log w) \<and> 1 < length ps \<and> map_option IsAdmin (authenticatedUsers alice_manager ''a'') = Some True \<and>
     (\<exists>c u. joined (ps ! 1) = Some c \<and> cu_user c = Some u \<and> UserId u = ''a'')"
proof -
  obtain ps w where s: "ns_reachable (shell_ns_env alice name_jwt (\<lambda>_. alice_manager)) (shell_namespace 5 ''s'') (ps, w)"
    "w_log w = [(1, Backlog ''hi'')]"
    using alice_run by (auto simp del: ns_follow.simps dest!: ns_follow_reachable)
  have "stable_claims name_jwt" by (simp add: stable_claims_def name_jwt_def)
  with shell_output_only_to_owner [OF s(1) this, of "{(openid_provider, alice_mapper)}"] alice_ok s
  have "1 < length ps \<and> (\<exists>c u. joined (ps ! 1) = Some c \<and> cu_user c = Some u \<and> UserId u = ''a'')"
    by (force simp: alice_def)
  moreover have "map_option IsAdmin (authenticatedUsers alice_manager ''a'') = Some True" by code_simp
  ultimately show ?thesis using s by (intro exI [of _ ps] exI [of _ w]) auto
qed

text \<open>The witnesses of the other properties, at the runs above.\<close>

lemma demo_shell_state:
  obtains s where "shell_reachable demo_shell_env ([ManagerRound, ShellReturned (Inr []), ShellReturned (Inr [])], s)"
    "openShells s = [([], 0)]" "length (shellHeap s) = 1" "sc_labId (shellHeap s ! 0) = ''l1''"
proof -
  obtain w :: "(memory, string) server" and x where f:
    "find_shell_node demo_lab_env [''l1''] ''l1'' (Some ''r1'') (Some 80) (Some 24) demo_login w = Inr x"
    by (rule demo_node_found)
  then have "\<exists>s. shell_follow demo_shell_env
      [demo_open, SMove 1 (SeenServer [''l1''] w), SMove 1 Go, SMove 1 opened_now, SMove 2 ReadEOF, SMove 2 Go,
       SMove 2 (Called None 0), SMove 1 Go] shell_start =
      Some ([ManagerRound, ShellReturned (Inr []), ShellReturned (Inr [])], s) \<and> openShells s = [([], 0)] \<and>
      length (shellHeap s) = 1 \<and> sc_labId (shellHeap s ! 0) = ''l1''"
    by (simp add: shell_run_simps)
  then show ?thesis using that shell_follow_reachable by blast
qed

lemma shell_for_member_and_owner_witness:
  "\<exists>ps s c. shell_reachable demo_shell_env (ps, s) \<and> shellHeap s = [c] \<and>
     (IsAdmin (sc_owner c) \<or> (\<exists>lab :: lab. allowed (sc_owner c) (coll_Name (lab_Collection lab))))"
proof -
  obtain s where s: "shell_reachable demo_shell_env ([ManagerRound, ShellReturned (Inr []), ShellReturned (Inr [])], s)"
    "length (shellHeap s) = 1" by (rule demo_shell_state)
  then obtain c where c: "shellHeap s = [c]" by (auto simp: length_Suc_conv)
  from shell_for_member_and_owner [OF s(1)] have "IsAdmin (sc_owner c) \<or> (\<exists>lab :: lab. allowed (sc_owner c) (coll_Name (lab_Collection lab)))"
    unfolding c by auto
  with s c show ?thesis by blast
qed

lemma no_shell_forgotten_witness:
  "\<exists>ps s. shell_reachable demo_shell_env (ps, s) \<and> openShells s = [([], 0)] \<and>
     (sc_sessionClosed (shellHeap s ! 0) \<or> 0 \<in> snd ` set (openShells s) \<or> (\<exists>p \<in> set ps. in_hands p 0))"
proof -
  obtain s where s: "shell_reachable demo_shell_env ([ManagerRound, ShellReturned (Inr []), ShellReturned (Inr [])], s)"
    "openShells s = [([], 0)]" "length (shellHeap s) = 1" by (rule demo_shell_state)
  have "inj (se_uuid demo_shell_env)" by (auto simp: demo_shell_env_def inj_def dest: arg_cong [where f = length])
  from no_shell_forgotten [OF s(1) this, of 0] s show ?thesis by force
qed

text \<open>Two calls at once, with a limit of one shell: the user has two shells, which is what the bound allows.\<close>

lemma two_at_once:
  assumes "find_shell_node demo_lab_env [''l1''] ''l1'' (Some ''r1'') (Some 80) (Some 24) demo_login w = Inr x"
  shows "\<exists>ps s. paced_follow demo_shell_env ''u1'' 2
      [demo_open, demo_open, SMove 1 (SeenServer [''l1''] w), SMove 2 (SeenServer [''l1''] w), SMove 1 Go, SMove 2 Go,
       SMove 1 opened_now, SMove 2 opened_now, SMove 1 Go, SMove 2 Go] shell_start = Some (ps, s) \<and> owned_by ''u1'' s = 2"
  using assms by (simp add: shell_run_simps openers_def)

lemma shell_limit_kept_witness:
  "\<exists>ps s. paced demo_shell_env ''u1'' 2 (ps, s) \<and> owned_by ''u1'' s = 2 \<and>
     int (owned_by ''u1'' s) \<le> se_UserLimit demo_shell_env + int (2 - 1) \<and> se_UserLimit demo_shell_env = 1"
proof -
  obtain w :: "(memory, string) server" and x where
    "find_shell_node demo_lab_env [''l1''] ''l1'' (Some ''r1'') (Some 80) (Some 24) demo_login w = Inr x"
    by (rule demo_node_found)
  from two_at_once [OF this] obtain cs ps s where
    run: "paced_follow demo_shell_env ''u1'' 2 cs shell_start = Some (ps, s)" and two: "owned_by ''u1'' s = 2"
    by blast
  have "paced demo_shell_env ''u1'' 2 shell_start" by (simp add: paced_def)
  from two paced_follow_paced [OF this run] have s: "owned_by ''u1'' s = 2" "paced demo_shell_env ''u1'' 2 (ps, s)" by simp_all
  have "se_UserLimit demo_shell_env = 1" by (simp add: demo_shell_env_def)
  with shell_limit_kept [OF s(2)] s show ?thesis by (intro exI [of _ ps] exI [of _ s]) simp
qed

end
