(* ===== verification/Commands.thy ===== *)
theory Commands
  imports Shell_Behaviour
begin

text \<open>
  The commands of clients: \<open>src/runtime/commands/handler.go\<close> and \<open>commands.go\<close>. A command is an event of the
  namespace \<open>cmd\<close>. It is answered, or it runs as a thread of the instance service or of the shell service and is
  answered when that thread has returned. The system of both services and the commands is built from theirs.
\<close>

section \<open>Commands\<close>

text \<open>A decoded payload. Numbers of commands are any integers a client sends.\<close>

record commandPayload =
  cp_LabId :: "string option"
  cp_Command :: "int option"
  cp_Node :: "string option"
  cp_ShellId :: "string option"
  cp_Cols :: "nat option"
  cp_Rows :: "nat option"

definition deployLabCommand :: int where "deployLabCommand = 0"
definition destroyLabCommand :: int where "destroyLabCommand = 1"
definition startNodeCommand :: int where "startNodeCommand = 2"
definition stopNodeCommand :: int where "stopNodeCommand = 3"
definition restartNodeCommand :: int where "restartNodeCommand = 4"
definition fetchShellsCommand :: int where "fetchShellsCommand = 5"
definition openShellCommand :: int where "openShellCommand = 6"
definition closeShellCommand :: int where "closeShellCommand = 7"
definition resizeShellCommand :: int where "resizeShellCommand = 8"

lemmas runtimeCommands =
  deployLabCommand_def destroyLabCommand_def startNodeCommand_def stopNodeCommand_def restartNodeCommand_def
  fetchShellsCommand_def openShellCommand_def closeShellCommand_def resizeShellCommand_def

text \<open>What a command leads to: a refusal, a thread of one of the services, or a question to the shell service.\<close>

datatype command_target =
    Refuse go_error
  | OnInstances pc
  | OnShells shell_pc
  | FetchShells string
  | ResizeShell

definition handleNodeCommand :: "int \<Rightarrow> commandPayload \<Rightarrow> authenticated_user \<Rightarrow> command_target" where
  "handleNodeCommand cmd data authUser =
     (case (cp_LabId data, cp_Node data) of
        (Some labId, Some node) \<Rightarrow>
          if cmd = startNodeCommand then OnInstances (NodeCommand OpStart labId (Some node) authUser)
          else if cmd = stopNodeCommand then OnInstances (NodeCommand OpStop labId (Some node) authUser)
          else if cmd = restartNodeCommand then OnInstances (NodeCommand OpRestart labId (Some node) authUser)
          else Refuse (Sentinel ErrInvalidRuntimeCommand)
      | _ \<Rightarrow> Refuse (Sentinel ErrInvalidSocketRequest))"

definition handleShellCommand :: "int \<Rightarrow> commandPayload \<Rightarrow> authenticated_user \<Rightarrow> command_target" where
  "handleShellCommand cmd data authUser =
     (if cmd = fetchShellsCommand then
        (case cp_LabId data of None \<Rightarrow> Refuse (Sentinel ErrInvalidSocketRequest) | Some labId \<Rightarrow> FetchShells labId)
      else if cmd = openShellCommand then
        (case cp_LabId data of
           None \<Rightarrow> Refuse (Sentinel ErrInvalidSocketRequest)
         | Some labId \<Rightarrow> OnShells (OpenCall labId (cp_Node data) (cp_Cols data) (cp_Rows data) authUser))
      else if cmd = closeShellCommand then OnShells (CloseCall (cp_ShellId data) authUser)
      else if cmd = resizeShellCommand then ResizeShell
      else Refuse (Sentinel ErrInvalidRuntimeCommand))"

definition handleCommand :: "commandPayload \<Rightarrow> authenticated_user \<Rightarrow> command_target" where
  "handleCommand data authUser =
     (case cp_Command data of
        None \<Rightarrow> Refuse (Sentinel ErrInvalidSocketRequest)
      | Some cmd \<Rightarrow>
          if cmd = deployLabCommand then OnInstances (DeployCommand (cp_LabId data) authUser)
          else if cmd = destroyLabCommand then OnInstances (DestroyCommand (cp_LabId data) authUser)
          else if cmd \<in> {startNodeCommand, stopNodeCommand, restartNodeCommand} then handleNodeCommand cmd data authUser
          else if cmd \<in> {fetchShellsCommand, openShellCommand, closeShellCommand, resizeShellCommand}
          then handleShellCommand cmd data authUser
          else Refuse (Sentinel ErrInvalidRuntimeCommand))"

text \<open>The payloads of answers.\<close>

datatype command_result = NoPayload | Shells "shellData list" | ShellId string

definition answer_error :: "go_error option \<Rightarrow> command_result Sockets.reply" where
  "answer_error e = (case e of
     None \<Rightarrow> Answer (CreateSocketOkResponse NoPayload)
   | Some err \<Rightarrow> Failure (CreateSocketErrorResponse err))"

definition answer_result :: "('a \<Rightarrow> command_result) \<Rightarrow> 'a result \<Rightarrow> command_result Sockets.reply" where
  "answer_result f r = (case r of
     Inl err \<Rightarrow> Failure (CreateSocketErrorResponse err)
   | Inr x \<Rightarrow> Answer (CreateSocketOkResponse (f x)))"

text \<open>What a thread of the shell service returns is the id of a shell for the command that opens one.\<close>

definition answer_shell :: "int option \<Rightarrow> string result \<Rightarrow> command_result Sockets.reply" where
  "answer_shell cmd r =
     answer_result (\<lambda>i. if cmd = Some openShellCommand then ShellId i else NoPayload) r"

section \<open>The system\<close>

text \<open>
  A command is received, runs as a thread of a service, whose number it keeps, and is answered. The log holds
  the answers with the number of the command, which stands for its acknowledgement. What was sent with each command,
  and which thread began for which command and where, is recorded and not read by any step.
\<close>

datatype cmd_pc =
    Received commandPayload authenticated_user
  | AwaitsInstance nat
  | AwaitsShell nat "int option"
  | Answered

record ('db, 'h) cmd_system =
  cs_instances :: "pc list \<times> ('db, 'h) server"
  cs_shells :: shell_state
  cs_commands :: "cmd_pc list"
  cs_answers :: "(nat \<times> command_result Sockets.reply) list"
  cs_requests :: "(commandPayload \<times> authenticated_user) list"
  cs_begunInstances :: "(nat \<times> nat \<times> pc) list"
  cs_begunShells :: "(nat \<times> nat \<times> shell_pc) list"

definition begin_instance :: "nat \<Rightarrow> pc \<Rightarrow> ('db, 'h) cmd_system \<Rightarrow> ('db, 'h) cmd_system" where
  "begin_instance k p S =
     S\<lparr>cs_instances := (fst (cs_instances S) @ [p], snd (cs_instances S)),
       cs_begunInstances := cs_begunInstances S @ [(length (fst (cs_instances S)), k, p)]\<rparr>"

definition begin_shell :: "nat \<Rightarrow> shell_pc \<Rightarrow> ('db, 'h) cmd_system \<Rightarrow> ('db, 'h) cmd_system" where
  "begin_shell k p S =
     S\<lparr>cs_shells := (fst (cs_shells S) @ [p], snd (cs_shells S)),
       cs_begunShells := cs_begunShells S @ [(length (fst (cs_shells S)), k, p)]\<rparr>"

definition answer :: "nat \<Rightarrow> command_result Sockets.reply \<Rightarrow> ('db, 'h) cmd_system \<Rightarrow> ('db, 'h) cmd_system" where
  "answer k a S = S\<lparr>cs_commands := (cs_commands S)[k := Answered], cs_answers := cs_answers S @ [(k, a)]\<rparr>"

text \<open>
  The first step of a command. The order of a loop over the shells and the outcome of resizing a session come from
  outside.
\<close>

definition dispatch ::
  "('db, 'node, 'h) env \<Rightarrow> (string \<times> nat) list \<Rightarrow> go_error option \<Rightarrow> nat \<Rightarrow> commandPayload \<Rightarrow> authenticated_user
    \<Rightarrow> ('db, 'h) cmd_system \<Rightarrow> ('db, 'h) cmd_system" where
  "dispatch E order resized k data authUser S =
     (case (cs_instances S, cs_shells S) of
        ((ths, w), (ps, s)) \<Rightarrow>
          (case handleCommand data authUser of
             Refuse err \<Rightarrow> answer k (answer_error (Some err)) S
           | OnInstances p \<Rightarrow>
               (begin_instance k p S)\<lparr>cs_commands := (cs_commands S)[k := AwaitsInstance (length ths)]\<rparr>
           | OnShells p \<Rightarrow>
               (begin_shell k p S)\<lparr>cs_commands := (cs_commands S)[k := AwaitsShell (length ps) (cp_Command data)]\<rparr>
           | FetchShells labId \<Rightarrow>
               answer k (answer_result Shells (FetchShellsCommand E order labId authUser w s)) S
           | ResizeShell \<Rightarrow>
               answer k (answer_error
                 (ResizeShellCommand resized (cp_ShellId data) (cp_Cols data) (cp_Rows data) authUser s)) S))"

inductive cmd_step ::
  "('db, 'node, 'h) env \<Rightarrow> inst_config \<Rightarrow> ('db, 'node, 'h) shell_env \<Rightarrow> ('db, 'h) cmd_system \<Rightarrow> ('db, 'h) cmd_system \<Rightarrow> bool"
  for E C H where
  instances_step: "sys_step E C (cs_instances S) i' \<Longrightarrow> cmd_step E C H S (S\<lparr>cs_instances := i'\<rparr>)"
| shells_step: "shell_step H (cs_shells S) s' \<Longrightarrow> cmd_step E C H S (S\<lparr>cs_shells := s'\<rparr>)"
| received: "cmd_step E C H S
    (S\<lparr>cs_commands := cs_commands S @ [Received data u], cs_requests := cs_requests S @ [(data, u)]\<rparr>)"
| dispatched: "k < length (cs_commands S) \<Longrightarrow> cs_commands S ! k = Received data u \<Longrightarrow>
    mset order = mset (openShells (snd (cs_shells S))) \<Longrightarrow> cmd_step E C H S (dispatch E order resized k data u S)"
| instance_returned: "k < length (cs_commands S) \<Longrightarrow> cs_commands S ! k = AwaitsInstance t \<Longrightarrow>
    t < length (fst (cs_instances S)) \<Longrightarrow> fst (cs_instances S) ! t = pc.Finished err \<Longrightarrow>
    cmd_step E C H S (answer k (answer_error err) S)"
| shell_returned: "k < length (cs_commands S) \<Longrightarrow> cs_commands S ! k = AwaitsShell t cmd \<Longrightarrow>
    t < length (fst (cs_shells S)) \<Longrightarrow> fst (cs_shells S) ! t = ShellReturned r \<Longrightarrow>
    cmd_step E C H S (answer k (answer_shell cmd r) S)"

inductive cmd_reach ::
  "('db, 'node, 'h) env \<Rightarrow> inst_config \<Rightarrow> ('db, 'node, 'h) shell_env \<Rightarrow> ('db, 'h) cmd_system \<Rightarrow> bool" for E C H where
  cmd_start: "sys_reach E C i \<Longrightarrow>
    cmd_reach E C H \<lparr>cs_instances = i, cs_shells = shell_start, cs_commands = [], cs_answers = [],
      cs_requests = [], cs_begunInstances = [], cs_begunShells = []\<rparr>"
| cmd_next: "cmd_reach E C H S \<Longrightarrow> cmd_step E C H S S' \<Longrightarrow> cmd_reach E C H S'"

section \<open>What always holds\<close>

lemma handleCommand_startable:
  "handleCommand data u = OnInstances p \<Longrightarrow> startable p"
  "handleCommand data u = OnShells q \<Longrightarrow> shell_request q"
  by (auto simp: handleCommand_def handleNodeCommand_def handleShellCommand_def split: option.splits if_splits)

lemma dispatch_services:
  assumes "sys_reach E C (cs_instances S)" "shell_reachable H (cs_shells S)"
  shows "sys_reach E C (cs_instances (dispatch D order resized k data u S)) \<and>
    shell_reachable H (cs_shells (dispatch D order resized k data u S))"
proof -
  obtain ths w ps s where S: "cs_instances S = (ths, w)" "cs_shells S = (ps, s)" by fastforce
  have "sys_reach E C (ths @ [p], w)" if "handleCommand data u = OnInstances p" for p
    using assms(1) S handleCommand_startable(1) [OF that] by (metis sys_reach.step sys_step.begins)
  moreover have "shell_reachable H (ps @ [q], s)" if "handleCommand data u = OnShells q" for q
    using assms(2) S handleCommand_startable(2) [OF that] unfolding shell_reachable_def
    by (metis rtranclp.rtrancl_into_rtrancl shell_step.shell_begin)
  ultimately show ?thesis
    using assms S by (auto simp: dispatch_def answer_def begin_instance_def begin_shell_def split: command_target.split)
qed

text \<open>Each service is in a state that it reaches by itself.\<close>

lemma cmd_services:
  "cmd_reach E C H S \<Longrightarrow> sys_reach E C (cs_instances S) \<and> shell_reachable H (cs_shells S)"
proof (induction rule: cmd_reach.induct)
  case (cmd_start i)
  then show ?case by (simp add: shell_reachable_def)
next
  case (cmd_next S S')
  from cmd_next(2) cmd_next(3) show ?case
  proof (induction rule: cmd_step.induct)
    case (instances_step S i')
    then show ?case by (auto intro: sys_reach.step)
  next
    case (shells_step S s')
    then show ?case by (auto simp: shell_reachable_def intro: rtranclp.rtrancl_into_rtrancl)
  next
    case (dispatched k S data u order resized)
    then show ?case using dispatch_services by blast
  qed (auto simp: answer_def)
qed


















lemmas begins = begin_instance_def begin_shell_def












section \<open>Properties\<close>

text \<open>A command without a number, or without the lab and node its number needs, is refused as an invalid request, and
  one with an unknown number as an invalid command; every other one reaches the service it is for, on behalf of the
  user who sent it.\<close>

theorem commands_routed:
  "handleCommand data u =
    (case cp_Command data of
       None \<Rightarrow> Refuse (Sentinel ErrInvalidSocketRequest)
     | Some n \<Rightarrow>
         if n < 0 \<or> 8 < n then Refuse (Sentinel ErrInvalidRuntimeCommand)
         else if (n \<in> {2, 3, 4} \<and> (cp_LabId data = None \<or> cp_Node data = None)) \<or> (n \<in> {5, 6} \<and> cp_LabId data = None)
         then Refuse (Sentinel ErrInvalidSocketRequest)
         else if n = 0 then OnInstances (DeployCommand (cp_LabId data) u)
         else if n = 1 then OnInstances (DestroyCommand (cp_LabId data) u)
         else if n \<in> {2, 3, 4} then OnInstances (NodeCommand
           (if n = 2 then OpStart else if n = 3 then OpStop else OpRestart) (the (cp_LabId data)) (cp_Node data) u)
         else if n = 5 then FetchShells (the (cp_LabId data))
         else if n = 6 then OnShells (OpenCall (the (cp_LabId data)) (cp_Node data) (cp_Cols data) (cp_Rows data) u)
         else if n = 7 then OnShells (CloseCall (cp_ShellId data) u)
         else ResizeShell)"
proof (cases "cp_Command data")
  case (Some n)
  consider "n < 0 \<or> 8 < n" | "n \<in> {0, 1, 2, 3, 4, 5, 6, 7, 8}" by fastforce
  then show ?thesis
  proof cases
    case 1
    then show ?thesis by (auto simp: Some handleCommand_def runtimeCommands)
  next
    case 2
    then show ?thesis
      by (elim insertE emptyE)
        (simp_all add: Some handleCommand_def handleNodeCommand_def handleShellCommand_def runtimeCommands split: option.split)
  qed
qed (simp add: handleCommand_def)








end
