(* ===== verification/Providers.thy ===== *)
theory Providers
  imports Instances
begin

text \<open>
  What the deployment providers share: the containers they report (\<open>src/deployment/deployment.go\<close>) and the
  helpers that run commands and read streams and files (\<open>src/deployment/utils.go\<close>).
\<close>

section \<open>Containers\<close>

text \<open>A whole \<open>InspectContainer\<close>; the instance service reads the fields of \<^typ>\<open>inspect_container\<close> only.\<close>

record full_container = inspect_container +
  ic_LabName :: string
  ic_LabPath :: string
  ic_Image :: string

text \<open>How \<open>InspectNode\<close> selects a node from the containers of its lab.\<close>

definition find_node :: "string \<Rightarrow> full_container list \<Rightarrow> full_container result" where
  "find_node nodeName cs =
     (case find (\<lambda>c. ic_Name c = nodeName) cs of
        None \<Rightarrow> Inl (Sentinel ErrNodeNotFound) | Some c \<Rightarrow> Inr c)"

text \<open>Where these fields reach the instance service.\<close>

definition seen_container :: "full_container \<Rightarrow> inspect_container" where
  "seen_container c = inspect_container.truncate c"

section \<open>Numbers\<close>

text \<open>
  The value \<open>strconv.Atoi\<close> returns beside its error: 0 for a text that is no number, the nearest number of 64
  bits for one that does not fit.
\<close>

definition decimal :: "string \<Rightarrow> int option" where
  "decimal s =
     (if s \<noteq> [] \<and> list_all (\<lambda>c. digit_of c \<noteq> None) s
      then Some (foldl (\<lambda>n c. n * 10 + int (the (digit_of c))) 0 s) else None)"

definition Atoi_value :: "string \<Rightarrow> int" where
  "Atoi_value s =
     (case s of
        CHR ''-'' # ds \<Rightarrow> (case decimal ds of None \<Rightarrow> 0 | Some n \<Rightarrow> max (- (2 ^ 63)) (- n))
      | CHR ''+'' # ds \<Rightarrow> (case decimal ds of None \<Rightarrow> 0 | Some n \<Rightarrow> min (2 ^ 63 - 1) n)
      | _ \<Rightarrow> (case decimal s of None \<Rightarrow> 0 | Some n \<Rightarrow> min (2 ^ 63 - 1) n))"

section \<open>Streams and commands\<close>

text \<open>
  The lines \<open>bufio.Scanner\<close> delivers. The last one need not end in a newline, a carriage return at the end of a
  line is dropped, and a line that does not fit into the buffer with its newline ends the scan.
\<close>

definition max_token :: nat where
  "max_token = 64 * 1024"

definition drop_cr :: "string \<Rightarrow> string" where
  "drop_cr l = (if l \<noteq> [] \<and> last l = CHR 0x0D then butlast l else l)"

definition scanned :: "string list \<Rightarrow> string list" where
  "scanned ls = map drop_cr (takeWhile (\<lambda>l. length l < max_token) ls)"

definition scan_lines :: "string \<Rightarrow> string list" where
  "scan_lines s = (let ls = split_on CHR 0x0A s in scanned (if last ls = [] then butlast ls else ls))"

definition streamOutput :: "string \<Rightarrow> string list" where
  "streamOutput pipe = scan_lines pipe"

text \<open>
  A command: whether its pipe and its process can be made, what it prints, how it ends and what it is called in errors.
\<close>

record process =
  pr_StderrPipe :: "go_error option"
  pr_Start :: "go_error option"
  pr_stdout :: string
  pr_stderr :: string
  pr_Wait :: "go_error option"
  pr_String :: string

definition runCommandSync :: "process \<Rightarrow> string list \<times> string option \<times> go_error option" where
  "runCommandSync cmd =
     (case pr_StderrPipe cmd of
        Some err \<Rightarrow> ([], None, Some err)
      | None \<Rightarrow>
          (case pr_Start cmd of
             Some err \<Rightarrow> ([], None, Some err)
           | None \<Rightarrow> (streamOutput (pr_stderr cmd), Some (pr_stdout cmd),
               map_option (Prefixed (''sub-process '' @ apos (pr_String cmd) @ '' failed'')) (pr_Wait cmd))))"

definition readFileOrEmpty :: "(string \<Rightarrow> string result) \<Rightarrow> string \<Rightarrow> string" where
  "readFileOrEmpty read_file path = (case read_file path of Inl _ \<Rightarrow> [] | Inr b \<Rightarrow> TrimSpace b)"

section \<open>Facts\<close>

lemma runCommandSync_output: "snd (runCommandSync cmd) = (None, None) \<Longrightarrow> False"
  by (auto simp: runCommandSync_def split: option.splits)

text \<open>A command that was started has output, whatever came of it.\<close>

lemma runCommandSync_ok:
  "runCommandSync cmd = (ls, out, None) \<Longrightarrow> out = Some (pr_stdout cmd)"
  by (auto simp: runCommandSync_def split: option.splits)

lemma join_newline_split: "join [CHR 0x0A] (split_on CHR 0x0A s) = s"
proof (induction s)
  case (Cons x xs)
  obtain y ys where y: "split_on CHR 0x0A xs = y # ys" by (cases "split_on CHR 0x0A xs") (auto split: list.splits if_splits elim: split_on.elims)
  then show ?case using Cons by (cases ys) auto
qed simp

lemma find_node_Inr: "find_node nodeName cs = Inr c \<Longrightarrow> c \<in> set cs \<and> ic_Name c = nodeName"
  by (auto simp: find_node_def find_Some_iff split: option.splits)

end
