(* ===== verification/Dummy_Provider.thy ===== *)
theory Dummy_Provider
  imports Instance_Steps Providers Statistics "HOL-Library.AList"
begin

text \<open>
  The provider that deploys nothing and keeps all nodes in memory, \<open>src/deployment/dummy.go\<close>. It is the one
  implementation of the interface \<open>DeploymentProvider\<close> whose state is the program's own. What the instance service
  relies on of any provider is the locale below, and the dummy is an interpretation of it.
\<close>

section \<open>State\<close>

definition ErrDummyProvider :: go_error where
  "ErrDummyProvider = Foreign ''dummy provider: not supported''"

record DummyNode =
  dn_Name :: string
  dn_Kind :: string
  dn_Image :: string
  dn_State :: node_state
  dn_ContainerId :: string
  dn_ContainerName :: string
  dn_IPv4 :: string
  dn_IPv6 :: string

record DummyProviderCall =
  dc_Method :: string
  dc_Args :: "(string \<times> string list) list"

text \<open>
  An interactive session: a channel of at most 64 pieces of output, what is left of the last piece, the input
  and the sizes it was given.
\<close>

record DummyShellSession =
  ds_written :: string
  ds_resizes :: "(nat \<times> nat) list"
  ds_out :: "string list"
  ds_pending :: string
  ds_closed :: bool
  ds_prompt :: string

text \<open>Nodes of an instance are listed in the order in which a loop takes them, and callbacks are numbers.\<close>

record DummyProvider =
  dp_calls :: "DummyProviderCall list"
  dp_instances :: "string \<rightharpoonup> (string \<times> DummyNode) list"
  dp_listener :: "nat option"
  dp_containerLogs :: "string \<rightharpoonup> nat"
  dp_shells :: "string \<rightharpoonup> nat"
  dp_sessions :: "DummyShellSession list"
  DeployStates :: node_state
  DeployDelay :: int
  EchoShells :: bool
  EmitContainerLogs :: bool

text \<open>
  The behaviour a test can replace; \<open>None\<close> is the default. What a hook hands out, a session, a connection or a capture,
  is the test's own. The hook for statistics is an argument of the call. No call of the provider changes a hook.
\<close>

record dummy_hooks =
  DeployFn :: "(string \<Rightarrow> string \<Rightarrow> go_error option) option"
  RedeployFn :: "(string \<Rightarrow> string \<Rightarrow> go_error option) option"
  DestroyFn :: "(string \<Rightarrow> string \<Rightarrow> go_error option) option"
  InspectLabsFn :: "(string \<rightharpoonup> full_container list) result option"
  InspectLabFn :: "(string \<Rightarrow> string \<Rightarrow> full_container list result) option"
  InspectNodeFn :: "(string \<Rightarrow> string \<Rightarrow> string \<Rightarrow> full_container result) option"
  ExecFn :: "(string \<Rightarrow> string \<Rightarrow> string list \<Rightarrow> (string \<times> int) result) option"
  StartNodeFn :: "(string \<Rightarrow> string \<Rightarrow> go_error option) option"
  StopNodeFn :: "(string \<Rightarrow> string \<Rightarrow> go_error option) option"
  RestartNodeFn :: "(string \<Rightarrow> string \<Rightarrow> go_error option) option"
  InterfacesFn :: "(string \<Rightarrow> string \<Rightarrow> node_interface list result) option"
  ExecInteractiveFn :: "(string \<Rightarrow> string \<Rightarrow> string list \<Rightarrow> unit result) option"
  DialNodeFn :: "(string \<Rightarrow> string \<Rightarrow> int \<Rightarrow> unit result) option"
  StreamLogsFn :: "(string \<Rightarrow> string \<Rightarrow> string list \<times> go_error option) option"
  OpenCaptureFn :: "(string \<Rightarrow> string \<Rightarrow> string \<Rightarrow> unit result) option"

definition no_hooks :: dummy_hooks where
  "no_hooks = \<lparr>DeployFn = None, RedeployFn = None, DestroyFn = None, InspectLabsFn = None, InspectLabFn = None,
     InspectNodeFn = None, ExecFn = None, StartNodeFn = None, StopNodeFn = None, RestartNodeFn = None, InterfacesFn = None,
     ExecInteractiveFn = None, DialNodeFn = None, StreamLogsFn = None, OpenCaptureFn = None\<rparr>"

definition CreateDummyProvider :: DummyProvider where
  "CreateDummyProvider = \<lparr>dp_calls = [], dp_instances = Map.empty, dp_listener = None, dp_containerLogs = Map.empty,
     dp_shells = Map.empty, dp_sessions = [], DeployStates = NodeRunning, DeployDelay = 0, EchoShells = False,
     EmitContainerLogs = False\<rparr>"

text \<open>\<open>CreateProvider\<close> for the setting that selects the dummy.\<close>

definition CreateProvider_dummy :: DummyProvider where
  "CreateProvider_dummy =
     CreateDummyProvider\<lparr>DeployDelay := 1000000000, EchoShells := True, EmitContainerLogs := True\<rparr>"

section \<open>Nodes\<close>

definition applyStateSideEffects :: "DummyNode \<Rightarrow> DummyNode" where
  "applyStateSideEffects n =
     (if dn_State n = NodeStopped
      then n\<lparr>dn_ContainerId := [], dn_ContainerName := [], dn_IPv4 := [], dn_IPv6 := []\<rparr>
      else if dn_ContainerId n = []
      then n\<lparr>dn_ContainerId := ''container-'' @ dn_Name n, dn_ContainerName := ''clab-'' @ dn_Name n,
        dn_IPv4 := ''172.20.20.2'', dn_IPv6 := ''3fff:172:20:20::2''\<rparr>
      else n)"

definition putInstance :: "string \<Rightarrow> DummyNode list \<Rightarrow> DummyProvider \<Rightarrow> DummyProvider" where
  "putInstance instanceName ns p =
     p\<lparr>dp_instances := (dp_instances p)(instanceName \<mapsto>
       fold (\<lambda>n acc. AList.update (dn_Name n) (applyStateSideEffects n) acc) ns [])\<rparr>"

definition node_of :: "string \<Rightarrow> string \<Rightarrow> DummyProvider \<Rightarrow> DummyNode option" where
  "node_of instanceName nodeName p =
     (case dp_instances p instanceName of None \<Rightarrow> None | Some ns \<Rightarrow> map_of ns nodeName)"

definition set_node :: "string \<Rightarrow> string \<Rightarrow> (DummyNode \<Rightarrow> DummyNode) \<Rightarrow> DummyProvider \<Rightarrow> DummyProvider" where
  "set_node instanceName nodeName f p =
     (case dp_instances p instanceName of
        None \<Rightarrow> p
      | Some ns \<Rightarrow> p\<lparr>dp_instances := (dp_instances p)(instanceName \<mapsto>
          map (\<lambda>(k, n). (k, if k = nodeName then f n else n)) ns)\<rparr>)"

definition SetNodeState :: "string \<Rightarrow> string \<Rightarrow> node_state \<Rightarrow> DummyProvider \<Rightarrow> DummyProvider" where
  "SetNodeState instanceName nodeName st p =
     set_node instanceName nodeName (\<lambda>n. applyStateSideEffects (n\<lparr>dn_State := st\<rparr>)) p"

definition SeedInstance :: "string \<Rightarrow> DummyNode list \<Rightarrow> DummyProvider \<Rightarrow> DummyProvider" where
  "SeedInstance instanceName ns p = putInstance instanceName ns p"

definition HasInstance :: "string \<Rightarrow> DummyProvider \<Rightarrow> bool" where
  "HasInstance instanceName p \<longleftrightarrow> dp_instances p instanceName \<noteq> None"

definition container_of :: "string \<Rightarrow> DummyNode \<Rightarrow> full_container" where
  "container_of instanceName n =
     \<lparr>ic_Name = dn_Name n, ic_State = dn_State n, ic_ContainerId = dn_ContainerId n, ic_ContainerName = dn_ContainerName n,
      ic_IPv4Address = dn_IPv4 n, ic_IPv6Address = dn_IPv6 n, ic_LabName = instanceName,
      ic_LabPath = ''/run/'' @ instanceName @ ''/topology.clab.yaml'', ic_Image = dn_Image n\<rparr>"

definition containers_of :: "string \<Rightarrow> DummyProvider \<Rightarrow> full_container list" where
  "containers_of instanceName p =
     (case dp_instances p instanceName of None \<Rightarrow> [] | Some ns \<Rightarrow> map (container_of instanceName \<circ> snd) ns)"

definition not_found :: "string \<Rightarrow> string \<Rightarrow> go_error" where
  "not_found instanceName nodeName =
     Wrap ErrDummyProvider (''node '' @ quote nodeName @ '' not found in instance '' @ quote instanceName)"

definition transition :: "string \<Rightarrow> string \<Rightarrow> node_state \<Rightarrow> DummyProvider \<Rightarrow> go_error option \<times> DummyProvider" where
  "transition instanceName nodeName st p =
     (case node_of instanceName nodeName p of
        None \<Rightarrow> (Some (not_found instanceName nodeName), p)
      | Some _ \<Rightarrow> (None, set_node instanceName nodeName (\<lambda>n. applyStateSideEffects (n\<lparr>dn_State := st\<rparr>)) p))"

section \<open>The calls\<close>

definition record_call :: "string \<Rightarrow> (string \<times> string list) list \<Rightarrow> DummyProvider \<Rightarrow> DummyProvider" where
  "record_call method args p = p\<lparr>dp_calls := dp_calls p @ [\<lparr>dc_Method = method, dc_Args = args\<rparr>]\<rparr>"

definition CallCount :: "string \<Rightarrow> DummyProvider \<Rightarrow> nat" where
  "CallCount method p = length (filter (\<lambda>c. dc_Method c = method) (dp_calls p))"

definition LastCall :: "string \<Rightarrow> DummyProvider \<Rightarrow> DummyProviderCall option" where
  "LastCall method p = find (\<lambda>c. dc_Method c = method) (rev (dp_calls p))"

definition WasCalled :: "string \<Rightarrow> DummyProvider \<Rightarrow> bool" where
  "WasCalled method p \<longleftrightarrow> 0 < CallCount method p"

definition ResetCalls :: "DummyProvider \<Rightarrow> DummyProvider" where
  "ResetCalls p = p\<lparr>dp_calls := []\<rparr>"

text \<open>The file of a topology and the parser of YAML. \<open>None\<close> as the context's error is that it is not done in time.\<close>

record dummy_env =
  de_hooks :: dummy_hooks
  de_ReadFile :: "string \<Rightarrow> string result"
  de_Unmarshal :: "string \<Rightarrow> (string \<times> string \<times> string) list result"

definition parseTopologyNodes :: "dummy_env \<Rightarrow> string \<Rightarrow> DummyNode list result" where
  "parseTopologyNodes D topologyFile =
     (case de_ReadFile D topologyFile of
        Inl err \<Rightarrow> Inl (Wrap ErrDummyProvider (''reading topology '' @ quote topologyFile @ '': '' @ error_text err))
      | Inr data \<Rightarrow>
          (case de_Unmarshal D data of
             Inl err \<Rightarrow> Inl (Wrap ErrDummyProvider (''parsing topology '' @ quote topologyFile @ '': '' @ error_text err))
           | Inr ns \<Rightarrow> Inr (map (\<lambda>(name, kind, image). \<lparr>dn_Name = name, dn_Kind = kind, dn_Image = image,
               dn_State = NodeStopped, dn_ContainerId = [], dn_ContainerName = [], dn_IPv4 = [], dn_IPv6 = []\<rparr>) ns)))"

definition SetExecFn :: "(string \<Rightarrow> string \<Rightarrow> string list \<Rightarrow> (string \<times> int) result) option \<Rightarrow> dummy_env \<Rightarrow> dummy_env" where
  "SetExecFn fn D = D\<lparr>de_hooks := (de_hooks D)\<lparr>ExecFn := fn\<rparr>\<rparr>"

definition SetOpenCaptureFn :: "(string \<Rightarrow> string \<Rightarrow> string \<Rightarrow> unit result) option \<Rightarrow> dummy_env \<Rightarrow> dummy_env" where
  "SetOpenCaptureFn fn D = D\<lparr>de_hooks := (de_hooks D)\<lparr>OpenCaptureFn := fn\<rparr>\<rparr>"

text \<open>A call yields its error, the lines it logs and the state.\<close>

type_synonym dummy_outcome = "go_error option \<times> string list \<times> DummyProvider"

definition deployDefault ::
  "dummy_env \<Rightarrow> go_error option \<Rightarrow> string \<Rightarrow> string \<Rightarrow> string \<Rightarrow> DummyProvider \<Rightarrow> dummy_outcome" where
  "deployDefault D ctx_done topologyFile instanceName verb p =
     (case parseTopologyNodes D topologyFile of
        Inl err \<Rightarrow> (Some err, [], p)
      | Inr ns \<Rightarrow>
          if 0 < DeployDelay p \<and> ctx_done \<noteq> None then (ctx_done, [verb @ '' lab '' @ instanceName], p)
          else (None, [verb @ '' lab '' @ instanceName, instanceName @ '': '' @ show_nat (length ns) @ '' nodes ready''],
            putInstance instanceName (map (\<lambda>n. n\<lparr>dn_State := DeployStates p\<rparr>) ns) p))"

definition lab_args :: "string \<Rightarrow> string \<Rightarrow> (string \<times> string list) list" where
  "lab_args topologyFile instanceName = [(''topologyFile'', [topologyFile]), (''instanceName'', [instanceName])]"

definition node_args :: "string \<Rightarrow> string \<Rightarrow> (string \<times> string list) list" where
  "node_args instanceName nodeName = [(''instanceName'', [instanceName]), (''nodeName'', [nodeName])]"

definition Deploy :: "dummy_env \<Rightarrow> go_error option \<Rightarrow> string \<Rightarrow> string \<Rightarrow> DummyProvider \<Rightarrow> dummy_outcome" where
  "Deploy D ctx_done topologyFile instanceName p =
     (let p = record_call ''Deploy'' (lab_args topologyFile instanceName) p in
      case DeployFn (de_hooks D) of
        Some f \<Rightarrow> (f topologyFile instanceName, [], p)
      | None \<Rightarrow> deployDefault D ctx_done topologyFile instanceName ''Deploying'' p)"

definition Redeploy :: "dummy_env \<Rightarrow> go_error option \<Rightarrow> string \<Rightarrow> string \<Rightarrow> DummyProvider \<Rightarrow> dummy_outcome" where
  "Redeploy D ctx_done topologyFile instanceName p =
     (let p = record_call ''Redeploy'' (lab_args topologyFile instanceName) p in
      case RedeployFn (de_hooks D) of
        Some f \<Rightarrow> (f topologyFile instanceName, [], p)
      | None \<Rightarrow> deployDefault D ctx_done topologyFile instanceName ''Redeploying'' p)"

definition Destroy :: "dummy_env \<Rightarrow> string \<Rightarrow> string \<Rightarrow> DummyProvider \<Rightarrow> dummy_outcome" where
  "Destroy D topologyFile instanceName p =
     (let p = record_call ''Destroy'' (lab_args topologyFile instanceName) p in
      case DestroyFn (de_hooks D) of
        Some f \<Rightarrow> (f topologyFile instanceName, [], p)
      | None \<Rightarrow> (None, [''Destroying lab '' @ instanceName],
          p\<lparr>dp_instances := (dp_instances p)(instanceName := None)\<rparr>))"

definition InspectLabs :: "dummy_env \<Rightarrow> DummyProvider \<Rightarrow> (string \<rightharpoonup> full_container list) result \<times> DummyProvider" where
  "InspectLabs D p =
     (let p = record_call ''InspectLabs'' [] p in
      (case InspectLabsFn (de_hooks D) of
         Some r \<Rightarrow> r
       | None \<Rightarrow> Inr (\<lambda>i. if dp_instances p i = None then None else Some (containers_of i p)), p))"

definition InspectLab ::
  "dummy_env \<Rightarrow> string \<Rightarrow> string \<Rightarrow> DummyProvider \<Rightarrow> full_container list result \<times> DummyProvider" where
  "InspectLab D topologyFile instanceName p =
     (let p = record_call ''InspectLab'' (lab_args topologyFile instanceName) p in
      (case InspectLabFn (de_hooks D) of
         Some f \<Rightarrow> f topologyFile instanceName
       | None \<Rightarrow>
           if dp_instances p instanceName = None
           then Inl (Wrap ErrDummyProvider (''instance '' @ quote instanceName @ '' is not deployed''))
           else Inr (containers_of instanceName p), p))"

definition InspectNode ::
  "dummy_env \<Rightarrow> string \<Rightarrow> string \<Rightarrow> string \<Rightarrow> DummyProvider \<Rightarrow> full_container result \<times> DummyProvider" where
  "InspectNode D topologyFile instanceName nodeName p =
     (let p = record_call ''InspectNode'' (lab_args topologyFile instanceName @ [(''nodeName'', [nodeName])]) p in
      (case InspectNodeFn (de_hooks D) of
         Some f \<Rightarrow> f topologyFile instanceName nodeName
       | None \<Rightarrow>
           (case node_of instanceName nodeName p of
              None \<Rightarrow> Inl (not_found instanceName nodeName)
            | Some n \<Rightarrow> Inr (container_of instanceName n)), p))"

definition Exec ::
  "dummy_env \<Rightarrow> string \<Rightarrow> string \<Rightarrow> string list \<Rightarrow> DummyProvider \<Rightarrow> (string \<times> int) result \<times> DummyProvider" where
  "Exec D instanceName nodeName cmd p =
     (let p = record_call ''Exec'' (node_args instanceName nodeName @ [(''cmd'', cmd)]) p in
      (case ExecFn (de_hooks D) of
         Some f \<Rightarrow> f instanceName nodeName cmd
       | None \<Rightarrow> Inr (''sh: ssh: not found'', 127), p))"

text \<open>The lines a node writes reach the callback that streams its logs, if there is one.\<close>

definition PushContainerLog :: "string \<Rightarrow> string \<Rightarrow> string \<Rightarrow> DummyProvider \<Rightarrow> (nat \<times> string) option" where
  "PushContainerLog instanceName nodeName line p =
     map_option (\<lambda>k. (k, line)) (dp_containerLogs p (instanceName @ ''/'' @ nodeName))"

definition transitionAndLog ::
  "string \<Rightarrow> string \<Rightarrow> node_state \<Rightarrow> string \<Rightarrow> DummyProvider \<Rightarrow> go_error option \<times> (nat \<times> string) list \<times> DummyProvider" where
  "transitionAndLog instanceName nodeName st action p =
     (case transition instanceName nodeName st p of
        (Some err, p) \<Rightarrow> (Some err, [], p)
      | (None, p) \<Rightarrow>
          (None, if EmitContainerLogs p
             then (case PushContainerLog instanceName nodeName (''[dummy] '' @ nodeName @ '': container '' @ action) p of
               None \<Rightarrow> [] | Some l \<Rightarrow> [l]) else [], p))"

definition StartNode ::
  "dummy_env \<Rightarrow> string \<Rightarrow> string \<Rightarrow> DummyProvider \<Rightarrow> go_error option \<times> (nat \<times> string) list \<times> DummyProvider" where
  "StartNode D instanceName nodeName p =
     (let p = record_call ''StartNode'' (node_args instanceName nodeName) p in
      case StartNodeFn (de_hooks D) of
        Some f \<Rightarrow> (f instanceName nodeName, [], p)
      | None \<Rightarrow> transitionAndLog instanceName nodeName NodeRunning ''started'' p)"

definition StopNode ::
  "dummy_env \<Rightarrow> string \<Rightarrow> string \<Rightarrow> DummyProvider \<Rightarrow> go_error option \<times> (nat \<times> string) list \<times> DummyProvider" where
  "StopNode D instanceName nodeName p =
     (let p = record_call ''StopNode'' (node_args instanceName nodeName) p in
      case StopNodeFn (de_hooks D) of
        Some f \<Rightarrow> (f instanceName nodeName, [], p)
      | None \<Rightarrow> transitionAndLog instanceName nodeName NodeStopped ''stopped'' p)"

definition RestartNode ::
  "dummy_env \<Rightarrow> string \<Rightarrow> string \<Rightarrow> DummyProvider \<Rightarrow> go_error option \<times> (nat \<times> string) list \<times> DummyProvider" where
  "RestartNode D instanceName nodeName p =
     (let p = record_call ''RestartNode'' (node_args instanceName nodeName) p in
      case RestartNodeFn (de_hooks D) of
        Some f \<Rightarrow> (f instanceName nodeName, [], p)
      | None \<Rightarrow> transitionAndLog instanceName nodeName NodeRunning ''restarted'' p)"

definition RegisterListener :: "nat \<Rightarrow> DummyProvider \<Rightarrow> DummyProvider" where
  "RegisterListener k p = (record_call ''RegisterListener'' [] p)\<lparr>dp_listener := Some k\<rparr>"

definition FireNodeEvent :: "string \<Rightarrow> DummyProvider \<Rightarrow> (nat \<times> string) option" where
  "FireNodeEvent nodeName p = map_option (\<lambda>k. (k, nodeName)) (dp_listener p)"

definition StreamContainerLogs ::
  "dummy_env \<Rightarrow> nat \<Rightarrow> string \<Rightarrow> string \<Rightarrow> DummyProvider \<Rightarrow> string list \<times> go_error option \<times> DummyProvider" where
  "StreamContainerLogs D k instanceName nodeName p =
     (let p = record_call ''StreamContainerLogs'' (node_args instanceName nodeName) p in
      case StreamLogsFn (de_hooks D) of
        Some f \<Rightarrow> (case f instanceName nodeName of (lines, err) \<Rightarrow> (lines, err, p))
      | None \<Rightarrow>
          (if EmitContainerLogs p
           then [''[dummy] '' @ nodeName @ '': container is starting'', ''[dummy] '' @ nodeName @ '': container is ready'']
           else [],
           None, p\<lparr>dp_containerLogs := (dp_containerLogs p)(instanceName @ ''/'' @ nodeName \<mapsto> k)\<rparr>))"

definition GetNetworkInterfaces ::
  "dummy_env \<Rightarrow> string \<Rightarrow> string \<Rightarrow> DummyProvider \<Rightarrow> node_interface list result \<times> DummyProvider" where
  "GetNetworkInterfaces D instanceName nodeName p =
     (let p = record_call ''GetNetworkInterfaces'' (node_args instanceName nodeName) p in
      (case InterfacesFn (de_hooks D) of
         Some f \<Rightarrow> f instanceName nodeName
       | None \<Rightarrow>
           if (case node_of instanceName nodeName p of None \<Rightarrow> True | Some n \<Rightarrow> dn_State n \<noteq> NodeRunning)
           then Inl (Sentinel ErrNodeNotRunning)
           else Inr [\<lparr>if_Name = ''eth0'', if_Address = ''172.20.20.2/24'', if_MTU = 1500, if_State = ''up''\<rparr>,
             \<lparr>if_Name = ''eth1'', if_Address = [], if_MTU = 1500, if_State = ''down''\<rparr>,
             \<lparr>if_Name = ''lo'', if_Address = ''127.0.0.1/8'', if_MTU = 65536, if_State = ''up''\<rparr>], p))"

definition DialNode_dummy :: "dummy_env \<Rightarrow> string \<Rightarrow> string \<Rightarrow> int \<Rightarrow> DummyProvider \<Rightarrow> unit result \<times> DummyProvider" where
  "DialNode_dummy D instanceName nodeName port p =
     (case DialNodeFn (de_hooks D) of
        Some f \<Rightarrow> f instanceName nodeName port
      | None \<Rightarrow> Inl (Wrap ErrDummyProvider (''no SSH listener on '' @ instanceName @ ''/'' @ nodeName @ '':'' @ show_int port)),
      record_call ''DialNode'' (node_args instanceName nodeName @ [(''port'', [show_int port])]) p)"

definition OpenCapture :: "dummy_env \<Rightarrow> string \<Rightarrow> string \<Rightarrow> string \<Rightarrow> DummyProvider \<Rightarrow> unit result \<times> DummyProvider" where
  "OpenCapture D instanceName nodeName interfaceName p =
     (case OpenCaptureFn (de_hooks D) of
        Some f \<Rightarrow> f instanceName nodeName interfaceName
      | None \<Rightarrow> Inl (Wrap ErrDummyProvider ''packet capture cannot be faked''),
      record_call ''OpenCapture'' (node_args instanceName nodeName @ [(''interfaceName'', [interfaceName])]) p)"

text \<open>The statistics of a node; \<open>percent\<close> is the floating-point number 12.5.\<close>

definition ReadNodeStats ::
  "(string \<Rightarrow> string \<Rightarrow> 'f node_stats result) option \<Rightarrow> 'f \<Rightarrow> int \<Rightarrow> string \<Rightarrow> string \<Rightarrow> DummyProvider
    \<Rightarrow> 'f node_stats result \<times> DummyProvider" where
  "ReadNodeStats StatsFn percent now instanceName nodeName p =
     (case StatsFn of
        Some f \<Rightarrow> f instanceName nodeName
      | None \<Rightarrow> Inr \<lparr>Timestamp = now, CPUUsage = 1000, SystemUsage = 10000, CPUUsagePercent = percent,
          MemoryUsage = 2 ^ 20, MemoryLimit = 2 ^ 30,
          Interfaces = [''eth0'' \<mapsto> \<lparr>RxBytes = 1024, TxBytes = 2048, RxBps = 128, TxBps = 256\<rparr>]\<rparr>,
      record_call ''ReadNodeStats'' (node_args instanceName nodeName) p)"

section \<open>Interactive sessions\<close>

definition CreateDummyShellSession :: DummyShellSession where
  "CreateDummyShellSession = \<lparr>ds_written = [], ds_resizes = [], ds_out = [], ds_pending = [], ds_closed = False, ds_prompt = []\<rparr>"

text \<open>
  \<open>Push\<close> waits while the channel is full, which is \<open>None\<close>, and does nothing on a closed session; on a closed
  session with room in the channel the code may do either, and the model takes the data.
\<close>

definition Push :: "string \<Rightarrow> DummyShellSession \<Rightarrow> DummyShellSession option" where
  "Push data s =
     (if length (ds_out s) < 64 then Some (s\<lparr>ds_out := ds_out s @ [data]\<rparr>)
      else if ds_closed s then Some s else None)"

definition createEchoShellSession :: "string \<Rightarrow> DummyShellSession" where
  "createEchoShellSession nodeName =
     (let prompt = nodeName @ '':~$ ''; s = CreateDummyShellSession\<lparr>ds_prompt := prompt\<rparr> in
      the (Push (''Connected to '' @ nodeName @ '' (dummy shell, input is echoed)'' @ [CHR 0x0D, CHR 0x0A] @ prompt) s))"

text \<open>
  \<open>Read\<close> with a buffer of a size: \<open>None\<close> is waiting. \<open>Inr None\<close> is the end of the input. A session that is closed
  and has data gives either of the two.
\<close>

definition read_pending :: "nat \<Rightarrow> DummyShellSession \<Rightarrow> string \<times> DummyShellSession" where
  "read_pending n s = (take n (ds_pending s), s\<lparr>ds_pending := drop n (ds_pending s)\<rparr>)"

definition Read :: "nat \<Rightarrow> DummyShellSession \<Rightarrow> (string option \<times> DummyShellSession) option" where
  "Read n s =
     (if ds_pending s \<noteq> [] then Some (map_prod Some id (read_pending n s))
      else (case ds_out s of
        d # ds \<Rightarrow> Some (Some (take n d), s\<lparr>ds_out := ds, ds_pending := drop n d\<rparr>)
      | [] \<Rightarrow> if ds_closed s then Some (None, s) else None))"

fun echo :: "string \<Rightarrow> string \<Rightarrow> string" where
  "echo prompt [] = []"
| "echo prompt (b # bs) =
     (if b = CHR 0x0D then [CHR 0x0D, CHR 0x0A] @ prompt
      else if b = CHR 0x7F then [CHR 0x08, CHR '' '', CHR 0x08] else [b]) @ echo prompt bs"

definition session_Write :: "string \<Rightarrow> DummyShellSession \<Rightarrow> (nat result \<times> DummyShellSession) option" where
  "session_Write data s =
     (if ds_closed s then Some (Inl (Foreign ''io: read/write on closed pipe''), s)
      else let s = s\<lparr>ds_written := ds_written s @ data\<rparr> in
        if ds_prompt s = [] then Some (Inr (length data), s)
        else map_option (Pair (Inr (length data))) (Push (echo (ds_prompt s) data) s))"

definition session_Close :: "DummyShellSession \<Rightarrow> DummyShellSession" where
  "session_Close s = s\<lparr>ds_closed := True\<rparr>"

definition session_Resize :: "nat \<Rightarrow> nat \<Rightarrow> DummyShellSession \<Rightarrow> go_error option \<times> DummyShellSession" where
  "session_Resize cols rows s =
     (if ds_closed s then (Some (Foreign ''io: read/write on closed pipe''), s)
      else (None, s\<lparr>ds_resizes := ds_resizes s @ [(cols, rows)]\<rparr>))"

text \<open>The address of the session that was made, if it is not one of a hook.\<close>

definition ExecInteractive ::
  "dummy_env \<Rightarrow> string \<Rightarrow> string \<Rightarrow> string list \<Rightarrow> DummyProvider \<Rightarrow> nat option result \<times> DummyProvider" where
  "ExecInteractive D instanceName nodeName cmd p =
     (let p = record_call ''ExecInteractive'' (node_args instanceName nodeName @ [(''cmd'', cmd)]) p in
      case ExecInteractiveFn (de_hooks D) of
        Some f \<Rightarrow> (map_sum id (\<lambda>_. None) (f instanceName nodeName cmd), p)
      | None \<Rightarrow>
          (let session = (if EchoShells p then createEchoShellSession nodeName else CreateDummyShellSession);
               a = length (dp_sessions p)
           in (Inr (Some a), p\<lparr>dp_sessions := dp_sessions p @ [session],
                dp_shells := (dp_shells p)(instanceName @ ''/'' @ nodeName \<mapsto> a)\<rparr>)))"

section \<open>What the instance service relies on\<close>

text \<open>
  A provider as the instance service sees it: calls that may fail, and an inspection that gives the state of a
  node or nothing. \<open>declared\<close> are the nodes of a topology file, \<open>None\<close> when the file cannot be used.
\<close>

fun state_after :: "node_op \<Rightarrow> node_state" where
  "state_after OpStart = NodeRunning"
| "state_after OpStop = NodeStopped"
| "state_after OpRestart = NodeRunning"

datatype provider_op = PDeploy string string | PDestroy string | POperate node_op string string

type_synonym nodes_spec = "string \<times> string \<rightharpoonup> node_state"

text \<open>What each call means for the states of all nodes.\<close>

definition spec_deploy :: "string list option \<Rightarrow> node_state \<Rightarrow> string \<Rightarrow> nodes_spec \<Rightarrow> nodes_spec" where
  "spec_deploy names st i m =
     (case names of
        None \<Rightarrow> m
      | Some ns \<Rightarrow> (\<lambda>(j, n). if j = i then (if n \<in> set ns then Some st else None) else m (j, n)))"

definition spec_destroy :: "string \<Rightarrow> nodes_spec \<Rightarrow> nodes_spec" where
  "spec_destroy i m = (\<lambda>(j, n). if j = i then None else m (j, n))"

definition spec_operate :: "node_op \<Rightarrow> string \<Rightarrow> string \<Rightarrow> nodes_spec \<Rightarrow> nodes_spec" where
  "spec_operate op i n m = (if m (i, n) = None then m else m((i, n) \<mapsto> state_after op))"

fun spec_op :: "(string \<Rightarrow> string list option) \<Rightarrow> node_state \<Rightarrow> provider_op \<Rightarrow> nodes_spec \<Rightarrow> nodes_spec" where
  "spec_op declared st (PDeploy f i) = spec_deploy (declared f) st i"
| "spec_op declared st (PDestroy i) = spec_destroy i"
| "spec_op declared st (POperate op i n) = spec_operate op i n"

locale node_provider =
  fixes deploy :: "string \<Rightarrow> string \<Rightarrow> 's \<Rightarrow> 's"
    and destroy :: "string \<Rightarrow> 's \<Rightarrow> 's"
    and operate :: "node_op \<Rightarrow> string \<Rightarrow> string \<Rightarrow> 's \<Rightarrow> 's"
    and inspect :: "string \<Rightarrow> string \<Rightarrow> 's \<Rightarrow> node_state option"
    and declared :: "string \<Rightarrow> string list option"
    and initial :: "'s \<Rightarrow> node_state"
  assumes inspect_deploy: "inspect j n (deploy f i s) = spec_deploy (declared f) (initial s) i (\<lambda>(j, n). inspect j n s) (j, n)"
    and inspect_destroy: "inspect j n (destroy i s) = (if j = i then None else inspect j n s)"
    and inspect_operate: "inspect j n (operate op i m s) =
      (if (j, n) = (i, m) \<and> inspect i m s \<noteq> None then Some (state_after op) else inspect j n s)"
    and initial_kept: "initial (deploy f i s) = initial s" "initial (destroy i s) = initial s" "initial (operate op i m s) = initial s"
begin

definition node_states :: "'s \<Rightarrow> nodes_spec" where
  "node_states s = (\<lambda>(i, n). inspect i n s)"

fun perform :: "provider_op \<Rightarrow> 's \<Rightarrow> 's" where
  "perform (PDeploy f i) = deploy f i"
| "perform (PDestroy i) = destroy i"
| "perform (POperate op i n) = operate op i n"

lemma perform_refines: "node_states (perform op s) = spec_op declared (initial s) op (node_states s)"
proof (cases op)
  case (PDeploy f i)
  then show ?thesis by (auto simp: node_states_def inspect_deploy)
next
  case (PDestroy i)
  then show ?thesis by (auto simp: node_states_def inspect_destroy spec_destroy_def)
next
  case (POperate op i n)
  then show ?thesis by (auto simp: node_states_def inspect_operate spec_operate_def fun_eq_iff)
qed

lemma initial_perform [simp]: "initial (perform op s) = initial s"
  by (cases op) (simp_all add: initial_kept)

lemma run_refines: "node_states (fold perform ops s) = fold (spec_op declared (initial s)) ops (node_states s)"
  by (induction ops arbitrary: s) (simp_all add: perform_refines)

end

text \<open>In the specification the state of a node after operations on nodes is that of the last one on it.\<close>

lemma spec_operations:
  assumes "\<forall>op \<in> set ops. \<exists>x i n. op = POperate x i n" "m (i, n) \<noteq> None"
  shows "fold (spec_op declared st) ops m (i, n) =
    Some (case find (\<lambda>op. \<exists>x. op = POperate x i n) (rev ops) of Some (POperate x _ _) \<Rightarrow> state_after x | _ \<Rightarrow> the (m (i, n)))"
  using assms
proof (induction ops rule: rev_induct)
  case (snoc op ops)
  then obtain x j k where "op = POperate x j k" by auto
  with snoc show ?case by (auto simp: spec_operate_def)
qed auto

section \<open>The dummy is such a provider\<close>

definition plain_env :: "(string \<Rightarrow> string result) \<Rightarrow> (string \<Rightarrow> (string \<times> string \<times> string) list result) \<Rightarrow> dummy_env" where
  "plain_env rf um = \<lparr>de_hooks = no_hooks, de_ReadFile = rf, de_Unmarshal = um\<rparr>"

definition declared_nodes :: "dummy_env \<Rightarrow> string \<Rightarrow> string list option" where
  "declared_nodes D f = (case parseTopologyNodes D f of Inl _ \<Rightarrow> None | Inr ns \<Rightarrow> Some (map dn_Name ns))"

definition dummy_operate :: "dummy_env \<Rightarrow> node_op \<Rightarrow> string \<Rightarrow> string \<Rightarrow> DummyProvider \<Rightarrow> DummyProvider" where
  "dummy_operate D op i n p = snd (snd (case op of
     OpStart \<Rightarrow> StartNode D i n p | OpStop \<Rightarrow> StopNode D i n p | OpRestart \<Rightarrow> RestartNode D i n p))"

definition dummy_deploy :: "dummy_env \<Rightarrow> string \<Rightarrow> string \<Rightarrow> DummyProvider \<Rightarrow> DummyProvider" where
  "dummy_deploy D f i p = snd (snd (Deploy D None f i p))"

definition dummy_destroy :: "dummy_env \<Rightarrow> string \<Rightarrow> DummyProvider \<Rightarrow> DummyProvider" where
  "dummy_destroy D i p = snd (snd (Destroy D [] i p))"

text \<open>What \<open>InspectNode\<close> answers for a node.\<close>

definition dummy_inspect :: "dummy_env \<Rightarrow> string \<Rightarrow> string \<Rightarrow> DummyProvider \<Rightarrow> node_state option" where
  "dummy_inspect D i n p = (case fst (InspectNode D [] i n p) of Inl _ \<Rightarrow> None | Inr c \<Rightarrow> Some (ic_State c))"

lemma state_side_effects [simp]: "dn_State (applyStateSideEffects n) = dn_State n" "dn_Name (applyStateSideEffects n) = dn_Name n"
  by (simp_all add: applyStateSideEffects_def)

lemma record_call_fields [simp]:
  "dp_instances (record_call m args p) = dp_instances p" "DeployStates (record_call m args p) = DeployStates p"
  "DeployDelay (record_call m args p) = DeployDelay p" "EmitContainerLogs (record_call m args p) = EmitContainerLogs p"
  "node_of i n (record_call m args p) = node_of i n p" "containers_of i (record_call m args p) = containers_of i p"
  by (simp_all add: record_call_def node_of_def containers_of_def)

lemma dummy_inspect_node: "de_hooks D = no_hooks \<Longrightarrow> dummy_inspect D i n p = map_option dn_State (node_of i n p)"
  by (auto simp: dummy_inspect_def InspectNode_def Let_def no_hooks_def container_of_def split: option.splits)

lemma map_of_put:
  "map_of (fold (\<lambda>n acc. AList.update (dn_Name n) (applyStateSideEffects n) acc) ns acc) k =
    (case find (\<lambda>n. dn_Name n = k) (rev ns) of None \<Rightarrow> map_of acc k | Some n \<Rightarrow> Some (applyStateSideEffects n))"
  by (induction ns arbitrary: acc rule: rev_induct) (auto simp: update_conv')

lemma node_of_put:
  "node_of j k (putInstance i ns p) =
    (if j = i then map_option applyStateSideEffects (find (\<lambda>n. dn_Name n = k) (rev ns)) else node_of j k p)"
  by (auto simp: node_of_def putInstance_def map_of_put split: option.split)

lemma node_of_set: "node_of j k (set_node i n f p) = (if (j, k) = (i, n) then map_option f (node_of i n p) else node_of j k p)"
proof -
  have "map_of (map (\<lambda>(k, x). (k, if k = n then f x else x)) ns) k = (if k = n then map_option f (map_of ns n) else map_of ns k)"
    for ns :: "(string \<times> DummyNode) list" and k
    by (induction ns) auto
  then show ?thesis by (auto simp: node_of_def set_node_def split: option.split)
qed

lemma set_node_fields [simp]:
  "DeployStates (set_node i n f p) = DeployStates p" "DeployStates (putInstance i ns p) = DeployStates p"
  by (simp_all add: set_node_def putInstance_def split: option.split)

lemma node_of_transition:
  "node_of j k (snd (snd (transitionAndLog i n st a p))) =
    (if (j, k) = (i, n) then map_option (\<lambda>x. applyStateSideEffects (x\<lparr>dn_State := st\<rparr>)) (node_of i n p) else node_of j k p)"
  by (auto simp: transitionAndLog_def transition_def node_of_set split: option.split)

lemma transition_fields [simp]: "DeployStates (snd (snd (transitionAndLog i n st a p))) = DeployStates p"
  by (simp add: transitionAndLog_def transition_def split: option.split)

lemma find_put_state:
  "map_option dn_State (find (\<lambda>x. dn_Name x = n) (rev (map (\<lambda>n. n\<lparr>dn_State := st\<rparr>) ns))) =
    (if n \<in> set (map dn_Name ns) then Some st else None)"
  by (induction ns rule: rev_induct) auto

interpretation dummy: node_provider "dummy_deploy (plain_env rf um)" "dummy_destroy (plain_env rf um)"
    "dummy_operate (plain_env rf um)" "dummy_inspect (plain_env rf um)" "declared_nodes (plain_env rf um)" DeployStates
  for rf um
proof -
  have hooks: "de_hooks (plain_env rf um) = no_hooks" by (simp add: plain_env_def)
  note simps = dummy_inspect_node [OF hooks] hooks no_hooks_def
  show "node_provider (dummy_deploy (plain_env rf um)) (dummy_destroy (plain_env rf um))
    (dummy_operate (plain_env rf um)) (dummy_inspect (plain_env rf um)) (declared_nodes (plain_env rf um)) DeployStates"
  proof
    fix j n f i s
    show "dummy_inspect (plain_env rf um) j n (dummy_deploy (plain_env rf um) f i s) =
      spec_deploy (declared_nodes (plain_env rf um) f) (DeployStates s) i (\<lambda>(j, n). dummy_inspect (plain_env rf um) j n s) (j, n)"
    proof (cases "parseTopologyNodes (plain_env rf um) f")
      case (Inl e)
      then show ?thesis
        by (simp add: simps dummy_deploy_def Deploy_def deployDefault_def spec_deploy_def declared_nodes_def)
    next
      case (Inr ns)
      then show ?thesis
        using find_put_state [of n "DeployStates s" ns]
        by (auto simp: simps dummy_deploy_def Deploy_def deployDefault_def spec_deploy_def declared_nodes_def node_of_put
            option.map_comp o_def)
    qed
  next
    fix j n op i m s
    show "dummy_inspect (plain_env rf um) j n (dummy_operate (plain_env rf um) op i m s) =
      (if (j, n) = (i, m) \<and> dummy_inspect (plain_env rf um) i m s \<noteq> None then Some (state_after op)
       else dummy_inspect (plain_env rf um) j n s)"
      by (cases op) (auto simp: simps dummy_operate_def StartNode_def StopNode_def RestartNode_def node_of_transition
          option.map_comp o_def)
    show "DeployStates (dummy_operate (plain_env rf um) op i m s) = DeployStates s"
      by (cases op) (simp_all add: simps dummy_operate_def StartNode_def StopNode_def RestartNode_def)
  next
    fix j n i s
    show "dummy_inspect (plain_env rf um) j n (dummy_destroy (plain_env rf um) i s) =
      (if j = i then None else dummy_inspect (plain_env rf um) j n s)"
      by (simp add: simps dummy_destroy_def Destroy_def node_of_def)
    show "DeployStates (dummy_destroy (plain_env rf um) i s) = DeployStates s"
      by (simp add: simps dummy_destroy_def Destroy_def)
  next
    fix f i s
    show "DeployStates (dummy_deploy (plain_env rf um) f i s) = DeployStates s"
      by (simp add: simps dummy_deploy_def Deploy_def deployDefault_def Let_def split: sum.split)
  qed
qed

section \<open>Container identities\<close>

text \<open>A node is listed under its name, and has the container and the addresses exactly when it is not stopped.\<close>

definition identity_ok :: "string \<Rightarrow> DummyNode \<Rightarrow> bool" where
  "identity_ok k n \<longleftrightarrow> dn_Name n = k \<and>
     (if dn_State n = NodeStopped
      then dn_ContainerId n = [] \<and> dn_ContainerName n = [] \<and> dn_IPv4 n = [] \<and> dn_IPv6 n = []
      else dn_ContainerId n \<noteq> [] \<and> dn_ContainerName n \<noteq> [] \<and> dn_IPv4 n \<noteq> [] \<and> dn_IPv6 n \<noteq> [])"

definition identities_ok :: "DummyProvider \<Rightarrow> bool" where
  "identities_ok p \<longleftrightarrow> (\<forall>i k n. node_of i k p = Some n \<longrightarrow> identity_ok k n)"

text \<open>A node that comes with the id of a container comes with the rest of it.\<close>

definition complete :: "DummyNode \<Rightarrow> bool" where
  "complete n \<longleftrightarrow> dn_State n = NodeStopped \<or> dn_ContainerId n = [] \<or>
     (dn_ContainerName n \<noteq> [] \<and> dn_IPv4 n \<noteq> [] \<and> dn_IPv6 n \<noteq> [])"

lemma side_effects_ok: "complete n \<Longrightarrow> identity_ok (dn_Name n) (applyStateSideEffects n)"
  by (auto simp: applyStateSideEffects_def identity_ok_def complete_def)

lemma side_effects_of_node: "identity_ok k n \<Longrightarrow> identity_ok k (applyStateSideEffects (n\<lparr>dn_State := st\<rparr>))"
  using side_effects_ok [of "n\<lparr>dn_State := st\<rparr>"] by (auto simp: identity_ok_def complete_def split: if_splits)

lemma identities_ok_put: "identities_ok p \<Longrightarrow> \<forall>n \<in> set ns. complete n \<Longrightarrow> identities_ok (putInstance i ns p)"
  unfolding identities_ok_def node_of_put
  by (auto simp: find_Some_iff split: if_splits) (metis nth_mem set_rev length_rev side_effects_ok)

lemma identities_ok_record [simp]: "identities_ok (record_call m a p) = identities_ok p"
  by (simp add: identities_ok_def)

lemma parsed_complete: "parseTopologyNodes D f = Inr ns \<Longrightarrow> n \<in> set ns \<Longrightarrow> complete (n\<lparr>dn_State := st\<rparr>)"
  by (auto simp: parseTopologyNodes_def complete_def split: sum.splits)

lemma identities_ok_deploy: "identities_ok p \<Longrightarrow> identities_ok (snd (snd (deployDefault D c f i v p)))"
  by (auto simp: deployDefault_def Let_def parsed_complete intro!: identities_ok_put split: sum.split)

lemma identities_ok_transition: "identities_ok p \<Longrightarrow> identities_ok (snd (snd (transitionAndLog i n st a p)))"
  unfolding identities_ok_def node_of_transition by (auto simp: side_effects_of_node)

text \<open>What happens to the nodes: the calls of the service, and the events and the instances of tests.\<close>

datatype dummy_event =
    DeployEvent "go_error option" string string
  | RedeployEvent "go_error option" string string
  | DestroyEvent string string
  | StartEvent string string
  | StopEvent string string
  | RestartEvent string string
  | StateEvent string string node_state
  | SeedEvent string "DummyNode list"

fun dummy_happen :: "dummy_env \<Rightarrow> dummy_event \<Rightarrow> DummyProvider \<Rightarrow> DummyProvider" where
  "dummy_happen D (DeployEvent ctx_done f i) p = snd (snd (Deploy D ctx_done f i p))"
| "dummy_happen D (RedeployEvent ctx_done f i) p = snd (snd (Redeploy D ctx_done f i p))"
| "dummy_happen D (DestroyEvent f i) p = snd (snd (Destroy D f i p))"
| "dummy_happen D (StartEvent i n) p = snd (snd (StartNode D i n p))"
| "dummy_happen D (StopEvent i n) p = snd (snd (StopNode D i n p))"
| "dummy_happen D (RestartEvent i n) p = snd (snd (RestartNode D i n p))"
| "dummy_happen D (StateEvent i n st) p = SetNodeState i n st p"
| "dummy_happen D (SeedEvent i ns) p = SeedInstance i ns p"

fun complete_event :: "dummy_event \<Rightarrow> bool" where
  "complete_event (SeedEvent i ns) \<longleftrightarrow> list_all complete ns"
| "complete_event _ \<longleftrightarrow> True"

lemma identities_ok_happen: "complete_event e \<Longrightarrow> identities_ok p \<Longrightarrow> identities_ok (dummy_happen D e p)"
proof (cases e)
  case (DestroyEvent f i)
  moreover assume "identities_ok p"
  ultimately show ?thesis
    by (auto simp: Destroy_def Let_def identities_ok_def node_of_def split: option.splits)
next
  case (StateEvent i n st)
  moreover assume "identities_ok p"
  ultimately show ?thesis
    by (auto simp: SetNodeState_def identities_ok_def node_of_set side_effects_of_node split: if_splits)
next
  case (SeedEvent i ns)
  moreover assume "identities_ok p" "complete_event e"
  ultimately show ?thesis by (simp add: SeedInstance_def identities_ok_put list_all_iff)
qed (auto simp: Deploy_def Redeploy_def StartNode_def StopNode_def RestartNode_def Let_def identities_ok_deploy
    identities_ok_transition split: option.split)

lemma identities_ok_run:
  "list_all complete_event es \<Longrightarrow> identities_ok p \<Longrightarrow> identities_ok (fold (dummy_happen D) es p)"
  by (induction es arbitrary: p) (simp_all add: identities_ok_happen)

text \<open>C38: However deployments, destructions, operations on nodes and the events of tests follow each other, a node is kept
  under its name, and it has a container with an id, a name and addresses exactly as long as it is not stopped: it loses
  them when it stops and gets them back when it starts. Nodes that tests seed are to bring all of it or no id.\<close>

theorem dummy_identities:
  assumes "list_all complete_event es"
    and "node_of i k (fold (dummy_happen D) es CreateDummyProvider) = Some n"
  shows "dn_Name n = k \<and>
    (dn_ContainerId n = [] \<longleftrightarrow> dn_State n = NodeStopped) \<and> (dn_ContainerName n = [] \<longleftrightarrow> dn_State n = NodeStopped) \<and>
    (dn_IPv4 n = [] \<longleftrightarrow> dn_State n = NodeStopped) \<and> (dn_IPv6 n = [] \<longleftrightarrow> dn_State n = NodeStopped)"
proof -
  have "identities_ok CreateDummyProvider" by (simp add: identities_ok_def CreateDummyProvider_def node_of_def)
  from identities_ok_run [OF assms(1) this, of D] assms(2) show ?thesis
    by (auto simp: identities_ok_def identity_ok_def split: if_splits)
qed

text \<open>A lab of one router that is deployed, stopped and started again.\<close>

definition router_env :: dummy_env where
  "router_env = plain_env (\<lambda>_. Inr []) (\<lambda>_. Inr [(''r1'', ''srl'', ''img'')])"

lemma dummy_identities_witness:
  "\<exists>n. node_of ''i'' ''r1'' (fold (dummy_happen router_env)
      [DeployEvent None ''f'' ''i'', StopEvent ''i'' ''r1'', StartEvent ''i'' ''r1''] CreateDummyProvider) = Some n \<and>
    dn_State n = NodeRunning \<and> dn_IPv4 n \<noteq> [] \<and> dn_ContainerId n \<noteq> []"
proof -
  let ?es = "[DeployEvent None ''f'' ''i'', StopEvent ''i'' ''r1'', StartEvent ''i'' ''r1'']"
  have "map_option dn_State (node_of ''i'' ''r1'' (fold (dummy_happen router_env) ?es CreateDummyProvider)) = Some NodeRunning"
    by (simp add: router_env_def plain_env_def no_hooks_def StartNode_def StopNode_def node_of_transition Deploy_def Let_def
        deployDefault_def parseTopologyNodes_def CreateDummyProvider_def node_of_put)
  then obtain n where n: "node_of ''i'' ''r1'' (fold (dummy_happen router_env) ?es CreateDummyProvider) = Some n"
    "dn_State n = NodeRunning" by auto
  have "list_all complete_event ?es" by simp
  from dummy_identities [OF this n(1)] n(2) have "dn_IPv4 n \<noteq> []" "dn_ContainerId n \<noteq> []" by simp_all
  with n show ?thesis by (intro exI conjI)
qed

fun dummy_perform :: "dummy_env \<Rightarrow> provider_op \<Rightarrow> DummyProvider \<Rightarrow> DummyProvider" where
  "dummy_perform D (PDeploy f i) = dummy_deploy D f i"
| "dummy_perform D (PDestroy i) = dummy_destroy D i"
| "dummy_perform D (POperate op i n) = dummy_operate D op i n"

lemma dummy_perform_eq: "dummy.perform rf um = dummy_perform (plain_env rf um)"
proof
  show "dummy.perform rf um op = dummy_perform (plain_env rf um) op" for op by (cases op) simp_all
qed

text \<open>C33: Deploying, destroying and operating on nodes in any order does to the states of all nodes, as an inspection
  shows them, what the specification says: in particular a node of a deployed instance is in the state of the last
  operation on it, and nothing done to one instance or node is seen in another.\<close>

theorem dummy_refines_nodes:
  "(\<lambda>(i, n). dummy_inspect (plain_env rf um) i n (fold (dummy_perform (plain_env rf um)) ops p)) =
   fold (spec_op (declared_nodes (plain_env rf um)) (DeployStates p)) ops (\<lambda>(i, n). dummy_inspect (plain_env rf um) i n p)"
  using dummy.run_refines [where ops = ops and s = p and rf = rf and um = um]
  unfolding dummy.node_states_def dummy_perform_eq .

section \<open>What a session reads\<close>

text \<open>
  Reading a session again and again with buffers of given sizes until it waits or ends, and what was put
  into it and not yet read.
\<close>

fun read_all :: "nat list \<Rightarrow> DummyShellSession \<Rightarrow> string \<times> DummyShellSession" where
  "read_all [] s = ([], s)"
| "read_all (n # ns) s =
     (case Read n s of
        Some (Some x, s') \<Rightarrow> (case read_all ns s' of (y, s'') \<Rightarrow> (x @ y, s''))
      | _ \<Rightarrow> ([], s))"

definition unread :: "DummyShellSession \<Rightarrow> string" where
  "unread s = ds_pending s @ concat (ds_out s)"

lemma unread_Read: "Read n s = Some (Some x, s') \<Longrightarrow> unread s = x @ unread s'"
  by (auto simp: Read_def read_pending_def unread_def split: if_splits list.splits)

lemma unread_Push: "Push d s = Some s' \<Longrightarrow> \<not> ds_closed s \<Longrightarrow> unread s' = unread s @ d"
  by (auto simp: Push_def unread_def split: if_splits)

lemma read_all_unread: "fst (read_all ns s) @ unread (snd (read_all ns s)) = unread s"
  by (induction ns s rule: read_all.induct) (auto simp: unread_Read split: option.splits prod.splits)

text \<open>What is written is echoed; the output of a session after its greeting.\<close>

fun write_all :: "string list \<Rightarrow> DummyShellSession \<Rightarrow> DummyShellSession option" where
  "write_all [] s = Some s"
| "write_all (d # ds) s = Option.bind (session_Write d s) (\<lambda>(_, s). write_all ds s)"

lemma echo_append: "echo p (a @ b) = echo p a @ echo p b"
  by (induction a) auto

lemma session_Write_unread:
  assumes "session_Write d s = Some (r, s')" "\<not> ds_closed s" "ds_prompt s \<noteq> []"
  shows "unread s' = unread s @ echo (ds_prompt s) d \<and> \<not> ds_closed s' \<and> ds_prompt s' = ds_prompt s \<and>
    ds_written s' = ds_written s @ d"
  using assms by (auto simp: session_Write_def Push_def unread_def Let_def split: if_splits)

lemma write_all_unread:
  assumes "write_all ds s = Some s'" "\<not> ds_closed s" "ds_prompt s \<noteq> []"
  shows "unread s' = unread s @ echo (ds_prompt s) (concat ds) \<and> ds_written s' = ds_written s @ concat ds"
  using assms
proof (induction ds arbitrary: s)
  case (Cons d ds)
  then obtain r s1 where 1: "session_Write d s = Some (r, s1)" "write_all ds s1 = Some s'"
    by (auto simp: Option.bind_eq_Some_conv)
  from session_Write_unread [OF 1(1) Cons(3,4)] Cons(1) [OF 1(2)] Cons(4) show ?case
    by (auto simp: echo_append)
qed (simp add: unread_def)

text \<open>What is read from a session that echoes, in pieces of any sizes, followed by what is still to be read, is the
  greeting and the echo of everything written: nothing is lost, repeated or out of order.\<close>

theorem echo_shell_faithful:
  assumes "write_all ds (createEchoShellSession nodeName) = Some s"
  shows "fst (read_all ns s) @ unread (snd (read_all ns s)) =
      ''Connected to '' @ nodeName @ '' (dummy shell, input is echoed)'' @ [CHR 0x0D, CHR 0x0A] @ nodeName @ '':~$ '' @
      echo (nodeName @ '':~$ '') (concat ds) \<and>
    ds_written s = concat ds"
proof -
  let ?s = "createEchoShellSession nodeName"
  have new: "unread ?s = ''Connected to '' @ nodeName @ '' (dummy shell, input is echoed)'' @ [CHR 0x0D, CHR 0x0A] @ nodeName @ '':~$ ''"
    "\<not> ds_closed ?s" "ds_prompt ?s = nodeName @ '':~$ ''" "ds_written ?s = []"
    by (simp_all add: createEchoShellSession_def Let_def Push_def CreateDummyShellSession_def unread_def)
  have "ds_prompt ?s \<noteq> []" using new(3) by simp
  from write_all_unread [OF assms new(2) this] show ?thesis
    unfolding read_all_unread by (simp add: new)
qed

lemma echo_shell_faithful_witness:
  "\<exists>s. write_all [''ls'', [CHR 0x0D]] (createEchoShellSession ''r1'') = Some s \<and>
     fst (read_all [10, 10, 100] s) @ unread (snd (read_all [10, 10, 100] s)) =
       ''Connected to r1 (dummy shell, input is echoed)'' @ [CHR 0x0D, CHR 0x0A] @ ''r1:~$ ls'' @ [CHR 0x0D, CHR 0x0A] @ ''r1:~$ ''"
proof -
  obtain s where s: "write_all [''ls'', [CHR 0x0D]] (createEchoShellSession ''r1'') = Some s"
    by (simp add: createEchoShellSession_def CreateDummyShellSession_def Push_def session_Write_def Let_def)
  from echo_shell_faithful [OF this, of "[10, 10, 100]"] s show ?thesis by simp
qed

end
