(* ===== verification/Dummy_Behaviour.thy ===== *)
theory Dummy_Behaviour
  imports Dummy_Provider Instance_Behaviour
begin

text \<open>
  The instance service over the dummy provider: what a deployment that asks the dummy comes to, and how two
  labs share a container.
\<close>

lemma find_container: "find (\<lambda>c. ic_Name c = k) (map (inspect_container.truncate \<circ> container_of i \<circ> snd) ns) =
    map_option (inspect_container.truncate \<circ> container_of i) (find (\<lambda>n. dn_Name n = k) (map snd ns))"
  by (induction ns) (auto simp: container_of_def inspect_container.truncate_def)

lemma set_alist_update: "set (AList.update k v al) \<subseteq> insert (k, v) (set al)"
  by (induction al) auto

lemma put_names:
  assumes "\<forall>(k, x) \<in> set acc. dn_Name x = k"
  shows "\<forall>(k, x) \<in> set (fold (\<lambda>n acc. AList.update (dn_Name n) (applyStateSideEffects n) acc) ns acc). dn_Name x = k"
proof -
  have step: "\<forall>(k, x) \<in> set (AList.update (dn_Name n) (applyStateSideEffects n) acc). dn_Name x = k"
    if "\<forall>(k, x) \<in> set acc. dn_Name x = k" for n acc
    using that set_alist_update [of "dn_Name n" "applyStateSideEffects n" acc] state_side_effects(2) by blast
  show ?thesis
    using assms
  proof (induction ns arbitrary: acc)
    case (Cons n ns)
    show ?case using Cons.IH [OF step [OF Cons.prems]] by simp
  qed simp
qed

lemma find_by_name:
  "\<forall>(k, x) \<in> set ns. dn_Name x = k \<Longrightarrow> find (\<lambda>x. dn_Name x = n) (map snd ns) = map_of ns n"
  by (induction ns) auto

text \<open>What an inspection of a lab that has just been deployed finds for a node.\<close>

lemma inspected_after_deploy:
  assumes "parseTopologyNodes D f = Inr ns" "de_hooks D = no_hooks" "k \<in> set (map dn_Name ns)" "DeployStates p = NodeRunning"
    and "n_Name n = k" and p1_def: "p1 = dummy_deploy D f i p"
  shows "\<exists>cs. fst (InspectLab D f i p1) = Inr cs \<and>
    n_State (inspected_node (Some (map inspect_container.truncate cs)) n) = NodeRunning \<and>
    n_ContainerId (inspected_node (Some (map inspect_container.truncate cs)) n) = ''container-'' @ k"
proof -
  have fresh: "\<forall>n \<in> set ns. dn_ContainerId n = []"
    using assms(1) by (auto simp: parseTopologyNodes_def split: sum.splits)
  let ?ns = "map (\<lambda>n. n\<lparr>dn_State := NodeRunning\<rparr>) ns"
  let ?al = "fold (\<lambda>n acc. AList.update (dn_Name n) (applyStateSideEffects n) acc) ?ns []"
  have inst: "dp_instances p1 i = Some ?al"
    using assms(1,2,4) by (simp add: p1_def dummy_deploy_def Deploy_def deployDefault_def no_hooks_def Let_def putInstance_def)
  have "\<forall>(k, x) \<in> set ?al. dn_Name x = k" by (rule put_names) simp
  then have find: "find (\<lambda>x. dn_Name x = k) (map snd ?al) = map_of ?al k" by (rule find_by_name)
  obtain x where x: "find (\<lambda>n. dn_Name n = k) (rev ?ns) = Some x"
  proof (cases "find (\<lambda>n. dn_Name n = k) (rev ?ns)")
    case None
    then show ?thesis using assms(3) by (auto simp: find_None_iff)
  qed
  then have xk: "dn_Name x = k" "dn_State x = NodeRunning" "dn_ContainerId x = []"
    using fresh by (auto simp: find_Some_iff rev_nth)
  have "map_of ?al k = Some (applyStateSideEffects x)" using x by (simp add: map_of_put)
  then have "find (\<lambda>c. ic_Name c = k) (map (inspect_container.truncate \<circ> container_of i \<circ> snd) ?al) =
      Some (inspect_container.truncate (container_of i (applyStateSideEffects x)))"
    unfolding find_container find by simp
  moreover have "fst (InspectLab D f i p1) = Inr (map (container_of i \<circ> snd) ?al)"
    using inst assms(2) by (simp add: InspectLab_def no_hooks_def Let_def containers_of_def)
  ultimately show ?thesis
    using xk assms(5)
    by (simp add: inspected_node_def updateNodeWithContainer_def container_of_def inspect_container.truncate_def
        applyStateSideEffects_def comp_assoc)
qed

text \<open>C32: A deployment of a lab that has no instance yet, over the dummy provider, which finds the nodes of the topology in
  its file, ends with the instance running and every node of the topology running in the container the dummy made
  for it.\<close>

theorem deployment_on_dummy:
  assumes "rt_instances (rt w) (lab_UUID lab) = None"
    and "GetRunEnvironment (e_storage E) (lab_UUID lab) (w_fs w) = Inr (txt, defFile)"
    and "schema_Parse (e_parsers E) txt = Inr (d, raw)" and "td_Topology d = Some topo" and "ct_Nodes topo \<noteq> []"
    and "distinct (map fst (ct_Nodes topo))"
    and "\<forall>c \<in> rt_cancelled (rt w). c < rt_ctxs (rt w)"
    and "parseTopologyNodes D defFile = Inr ns" "de_hooks D = no_hooks" "set (map dn_Name ns) = fst ` set (ct_Nodes topo)"
    and "DeployStates p = NodeRunning" "Deploy D None defFile (lab_InstanceName lab) p = (err, lines, p1)"
    and "fst (InspectLab D defFile (lab_InstanceName lab) p1) = Inr cs"
  shows "\<exists>w' ths moves. play E C (replicate 4 (0, Silent) @ [(0, ProviderDone lines err),
        (0, LabInspected [] (Inr (map inspect_container.truncate cs))), (0, Silent)] @ moves) ([DeployStart lab], w) =
      Some (Finished None # ths, w') \<and>
    (let i = inst (length (rt_heap (rt w))) w' in GetInstance (lab_UUID lab) (rt w') = Some i \<and> i_State i = InstRunning \<and>
      map fst (i_Nodes i) = map fst (ct_Nodes topo) \<and>
      (\<forall>(k, n) \<in> set (i_Nodes i). n_State n = NodeRunning \<and> n_ContainerId n = ''container-'' @ k))"
proof -
  have p1: "p1 = dummy_deploy D defFile (lab_InstanceName lab) p" and err: "err = None"
    using assms(8,9,12) by (auto simp: dummy_deploy_def Deploy_def deployDefault_def no_hooks_def Let_def)
  let ?cs = "map inspect_container.truncate cs" and ?a = "length (rt_heap (rt w))"
  let ?ns = "map (apsnd (inspected_node (Some ?cs))) (starting_nodes C topo (lab_UUID lab))"
  obtain w' where w': "play E C (replicate 4 (0, Silent) @ [(0, ProviderDone lines None), (0, LabInspected [] (Inr ?cs)), (0, Silent)]
        @ map (Pair 0) (stream_replies ?ns) @ replicate 2 (0, Silent)) ([DeployStart lab], w)
      = Some (Finished None # map (\<lambda>(k, n). ListenerStart (lab_UUID lab) ?a k False) (started ?ns), w')"
    "GetInstance (lab_UUID lab) (rt w') = Some (inst ?a w')" "i_State (inst ?a w') = InstRunning" "i_Nodes (inst ?a w') = ?ns"
    using deployment_run [OF assms(1-7), where cs = ?cs and C = C and lines = lines and lines' = "[]"] unfolding Let_def by blast
  have names: "map fst ?ns = map fst (ct_Nodes topo)" by (simp add: starting_nodes_def comp_def case_prod_beta)
  have "n_State n = NodeRunning \<and> n_ContainerId n = ''container-'' @ k" if kn: "(k, n) \<in> set ?ns" for k n
  proof -
    from kn obtain n0 where n0: "n = inspected_node (Some ?cs) n0" "n_Name n0 = k"
      by (auto simp: starting_nodes_def new_node_def Let_def)
    from kn have "k \<in> set (map dn_Name ns)"
      using names assms(10) by (metis fst_conv image_eqI set_map)
    from inspected_after_deploy [OF assms(8,9) this assms(11) n0(2) p1] assms(13) n0(1) show ?thesis by auto
  qed
  then have "\<forall>(k, n) \<in> set ?ns. n_State n = NodeRunning \<and> n_ContainerId n = ''container-'' @ k" by blast
  with w' names show ?thesis unfolding err Let_def by (metis (no_types, lifting))
qed

definition one_router :: dummy_env where
  "one_router = plain_env (\<lambda>_. Inr []) (\<lambda>_. Inr [(''r1'', ''linux'', ''alpine'')])"

lemma one_router_nodes:
  "parseTopologyNodes one_router f = Inr [\<lparr>dn_Name = ''r1'', dn_Kind = ''linux'', dn_Image = ''alpine'', dn_State = NodeStopped,
     dn_ContainerId = [], dn_ContainerName = [], dn_IPv4 = [], dn_IPv6 = []\<rparr>]" "de_hooks one_router = no_hooks"
  by (simp_all add: parseTopologyNodes_def one_router_def plain_env_def)

theorem deployment_on_dummy_witness:
  "\<exists>w' ths. GetInstance ''l1'' (rt w') = Some (inst 0 w') \<and> i_State (inst 0 w') = InstRunning \<and>
     (\<forall>(k, n) \<in> set (i_Nodes (inst 0 w')). n_State n = NodeRunning \<and> n_ContainerId n = ''container-'' @ k) \<and>
     (\<exists>moves. play demo_lab_env demo_config moves ([DeployStart demo_lab], demo_server) = Some (Finished None # ths, w'))"
proof -
  let ?f = "''/run/l1/topology.clab.yaml''" and ?i = "lab_InstanceName demo_lab"
  have new: "rt_instances (rt demo_server) (lab_UUID demo_lab) = None" by code_simp
  have env: "GetRunEnvironment (e_storage demo_lab_env) (lab_UUID demo_lab) (w_fs demo_server) = Inr (''name: net-1'', ?f)" by code_simp
  have parse: "schema_Parse (e_parsers demo_lab_env) ''name: net-1'' = Inr (demo_topology_of_labs, Some demo_raw)" by code_simp
  have topo: "td_Topology demo_topology_of_labs = Some (the (td_Topology demo_topology_of_labs))"
    "ct_Nodes (the (td_Topology demo_topology_of_labs)) = [(''r1'', None)]"
    by (simp_all add: demo_topology_of_labs_def)
  have start: "rt_heap (rt demo_server) = []" "rt_cancelled (rt demo_server) = {}"
    by (simp_all add: demo_server_def CreateInstanceService_def)
  obtain err lines p1 where d: "Deploy one_router None ?f ?i CreateDummyProvider = (err, lines, p1)"
    by (metis prod_cases3)
  have "p1 = dummy_deploy one_router ?f ?i CreateDummyProvider" using d by (simp add: dummy_deploy_def)
  from inspected_after_deploy [OF one_router_nodes, of "''r1''" CreateDummyProvider "new_node demo_config undefined [] ''r1''", OF _ _ _ this]
  obtain cs where cs: "fst (InspectLab one_router ?f ?i p1) = Inr cs"
    by (auto simp: CreateDummyProvider_def new_node_def Let_def)
  have l1: "lab_UUID demo_lab = ''l1''" by (simp add: demo_lab_def)
  have "DeployStates CreateDummyProvider = NodeRunning" by (simp add: CreateDummyProvider_def)
  from deployment_on_dummy [OF new env parse topo(1) _ _ _ one_router_nodes _ this d cs] topo(2) start
  show ?thesis unfolding l1 Let_def by (simp add: demo_topology_of_labs_def) blast
qed

text \<open>The containers of two instances that each have a node of the same name have the same id, so that the monitor,
  which knows nodes by the ids of their containers, keeps reading the node of the first instance and never starts
  reading that of the second.\<close>

theorem dummy_containers_collide:
  assumes "p = dummy_deploy one_router f2 ''lab-2'' (dummy_deploy one_router f1 ''lab-1'' CreateDummyProvider)"
  shows "\<exists>c1 c2. fst (InspectNode one_router f1 ''lab-1'' ''r1'' p) = Inr c1 \<and> fst (InspectNode one_router f2 ''lab-2'' ''r1'' p) = Inr c2 \<and>
    ic_ContainerId c1 = ic_ContainerId c2 \<and>
    map_option mon_instanceName (rt_monitor (AddNode x2 ''lab-2'' ''r1'' (ic_ContainerId c2)
      (AddNode x1 ''lab-1'' ''r1'' (ic_ContainerId c1) CreateInstanceService)) (ic_ContainerId c2)) = Some ''lab-1''"
proof -
  have c: "fst (InspectNode one_router f i ''r1'' p) = Inr (container_of i \<lparr>dn_Name = ''r1'', dn_Kind = ''linux'', dn_Image = ''alpine'',
      dn_State = NodeRunning, dn_ContainerId = ''container-r1'', dn_ContainerName = ''clab-r1'', dn_IPv4 = ''172.20.20.2'',
      dn_IPv6 = ''3fff:172:20:20::2''\<rparr>)" if "i \<in> {''lab-1'', ''lab-2''}" for f i
    using that
    by (auto simp: assms InspectNode_def one_router_nodes no_hooks_def Let_def dummy_deploy_def Deploy_def deployDefault_def
        node_of_put CreateDummyProvider_def applyStateSideEffects_def)
  then show ?thesis by (simp add: container_of_def AddNode_def CreateInstanceService_def create_namespace_def)
qed

lemma dummy_containers_collide_witness:
  "\<exists>c1 c2. fst (InspectNode one_router [] ''lab-1'' ''r1'' (dummy_deploy one_router [] ''lab-2'' (dummy_deploy one_router [] ''lab-1'' CreateDummyProvider)))
     = Inr c1 \<and> ic_ContainerId c1 = ic_ContainerId (c2 :: full_container)"
  using dummy_containers_collide [OF refl, of "[]" "[]"] by blast

end
