(* ===== verification/Containerlab.thy ===== *)
theory Containerlab
  imports Providers Statistics
begin

text \<open>
  The containerlab provider: \<open>src/deployment/containerlab.go\<close>. Labs are deployed with the commands of containerlab,
  nodes are operated on through the Docker daemon. Both, and the files of the host, are an environment: a
  record of functions on a state of its own. The captures of packets, which can be closed while they are read, are
  threads.
\<close>

section \<open>The environment\<close>

text \<open>\<open>dc_State\<close> is \<open>None\<close> when the inspected container has no state, and else its process and start time.\<close>

record docker_container =
  dc_ID :: string
  dc_State :: "(int \<times> string) option"
  dc_Networks :: "string list"

record exec_state =
  es_Running :: bool
  es_ExitCode :: int

record 'd host =
  run_command :: "string list \<Rightarrow> 'd \<Rightarrow> process \<times> 'd"
  unmarshal_inspect :: "string \<Rightarrow> (string \<times> (string \<Rightarrow> string) list) list result"
  ContainerList :: "(string \<times> string) list \<Rightarrow> 'd \<Rightarrow> string list result"
  ContainerInspect :: "string \<Rightarrow> 'd \<Rightarrow> docker_container result"
  ContainerStart :: "string \<Rightarrow> 'd \<Rightarrow> unit result \<times> 'd"
  ContainerStop :: "string \<Rightarrow> int \<Rightarrow> 'd \<Rightarrow> unit result \<times> 'd"
  ContainerRestart :: "string \<Rightarrow> int \<Rightarrow> 'd \<Rightarrow> unit result \<times> 'd"
  ContainerLogs :: "string \<Rightarrow> string \<Rightarrow> 'd \<Rightarrow> string result \<times> 'd"
  ContainerExecCreate :: "string \<Rightarrow> string list \<Rightarrow> bool \<Rightarrow> 'd \<Rightarrow> string result \<times> 'd"
  ContainerExecAttach :: "string \<Rightarrow> bool \<Rightarrow> 'd \<Rightarrow> string result \<times> 'd"
  ContainerExecInspect :: "string \<Rightarrow> 'd \<Rightarrow> exec_state result"
  CloseAttached :: "string \<Rightarrow> 'd \<Rightarrow> unit result \<times> 'd"
  IsConflict :: "go_error \<Rightarrow> bool"
  DialContext :: "string \<Rightarrow> 'd \<Rightarrow> string result \<times> 'd"
  ReadDir :: "string \<Rightarrow> string list result"
  ReadFile :: "string \<Rightarrow> string result"

definition ask :: "('d \<Rightarrow> 'a result) \<Rightarrow> 'd \<Rightarrow> 'a result \<times> 'd" where
  "ask q d = (q d, d)"

section \<open>The output of containerlab\<close>

record clabInspectContainer =
  ci_Name :: string
  ci_LabName :: string
  ci_LabPath :: string
  ci_Image :: string
  ci_State :: string
  ci_ContainerId :: string
  ci_ContainerName :: string
  ci_IPv4Address :: string
  ci_IPv6Address :: string

text \<open>Decoding a container: a field that is missing in the JSON is empty.\<close>

definition decode_container :: "(string \<Rightarrow> string) \<Rightarrow> clabInspectContainer" where
  "decode_container f =
     \<lparr>ci_Name = f ''name'', ci_LabName = f ''lab_name'', ci_LabPath = f ''labPath'', ci_Image = f ''image'',
      ci_State = f ''state'', ci_ContainerId = f ''container_id'', ci_ContainerName = f ''container_name'',
      ci_IPv4Address = f ''ipv4_address'', ci_IPv6Address = f ''ipv6_address''\<rparr>"

definition decode_labs ::
  "(string \<times> (string \<Rightarrow> string) list) list result \<Rightarrow> (string \<times> clabInspectContainer list) list result" where
  "decode_labs r = (case r of Inl err \<Rightarrow> Inl err | Inr labs \<Rightarrow> Inr (map (\<lambda>(l, cs). (l, map decode_container cs)) labs))"

definition dockerStates :: "string \<rightharpoonup> node_state" where
  "dockerStates = map_of
     [(''created'', NodeStopped), (''exited'', NodeStopped), (''dead'', NodeStopped), (''paused'', NodeStopped),
      (''restarting'', NodeStarting), (''running'', NodeRunning), (''removing'', NodeStopping)]"

definition parseDockerState :: "string \<Rightarrow> node_state" where
  "parseDockerState raw =
     (let normalised = ToLower (TrimSpace raw);
          normalised = (case Fields normalised of [] \<Rightarrow> normalised | f # _ \<Rightarrow> f)
      in case dockerStates normalised of None \<Rightarrow> NodeStopped | Some s \<Rightarrow> s)"

definition toInspectContainer :: "clabInspectContainer \<Rightarrow> full_container" where
  "toInspectContainer c =
     \<lparr>ic_Name = ci_Name c, ic_State = parseDockerState (ci_State c), ic_ContainerId = ci_ContainerId c,
      ic_ContainerName = ci_ContainerName c, ic_IPv4Address = ci_IPv4Address c, ic_IPv6Address = ci_IPv6Address c,
      ic_LabName = ci_LabName c, ic_LabPath = ci_LabPath c, ic_Image = ci_Image c\<rparr>"

definition parseInspectContainer :: "string \<Rightarrow> full_container \<Rightarrow> full_container" where
  "parseInspectContainer containerNamePrefix c =
     c\<lparr>ic_ContainerName := ic_Name c, ic_Name := TrimPrefix (ic_Name c) containerNamePrefix,
       ic_IPv4Address := (if ic_IPv4Address c = ''N/A'' then [] else ic_IPv4Address c),
       ic_IPv6Address := (if ic_IPv6Address c = ''N/A'' then [] else ic_IPv6Address c)\<rparr>"

definition clabToInspectContainer :: "string \<Rightarrow> clabInspectContainer list \<Rightarrow> full_container list" where
  "clabToInspectContainer labName raw =
     map (parseInspectContainer (''clab-'' @ labName @ ''-'') \<circ> toInspectContainer) raw"

text \<open>A Go map from names to lists is an association list; \<open>map_of\<close> is the lookup.\<close>

definition convertInspectOutput ::
  "(string \<times> clabInspectContainer list) list \<Rightarrow> (string \<times> full_container list) list" where
  "convertInspectOutput raw = map (\<lambda>(labName, cs). (labName, clabToInspectContainer labName cs)) raw"

definition sendClabOutput :: "string option \<Rightarrow> string list" where
  "sendClabOutput output =
     (case output of
        None \<Rightarrow> []
      | Some out \<Rightarrow> map ReplaceAnsiCharacters (filter (\<lambda>line. line \<noteq> []) (split_on CHR 0x0A out)))"

section \<open>Labs\<close>

text \<open>
  The commands on labs. They yield the lines they log beside their result: those of \<open>stderr\<close>, formatted, as they
  come, then those of the output.
\<close>

definition clab_command ::
  "'d host \<Rightarrow> clock \<Rightarrow> string list \<Rightarrow> 'd \<Rightarrow> (string list \<times> string option \<times> go_error option) \<times> 'd" where
  "clab_command H now args d =
     (case run_command H (''containerlab'' # args) d of
        (cmd, d) \<Rightarrow>
          (case runCommandSync cmd of
             (ls, output, err) \<Rightarrow> ((concat (map (FormatClabLog now) ls), output, err), d)))"

definition lab_command ::
  "'d host \<Rightarrow> clock \<Rightarrow> string list \<Rightarrow> 'd \<Rightarrow> (go_error option \<times> string list) \<times> 'd" where
  "lab_command H now args d =
     (case clab_command H now args d of ((ls, output, err), d) \<Rightarrow> ((err, ls @ sendClabOutput output), d))"

definition clab_Deploy :: "'d host \<Rightarrow> clock \<Rightarrow> string \<Rightarrow> 'd \<Rightarrow> (go_error option \<times> string list) \<times> 'd" where
  "clab_Deploy H now topologyFile = lab_command H now [''deploy'', ''-t'', topologyFile]"

definition clab_Redeploy :: "'d host \<Rightarrow> clock \<Rightarrow> string \<Rightarrow> 'd \<Rightarrow> (go_error option \<times> string list) \<times> 'd" where
  "clab_Redeploy H now topologyFile = lab_command H now [''redeploy'', ''-t'', topologyFile]"

definition clab_Destroy :: "'d host \<Rightarrow> clock \<Rightarrow> string \<Rightarrow> 'd \<Rightarrow> (go_error option \<times> string list) \<times> 'd" where
  "clab_Destroy H now topologyFile = lab_command H now [''destroy'', ''-t'', topologyFile]"

definition clab_InspectLabs ::
  "'d host \<Rightarrow> clock \<Rightarrow> 'd \<Rightarrow> ((string \<times> full_container list) list result \<times> string list) \<times> 'd" where
  "clab_InspectLabs H now d =
     (case clab_command H now [''inspect'', ''--all'', ''--format'', ''json''] d of
        ((ls, output, Some err), d) \<Rightarrow> ((Inl err, ls), d)
      | ((ls, output, None), d) \<Rightarrow>
          ((if the output = [] then Inr []
            else (case decode_labs (unmarshal_inspect H (the output)) of
                Inl err \<Rightarrow> Inl err
              | Inr raw \<Rightarrow> Inr (convertInspectOutput raw)), ls), d))"

definition clab_InspectLab ::
  "'d host \<Rightarrow> clock \<Rightarrow> string \<Rightarrow> string \<Rightarrow> 'd \<Rightarrow> (full_container list result \<times> string list) \<times> 'd" where
  "clab_InspectLab H now topologyFile instanceName d =
     (case clab_command H now [''inspect'', ''-t'', topologyFile, ''--format'', ''json''] d of
        ((ls, output, Some err), d) \<Rightarrow> ((Inl err, ls), d)
      | ((ls, output, None), d) \<Rightarrow>
          ((if the output = [] then Inr []
            else (case decode_labs (unmarshal_inspect H (the output)) of
                Inl err \<Rightarrow> Inl err
              | Inr raw \<Rightarrow>
                  (case map_of raw instanceName of
                     None \<Rightarrow> Inl (Sentinel ErrLabNotRunning)
                   | Some cs \<Rightarrow> Inr (clabToInspectContainer instanceName cs))), ls), d))"

definition clab_InspectNode ::
  "'d host \<Rightarrow> clock \<Rightarrow> string \<Rightarrow> string \<Rightarrow> string \<Rightarrow> 'd \<Rightarrow> (full_container result \<times> string list) \<times> 'd" where
  "clab_InspectNode H now topologyFile instanceName nodeName d =
     (case clab_InspectLab H now topologyFile instanceName d of
        ((Inl err, ls), d) \<Rightarrow> ((Inl err, ls), d)
      | ((Inr cs, ls), d) \<Rightarrow> ((find_node nodeName cs, ls), d))"

section \<open>Nodes\<close>

definition containerForNode :: "'d host \<Rightarrow> string \<Rightarrow> string \<Rightarrow> 'd \<Rightarrow> string result \<times> 'd" where
  "containerForNode H instanceName nodeName =
     seq (ask (ContainerList H [(''label'', ''containerlab='' @ instanceName), (''label'', ''clab-node-name='' @ nodeName)]))
       (\<lambda>containers. case containers of
          [] \<Rightarrow> fail (Wrap (Sentinel ErrNodeNotFound) (instanceName @ ''/'' @ nodeName))
        | c # _ \<Rightarrow> ret c)"

definition clab_StartNode :: "'d host \<Rightarrow> string \<Rightarrow> string \<Rightarrow> 'd \<Rightarrow> unit result \<times> 'd" where
  "clab_StartNode H instanceName nodeName = seq (containerForNode H instanceName nodeName) (ContainerStart H)"

definition clab_StopNode :: "'d host \<Rightarrow> string \<Rightarrow> string \<Rightarrow> 'd \<Rightarrow> unit result \<times> 'd" where
  "clab_StopNode H instanceName nodeName =
     seq (containerForNode H instanceName nodeName) (\<lambda>containerId. ContainerStop H containerId 10)"

definition clab_RestartNode :: "'d host \<Rightarrow> string \<Rightarrow> string \<Rightarrow> 'd \<Rightarrow> unit result \<times> 'd" where
  "clab_RestartNode H instanceName nodeName =
     seq (containerForNode H instanceName nodeName) (\<lambda>containerId. ContainerRestart H containerId 10)"

definition clab_createExec :: "'d host \<Rightarrow> string \<Rightarrow> string list \<Rightarrow> bool \<Rightarrow> 'd \<Rightarrow> string result \<times> 'd" where
  "clab_createExec H containerId cmd tty =
     handle (ContainerExecCreate H containerId cmd tty)
       (\<lambda>err. if IsConflict H err then fail (Sentinel ErrNodeNotRunning) else fail err)"

text \<open>
  \<open>Exec\<close> returns what was printed even when the exit code cannot be found out; the error is the third component.
\<close>

definition clab_Exec ::
  "'d host \<Rightarrow> string \<Rightarrow> string \<Rightarrow> string list \<Rightarrow> 'd \<Rightarrow> (string \<times> int \<times> go_error option) \<times> 'd" where
  "clab_Exec H instanceName nodeName cmd d =
     (case seq (containerForNode H instanceName nodeName) (\<lambda>containerId.
           seq (clab_createExec H containerId cmd False) (\<lambda>execId.
           seq (ContainerExecAttach H execId False) (\<lambda>out. ret (execId, out)))) d of
        (Inl err, d) \<Rightarrow> (([], 0, Some err), d)
      | (Inr (execId, out), d) \<Rightarrow>
          ((case ContainerExecInspect H execId d of
              Inl err \<Rightarrow> (out, 0, Some err)
            | Inr insp \<Rightarrow> (out, es_ExitCode insp, None)),
           snd (CloseAttached H execId d)))"

definition print_list :: "string list \<Rightarrow> string" where
  "print_list cmd = ''['' @ join '' '' cmd @ '']''"

text \<open>An interactive session is known by its id. When it does not start, its connection is closed.\<close>

definition clab_ExecInteractive ::
  "'d host \<Rightarrow> string \<Rightarrow> string \<Rightarrow> string list \<Rightarrow> 'd \<Rightarrow> string result \<times> 'd" where
  "clab_ExecInteractive H instanceName nodeName cmd =
     seq (containerForNode H instanceName nodeName) (\<lambda>containerId.
     seq (clab_createExec H containerId cmd True) (\<lambda>execId.
     seq (ContainerExecAttach H execId True) (\<lambda>_ d.
       case ContainerExecInspect H execId d of
         Inl err \<Rightarrow> (Inl err, snd (CloseAttached H execId d))
       | Inr insp \<Rightarrow>
           if \<not> es_Running insp \<and> es_ExitCode insp \<noteq> 0
           then (Inl (Foreign (''command '' @ print_list cmd @ '' failed to start (exit code '' @ show_int (es_ExitCode insp) @
                   ''): command not found or not executable'')), snd (CloseAttached H execId d))
           else (Inr execId, d))))"

definition clab_DialNode :: "'d host \<Rightarrow> string \<Rightarrow> string \<Rightarrow> int \<Rightarrow> 'd \<Rightarrow> string result \<times> 'd" where
  "clab_DialNode H instanceName nodeName port =
     seq (containerForNode H instanceName nodeName) (\<lambda>containerId.
     seq (ask (ContainerInspect H containerId)) (\<lambda>insp.
       case find (\<lambda>ip. ip \<noteq> []) (dc_Networks insp) of
         None \<Rightarrow> fail (Sentinel ErrNodeNotRunning)
       | Some ip \<Rightarrow> DialContext H (ip @ '':'' @ show_int port)))"

definition resolveNode :: "'d host \<Rightarrow> string \<Rightarrow> string \<Rightarrow> 'd \<Rightarrow> docker_target result \<times> 'd" where
  "resolveNode H instanceName nodeName =
     seq (containerForNode H instanceName nodeName) (\<lambda>i.
     seq (ask (ContainerInspect H i)) (\<lambda>insp.
       case dc_State insp of
         Some (pid, _) \<Rightarrow>
           if 0 < pid then ret \<lparr>fullContainerId = dc_ID insp, dt_pid = nat pid\<rparr>
           else fail (Wrap (Sentinel ErrNodeNotRunning) (instanceName @ ''/'' @ nodeName))
       | None \<Rightarrow> fail (Wrap (Sentinel ErrNodeNotRunning) (instanceName @ ''/'' @ nodeName))))"

definition clab_StreamContainerLogs :: "'d host \<Rightarrow> string \<Rightarrow> string \<Rightarrow> 'd \<Rightarrow> string list result \<times> 'd" where
  "clab_StreamContainerLogs H instanceName nodeName =
     seq (containerForNode H instanceName nodeName) (\<lambda>containerId.
     seq (ask (ContainerInspect H containerId)) (\<lambda>info.
       case dc_State info of
         None \<Rightarrow> fail (Sentinel ErrNodeNotRunning)
       | Some (_, startedAt) \<Rightarrow>
           seq (ContainerLogs H containerId startedAt) (\<lambda>out. ret (streamOutput out))))"

definition read_interface :: "(string \<Rightarrow> string result) \<Rightarrow> string \<Rightarrow> string \<Rightarrow> node_interface" where
  "read_interface read_file base name =
     (let dir = Join [base, name] in
      \<lparr>if_Name = name, if_Address = readFileOrEmpty read_file (Join [dir, ''address'']),
       if_MTU = Atoi_value (readFileOrEmpty read_file (Join [dir, ''mtu''])),
       if_State = readFileOrEmpty read_file (Join [dir, ''operstate''])\<rparr>)"

definition clab_GetNetworkInterfaces :: "'d host \<Rightarrow> string \<Rightarrow> string \<Rightarrow> 'd \<Rightarrow> node_interface list result \<times> 'd" where
  "clab_GetNetworkInterfaces H instanceName nodeName =
     seq (containerForNode H instanceName nodeName) (\<lambda>containerId.
     seq (ask (ContainerInspect H containerId)) (\<lambda>info.
       if (case dc_State info of None \<Rightarrow> True | Some (pid, _) \<Rightarrow> pid = 0) then fail (Sentinel ErrNodeNotRunning)
       else
         let base = ''/proc/'' @ show_int (fst (the (dc_State info))) @ ''/root/sys/class/net'' in
         case ReadDir H base of
           Inl err \<Rightarrow> fail (Prefixed (''read '' @ base) err)
         | Inr entries \<Rightarrow> ret (map (read_interface (ReadFile H) base) (filter (\<lambda>name. name \<noteq> ''lo'') entries))))"

text \<open>The statistics of a node, with the state of the sampler and of the reader.\<close>

definition clab_ReadNodeStats ::
  "'f floats \<Rightarrow> 'd host \<Rightarrow> files \<Rightarrow> int \<Rightarrow> string \<Rightarrow> string \<Rightarrow> docker_sampler \<times> (string \<rightharpoonup> 'f node_stats) \<Rightarrow> 'd
    \<Rightarrow> (go_error + 'f node_stats) \<times> docker_sampler \<times> (string \<rightharpoonup> 'f node_stats)" where
  "clab_ReadNodeStats F H fs now instanceName nodeName rd d =
     (case rd of (sampler, cache) \<Rightarrow>
        (case docker_Sample (\<lambda>(i, n). fst (resolveNode H i n d)) fs now (instanceName, nodeName) sampler of
           (sample, sampler) \<Rightarrow>
             (case reader_Read F (instanceName @ ''/'' @ nodeName) sample now cache of
                (stats, cache) \<Rightarrow> (stats, sampler, cache))))"

text \<open>
  The loop of \<open>RegisterListener\<close> on what its channels deliver: the nodes it reports, and its error once it returns.
\<close>

datatype docker_event =
    ContainerEvent "string \<Rightarrow> string"
  | EventError "go_error option"
  | ContextDone go_error

fun clab_RegisterListener :: "docker_event list \<Rightarrow> string list \<times> go_error option" where
  "clab_RegisterListener [] = ([], None)"
| "clab_RegisterListener (ContainerEvent attributes # es) =
     (let nodeName = attributes ''clab-node-name''; (ns, r) = clab_RegisterListener es in
      (if nodeName \<noteq> [] then nodeName # ns else ns, r))"
| "clab_RegisterListener (EventError (Some err) # es) = ([], Some err)"
| "clab_RegisterListener (EventError None # es) = clab_RegisterListener es"
| "clab_RegisterListener (ContextDone err # es) = ([], Some err)"

section \<open>Captures\<close>

text \<open>
  Opening a capture switches the thread to the network namespace of the container. \<open>nc_*\<close> are the outcomes of the
  calls. A thread that cannot return to its namespace stays locked to its goroutine, so that Go ends it.
\<close>

record netns_calls =
  nc_Get :: "go_error option"
  nc_GetFromPid :: "go_error option"
  nc_SetTarget :: "go_error option"
  nc_NewTPacket :: "go_error option"
  nc_SetOrig :: "go_error option"

datatype netns = OriginalNs | TargetNs

record os_thread =
  th_locked :: bool
  th_netns :: netns
  th_handles :: nat
  th_capture :: bool

definition run_thread :: os_thread where
  "run_thread = \<lparr>th_locked = True, th_netns = OriginalNs, th_handles = 0, th_capture = False\<rparr>"

definition switchNetnsAndOpenCapture :: "netns_calls \<Rightarrow> int \<Rightarrow> unit result \<times> os_thread" where
  "switchNetnsAndOpenCapture N pid =
     (case nc_Get N of
        Some err \<Rightarrow> (Inl (Prefixed ''get current netns'' err), run_thread\<lparr>th_locked := False\<rparr>)
      | None \<Rightarrow>
     (case nc_GetFromPid N of
        Some err \<Rightarrow> (Inl (Prefixed (''get netns for pid '' @ show_int pid) err), run_thread\<lparr>th_locked := False\<rparr>)
      | None \<Rightarrow>
     (case nc_SetTarget N of
        Some err \<Rightarrow> (Inl (Prefixed ''enter target netns'' err), run_thread\<lparr>th_locked := False\<rparr>)
      | None \<Rightarrow>
     (case nc_SetOrig N of
        Some err \<Rightarrow> (Inl (Prefixed ''return to the original netns'' err), run_thread\<lparr>th_netns := TargetNs\<rparr>)
      | None \<Rightarrow>
          (case nc_NewTPacket N of
             Some err \<Rightarrow> (Inl err, run_thread\<lparr>th_locked := False\<rparr>)
           | None \<Rightarrow> (Inr (), run_thread\<lparr>th_locked := False, th_capture := True\<rparr>))))))"

definition clab_OpenCapture ::
  "'d host \<Rightarrow> (int \<Rightarrow> netns_calls) \<Rightarrow> string \<Rightarrow> string \<Rightarrow> string \<Rightarrow> 'd \<Rightarrow> unit result \<times> 'd" where
  "clab_OpenCapture H N instanceName nodeName interfaceName =
     seq (containerForNode H instanceName nodeName) (\<lambda>containerId d.
       case ContainerInspect H containerId d of
         Inl err \<Rightarrow> (Inl (Prefixed (''inspect '' @ quote containerId) err), d)
       | Inr info \<Rightarrow>
           (case dc_State info of
              None \<Rightarrow> (Inl (Foreign (''container '' @ quote containerId @ '' is not running'')), d)
            | Some (pid, _) \<Rightarrow>
                if pid = 0 then (Inl (Foreign (''container '' @ quote containerId @ '' is not running'')), d)
                else (case fst (switchNetnsAndOpenCapture (N pid) pid) of
                  Inl err \<Rightarrow> (Inl (Prefixed (''open capture on '' @ quote containerId @ ''/'' @ interfaceName) err), d)
                | Inr _ \<Rightarrow> (Inr (), d))))"

text \<open>
  \<open>tpacketSource\<close>: threads read packets from the ring and close it. A read holds the mutex from its begin to its
  end; \<open>InRing\<close> is the call of the library that uses the ring.
\<close>

datatype capture_pc =
    ReadCall | ReadLoop | InRing | ReadReturned "string result"
  | CloseCall | CloseLock | CloseReturned

datatype ring_reply = RingTimeout | RingPacket string | RingError go_error

record tpacketSource =
  readMutex :: "nat option"
  closed :: bool
  released :: bool
  ringClosed :: nat

definition io_EOF :: go_error where
  "io_EOF = Foreign ''EOF''"

definition open_source :: tpacketSource where
  "open_source = \<lparr>readMutex = None, closed = False, released = False, ringClosed = 0\<rparr>"

fun capture_exec :: "nat \<Rightarrow> capture_pc \<Rightarrow> ring_reply \<Rightarrow> tpacketSource \<Rightarrow> (capture_pc \<times> tpacketSource) option" where
  "capture_exec i ReadCall r s = (if readMutex s = None then Some (ReadLoop, s\<lparr>readMutex := Some i\<rparr>) else None)"
| "capture_exec i ReadLoop r s =
     (if closed s then Some (ReadReturned (Inl io_EOF), s\<lparr>readMutex := None\<rparr>) else Some (InRing, s))"
| "capture_exec i InRing r s =
     (case r of
        RingTimeout \<Rightarrow> Some (ReadLoop, s)
      | RingPacket p \<Rightarrow> Some (ReadReturned (Inr p), s\<lparr>readMutex := None\<rparr>)
      | RingError err \<Rightarrow> Some (ReadReturned (Inl err), s\<lparr>readMutex := None\<rparr>))"
| "capture_exec i CloseCall r s = Some (CloseLock, s\<lparr>closed := True\<rparr>)"
| "capture_exec i CloseLock r s =
     (if readMutex s = None
      then Some (CloseReturned, if released s then s else s\<lparr>released := True, ringClosed := ringClosed s + 1\<rparr>)
      else None)"
| "capture_exec i (ReadReturned _) r s = None"
| "capture_exec i CloseReturned r s = None"

inductive capture_step :: "capture_pc list \<times> tpacketSource \<Rightarrow> capture_pc list \<times> tpacketSource \<Rightarrow> bool" where
  capture_begin: "p \<in> {ReadCall, CloseCall} \<Longrightarrow> capture_step (ps, s) (ps @ [p], s)"
| capture_run: "i < length ps \<Longrightarrow> capture_exec i (ps ! i) r s = Some (p, s') \<Longrightarrow> capture_step (ps, s) (ps[i := p], s')"

inductive_cases capture_stepE: "capture_step s s'"

definition capture_reach :: "capture_pc list \<times> tpacketSource \<Rightarrow> bool" where
  "capture_reach s \<longleftrightarrow> capture_step\<^sup>*\<^sup>* ([], open_source) s"

section \<open>Properties\<close>

text \<open>
  Every exit of opening a capture: a thread that Go may use again is in the namespace of the server, and a capture is
  open exactly when opening succeeded.
\<close>

lemma thread_never_escapes:
  assumes "switchNetnsAndOpenCapture N pid = (r, t)"
  shows "\<not> th_locked t \<longrightarrow> th_netns t = OriginalNs" "th_capture t \<longleftrightarrow> r = Inr ()"
  using assms by (auto simp: switchNetnsAndOpenCapture_def run_thread_def split: option.splits)

definition uses_ring :: "capture_pc \<Rightarrow> bool" where
  "uses_ring p \<longleftrightarrow> p = ReadLoop \<or> p = InRing"

definition place_ok :: "nat \<Rightarrow> capture_pc \<Rightarrow> tpacketSource \<Rightarrow> bool" where
  "place_ok i p s \<longleftrightarrow> (uses_ring p \<longrightarrow> readMutex s = Some i) \<and> (p = InRing \<longrightarrow> \<not> released s) \<and>
     (p = CloseLock \<longrightarrow> closed s) \<and> (p = CloseReturned \<longrightarrow> closed s \<and> released s)"

definition source_ok :: "tpacketSource \<Rightarrow> bool" where
  "source_ok s \<longleftrightarrow> (released s \<longrightarrow> closed s) \<and> ringClosed s = (if released s then 1 else 0)"

definition capture_inv :: "capture_pc list \<times> tpacketSource \<Rightarrow> bool" where
  "capture_inv = (\<lambda>(ps, s). source_ok s \<and> (\<forall>i < length ps. place_ok i (ps ! i) s))"

lemma place_ok_exec:
  assumes "place_ok i p s" "source_ok s" "capture_exec i p r s = Some (p', s')"
  shows "place_ok i p' s'" "source_ok s'"
  using assms by (cases p; auto simp: place_ok_def source_ok_def uses_ring_def split: if_splits ring_reply.splits)+

lemma place_ok_other:
  assumes "place_ok j q s" "place_ok i p s" "capture_exec i p r s = Some (p', s')" "j \<noteq> i"
  shows "place_ok j q s'"
  using assms by (cases p; auto simp: place_ok_def uses_ring_def split: if_splits ring_reply.splits)

lemma capture_exec_inv:
  assumes "capture_inv (ps, s)" "i < length ps" "capture_exec i (ps ! i) r s = Some (p, s')"
  shows "capture_inv (ps[i := p], s')"
  using assms place_ok_exec [OF _ _ assms(3)] place_ok_other [OF _ _ assms(3)]
  by (auto simp: capture_inv_def nth_list_update)

lemma capture_reach_inv: "capture_reach s \<Longrightarrow> capture_inv s"
  unfolding capture_reach_def
proof (induction rule: rtranclp_induct)
  case base
  then show ?case by (simp add: capture_inv_def source_ok_def open_source_def)
next
  case (step y z)
  from step.hyps(2) step.IH show ?case
  proof (cases rule: capture_step.cases)
    case (capture_begin p ps s)
    then show ?thesis
      using step.IH by (auto simp: capture_inv_def place_ok_def uses_ring_def nth_append)
  next
    case (capture_run i ps r s p s')
    then show ?thesis using step.IH capture_exec_inv by simp
  qed
qed

text \<open>C37: The ring of a capture is released at most once and never while a read uses it, however reads and closings
  interleave. Once a closing has returned the ring is released, and a read that takes the mutex ends without using it.\<close>

theorem capture_released_safely:
  assumes "capture_reach (ps, s)"
  shows "ringClosed s \<le> 1 \<and> (InRing \<in> set ps \<longrightarrow> ringClosed s = 0) \<and>
    (CloseReturned \<in> set ps \<longrightarrow> ringClosed s = 1 \<and>
      (\<forall>i r. capture_exec i ReadLoop r s = Some (ReadReturned (Inl io_EOF), s\<lparr>readMutex := None\<rparr>)))"
  using capture_reach_inv [OF assms] by (auto simp: capture_inv_def place_ok_def source_ok_def in_set_conv_nth)

lemma capture_reach_run:
  assumes "capture_reach (ps, s)" "i < length ps" "capture_exec i (ps ! i) r s = Some (p, s')"
  shows "capture_reach (ps[i := p], s')"
  using assms(1) capture_run [OF assms(2,3)] unfolding capture_reach_def by (rule rtranclp.rtrancl_into_rtrancl)

lemma capture_reach_begin:
  assumes "capture_reach (ps, s)" "p \<in> {ReadCall, CloseCall}"
  shows "capture_reach (ps @ [p], s)"
  using assms(1) capture_begin [OF assms(2)] unfolding capture_reach_def by (rule rtranclp.rtrancl_into_rtrancl)

text \<open>A capture is closed while a read uses the ring: the closing waits until the read has noticed.\<close>

definition closed_source :: tpacketSource where
  "closed_source = \<lparr>readMutex = None, closed = True, released = True, ringClosed = 1\<rparr>"

lemma capture_closed_run: "capture_reach ([ReadReturned (Inl io_EOF), CloseReturned], closed_source)"
proof -
  let ?busy = "\<lparr>readMutex = Some 0, closed = False, released = False, ringClosed = 0\<rparr>"
  let ?told = "\<lparr>readMutex = Some 0, closed = True, released = False, ringClosed = 0\<rparr>"
  let ?free = "\<lparr>readMutex = None, closed = True, released = False, ringClosed = 0\<rparr>"
  have "capture_reach ([], open_source)" by (simp add: capture_reach_def)
  from capture_reach_begin [OF this, of ReadCall] have "capture_reach ([ReadCall], open_source)" by simp
  from capture_reach_run [OF this, of 0 RingTimeout ReadLoop ?busy] have "capture_reach ([ReadLoop], ?busy)"
    by (simp add: open_source_def)
  from capture_reach_run [OF this, of 0 RingTimeout InRing ?busy] have "capture_reach ([InRing], ?busy)" by simp
  from capture_reach_begin [OF this, of CloseCall] have "capture_reach ([InRing, CloseCall], ?busy)" by simp
  from capture_reach_run [OF this, of 1 RingTimeout CloseLock ?told] have "capture_reach ([InRing, CloseLock], ?told)" by simp
  from capture_reach_run [OF this, of 0 RingTimeout ReadLoop ?told] have "capture_reach ([ReadLoop, CloseLock], ?told)" by simp
  from capture_reach_run [OF this, of 0 RingTimeout "ReadReturned (Inl io_EOF)" ?free]
  have "capture_reach ([ReadReturned (Inl io_EOF), CloseLock], ?free)" by simp
  from capture_reach_run [OF this, of 1 RingTimeout CloseReturned closed_source] show ?thesis by (simp add: closed_source_def)
qed

theorem capture_released_safely_witness:
  "capture_reach ([ReadReturned (Inl io_EOF), CloseReturned], closed_source) \<and> ringClosed closed_source = 1 \<and>
   (\<forall>i r. capture_exec i ReadLoop r closed_source = Some (ReadReturned (Inl io_EOF), closed_source\<lparr>readMutex := None\<rparr>))"
  using capture_released_safely [OF capture_closed_run] capture_closed_run by simp

text \<open>From the same output the inspection of one lab returns what the inspection of all labs returns for it, or that
  the lab is not running when it is not among them. Without any output it returns no containers instead.\<close>

theorem inspect_lab_is_part:
  assumes "clab_command H now [''inspect'', ''--all'', ''--format'', ''json''] d = ((l1, Some out, None), d1)"
    and "clab_command H now [''inspect'', ''-t'', f, ''--format'', ''json''] d = ((l2, Some out, None), d2)"
  shows "fst (fst (clab_InspectLab H now f i d)) =
    (case fst (fst (clab_InspectLabs H now d)) of
       Inl err \<Rightarrow> Inl err
     | Inr labs \<Rightarrow>
         (case map_of labs i of
            Some cs \<Rightarrow> Inr cs
          | None \<Rightarrow> if out = [] then Inr [] else Inl (Sentinel ErrLabNotRunning)))"
proof -
  have "map_of (convertInspectOutput raw) i = map_option (clabToInspectContainer i) (map_of raw i)" for raw
    by (induction raw) (auto simp: convertInspectOutput_def)
  then show ?thesis
    using assms by (auto simp: clab_InspectLab_def clab_InspectLabs_def split: sum.splits option.splits)
qed

text \<open>A node is found by its name exactly when containerlab reports a container for it under the name it gives to the
  containers of the lab, and the container is reported under that name, with the state Docker has for it.\<close>

theorem clab_node_found:
  assumes "clab_command H now [''inspect'', ''-t'', f, ''--format'', ''json''] d = ((l, Some out, None), d')"
    and "decode_labs (unmarshal_inspect H out) = Inr raw" "map_of raw i = Some cs" "out \<noteq> []"
    and "\<forall>c \<in> set cs. \<exists>n. ci_Name c = ''clab-'' @ i @ ''-'' @ n" "distinct (map ci_Name cs)"
  shows "(\<exists>c. fst (fst (clab_InspectNode H now f i n d)) = Inr c \<and> ic_ContainerName c = cname \<and> ic_State c = st) \<longleftrightarrow>
    cname = ''clab-'' @ i @ ''-'' @ n \<and> (\<exists>c \<in> set cs. ci_Name c = cname \<and> parseDockerState (ci_State c) = st)"
proof -
  define pre where "pre = ''clab-'' @ i @ ''-''"
  define conv where "conv = parseInspectContainer pre \<circ> toInspectContainer"
  have name: "ic_Name (conv c) = n \<longleftrightarrow> ci_Name c = ''clab-'' @ i @ ''-'' @ n" if c: "c \<in> set cs" for c
  proof -
    obtain m where m: "ci_Name c = ''clab-'' @ i @ ''-'' @ m" using c assms(5) by blast
    show ?thesis by (simp add: conv_def pre_def parseInspectContainer_def toInspectContainer_def m TrimPrefix_def HasPrefix_def)
  qed
  have conv: "ic_ContainerName (conv c) = ci_Name c" "ic_State (conv c) = parseDockerState (ci_State c)" for c
    by (simp_all add: conv_def parseInspectContainer_def toInspectContainer_def)
  have found: "fst (fst (clab_InspectNode H now f i n d)) = find_node n (map conv cs)"
    using assms(1-4) by (auto simp: conv_def pre_def clab_InspectNode_def clab_InspectLab_def clabToInspectContainer_def split: prod.splits)
  show ?thesis
  proof (cases "\<exists>c \<in> set cs. ci_Name c = ''clab-'' @ i @ ''-'' @ n")
    case True
    then obtain c where c: "c \<in> set cs" "ci_Name c = ''clab-'' @ i @ ''-'' @ n" by blast
    have unique: "c' = c" if "c' \<in> set cs" "ci_Name c' = ''clab-'' @ i @ ''-'' @ n" for c'
      using assms(6) that c by (simp add: distinct_map inj_on_def)
    have "find (\<lambda>x. ic_Name x = n) (map conv cs) \<noteq> None"
      using c name by (auto simp: find_None_iff)
    then obtain x where x: "find (\<lambda>x. ic_Name x = n) (map conv cs) = Some x" by blast
    then have "x \<in> conv ` set cs" "ic_Name x = n" by (auto simp: find_Some_iff)
    then have "x = conv c" using unique name by auto
    then have got: "fst (fst (clab_InspectNode H now f i n d)) = Inr (conv c)" using x by (simp add: found find_node_def)
    have "(\<exists>x. fst (fst (clab_InspectNode H now f i n d)) = Inr x \<and> ic_ContainerName x = cname \<and> ic_State x = st) \<longleftrightarrow>
        ci_Name c = cname \<and> parseDockerState (ci_State c) = st"
      by (simp only: got sum.inject) (simp add: conv)
    moreover have "(\<exists>c' \<in> set cs. ci_Name c' = ci_Name c \<and> parseDockerState (ci_State c') = st) \<longleftrightarrow>
        parseDockerState (ci_State c) = st"
      using c(1) unique unfolding c(2) [symmetric] by blast
    ultimately show ?thesis unfolding c(2) [symmetric] by (cases "ci_Name c = cname") auto
  next
    case False
    then have "find (\<lambda>x. ic_Name x = n) (map conv cs) = None"
      using name by (auto simp: find_None_iff)
    then show ?thesis using False by (auto simp: found find_node_def)
  qed
qed

end
