(* ===== verification/Clabernetes.thy ===== *)
theory Clabernetes
  imports Providers Messages Statistics "HOL-Library.Product_Lexorder" "HOL-Library.Word"
begin

text \<open>
  The Kubernetes provider: \<open>src/deployment/clabernetes.go\<close>. The cluster is an environment, a record of the calls of its
  API on a state of its own; of its objects the fields the provider reads are modelled. The two waits poll the
  cluster once a second until they time out: they are functions of what the polls see.
\<close>

section \<open>Objects of the cluster\<close>

datatype pod_phase = PodPending | PodRunning | PodSucceeded | PodFailed | PodPhase string

record container_spec =
  cs_Name :: string
  cs_Image :: string

text \<open>Labels and annotations are maps whose missing keys read as the empty string.\<close>

record pod =
  pod_Name :: string
  pod_Namespace :: string
  pod_UID :: string
  pod_Labels :: "string \<Rightarrow> string"
  pod_Annotations :: "string \<Rightarrow> string"
  pod_Terminating :: bool
  pod_Phase :: pod_phase
  pod_Conditions :: "(string \<times> string) list"
  pod_Containers :: "container_spec list"
  pod_Running :: "(string \<times> bool) list"
  pod_IPs :: "string list"

record k8s_deployment =
  dep_Name :: string
  dep_Namespace :: string
  dep_Labels :: "string \<Rightarrow> string"
  dep_Replicas :: "int option"
  dep_Containers :: "container_spec list"

text \<open>Times are nanoseconds; \<open>None\<close> is the zero time.\<close>

record event =
  ev_Name :: string
  ev_Kind :: string
  ev_Object :: string
  ev_Count :: int
  ev_Type :: string
  ev_Reason :: string
  ev_Message :: string
  ev_LastTimestamp :: "int option"
  ev_EventTime :: "int option"
  ev_CreationTimestamp :: int

datatype topology_state = TopologyRunning | TopologyDeployFailed | TopologyOther

record topology_status =
  ts_ReadyNodeCount :: int
  ts_NodeCount :: int
  ts_TopologyState :: topology_state
  ts_TopologyReady :: bool
  ts_Conditions :: "(string \<times> string \<times> string) list"

text \<open>The labels of clabernetes, which is third-party code, are parameters.\<close>

record labels =
  LabelTopologyNode :: string
  LabelTopologyOwner :: string
  LabelIgnoreReconcile :: string

section \<open>Nodes\<close>

text \<open>Conditions are pairs of a type and a status.\<close>

definition podStateToNodeState :: "pod \<Rightarrow> node_state" where
  "podStateToNodeState p =
     (case pod_Phase p of
        PodSucceeded \<Rightarrow> NodeStopped
      | PodFailed \<Rightarrow> NodeStopped
      | PodRunning \<Rightarrow> if (''Ready'', ''True'') \<in> set (pod_Conditions p) then NodeRunning else NodeStarting
      | PodPending \<Rightarrow> NodeStarting
      | PodPhase _ \<Rightarrow> NodeStarting)"

definition last_such :: "(string \<Rightarrow> bool) \<Rightarrow> string list \<Rightarrow> string" where
  "last_such P xs = (case filter P xs of [] \<Rightarrow> [] | ys \<Rightarrow> last ys)"

definition first_image :: "container_spec list \<Rightarrow> string" where
  "first_image cs = (case cs of [] \<Rightarrow> [] | c # _ \<Rightarrow> cs_Image c)"

definition podToInspectContainer :: "labels \<Rightarrow> string \<Rightarrow> pod \<Rightarrow> full_container" where
  "podToInspectContainer L topologyFile p =
     \<lparr>ic_Name = pod_Labels p (LabelTopologyNode L), ic_State = podStateToNodeState p, ic_ContainerId = pod_UID p,
      ic_ContainerName = pod_Name p,
      ic_IPv4Address = last_such (\<lambda>ip. \<not> Contains ip '':'') (pod_IPs p),
      ic_IPv6Address = last_such (\<lambda>ip. Contains ip '':'') (pod_IPs p),
      ic_LabName = pod_Labels p (LabelTopologyOwner L), ic_LabPath = topologyFile, ic_Image = first_image (pod_Containers p)\<rparr>"

definition stoppedDeploymentToInspectContainer :: "labels \<Rightarrow> string \<Rightarrow> k8s_deployment \<Rightarrow> full_container" where
  "stoppedDeploymentToInspectContainer L topologyFile d =
     \<lparr>ic_Name = dep_Labels d (LabelTopologyNode L), ic_State = NodeStopped, ic_ContainerId = [], ic_ContainerName = [],
      ic_IPv4Address = [], ic_IPv6Address = [], ic_LabName = dep_Labels d (LabelTopologyOwner L), ic_LabPath = topologyFile,
      ic_Image = first_image (dep_Containers d)\<rparr>"

definition replicas :: "k8s_deployment \<Rightarrow> int" where
  "replicas d = (case dep_Replicas d of None \<Rightarrow> 1 | Some n \<Rightarrow> n)"

definition namespaceFor :: "string \<Rightarrow> string" where
  "namespaceFor topologyName = ''c9s-'' @ topologyName"

definition deviceContainer :: "pod \<Rightarrow> string" where
  "deviceContainer p =
     (let name = pod_Annotations p ''kubectl.kubernetes.io/default-container'' in
      if name \<noteq> [] then name else (case pod_Containers p of [] \<Rightarrow> [] | c # _ \<Rightarrow> cs_Name c))"

text \<open>
  The loops of \<open>inspect\<close>. \<open>output\<close> maps labs to their containers, \<open>stoppedIdx\<close> the nodes that are scaled to zero to
  their place in it. The nodes of all labs are listed, and a lab is a key when it has a container.
\<close>

type_synonym inspect_output = "string \<Rightarrow> full_container list"
type_synonym stopped_index = "string \<rightharpoonup> string \<times> nat"

definition add_container :: "full_container \<Rightarrow> inspect_output \<Rightarrow> inspect_output" where
  "add_container c output = output(ic_LabName c := output (ic_LabName c) @ [c])"

definition node_key :: "string \<Rightarrow> string \<Rightarrow> string" where
  "node_key namespace node = namespace @ ''/'' @ node"

definition inspect_deployment ::
  "labels \<Rightarrow> string \<Rightarrow> k8s_deployment \<Rightarrow> inspect_output \<times> stopped_index \<Rightarrow> inspect_output \<times> stopped_index" where
  "inspect_deployment L topologyFile d acc =
     (case acc of (output, stoppedIdx) \<Rightarrow>
        if dep_Replicas d \<noteq> Some 0 then acc
        else
          let c = stoppedDeploymentToInspectContainer L topologyFile d; output = add_container c output in
          (output, stoppedIdx(node_key (dep_Namespace d) (ic_Name c) \<mapsto> (ic_LabName c, length (output (ic_LabName c)) - 1))))"

definition inspect_pod :: "labels \<Rightarrow> string \<Rightarrow> stopped_index \<Rightarrow> pod \<Rightarrow> inspect_output \<Rightarrow> inspect_output" where
  "inspect_pod L topologyFile stoppedIdx p output =
     (case stoppedIdx (node_key (pod_Namespace p) (pod_Labels p (LabelTopologyNode L))) of
        Some (lab, i) \<Rightarrow> output(lab := (output lab)[i := (output lab ! i)\<lparr>ic_State := NodeStopping\<rparr>])
      | None \<Rightarrow>
          if pod_Terminating p then output else add_container (podToInspectContainer L topologyFile p) output)"

definition inspect_lists :: "labels \<Rightarrow> string \<Rightarrow> pod list \<Rightarrow> k8s_deployment list \<Rightarrow> inspect_output" where
  "inspect_lists L topologyFile ps ds =
     (case fold (inspect_deployment L topologyFile) ds (\<lambda>_. [], Map.empty) of
        (output, stoppedIdx) \<Rightarrow> fold (inspect_pod L topologyFile stoppedIdx) ps output)"

section \<open>Events\<close>

definition eventTime :: "event \<Rightarrow> int" where
  "eventTime e =
     (case ev_LastTimestamp e of Some t \<Rightarrow> t
      | None \<Rightarrow> (case ev_EventTime e of Some t \<Rightarrow> t | None \<Rightarrow> ev_CreationTimestamp e))"

definition sortEvents :: "event list \<Rightarrow> event list" where
  "sortEvents = sort_key (\<lambda>e. (eventTime e, ev_Name e))"

text \<open>The events that \<open>forwardDeployEvents\<close> still has to send.\<close>

definition pending_events :: "int \<Rightarrow> (string \<Rightarrow> int) \<Rightarrow> event list \<Rightarrow> event list" where
  "pending_events since sent evs =
     filter (\<lambda>e. (ev_Kind e = ''Pod'' \<or> ev_Kind e = ''Node'') \<and> \<not> eventTime e < since \<and> sent (ev_Name e) \<noteq> ev_Count e) evs"

definition pod_nodes :: "labels \<Rightarrow> pod list \<Rightarrow> string \<rightharpoonup> string" where
  "pod_nodes L ps = fold (\<lambda>p m. m(pod_Name p \<mapsto> pod_Labels p (LabelTopologyNode L))) ps Map.empty"

definition event_node :: "(string \<rightharpoonup> string) \<Rightarrow> event \<Rightarrow> string" where
  "event_node podNodes e =
     (if ev_Kind e = ''Pod'' then (case podNodes (ev_Object e) of None \<Rightarrow> ev_Object e | Some n \<Rightarrow> n) else ev_Object e)"

definition event_line :: "(int \<Rightarrow> clock) \<Rightarrow> (string \<rightharpoonup> string) \<Rightarrow> event \<Rightarrow> string option" where
  "event_line clk podNodes e =
     CreateKubeLog (if ev_Type e = ''Warning'' then WarningLevel else InfoLevel) (clk (eventTime e))
       ([ev_Message e, ''node'', event_node podNodes e, ''reason'', ev_Reason e] @
        (if 1 < ev_Count e then [''count'', show_int (ev_Count e)] else []))"

definition forwardDeployEvents ::
  "labels \<Rightarrow> (int \<Rightarrow> clock) \<Rightarrow> int \<Rightarrow> event list result \<Rightarrow> pod list result \<Rightarrow> (string \<Rightarrow> int)
    \<Rightarrow> string list \<times> (string \<Rightarrow> int)" where
  "forwardDeployEvents L clk since listed ps sent =
     (case listed of
        Inl _ \<Rightarrow> ([], sent)
      | Inr evs \<Rightarrow>
          let evs = sortEvents (pending_events since sent evs);
              podNodes = (case ps of Inl _ \<Rightarrow> Map.empty | Inr ps \<Rightarrow> pod_nodes L ps)
          in (List.map_filter (event_line clk podNodes) evs,
              fold (\<lambda>e s. s(ev_Name e := ev_Count e)) evs sent))"

section \<open>Waiting\<close>

definition conditionSummary :: "(string \<times> string \<times> string) list \<Rightarrow> string" where
  "conditionSummary conds =
     (case map (\<lambda>(t, _, m). t @ '': '' @ m) (filter (\<lambda>(_, s, m). s = ''False'' \<and> m \<noteq> []) conds) of
        [] \<Rightarrow> ''see topology status'' | parts \<Rightarrow> join ''; '' parts)"

text \<open>What one poll sees: the events, the pods, the topology, and the time.\<close>

record topology_poll =
  tp_events :: "event list result"
  tp_pods :: "pod list result"
  tp_topology :: "topology_status result"
  tp_now :: clock

definition poll_result :: "string \<Rightarrow> topology_status \<Rightarrow> bool result" where
  "poll_result instanceName st =
     (if ts_TopologyState st = TopologyDeployFailed
      then Inl (Foreign (''deployment of '' @ instanceName @ '' failed: '' @ conditionSummary (ts_Conditions st)))
      else if ts_TopologyState st = TopologyRunning then Inr True
      else Inr (ts_TopologyReady st \<and> 0 < ts_NodeCount st))"

definition ready_line :: "string \<Rightarrow> string \<Rightarrow> clock \<Rightarrow> topology_status \<Rightarrow> string option" where
  "ready_line namespace instanceName now st =
     CreateAntimonyLog now InfoLevel
       [''Deployment status: '' @ show_int (ts_ReadyNodeCount st) @ ''/'' @ show_int (ts_NodeCount st) @ '' nodes ready'',
        ''instance'', instanceName, ''namespace'', namespace]"

text \<open>The error of a poll that runs out of time. The first poll is made at once.\<close>

definition deadline_exceeded :: go_error where
  "deadline_exceeded = Foreign ''context deadline exceeded''"

fun poll_topology ::
  "labels \<Rightarrow> (int \<Rightarrow> clock) \<Rightarrow> string \<Rightarrow> string \<Rightarrow> int \<Rightarrow> topology_poll list \<Rightarrow> int \<Rightarrow> (string \<Rightarrow> int)
    \<Rightarrow> go_error option \<times> string list" where
  "poll_topology L clk namespace instanceName since [] lastReady sent = (Some deadline_exceeded, [])"
| "poll_topology L clk namespace instanceName since (q # qs) lastReady sent =
     (case forwardDeployEvents L clk since (tp_events q) (tp_pods q) sent of
        (evs, sent) \<Rightarrow>
          (case tp_topology q of
             Inl err \<Rightarrow> (Some err, evs)
           | Inr st \<Rightarrow>
               let ready = (if ts_ReadyNodeCount st \<noteq> lastReady
                     then List.map_filter id [ready_line namespace instanceName (tp_now q) st] else [])
               in (case poll_result instanceName st of
                     Inl err \<Rightarrow> (Some err, evs @ ready)
                   | Inr True \<Rightarrow> (None, evs @ ready)
                   | Inr False \<Rightarrow>
                       (case poll_topology L clk namespace instanceName since qs (ts_ReadyNodeCount st) sent of
                          (err, ls) \<Rightarrow> (err, evs @ ready @ ls)))))"

definition waitForTopologyReady ::
  "labels \<Rightarrow> (int \<Rightarrow> clock) \<Rightarrow> string \<Rightarrow> string \<Rightarrow> int \<Rightarrow> topology_poll list \<Rightarrow> go_error option \<times> string list" where
  "waitForTopologyReady L clk namespace instanceName now qs =
     poll_topology L clk namespace instanceName (now - now mod 1000000000) qs (- 1) (\<lambda>_. 0)"

text \<open>A poll for the end of a namespace sees it, that it is gone, or an error.\<close>

datatype namespace_poll = NamespaceThere | NamespaceGone clock | NamespaceError go_error clock

fun waitForNamespaceGone :: "string \<Rightarrow> namespace_poll list \<Rightarrow> go_error option \<times> string option list" where
  "waitForNamespaceGone namespace [] = (Some deadline_exceeded, [])"
| "waitForNamespaceGone namespace (NamespaceThere # qs) = waitForNamespaceGone namespace qs"
| "waitForNamespaceGone namespace (NamespaceGone now # qs) =
     (None, [CreateAntimonyLog now SuccessLevel [''Deletion of namespace succeeded'', ''namespace'', namespace]])"
| "waitForNamespaceGone namespace (NamespaceError err now # qs) =
     (Some err, [CreateAntimonyLog now ErrorLevel
        [''Waiting for namespace deletion has failed'', ''namespace'', namespace, ''err'', error_text err]])"

section \<open>Definitions of topologies\<close>

text \<open>YAML decoded into maps, lists and scalars, with the keys of a map in any order and without repetition.\<close>

datatype yaml_value = YMap "(string \<times> yaml_value) list" | YList "yaml_value list" | YScalar string

fun on_map :: "((string \<times> yaml_value) list \<Rightarrow> (string \<times> yaml_value) list) \<Rightarrow> yaml_value \<Rightarrow> yaml_value" where
  "on_map f (YMap m) = YMap (f m)"
| "on_map f (YList vs) = YList vs"
| "on_map f (YScalar s) = YScalar s"

definition delete_key :: "string \<Rightarrow> (string \<times> yaml_value) list \<Rightarrow> (string \<times> yaml_value) list" where
  "delete_key k m = filter (\<lambda>(k', _). k' \<noteq> k) m"

definition on_key :: "string \<Rightarrow> (yaml_value \<Rightarrow> yaml_value) \<Rightarrow> (string \<times> yaml_value) list \<Rightarrow> (string \<times> yaml_value) list" where
  "on_key k f m = map (\<lambda>(k', v). (k', if k' = k then f v else v)) m"

definition label_sections :: "string list" where
  "label_sections = [''kinds'', ''groups'', ''nodes'']"

definition strip_section :: "string \<Rightarrow> (string \<times> yaml_value) list \<Rightarrow> (string \<times> yaml_value) list" where
  "strip_section sect = on_key sect (on_map (map (\<lambda>(n, entry). (n, on_map (delete_key ''labels'') entry))))"

definition strip_labels :: "(string \<times> yaml_value) list \<Rightarrow> (string \<times> yaml_value) list" where
  "strip_labels = on_key ''topology'' (on_map (\<lambda>topology.
     fold strip_section label_sections (on_key ''defaults'' (on_map (delete_key ''labels'')) topology)))"

definition stripTopologyLabels ::
  "(string \<Rightarrow> (string \<times> yaml_value) list result) \<Rightarrow> ((string \<times> yaml_value) list \<Rightarrow> string result) \<Rightarrow> string \<Rightarrow> string result"
where
  "stripTopologyLabels unmarshal marshal content =
     (case unmarshal content of Inl err \<Rightarrow> Inl err | Inr definition_map \<Rightarrow> marshal (strip_labels definition_map))"

section \<open>The cluster\<close>

datatype stream_end = StreamOk | ExitCode int | StreamError go_error

record 'k cluster =
  ListPods :: "string \<Rightarrow> string \<Rightarrow> 'k \<Rightarrow> pod list result"
  ListDeployments :: "string \<Rightarrow> string \<Rightarrow> 'k \<Rightarrow> k8s_deployment list result"
  DeletePods :: "string \<Rightarrow> int \<Rightarrow> string \<Rightarrow> 'k \<Rightarrow> unit result \<times> 'k"
  DeleteNamespace :: "string \<Rightarrow> int \<Rightarrow> 'k \<Rightarrow> unit result \<times> 'k"
  CreateNamespace :: "string \<Rightarrow> (string \<times> string) list \<Rightarrow> 'k \<Rightarrow> unit result \<times> 'k"
  CompileTopology :: "string \<Rightarrow> string \<Rightarrow> string \<Rightarrow> unit result"
  CreateTopology :: "string \<Rightarrow> string \<Rightarrow> string \<Rightarrow> 'k \<Rightarrow> unit result \<times> 'k"
  GetTopology :: "string \<Rightarrow> string \<Rightarrow> 'k \<Rightarrow> unit result"
  UpdateTopology :: "string \<Rightarrow> string \<Rightarrow> string \<Rightarrow> 'k \<Rightarrow> unit result \<times> 'k"
  PatchNode :: "string \<Rightarrow> string \<Rightarrow> string \<Rightarrow> 'k \<Rightarrow> unit result \<times> 'k"
  PatchDeployment :: "string \<Rightarrow> string \<Rightarrow> string \<Rightarrow> 'k \<Rightarrow> unit result \<times> 'k"
  NewExecutor :: "string \<Rightarrow> string \<Rightarrow> string \<Rightarrow> string list \<Rightarrow> bool \<Rightarrow> go_error option"
  Stream :: "string \<Rightarrow> string \<Rightarrow> string \<Rightarrow> string list \<Rightarrow> 'k \<Rightarrow> (string \<times> string \<times> stream_end) \<times> 'k"
  GetLogs :: "string \<Rightarrow> string \<Rightarrow> 'k \<Rightarrow> string result \<times> 'k"
  IsNotFound :: "go_error \<Rightarrow> bool"
  IsAlreadyExists :: "go_error \<Rightarrow> bool"
  read_topology :: "string \<Rightarrow> string result"
  yaml_unmarshal :: "string \<Rightarrow> (string \<times> yaml_value) list result"
  yaml_marshal :: "(string \<times> yaml_value) list \<Rightarrow> string result"
  cluster_labels :: labels

definition query :: "('k \<Rightarrow> 'a result) \<Rightarrow> 'k \<Rightarrow> 'a result \<times> 'k" where
  "query q k = (q k, k)"

definition c9s_inspect :: "'k cluster \<Rightarrow> string \<Rightarrow> 'k \<Rightarrow> inspect_output result \<times> 'k" where
  "c9s_inspect K topologyFile =
     (let selector = LabelTopologyNode (cluster_labels K) in
      seq (handle (query (ListPods K [] selector)) (\<lambda>err. fail (Prefixed ''list node pods'' err))) (\<lambda>ps.
      seq (handle (query (ListDeployments K [] selector)) (\<lambda>err. fail (Prefixed ''list node deployments'' err))) (\<lambda>ds.
      ret (inspect_lists (cluster_labels K) topologyFile ps ds))))"

definition c9s_InspectLabs :: "'k cluster \<Rightarrow> 'k \<Rightarrow> inspect_output result \<times> 'k" where
  "c9s_InspectLabs K = c9s_inspect K []"

definition c9s_InspectLab :: "'k cluster \<Rightarrow> string \<Rightarrow> string \<Rightarrow> 'k \<Rightarrow> full_container list result \<times> 'k" where
  "c9s_InspectLab K topologyFile instanceName =
     seq (c9s_inspect K topologyFile) (\<lambda>output.
       if output instanceName = [] then fail (Sentinel ErrLabNotRunning) else ret (output instanceName))"

definition c9s_InspectNode :: "'k cluster \<Rightarrow> string \<Rightarrow> string \<Rightarrow> string \<Rightarrow> 'k \<Rightarrow> full_container result \<times> 'k" where
  "c9s_InspectNode K topologyFile instanceName nodeName =
     seq (c9s_inspect K topologyFile) (\<lambda>output.
       if output instanceName = [] then fail (Sentinel ErrLabNotRunning)
       else lift (find_node nodeName (output instanceName)))"

text \<open>A pod backs a node when it runs and its device container runs.\<close>

definition backs_node :: "pod \<Rightarrow> bool" where
  "backs_node p \<longleftrightarrow> \<not> pod_Terminating p \<and> pod_Phase p = PodRunning \<and> (deviceContainer p, True) \<in> set (pod_Running p)"

definition node_selector :: "labels \<Rightarrow> string \<Rightarrow> string" where
  "node_selector L nodeName = LabelTopologyNode L @ ''='' @ nodeName"

definition podForNode :: "'k cluster \<Rightarrow> string \<Rightarrow> string \<Rightarrow> 'k \<Rightarrow> pod result \<times> 'k" where
  "podForNode K namespace nodeName =
     seq (query (ListPods K namespace (node_selector (cluster_labels K) nodeName))) (\<lambda>ps.
       case find backs_node ps of None \<Rightarrow> fail (Sentinel ErrNodeNotRunning) | Some p \<Rightarrow> ret p)"

definition createContainerExec :: "'k cluster \<Rightarrow> string \<Rightarrow> string \<Rightarrow> string \<Rightarrow> string list \<Rightarrow> bool \<Rightarrow> 'k \<Rightarrow> unit result \<times> 'k" where
  "createContainerExec K namespace podName container cmd tty =
     (case NewExecutor K namespace podName container cmd tty of Some err \<Rightarrow> fail err | None \<Rightarrow> ret ())"

definition createExec :: "'k cluster \<Rightarrow> string \<Rightarrow> pod \<Rightarrow> string list \<Rightarrow> bool \<Rightarrow> 'k \<Rightarrow> unit result \<times> 'k" where
  "createExec K namespace p cmd tty = createContainerExec K namespace (pod_Name p) (deviceContainer p) cmd tty"

definition commandNotFoundExitCode :: int where
  "commandNotFoundExitCode = 127"

definition exec_result :: "string \<Rightarrow> stream_end \<Rightarrow> string \<times> int \<times> go_error option" where
  "exec_result output fin =
     (case fin of
        StreamOk \<Rightarrow> (output, 0, None)
      | ExitCode code \<Rightarrow> (output, code, None)
      | StreamError err \<Rightarrow>
          if Contains (error_text err) ''executable file not found'' then (output, commandNotFoundExitCode, None)
          else (output, 0, Some err))"

definition c9s_Exec ::
  "'k cluster \<Rightarrow> string \<Rightarrow> string \<Rightarrow> string list \<Rightarrow> 'k \<Rightarrow> (string \<times> int \<times> go_error option) \<times> 'k" where
  "c9s_Exec K instanceName nodeName cmd k =
     (let namespace = namespaceFor instanceName in
      case seq (podForNode K namespace nodeName) (\<lambda>p. seq (createExec K namespace p cmd False) (\<lambda>_. ret p)) k of
        (Inl err, k) \<Rightarrow> (([], 0, Some err), k)
      | (Inr p, k) \<Rightarrow>
          (case Stream K namespace (pod_Name p) (deviceContainer p) cmd k of
             ((out, errout, fin), k) \<Rightarrow> (exec_result (out @ errout) fin, k)))"

definition parse_interface :: "string \<Rightarrow> node_interface option" where
  "parse_interface line =
     (case Fields line of
        a # b # c # d # _ \<Rightarrow> Some \<lparr>if_Name = a, if_Address = b, if_MTU = Atoi_value c, if_State = d\<rparr>
      | _ \<Rightarrow> None)"

definition listInterfacesScript :: string where
  "listInterfacesScript = join [CHR 0x0A]
     [''for d in /sys/class/net/*; do'', ''  n=${d##*/}; [ \"$n\" = lo ] && continue'',
      ''  echo \"$n $(cat $d/address 2>/dev/null) $(cat $d/mtu 2>/dev/null) $(cat $d/operstate 2>/dev/null)\"'', ''done'']"

definition c9s_GetNetworkInterfaces :: "'k cluster \<Rightarrow> string \<Rightarrow> string \<Rightarrow> 'k \<Rightarrow> node_interface list result \<times> 'k" where
  "c9s_GetNetworkInterfaces K instanceName nodeName k =
     (case c9s_Exec K instanceName nodeName [''sh'', ''-c'', listInterfacesScript] k of
        ((out, code, Some err), k) \<Rightarrow>
          (Inl (if errors_is err ErrNodeNotRunning then Sentinel ErrNodeNotRunning
                else Prefixed (''list interfaces in '' @ namespaceFor instanceName @ ''/'' @ nodeName) err), k)
      | ((out, code, None), k) \<Rightarrow>
          (if code \<noteq> 0
           then Inl (Foreign (''list interfaces of '' @ nodeName @ '': exit code '' @ show_int code @ '': '' @ TrimSpace out))
           else Inr (List.map_filter parse_interface (split_on CHR 0x0A (TrimSpace out))), k))"

section \<open>Deploying and destroying\<close>

text \<open>
  The calls log lines beside their result. \<open>now\<close> is the time of all lines of a call; the polls bring their own.
\<close>

definition log_line :: "clock \<Rightarrow> log_level \<Rightarrow> string list \<Rightarrow> string list" where
  "log_line now level parts = List.map_filter id [CreateAntimonyLog now level parts]"

definition applyTopology :: "'k cluster \<Rightarrow> string \<Rightarrow> string \<Rightarrow> string \<Rightarrow> 'k \<Rightarrow> unit result \<times> 'k" where
  "applyTopology K namespace instanceName topo k =
     (case CompileTopology K namespace instanceName topo of
        Inl err \<Rightarrow> (Inl (Prefixed ''topology is not supported by clabernetes'' err), k)
      | Inr _ \<Rightarrow>
     (case CreateNamespace K namespace [(''pod-security.kubernetes.io/enforce'', ''privileged'')] k of
        (r, k) \<Rightarrow>
     if (case r of Inl err \<Rightarrow> \<not> IsAlreadyExists K err | Inr _ \<Rightarrow> False)
     then (Inl (Prefixed (''create namespace '' @ namespace) (projl r)), k)
     else (case CreateTopology K namespace instanceName topo k of
        (Inr _, k) \<Rightarrow> (Inr (), k)
      | (Inl err, k) \<Rightarrow>
          if \<not> IsAlreadyExists K err then (Inl err, k)
          else (case GetTopology K namespace instanceName k of
             Inl err \<Rightarrow> (Inl err, k)
           | Inr _ \<Rightarrow> UpdateTopology K namespace instanceName topo k))))"

definition c9s_Deploy ::
  "'k cluster \<Rightarrow> (int \<Rightarrow> clock) \<Rightarrow> clock \<Rightarrow> int \<Rightarrow> topology_poll list \<Rightarrow> string \<Rightarrow> string \<Rightarrow> 'k
    \<Rightarrow> (go_error option \<times> string list) \<times> 'k" where
  "c9s_Deploy K clk now nanos qs topologyFile instanceName k =
     (let namespace = namespaceFor instanceName; which = [''instance'', instanceName, ''namespace'', namespace] in
      case read_topology K topologyFile of
        Inl err \<Rightarrow> ((Some (Prefixed (''read topology '' @ topologyFile) err), []), k)
      | Inr content \<Rightarrow>
     (case stripTopologyLabels (yaml_unmarshal K) (yaml_marshal K) content of
        Inl err \<Rightarrow> ((Some (Prefixed (''parse topology '' @ topologyFile) err), []), k)
      | Inr topo \<Rightarrow>
     let l1 = log_line now InfoLevel (''Creating clabernetes topology'' # which) in
     (case applyTopology K namespace instanceName topo k of
        (Inl err, k) \<Rightarrow>
          ((Some err, l1 @ log_line now ErrorLevel
              (''Creation of clabernetes topology failed'' # which @ [''err'', error_text err])), k)
      | (Inr _, k) \<Rightarrow>
          (case waitForTopologyReady (cluster_labels K) clk namespace instanceName nanos qs of
             (err, ls) \<Rightarrow>
               ((err, l1 @ log_line now InfoLevel (''Waiting for kubernetes deployment to complete'' # which) @ ls), k)))))"

definition stopping_line :: "labels \<Rightarrow> clock \<Rightarrow> string \<Rightarrow> pod \<Rightarrow> string list" where
  "stopping_line L now namespace p =
     log_line now InfoLevel [''Stopping node'', ''namespace'', namespace, ''node'', pod_Labels p (LabelTopologyNode L),
       ''name'', pod_Name p]"

definition missing_is_fine :: "'k cluster \<Rightarrow> 'a result \<Rightarrow> go_error option" where
  "missing_is_fine K r = (case r of Inl err \<Rightarrow> if IsNotFound K err then None else Some err | Inr _ \<Rightarrow> None)"

definition c9s_Destroy ::
  "'k cluster \<Rightarrow> clock \<Rightarrow> namespace_poll list \<Rightarrow> string \<Rightarrow> 'k \<Rightarrow> (go_error option \<times> string list) \<times> 'k" where
  "c9s_Destroy K now qs instanceName k =
     (let namespace = namespaceFor instanceName; selector = LabelTopologyNode (cluster_labels K);
          ps = ListPods K namespace selector k in
      case missing_is_fine K ps of
        Some err \<Rightarrow> ((Some err, log_line now ErrorLevel [''Failed to fetch pods in namespace'', ''err'', error_text err]), k)
      | None \<Rightarrow>
     let l1 = (case ps of Inl _ \<Rightarrow> [] | Inr ps \<Rightarrow> concat (map (stopping_line (cluster_labels K) now namespace) ps)) in
     (case DeletePods K namespace 0 selector k of
        (r, k) \<Rightarrow>
     (case missing_is_fine K r of
        Some err \<Rightarrow>
          ((Some err, l1 @ log_line now ErrorLevel [''Failed to fetch collection in namespace'', ''err'', error_text err]), k)
      | None \<Rightarrow>
     let l2 = l1 @ log_line now InfoLevel [''Deleting namespace'', ''namespace'', namespace] in
     (case DeleteNamespace K namespace 0 k of
        (Inl err, k) \<Rightarrow>
          if IsNotFound K err
          then ((None, l2 @ log_line now WarningLevel
                  [''The namespace has already been removed'', ''namespace'', namespace]), k)
          else ((Some err, l2 @ log_line now ErrorLevel
                  [''Deletion of namespace failed'', ''namespace'', namespace, ''err'', error_text err]), k)
      | (Inr _, k) \<Rightarrow>
          (case waitForNamespaceGone namespace qs of
             (err, ls) \<Rightarrow>
               ((err, l2 @ log_line now InfoLevel [''Waiting for namespace to be removed'', ''namespace'', namespace] @
                  List.map_filter id ls), k))))))"

definition c9s_Redeploy ::
  "'k cluster \<Rightarrow> (int \<Rightarrow> clock) \<Rightarrow> clock \<Rightarrow> int \<Rightarrow> namespace_poll list \<Rightarrow> topology_poll list \<Rightarrow> string \<Rightarrow> string \<Rightarrow> 'k
    \<Rightarrow> (go_error option \<times> string list) \<times> 'k" where
  "c9s_Redeploy K clk now nanos gone qs topologyFile instanceName k =
     (case c9s_Destroy K now gone instanceName k of
        ((Some err, ls), k) \<Rightarrow> ((Some err, ls), k)
      | ((None, ls), k) \<Rightarrow>
          (case c9s_Deploy K clk now nanos qs topologyFile instanceName k of
             ((err, ls'), k) \<Rightarrow> ((err, ls @ ls'), k)))"

section \<open>Operations on nodes\<close>

definition ignore_patch :: "string \<Rightarrow> bool \<Rightarrow> string" where
  "ignore_patch lbl ignored =
     ''{\"metadata\":{\"labels\":{'' @ quote lbl @ '':'' @ (if ignored then ''\"true\"'' else ''null'') @ ''}}}''"

definition setIgnoreReconcile :: "'k cluster \<Rightarrow> string \<Rightarrow> string \<Rightarrow> bool \<Rightarrow> 'k \<Rightarrow> unit result \<times> 'k" where
  "setIgnoreReconcile K ns node ignored =
     PatchNode K ns node (ignore_patch (LabelIgnoreReconcile (cluster_labels K)) ignored)"

definition scaleNode :: "'k cluster \<Rightarrow> string \<Rightarrow> string \<Rightarrow> int \<Rightarrow> 'k \<Rightarrow> unit result \<times> 'k" where
  "scaleNode K ns node n = PatchDeployment K ns node (''{\"spec\":{\"replicas\":'' @ show_int n @ ''}}'')"

definition c9s_StartNode :: "'k cluster \<Rightarrow> string \<Rightarrow> string \<Rightarrow> 'k \<Rightarrow> unit result \<times> 'k" where
  "c9s_StartNode K instanceName nodeName =
     (let namespace = namespaceFor instanceName in
      seq (setIgnoreReconcile K namespace nodeName False) (\<lambda>_. scaleNode K namespace nodeName 1))"

definition c9s_StopNode :: "'k cluster \<Rightarrow> string \<Rightarrow> string \<Rightarrow> 'k \<Rightarrow> unit result \<times> 'k" where
  "c9s_StopNode K instanceName nodeName =
     (let namespace = namespaceFor instanceName in
      seq (setIgnoreReconcile K namespace nodeName True) (\<lambda>_. scaleNode K namespace nodeName 0))"

definition c9s_RestartNode :: "'k cluster \<Rightarrow> string \<Rightarrow> string \<Rightarrow> 'k \<Rightarrow> unit result \<times> 'k" where
  "c9s_RestartNode K instanceName nodeName =
     DeletePods K (namespaceFor instanceName) 10 (node_selector (cluster_labels K) nodeName)"

definition c9s_StreamContainerLogs :: "'k cluster \<Rightarrow> string \<Rightarrow> string \<Rightarrow> 'k \<Rightarrow> string list result \<times> 'k" where
  "c9s_StreamContainerLogs K instanceName nodeName =
     seq (podForNode K (namespaceFor instanceName) nodeName) (\<lambda>p.
     seq (GetLogs K (namespaceFor instanceName) (pod_Name p)) (\<lambda>stream.
     ret (map ReplaceAnsiCharacters (streamOutput stream))))"

text \<open>The handlers of \<open>RegisterListener\<close>: the node that is reported to be updated, if one is.\<close>

definition pod_changed :: "labels \<Rightarrow> pod option \<Rightarrow> string option" where
  "pod_changed L p = map_option (\<lambda>p. pod_Labels p (LabelTopologyNode L)) p"

definition pod_updated :: "labels \<Rightarrow> pod option \<Rightarrow> pod option \<Rightarrow> string option" where
  "pod_updated L old new =
     (case (old, new) of
        (Some p, Some n) \<Rightarrow>
          if pod_Terminating p \<noteq> pod_Terminating n \<or> podStateToNodeState p \<noteq> podStateToNodeState n
          then pod_changed L new else None
      | _ \<Rightarrow> None)"

definition deployment_updated :: "k8s_deployment option \<Rightarrow> k8s_deployment option \<Rightarrow> string option" where
  "deployment_updated old new =
     (case (old, new) of
        (Some d, Some n) \<Rightarrow> if replicas d \<noteq> replicas n then Some (dep_Name n) else None
      | _ \<Rightarrow> None)"

text \<open>
  What the informers of \<open>RegisterListener\<close> see of the pods and deployments of nodes, and what is reported of it. The pod in
  a tombstone is the pod. There is a handler for deployments that are updated, and none for deployments that are added
  or deleted.
\<close>

datatype cluster_event =
    PodAdded pod
  | PodUpdated pod pod
  | PodDeleted pod
  | DeploymentAdded k8s_deployment
  | DeploymentUpdated k8s_deployment k8s_deployment
  | DeploymentDeleted k8s_deployment

fun c9s_RegisterListener :: "labels \<Rightarrow> cluster_event \<Rightarrow> string option" where
  "c9s_RegisterListener L (PodAdded p) = pod_changed L (Some p)"
| "c9s_RegisterListener L (PodUpdated p n) = pod_updated L (Some p) (Some n)"
| "c9s_RegisterListener L (PodDeleted p) = pod_changed L (Some p)"
| "c9s_RegisterListener L (DeploymentAdded d) = None"
| "c9s_RegisterListener L (DeploymentUpdated d n) = deployment_updated (Some d) (Some n)"
| "c9s_RegisterListener L (DeploymentDeleted d) = None"

text \<open>The statistics of a node, from the last sample of the stream from its pod, with the state of the reader.\<close>

definition c9s_ReadNodeStats ::
  "'f floats \<Rightarrow> (go_error + stats_sample) \<Rightarrow> int \<Rightarrow> string \<Rightarrow> string \<Rightarrow> (string \<rightharpoonup> 'f node_stats)
    \<Rightarrow> (go_error + 'f node_stats) \<times> (string \<rightharpoonup> 'f node_stats)" where
  "c9s_ReadNodeStats F sample now instanceName nodeName cache =
     reader_Read F (namespaceFor instanceName @ ''/'' @ nodeName) sample now cache"

text \<open>
  Dialling a node: the stage that fails, if one does, and whether the connection is closed then.
\<close>

datatype dial_stage = FindPod | RoundTripper | DialPod | ErrorStream | DataStream

definition c9s_DialNode :: "(dial_stage \<Rightarrow> go_error option) \<Rightarrow> string \<Rightarrow> string \<Rightarrow> unit result \<times> bool" where
  "c9s_DialNode fails namespace podName =
     (case find (\<lambda>stage. fails stage \<noteq> None) [FindPod, RoundTripper, DialPod, ErrorStream, DataStream] of
        None \<Rightarrow> (Inr (), False)
      | Some stage \<Rightarrow>
          (Inl (if stage = DialPod then Prefixed (''port-forward to '' @ namespace @ ''/'' @ podName) (the (fails stage))
                else the (fails stage)),
           stage = ErrorStream \<or> stage = DataStream))"

section \<open>Sessions\<close>

text \<open>
  A session in a pod. Its sizes go through a channel of eight, as numbers of 16 bits; one that does not fit is
  dropped. Sending on a closed channel and closing it again panic, \<open>None\<close> then.
\<close>

record kubernetesExecSession =
  ks_sizes :: "(16 word \<times> 16 word) list"
  ks_sizesClosed :: bool
  ks_stdinClosed :: bool
  ks_cancelled :: bool

definition open_session :: kubernetesExecSession where
  "open_session = \<lparr>ks_sizes = [], ks_sizesClosed = False, ks_stdinClosed = False, ks_cancelled = False\<rparr>"

definition sizeQueue_push :: "nat \<Rightarrow> nat \<Rightarrow> kubernetesExecSession \<Rightarrow> kubernetesExecSession option" where
  "sizeQueue_push cols rows s =
     (if ks_sizesClosed s then None
      else Some (if length (ks_sizes s) < 8 then s\<lparr>ks_sizes := ks_sizes s @ [(of_nat cols, of_nat rows)]\<rparr> else s))"

definition sizeQueue_Next :: "kubernetesExecSession \<Rightarrow> ((16 word \<times> 16 word) option \<times> kubernetesExecSession) option" where
  "sizeQueue_Next s =
     (case ks_sizes s of
        sz # szs \<Rightarrow> Some (Some sz, s\<lparr>ks_sizes := szs\<rparr>)
      | [] \<Rightarrow> if ks_sizesClosed s then Some (None, s) else None)"

definition ks_Close :: "kubernetesExecSession \<Rightarrow> kubernetesExecSession option" where
  "ks_Close s =
     (if ks_sizesClosed s then None
      else Some (s\<lparr>ks_stdinClosed := True, ks_cancelled := True, ks_sizesClosed := True\<rparr>))"

text \<open>How the stream of a session ends for its reader: a shell that exits is the end of its output.\<close>

definition session_end :: "stream_end \<Rightarrow> go_error option" where
  "session_end fin = (case fin of StreamError err \<Rightarrow> Some err | _ \<Rightarrow> None)"

text \<open>The session is there at once; what runs in the pod streams beside it, and its output ends the way the stream does.\<close>

definition c9s_ExecInteractive ::
  "'k cluster \<Rightarrow> string \<Rightarrow> string \<Rightarrow> string list \<Rightarrow> 'k \<Rightarrow> (pod \<times> kubernetesExecSession) result \<times> 'k" where
  "c9s_ExecInteractive K instanceName nodeName cmd =
     (let namespace = namespaceFor instanceName in
      seq (podForNode K namespace nodeName) (\<lambda>p.
      seq (createExec K namespace p cmd True) (\<lambda>_. ret (p, open_session))))"

definition stream_session :: "'k cluster \<Rightarrow> string \<Rightarrow> pod \<Rightarrow> string list \<Rightarrow> 'k \<Rightarrow> (string \<times> go_error option) \<times> 'k" where
  "stream_session K namespace p cmd k =
     (case Stream K namespace (pod_Name p) (deviceContainer p) cmd k of
        ((out, _, fin), k) \<Rightarrow> ((out, session_end fin), k))"

section \<open>Captures\<close>

definition captureSnapLength :: int where
  "captureSnapLength = 65536"

definition packetCaptureCommand :: "pod \<Rightarrow> string \<Rightarrow> string list result" where
  "packetCaptureCommand p interfaceName =
     (let nodeUID = pod_Annotations p ''c9s.run/direct-node-uid'';
          hasSidecar = list_ex (\<lambda>c. cs_Name c = ''clabwire'') (pod_Containers p)
      in if nodeUID = [] \<or> \<not> hasSidecar then Inl ErrCaptureNotSupported
         else Inr [''/clabernetes/manager'', ''node-runtime'', ''packet-capture'',
           ''--plan'', ''/var/run/clabernetes/plan/plan.json'', ''--input'', ''/var/run/clabernetes/input/input.json'',
           ''--connectivityRevision'', ''/var/run/clabernetes/connectivity-revision/revision.json'',
           ''--nodeID'', nodeUID, ''--interface'', interfaceName,
           ''--snapLength'', show_int captureSnapLength, ''--duration'', ''1h0m0s''])"

text \<open>\<open>reason_of\<close> is the reason in a line of JSON, empty when there is none or the line is no record.\<close>

definition captureRunError :: "(string \<Rightarrow> string) \<Rightarrow> go_error \<Rightarrow> string \<Rightarrow> go_error" where
  "captureRunError reason_of err errout =
     (case filter (\<lambda>r. r \<noteq> []) (map reason_of (split_on CHR 0x0A errout)) of
        [] \<Rightarrow> err | rs \<Rightarrow> Prefixed (last rs) err)"

text \<open>
  A run of the capture in the sidecar: it fails before the header of its stream, or streams packets until its time
  is over (\<open>None\<close>) or it fails. The capture reads the runs one after the other.
\<close>

datatype capture_run =
    NoHeader "go_error option"
  | Streaming "string list" "go_error option"

record sidecarCapture =
  sc_done :: "go_error option"
  sc_packets :: "string list"
  sc_end :: "go_error option"

definition startRun :: "capture_run \<Rightarrow> sidecarCapture \<Rightarrow> unit result \<times> sidecarCapture" where
  "startRun r c =
     (case sc_done c of
        Some err \<Rightarrow> (Inl err, c)
      | None \<Rightarrow>
          (case r of
             NoHeader None \<Rightarrow> (Inl (Foreign ''the capture ended before it started''), c)
           | NoHeader (Some err) \<Rightarrow> (Inl err, c)
           | Streaming packets err \<Rightarrow> (Inr (), c\<lparr>sc_packets := packets, sc_end := err\<rparr>)))"

text \<open>Reading a packet; \<open>None\<close> while the capture waits for a run.\<close>

fun sidecar_ReadPacketData :: "capture_run list \<Rightarrow> sidecarCapture \<Rightarrow> (string result \<times> capture_run list \<times> sidecarCapture) option" where
  "sidecar_ReadPacketData [] c =
     (case (sc_packets c, sc_end c) of
        (p # packets, _) \<Rightarrow> Some (Inr p, [], c\<lparr>sc_packets := packets\<rparr>)
      | ([], Some err) \<Rightarrow> Some (Inl err, [], c)
      | ([], None) \<Rightarrow> None)"
| "sidecar_ReadPacketData (r # rs) c =
     (case (sc_packets c, sc_end c) of
        (p # packets, _) \<Rightarrow> Some (Inr p, r # rs, c\<lparr>sc_packets := packets\<rparr>)
      | ([], Some err) \<Rightarrow> Some (Inl err, r # rs, c)
      | ([], None) \<Rightarrow>
          (case startRun r c of
             (Inl err, c) \<Rightarrow> Some (Inl err, rs, c)
           | (Inr _, c) \<Rightarrow> sidecar_ReadPacketData rs c))"

definition openSidecarCapture :: "capture_run \<Rightarrow> sidecarCapture result" where
  "openSidecarCapture r =
     (case startRun r \<lparr>sc_done = None, sc_packets = [], sc_end = None\<rparr> of
        (Inl err, _) \<Rightarrow> Inl err | (Inr _, c) \<Rightarrow> Inr c)"

text \<open>Closing ends the context and the stream that is read. It may be done again.\<close>

definition sidecar_Close :: "sidecarCapture \<Rightarrow> sidecarCapture" where
  "sidecar_Close c =
     c\<lparr>sc_done := Some (Foreign ''context canceled''), sc_packets := [],
       sc_end := Some (Foreign ''io: read/write on closed pipe'')\<rparr>"

text \<open>
  \<open>OpenCapture\<close>, where the run is what the sidecar streams once the command is started in it. A command that cannot
  be started ends its run before the header.
\<close>

definition connectivityContainer :: string where
  "connectivityContainer = ''clabwire''"

definition c9s_OpenCapture ::
  "'k cluster \<Rightarrow> (string \<Rightarrow> string) \<Rightarrow> capture_run \<Rightarrow> string \<Rightarrow> string \<Rightarrow> string \<Rightarrow> 'k \<Rightarrow> sidecarCapture result \<times> 'k" where
  "c9s_OpenCapture K reason_of r instanceName nodeName interfaceName =
     (let namespace = namespaceFor instanceName in
      seq (podForNode K namespace nodeName) (\<lambda>p.
      seq (lift (packetCaptureCommand p interfaceName)) (\<lambda>cmd.
      lift (openSidecarCapture
        (case NewExecutor K namespace (pod_Name p) connectivityContainer cmd False of
           Some err \<Rightarrow> NoHeader (Some (captureRunError reason_of err []))
         | None \<Rightarrow> r)))))"

end
