(* ===== verification/Clabernetes_Behaviour.thy ===== *)
theory Clabernetes_Behaviour
  imports Clabernetes Shell_Behaviour 
begin

text \<open>
  What the Kubernetes provider shows of a cluster, which changes it reports, how its waits end, what it leaves out
  of the definitions it deploys, and its sessions under the shell service.
\<close>

section \<open>Inspection\<close>

definition dep_key :: "labels \<Rightarrow> k8s_deployment \<Rightarrow> string" where
  "dep_key L d = node_key (dep_Namespace d) (dep_Labels d (LabelTopologyNode L))"

definition pod_key :: "labels \<Rightarrow> pod \<Rightarrow> string" where
  "pod_key L p = node_key (pod_Namespace p) (pod_Labels p (LabelTopologyNode L))"

definition stopped_deployments :: "k8s_deployment list \<Rightarrow> k8s_deployment list" where
  "stopped_deployments ds = filter (\<lambda>d. dep_Replicas d = Some 0) ds"

text \<open>
  The specification of \<open>inspect\<close>: the nodes that are scaled to zero, which are stopping as long as they have a pod, and
  then the pods of the other nodes that are not being replaced.
\<close>

definition shown_stopped :: "labels \<Rightarrow> string \<Rightarrow> string set \<Rightarrow> k8s_deployment \<Rightarrow> full_container" where
  "shown_stopped L f keys d =
     (stoppedDeploymentToInspectContainer L f d)\<lparr>ic_State := if dep_key L d \<in> keys then NodeStopping else NodeStopped\<rparr>"

definition lab_deployments :: "labels \<Rightarrow> k8s_deployment list \<Rightarrow> string \<Rightarrow> k8s_deployment list" where
  "lab_deployments L ds lab = filter (\<lambda>d. dep_Labels d (LabelTopologyOwner L) = lab) (stopped_deployments ds)"

definition lab_pods :: "labels \<Rightarrow> k8s_deployment list \<Rightarrow> pod list \<Rightarrow> string \<Rightarrow> pod list" where
  "lab_pods L ds ps lab = filter (\<lambda>p. pod_key L p \<notin> dep_key L ` set (stopped_deployments ds) \<and> \<not> pod_Terminating p \<and>
     pod_Labels p (LabelTopologyOwner L) = lab) ps"

definition inspect_spec :: "labels \<Rightarrow> string \<Rightarrow> pod list \<Rightarrow> k8s_deployment list \<Rightarrow> inspect_output" where
  "inspect_spec L f ps ds lab =
     map (shown_stopped L f (pod_key L ` set ps)) (lab_deployments L ds lab) @
     map (podToInspectContainer L f) (lab_pods L ds ps lab)"

lemma stopped_fields [simp]:
  "ic_Name (stoppedDeploymentToInspectContainer L f d) = dep_Labels d (LabelTopologyNode L)"
  "ic_LabName (stoppedDeploymentToInspectContainer L f d) = dep_Labels d (LabelTopologyOwner L)"
  "ic_State (stoppedDeploymentToInspectContainer L f d) = NodeStopped"
  by (simp_all add: stoppedDeploymentToInspectContainer_def)

lemma pod_fields [simp]:
  "ic_Name (podToInspectContainer L f p) = pod_Labels p (LabelTopologyNode L)"
  "ic_LabName (podToInspectContainer L f p) = pod_Labels p (LabelTopologyOwner L)"
  "ic_State (podToInspectContainer L f p) = podStateToNodeState p"
  by (simp_all add: podToInspectContainer_def)

lemma shown_stopped_none [simp]: "shown_stopped L f {} d = stoppedDeploymentToInspectContainer L f d"
  by (simp add: shown_stopped_def stoppedDeploymentToInspectContainer_def)

lemma stopped_snoc:
  "stopped_deployments (ds @ [d]) = stopped_deployments ds @ (if dep_Replicas d = Some 0 then [d] else [])"
  by (simp add: stopped_deployments_def)

lemma lab_deployments_snoc:
  "lab_deployments L (ds @ [d]) lab = lab_deployments L ds lab @
     (if dep_Replicas d = Some 0 \<and> dep_Labels d (LabelTopologyOwner L) = lab then [d] else [])"
  by (simp add: lab_deployments_def stopped_snoc)

text \<open>The index after the loop over the deployments finds each of them at its place.\<close>

definition index_ok :: "labels \<Rightarrow> k8s_deployment list \<Rightarrow> stopped_index \<Rightarrow> bool" where
  "index_ok L ds idx \<longleftrightarrow> dom idx = dep_key L ` set (stopped_deployments ds) \<and>
     (\<forall>k lab i. idx k = Some (lab, i) \<longrightarrow> i < length (lab_deployments L ds lab) \<and> dep_key L (lab_deployments L ds lab ! i) = k)"

lemma inspect_deployments:
  "\<exists>out idx. fold (inspect_deployment L f) ds (\<lambda>_. [], Map.empty) = (out, idx) \<and>
     (\<forall>lab. out lab = map (shown_stopped L f {}) (lab_deployments L ds lab)) \<and> index_ok L ds idx"
proof (induction ds rule: rev_induct)
  case Nil
  show ?case by (simp add: index_ok_def lab_deployments_def stopped_deployments_def)
next
  case (snoc d ds)
  then obtain out idx where IH: "fold (inspect_deployment L f) ds (\<lambda>_. [], Map.empty) = (out, idx)"
    "\<forall>lab. out lab = map (shown_stopped L f {}) (lab_deployments L ds lab)" "index_ok L ds idx" by blast
  show ?case
  proof (cases "dep_Replicas d = Some 0")
    case True
    let ?lab = "dep_Labels d (LabelTopologyOwner L)"
    let ?idx = "idx(dep_key L d \<mapsto> (?lab, length (lab_deployments L ds ?lab)))"
    have "index_ok L (ds @ [d]) ?idx"
      using IH(3) True unfolding index_ok_def
      by (auto simp: stopped_snoc lab_deployments_snoc nth_append dep_key_def less_SucI)
    moreover have "fold (inspect_deployment L f) (ds @ [d]) (\<lambda>_. [], Map.empty) =
        (out(?lab := out ?lab @ [stoppedDeploymentToInspectContainer L f d]), ?idx)"
      using True IH(2) by (simp add: IH(1) inspect_deployment_def add_container_def Let_def dep_key_def)
    ultimately show ?thesis using IH(2) True by (simp add: lab_deployments_snoc)
  next
    case False
    then have "inspect_deployment L f d acc = acc" for acc
      by (simp add: inspect_deployment_def split: prod.splits)
    then show ?thesis
      using IH False by (simp add: index_ok_def stopped_snoc lab_deployments_snoc)
  qed
qed

lemma distinct_key_index:
  assumes "distinct (map (dep_key L) (stopped_deployments ds))"
    and "i < length (lab_deployments L ds lab)" "j < length (lab_deployments L ds lab)"
    and "dep_key L (lab_deployments L ds lab ! i) = dep_key L (lab_deployments L ds lab ! j)"
  shows "i = j"
proof -
  have "distinct (map (dep_key L) (lab_deployments L ds lab))"
    using assms(1) by (auto simp: lab_deployments_def distinct_map inj_on_def)
  then show ?thesis using assms(2-4) by (auto simp: distinct_conv_nth)
qed

lemma inspect_pods:
  assumes idx: "index_ok L ds idx" and keys: "distinct (map (dep_key L) (stopped_deployments ds))"
    and out: "\<forall>lab. out lab = map (shown_stopped L f {}) (lab_deployments L ds lab)"
  shows "fold (inspect_pod L f idx) ps out lab = inspect_spec L f ps ds lab"
proof (induction ps arbitrary: lab rule: rev_induct)
  case Nil
  show ?case using out by (simp add: inspect_spec_def lab_pods_def)
next
  case (snoc p ps)
  let ?out = "fold (inspect_pod L f idx) ps out" and ?key = "pod_key L p"
  let ?shown = "\<lambda>keys lab. map (shown_stopped L f keys) (lab_deployments L ds lab)"
  have IH: "?out l = ?shown (pod_key L ` set ps) l @ map (podToInspectContainer L f) (lab_pods L ds ps l)" for l
    using snoc by (simp add: inspect_spec_def)
  have keys_snoc: "pod_key L ` set (ps @ [p]) = insert ?key (pod_key L ` set ps)" by simp
  show ?case
  proof (cases "idx ?key")
    case None
    then have new: "?key \<notin> dep_key L ` set (stopped_deployments ds)" using idx by (auto simp: index_ok_def)
    then have "dep_key L d \<noteq> ?key" if "d \<in> set (lab_deployments L ds l)" for d l
      using that new by (auto simp: lab_deployments_def image_iff)
    then have same: "?shown (insert ?key K) l = ?shown K l" for K l by (auto simp: shown_stopped_def)
    have step: "fold (inspect_pod L f idx) (ps @ [p]) out =
        (if pod_Terminating p then ?out else add_container (podToInspectContainer L f p) ?out)"
      using None by (simp add: inspect_pod_def pod_key_def)
    show ?thesis
      unfolding inspect_spec_def step keys_snoc same using new by (simp add: IH lab_pods_def add_container_def)
  next
    case (Some r)
    obtain l i where r: "r = (l, i)" by fastforce
    have i: "i < length (lab_deployments L ds l)" "dep_key L (lab_deployments L ds l ! i) = ?key"
      using idx Some r by (auto simp: index_ok_def)
    then have old: "?key \<in> dep_key L ` set (stopped_deployments ds)"
      by (metis (no_types, lifting) filter_is_subset image_eqI lab_deployments_def nth_mem subsetD)
    have l_only: "lab' = l" if "d \<in> set (lab_deployments L ds lab')" "dep_key L d = ?key" for d lab'
    proof -
      have "d \<in> set (stopped_deployments ds)" "lab_deployments L ds l ! i \<in> set (stopped_deployments ds)"
        using that(1) nth_mem [OF i(1)] by (auto simp: lab_deployments_def)
      then have "d = lab_deployments L ds l ! i"
        using keys i(2) that(2) by (simp add: distinct_map inj_on_def)
      then show ?thesis using that(1) nth_mem [OF i(1)] by (auto simp: lab_deployments_def)
    qed
    have here: "?shown (insert ?key K) l = (?shown K l)[i := (?shown K l ! i)\<lparr>ic_State := NodeStopping\<rparr>]" for K
    proof (intro nth_equalityI)
      fix j assume "j < length (?shown (insert ?key K) l)"
      then have j: "j < length (lab_deployments L ds l)" by simp
      show "?shown (insert ?key K) l ! j = ((?shown K l)[i := (?shown K l ! i)\<lparr>ic_State := NodeStopping\<rparr>]) ! j"
      proof (cases "j = i")
        case True
        then show ?thesis using i by (simp add: shown_stopped_def)
      next
        case False
        then have "dep_key L (lab_deployments L ds l ! j) \<noteq> ?key"
          using distinct_key_index [OF keys j i(1)] i(2) by auto
        then show ?thesis using False j by (simp add: shown_stopped_def)
      qed
    qed simp
    have elsewhere: "?shown (insert ?key K) lab' = ?shown K lab'" if "lab' \<noteq> l" for K lab'
      using l_only that by (auto simp: shown_stopped_def)
    have step: "fold (inspect_pod L f idx) (ps @ [p]) out =
        ?out(l := (?out l)[i := (?out l ! i)\<lparr>ic_State := NodeStopping\<rparr>])"
      using Some r by (simp add: inspect_pod_def pod_key_def)
    show ?thesis
    proof (cases "lab = l")
      case True
      show ?thesis
        unfolding True inspect_spec_def step keys_snoc here
        using old i(1) by (simp add: IH lab_pods_def nth_append list_update_append)
    next
      case False
      show ?thesis
        unfolding inspect_spec_def step keys_snoc elsewhere [OF False] using False old by (simp add: IH lab_pods_def)
    qed
  qed
qed

lemma inspect_shows_nodes_aux:
  assumes "distinct (map (dep_key L) (stopped_deployments ds))"
  shows "inspect_lists L f ps ds lab = inspect_spec L f ps ds lab"
proof -
  obtain out idx where "fold (inspect_deployment L f) ds (\<lambda>_. [], Map.empty) = (out, idx)"
    "\<forall>lab. out lab = map (shown_stopped L f {}) (lab_deployments L ds lab)" "index_ok L ds idx"
    using inspect_deployments by blast
  then show ?thesis using inspect_pods [OF _ assms] by (simp add: inspect_lists_def)
qed

text \<open>C22: An inspection of a cluster shows of each lab the nodes scaled to zero, as stopping while they still have a pod
  and as stopped otherwise, and the other nodes with the state of their pod, once for each pod that is not being replaced,
  if no two deployments are of the same node.\<close>

theorem inspect_shows_nodes:
  assumes "distinct (map (dep_key L) (stopped_deployments ds))"
  shows "inspect_lists L f ps ds lab = inspect_spec L f ps ds lab"
  by (rule inspect_shows_nodes_aux [OF assms])

section \<open>Changes\<close>

definition node_view :: "full_container list \<Rightarrow> (string \<times> node_state) list" where
  "node_view cs = map (\<lambda>c. (ic_Name c, ic_State c)) cs"

text \<open>
  The changes of the pods and deployments of nodes that the informers see: one is added, updated or deleted. An object
  keeps its namespace and the labels of its node and its lab as long as it is there.
\<close>

definition same_node :: "labels \<Rightarrow> (string \<Rightarrow> string) \<Rightarrow> (string \<Rightarrow> string) \<Rightarrow> bool" where
  "same_node L ls ls' \<longleftrightarrow> ls (LabelTopologyNode L) = ls' (LabelTopologyNode L) \<and> ls (LabelTopologyOwner L) = ls' (LabelTopologyOwner L)"

inductive cluster_change ::
  "labels \<Rightarrow> cluster_event \<Rightarrow> pod list \<times> k8s_deployment list \<Rightarrow> pod list \<times> k8s_deployment list \<Rightarrow> bool" for L where
  pod_added: "cluster_change L (PodAdded p) (us @ vs, ds) (us @ p # vs, ds)"
| pod_updated: "pod_Namespace n = pod_Namespace p \<Longrightarrow> same_node L (pod_Labels n) (pod_Labels p) \<Longrightarrow>
    cluster_change L (PodUpdated p n) (us @ p # vs, ds) (us @ n # vs, ds)"
| pod_deleted: "cluster_change L (PodDeleted p) (us @ p # vs, ds) (us @ vs, ds)"
| deployment_added: "cluster_change L (DeploymentAdded d) (ps, us @ vs) (ps, us @ d # vs)"
| deployment_updated: "dep_Namespace n = dep_Namespace d \<Longrightarrow> same_node L (dep_Labels n) (dep_Labels d) \<Longrightarrow>
    cluster_change L (DeploymentUpdated d n) (ps, us @ d # vs) (ps, us @ n # vs)"
| deployment_deleted: "cluster_change L (DeploymentDeleted d) (ps, us @ d # vs) (ps, us @ vs)"

text \<open>What of the pods and deployments an inspection takes the nodes and their states from.\<close>

definition pods_view :: "labels \<Rightarrow> pod list \<Rightarrow> (string \<times> string \<times> string \<times> bool \<times> node_state) list" where
  "pods_view L ps = map (\<lambda>p. (pod_Namespace p, pod_Labels p (LabelTopologyNode L), pod_Labels p (LabelTopologyOwner L),
     pod_Terminating p, podStateToNodeState p)) ps"

definition deployments_view :: "labels \<Rightarrow> k8s_deployment list \<Rightarrow> (string \<times> string \<times> string) list" where
  "deployments_view L ds = map (\<lambda>d. (dep_Namespace d, dep_Labels d (LabelTopologyNode L), dep_Labels d (LabelTopologyOwner L)))
     (stopped_deployments ds)"

lemma view_of_pods:
  "pod_key L ` set ps = (\<lambda>(ns, node, _). node_key ns node) ` set (pods_view L ps)"
  "node_view (map (podToInspectContainer L f) (lab_pods L ds ps lab)) =
     map (\<lambda>(_, node, _, _, st). (node, st)) (filter (\<lambda>(ns, node, l, t, _).
       node_key ns node \<notin> dep_key L ` set (stopped_deployments ds) \<and> \<not> t \<and> l = lab) (pods_view L ps))"
  by (induction ps) (auto simp: pods_view_def pod_key_def node_view_def lab_pods_def image_iff)

lemma view_of_deployments:
  "map (dep_key L) (stopped_deployments ds) = map (\<lambda>(ns, node, _). node_key ns node) (deployments_view L ds)"
  "dep_key L ` set (stopped_deployments ds) = (\<lambda>(ns, node, _). node_key ns node) ` set (deployments_view L ds)"
  "node_view (map (shown_stopped L f K) (lab_deployments L ds lab)) =
     map (\<lambda>(ns, node, _). (node, if node_key ns node \<in> K then NodeStopping else NodeStopped))
       (filter (\<lambda>(_, _, l). l = lab) (deployments_view L ds))"
  by (induction ds) (auto simp: deployments_view_def stopped_deployments_def dep_key_def node_view_def lab_deployments_def
      shown_stopped_def)

lemma inspected_view:
  assumes "distinct (map (dep_key L) (stopped_deployments ds))"
    and "pods_view L ps' = pods_view L ps" "deployments_view L ds' = deployments_view L ds"
  shows "node_view (inspect_lists L f ps' ds' lab) = node_view (inspect_lists L f ps ds lab)"
proof -
  have "node_view (inspect_spec L f ps' ds' lab) = node_view (inspect_spec L f ps ds lab)"
    using view_of_pods(2) [of L f ds' ps' lab] view_of_pods(2) [of L f ds ps lab]
      view_of_deployments(3) [of L f _ ds' lab] view_of_deployments(3) [of L f _ ds lab]
      view_of_pods(1) [of L ps'] view_of_pods(1) [of L ps] view_of_deployments(2) [of L ds'] view_of_deployments(2) [of L ds]
      assms(2,3)
    by (simp add: inspect_spec_def node_view_def)
  moreover have "distinct (map (dep_key L) (stopped_deployments ds'))"
    using assms(1,3) by (simp add: view_of_deployments(1))
  ultimately show ?thesis using assms(1) by (simp add: inspect_shows_nodes_aux)
qed

lemma unreported_views:
  assumes "cluster_change L ev (ps, ds) (ps', ds')" "c9s_RegisterListener L ev = None"
    and "\<nexists>d. dep_Replicas d = Some 0 \<and> (ev = DeploymentAdded d \<or> ev = DeploymentDeleted d)"
  shows "pods_view L ps' = pods_view L ps \<and> deployments_view L ds' = deployments_view L ds"
  using assms
  by (cases rule: cluster_change.cases)
    (auto simp: pods_view_def deployments_view_def stopped_deployments_def pod_changed_def pod_updated_def
      deployment_updated_def replicas_def same_node_def split: if_splits option.splits)

text \<open>C23: When a pod or a deployment of a node is added, updated or deleted and the provider does not report it, an inspection
  shows the same nodes in the same states as before, unless what was added or deleted is a deployment scaled to zero.\<close>

theorem unreported_changes_not_seen:
  assumes "cluster_change L ev (ps, ds) (ps', ds')" "c9s_RegisterListener L ev = None"
    and "distinct (map (dep_key L) (stopped_deployments ds))"
    and "\<nexists>d. dep_Replicas d = Some 0 \<and> (ev = DeploymentAdded d \<or> ev = DeploymentDeleted d)"
  shows "node_view (inspect_lists L f ps' ds' lab) = node_view (inspect_lists L f ps ds lab)"
  using inspected_view [OF assms(3)] unreported_views [OF assms(1,2,4)] by blast

text \<open>The exception is one: nothing is reported when the deployment of a stopped node is deleted, and the node is gone.\<close>

lemma deleted_deployment_unreported:
  assumes "distinct (map (dep_key L) (stopped_deployments (us @ d # vs)))" "dep_Replicas d = Some 0"
    and "\<forall>e \<in> set (us @ vs) . dep_Labels e (LabelTopologyNode L) \<noteq> dep_Labels d (LabelTopologyNode L)"
    and "\<forall>p \<in> set ps. pod_Labels p (LabelTopologyNode L) \<noteq> dep_Labels d (LabelTopologyNode L)"
  defines "lab \<equiv> dep_Labels d (LabelTopologyOwner L)"
  shows "c9s_RegisterListener L (DeploymentDeleted d) = None \<and>
    dep_Labels d (LabelTopologyNode L) \<in> fst ` set (node_view (inspect_lists L f ps (us @ d # vs) lab)) \<and>
    dep_Labels d (LabelTopologyNode L) \<notin> fst ` set (node_view (inspect_lists L f ps (us @ vs) lab))"
proof -
  have "distinct (map (dep_key L) (stopped_deployments (us @ vs)))"
    using assms(1) by (auto simp: stopped_deployments_def split: if_splits)
  then have "fst ` set (node_view (inspect_lists L f ps (us @ vs) lab)) =
      fst ` set (node_view (inspect_spec L f ps (us @ vs) lab))" by (simp add: inspect_shows_nodes_aux)
  also have "dep_Labels d (LabelTopologyNode L) \<notin> \<dots>"
    using assms(3,4) by (auto simp: node_view_def inspect_spec_def lab_deployments_def lab_pods_def stopped_deployments_def shown_stopped_def)
  finally show ?thesis
    using assms(2) inspect_shows_nodes_aux [OF assms(1), of f ps lab]
    by (auto simp: lab_def node_view_def inspect_spec_def lab_deployments_def stopped_deployments_def shown_stopped_def image_iff)
qed

section \<open>Waiting\<close>

text \<open>A poll that does not end the wait: it sees the topology, neither failed nor ready.\<close>

definition poll_says :: "string \<Rightarrow> topology_poll \<Rightarrow> bool result" where
  "poll_says instanceName q = (case tp_topology q of Inl err \<Rightarrow> Inl err | Inr st \<Rightarrow> poll_result instanceName st)"

fun first_verdict :: "string \<Rightarrow> topology_poll list \<Rightarrow> go_error option" where
  "first_verdict i [] = Some deadline_exceeded"
| "first_verdict i (q # qs) =
     (case poll_says i q of Inl err \<Rightarrow> Some err | Inr True \<Rightarrow> None | Inr False \<Rightarrow> first_verdict i qs)"

lemma poll_topology_verdict: "fst (poll_topology L clk n i since qs lr sent) = first_verdict i qs"
proof (induction qs arbitrary: lr sent)
  case (Cons q qs)
  obtain evs s where "forwardDeployEvents L clk since (tp_events q) (tp_pods q) sent = (evs, s)" by fastforce
  then show ?case
    using Cons by (cases "tp_topology q") (simp_all add: poll_says_def Let_def case_prod_beta split: sum.split bool.split)
qed simp

lemma first_verdict_None:
  "first_verdict i qs = None \<longleftrightarrow>
     (\<exists>us q vs. qs = us @ q # vs \<and> (\<forall>u \<in> set us. poll_says i u = Inr False) \<and> poll_says i q = Inr True)"
proof (induction qs)
  case (Cons a qs)
  show ?case
  proof (cases "poll_says i a = Inr False")
    case True
    have "(\<exists>us q vs. a # qs = us @ q # vs \<and> (\<forall>u \<in> set us. poll_says i u = Inr False) \<and> poll_says i q = Inr True) \<longleftrightarrow>
        (\<exists>us q vs. qs = us @ q # vs \<and> (\<forall>u \<in> set us. poll_says i u = Inr False) \<and> poll_says i q = Inr True)"
      (is "?l \<longleftrightarrow> ?r")
    proof
      assume ?l
      then obtain us q vs where "a # qs = us @ q # vs" "\<forall>u \<in> set us. poll_says i u = Inr False" "poll_says i q = Inr True"
        by blast
      then show ?r using True by (cases us) auto
    next
      assume ?r
      then obtain us q vs where "qs = us @ q # vs" "\<forall>u \<in> set us. poll_says i u = Inr False" "poll_says i q = Inr True"
        by blast
      then have "a # qs = (a # us) @ q # vs" "\<forall>u \<in> set (a # us). poll_says i u = Inr False" using True by simp_all
      then show ?l using \<open>poll_says i q = Inr True\<close> by blast
    qed
    then show ?thesis using True Cons by simp
  next
    case False
    then have "(\<exists>us q vs. a # qs = us @ q # vs \<and> (\<forall>u \<in> set us. poll_says i u = Inr False) \<and> poll_says i q = Inr True) \<longleftrightarrow>
        poll_says i a = Inr True"
      by (auto simp: Cons_eq_append_conv) (metis append_Nil empty_iff empty_set)
    then show ?thesis using False by (auto split: sum.splits bool.splits)
  qed
qed simp

text \<open>The wait of a deployment succeeds exactly when some poll in time sees the lab running, or all its nodes ready, and
  no poll before sees an error or a failed deployment.\<close>

theorem deployment_waits_for_ready:
  "fst (waitForTopologyReady L clk namespace i now qs) = None \<longleftrightarrow>
     (\<exists>us q vs. qs = us @ q # vs \<and> (\<forall>u \<in> set us. poll_says i u = Inr False) \<and> poll_says i q = Inr True)"
  by (simp add: waitForTopologyReady_def poll_topology_verdict first_verdict_None)

section \<open>Labels\<close>

text \<open>What is at the end of a path of keys; of a map only that it is one.\<close>

fun at_path :: "string list \<Rightarrow> yaml_value \<Rightarrow> yaml_value option" where
  "at_path [] v = Some v"
| "at_path (k # ks) (YMap m) = (case map_of m k of None \<Rightarrow> None | Some v \<Rightarrow> at_path ks v)"
| "at_path (k # ks) (YList vs) = None"
| "at_path (k # ks) (YScalar s) = None"

fun leaf :: "yaml_value \<Rightarrow> yaml_value" where
  "leaf (YMap m) = YMap []"
| "leaf v = v"

definition shown_at :: "string list \<Rightarrow> yaml_value \<Rightarrow> yaml_value option" where
  "shown_at p v = map_option leaf (at_path p v)"

text \<open>The paths to labels and below them.\<close>

definition label_path :: "string list \<Rightarrow> bool" where
  "label_path p \<longleftrightarrow> take 3 p = [''topology'', ''defaults'', ''labels''] \<or>
     (4 \<le> length p \<and> p ! 0 = ''topology'' \<and> p ! 1 \<in> set label_sections \<and> p ! 3 = ''labels'')"

lemma map_of_on_key: "map_of (on_key k f m) k' = map_option (\<lambda>v. if k' = k then f v else v) (map_of m k')"
  by (induction m) (auto simp: on_key_def)

lemma map_of_delete_key: "map_of (delete_key k m) k' = (if k' = k then None else map_of m k')"
  by (induction m) (auto simp: delete_key_def)

lemma map_of_map_snd: "map_of (map (\<lambda>(n, e). (n, h e)) m) k = map_option h (map_of m k)"
  by (induction m) auto

lemma leaf_on_map [simp]: "leaf (on_map f v) = leaf v"
  by (cases v) auto

lemma shown_on_map:
  "shown_at [] (on_map f v) = shown_at [] v"
  "shown_at (k # ks) (on_map f v) =
     (case v of YMap m \<Rightarrow> (case map_of (f m) k of None \<Rightarrow> None | Some w \<Rightarrow> shown_at ks w) | _ \<Rightarrow> None)"
  by (cases v; simp add: shown_at_def split: option.split)+

lemma shown_Cons:
  "shown_at (k # ks) v = (case v of YMap m \<Rightarrow> (case map_of m k of None \<Rightarrow> None | Some w \<Rightarrow> shown_at ks w) | _ \<Rightarrow> None)"
  by (cases v) (auto simp: shown_at_def split: option.split)

lemma shown_without_labels:
  "shown_at ks (on_map (delete_key k) v) = (if ks \<noteq> [] \<and> hd ks = k then None else shown_at ks v)"
  by (cases ks) (auto simp: shown_on_map map_of_delete_key shown_Cons split: yaml_value.split option.split)

definition strip_entry :: "string \<Rightarrow> yaml_value \<Rightarrow> yaml_value" where
  "strip_entry k =
     (if k = ''defaults'' then on_map (delete_key ''labels'')
      else if k \<in> set label_sections then on_map (map (\<lambda>(n, entry). (n, on_map (delete_key ''labels'') entry)))
      else id)"

lemma map_of_strip_topology:
  "map_of (fold strip_section label_sections (on_key ''defaults'' (on_map (delete_key ''labels'')) m)) k =
     map_option (strip_entry k) (map_of m k)"
  by (cases "map_of m k") (auto simp: label_sections_def strip_section_def map_of_on_key strip_entry_def)

lemma shown_section:
  "shown_at ks (on_map (map (\<lambda>(n, entry). (n, on_map (delete_key ''labels'') entry))) v) =
     (if 2 \<le> length ks \<and> ks ! 1 = ''labels'' then None else shown_at ks v)"
proof (cases ks)
  case (Cons n ks')
  then show ?thesis
    by (cases v; cases ks')
       (auto simp: shown_on_map map_of_map_snd shown_without_labels shown_Cons [of n] split: option.split)
qed (simp add: shown_on_map)

lemma shown_strip_entry:
  "shown_at ks (strip_entry k v) = (if label_path (''topology'' # k # ks) then None else shown_at ks v)"
proof (cases "k = ''defaults''")
  case True
  then show ?thesis
    by (cases ks) (auto simp: strip_entry_def shown_without_labels label_path_def label_sections_def numeral_3_eq_3)
next
  case False
  then show ?thesis
    by (auto simp: strip_entry_def shown_section label_path_def numeral_3_eq_3 numeral_2_eq_2)
qed

text \<open>C40: Before a topology is deployed, exactly the labels of its defaults, kinds, groups and nodes are removed; everything
  else stays where it is and as it is.\<close>

theorem exactly_labels_stripped:
  "shown_at p (YMap (strip_labels m)) = (if label_path p then None else shown_at p (YMap m))"
proof (cases p)
  case Nil
  then show ?thesis by (simp add: shown_at_def label_path_def)
next
  case (Cons k ks)
  show ?thesis
  proof (cases "k = ''topology''")
    case False
    then show ?thesis
      using Cons by (auto simp: shown_Cons strip_labels_def map_of_on_key label_path_def split: option.split)
  next
    case True
    then have p: "p = ''topology'' # ks" using Cons by simp
    show ?thesis
    proof (cases ks)
      case Nil
      then show ?thesis
        by (simp add: p shown_Cons strip_labels_def map_of_on_key label_path_def shown_on_map split: option.split)
    next
      case (Cons k2 ks2)
      show ?thesis
        by (auto simp: p Cons shown_Cons [of "''topology''"] strip_labels_def map_of_on_key shown_on_map
            map_of_strip_topology shown_strip_entry shown_Cons [of k2] split: option.split yaml_value.split)
    qed
  qed
qed

section \<open>Captures\<close>

fun read_packets :: "nat \<Rightarrow> capture_run list \<Rightarrow> sidecarCapture \<Rightarrow> string list" where
  "read_packets 0 rs c = []"
| "read_packets (Suc n) rs c =
     (case sidecar_ReadPacketData rs c of
        Some (Inr p, rs, c) \<Rightarrow> p # read_packets n rs c
      | _ \<Rightarrow> [])"

lemma next_packet:
  assumes "sc_done c = None" "sc_end c = None"
    and "sc_packets c @ concat pss = p # ps"
  shows "\<exists>c' qss. sidecar_ReadPacketData (map (\<lambda>ps. Streaming ps None) pss) c =
      Some (Inr p, map (\<lambda>ps. Streaming ps None) qss, c') \<and> sc_done c' = None \<and> sc_end c' = None \<and>
      sc_packets c' @ concat qss = ps"
  using assms
proof (induction pss arbitrary: c)
  case Nil
  then show ?case by (intro exI [of _ "c\<lparr>sc_packets := ps\<rparr>"] exI [of _ "[]"]) simp
next
  case (Cons qs pss)
  show ?case
  proof (cases "sc_packets c")
    case Nil
    then show ?thesis
      using Cons.IH [of "c\<lparr>sc_packets := qs, sc_end := None\<rparr>"] Cons.prems by (simp add: startRun_def)
  next
    case (Cons q qs')
    then show ?thesis
      using Cons.prems by (intro exI [of _ "c\<lparr>sc_packets := qs'\<rparr>"] exI [of _ "qs # pss"]) auto
  qed
qed

text \<open>A capture that is not closed goes on over the runs that end at their time bound: what is read from it are the
  packets of all runs, in order, without loss or repetition.\<close>

theorem capture_joins_runs:
  assumes "openSidecarCapture (Streaming ps None) = Inr c" "n \<le> length (ps @ concat pss)"
  shows "read_packets n (map (\<lambda>ps. Streaming ps None) pss) c = take n (ps @ concat pss)"
proof -
  have "read_packets n (map (\<lambda>ps. Streaming ps None) pss) c = take n (sc_packets c @ concat pss)"
    if "sc_done c = None" "sc_end c = None" "n \<le> length (sc_packets c @ concat pss)" for n pss c
    using that
  proof (induction n arbitrary: pss c)
    case (Suc n)
    then obtain p ps where p: "sc_packets c @ concat pss = p # ps" by (cases "sc_packets c @ concat pss") auto
    obtain c' qss where "sidecar_ReadPacketData (map (\<lambda>ps. Streaming ps None) pss) c =
        Some (Inr p, map (\<lambda>ps. Streaming ps None) qss, c')" "sc_done c' = None" "sc_end c' = None"
        "sc_packets c' @ concat qss = ps"
      using next_packet [OF Suc.prems(1,2) p] by blast
    then show ?case using Suc.IH [of c' qss] Suc.prems(3) by (simp add: p)
  qed simp
  moreover have "sc_done c = None \<and> sc_end c = None \<and> sc_packets c = ps"
    using assms(1) by (auto simp: openSidecarCapture_def startRun_def)
  ultimately show ?thesis using assms(2) by simp
qed

section \<open>Sessions under the shell service\<close>

text \<open>A session of a pod after \<open>Close\<close> was called on it a number of times.\<close>

fun close_times :: "nat \<Rightarrow> kubernetesExecSession \<Rightarrow> kubernetesExecSession option" where
  "close_times 0 s = Some s"
| "close_times (Suc n) s = Option.bind (close_times n s) ks_Close"

lemma close_once_only:
  "\<not> ks_sizesClosed p \<Longrightarrow> close_times 1 p \<noteq> None"
  "close_times (Suc (Suc n)) p = None"
  by (auto simp: ks_Close_def bind_eq_None_conv split: bind_splits)

lemma capture_closed_again: "sidecar_Close (sidecar_Close c) = sidecar_Close c"
  by (simp add: sidecar_Close_def)

text \<open>The sessions of the provider: there is none over SSH.\<close>

definition opened_in_pod :: "(memory, string) shell_reply" where
  "opened_in_pod = Opened (\<lambda>_. Some (Foreign ''no route to host'')) None 0"

definition the_end :: string where
  "the_end = ''The connection has been terminated''"

lemma closed_twice_run:
  assumes "find_shell_node demo_lab_env [''l1''] ''l1'' (Some ''r1'') (Some 80) (Some 24) demo_login w = Inr x"
  shows "\<exists>s. shell_follow demo_shell_env
      [demo_open, SMove 1 (SeenServer [''l1''] w), SMove 1 Go, SMove 1 opened_in_pod, SMove 1 Go,
       SBegin (CloseCall (Some []) demo_login), SMove 3 Go, SMove 2 ReadEOF, SMove 2 Go,
       SMove 3 Go, SMove 3 (Called None 0)] shell_start =
      Some ([ManagerRound, ShellReturned (Inr []), CloseRun 0 the_end, ShellReturned (Inr [])], s) \<and>
      length (shellHeap s) = 1 \<and> sc_session (shellHeap s ! 0) = OverProvider \<and> sc_closeCalls (shellHeap s ! 0) = 1"
  using assms
  by (simp add: shell_run_simps opened_in_pod_def the_end_def control_data_def find_own_shell_def shell_entry_def)

text \<open>C39: A user may close a shell with a session in a pod while the session ends by itself. Then the service reaches a state
  in which the call has closed the session and returned and the reader of the shell is about to close it, and the next
  step of the reader calls \<open>Close\<close> on it a second time. Of a session in a pod, in whatever state it was, the first of
  the two calls returns and the second panics, in the goroutine of the reader, which does not recover.\<close>

theorem second_close_panics:
  "\<exists>ps s s'. shell_reachable demo_shell_env (ps, s) \<and> length ps = 4 \<and>
     ps ! 3 = ShellReturned (Inr []) \<and> ps ! 2 = CloseRun 0 the_end \<and> sc_session (shellHeap s ! 0) = OverProvider \<and>
     shell_exec demo_shell_env (ps ! 2) (Called None 0) s = Some (ShellReturned (Inr []), [], s') \<and>
     shell_step demo_shell_env (ps, s) (ps[2 := ShellReturned (Inr [])], s') \<and>
     (\<forall>p. close_times (sc_closeCalls (shellHeap s ! 0)) (p\<lparr>ks_sizesClosed := False\<rparr>) \<noteq> None \<and>
        close_times (sc_closeCalls (shellHeap s' ! 0)) (p\<lparr>ks_sizesClosed := False\<rparr>) = None)"
proof -
  obtain w :: "(memory, string) server" and x where
    "find_shell_node demo_lab_env [''l1''] ''l1'' (Some ''r1'') (Some 80) (Some 24) demo_login w = Inr x"
    by (rule demo_node_found)
  from closed_twice_run [OF this] shell_follow_reachable obtain s where
    s: "shell_reachable demo_shell_env ([ManagerRound, ShellReturned (Inr []), CloseRun 0 the_end, ShellReturned (Inr [])], s)"
      "length (shellHeap s) = 1" "sc_session (shellHeap s ! 0) = OverProvider" "sc_closeCalls (shellHeap s ! 0) = 1"
    by blast
  let ?ps = "[ManagerRound, ShellReturned (Inr []), CloseRun 0 the_end, ShellReturned (Inr [])]"
  let ?s = "closeShell 0 the_end s"
  have "shell_exec demo_shell_env (?ps ! 2) (Called None 0) s = Some (ShellReturned (Inr []), [], ?s)"
    by (simp add: returned_def shell_goto_def)
  moreover from shell_step.shell_run [OF _ this]
  have "shell_step demo_shell_env (?ps, s) (?ps[2 := ShellReturned (Inr [])], ?s)" by simp
  moreover have "sc_closeCalls (shellHeap ?s ! 0) = Suc (Suc 0)"
    using s(2,4) by (simp add: closeShell_def on_shell_def shellConfig_Close_def)
  ultimately show ?thesis
    using s close_once_only(2) [of 0] close_once_only(1)
    by (intro exI [of _ ?ps] exI [of _ s] exI [of _ ?s]) (simp del: close_times.simps)
qed

section \<open>Concrete inputs\<close>

definition ex_labels :: labels where
  "ex_labels = \<lparr>LabelTopologyNode = ''n'', LabelTopologyOwner = ''o'', LabelIgnoreReconcile = ''i''\<rparr>"

definition ex_map :: "string \<Rightarrow> string \<Rightarrow> string \<Rightarrow> string" where
  "ex_map node lab k = (if k = ''n'' then node else if k = ''o'' then lab else [])"

definition ex_pod :: "string \<Rightarrow> pod" where
  "ex_pod node = \<lparr>pod_Name = node @ ''-0'', pod_Namespace = ''c9s-a'', pod_UID = ''u'', pod_Labels = ex_map node ''a'',
     pod_Annotations = (\<lambda>_. []), pod_Terminating = False, pod_Phase = PodRunning, pod_Conditions = [(''Ready'', ''True'')],
     pod_Containers = [], pod_Running = [], pod_IPs = []\<rparr>"

definition ex_deployment :: "string \<Rightarrow> int \<Rightarrow> k8s_deployment" where
  "ex_deployment node n = \<lparr>dep_Name = node, dep_Namespace = ''c9s-a'', dep_Labels = ex_map node ''a'',
     dep_Replicas = Some n, dep_Containers = []\<rparr>"

lemmas ex_cluster_simps = ex_labels_def ex_map_def ex_pod_def ex_deployment_def stopped_deployments_def
  inspect_spec_def lab_deployments_def lab_pods_def shown_stopped_def dep_key_def pod_key_def node_key_def
  podStateToNodeState_def node_view_def

theorem inspect_shows_nodes_witness:
  "node_view (inspect_lists ex_labels ''f'' [ex_pod ''r1'', ex_pod ''r2''] [ex_deployment ''r1'' 0, ex_deployment ''r2'' 1, ex_deployment ''r3'' 0] ''a'') =
     [(''r1'', NodeStopping), (''r3'', NodeStopped), (''r2'', NodeRunning)]"
  by (subst inspect_shows_nodes) (simp_all add: ex_cluster_simps)

theorem unreported_changes_not_seen_witness:
  "cluster_change ex_labels (PodUpdated (ex_pod ''r1'') ((ex_pod ''r1'')\<lparr>pod_UID := ''v''\<rparr>))
     ([ex_pod ''r1''], [ex_deployment ''r3'' 0]) ([(ex_pod ''r1'')\<lparr>pod_UID := ''v''\<rparr>], [ex_deployment ''r3'' 0]) \<and>
   node_view (inspect_lists ex_labels ''f'' [(ex_pod ''r1'')\<lparr>pod_UID := ''v''\<rparr>] [ex_deployment ''r3'' 0] ''a'') =
     [(''r3'', NodeStopped), (''r1'', NodeRunning)]"
proof -
  let ?n = "(ex_pod ''r1'')\<lparr>pod_UID := ''v''\<rparr>"
  have c: "cluster_change ex_labels (PodUpdated (ex_pod ''r1'') ?n) ([ex_pod ''r1''], [ex_deployment ''r3'' 0]) ([?n], [ex_deployment ''r3'' 0])"
    using cluster_change.pod_updated [of ?n "ex_pod ''r1''" ex_labels "[]" "[]"] by (simp add: same_node_def)
  have "node_view (inspect_lists ex_labels ''f'' [?n] [ex_deployment ''r3'' 0] ''a'') =
      node_view (inspect_lists ex_labels ''f'' [ex_pod ''r1''] [ex_deployment ''r3'' 0] ''a'')"
    by (rule unreported_changes_not_seen [OF c]) (simp_all add: ex_cluster_simps pod_updated_def)
  also have "\<dots> = [(''r3'', NodeStopped), (''r1'', NodeRunning)]"
    by (subst inspect_shows_nodes_aux) (simp_all add: ex_cluster_simps)
  finally show ?thesis using c by simp
qed

theorem capture_joins_runs_witness:
  "read_packets 3 [Streaming [] None, Streaming [''b'', ''c''] None] \<lparr>sc_done = None, sc_packets = [''a''], sc_end = None\<rparr> =
     [''a'', ''b'', ''c'']"
  using capture_joins_runs [of "[''a'']" "\<lparr>sc_done = None, sc_packets = [''a''], sc_end = None\<rparr>" 3 "[[], [''b'', ''c'']]"]
  by (simp add: openSidecarCapture_def startRun_def)

end
