(* ===== verification/Transport.thy ===== *)
theory Transport
  imports Instances "HOL-Library.AList" "HOL-Library.Char_ord" "HOL-Library.List_Lexorder"
begin

text \<open>
  What the API sends: the objects of \<open>src/transport/*.go\<close> made from the entities and the instances, the entries of
  \<open>src/domain/device\<close> and \<open>src/domain/serverconfig\<close>, and the response a handler writes. \<open>None\<close> is the panic of
  a nil pointer.
\<close>

section \<open>Users and collections\<close>

record user_out =
  uo_ID :: string
  uo_Name :: string

definition UserToOut :: "user \<Rightarrow> user_out" where
  "UserToOut u = \<lparr>uo_ID = user_UUID u, uo_Name = user_Name u\<rparr>"

record collection_out =
  co_ID :: string
  co_Name :: string
  co_PublicWrite :: bool
  co_PublicDeploy :: bool
  co_Creator :: user_out

definition CollectionToOut :: "collection \<Rightarrow> collection_out" where
  "CollectionToOut c = \<lparr>co_ID = coll_UUID c, co_Name = coll_Name c, co_PublicWrite = coll_PublicWrite c,
     co_PublicDeploy = coll_PublicDeploy c, co_Creator = UserToOut (coll_Creator c)\<rparr>"

section \<open>Topologies\<close>

record bind_file_out =
  bo_ID :: string
  bo_Content :: string
  bo_FilePath :: string
  bo_TopologyId :: string

definition BindFileToOut :: "bind_file_full \<Rightarrow> bind_file_out" where
  "BindFileToOut b = \<lparr>bo_ID = bf_ID b, bo_Content = bf_Content b, bo_FilePath = bf_FilePath b,
     bo_TopologyId = topo_UUID (bf_Topology b)\<rparr>"

record topology_out =
  to_ID :: string
  to_Definition :: string
  to_Annotations :: string
  to_SyncUrl :: string
  to_CollectionId :: string
  to_Creator :: user_out
  to_BindFiles :: "bind_file_out list"
  to_LastDeployFailed :: bool
  to_PolicyFindings :: "finding list"

definition TopologyToOut :: "topology_full \<Rightarrow> topology_out" where
  "TopologyToOut t =
     \<lparr>to_ID = tf_ID t, to_Definition = tf_Definition t, to_Annotations = tf_Annotations t,
      to_SyncUrl = tf_SyncUrl t, to_CollectionId = coll_UUID (tf_Collection t), to_Creator = UserToOut (tf_Creator t),
      to_BindFiles = map BindFileToOut (tf_BindFiles t), to_LastDeployFailed = tf_LastDeployFailed t,
      to_PolicyFindings = tf_PolicyFindings t\<rparr>"

section \<open>Instances and labs\<close>

text \<open>The nodes are those of the map, in the order of their names.\<close>

record instance_out =
  io_Name :: string
  io_Deployed :: int
  io_State :: instance_state
  io_LatestStateChange :: int
  io_Nodes :: "instance_node list"
  io_IsRecovered :: bool

definition InstanceToOut :: "runtime_instance \<Rightarrow> string \<Rightarrow> instance_out" where
  "InstanceToOut i instanceName =
     \<lparr>io_Name = instanceName, io_Deployed = i_Deployed i, io_State = i_State i,
      io_LatestStateChange = i_LatestStateChange i, io_Nodes = sort_key n_Name (map snd (i_Nodes i)),
      io_IsRecovered = i_Recovered i\<rparr>"

record lab_out =
  lo_ID :: string
  lo_Name :: string
  lo_StartTime :: int
  lo_EndTime :: "int option"
  lo_TopologyId :: "string option"
  lo_CollectionId :: string
  lo_Creator :: user_out
  lo_TopologyDefinition :: string
  lo_TopologyAnnotations :: string
  lo_Instance :: "instance_out option"

definition LabToOut :: "lab \<Rightarrow> runtime_instance option \<Rightarrow> lab_out option" where
  "LabToOut l i =
     (case (lab_TopologyDefinition l, lab_TopologyAnnotations l) of
        (Some def_text, Some annotations) \<Rightarrow>
          Some \<lparr>lo_ID = lab_UUID l, lo_Name = lab_Name l, lo_StartTime = lab_StartTime l, lo_EndTime = lab_EndTime l,
            lo_TopologyId = (if topo_UUID (lab_Topology l) \<noteq> '''' then Some (topo_UUID (lab_Topology l)) else None),
            lo_CollectionId = coll_UUID (lab_Collection l), lo_Creator = UserToOut (lab_Creator l),
            lo_TopologyDefinition = def_text, lo_TopologyAnnotations = annotations,
            lo_Instance = map_option (\<lambda>i. InstanceToOut i (lab_InstanceName l)) i\<rparr>
      | _ \<Rightarrow> None)"

text \<open>The numbers of the states in filters.\<close>

fun instance_state_number :: "instance_state \<Rightarrow> int" where
  "instance_state_number InstDeploying = 0"
| "instance_state_number InstRunning = 1"
| "instance_state_number InstStopping = 2"
| "instance_state_number InstFailed = 3"

definition inactive :: int where "inactive = - 1"

section \<open>Devices and the configuration of the server\<close>

record interface_pattern =
  ip_Pattern :: string
  ip_Start :: nat

record device_config =
  dc_Kind :: string
  dc_KindAliases :: "string list"
  dc_Name :: string
  dc_Interfaces :: "interface_pattern list"
  dc_Images :: "string list"

text \<open>
  \<open>CreateService\<close> of the devices reads a file: opening it, reading it and parsing it can fail, and then there are
  no devices. When the file cannot be parsed, what the parser has filled in of the list stays.
\<close>

definition CreateDeviceService ::
  "(string \<Rightarrow> 'file result) \<Rightarrow> ('file \<Rightarrow> string result) \<Rightarrow> (string \<Rightarrow> go_error option \<times> device_config list)
    \<Rightarrow> string \<Rightarrow> device_config list" where
  "CreateDeviceService os_Open ReadAll Unmarshal path =
     (case os_Open path of
        Inl _ \<Rightarrow> []
      | Inr f \<Rightarrow> (case ReadAll f of Inl _ \<Rightarrow> [] | Inr fileData \<Rightarrow> snd (Unmarshal fileData)))"

record server_config =
  sc_ssh_Enabled :: bool
  sc_ssh_Port :: int
  sc_capture_Enabled :: bool
  sc_capture_ExcludedInterfaces :: "string list"
  sc_deployment_Provider :: string

section \<open>Responses\<close>

text \<open>
  The token of a cookie or a body is what the authentication manager made; \<open>'json\<close> is a parsed schema.
\<close>

datatype ('tok, 'json) payload =
    NoPayload
  | Id string
  | Token 'tok
  | TopologyOut topology_out
  | TopologiesOut "topology_out list"
  | CollectionsOut "collection_out list"
  | LabOut lab_out
  | LabsOut "lab_out list"
  | DevicesOut "device_config list"
  | ServerConfigOut server_config
  | SchemaOut 'json
  | AuthConfigOut "auth_method list"

datatype ('tok, 'json) body = OkBody "('tok, 'json) payload ok_response" | ErrorBody error_response

datatype 'tok cookie_value = CookieText string | CookieToken 'tok

record 'tok set_cookie =
  ck_name :: string
  ck_value :: "'tok cookie_value"
  ck_maxAge :: int
  ck_httpOnly :: bool

text \<open>
  A response as gin writes it: the status is sent with the first write and stays, a later one only appends
  its body; headers count as long as the status is not sent.
\<close>

record ('tok, 'json) response =
  rs_status :: "int option"
  rs_bodies :: "('tok, 'json) body list"
  rs_headers :: "(string \<times> string) list"
  rs_cookies :: "'tok set_cookie list"
  rs_location :: "string option"

definition new_response :: "('tok, 'json) response" where
  "new_response = \<lparr>rs_status = None, rs_bodies = [], rs_headers = [], rs_cookies = [], rs_location = None\<rparr>"

definition write_status :: "int \<Rightarrow> ('tok, 'json) response \<Rightarrow> ('tok, 'json) response" where
  "write_status code r = (if rs_status r = None then r\<lparr>rs_status := Some code\<rparr> else r)"

definition JSON :: "int \<times> ('tok, 'json) body \<Rightarrow> ('tok, 'json) response \<Rightarrow> ('tok, 'json) response" where
  "JSON cb r = (case cb of (code, b) \<Rightarrow> (write_status code r)\<lparr>rs_bodies := rs_bodies r @ [b]\<rparr>)"

definition ok_json :: "('tok, 'json) payload \<Rightarrow> ('tok, 'json) response \<Rightarrow> ('tok, 'json) response" where
  "ok_json p r = JSON (apsnd OkBody (CreateOkResponse p)) r"

definition error_json :: "go_error \<Rightarrow> ('tok, 'json) response \<Rightarrow> ('tok, 'json) response" where
  "error_json err r = JSON (apsnd ErrorBody (CreateErrorResponse err)) r"

definition SetHeader :: "string \<Rightarrow> string \<Rightarrow> ('tok, 'json) response \<Rightarrow> ('tok, 'json) response" where
  "SetHeader k v r = (if rs_status r = None then r\<lparr>rs_headers := AList.update k v (rs_headers r)\<rparr> else r)"

definition AddHeader :: "string \<Rightarrow> string \<Rightarrow> ('tok, 'json) response \<Rightarrow> ('tok, 'json) response" where
  "AddHeader k v r = (if rs_status r = None then r\<lparr>rs_headers := rs_headers r @ [(k, v)]\<rparr> else r)"

definition SetCookie ::
  "string \<Rightarrow> 'tok cookie_value \<Rightarrow> int \<Rightarrow> bool \<Rightarrow> ('tok, 'json) response \<Rightarrow> ('tok, 'json) response" where
  "SetCookie name v maxAge httpOnly r =
     (if rs_status r = None
      then r\<lparr>rs_cookies := rs_cookies r @ [\<lparr>ck_name = name, ck_value = v, ck_maxAge = maxAge, ck_httpOnly = httpOnly\<rparr>]\<rparr>
      else r)"

definition Redirect :: "string \<Rightarrow> ('tok, 'json) response \<Rightarrow> ('tok, 'json) response" where
  "Redirect url r = (if rs_status r = None then r\<lparr>rs_status := Some 302, rs_location := Some url\<rparr> else r)"

text \<open>A response with no status is sent with status 200.\<close>

definition sent_status :: "('tok, 'json) response \<Rightarrow> int" where
  "sent_status r = (case rs_status r of None \<Rightarrow> 200 | Some code \<Rightarrow> code)"

lemma write_status_fields [simp]:
  "rs_bodies (write_status c r) = rs_bodies r" "rs_headers (write_status c r) = rs_headers r"
  "rs_cookies (write_status c r) = rs_cookies r" "rs_location (write_status c r) = rs_location r"
  "rs_status (write_status c r) = (case rs_status r of None \<Rightarrow> Some c | Some c' \<Rightarrow> Some c')"
  by (auto simp: write_status_def split: option.split)

lemma JSON_fields [simp]:
  "rs_bodies (JSON (c, b) r) = rs_bodies r @ [b]" "rs_status (JSON (c, b) r) = rs_status (write_status c r)"
  "rs_headers (JSON (c, b) r) = rs_headers r" "rs_cookies (JSON (c, b) r) = rs_cookies r"
  by (simp_all add: JSON_def)

lemma json_fields [simp]:
  "rs_bodies (ok_json p r) = rs_bodies r @ [OkBody (OkResponse p)]"
  "rs_status (ok_json p r) = rs_status (write_status 200 r)"
  "rs_bodies (error_json err r) = rs_bodies r @ [ErrorBody (snd (CreateErrorResponse err))]"
  "rs_status (error_json err r) = rs_status (write_status (fst (CreateErrorResponse err)) r)"
  "rs_headers (ok_json p r) = rs_headers r" "rs_headers (error_json err r) = rs_headers r"
  by (cases "CreateErrorResponse err"; simp add: ok_json_def error_json_def CreateOkResponse_def)+

lemma new_response_fields [simp]:
  "rs_status new_response = None" "rs_bodies new_response = []" "rs_headers new_response = []"
  "rs_cookies new_response = []" "rs_location new_response = None"
  by (simp_all add: new_response_def)

end
