(* ===== verification/Config.thy ===== *)
theory Config
  imports Transport
begin

text \<open>
  The configuration: \<open>src/config/config.go\<close>, \<open>loader.go\<close>, the enumerations of \<open>utils.ParseEnum\<close>, and the part of it that
  \<open>src/domain/serverconfig\<close> shows to clients. The YAML parser fills in a given configuration.
\<close>

datatype deployment_provider = ProviderContainerlab | ProviderClabernetes | ProviderDummy

fun provider_text :: "deployment_provider \<Rightarrow> string" where
  "provider_text ProviderContainerlab = ''containerlab''"
| "provider_text ProviderClabernetes = ''clabernetes''"
| "provider_text ProviderDummy = ''dummy''"

fun auth_method_text :: "auth_method \<Rightarrow> string" where
  "auth_method_text AuthAdmin = ''admin''"
| "auth_method_text AuthOpenID = ''openid''"
| "auth_method_text AuthDesktop = ''desktop''"

text \<open>\<open>ParseEnum\<close>: the value with a text, if it is one of those allowed.\<close>

definition ParseEnum :: "('e \<Rightarrow> string) \<Rightarrow> string \<Rightarrow> string \<Rightarrow> 'e list \<Rightarrow> 'e result" where
  "ParseEnum text_of what s allowed_values =
     (case find (\<lambda>e. text_of e = s) allowed_values of
        Some e \<Rightarrow> Inr e
      | None \<Rightarrow> Inl (Foreign (''unknown '' @ what @ '' '' @ quote s @ '' (expected one of ['' @
                   join [CHR '' ''] (map text_of allowed_values) @ ''])'')))"

definition provider_UnmarshalText :: "string \<Rightarrow> deployment_provider result" where
  "provider_UnmarshalText b =
     ParseEnum provider_text ''deployment provider'' b [ProviderContainerlab, ProviderClabernetes, ProviderDummy]"

definition auth_method_UnmarshalText :: "string \<Rightarrow> auth_method result" where
  "auth_method_UnmarshalText b =
     ParseEnum auth_method_text ''auth method'' b [AuthAdmin, AuthOpenID, AuthDesktop]"

record server_section =
  server_Host :: string
  server_Port :: nat

record ssh_section =
  ssh_Enabled :: bool
  ssh_SSHHost :: string
  ssh_SSHPort :: int
  ssh_SSHKeyPath :: string

record capture_section =
  capture_Enabled :: bool
  capture_ExcludedInterfaces :: "string list"

record streaming_section =
  streaming_ContainerLogBacklog :: int
  streaming_ClabLogBacklog :: int
  streaming_ShellLinesBacklog :: int

record auth_section =
  auth_Methods :: "auth_method list"
  auth_OpenIdIssuer :: string
  auth_OpenIdClientID :: string
  auth_OpenIdRedirectHost :: string
  auth_OpenIdAdminGroups :: "string list"

record security_section =
  security_TopologyPolicy :: bool
  security_AllowedImagePrefixes :: "string list"

record shell_section =
  shell_UserLimit :: int
  shell_Timeout :: int

record database_section =
  database_Host :: string
  database_User :: string
  database_Database :: string
  database_Port :: nat
  database_LocalFile :: string

record filesystem_section =
  filesystem_Storage :: string
  filesystem_Run :: string

record clab_section =
  clab_SchemaUrl :: string
  clab_SchemaFallback :: string
  clab_AnnotationsSchemaUrl :: string
  clab_AnnotationsSchemaFallback :: string
  clab_DeviceConfig :: string
  clab_KindsConfig :: string

record antimony_config =
  cf_Server :: server_section
  cf_Provider :: deployment_provider
  cf_Auth :: auth_section
  cf_Security :: security_section
  cf_Shell :: shell_section
  cf_Database :: database_section
  cf_SSH :: ssh_section
  cf_Capture :: capture_section
  cf_Streaming :: streaming_section
  cf_FileSystem :: filesystem_section
  cf_Containerlab :: clab_section

definition defaultConfig :: antimony_config where
  "defaultConfig =
     \<lparr>cf_Server = \<lparr>server_Host = ''127.0.0.1'', server_Port = 3000\<rparr>,
      cf_Provider = ProviderContainerlab,
      cf_Auth = \<lparr>auth_Methods = [AuthAdmin], auth_OpenIdIssuer = '''', auth_OpenIdClientID = '''',
        auth_OpenIdRedirectHost = '''', auth_OpenIdAdminGroups = []\<rparr>,
      cf_Security = \<lparr>security_TopologyPolicy = True, security_AllowedImagePrefixes = []\<rparr>,
      cf_Shell = \<lparr>shell_UserLimit = 20, shell_Timeout = 1800\<rparr>,
      cf_Database = \<lparr>database_Host = ''127.0.0.1'', database_User = ''antimony'', database_Database = ''antimony'',
        database_Port = 5432, database_LocalFile = ''./db/antimony.db''\<rparr>,
      cf_SSH = \<lparr>ssh_Enabled = True, ssh_SSHHost = ''127.0.0.1'', ssh_SSHPort = 6969, ssh_SSHKeyPath = ''./key''\<rparr>,
      cf_Capture = \<lparr>capture_Enabled = True,
        capture_ExcludedInterfaces = [''lo'', ''gway-*'', ''monit_in'', ''mgmt0*'', ''c9s*'']\<rparr>,
      cf_Streaming = \<lparr>streaming_ContainerLogBacklog = 1000, streaming_ClabLogBacklog = 1000,
        streaming_ShellLinesBacklog = 1000\<rparr>,
      cf_FileSystem = \<lparr>filesystem_Storage = ''./storage/'', filesystem_Run = ''./run/''\<rparr>,
      cf_Containerlab = \<lparr>
        clab_SchemaUrl =
          ''https://raw.githubusercontent.com/srl-labs/containerlab/refs/heads/main/schemas/clab.schema.json'',
        clab_SchemaFallback = ''./data/clab.schema.json'', clab_AnnotationsSchemaUrl = '''',
        clab_AnnotationsSchemaFallback = ''./data/clab.annotations.schema.json'',
        clab_DeviceConfig = ''./data/device-config.json'', clab_KindsConfig = ''./kinds.conf.yml''\<rparr>\<rparr>"

text \<open>What reading a file returns: that it is not there is no error of the program.\<close>

datatype file_read = NotExist | ReadError go_error | FileData string

definition Load_config ::
  "(string \<Rightarrow> file_read) \<Rightarrow> (string \<Rightarrow> antimony_config \<Rightarrow> antimony_config result) \<Rightarrow> string
    \<Rightarrow> antimony_config result" where
  "Load_config ReadFile Unmarshal fileName =
     (case ReadFile fileName of
        NotExist \<Rightarrow> Inr defaultConfig
      | ReadError err \<Rightarrow> Inl (Prefixed (''reading config '' @ fileName @ '': '') err)
      | FileData bytes \<Rightarrow>
          (case Unmarshal bytes defaultConfig of
             Inl err \<Rightarrow> Inl (Prefixed (''parsing config '' @ fileName @ '': '') err)
           | Inr c \<Rightarrow> Inr c))"

definition GetServerConfig :: "antimony_config \<Rightarrow> server_config" where
  "GetServerConfig c =
     \<lparr>sc_ssh_Enabled = ssh_Enabled (cf_SSH c), sc_ssh_Port = ssh_SSHPort (cf_SSH c),
      sc_capture_Enabled = capture_Enabled (cf_Capture c),
      sc_capture_ExcludedInterfaces = capture_ExcludedInterfaces (cf_Capture c),
      sc_deployment_Provider = provider_text (cf_Provider c)\<rparr>"

text \<open>\<open>GetAuthMethods\<close>: a configuration without methods has the empty list.\<close>

definition GetAuthMethods :: "antimony_config \<Rightarrow> auth_method list" where
  "GetAuthMethods c = auth_Methods (cf_Auth c)"

section \<open>Round trip of the enumerations\<close>

lemma find_text: "inj_on f (set es) \<Longrightarrow> find (\<lambda>e. f e = s) es = Some e \<longleftrightarrow> e \<in> set es \<and> f e = s"
  by (induction es) auto

lemma ParseEnum_Inr:
  "inj_on f (set es) \<Longrightarrow> ParseEnum f what s es = Inr e \<longleftrightarrow> e \<in> set es \<and> f e = s"
  by (simp add: ParseEnum_def find_text [symmetric] split: option.split)

lemma provider_round_trip: "provider_UnmarshalText s = Inr p \<longleftrightarrow> provider_text p = s"
proof -
  have "p \<in> set [ProviderContainerlab, ProviderClabernetes, ProviderDummy]" by (cases p) simp_all
  moreover have "inj_on provider_text (set [ProviderContainerlab, ProviderClabernetes, ProviderDummy])"
    by (simp add: inj_on_def)
  ultimately show ?thesis by (simp only: provider_UnmarshalText_def ParseEnum_Inr) simp
qed

lemma auth_method_round_trip: "auth_method_UnmarshalText s = Inr m \<longleftrightarrow> auth_method_text m = s"
proof -
  have "m \<in> set [AuthAdmin, AuthOpenID, AuthDesktop]" by (cases m) simp_all
  moreover have "inj_on auth_method_text (set [AuthAdmin, AuthOpenID, AuthDesktop])" by (simp add: inj_on_def)
  ultimately show ?thesis by (simp only: auth_method_UnmarshalText_def ParseEnum_Inr) simp
qed

text \<open>
  Every text is the text of exactly one value or of none: a configuration that names a provider that does not exist is
  rejected and one that names one is read as it.
\<close>

theorem enums_round_trip:
  "(provider_UnmarshalText (provider_text p) = Inr p) \<and> (auth_method_UnmarshalText (auth_method_text m) = Inr m)
   \<and> (provider_UnmarshalText s = Inr p \<longleftrightarrow> s = provider_text p)
   \<and> (auth_method_UnmarshalText s = Inr m \<longleftrightarrow> s = auth_method_text m)"
  by (auto simp: provider_round_trip auth_method_round_trip)

end
