(* ===== verification/Http.thy ===== *)
theory Http
  imports Transport Config
begin

text \<open>
  The HTTP interface: the handlers of \<open>src/transport/http/*/handler.go\<close>, their routes (\<open>route.go\<close>), the CORS middleware
  (\<open>cors/cors.go\<close>) and the web server of \<open>main.go\<close> that puts them behind each other. A handler takes the response and the
  state of the server to what it has written and changed; \<open>Panic\<close> is a panic, which gin recovers from with status 500.
  Binding a payload is gin's: the binders are parameters, and a payload that cannot be bound has already been answered
  with status 400 when \<open>Bind\<close> returns the error. What answers paths that have no route here (gin itself, socket.io, the API
  documentation) is a parameter.
\<close>

datatype handler_end = Done | Panic

type_synonym ('tok, 'json, 'w) handler = "('tok, 'json) response \<Rightarrow> 'w \<Rightarrow> handler_end \<times> ('tok, 'json) response \<times> 'w"

section \<open>Requests\<close>

datatype http_method = GET | POST | PUT | PATCH | DELETE | OPTIONS

record ('tok, 'c) http_request =
  rq_method :: http_method
  rq_path :: string
  rq_origin :: string
  rq_credentials :: "'tok credentials"
  rq_authToken :: "'tok option"
  rq_referer :: string
  rq_query :: "string \<Rightarrow> string"
  rq_content :: 'c

record credentials_in =
  cr_Username :: string
  cr_Password :: string

text \<open>The binders of the payloads; the filter of labs is bound to the query.\<close>

record 'c binders =
  b_collection :: "'c \<Rightarrow> collection_in result"
  b_collection_partial :: "'c \<Rightarrow> collection_in_partial result"
  b_lab_filter :: "(string \<Rightarrow> string) \<Rightarrow> lab_filter result"
  b_lab :: "'c \<Rightarrow> lab_in result"
  b_lab_partial :: "'c \<Rightarrow> lab_in_partial result"
  b_topology :: "'c \<Rightarrow> topology_in result"
  b_topology_partial :: "'c \<Rightarrow> topology_in_partial result"
  b_bind_file :: "'c \<Rightarrow> bind_file_in result"
  b_bind_file_partial :: "'c \<Rightarrow> bind_file_in_partial result"
  b_credentials :: "'c \<Rightarrow> credentials_in result"
  b_desktop_token :: "'c \<Rightarrow> string result"
  b_native_user :: "'c \<Rightarrow> native_user_in result"

section \<open>What handlers are made of\<close>

text \<open>
  \<open>ctx.MustGet("authUser").(auth.AuthenticatedUser)\<close>: the value under the key is missing, is something else, or is a user.
  When it is something else the handlers write an error and go on with the zero user.
\<close>

datatype auth_value = NoAuthUser | NotAUser | AuthUser authenticated_user

definition zero_auth_user :: authenticated_user where
  "zero_auth_user = \<lparr>UserId = '''', Collections = [], IsAdmin = False\<rparr>"

definition with_auth ::
  "auth_value \<Rightarrow> (authenticated_user \<Rightarrow> ('tok, 'json, 'w) handler) \<Rightarrow> ('tok, 'json, 'w) handler" where
  "with_auth v k r w =
     (case v of
        NoAuthUser \<Rightarrow> (Panic, r, w)
      | NotAUser \<Rightarrow> k zero_auth_user (error_json (Sentinel ErrAccessTokenInvalid) r) w
      | AuthUser u \<Rightarrow> k u r w)"

definition Bind ::
  "'p result \<Rightarrow> (go_error \<Rightarrow> int \<times> error_response) \<Rightarrow> ('p \<Rightarrow> ('tok, 'json, 'w) handler) \<Rightarrow> ('tok, 'json, 'w) handler" where
  "Bind p error_answer k r w =
     (case p of
        Inl err \<Rightarrow> (Done, JSON (apsnd ErrorBody (error_answer err)) (write_status 400 r), w)
      | Inr x \<Rightarrow> k x r w)"

text \<open>A call of a service, whose error or converted result is written.\<close>

definition answer_json ::
  "('w \<Rightarrow> 'a result \<times> 'w) \<Rightarrow> ('w \<Rightarrow> 'a \<Rightarrow> ('tok, 'json) payload option) \<Rightarrow> ('tok, 'json, 'w) handler" where
  "answer_json m conv r w =
     (case m w of
        (Inl err, w) \<Rightarrow> (Done, error_json err r, w)
      | (Inr a, w) \<Rightarrow> (case conv w a of None \<Rightarrow> (Panic, r, w) | Some p \<Rightarrow> (Done, ok_json p r, w)))"

definition with_id :: "'w \<Rightarrow> string \<Rightarrow> ('tok, 'json) payload option" where
  "with_id w i = Some (Id i)"

definition with_nothing :: "'w \<Rightarrow> 'a \<Rightarrow> ('tok, 'json) payload option" where
  "with_nothing w a = Some NoPayload"

section \<open>Collections\<close>

definition http_collection_Get ::
  "('db, 'node, 'h) env \<Rightarrow> auth_value \<Rightarrow> ('tok, 'json, ('db, 'h) server) handler" where
  "http_collection_Get E v = with_auth v (\<lambda>u.
     answer_json (collection_service_Get E u) (\<lambda>w cs. Some (CollectionsOut (map CollectionToOut cs))))"

definition http_collection_Create ::
  "('db, 'node, 'h) env \<Rightarrow> collection_in result \<Rightarrow> auth_value \<Rightarrow> ('tok, 'json, ('db, 'h) server) handler" where
  "http_collection_Create E p v = with_auth v (\<lambda>u. Bind p CreateValidationError (\<lambda>p.
     answer_json (collection_service_Create E p u) with_id))"

definition http_collection_Update ::
  "('db, 'node, 'h) env \<Rightarrow> collection_in_partial result \<Rightarrow> string \<Rightarrow> auth_value
    \<Rightarrow> ('tok, 'json, ('db, 'h) server) handler" where
  "http_collection_Update E p collectionId v = with_auth v (\<lambda>u. Bind p CreateValidationError (\<lambda>p.
     answer_json (collection_service_Update E p collectionId u) with_nothing))"

definition http_collection_Delete ::
  "('db, 'node, 'h) env \<Rightarrow> string \<Rightarrow> auth_value \<Rightarrow> ('tok, 'json, ('db, 'h) server) handler" where
  "http_collection_Delete E collectionId v = with_auth v (\<lambda>u.
     answer_json (collection_service_Delete E (DeleteLabsOfCollection E (Some instance_service))
       (DeleteTopologiesOfCollection E) collectionId u) with_nothing)"

section \<open>Topologies\<close>

definition http_topology_Get ::
  "('db, 'node, 'h) env \<Rightarrow> auth_value \<Rightarrow> ('tok, 'json, ('db, 'h) server) handler" where
  "http_topology_Get E v = with_auth v (\<lambda>u.
     answer_json (topology_service_Get E u) (\<lambda>w ts. Some (TopologiesOut (map TopologyToOut ts))))"

definition http_topology_GetByUuid ::
  "('db, 'node, 'h) env \<Rightarrow> string \<Rightarrow> auth_value \<Rightarrow> ('tok, 'json, ('db, 'h) server) handler" where
  "http_topology_GetByUuid E topologyId v = with_auth v (\<lambda>u.
     answer_json (topology_service_GetByUuid E topologyId u) (\<lambda>w t. Some (TopologyOut (TopologyToOut t))))"

definition http_topology_Create ::
  "('db, 'node, 'h) env \<Rightarrow> topology_in result \<Rightarrow> auth_value \<Rightarrow> ('tok, 'json, ('db, 'h) server) handler" where
  "http_topology_Create E p v = with_auth v (\<lambda>u. Bind p CreateValidationError (\<lambda>p.
     answer_json (topology_service_Create E p u) with_id))"

definition http_topology_Update ::
  "('db, 'node, 'h) env \<Rightarrow> topology_in_partial result \<Rightarrow> string \<Rightarrow> auth_value
    \<Rightarrow> ('tok, 'json, ('db, 'h) server) handler" where
  "http_topology_Update E p topologyId v = with_auth v (\<lambda>u. Bind p CreateValidationError (\<lambda>p.
     answer_json (topology_service_Update E p topologyId u) with_nothing))"

definition http_topology_Delete ::
  "('db, 'node, 'h) env \<Rightarrow> string \<Rightarrow> auth_value \<Rightarrow> ('tok, 'json, ('db, 'h) server) handler" where
  "http_topology_Delete E topologyId v = with_auth v (\<lambda>u.
     answer_json (topology_service_Delete E topologyId u) with_nothing)"

definition http_CreateBindFile ::
  "('db, 'node, 'h) env \<Rightarrow> bind_file_in result \<Rightarrow> string \<Rightarrow> auth_value
    \<Rightarrow> ('tok, 'json, ('db, 'h) server) handler" where
  "http_CreateBindFile E p topologyId v = with_auth v (\<lambda>u. Bind p CreateValidationError (\<lambda>p.
     answer_json (CreateBindFile E topologyId p u) with_id))"

definition http_UpdateBindFile ::
  "('db, 'node, 'h) env \<Rightarrow> bind_file_in_partial result \<Rightarrow> string \<Rightarrow> auth_value
    \<Rightarrow> ('tok, 'json, ('db, 'h) server) handler" where
  "http_UpdateBindFile E p fileId v = with_auth v (\<lambda>u. Bind p CreateValidationError (\<lambda>p.
     answer_json (UpdateBindFile E p fileId u) with_nothing))"

definition http_DeleteBindFile ::
  "('db, 'node, 'h) env \<Rightarrow> string \<Rightarrow> auth_value \<Rightarrow> ('tok, 'json, ('db, 'h) server) handler" where
  "http_DeleteBindFile E fileId v = with_auth v (\<lambda>u.
     answer_json (topology_DeleteBindFile E fileId u) with_nothing)"

section \<open>Labs\<close>

text \<open>The state a filter compares: that of the instance, or inactive.\<close>

definition lab_state :: "lab \<Rightarrow> runtime \<Rightarrow> int" where
  "lab_state l r = (case GetInstance (lab_UUID l) r of None \<Rightarrow> inactive | Some i \<Rightarrow> instance_state_number (i_State i))"

definition in_state_filter :: "lab_filter \<Rightarrow> runtime \<Rightarrow> lab \<Rightarrow> bool" where
  "in_state_filter f r l \<longleftrightarrow> lf_StateFilter f = [] \<or> lab_state l r \<in> set (lf_StateFilter f)"

definition shown_lab :: "runtime \<Rightarrow> lab \<Rightarrow> lab_out option" where
  "shown_lab r l = LabToOut l (GetInstance (lab_UUID l) r)"

definition labs_out :: "lab_filter \<Rightarrow> runtime \<Rightarrow> lab list \<Rightarrow> lab_out list option" where
  "labs_out f r ls = those (map (shown_lab r) (filter (in_state_filter f r) ls))"

definition http_lab_Get ::
  "('db, 'node, 'h) env \<Rightarrow> lab_filter result \<Rightarrow> auth_value \<Rightarrow> ('tok, 'json, ('db, 'h) server) handler" where
  "http_lab_Get E p v = with_auth v (\<lambda>u. Bind p CreateErrorResponse (\<lambda>labFilter.
     answer_json (lab_service_Get E labFilter u) (\<lambda>w ls. map_option LabsOut (labs_out labFilter (rt w) ls))))"

definition http_lab_GetByUuid ::
  "('db, 'node, 'h) env \<Rightarrow> string \<Rightarrow> auth_value \<Rightarrow> ('tok, 'json, ('db, 'h) server) handler" where
  "http_lab_GetByUuid E labId v = with_auth v (\<lambda>u.
     answer_json (lab_service_GetByUuid E labId u) (\<lambda>w l. map_option LabOut (shown_lab (rt w) l)))"

definition http_lab_Create ::
  "('db, 'node, 'h) env \<Rightarrow> lab_in result \<Rightarrow> auth_value \<Rightarrow> ('tok, 'json, ('db, 'h) server) handler" where
  "http_lab_Create E p v = with_auth v (\<lambda>u. Bind p CreateValidationError (\<lambda>p.
     answer_json (lab_service_Create E p u) with_id))"

definition http_lab_Update ::
  "('db, 'node, 'h) env \<Rightarrow> lab_in_partial result \<Rightarrow> string \<Rightarrow> auth_value
    \<Rightarrow> ('tok, 'json, ('db, 'h) server) handler" where
  "http_lab_Update E p labId v = with_auth v (\<lambda>u. Bind p CreateValidationError (\<lambda>p.
     answer_json (lab_service_Update E (Some instance_service) p labId u) with_nothing))"

definition http_lab_Delete ::
  "('db, 'node, 'h) env \<Rightarrow> string \<Rightarrow> auth_value \<Rightarrow> ('tok, 'json, ('db, 'h) server) handler" where
  "http_lab_Delete E labId v = with_auth v (\<lambda>u.
     answer_json (lab_service_Delete E (Some instance_service) labId u) with_nothing)"

section \<open>Users\<close>

definition login_cookies :: "'tok \<Rightarrow> 'tok \<Rightarrow> ('tok, 'json) response \<Rightarrow> ('tok, 'json) response" where
  "login_cookies refreshToken accessToken r =
     SetCookie ''accessToken'' (CookieToken accessToken) 0 False
       (SetCookie ''authToken'' (CookieToken refreshToken) 0 True r)"

definition http_LoginNative ::
  "'tok jwt \<Rightarrow> credentials_in result \<Rightarrow> ('tok, 'json, ('db, 'h) server) handler" where
  "http_LoginNative J p = Bind p (\<lambda>_. CreateErrorResponse (Sentinel ErrInvalidCredentials)) (\<lambda>p r w.
     (case LoginNative J (w_auth w) (cr_Username p) (cr_Password p) (w_now w) of
        Inl err \<Rightarrow> (Done, error_json err r, w)
      | Inr (refreshToken, accessToken) \<Rightarrow> (Done, login_cookies refreshToken accessToken r, w)))"

definition http_LoginOpenId ::
  "(string \<Rightarrow> string) \<Rightarrow> string \<Rightarrow> ('tok, 'json, ('db, 'h) server) handler" where
  "http_LoginOpenId oauth2_AuthCodeURL referer r w =
     (case GetAuthCodeURL oauth2_AuthCodeURL (w_auth w) referer of
        Inl err \<Rightarrow> (Done, error_json err r, w)
      | Inr url \<Rightarrow> (Done, Redirect url r, w))"

definition http_LoginDesktop ::
  "'tok jwt \<Rightarrow> string result \<Rightarrow> ('tok, 'json, ('db, 'h) server) handler" where
  "http_LoginDesktop J p = Bind p (\<lambda>_. CreateErrorResponse (Sentinel ErrInvalidCredentials)) (\<lambda>token r w.
     (case LoginDesktop J (w_auth w) token (w_now w) of
        None \<Rightarrow> (Panic, r, w)
      | Some (Inl err) \<Rightarrow> (Done, error_json err r, w)
      | Some (Inr accessToken) \<Rightarrow> (Done, ok_json (Token accessToken) r, w)))"

definition http_LoginOpenIdSuccess ::
  "('db, 'node, 'h) env \<Rightarrow> 'tok jwt \<Rightarrow> (string, 'oauth, 'info) oidc \<Rightarrow> string \<Rightarrow> string
    \<Rightarrow> ('tok, 'json, ('db, 'h) server) handler" where
  "http_LoginOpenIdSuccess E J P code state_url r w =
     (case user_AuthenticateWithCode E J P code w of
        (Inl err, w) \<Rightarrow> (Done, error_json err r, w)
      | (Inr (authToken, accessToken), w) \<Rightarrow>
          (Done, Redirect state_url
             (SetCookie ''accessToken'' (CookieToken accessToken) 0 False
               (SetCookie ''authOidc'' (CookieText ''true'') 0 False
                 (SetCookie ''authToken'' (CookieToken authToken) 0 True r))), w))"

definition http_Logout :: "('tok, 'json, 'w) handler" where
  "http_Logout r w =
     (Done, SetCookie ''accessToken'' (CookieText '''') (-1) False
        (SetCookie ''authOidc'' (CookieText '''') (-1) False
          (SetCookie ''authToken'' (CookieText '''') (-1) True r)), w)"

text \<open>Every error of the service is answered with \<open>ErrForbidden\<close>.\<close>

definition http_RefreshToken :: "'tok jwt \<Rightarrow> 'tok option \<Rightarrow> ('tok, 'json, ('db, 'h) server) handler" where
  "http_RefreshToken J authCookie r w =
     (case authCookie of
        None \<Rightarrow> (Done, error_json (Sentinel ErrUnauthorized) r, w)
      | Some authToken \<Rightarrow>
          (case user_RefreshAccessToken J authToken w of
             (Inl _, w) \<Rightarrow> (Done, error_json (Sentinel ErrForbidden) r, w)
           | (Inr accessToken, w) \<Rightarrow>
               (Done, ok_json (Token accessToken)
                  (SetCookie ''accessToken'' (CookieToken accessToken) 0 False r), w)))"

definition http_AuthConfig :: "antimony_config \<Rightarrow> ('tok, 'json, 'w) handler" where
  "http_AuthConfig c r w = (Done, ok_json (AuthConfigOut (GetAuthMethods c)) r, w)"

definition http_CreateNativeUser ::
  "('db, 'node, 'h) env \<Rightarrow> native_user_in result \<Rightarrow> auth_value \<Rightarrow> ('tok, 'json, ('db, 'h) server) handler" where
  "http_CreateNativeUser E p v r w =
     (case v of
        NoAuthUser \<Rightarrow> (Panic, r, w)
      | NotAUser \<Rightarrow> (Done, error_json (Sentinel ErrAccessTokenInvalid) r, w)
      | AuthUser u \<Rightarrow>
          Bind p (\<lambda>_. CreateErrorResponse (Sentinel ErrInvalidCredentials)) (\<lambda>p.
            answer_json (CreateNativeUser E p u) with_id) r w)"

section \<open>Schemas, devices and configuration\<close>

definition http_schema_Get :: "(string \<Rightarrow> 'json result) \<Rightarrow> string \<Rightarrow> ('tok, 'json, 'w) handler" where
  "http_schema_Get Unmarshal schemaString r w =
     (case Unmarshal schemaString of
        Inl err \<Rightarrow> (Done, error_json err r, w)
      | Inr schemaObj \<Rightarrow> (Done, ok_json (SchemaOut schemaObj) r, w))"

definition http_schema_GetAnnotations :: "(string \<Rightarrow> 'json result) \<Rightarrow> string \<Rightarrow> ('tok, 'json, 'w) handler" where
  "http_schema_GetAnnotations Unmarshal annotationsSchemaString r w =
     (case Unmarshal annotationsSchemaString of
        Inl err \<Rightarrow> (Done, error_json err r, w)
      | Inr schemaObj \<Rightarrow> (Done, ok_json (SchemaOut schemaObj) r, w))"

definition http_device_Get :: "device_config list \<Rightarrow> ('tok, 'json, 'w) handler" where
  "http_device_Get devices r w = (Done, ok_json (DevicesOut devices) r, w)"

definition http_serverconfig_Get :: "antimony_config \<Rightarrow> ('tok, 'json, 'w) handler" where
  "http_serverconfig_Get c r w = (Done, ok_json (ServerConfigOut (GetServerConfig c)) r, w)"

end
