(* ===== verification/Web_Server.thy ===== *)
theory Web_Server
  imports Http
begin

text \<open>
  The routes of \<open>src/transport/http/*/route.go\<close>, the CORS middleware of \<open>cors/cors.go\<close>, and the web server that
  \<open>createWebServer\<close> of \<open>main.go\<close> builds from them: recovery, CORS, the authenticator on the routes that have it, the handler.
\<close>

section \<open>Routes\<close>

text \<open>The handlers that routes name.\<close>

datatype endpoint =
    EpLogout | EpLoginNative | EpLoginOpenId | EpLoginDesktop | EpAuthConfig | EpLoginSuccess | EpRefresh
  | EpCreateNativeUser
  | EpSchema | EpAnnotations
  | EpLabGet | EpLabGetByUuid | EpLabCreate | EpLabUpdate | EpLabDelete
  | EpDevices
  | EpTopologyGet | EpTopologyCreate | EpTopologyGetByUuid | EpTopologyUpdate | EpTopologyDelete
  | EpBindFileCreate | EpBindFileUpdate | EpBindFileDelete
  | EpCollectionGet | EpCollectionCreate | EpCollectionUpdate | EpCollectionDelete
  | EpServerConfig

text \<open>A route: its method, its path, whether the authenticator comes first, and its handler.\<close>

datatype path_part = Lit string | Param string

type_synonym route = "http_method \<times> path_part list \<times> bool \<times> endpoint"

definition group :: "path_part list \<Rightarrow> bool \<Rightarrow> (http_method \<times> path_part list \<times> endpoint) list \<Rightarrow> route list" where
  "group base guarded rs = map (\<lambda>(m, p, e). (m, base @ p, guarded, e)) rs"

definition user_RegisterRoutes :: "route list" where
  "user_RegisterRoutes = group [Lit ''users''] False
     [(POST, [Lit ''logout''], EpLogout),
      (POST, [Lit ''login'', Lit ''native''], EpLoginNative),
      (GET, [Lit ''login'', Lit ''openid''], EpLoginOpenId),
      (POST, [Lit ''login'', Lit ''desktop''], EpLoginDesktop),
      (GET, [Lit ''login'', Lit ''auth-config''], EpAuthConfig),
      (GET, [Lit ''login'', Lit ''success''], EpLoginSuccess),
      (GET, [Lit ''login'', Lit ''refresh''], EpRefresh)]"

definition user_RegisterDevRoutes :: "route list" where
  "user_RegisterDevRoutes = [(POST, [Lit ''users''], True, EpCreateNativeUser)]"

definition schema_RegisterRoutes :: "route list" where
  "schema_RegisterRoutes = group [Lit ''clab-schema''] False
     [(GET, [], EpSchema), (GET, [Lit ''annotations''], EpAnnotations)]"

definition lab_RegisterRoutes :: "route list" where
  "lab_RegisterRoutes = group [Lit ''labs''] True
     [(GET, [], EpLabGet),
      (GET, [Param ''labId''], EpLabGetByUuid),
      (POST, [], EpLabCreate),
      (PATCH, [Param ''labId''], EpLabUpdate),
      (DELETE, [Param ''labId''], EpLabDelete)]"

definition device_RegisterRoutes :: "route list" where
  "device_RegisterRoutes = group [Lit ''devices''] True [(GET, [], EpDevices)]"

definition topology_RegisterRoutes :: "route list" where
  "topology_RegisterRoutes = group [Lit ''topologies''] True
     [(GET, [], EpTopologyGet),
      (POST, [], EpTopologyCreate),
      (GET, [Param ''topologyId''], EpTopologyGetByUuid),
      (PATCH, [Param ''topologyId''], EpTopologyUpdate),
      (DELETE, [Param ''topologyId''], EpTopologyDelete),
      (POST, [Param ''topologyId'', Lit ''files''], EpBindFileCreate),
      (PATCH, [Param ''topologyId'', Lit ''files'', Param ''fileId''], EpBindFileUpdate),
      (DELETE, [Param ''topologyId'', Lit ''files'', Param ''fileId''], EpBindFileDelete)]"

definition collection_RegisterRoutes :: "route list" where
  "collection_RegisterRoutes = group [Lit ''collections''] True
     [(GET, [], EpCollectionGet),
      (POST, [], EpCollectionCreate),
      (PATCH, [Param ''collectionId''], EpCollectionUpdate),
      (DELETE, [Param ''collectionId''], EpCollectionDelete)]"

definition serverconfig_RegisterRoutes :: "route list" where
  "serverconfig_RegisterRoutes = group [Lit ''server-config''] True [(GET, [], EpServerConfig)]"

definition web_routes :: "bool \<Rightarrow> route list" where
  "web_routes isDevMode =
     user_RegisterRoutes @ (if isDevMode then user_RegisterDevRoutes else []) @ schema_RegisterRoutes
     @ lab_RegisterRoutes @ device_RegisterRoutes @ topology_RegisterRoutes @ collection_RegisterRoutes
     @ serverconfig_RegisterRoutes"

text \<open>
  The router: a parameter takes one part of the path that is not empty. The parts of \<open>/labs/1\<close> are the
  empty text before the slash, \<open>labs\<close> and \<open>1\<close>.
\<close>

fun match_path :: "path_part list \<Rightarrow> string list \<Rightarrow> (string \<times> string) list option" where
  "match_path [] [] = Some []"
| "match_path (Lit l # ps) (s # ss) = (if s = l then match_path ps ss else None)"
| "match_path (Param k # ps) (s # ss) =
     (if s = '''' then None else map_option (\<lambda>params. (k, s) # params) (match_path ps ss))"
| "match_path _ _ = None"

fun find_route :: "route list \<Rightarrow> http_method \<Rightarrow> string list \<Rightarrow> (bool \<times> endpoint \<times> (string \<times> string) list) option" where
  "find_route [] m ss = None"
| "find_route ((m', p, guarded, e) # rs) m ss =
     (case (if m' = m then match_path p ss else None) of
        Some params \<Rightarrow> Some (guarded, e, params)
      | None \<Rightarrow> find_route rs m ss)"

definition path_parts :: "string \<Rightarrow> string list" where
  "path_parts path = tl (split_on (CHR ''/'') path)"

definition route_of :: "bool \<Rightarrow> ('tok, 'c) http_request \<Rightarrow> (bool \<times> endpoint \<times> (string \<times> string) list) option" where
  "route_of isDevMode rq = find_route (web_routes isDevMode) (rq_method rq) (path_parts (rq_path rq))"

text \<open>\<open>ctx.Param\<close>: the empty string for a name the route does not have.\<close>

definition param :: "(string \<times> string) list \<Rightarrow> string \<Rightarrow> string" where
  "param params k = (case map_of params k of None \<Rightarrow> '''' | Some v \<Rightarrow> v)"

section \<open>The server\<close>

record ('db, 'node, 'h, 'tok, 'json, 'c, 'oauth, 'info) web =
  web_env :: "('db, 'node, 'h) env"
  web_jwt :: "'tok jwt"
  web_oidc :: "(string, 'oauth, 'info) oidc"
  web_AuthCodeURL :: "string \<Rightarrow> string"
  web_binders :: "'c binders"
  web_Unmarshal :: "string \<Rightarrow> 'json result"
  web_schemaString :: string
  web_annotationsSchemaString :: string
  web_devices :: "device_config list"
  web_config :: antimony_config
  web_isDevMode :: bool
  web_other :: "('tok, 'c) http_request \<Rightarrow> ('tok, 'json) response \<Rightarrow> ('tok, 'json) response"

fun handle_endpoint ::
  "('db, 'node, 'h, 'tok, 'json, 'c, 'oauth, 'info) web \<Rightarrow> ('tok, 'c) http_request \<Rightarrow> (string \<times> string) list
    \<Rightarrow> auth_value \<Rightarrow> endpoint \<Rightarrow> ('tok, 'json, ('db, 'h) server) handler" where
  "handle_endpoint W rq ps v EpLogout = http_Logout"
| "handle_endpoint W rq ps v EpLoginNative = http_LoginNative (web_jwt W) (b_credentials (web_binders W) (rq_content rq))"
| "handle_endpoint W rq ps v EpLoginOpenId = http_LoginOpenId (web_AuthCodeURL W) (rq_referer rq)"
| "handle_endpoint W rq ps v EpLoginDesktop =
     http_LoginDesktop (web_jwt W) (b_desktop_token (web_binders W) (rq_content rq))"
| "handle_endpoint W rq ps v EpAuthConfig = http_AuthConfig (web_config W)"
| "handle_endpoint W rq ps v EpLoginSuccess =
     http_LoginOpenIdSuccess (web_env W) (web_jwt W) (web_oidc W) (rq_query rq ''code'') (rq_query rq ''state'')"
| "handle_endpoint W rq ps v EpRefresh = http_RefreshToken (web_jwt W) (rq_authToken rq)"
| "handle_endpoint W rq ps v EpCreateNativeUser =
     http_CreateNativeUser (web_env W) (b_native_user (web_binders W) (rq_content rq)) v"
| "handle_endpoint W rq ps v EpSchema = http_schema_Get (web_Unmarshal W) (web_schemaString W)"
| "handle_endpoint W rq ps v EpAnnotations =
     http_schema_GetAnnotations (web_Unmarshal W) (web_annotationsSchemaString W)"
| "handle_endpoint W rq ps v EpLabGet = http_lab_Get (web_env W) (b_lab_filter (web_binders W) (rq_query rq)) v"
| "handle_endpoint W rq ps v EpLabGetByUuid = http_lab_GetByUuid (web_env W) (param ps ''labId'') v"
| "handle_endpoint W rq ps v EpLabCreate = http_lab_Create (web_env W) (b_lab (web_binders W) (rq_content rq)) v"
| "handle_endpoint W rq ps v EpLabUpdate =
     http_lab_Update (web_env W) (b_lab_partial (web_binders W) (rq_content rq)) (param ps ''labId'') v"
| "handle_endpoint W rq ps v EpLabDelete = http_lab_Delete (web_env W) (param ps ''labId'') v"
| "handle_endpoint W rq ps v EpDevices = http_device_Get (web_devices W)"
| "handle_endpoint W rq ps v EpTopologyGet = http_topology_Get (web_env W) v"
| "handle_endpoint W rq ps v EpTopologyCreate =
     http_topology_Create (web_env W) (b_topology (web_binders W) (rq_content rq)) v"
| "handle_endpoint W rq ps v EpTopologyGetByUuid = http_topology_GetByUuid (web_env W) (param ps ''topologyId'') v"
| "handle_endpoint W rq ps v EpTopologyUpdate =
     http_topology_Update (web_env W) (b_topology_partial (web_binders W) (rq_content rq)) (param ps ''topologyId'') v"
| "handle_endpoint W rq ps v EpTopologyDelete = http_topology_Delete (web_env W) (param ps ''topologyId'') v"
| "handle_endpoint W rq ps v EpBindFileCreate =
     http_CreateBindFile (web_env W) (b_bind_file (web_binders W) (rq_content rq)) (param ps ''topologyId'') v"
| "handle_endpoint W rq ps v EpBindFileUpdate =
     http_UpdateBindFile (web_env W) (b_bind_file_partial (web_binders W) (rq_content rq)) (param ps ''fileId'') v"
| "handle_endpoint W rq ps v EpBindFileDelete = http_DeleteBindFile (web_env W) (param ps ''fileId'') v"
| "handle_endpoint W rq ps v EpCollectionGet = http_collection_Get (web_env W) v"
| "handle_endpoint W rq ps v EpCollectionCreate =
     http_collection_Create (web_env W) (b_collection (web_binders W) (rq_content rq)) v"
| "handle_endpoint W rq ps v EpCollectionUpdate =
     http_collection_Update (web_env W) (b_collection_partial (web_binders W) (rq_content rq)) (param ps ''collectionId'') v"
| "handle_endpoint W rq ps v EpCollectionDelete = http_collection_Delete (web_env W) (param ps ''collectionId'') v"
| "handle_endpoint W rq ps v EpServerConfig = http_serverconfig_Get (web_config W)"

text \<open>The authenticator aborts the request, or sets the user and goes on.\<close>

definition authenticated ::
  "('db, 'node, 'h, 'tok, 'json, 'c, 'oauth, 'info) web \<Rightarrow> ('tok, 'c) http_request
    \<Rightarrow> (auth_value \<Rightarrow> ('tok, 'json, ('db, 'h) server) handler) \<Rightarrow> ('tok, 'json, ('db, 'h) server) handler" where
  "authenticated W rq k r w =
     (case AuthenticatorMiddleware (web_jwt W) (w_auth w) (rq_credentials rq) (w_now w) of
        Abort cb \<Rightarrow> (Done, JSON (apsnd ErrorBody cb) r, w)
      | Next u \<Rightarrow> k (AuthUser u) r w)"

definition run_route ::
  "('db, 'node, 'h, 'tok, 'json, 'c, 'oauth, 'info) web \<Rightarrow> ('tok, 'c) http_request
    \<Rightarrow> ('tok, 'json, ('db, 'h) server) handler" where
  "run_route W rq =
     (case route_of (web_isDevMode W) rq of
        None \<Rightarrow> (\<lambda>r w. (Done, web_other W rq r, w))
      | Some (guarded, e, ps) \<Rightarrow>
          if guarded then authenticated W rq (\<lambda>v. handle_endpoint W rq ps v e)
          else handle_endpoint W rq ps NoAuthUser e)"

definition desktopOrigin :: string where "desktopOrigin = ''null''"

definition cors_applies :: "bool \<Rightarrow> ('tok, 'c) http_request \<Rightarrow> bool" where
  "cors_applies isDesktopEnabled rq \<longleftrightarrow>
     isDesktopEnabled \<and> rq_origin rq = desktopOrigin \<and> \<not> HasPrefix (rq_path rq) ''/socket.io/''"

definition cors_Middleware ::
  "bool \<Rightarrow> ('tok, 'c) http_request \<Rightarrow> ('tok, 'json, 'w) handler \<Rightarrow> ('tok, 'json, 'w) handler" where
  "cors_Middleware isDesktopEnabled rq k r w =
     (if \<not> cors_applies isDesktopEnabled rq then k r w
      else (let r = AddHeader ''Vary'' ''Origin'' (SetHeader ''Access-Control-Allow-Origin'' desktopOrigin r) in
        if rq_method rq = OPTIONS then
          (Done, write_status 204
             (SetHeader ''Access-Control-Max-Age'' ''600''
               (SetHeader ''Access-Control-Allow-Headers'' ''Authorization, Content-Type''
                 (SetHeader ''Access-Control-Allow-Methods'' ''GET, POST, PUT, PATCH, DELETE'' r))), w)
        else k r w))"

definition recovered :: "('tok, 'json, 'w) handler \<Rightarrow> ('tok, 'json) response \<Rightarrow> 'w \<Rightarrow> ('tok, 'json) response \<times> 'w" where
  "recovered k r w =
     (case k r w of (Done, r, w) \<Rightarrow> (r, w) | (Panic, r, w) \<Rightarrow> (write_status 500 r, w))"

definition desktop_login :: "antimony_config \<Rightarrow> bool" where
  "desktop_login c \<longleftrightarrow> AuthDesktop \<in> set (auth_Methods (cf_Auth c))"

definition ServeHTTP ::
  "('db, 'node, 'h, 'tok, 'json, 'c, 'oauth, 'info) web \<Rightarrow> ('tok, 'c) http_request \<Rightarrow> ('db, 'h) server
    \<Rightarrow> ('tok, 'json) response \<times> ('db, 'h) server" where
  "ServeHTTP W rq w =
     recovered (cors_Middleware (desktop_login (web_config W)) rq (run_route W rq)) new_response w"

end
