(* ===== verification/Http_Behaviour.thy ===== *)
theory Http_Behaviour
  imports Web_Server Instance_Runs
begin

text \<open>
  What clients can rely on: a request to a protected route is answered as the services decide, with the status of
  their error; without a valid token only the public routes do anything; a request that is refused changes nothing;
  a payload that cannot be bound reaches no service; and the desktop application, and no other site, gets CORS headers.
\<close>

section \<open>Routes\<close>

text \<open>Who is not logged in reaches the handlers of these routes only.\<close>

fun public_endpoint :: "endpoint \<Rightarrow> bool" where
  "public_endpoint EpLogout = True"
| "public_endpoint EpLoginNative = True"
| "public_endpoint EpLoginOpenId = True"
| "public_endpoint EpLoginDesktop = True"
| "public_endpoint EpAuthConfig = True"
| "public_endpoint EpLoginSuccess = True"
| "public_endpoint EpRefresh = True"
| "public_endpoint EpSchema = True"
| "public_endpoint EpAnnotations = True"
| "public_endpoint _ = False"

lemma find_route_mem: "find_route rs m ss = Some (g, e, ps) \<Longrightarrow> \<exists>p. (m, p, g, e) \<in> set rs"
  by (induction rs m ss rule: find_route.induct) (auto split: option.splits if_splits)

lemma route_kinds: "list_all (\<lambda>(m, p, g, e). (g \<longleftrightarrow> \<not> public_endpoint e) \<and> m \<noteq> OPTIONS) (web_routes d)"
proof -
  have "list_all (\<lambda>(m, p, g, e). (g \<longleftrightarrow> \<not> public_endpoint e) \<and> m \<noteq> OPTIONS) (web_routes True)" by code_simp
  moreover have "list_all (\<lambda>(m, p, g, e). (g \<longleftrightarrow> \<not> public_endpoint e) \<and> m \<noteq> OPTIONS) (web_routes False)" by code_simp
  ultimately show ?thesis by (cases d) simp_all
qed

lemma route_facts:
  assumes "route_of d rq = Some (g, e, ps)"
  shows "g \<longleftrightarrow> \<not> public_endpoint e" "rq_method rq \<noteq> OPTIONS"
  using assms route_kinds [of d] unfolding route_of_def by (fastforce dest!: find_route_mem simp: list_all_iff)+

text \<open>A routed request passes CORS, which at most adds its headers.\<close>

definition cors_response :: "bool \<Rightarrow> ('tok, 'c) http_request \<Rightarrow> ('tok, 'json) response" where
  "cors_response d rq = (if cors_applies d rq
     then new_response\<lparr>rs_headers := [(''Access-Control-Allow-Origin'', desktopOrigin), (''Vary'', ''Origin'')]\<rparr>
     else new_response)"

lemma cors_response_fields [simp]:
  "rs_status (cors_response d rq) = None" "rs_bodies (cors_response d rq) = []"
  by (simp_all add: cors_response_def)

lemma cors_passes:
  assumes "rq_method rq \<noteq> OPTIONS"
  shows "cors_Middleware d rq k new_response w = k (cors_response d rq) w"
  using assms by (simp add: cors_Middleware_def cors_response_def SetHeader_def AddHeader_def Let_def)

lemma ServeHTTP_routed:
  assumes "route_of (web_isDevMode W) rq = Some (g, e, ps)"
  shows "ServeHTTP W rq w = recovered (run_route W rq) (cors_response (desktop_login (web_config W)) rq) w"
  by (simp add: ServeHTTP_def recovered_def cors_passes route_facts(2) [OF assms])

section \<open>Handlers and services\<close>

text \<open>The request to the services that a handler makes; \<open>None\<close> for the handlers that make none.\<close>

fun request_of ::
  "'c binders \<Rightarrow> ('tok, 'c) http_request \<Rightarrow> (string \<times> string) list \<Rightarrow> endpoint \<Rightarrow> request result option" where
  "request_of B rq ps EpTopologyGet = Some (Inr TopologyGet)"
| "request_of B rq ps EpTopologyGetByUuid = Some (Inr (TopologyGetByUuid (param ps ''topologyId'')))"
| "request_of B rq ps EpTopologyCreate = Some (map_sum id TopologyCreate (b_topology B (rq_content rq)))"
| "request_of B rq ps EpTopologyUpdate =
     Some (map_sum id (\<lambda>p. TopologyUpdate p (param ps ''topologyId'')) (b_topology_partial B (rq_content rq)))"
| "request_of B rq ps EpTopologyDelete = Some (Inr (TopologyDelete (param ps ''topologyId'')))"
| "request_of B rq ps EpBindFileCreate =
     Some (map_sum id (BindFileCreate (param ps ''topologyId'')) (b_bind_file B (rq_content rq)))"
| "request_of B rq ps EpBindFileUpdate =
     Some (map_sum id (\<lambda>p. BindFileUpdate p (param ps ''fileId'')) (b_bind_file_partial B (rq_content rq)))"
| "request_of B rq ps EpBindFileDelete = Some (Inr (BindFileDelete (param ps ''fileId'')))"
| "request_of B rq ps EpLabGet = Some (map_sum id LabGet (b_lab_filter B (rq_query rq)))"
| "request_of B rq ps EpLabGetByUuid = Some (Inr (LabGetByUuid (param ps ''labId'')))"
| "request_of B rq ps EpLabCreate = Some (map_sum id LabCreate (b_lab B (rq_content rq)))"
| "request_of B rq ps EpLabUpdate =
     Some (map_sum id (\<lambda>p. LabUpdate p (param ps ''labId'')) (b_lab_partial B (rq_content rq)))"
| "request_of B rq ps EpLabDelete = Some (Inr (LabDelete (param ps ''labId'')))"
| "request_of B rq ps EpCollectionGet = Some (Inr CollectionGet)"
| "request_of B rq ps EpCollectionCreate = Some (map_sum id CollectionCreate (b_collection B (rq_content rq)))"
| "request_of B rq ps EpCollectionUpdate =
     Some (map_sum id (\<lambda>p. CollectionUpdate p (param ps ''collectionId'')) (b_collection_partial B (rq_content rq)))"
| "request_of B rq ps EpCollectionDelete = Some (Inr (CollectionDelete (param ps ''collectionId'')))"
| "request_of B rq ps EpCreateNativeUser = Some (map_sum id NativeUserCreate (b_native_user B (rq_content rq)))"
| "request_of B rq ps _ = None"

text \<open>A lab row without its texts, of which \<open>LabToOut\<close> dereferences nil.\<close>

definition without_texts :: "lab \<Rightarrow> bool" where
  "without_texts l \<longleftrightarrow> lab_TopologyDefinition l = None \<or> lab_TopologyAnnotations l = None"

definition lab_of_database :: "'db database \<Rightarrow> 'db \<Rightarrow> lab \<Rightarrow> bool" where
  "lab_of_database D db l \<longleftrightarrow>
     (\<exists>f ls. lab_GetAll D f db = Inr ls \<and> l \<in> set ls) \<or> (\<exists>i. lab_GetByUuid D i db = Inr l)"

definition answered_as ::
  "go_error option \<Rightarrow> ('db, 'h) server \<Rightarrow> ('tok, 'json) response
    \<Rightarrow> handler_end \<times> ('tok, 'json) response \<times> ('db, 'h) server \<Rightarrow> bool" where
  "answered_as err w' r out \<longleftrightarrow>
     (case err of
        Some x \<Rightarrow> out = (Done, error_json x r, w')
      | None \<Rightarrow> \<exists>p. out = (Done, ok_json p r, w'))"

lemma answered_answer_json:
  assumes "answer m w = (err, w')" "\<And>w a. conv w a \<noteq> None"
  shows "answered_as err w' r (answer_json m conv r w)"
  using assms(1) assms(2)
  by (auto simp: answer_def answered_as_def answer_json_def split: prod.splits sum.splits option.splits)

lemma LabToOut_None: "LabToOut l i = None \<longleftrightarrow> without_texts l"
  by (auto simp: LabToOut_def without_texts_def split: option.splits)

lemma those_None: "those xs = None \<longleftrightarrow> None \<in> set xs"
  by (induction xs) (auto split: option.splits)

lemma database_lab: "lab_GetAll D f db = Inr ls \<Longrightarrow> l \<in> set ls \<Longrightarrow> lab_of_database D db l"
  "lab_GetByUuid D i db = Inr l \<Longrightarrow> lab_of_database D db l"
  unfolding lab_of_database_def by blast+

lemma labs_out_None: "labs_out f r ls = None \<Longrightarrow> \<exists>l \<in> set ls. without_texts l"
  by (auto simp: labs_out_def those_None shown_lab_def LabToOut_None) (metis LabToOut_None)

text \<open>The handlers of labs can panic.\<close>

definition panicked ::
  "'db database \<Rightarrow> go_error option \<Rightarrow> ('db, 'h) server \<Rightarrow> ('tok, 'json) response
    \<Rightarrow> handler_end \<times> ('tok, 'json) response \<times> ('db, 'h) server \<Rightarrow> bool" where
  "panicked D err w' r out \<longleftrightarrow> err = None \<and> out = (Panic, r, w') \<and> (\<exists>l. lab_of_database D (w_db w') l \<and> without_texts l)"

lemma lab_Get_answers:
  assumes "answer (lab_service_Get E f u) w = (err, w')"
  shows "answered_as err w' r (answer_json (lab_service_Get E f u) (\<lambda>w ls. map_option LabsOut (labs_out f (rt w) ls)) r w)
    \<or> panicked (e_database E) err w' r
        (answer_json (lab_service_Get E f u) (\<lambda>w ls. map_option LabsOut (labs_out f (rt w) ls)) r w)"
  using assms
  by (auto simp: answer_def answered_as_def panicked_def answer_json_def lab_service_Get_def seq_def ask_step
      split: prod.splits sum.splits option.splits dest!: labs_out_None dest: database_lab(1))

lemma lab_GetByUuid_answers:
  assumes "answer (lab_service_GetByUuid E i u) w = (err, w')"
  shows "answered_as err w' r (answer_json (lab_service_GetByUuid E i u) (\<lambda>w l. map_option LabOut (shown_lab (rt w) l)) r w)
    \<or> panicked (e_database E) err w' r
        (answer_json (lab_service_GetByUuid E i u) (\<lambda>w l. map_option LabOut (shown_lab (rt w) l)) r w)"
  using assms
  by (auto simp: answer_def answered_as_def panicked_def answer_json_def lab_service_GetByUuid_def
      seq_def ask_step shown_lab_def LabToOut_None
      split: prod.splits sum.splits option.splits if_splits dest: database_lab(2))

lemma map_sum_eq [simp]:
  "map_sum id g x = Inr y \<longleftrightarrow> (\<exists>z. x = Inr z \<and> y = g z)" "map_sum id g x = Inl b \<longleftrightarrow> x = Inl b"
  by (cases x; auto)+

lemmas http_handlers = http_collection_Get_def http_collection_Create_def http_collection_Update_def
  http_collection_Delete_def http_topology_Get_def http_topology_GetByUuid_def http_topology_Create_def
  http_topology_Update_def http_topology_Delete_def http_CreateBindFile_def http_UpdateBindFile_def
  http_DeleteBindFile_def http_lab_Get_def http_lab_GetByUuid_def http_lab_Create_def http_lab_Update_def
  http_lab_Delete_def http_CreateNativeUser_def

lemma total_conversions: "with_id w i \<noteq> None" "with_nothing w a \<noteq> None" "(\<lambda>w a. Some (f a)) w a \<noteq> None"
  by (simp_all add: with_id_def with_nothing_def)

lemma handler_answers:
  assumes "request_of (web_binders W) rq ps e = Some (Inr q)"
    and "serve (web_env W) (Some instance_service) u q w = (err, w')"
  shows "answered_as err w' r (handle_endpoint W rq ps (AuthUser u) e r w)
    \<or> panicked (e_database (web_env W)) err w' r (handle_endpoint W rq ps (AuthUser u) e r w)"
proof (cases "e = EpLabGet \<or> e = EpLabGetByUuid")
  case True
  then show ?thesis
  proof
    assume e: "e = EpLabGet"
    then obtain f where "b_lab_filter (web_binders W) (rq_query rq) = Inr f" "q = LabGet f" using assms(1) by auto
    then show ?thesis
      using assms(2) lab_Get_answers [of "web_env W" f u w err w' r]
      by (simp add: e http_lab_Get_def with_auth_def Bind_def)
  next
    assume e: "e = EpLabGetByUuid"
    then show ?thesis
      using assms lab_GetByUuid_answers [of "web_env W" "param ps ''labId''" u w err w' r]
      by (auto simp: http_lab_GetByUuid_def with_auth_def)
  qed
next
  case False
  have "answered_as err w' r (handle_endpoint W rq ps (AuthUser u) e r w)"
    using assms False
    by (cases e) (auto simp: http_handlers with_auth_def Bind_def intro!: answered_answer_json total_conversions)
  then show ?thesis ..
qed

section \<open>Protected routes\<close>

text \<open>C4: A request to a protected route from a user whose token is valid and whose payload can be bound is answered as the
  services decide: the server is afterwards in the state the service method leaves, and the response has the status 200
  and one body with a payload exactly when the method returns no error, and else the status and the one body that belong
  to its error. The one other handler_end is a panic on a lab whose row has no texts, which gin answers with status 500.\<close>

theorem http_refines_services:
  assumes "route_of (web_isDevMode W) rq = Some (True, e, ps)"
    and "AuthenticatorMiddleware (web_jwt W) (w_auth w) (rq_credentials rq) (w_now w) = Next u"
    and "request_of (web_binders W) rq ps e = Some (Inr q)"
    and "serve (web_env W) (Some instance_service) u q w = (err, w')"
  shows "\<exists>resp. ServeHTTP W rq w = (resp, w') \<and>
    ((\<exists>p. err = None \<and> sent_status resp = 200 \<and> rs_bodies resp = [OkBody (OkResponse p)])
     \<or> (\<exists>x. err = Some x \<and> sent_status resp = fst (CreateErrorResponse x)
            \<and> rs_bodies resp = [ErrorBody (snd (CreateErrorResponse x))])
     \<or> (err = None \<and> sent_status resp = 500 \<and> rs_bodies resp = []
            \<and> (\<exists>l. lab_of_database (e_database (web_env W)) (w_db w') l \<and> without_texts l)))"
proof -
  have run: "ServeHTTP W rq w = recovered (handle_endpoint W rq ps (AuthUser u) e)
      (cors_response (desktop_login (web_config W)) rq) w"
    by (simp add: ServeHTTP_routed [OF assms(1)] run_route_def assms(1,2) authenticated_def recovered_def)
  from handler_answers [OF assms(3,4), of "cors_response (desktop_login (web_config W)) rq"] show ?thesis
    unfolding run by (auto simp: answered_as_def panicked_def recovered_def sent_status_def split: option.splits)
qed

text \<open>C5: Without a valid token a request to any route that is not public (logging in and out, refreshing a session, the
  schemas) changes nothing and gets the status 401 or 498 with the error and nothing else.\<close>

theorem http_stops_strangers:
  assumes "route_of (web_isDevMode W) rq = Some (g, e, ps)" and "\<not> public_endpoint e"
    and "\<forall>t. (bearer (rq_credentials rq) = Some t \<or> bearer (rq_credentials rq) = None \<and> cookie (rq_credentials rq) = Some t)
           \<longrightarrow> (\<exists>err. AuthenticateUser (web_jwt W) (w_auth w) t (w_now w) = Inl err)"
  shows "\<exists>resp b. ServeHTTP W rq w = (resp, w) \<and> sent_status resp \<in> {401, 498} \<and> rs_bodies resp = [ErrorBody b]"
proof -
  have g: "g" using route_facts(1) [OF assms(1)] assms(2) by simp
  have "\<exists>b. AuthenticatorMiddleware (web_jwt W) (w_auth w) (rq_credentials rq) (w_now w) = Abort (401, b)
      \<or> AuthenticatorMiddleware (web_jwt W) (w_auth w) (rq_credentials rq) (w_now w) = Abort (498, b)"
    using assms(3) by (auto simp: AuthenticatorMiddleware_def CreateErrorResponse_def http_error_cases_def split: option.splits sum.splits)
  then show ?thesis
    using g by (auto simp: ServeHTTP_routed [OF assms(1)] run_route_def assms(1) authenticated_def recovered_def
        sent_status_def)
qed

text \<open>The body a handler writes for a payload that cannot be bound.\<close>

definition bind_error :: "endpoint \<Rightarrow> go_error \<Rightarrow> error_response" where
  "bind_error e err =
     (if e = EpLabGet then snd (CreateErrorResponse err)
      else if e = EpCreateNativeUser then snd (CreateErrorResponse (Sentinel ErrInvalidCredentials))
      else error_response 422 err)"

lemma JSON_after_status: "JSON (c, b) (write_status 400 r) = JSON (c', b) (write_status 400 r)"
  by (cases "rs_status r") (auto simp: JSON_def write_status_def)

lemma Bind_unbound: "Bind (Inl err) f k r w = (Done, JSON (422, ErrorBody (snd (f err))) (write_status 400 r), w)"
proof (cases "f err")
  case (Pair c b)
  then show ?thesis using JSON_after_status [of c "ErrorBody b" r 422] by (simp add: Bind_def)
qed

lemma unbound_handler:
  assumes "request_of (web_binders W) rq ps e = Some (Inl err)"
  shows "handle_endpoint W rq ps (AuthUser u) e r w =
    (Done, JSON (422, ErrorBody (bind_error e err)) (write_status 400 r), w)"
  using assms by (cases e) (auto simp: http_handlers with_auth_def Bind_unbound CreateValidationError_def bind_error_def)

text \<open>C27: A payload that cannot be bound reaches no service. The client gets the status 400 that gin has sent when it could
  not bind, and the body the handler wrote for another status: code 422 for all payloads but those of users and filters.\<close>

theorem unbound_payload_changes_nothing:
  assumes "route_of (web_isDevMode W) rq = Some (True, e, ps)"
    and "AuthenticatorMiddleware (web_jwt W) (w_auth w) (rq_credentials rq) (w_now w) = Next u"
    and "request_of (web_binders W) rq ps e = Some (Inl err)"
  shows "\<exists>resp. ServeHTTP W rq w = (resp, w) \<and> sent_status resp = 400 \<and> rs_bodies resp = [ErrorBody (bind_error e err)]"
  by (simp add: ServeHTTP_routed [OF assms(1)] run_route_def assms(1,2) authenticated_def recovered_def
      unbound_handler [OF assms(3)] sent_status_def)

section \<open>Refusals\<close>

lemma never_denies_user_queries:
  "never denies (ask (user_GetBySub D s))" "never denies (insert_row (user_Create D u))" "never denies (exec (user_Update D u))"
proof -
  show "never denies (ask (user_GetBySub D s))"
    by (auto simp: never_def ask_def user_GetBySub_def find_all_def access_errors_def split: sum.splits list.splits)
  show "never denies (insert_row (user_Create D u))" "never denies (exec (user_Update D u))"
    unfolding user_Create_def user_Update_def by (rule never_denies_db)+
qed

lemma never_denies_mapper: "never denies (userSubToIdMapper E s p)"
  unfolding userSubToIdMapper_def by (intro effects never_denies_user_queries never_prod)

lemma mapper_error: "userSubToIdMapper E s p w = (Inl e, w') \<Longrightarrow> \<not> denies e"
  using never_denies_mapper [of E s p] unfolding never_def by blast

lemma login_never_denied:
  assumes "user_AuthenticateWithCode E J P c w = (Inl err, w')" and "\<And>c k x. sign J c k = Inl x \<Longrightarrow> \<not> denies x"
  shows "\<not> denies err"
  using assms
  by (auto simp: user_AuthenticateWithCode_def AuthenticateWithCode_def CreateAuthToken_def CreateAccessToken_def
      access_errors_def Let_def split: prod.splits sum.splits if_splits dest: mapper_error)

text \<open>What the handlers of the other routes change: nothing, except that a login over OpenID adds a user.\<close>

lemma other_endpoints:
  assumes "request_of (web_binders W) rq ps e = None" and "e \<noteq> EpLoginSuccess"
  shows "snd (snd (handle_endpoint W rq ps v e r w)) = w"
  using assms
  by (cases e) (auto simp: http_Logout_def http_LoginNative_def http_LoginOpenId_def http_LoginDesktop_def http_AuthConfig_def
      http_RefreshToken_def user_RefreshAccessToken_def http_schema_Get_def http_schema_GetAnnotations_def http_device_Get_def
      http_serverconfig_Get_def Bind_def split: sum.splits option.splits prod.splits)

lemma recovered_world: "snd (recovered k r w) = snd (snd (k r w))"
  by (auto simp: recovered_def split: prod.splits handler_end.splits)

lemma serve_forbidden:
  assumes "rs_status r = None" and "e \<noteq> EpLoginSuccess"
    and "recovered (handle_endpoint W rq ps (AuthUser u) e) r w = (resp, w')" and "sent_status resp = 403"
  shows "w' = w"
proof (cases "request_of (web_binders W) rq ps e")
  case None
  from other_endpoints [OF None assms(2)] show ?thesis
    using assms(3) recovered_world by (metis snd_conv)
next
  case (Some b)
  show ?thesis
  proof (cases b)
    case (Inl err)
    then show ?thesis using unbound_handler [OF Some [unfolded Inl]] assms(3) by (simp add: recovered_def)
  next
    case (Inr q)
    obtain err w1 where sv: "serve (web_env W) (Some instance_service) u q w = (err, w1)" by fastforce
    have "w1 = w" if "err = Some x" "fst (CreateErrorResponse x) = 403" for x
      using denied_changes_nothing sv that by blast
    then show ?thesis
      using handler_answers [OF Some [unfolded Inr] sv, of r] assms
      by (auto simp: answered_as_def panicked_def recovered_def sent_status_def split: option.splits)
  qed
qed

lemma login_forbidden:
  assumes "rs_status r = None" and "\<forall>c k x. sign J c k = Inl x \<longrightarrow> \<not> denies x"
    and "recovered (http_LoginOpenIdSuccess E J P code url) r w = (resp, w')" and "sent_status resp = 403"
  shows "w' = w"
proof (cases "user_AuthenticateWithCode E J P code w")
  case (Pair res w1)
  show ?thesis
  proof (cases res)
    case (Inl err)
    then have "\<not> denies err" using login_never_denied [of E J P code w err w1] Pair assms(2) by blast
    then show ?thesis
      using assms Inl Pair forbidden_iff_access_error [of err]
      by (auto simp: http_LoginOpenIdSuccess_def recovered_def sent_status_def denies_def)
  next
    case (Inr tokens)
    then show ?thesis
      using assms Pair
      by (cases tokens) (auto simp: http_LoginOpenIdSuccess_def recovered_def sent_status_def Redirect_def SetCookie_def)
  qed
qed

lemma public_without_request: "public_endpoint e \<Longrightarrow> request_of B rq ps e = None"
  by (cases e) simp_all

text \<open>C26: Whatever request is answered with the status 403 has changed nothing: not the database, not the files, not the
  sessions, not the instances. This holds of every route, logins included, as long as signing a token does not fail with
  an error of access.\<close>

theorem forbidden_changes_nothing:
  assumes "route_of (web_isDevMode W) rq = Some (g, e, ps)" and "\<forall>c k x. sign (web_jwt W) c k = Inl x \<longrightarrow> \<not> denies x"
    and "ServeHTTP W rq w = (resp, w')" and "sent_status resp = 403"
  shows "w' = w"
proof -
  let ?r = "cors_response (desktop_login (web_config W)) rq"
  have run: "recovered (run_route W rq) ?r w = (resp, w')" using assms(3) by (simp add: ServeHTTP_routed [OF assms(1)])
  show ?thesis
  proof (cases g)
    case True
    then have "\<not> public_endpoint e" using route_facts(1) [OF assms(1)] by simp
    then have e: "e \<noteq> EpLoginSuccess" by auto
    show ?thesis
    proof (cases "AuthenticatorMiddleware (web_jwt W) (w_auth w) (rq_credentials rq) (w_now w)")
      case (Abort cb)
      then show ?thesis using run True by (simp add: run_route_def assms(1) authenticated_def recovered_def)
    next
      case (Next u)
      then have h: "recovered (handle_endpoint W rq ps (AuthUser u) e) ?r w = (resp, w')"
        using run True by (simp add: run_route_def assms(1) authenticated_def recovered_def)
      show ?thesis by (rule serve_forbidden [OF _ e h assms(4)]) simp
    qed
  next
    case False
    then have public: "public_endpoint e" using route_facts(1) [OF assms(1)] by simp
    have h: "recovered (handle_endpoint W rq ps NoAuthUser e) ?r w = (resp, w')"
      using run False by (simp add: run_route_def assms(1))
    show ?thesis
    proof (cases "e = EpLoginSuccess")
      case True
      with h have "recovered (http_LoginOpenIdSuccess (web_env W) (web_jwt W) (web_oidc W) (rq_query rq ''code'')
          (rq_query rq ''state'')) ?r w = (resp, w')" by simp
      then show ?thesis by (rule login_forbidden [OF _ assms(2) _ assms(4), rotated]) simp
    next
      case False
      from other_endpoints [OF public_without_request [OF public] False] show ?thesis
        using h recovered_world by (metis snd_conv)
    qed
  qed
qed

section \<open>The desktop application\<close>

lemma SetCookie_fields [simp]:
  "rs_headers (SetCookie n v m h r) = rs_headers r" "rs_status (SetCookie n v m h r) = rs_status r"
  "rs_bodies (SetCookie n v m h r) = rs_bodies r"
  by (simp_all add: SetCookie_def)

lemma Redirect_headers [simp]: "rs_headers (Redirect u r) = rs_headers r"
  by (simp add: Redirect_def)

lemma JSON_headers [simp]: "rs_headers (JSON cb r) = rs_headers r"
  by (cases cb) simp

lemma answer_json_headers [simp]: "rs_headers (fst (snd (answer_json m conv r w))) = rs_headers r"
  by (auto simp: answer_json_def split: prod.splits sum.splits option.splits)

lemma handler_headers: "rs_headers (fst (snd (handle_endpoint W rq ps v e r w))) = rs_headers r"
  by (cases e) (auto simp: http_handlers http_Logout_def http_LoginNative_def http_LoginOpenId_def http_LoginDesktop_def
      http_AuthConfig_def http_LoginOpenIdSuccess_def http_RefreshToken_def http_schema_Get_def http_schema_GetAnnotations_def
      http_device_Get_def http_serverconfig_Get_def with_auth_def Bind_def login_cookies_def
      split: sum.splits option.splits prod.splits auth_value.splits)

lemma recovered_headers: "rs_headers (fst (recovered k r w)) = rs_headers (fst (snd (k r w)))"
  by (auto simp: recovered_def split: prod.splits handler_end.splits)

lemma routed_headers:
  assumes "route_of (web_isDevMode W) rq = Some (g, e, ps)"
  shows "rs_headers (fst (snd (run_route W rq r w))) = rs_headers r"
proof (cases g)
  case True
  then show ?thesis
    by (cases "AuthenticatorMiddleware (web_jwt W) (w_auth w) (rq_credentials rq) (w_now w)")
      (simp_all add: run_route_def assms authenticated_def handler_headers)
qed (simp add: run_route_def assms handler_headers)

text \<open>The server allows requests from another origin exactly for the desktop application: only when logging in from it is
  enabled, only for its origin, and not for the paths socket.io answers itself; no other value is ever allowed. A preflight
  request of it runs no handler, changes nothing and is answered with status 204 and no body.\<close>

theorem cors_only_for_desktop:
  assumes "route_of (web_isDevMode W) rq = Some (g, e, ps)
    \<or> rq_method rq = OPTIONS \<and> cors_applies (desktop_login (web_config W)) rq"
  shows "((''Access-Control-Allow-Origin'', v) \<in> set (rs_headers (fst (ServeHTTP W rq w)))
      \<longleftrightarrow> v = ''null'' \<and> AuthDesktop \<in> set (auth_Methods (cf_Auth (web_config W))) \<and> rq_origin rq = ''null''
          \<and> \<not> HasPrefix (rq_path rq) ''/socket.io/'')
    \<and> (rq_method rq = OPTIONS \<longrightarrow>
        snd (ServeHTTP W rq w) = w \<and> sent_status (fst (ServeHTTP W rq w)) = 204 \<and> rs_bodies (fst (ServeHTTP W rq w)) = [])"
proof (cases "rq_method rq = OPTIONS")
  case True
  then have c: "cors_applies (desktop_login (web_config W)) rq" using assms route_facts(2) by blast
  have "ServeHTTP W rq w = (write_status 204 (new_response\<lparr>rs_headers :=
     [(''Access-Control-Allow-Origin'', desktopOrigin), (''Vary'', ''Origin''),
      (''Access-Control-Allow-Methods'', ''GET, POST, PUT, PATCH, DELETE''),
      (''Access-Control-Allow-Headers'', ''Authorization, Content-Type''),
      (''Access-Control-Max-Age'', ''600'')]\<rparr>), w)"
    using True c by (simp add: ServeHTTP_def recovered_def cors_Middleware_def SetHeader_def AddHeader_def)
  then show ?thesis
    using c by (auto simp: sent_status_def cors_applies_def desktop_login_def desktopOrigin_def)
next
  case False
  then have r: "route_of (web_isDevMode W) rq = Some (g, e, ps)" using assms by simp
  have "rs_headers (fst (ServeHTTP W rq w)) = (if cors_applies (desktop_login (web_config W)) rq
      then [(''Access-Control-Allow-Origin'', desktopOrigin), (''Vary'', ''Origin'')] else [])"
    by (simp add: ServeHTTP_routed [OF r] recovered_headers routed_headers [OF r] cors_response_def)
  then show ?thesis
    using False by (auto simp: cors_applies_def desktop_login_def desktopOrigin_def)
qed

section \<open>A server for the witnesses\<close>

text \<open>A token is the id of its user; no payload can be bound.\<close>

definition demo_jwt :: "string jwt" where
  "demo_jwt = \<lparr>parse = (\<lambda>tok kf now. Inr [''id'' \<mapsto> JString tok]), sign = (\<lambda>c k. Inr ''token'')\<rparr>"

definition demo_binders :: "string binders" where
  "demo_binders =
     \<lparr>b_collection = (\<lambda>_. Inl (Foreign ''EOF'')), b_collection_partial = (\<lambda>_. Inl (Foreign ''EOF'')),
      b_lab_filter = (\<lambda>_. Inl (Foreign ''EOF'')), b_lab = (\<lambda>_. Inl (Foreign ''EOF'')),
      b_lab_partial = (\<lambda>_. Inl (Foreign ''EOF'')), b_topology = (\<lambda>_. Inl (Foreign ''EOF'')),
      b_topology_partial = (\<lambda>_. Inl (Foreign ''EOF'')), b_bind_file = (\<lambda>_. Inl (Foreign ''EOF'')),
      b_bind_file_partial = (\<lambda>_. Inl (Foreign ''EOF'')), b_credentials = (\<lambda>_. Inl (Foreign ''EOF'')),
      b_desktop_token = (\<lambda>_. Inl (Foreign ''EOF'')), b_native_user = (\<lambda>_. Inl (Foreign ''EOF''))\<rparr>"

definition demo_web :: "(memory, string, string, string, string, string, unit, unit) web" where
  "demo_web = \<lparr>web_env = demo_env, web_jwt = demo_jwt,
     web_oidc = \<lparr>Exchange = (\<lambda>_. Inl (Foreign ''x'')), UserInfo = (\<lambda>_. Inl (Foreign ''x'')), Claims = (\<lambda>_. Inl (Foreign ''x''))\<rparr>,
     web_AuthCodeURL = (\<lambda>s. s), web_binders = demo_binders, web_Unmarshal = Inr, web_schemaString = ''{}'',
     web_annotationsSchemaString = ''{}'', web_devices = [], web_config = defaultConfig, web_isDevMode = False,
     web_other = (\<lambda>rq. write_status 404)\<rparr>"

definition demo_guest :: authenticated_user where
  "demo_guest = \<lparr>UserId = ''u9'', Collections = [], IsAdmin = False\<rparr>"

definition demo_http_server :: "(memory, string) server" where
  "demo_http_server = demo_server\<lparr>w_auth := demo_manager\<lparr>authenticatedUsers := [''u9'' \<mapsto> demo_guest]\<rparr>\<rparr>"

definition demo_request :: "http_method \<Rightarrow> string \<Rightarrow> string option \<Rightarrow> (string, string) http_request" where
  "demo_request m path token = \<lparr>rq_method = m, rq_path = path, rq_origin = [],
     rq_credentials = \<lparr>bearer = token, cookie = None\<rparr>,
     rq_authToken = None, rq_referer = [], rq_query = (\<lambda>_. []), rq_content = []\<rparr>"

lemma demo_web_parts [simp]:
  "web_isDevMode demo_web = False" "web_env demo_web = demo_env" "web_jwt demo_web = demo_jwt" "web_binders demo_web = demo_binders"
  "web_config demo_web = defaultConfig"
  "w_auth demo_http_server = demo_manager\<lparr>authenticatedUsers := [''u9'' \<mapsto> demo_guest]\<rparr>"
  by (simp_all add: demo_web_def demo_http_server_def)

lemma demo_next:
  "AuthenticatorMiddleware demo_jwt (w_auth demo_http_server) (rq_credentials (demo_request m p (Some ''u9''))) (w_now demo_http_server)
     = Next demo_guest"
  by (simp add: AuthenticatorMiddleware_def demo_request_def AuthenticateUser_def demo_jwt_def)

lemma demo_routes:
  "route_of False (demo_request GET ''/topologies/t1'' tok) = Some (True, EpTopologyGetByUuid, [(''topologyId'', ''t1'')])"
  "route_of False (demo_request POST ''/collections'' tok) = Some (True, EpCollectionCreate, [])"
  unfolding route_of_def demo_request_def by code_simp+

lemma demo_denied:
  "serve demo_env (Some instance_service) demo_guest (TopologyGetByUuid ''t1'') demo_http_server =
     (Some (Sentinel ErrNoAccessToTopology), demo_http_server)"
proof -
  have "topology_GetByUuid memory_database ''t1'' demo_memory = Inr demo_topology" by code_simp
  moreover have "w_db demo_http_server = demo_memory" by (simp add: demo_http_server_def demo_server_def)
  ultimately show ?thesis
    by (simp add: answer_def topology_service_GetByUuid_def seq_def ask_step demo_guest_def allowed_def)
qed

lemma demo_request_made:
  "request_of demo_binders rq [(''topologyId'', ''t1'')] EpTopologyGetByUuid = Some (Inr (TopologyGetByUuid ''t1''))"
  "request_of demo_binders rq [] EpCollectionCreate = Some (Inl (Foreign ''EOF''))"
  by (simp_all add: param_def demo_binders_def)

lemma demo_forbidden: "fst (CreateErrorResponse (Sentinel ErrNoAccessToTopology)) = 403"
  by code_simp

theorem http_refines_services_witness:
  "\<exists>resp. ServeHTTP demo_web (demo_request GET ''/topologies/t1'' (Some ''u9'')) demo_http_server = (resp, demo_http_server)
     \<and> sent_status resp = 403"
  using http_refines_services [of demo_web "demo_request GET ''/topologies/t1'' (Some ''u9'')" EpTopologyGetByUuid
      "[(''topologyId'', ''t1'')]" demo_http_server demo_guest "TopologyGetByUuid ''t1''"
      "Some (Sentinel ErrNoAccessToTopology)" demo_http_server,
    unfolded demo_web_parts(1-4), OF demo_routes(1) demo_next demo_request_made(1) demo_denied] demo_forbidden
  by auto

theorem http_stops_strangers_witness:
  "\<exists>resp b. ServeHTTP demo_web (demo_request POST ''/collections'' None) demo_http_server = (resp, demo_http_server)
     \<and> sent_status resp \<in> {401, 498} \<and> rs_bodies resp = [ErrorBody b]"
  by (rule http_stops_strangers [of demo_web _ True EpCollectionCreate "[]"])
    (simp_all only: demo_web_parts demo_routes public_endpoint.simps, simp_all add: demo_request_def)

theorem unbound_payload_changes_nothing_witness:
  "\<exists>resp. ServeHTTP demo_web (demo_request POST ''/collections'' (Some ''u9'')) demo_http_server = (resp, demo_http_server)
     \<and> sent_status resp = 400 \<and> rs_bodies resp = [ErrorBody (bind_error EpCollectionCreate (Foreign ''EOF''))]"
  by (rule unbound_payload_changes_nothing [of demo_web, unfolded demo_web_parts(1-4), OF demo_routes(2) demo_next demo_request_made(2)])

theorem cors_only_for_desktop_witness:
  "((''Access-Control-Allow-Origin'', ''null'') \<notin> set (rs_headers (fst (ServeHTTP demo_web (demo_request POST ''/collections'' None) demo_http_server))))"
proof -
  have "AuthDesktop \<notin> set (auth_Methods (cf_Auth defaultConfig))" by (simp add: defaultConfig_def)
  then show ?thesis
    using cors_only_for_desktop [of demo_web "demo_request POST ''/collections'' None" True EpCollectionCreate "[]" "''null''" demo_http_server,
      unfolded demo_web_parts(1,5)] demo_routes(2) by blast
qed

theorem forbidden_changes_nothing_witness:
  "sent_status (fst (ServeHTTP demo_web (demo_request GET ''/topologies/t1'' (Some ''u9'')) demo_http_server)) = 403
   \<and> snd (ServeHTTP demo_web (demo_request GET ''/topologies/t1'' (Some ''u9'')) demo_http_server) = demo_http_server"
proof -
  let ?rq = "demo_request GET ''/topologies/t1'' (Some ''u9'')"
  have run: "ServeHTTP demo_web ?rq demo_http_server = recovered (handle_endpoint demo_web ?rq [(''topologyId'', ''t1'')]
      (AuthUser demo_guest) EpTopologyGetByUuid) (cors_response (desktop_login defaultConfig) ?rq) demo_http_server"
    using demo_next [of GET "''/topologies/t1''"]
    by (simp add: ServeHTTP_routed [of demo_web, unfolded demo_web_parts, OF demo_routes(1)] run_route_def
        demo_routes(1) authenticated_def recovered_def)
  have status: "sent_status (fst (ServeHTTP demo_web ?rq demo_http_server)) = 403"
    using handler_answers [of demo_web ?rq _ EpTopologyGetByUuid _ demo_guest demo_http_server _ _
        "cors_response (desktop_login defaultConfig) ?rq", unfolded demo_web_parts(1-4), OF demo_request_made(1) demo_denied] demo_forbidden
    unfolding run by (auto simp: answered_as_def panicked_def recovered_def sent_status_def)
  moreover have "\<forall>c k x. sign (web_jwt demo_web) c k = Inl x \<longrightarrow> \<not> denies x" by (simp add: demo_jwt_def)
  ultimately show ?thesis
    using forbidden_changes_nothing [of demo_web ?rq True EpTopologyGetByUuid "[(''topologyId'', ''t1'')]" demo_http_server,
      unfolded demo_web_parts(1), OF demo_routes(1)] by (metis prod.collapse)
qed

end
