(* ===== verification/Capture_Service.thy ===== *)
theory Capture_Service
  imports Errors "HOL-Library.Sublist"
begin

text \<open>
  The captures of the SSH server (\<open>src/sshserver/capture.go\<close>). Sessions that watch one interface share a stream: the first
  one opens it, the last one stops it. Every goroutine is a thread with a program counter, and a step is the code between
  two points where others can interfere: a critical section, a call of the provider, a channel operation. Streams,
  receivers and sessions are known by their addresses. What a select or a call into the provider or the session does is
  the input of the step. The fields \<open>st_read\<close> of a stream, \<open>rc_stream\<close>, \<open>rc_from\<close>, \<open>rc_missed\<close> of a receiver and \<open>ss_key\<close> of a
  session record what happened and are not read.
\<close>

section \<open>State\<close>

type_synonym packet = string

datatype written = FileHeader | Packet packet

text \<open>\<open>sync.Once\<close> of a stream: the calls that come while the first one runs wait for it.\<close>

datatype once = OnceNew | OnceRunning | OnceDone

record cap_stream =
  st_key :: string
  st_source :: "nat option"
  st_opened :: bool
  st_openErr :: "go_error option"
  st_cancelled :: bool
  st_receivers :: "nat list"
  st_done :: bool
  st_once :: once
  st_read :: "packet list"

record cap_receiver =
  rc_ch :: "packet list"
  rc_stream :: nat
  rc_from :: nat
  rc_missed :: bool

text \<open>A session: whether its connection has ended, whether \<open>writeStream\<close> has returned, whether its input has ended, whether
  the watcher has found it closed, and what was written to it.\<close>

record cap_session =
  ss_ctxDone :: bool
  ss_cancelled :: bool
  ss_inputDone :: bool
  ss_closed :: bool
  ss_key :: string
  ss_out :: "written list"

text \<open>\<open>cs_sources\<close> is the number of captures the provider has opened, \<open>cs_sourceClosed\<close> the calls of \<open>Close\<close> on them.\<close>

record cap_state =
  cs_streams :: "cap_stream list"
  cs_receivers :: "cap_receiver list"
  cs_sessions :: "cap_session list"
  cs_openStreams :: "string \<rightharpoonup> nat"
  cs_closed :: bool
  cs_sources :: nat
  cs_sourceClosed :: "nat list"

definition CreateCaptureService :: cap_state where
  "CreateCaptureService = \<lparr>cs_streams = [], cs_receivers = [], cs_sessions = [], cs_openStreams = Map.empty,
     cs_closed = False, cs_sources = 0, cs_sourceClosed = []\<rparr>"

definition capture_capacity :: nat where "capture_capacity = 1024"

definition errCaptureServiceClosed :: go_error where
  "errCaptureServiceClosed = Foreign ''the capture service is shutting down''"

definition context_canceled :: go_error where
  "context_canceled = Foreign ''context canceled''"

definition getCaptureKey :: "string \<Rightarrow> string \<Rightarrow> string \<Rightarrow> string" where
  "getCaptureKey instanceName nodeName interfaceName = instanceName @ ''/'' @ nodeName @ ''/'' @ interfaceName"

abbreviation strm :: "nat \<Rightarrow> cap_state \<Rightarrow> cap_stream" where
  "strm a S \<equiv> cs_streams S ! a"

abbreviation rcvr :: "nat \<Rightarrow> cap_state \<Rightarrow> cap_receiver" where
  "rcvr r S \<equiv> cs_receivers S ! r"

abbreviation sess :: "nat \<Rightarrow> cap_state \<Rightarrow> cap_session" where
  "sess s S \<equiv> cs_sessions S ! s"

definition on_stream :: "nat \<Rightarrow> (cap_stream \<Rightarrow> cap_stream) \<Rightarrow> cap_state \<Rightarrow> cap_state" where
  "on_stream a f S = S\<lparr>cs_streams := (cs_streams S)[a := f (strm a S)]\<rparr>"

definition on_receiver :: "nat \<Rightarrow> (cap_receiver \<Rightarrow> cap_receiver) \<Rightarrow> cap_state \<Rightarrow> cap_state" where
  "on_receiver r f S = S\<lparr>cs_receivers := (cs_receivers S)[r := f (rcvr r S)]\<rparr>"

definition on_session :: "nat \<Rightarrow> (cap_session \<Rightarrow> cap_session) \<Rightarrow> cap_state \<Rightarrow> cap_state" where
  "on_session s f S = S\<lparr>cs_sessions := (cs_sessions S)[s := f (sess s S)]\<rparr>"

definition close_source :: "nat \<Rightarrow> cap_state \<Rightarrow> cap_state" where
  "close_source src S = S\<lparr>cs_sourceClosed := cs_sourceClosed S @ [src]\<rparr>"

section \<open>Threads\<close>

text \<open>What a thread does after \<open>shutdown\<close>: return from \<open>Capture\<close>, end, close \<open>opened\<close>, or shut down the next streams.\<close>

datatype after = ReturnCapture "go_error option" | EndThread | CloseOpened nat | ShutdownRest "nat list"

datatype cap_pc =
    Subscribe nat string string string
  | WaitOpened nat nat nat
  | WriteHeader nat nat nat
  | Writing nat nat nat
  | WritePacket nat nat nat packet
  | Unsubscribe nat nat nat "go_error option"
  | CaptureReturned "go_error option"
  | OpenCapture nat
  | InstallSource nat nat
  | AbandonSource nat nat
  | OpenedClose nat
  | ReadPacketData nat
  | Deliver nat packet
  | CaptureEnded nat after
  | ShutEnter nat after
  | ShutCancel nat after
  | ShutDone nat after
  | ShutRead nat after
  | ShutClose nat nat after
  | CloseService
  | InputCopy nat
  | Watch nat bool nat bool
  | Probe nat bool nat
  | Ended

text \<open>
  Inputs. \<open>Proceed\<close> goes on; \<open>CtxDone\<close>, \<open>SessionClosed\<close>, \<open>StreamDone\<close>, \<open>TakePacket\<close>, \<open>InputDone\<close>, \<open>QuickProbe\<close>, \<open>Tick\<close> are the case
  that a select takes; the others are what a call returns. \<open>CloseOrder\<close> is the order in which the streams are visited.
\<close>

datatype cap_input =
    Proceed | CtxDone | SessionClosed | StreamDone | TakePacket | InputDone | QuickProbe | Tick
  | Failed go_error | PacketData packet | CloseOrder "nat list"

fun continue_with :: "after \<Rightarrow> cap_pc" where
  "continue_with (ReturnCapture res) = CaptureReturned res"
| "continue_with EndThread = Ended"
| "continue_with (CloseOpened a) = OpenedClose a"
| "continue_with (ShutdownRest []) = Ended"
| "continue_with (ShutdownRest (a # as)) = ShutEnter a (ShutdownRest as)"

text \<open>A thread that goes on, the threads it starts, and the state.\<close>

type_synonym cap_result = "cap_pc \<times> cap_pc list \<times> cap_state"

definition goto :: "cap_pc \<Rightarrow> cap_state \<Rightarrow> cap_result option" where
  "goto p S = Some (p, [], S)"

section \<open>Subscribing\<close>

definition new_stream :: "string \<Rightarrow> cap_stream" where
  "new_stream key = \<lparr>st_key = key, st_source = None, st_opened = False, st_openErr = None, st_cancelled = False,
     st_receivers = [], st_done = False, st_once = OnceNew, st_read = []\<rparr>"

text \<open>The stream of a key, which is made if there is none.\<close>

definition fetch_stream :: "string \<Rightarrow> cap_state \<Rightarrow> nat \<times> cap_pc list \<times> cap_state" where
  "fetch_stream key S =
     (case cs_openStreams S key of
        Some a \<Rightarrow> (a, [], S)
      | None \<Rightarrow>
          (let a = length (cs_streams S) in
           (a, [OpenCapture a],
            S\<lparr>cs_streams := cs_streams S @ [new_stream key], cs_openStreams := (cs_openStreams S)(key \<mapsto> a)\<rparr>)))"

definition add_receiver :: "nat \<Rightarrow> cap_state \<Rightarrow> cap_state" where
  "add_receiver a S =
     on_stream a (\<lambda>st. st\<lparr>st_receivers := length (cs_receivers S) # st_receivers st\<rparr>)
       (S\<lparr>cs_receivers := cs_receivers S @
            [\<lparr>rc_ch = [], rc_stream = a, rc_from = length (st_read (strm a S)), rc_missed = False\<rparr>]\<rparr>)"

definition subscribe :: "nat \<Rightarrow> string \<Rightarrow> string \<Rightarrow> string \<Rightarrow> cap_state \<Rightarrow> cap_result option" where
  "subscribe s instanceName nodeName interfaceName S =
     (if cs_closed S then goto (CaptureReturned (Some errCaptureServiceClosed)) S
      else (case fetch_stream (getCaptureKey instanceName nodeName interfaceName) S of
        (a, new, S') \<Rightarrow> Some (WaitOpened s a (length (cs_receivers S)), new, add_receiver a S')))"

definition wait_opened :: "nat \<Rightarrow> nat \<Rightarrow> nat \<Rightarrow> cap_input \<Rightarrow> cap_state \<Rightarrow> cap_result option" where
  "wait_opened s a r i S =
     (case i of
        Proceed \<Rightarrow>
          if \<not> st_opened (strm a S) then None
          else (case st_openErr (strm a S) of
                  Some err \<Rightarrow> goto (Unsubscribe s a r (Some err)) S
                | None \<Rightarrow> goto (WriteHeader s a r) S)
      | CtxDone \<Rightarrow> if ss_ctxDone (sess s S) then goto (Unsubscribe s a r (Some context_canceled)) S else None
      | _ \<Rightarrow> None)"

definition unsubscribe :: "nat \<Rightarrow> nat \<Rightarrow> go_error option \<Rightarrow> cap_state \<Rightarrow> cap_result option" where
  "unsubscribe a r res S =
     (let S' = on_stream a (\<lambda>st. st\<lparr>st_receivers := removeAll r (st_receivers st)\<rparr>) S;
          empty = st_receivers (strm a S') = [];
          key = st_key (strm a S) in
      if empty then
        goto (ShutEnter a (ReturnCapture res))
          (if cs_openStreams S' key = Some a then S'\<lparr>cs_openStreams := (cs_openStreams S')(key := None)\<rparr> else S')
      else goto (CaptureReturned res) S')"

section \<open>Opening, reading and ending a capture\<close>

text \<open>
  The call of the provider gets the instance, the node and the interface that the subscriber who made the stream
  named. What it does with them is its reply here, and the stream keeps the key that is made of the three.
\<close>

definition open_capture :: "nat \<Rightarrow> cap_input \<Rightarrow> cap_state \<Rightarrow> cap_result option" where
  "open_capture a i S =
     (case i of
        Proceed \<Rightarrow> goto (InstallSource a (cs_sources S)) (S\<lparr>cs_sources := cs_sources S + 1\<rparr>)
      | Failed err \<Rightarrow>
          goto (CaptureEnded a (CloseOpened a)) (on_stream a (\<lambda>st. st\<lparr>st_openErr := Some err\<rparr>) S)
      | _ \<Rightarrow> None)"

definition install_source :: "nat \<Rightarrow> nat \<Rightarrow> cap_state \<Rightarrow> cap_result option" where
  "install_source a src S =
     (if st_done (strm a S) then goto (AbandonSource a src) S
      else Some (OpenedClose a, [ReadPacketData a], on_stream a (\<lambda>st. st\<lparr>st_source := Some src\<rparr>) S))"

definition abandon_source :: "nat \<Rightarrow> nat \<Rightarrow> cap_state \<Rightarrow> cap_result option" where
  "abandon_source a src S =
     goto (OpenedClose a)
       (on_stream a (\<lambda>st. st\<lparr>st_openErr := Some errCaptureServiceClosed\<rparr>) (close_source src S))"

definition read_packet_data :: "nat \<Rightarrow> cap_input \<Rightarrow> cap_state \<Rightarrow> cap_result option" where
  "read_packet_data a i S =
     (case i of
        PacketData p \<Rightarrow> goto (Deliver a p) S
      | Failed err \<Rightarrow> goto (CaptureEnded a EndThread) S
      | _ \<Rightarrow> None)"

text \<open>A packet is put into the channels that have room.\<close>

definition offer :: "packet \<Rightarrow> cap_receiver \<Rightarrow> cap_receiver" where
  "offer p rc = (if length (rc_ch rc) < capture_capacity then rc\<lparr>rc_ch := rc_ch rc @ [p]\<rparr> else rc\<lparr>rc_missed := True\<rparr>)"

definition deliver :: "nat \<Rightarrow> packet \<Rightarrow> cap_state \<Rightarrow> cap_result option" where
  "deliver a p S =
     goto (ReadPacketData a)
       (on_stream a (\<lambda>st. st\<lparr>st_read := st_read st @ [p]\<rparr>)
         (fold (\<lambda>r. on_receiver r (offer p)) (st_receivers (strm a S)) S))"

definition capture_ended :: "nat \<Rightarrow> after \<Rightarrow> cap_state \<Rightarrow> cap_result option" where
  "capture_ended a k S =
     (let key = st_key (strm a S) in
      goto (ShutEnter a k)
        (if cs_openStreams S key = Some a then S\<lparr>cs_openStreams := (cs_openStreams S)(key := None)\<rparr> else S))"

section \<open>Shutting a stream down\<close>

definition shut_enter :: "nat \<Rightarrow> after \<Rightarrow> cap_state \<Rightarrow> cap_result option" where
  "shut_enter a k S =
     (case st_once (strm a S) of
        OnceNew \<Rightarrow> goto (ShutCancel a k) (on_stream a (\<lambda>st. st\<lparr>st_once := OnceRunning\<rparr>) S)
      | OnceRunning \<Rightarrow> None
      | OnceDone \<Rightarrow> goto (continue_with k) S)"

definition shut_read :: "nat \<Rightarrow> after \<Rightarrow> cap_state \<Rightarrow> cap_result option" where
  "shut_read a k S =
     (case st_source (strm a S) of
        None \<Rightarrow> goto (continue_with k) (on_stream a (\<lambda>st. st\<lparr>st_once := OnceDone\<rparr>) S)
      | Some src \<Rightarrow> goto (ShutClose a src k) S)"

text \<open>The streams in the registry.\<close>

definition open_streams :: "cap_state \<Rightarrow> nat list" where
  "open_streams S =
     filter (\<lambda>a. cs_openStreams S (st_key (strm a S)) = Some a) [0..<length (cs_streams S)]"

definition close_service :: "cap_input \<Rightarrow> cap_state \<Rightarrow> cap_result option" where
  "close_service i S =
     (case i of
        CloseOrder as \<Rightarrow>
          if distinct as \<and> set as = set (open_streams S)
          then goto (continue_with (ShutdownRest as)) (S\<lparr>cs_closed := True, cs_openStreams := Map.empty\<rparr>)
          else None
      | _ \<Rightarrow> None)"

section \<open>Writing to a session\<close>

text \<open>The number of quick probes that follow the end of the input.\<close>

definition inputProbeDelays :: nat where "inputProbeDelays = 3"

definition write_header :: "nat \<Rightarrow> nat \<Rightarrow> nat \<Rightarrow> cap_input \<Rightarrow> cap_state \<Rightarrow> cap_result option" where
  "write_header s a r i S =
     (case i of
        Proceed \<Rightarrow> Some (Writing s a r, [InputCopy s, Watch s False 0 False],
                       on_session s (\<lambda>x. x\<lparr>ss_out := ss_out x @ [FileHeader]\<rparr>) S)
      | Failed err \<Rightarrow> goto (Unsubscribe s a r (Some err)) S
      | _ \<Rightarrow> None)"

text \<open>Leaving \<open>writeStream\<close> cancels the context of the watcher.\<close>

definition leave_stream :: "nat \<Rightarrow> nat \<Rightarrow> nat \<Rightarrow> go_error option \<Rightarrow> cap_state \<Rightarrow> cap_result option" where
  "leave_stream s a r res S = goto (Unsubscribe s a r res) (on_session s (\<lambda>x. x\<lparr>ss_cancelled := True\<rparr>) S)"

definition write_stream :: "nat \<Rightarrow> nat \<Rightarrow> nat \<Rightarrow> cap_input \<Rightarrow> cap_state \<Rightarrow> cap_result option" where
  "write_stream s a r i S =
     (case i of
        TakePacket \<Rightarrow>
          (case rc_ch (rcvr r S) of
             [] \<Rightarrow> None
           | p # ps \<Rightarrow> goto (WritePacket s a r p) (on_receiver r (\<lambda>x. x\<lparr>rc_ch := ps\<rparr>) S))
      | SessionClosed \<Rightarrow> if ss_closed (sess s S) then leave_stream s a r None S else None
      | CtxDone \<Rightarrow> if ss_ctxDone (sess s S) then leave_stream s a r (Some context_canceled) S else None
      | StreamDone \<Rightarrow> if st_done (strm a S) then leave_stream s a r None S else None
      | _ \<Rightarrow> None)"

definition write_packet :: "nat \<Rightarrow> nat \<Rightarrow> nat \<Rightarrow> packet \<Rightarrow> cap_input \<Rightarrow> cap_state \<Rightarrow> cap_result option" where
  "write_packet s a r p i S =
     (case i of
        Proceed \<Rightarrow> goto (Writing s a r) (on_session s (\<lambda>x. x\<lparr>ss_out := ss_out x @ [Packet p]\<rparr>) S)
      | Failed err \<Rightarrow> leave_stream s a r (Some err) S
      | _ \<Rightarrow> None)"

text \<open>
  The watcher of a session: \<open>Watch s seen n armed\<close> waits, having seen the end of the input or not, with \<open>n\<close> quick probes
  to come and one armed or not; a probe that fails has found the session closed.
\<close>

definition watch_session :: "nat \<Rightarrow> bool \<Rightarrow> nat \<Rightarrow> bool \<Rightarrow> cap_input \<Rightarrow> cap_state \<Rightarrow> cap_result option" where
  "watch_session s seen n armed i S =
     (case i of
        InputDone \<Rightarrow> if \<not> seen \<and> ss_inputDone (sess s S) then goto (Probe s True inputProbeDelays) S else None
      | QuickProbe \<Rightarrow> if armed then goto (Probe s seen n) S else None
      | Tick \<Rightarrow> goto (Probe s seen n) S
      | CtxDone \<Rightarrow> if ss_ctxDone (sess s S) \<or> ss_cancelled (sess s S) then goto Ended S else None
      | _ \<Rightarrow> None)"

definition probe_session :: "nat \<Rightarrow> bool \<Rightarrow> nat \<Rightarrow> cap_input \<Rightarrow> cap_state \<Rightarrow> cap_result option" where
  "probe_session s seen n i S =
     (case i of
        Failed err \<Rightarrow> goto Ended (on_session s (\<lambda>x. x\<lparr>ss_closed := True\<rparr>) S)
      | Proceed \<Rightarrow> goto (Watch s seen (n - 1) (n > 0)) S
      | _ \<Rightarrow> None)"

section \<open>Steps\<close>

fun cap_exec :: "cap_pc \<Rightarrow> cap_input \<Rightarrow> cap_state \<Rightarrow> cap_result option" where
  "cap_exec (Subscribe s instanceName nodeName interfaceName) i S = subscribe s instanceName nodeName interfaceName S"
| "cap_exec (WaitOpened s a r) i S = wait_opened s a r i S"
| "cap_exec (WriteHeader s a r) i S = write_header s a r i S"
| "cap_exec (Writing s a r) i S = write_stream s a r i S"
| "cap_exec (WritePacket s a r p) i S = write_packet s a r p i S"
| "cap_exec (Unsubscribe s a r res) i S = unsubscribe a r res S"
| "cap_exec (OpenCapture a) i S = open_capture a i S"
| "cap_exec (InstallSource a src) i S = install_source a src S"
| "cap_exec (AbandonSource a src) i S = abandon_source a src S"
| "cap_exec (OpenedClose a) i S = goto Ended (on_stream a (\<lambda>st. st\<lparr>st_opened := True\<rparr>) S)"
| "cap_exec (ReadPacketData a) i S = read_packet_data a i S"
| "cap_exec (Deliver a p) i S = deliver a p S"
| "cap_exec (CaptureEnded a k) i S = capture_ended a k S"
| "cap_exec (ShutEnter a k) i S = shut_enter a k S"
| "cap_exec (ShutCancel a k) i S = goto (ShutDone a k) (on_stream a (\<lambda>st. st\<lparr>st_cancelled := True\<rparr>) S)"
| "cap_exec (ShutDone a k) i S = goto (ShutRead a k) (on_stream a (\<lambda>st. st\<lparr>st_done := True\<rparr>) S)"
| "cap_exec (ShutRead a k) i S = shut_read a k S"
| "cap_exec (ShutClose a src k) i S =
     goto (continue_with k) (on_stream a (\<lambda>st. st\<lparr>st_once := OnceDone\<rparr>) (close_source src S))"
| "cap_exec CloseService i S = close_service i S"
| "cap_exec (InputCopy s) i S = goto Ended (on_session s (\<lambda>x. x\<lparr>ss_inputDone := True\<rparr>) S)"
| "cap_exec (Watch s seen n armed) i S = watch_session s seen n armed i S"
| "cap_exec (Probe s seen n) i S = probe_session s seen n i S"
| "cap_exec (CaptureReturned res) i S = None"
| "cap_exec Ended i S = None"

definition new_session :: "string \<Rightarrow> cap_session" where
  "new_session key = \<lparr>ss_ctxDone = False, ss_cancelled = False, ss_inputDone = False, ss_closed = False, ss_key = key,
     ss_out = []\<rparr>"

text \<open>Sessions come, connections end, the service is closed, and threads run, in any order.\<close>

inductive cap_step :: "cap_pc list \<times> cap_state \<Rightarrow> cap_pc list \<times> cap_state \<Rightarrow> bool" where
  cap_capture: "cap_step (ps, S) (ps @ [Subscribe (length (cs_sessions S)) instanceName nodeName interfaceName],
     S\<lparr>cs_sessions := cs_sessions S @ [new_session (getCaptureKey instanceName nodeName interfaceName)]\<rparr>)"
| cap_disconnect: "s < length (cs_sessions S) \<Longrightarrow> cap_step (ps, S) (ps, on_session s (\<lambda>x. x\<lparr>ss_ctxDone := True\<rparr>) S)"
| cap_close: "cap_step (ps, S) (ps @ [CloseService], S)"
| cap_run: "j < length ps \<Longrightarrow> cap_exec (ps ! j) i S = Some (p, new, S') \<Longrightarrow> cap_step (ps, S) (ps[j := p] @ new, S')"

inductive_cases cap_stepE: "cap_step x y"

inductive cap_reachable :: "cap_pc list \<times> cap_state \<Rightarrow> bool" where
  cap_start: "cap_reachable ([], CreateCaptureService)"
| cap_more: "cap_reachable x \<Longrightarrow> cap_step x y \<Longrightarrow> cap_reachable y"

end
