(* ===== verification/Capture_Safety.thy ===== *)
theory Capture_Safety
  imports Capture_Service
begin

text \<open>
  Every capture that the provider opens for SSH sessions is closed once: as long as it is open there is a session that
  watches it or a thread that is about to close it. And what a session is sent is what was captured, in order.
\<close>

section \<open>Effects\<close>

lemma on_stream_fields [simp]:
  "length (cs_streams (on_stream a f S)) = length (cs_streams S)"
  "cs_receivers (on_stream a f S) = cs_receivers S" "cs_sessions (on_stream a f S) = cs_sessions S"
  "cs_openStreams (on_stream a f S) = cs_openStreams S" "cs_closed (on_stream a f S) = cs_closed S"
  "cs_sources (on_stream a f S) = cs_sources S" "cs_sourceClosed (on_stream a f S) = cs_sourceClosed S"
  "a < length (cs_streams S) \<Longrightarrow> strm b (on_stream a f S) = (if b = a then f (strm a S) else strm b S)"
  by (auto simp: on_stream_def)

lemma on_session_fields [simp]:
  "cs_streams (on_session s g S) = cs_streams S" "cs_receivers (on_session s g S) = cs_receivers S"
  "length (cs_sessions (on_session s g S)) = length (cs_sessions S)"
  "cs_openStreams (on_session s g S) = cs_openStreams S" "cs_closed (on_session s g S) = cs_closed S"
  "cs_sources (on_session s g S) = cs_sources S" "cs_sourceClosed (on_session s g S) = cs_sourceClosed S"
  "s < length (cs_sessions S) \<Longrightarrow> sess t (on_session s g S) = (if t = s then g (sess s S) else sess t S)"
  by (auto simp: on_session_def)

lemma on_receiver_fields [simp]:
  "cs_streams (on_receiver r g S) = cs_streams S" "cs_sessions (on_receiver r g S) = cs_sessions S"
  "length (cs_receivers (on_receiver r g S)) = length (cs_receivers S)"
  "cs_openStreams (on_receiver r g S) = cs_openStreams S" "cs_closed (on_receiver r g S) = cs_closed S"
  "cs_sources (on_receiver r g S) = cs_sources S" "cs_sourceClosed (on_receiver r g S) = cs_sourceClosed S"
  "r < length (cs_receivers S) \<Longrightarrow> rcvr q (on_receiver r g S) = (if q = r then g (rcvr r S) else rcvr q S)"
  by (auto simp: on_receiver_def)

lemma close_source_fields [simp]:
  "cs_streams (close_source src S) = cs_streams S" "cs_receivers (close_source src S) = cs_receivers S"
  "cs_sessions (close_source src S) = cs_sessions S" "cs_openStreams (close_source src S) = cs_openStreams S"
  "cs_sources (close_source src S) = cs_sources S" "cs_closed (close_source src S) = cs_closed S"
  "cs_sourceClosed (close_source src S) = cs_sourceClosed S @ [src]"
  by (simp_all add: close_source_def)

lemma offers_fields [simp]:
  "cs_streams (fold (\<lambda>r. on_receiver r g) rs S) = cs_streams S"
  "cs_sessions (fold (\<lambda>r. on_receiver r g) rs S) = cs_sessions S"
  "length (cs_receivers (fold (\<lambda>r. on_receiver r g) rs S)) = length (cs_receivers S)"
  "cs_openStreams (fold (\<lambda>r. on_receiver r g) rs S) = cs_openStreams S"
  "cs_sources (fold (\<lambda>r. on_receiver r g) rs S) = cs_sources S"
  "cs_sourceClosed (fold (\<lambda>r. on_receiver r g) rs S) = cs_sourceClosed S"
  by (induction rs arbitrary: S) simp_all

lemma goto_Some [simp]: "goto p S = Some (p', new, S') \<longleftrightarrow> p' = p \<and> new = [] \<and> S' = S"
  by (auto simp: goto_def)

lemmas cap_steps = subscribe_def wait_opened_def unsubscribe_def open_capture_def install_source_def abandon_source_def
  read_packet_data_def deliver_def capture_ended_def shut_enter_def shut_read_def close_service_def write_header_def
  leave_stream_def write_stream_def write_packet_def watch_session_def probe_session_def

section \<open>What threads stand for\<close>

fun rest_of :: "after \<Rightarrow> nat set" where
  "rest_of (ShutdownRest as) = set as"
| "rest_of _ = {}"

text \<open>The streams a thread will still shut down, the one whose shutdown it is executing, the stream it is opening, the
  source it has opened, the receiver it will unsubscribe.\<close>

fun will_shut :: "cap_pc \<Rightarrow> nat set" where
  "will_shut (CaptureEnded a k) = insert a (rest_of k)"
| "will_shut (ShutEnter a k) = insert a (rest_of k)"
| "will_shut (ShutCancel a k) = insert a (rest_of k)"
| "will_shut (ShutDone a k) = insert a (rest_of k)"
| "will_shut (ShutRead a k) = insert a (rest_of k)"
| "will_shut (ShutClose a src k) = insert a (rest_of k)"
| "will_shut _ = {}"

fun shutting :: "cap_pc \<Rightarrow> nat option" where
  "shutting (ShutCancel a k) = Some a"
| "shutting (ShutDone a k) = Some a"
| "shutting (ShutRead a k) = Some a"
| "shutting (ShutClose a src k) = Some a"
| "shutting _ = None"

fun opens_stream :: "cap_pc \<Rightarrow> nat option" where
  "opens_stream (OpenCapture a) = Some a"
| "opens_stream (InstallSource a src) = Some a"
| "opens_stream (AbandonSource a src) = Some a"
| "opens_stream _ = None"

fun carries :: "cap_pc \<Rightarrow> nat option" where
  "carries (InstallSource a src) = Some src"
| "carries (AbandonSource a src) = Some src"
| "carries _ = None"

fun watches :: "cap_pc \<Rightarrow> (nat \<times> nat) option" where
  "watches (WaitOpened s a r) = Some (a, r)"
| "watches (WriteHeader s a r) = Some (a, r)"
| "watches (Writing s a r) = Some (a, r)"
| "watches (WritePacket s a r p) = Some (a, r)"
| "watches (Unsubscribe s a r res) = Some (a, r)"
| "watches _ = None"

lemma continue_with_facts [simp]:
  "will_shut (continue_with k) = rest_of k" "shutting (continue_with k) = None" "opens_stream (continue_with k) = None"
  "carries (continue_with k) = None" "watches (continue_with k) = None"
  by (cases k rule: continue_with.cases; simp)+

lemma continue_with_not [simp]:
  "continue_with k \<noteq> ShutRead a k'" "continue_with k \<noteq> ShutClose a src k'"
  by (cases k rule: continue_with.cases; simp)+

section \<open>No two threads\<close>

definition one_each :: "('p \<Rightarrow> 'b option) \<Rightarrow> 'p list \<Rightarrow> bool" where
  "one_each f ps \<longleftrightarrow> (\<forall>i j b. i < length ps \<longrightarrow> j < length ps \<longrightarrow> f (ps ! i) = Some b \<longrightarrow> f (ps ! j) = Some b \<longrightarrow> i = j)"

lemma one_each_Nil [simp]: "one_each f []"
  by (simp add: one_each_def)

lemma one_each_update:
  assumes "one_each f ps" "j < length ps"
    and "f p = None \<or> f p = f (ps ! j) \<or> (\<forall>i < length ps. i \<noteq> j \<longrightarrow> f (ps ! i) \<noteq> f p)"
  shows "one_each f (ps[j := p])"
  using assms by (auto simp: one_each_def nth_list_update) metis+

lemma one_each_append:
  assumes "one_each f ps" "\<forall>q \<in> set new. f q = None"
  shows "one_each f (ps @ new)"
  unfolding one_each_def
proof (intro allI impI)
  fix i j b
  assume h: "i < length (ps @ new)" "j < length (ps @ new)" "f ((ps @ new) ! i) = Some b" "f ((ps @ new) ! j) = Some b"
  have "i < length ps" if "i < length (ps @ new)" "f ((ps @ new) ! i) = Some b" for i
    using that assms(2) by (auto simp: nth_append split: if_splits)
  with h have "i < length ps" "j < length ps" by blast+
  then show "i = j" using h(3,4) assms(1) by (auto simp: one_each_def nth_append)
qed

lemma one_each_fresh:
  assumes "one_each f ps" "\<forall>q \<in> set ps. f q \<noteq> f p"
  shows "one_each f (ps @ [p])"
  using assms by (auto simp: one_each_def nth_append less_Suc_eq)

section \<open>The invariant\<close>

fun after_streams :: "after \<Rightarrow> nat set" where
  "after_streams (ShutdownRest as) = set as"
| "after_streams (CloseOpened a) = {a}"
| "after_streams _ = {}"

text \<open>The streams a thread works on.\<close>

fun streams_of :: "cap_pc \<Rightarrow> nat set" where
  "streams_of (WaitOpened s a r) = {a}"
| "streams_of (WriteHeader s a r) = {a}"
| "streams_of (Writing s a r) = {a}"
| "streams_of (WritePacket s a r p) = {a}"
| "streams_of (Unsubscribe s a r res) = {a}"
| "streams_of (OpenCapture a) = {a}"
| "streams_of (InstallSource a src) = {a}"
| "streams_of (AbandonSource a src) = {a}"
| "streams_of (OpenedClose a) = {a}"
| "streams_of (ReadPacketData a) = {a}"
| "streams_of (Deliver a p) = {a}"
| "streams_of (CaptureEnded a k) = insert a (after_streams k)"
| "streams_of (ShutEnter a k) = insert a (after_streams k)"
| "streams_of (ShutCancel a k) = insert a (after_streams k)"
| "streams_of (ShutDone a k) = insert a (after_streams k)"
| "streams_of (ShutRead a k) = insert a (after_streams k)"
| "streams_of (ShutClose a src k) = insert a (after_streams k)"
| "streams_of _ = {}"

lemma streams_of_continue [simp]: "streams_of (continue_with k) = after_streams k"
  by (cases k rule: continue_with.cases) simp_all

fun sessions_of :: "cap_pc \<Rightarrow> nat set" where
  "sessions_of (Subscribe s i n f) = {s}"
| "sessions_of (WaitOpened s a r) = {s}"
| "sessions_of (WriteHeader s a r) = {s}"
| "sessions_of (Writing s a r) = {s}"
| "sessions_of (WritePacket s a r p) = {s}"
| "sessions_of (Unsubscribe s a r res) = {s}"
| "sessions_of (InputCopy s) = {s}"
| "sessions_of (Watch s seen n armed) = {s}"
| "sessions_of (Probe s seen n) = {s}"
| "sessions_of _ = {}"

lemma sessions_of_continue [simp]: "sessions_of (continue_with k) = {}"
  by (cases k rule: continue_with.cases) simp_all

definition addresses_ok :: "cap_state \<Rightarrow> cap_pc \<Rightarrow> bool" where
  "addresses_ok S p \<longleftrightarrow> streams_of p \<subseteq> {..< length (cs_streams S)} \<and> sessions_of p \<subseteq> {..< length (cs_sessions S)} \<and>
     (\<forall>a r. watches p = Some (a, r) \<longrightarrow> r < length (cs_receivers S))"

definition registry_ok :: "cap_state \<Rightarrow> bool" where
  "registry_ok S \<longleftrightarrow>
     (\<forall>k a. cs_openStreams S k = Some a \<longrightarrow>
        a < length (cs_streams S) \<and> st_key (strm a S) = k \<and> st_receivers (strm a S) \<noteq> []) \<and>
     (\<forall>a < length (cs_streams S). \<forall>r \<in> set (st_receivers (strm a S)). r < length (cs_receivers S))"

lemma set_open_streams: "registry_ok S \<Longrightarrow> set (open_streams S) = ran (cs_openStreams S)"
  by (auto simp: open_streams_def registry_ok_def ran_def)

text \<open>The steps that work on the registry of streams, and those that leave it alone.\<close>

fun on_registry :: "cap_pc \<Rightarrow> bool" where
  "on_registry (Subscribe s i n f) = True"
| "on_registry (Unsubscribe s a r res) = True"
| "on_registry (CaptureEnded a k) = True"
| "on_registry CloseService = True"
| "on_registry _ = False"

definition same_registry :: "cap_state \<Rightarrow> cap_state \<Rightarrow> bool" where
  "same_registry S S' \<longleftrightarrow> cs_openStreams S' = cs_openStreams S \<and> length (cs_streams S') = length (cs_streams S)
     \<and> length (cs_receivers S') = length (cs_receivers S)
     \<and> (\<forall>a < length (cs_streams S). st_key (strm a S') = st_key (strm a S) \<and> st_receivers (strm a S') = st_receivers (strm a S))"

lemma same_registry_step:
  assumes "addresses_ok S pc" "\<not> on_registry pc" "cap_exec pc i S = Some (p, new, S')"
  shows "same_registry S S'"
  using assms
  by (cases pc; auto simp: cap_steps same_registry_def addresses_ok_def
      split: option.splits cap_input.splits if_splits once.splits list.splits)

text \<open>The steps on the registry.\<close>

lemma subscribe_step:
  assumes "subscribe s i n f S = Some (p, new, S')"
  shows "(p = CaptureReturned (Some errCaptureServiceClosed) \<and> new = [] \<and> S' = S)
    \<or> (\<exists>a. cs_openStreams S (getCaptureKey i n f) = Some a \<and> p = WaitOpened s a (length (cs_receivers S)) \<and> new = []
          \<and> S' = add_receiver a S)
    \<or> (cs_openStreams S (getCaptureKey i n f) = None
          \<and> p = WaitOpened s (length (cs_streams S)) (length (cs_receivers S)) \<and> new = [OpenCapture (length (cs_streams S))]
          \<and> S' = add_receiver (length (cs_streams S))
                (S\<lparr>cs_streams := cs_streams S @ [new_stream (getCaptureKey i n f)],
                   cs_openStreams := (cs_openStreams S)(getCaptureKey i n f \<mapsto> length (cs_streams S))\<rparr>))"
  using assms by (auto simp: subscribe_def fetch_stream_def Let_def split: if_splits option.splits)

lemma add_receiver_fields [simp]:
  "length (cs_streams (add_receiver a S)) = length (cs_streams S)"
  "length (cs_receivers (add_receiver a S)) = Suc (length (cs_receivers S))"
  "cs_sessions (add_receiver a S) = cs_sessions S" "cs_openStreams (add_receiver a S) = cs_openStreams S"
  "cs_sources (add_receiver a S) = cs_sources S" "cs_sourceClosed (add_receiver a S) = cs_sourceClosed S"
  "cs_closed (add_receiver a S) = cs_closed S"
  "a < length (cs_streams S) \<Longrightarrow> strm b (add_receiver a S) =
     (if b = a then (strm a S)\<lparr>st_receivers := length (cs_receivers S) # st_receivers (strm a S)\<rparr> else strm b S)"
  by (simp_all add: add_receiver_def)

definition unregister :: "nat \<Rightarrow> cap_state \<Rightarrow> cap_state" where
  "unregister a S = (if cs_openStreams S (st_key (strm a S)) = Some a
     then S\<lparr>cs_openStreams := (cs_openStreams S)(st_key (strm a S) := None)\<rparr> else S)"

lemma unregister_fields [simp]:
  "cs_streams (unregister a S) = cs_streams S" "cs_receivers (unregister a S) = cs_receivers S"
  "cs_sessions (unregister a S) = cs_sessions S" "cs_sources (unregister a S) = cs_sources S"
  "cs_sourceClosed (unregister a S) = cs_sourceClosed S"
  by (simp_all add: unregister_def)

lemma unregister_open:
  "cs_openStreams (unregister a S) k = Some b \<Longrightarrow> cs_openStreams S k = Some b"
  "cs_openStreams (unregister a S) (st_key (strm a S)) \<noteq> Some a"
  "cs_openStreams S k = Some b \<Longrightarrow> b \<noteq> a \<Longrightarrow> cs_openStreams (unregister a S) k = Some b"
  by (auto simp: unregister_def split: if_splits)

lemma unregister_ran: "b \<in> ran (cs_openStreams S) \<Longrightarrow> b \<noteq> a \<Longrightarrow> b \<in> ran (cs_openStreams (unregister a S))"
  by (auto simp: ran_def dest: unregister_open(3))

definition drop_receiver :: "nat \<Rightarrow> nat \<Rightarrow> cap_state \<Rightarrow> cap_state" where
  "drop_receiver a r S = on_stream a (\<lambda>st. st\<lparr>st_receivers := removeAll r (st_receivers st)\<rparr>) S"

lemma drop_receiver_fields [simp]:
  "length (cs_streams (drop_receiver a r S)) = length (cs_streams S)" "cs_receivers (drop_receiver a r S) = cs_receivers S"
  "cs_sessions (drop_receiver a r S) = cs_sessions S" "cs_openStreams (drop_receiver a r S) = cs_openStreams S"
  "cs_sources (drop_receiver a r S) = cs_sources S" "cs_sourceClosed (drop_receiver a r S) = cs_sourceClosed S"
  "a < length (cs_streams S) \<Longrightarrow> strm b (drop_receiver a r S) =
     (if b = a then (strm a S)\<lparr>st_receivers := removeAll r (st_receivers (strm a S))\<rparr> else strm b S)"
  by (simp_all add: drop_receiver_def)

lemma unsubscribe_step:
  assumes "unsubscribe a r res S = Some (p, new, S')" "a < length (cs_streams S)"
  shows "new = []" "(st_receivers (strm a (drop_receiver a r S)) = [] \<and> p = ShutEnter a (ReturnCapture res)
        \<and> S' = unregister a (drop_receiver a r S))
    \<or> (st_receivers (strm a (drop_receiver a r S)) \<noteq> [] \<and> p = CaptureReturned res \<and> S' = drop_receiver a r S)"
  using assms by (auto simp: unsubscribe_def unregister_def drop_receiver_def Let_def split: if_splits)

lemma ended_step: "capture_ended a k S = Some (p, new, S') \<longleftrightarrow> p = ShutEnter a k \<and> new = [] \<and> S' = unregister a S"
  by (auto simp: capture_ended_def unregister_def Let_def)

lemma registry_step:
  assumes "addresses_ok S pc" "registry_ok S" "cap_exec pc i S = Some (p, new, S')"
  shows "registry_ok S'"
proof (cases "on_registry pc")
  case False
  then show ?thesis using same_registry_step [OF assms(1) _ assms(3)] assms(2) by (auto simp: registry_ok_def same_registry_def)
next
  case True
  show ?thesis
  proof (cases pc)
    case (Subscribe s i n f)
    with assms(3) have "subscribe s i n f S = Some (p, new, S')" by simp
    from subscribe_step [OF this] show ?thesis
      using assms(2) by (elim disjE exE conjE) (auto simp: registry_ok_def nth_append less_Suc_eq new_stream_def)
  next
    case (Unsubscribe s a r res)
    then have a: "a < length (cs_streams S)" "unsubscribe a r res S = Some (p, new, S')"
      using assms(1,3) by (auto simp: addresses_ok_def)
    from unsubscribe_step(2) [OF a(2,1)] show ?thesis
      using assms(2) a(1) unregister_open(1,2) [of a "drop_receiver a r S"] by (elim disjE conjE) (auto simp: registry_ok_def dest: unregister_open(1))
  next
    case (CaptureEnded a k)
    then show ?thesis using assms(2,3) by (auto simp: ended_step registry_ok_def dest: unregister_open(1))
  qed (use True assms(2,3) in \<open>auto simp: close_service_def registry_ok_def split: cap_input.splits if_splits\<close>)
qed

text \<open>The number of streams, receivers and sessions only grows, and the keys of streams stay.\<close>

definition grows :: "cap_state \<Rightarrow> cap_state \<Rightarrow> bool" where
  "grows S S' \<longleftrightarrow> length (cs_streams S) \<le> length (cs_streams S') \<and> length (cs_receivers S) \<le> length (cs_receivers S')
     \<and> length (cs_sessions S) = length (cs_sessions S') \<and> cs_sources S \<le> cs_sources S'"

lemma grows_step:
  assumes "addresses_ok S pc" "cap_exec pc i S = Some (p, new, S')"
  shows "grows S S'"
proof (cases "\<exists>s a r res. pc = Unsubscribe s a r res")
  case True
  then obtain s a r res where "pc = Unsubscribe s a r res" by blast
  then have a: "a < length (cs_streams S)" "unsubscribe a r res S = Some (p, new, S')"
    using assms by (auto simp: addresses_ok_def)
  from unsubscribe_step(2) [OF a(2,1)] show ?thesis by (elim disjE conjE) (auto simp: grows_def)
next
  case False
  then show ?thesis
    using assms
    by (cases pc; auto simp: subscribe_def wait_opened_def open_capture_def install_source_def abandon_source_def ended_step
        read_packet_data_def deliver_def shut_enter_def shut_read_def close_service_def write_header_def leave_stream_def
        write_stream_def write_packet_def watch_session_def probe_session_def fetch_stream_def Let_def grows_def
        split: option.splits cap_input.splits if_splits once.splits list.splits)
qed

lemma addresses_other: "addresses_ok S q \<Longrightarrow> grows S S' \<Longrightarrow> addresses_ok S' q"
  by (fastforce simp: addresses_ok_def grows_def)

lemma addresses_step:
  assumes "addresses_ok S pc" "registry_ok S" "cap_exec pc i S = Some (p, new, S')"
  shows "addresses_ok S' p \<and> (\<forall>q \<in> set new. addresses_ok S' q)"
proof (cases "on_registry pc")
  case False
  then show ?thesis
    using assms
    by (cases pc; auto simp: cap_steps addresses_ok_def split: option.splits cap_input.splits if_splits once.splits list.splits)
next
  case True
  show ?thesis
  proof (cases pc)
    case (Subscribe s i n f)
    with assms(3) have "subscribe s i n f S = Some (p, new, S')" by simp
    from subscribe_step [OF this] show ?thesis
      using assms(1,2) Subscribe by (elim disjE exE conjE) (auto simp: addresses_ok_def registry_ok_def)
  next
    case (Unsubscribe s a r res)
    then have a: "a < length (cs_streams S)" "unsubscribe a r res S = Some (p, new, S')"
      using assms(1,3) by (auto simp: addresses_ok_def)
    from unsubscribe_step [OF a(2,1)] show ?thesis
      using assms(1) Unsubscribe a(1) by (auto simp: addresses_ok_def)
  next
    case (CaptureEnded a k)
    then show ?thesis using assms(1,3) by (auto simp: ended_step addresses_ok_def)
  qed (use True assms in \<open>auto simp: close_service_def addresses_ok_def open_streams_def split: cap_input.splits if_splits\<close>)
qed

section \<open>Sources\<close>

text \<open>A stream has at most one source, which no other stream has, and it is closed exactly when the shutdown is over.\<close>

definition sources_ok :: "cap_state \<Rightarrow> bool" where
  "sources_ok S \<longleftrightarrow>
     distinct (cs_sourceClosed S) \<and> set (cs_sourceClosed S) \<subseteq> {..< cs_sources S} \<and>
     (\<forall>a < length (cs_streams S). (st_once (strm a S) = OnceDone \<longrightarrow> st_done (strm a S)) \<and>
        (\<forall>src. st_source (strm a S) = Some src \<longrightarrow> src < cs_sources S \<and>
           (src \<in> set (cs_sourceClosed S) \<longleftrightarrow> st_once (strm a S) = OnceDone) \<and>
           (\<forall>b < length (cs_streams S). st_source (strm b S) = Some src \<longrightarrow> b = a)))"

definition source_thread_ok :: "cap_state \<Rightarrow> cap_pc \<Rightarrow> bool" where
  "source_thread_ok S p \<longleftrightarrow>
     (\<forall>a. shutting p = Some a \<longrightarrow> st_once (strm a S) = OnceRunning) \<and>
     (\<forall>a k. p = ShutRead a k \<longrightarrow> st_done (strm a S)) \<and>
     (\<forall>a src k. p = ShutClose a src k \<longrightarrow> st_done (strm a S) \<and> st_source (strm a S) = Some src) \<and>
     (\<forall>a. opens_stream p = Some a \<longrightarrow> st_source (strm a S) = None) \<and>
     (\<forall>src. carries p = Some src \<longrightarrow> src < cs_sources S \<and> src \<notin> set (cs_sourceClosed S) \<and>
        (\<forall>a < length (cs_streams S). st_source (strm a S) \<noteq> Some src))"

lemma source_thread_plain [simp]:
  "shutting p = None \<Longrightarrow> opens_stream p = None \<Longrightarrow> carries p = None \<Longrightarrow> source_thread_ok S p"
  by (cases p) (auto simp: source_thread_ok_def)

text \<open>The steps that work on sources, and those that leave them alone.\<close>

fun on_sources :: "cap_pc \<Rightarrow> bool" where
  "on_sources (OpenCapture a) = True"
| "on_sources (InstallSource a src) = True"
| "on_sources (AbandonSource a src) = True"
| "on_sources (ShutEnter a k) = True"
| "on_sources (ShutCancel a k) = True"
| "on_sources (ShutDone a k) = True"
| "on_sources (ShutRead a k) = True"
| "on_sources (ShutClose a src k) = True"
| "on_sources _ = False"

definition same_sources :: "cap_state \<Rightarrow> cap_state \<Rightarrow> bool" where
  "same_sources S S' \<longleftrightarrow> cs_sources S' = cs_sources S \<and> cs_sourceClosed S' = cs_sourceClosed S \<and>
     length (cs_streams S) \<le> length (cs_streams S') \<and>
     (\<forall>a < length (cs_streams S'). if a < length (cs_streams S)
        then st_source (strm a S') = st_source (strm a S) \<and> st_once (strm a S') = st_once (strm a S) \<and>
             st_done (strm a S') = st_done (strm a S)
        else st_source (strm a S') = None \<and> st_once (strm a S') = OnceNew)"

lemma same_sources_step:
  assumes "addresses_ok S pc" "registry_ok S" "\<not> on_sources pc" "cap_exec pc i S = Some (p, new, S')"
  shows "same_sources S S'"
proof (cases pc)
  case (Subscribe s i n f)
  with assms(4) have "subscribe s i n f S = Some (p, new, S')" by simp
  from subscribe_step [OF this] show ?thesis
    using assms(2) by (elim disjE exE conjE) (auto simp: same_sources_def registry_ok_def nth_append new_stream_def)
next
  case (Unsubscribe s a r res)
  then have a: "a < length (cs_streams S)" "unsubscribe a r res S = Some (p, new, S')"
    using assms by (auto simp: addresses_ok_def)
  from unsubscribe_step(2) [OF a(2,1)] show ?thesis using a(1) by (elim disjE conjE) (auto simp: same_sources_def)
next
  case (CaptureEnded a k)
  then show ?thesis using assms(4) by (auto simp: ended_step same_sources_def)
qed (use assms in \<open>auto simp: cap_steps same_sources_def addresses_ok_def
      split: option.splits cap_input.splits if_splits once.splits list.splits\<close>)

lemma same_sources_at:
  assumes "same_sources S S'"
  shows "cs_sources S' = cs_sources S" "cs_sourceClosed S' = cs_sourceClosed S"
    "a < length (cs_streams S') \<Longrightarrow> st_source (strm a S') = Some src \<Longrightarrow> a < length (cs_streams S) \<and> st_source (strm a S) = Some src"
    "a < length (cs_streams S') \<Longrightarrow> st_once (strm a S') = OnceDone \<Longrightarrow> a < length (cs_streams S)"
    "a < length (cs_streams S) \<Longrightarrow> st_once (strm a S') = st_once (strm a S) \<and> st_done (strm a S') = st_done (strm a S)
      \<and> st_source (strm a S') = st_source (strm a S)"
proof -
  show "cs_sources S' = cs_sources S" "cs_sourceClosed S' = cs_sourceClosed S" using assms by (simp_all add: same_sources_def)
  have at: "if a < length (cs_streams S)
      then st_source (strm a S') = st_source (strm a S) \<and> st_once (strm a S') = st_once (strm a S) \<and>
           st_done (strm a S') = st_done (strm a S)
      else st_source (strm a S') = None \<and> st_once (strm a S') = OnceNew" if "a < length (cs_streams S')" for a
    using assms that unfolding same_sources_def by blast
  show "a < length (cs_streams S') \<Longrightarrow> st_source (strm a S') = Some src \<Longrightarrow> a < length (cs_streams S) \<and> st_source (strm a S) = Some src"
    "a < length (cs_streams S') \<Longrightarrow> st_once (strm a S') = OnceDone \<Longrightarrow> a < length (cs_streams S)"
    using at [of a] by (auto split: if_splits)
  have "length (cs_streams S) \<le> length (cs_streams S')" using assms by (simp add: same_sources_def)
  then show "a < length (cs_streams S) \<Longrightarrow> st_once (strm a S') = st_once (strm a S) \<and> st_done (strm a S') = st_done (strm a S)
      \<and> st_source (strm a S') = st_source (strm a S)"
    using at [of a] by simp
qed

lemma sources_okI:
  assumes "distinct (cs_sourceClosed S)" "set (cs_sourceClosed S) \<subseteq> {..< cs_sources S}"
    and "\<And>a. a < length (cs_streams S) \<Longrightarrow> st_once (strm a S) = OnceDone \<Longrightarrow> st_done (strm a S)"
    and "\<And>a src. a < length (cs_streams S) \<Longrightarrow> st_source (strm a S) = Some src \<Longrightarrow>
           src < cs_sources S \<and> (src \<in> set (cs_sourceClosed S) \<longleftrightarrow> st_once (strm a S) = OnceDone)"
    and "\<And>a b src. a < length (cs_streams S) \<Longrightarrow> b < length (cs_streams S) \<Longrightarrow> st_source (strm a S) = Some src \<Longrightarrow>
           st_source (strm b S) = Some src \<Longrightarrow> b = a"
  shows "sources_ok S"
  unfolding sources_ok_def using assms by blast

lemma sources_okD:
  assumes "sources_ok S"
  shows "distinct (cs_sourceClosed S)" "set (cs_sourceClosed S) \<subseteq> {..< cs_sources S}"
    "a < length (cs_streams S) \<Longrightarrow> st_once (strm a S) = OnceDone \<Longrightarrow> st_done (strm a S)"
    "a < length (cs_streams S) \<Longrightarrow> st_source (strm a S) = Some src \<Longrightarrow>
       src < cs_sources S \<and> (src \<in> set (cs_sourceClosed S) \<longleftrightarrow> st_once (strm a S) = OnceDone)"
    "a < length (cs_streams S) \<Longrightarrow> b < length (cs_streams S) \<Longrightarrow> st_source (strm a S) = Some src \<Longrightarrow>
       st_source (strm b S) = Some src \<Longrightarrow> b = a"
  using assms unfolding sources_ok_def by blast+

lemma same_sources_ok:
  assumes "same_sources S S'" "sources_ok S"
  shows "sources_ok S'"
proof (rule sources_okI, unfold same_sources_at(1,2) [OF assms(1)])
  show "distinct (cs_sourceClosed S)" "set (cs_sourceClosed S) \<subseteq> {..<cs_sources S}" by (rule sources_okD [OF assms(2)])+
next
  fix a assume "a < length (cs_streams S')" "st_once (strm a S') = OnceDone"
  then show "st_done (strm a S')"
    using same_sources_at(4) [OF assms(1)] same_sources_at(5) [OF assms(1), of a] sources_okD(3) [OF assms(2), of a] by simp
next
  fix a src assume "a < length (cs_streams S')" "st_source (strm a S') = Some src"
  from same_sources_at(3) [OF assms(1) this]
  show "src < cs_sources S \<and> (src \<in> set (cs_sourceClosed S) \<longleftrightarrow> st_once (strm a S') = OnceDone)"
    using sources_okD(4) [OF assms(2), of a src] same_sources_at(5) [OF assms(1), of a] by simp
next
  fix a b src
  assume a: "a < length (cs_streams S')" and b: "b < length (cs_streams S')" and sa: "st_source (strm a S') = Some src"
    and sb: "st_source (strm b S') = Some src"
  show "b = a" using same_sources_at(3) [OF assms(1) a sa] same_sources_at(3) [OF assms(1) b sb] sources_okD(5) [OF assms(2)] by blast
qed

lemma thread_streams:
  assumes "addresses_ok S q"
  shows "shutting q = Some a \<Longrightarrow> a < length (cs_streams S)" "opens_stream q = Some a \<Longrightarrow> a < length (cs_streams S)"
    "q = ShutRead a k \<Longrightarrow> a < length (cs_streams S)" "q = ShutClose a src k \<Longrightarrow> a < length (cs_streams S)"
  using assms by (cases q; auto simp: addresses_ok_def)+

lemma source_thread_old:
  assumes "addresses_ok S q" "source_thread_ok S q"
    and "\<And>a. a < length (cs_streams S) \<Longrightarrow> shutting q = Some a \<Longrightarrow> st_once (strm a S') = st_once (strm a S)"
    and "\<And>a. a < length (cs_streams S) \<Longrightarrow> st_done (strm a S) \<Longrightarrow> st_done (strm a S')"
    and "\<And>a. a < length (cs_streams S) \<Longrightarrow> opens_stream q = Some a \<or> (\<exists>src k. q = ShutClose a src k) \<Longrightarrow> st_source (strm a S') = st_source (strm a S)"
    and "\<And>src. carries q = Some src \<Longrightarrow> src < cs_sources S' \<and> src \<notin> set (cs_sourceClosed S') \<and>
        (\<forall>a < length (cs_streams S'). st_source (strm a S') \<noteq> Some src)"
  shows "source_thread_ok S' q"
  using assms thread_streams [OF assms(1)] unfolding source_thread_ok_def by simp

lemma same_sources_thread:
  assumes "same_sources S S'" "source_thread_ok S q" "addresses_ok S q"
  shows "source_thread_ok S' q"
proof (rule source_thread_old [OF assms(3,2)])
  fix src assume "carries q = Some src"
  then have "src < cs_sources S" "src \<notin> set (cs_sourceClosed S)" "\<forall>a < length (cs_streams S). st_source (strm a S) \<noteq> Some src"
    using assms(2) by (simp_all add: source_thread_ok_def)
  then show "src < cs_sources S' \<and> src \<notin> set (cs_sourceClosed S') \<and> (\<forall>a < length (cs_streams S'). st_source (strm a S') \<noteq> Some src)"
    using same_sources_at(1-3) [OF assms(1)] by auto
qed (use same_sources_at(5) [OF assms(1)] in simp_all)

lemma sources_step:
  assumes "addresses_ok S pc" "registry_ok S" "sources_ok S" "source_thread_ok S pc" "cap_exec pc i S = Some (p, new, S')"
  shows "sources_ok S'"
proof (cases "on_sources pc")
  case False
  then show ?thesis using same_sources_step [OF assms(1,2) _ assms(5)] same_sources_ok assms(3) by blast
next
  case True
  note ok = sources_okD [OF assms(3)]
  show ?thesis
  proof (cases pc)
    case (OpenCapture a)
    then have "a < length (cs_streams S)" using assms(1) by (simp add: addresses_ok_def)
    with OpenCapture assms(5) show ?thesis
      by (intro sources_okI) (auto simp: open_capture_def less_Suc_eq split: cap_input.splits if_splits dest: ok(3,4) ok(2) [THEN subsetD]
          intro: ok(1,5))
  next
    case (InstallSource a src)
    then have a: "a < length (cs_streams S)" "src < cs_sources S" "src \<notin> set (cs_sourceClosed S)"
      "\<And>b. b < length (cs_streams S) \<Longrightarrow> st_source (strm b S) \<noteq> Some src"
      using assms(1,4) by (simp_all add: addresses_ok_def source_thread_ok_def)
    have "st_once (strm a S) \<noteq> OnceDone" if "\<not> st_done (strm a S)" using ok(3) a(1) that by blast
    with a InstallSource assms(3,5) show ?thesis
      by (intro sources_okI) (auto simp: install_source_def split: if_splits dest: ok(3,4) ok(2) [THEN subsetD] intro: ok(1,5))
  next
    case (AbandonSource a src)
    then have a: "a < length (cs_streams S)" "src < cs_sources S" "src \<notin> set (cs_sourceClosed S)"
      "\<And>b. b < length (cs_streams S) \<Longrightarrow> st_source (strm b S) \<noteq> Some src"
      using assms(1,4) by (simp_all add: addresses_ok_def source_thread_ok_def)
    with AbandonSource assms(5) show ?thesis
      by (intro sources_okI) (auto simp: abandon_source_def split: if_splits dest: ok(3,4) ok(2) [THEN subsetD] intro: ok(1,5))
  next
    case (ShutEnter a k)
    then have a: "a < length (cs_streams S)" using assms(1) by (simp add: addresses_ok_def)
    with ShutEnter assms(5) show ?thesis
      by (intro sources_okI) (auto simp: shut_enter_def split: once.splits if_splits dest: ok(3,4) ok(2) [THEN subsetD] intro: ok(1,5))
  next
    case (ShutCancel a k)
    then have a: "a < length (cs_streams S)" using assms(1) by (simp add: addresses_ok_def)
    with ShutCancel assms(5) show ?thesis
      by (intro sources_okI) (auto split: if_splits dest: ok(3,4) ok(2) [THEN subsetD] intro: ok(1,5))
  next
    case (ShutDone a k)
    then have a: "a < length (cs_streams S)" using assms(1) by (simp add: addresses_ok_def)
    with ShutDone assms(5) show ?thesis
      by (intro sources_okI) (auto split: if_splits dest: ok(3,4) ok(2) [THEN subsetD] intro: ok(1,5))
  next
    case (ShutRead a k)
    then have a: "a < length (cs_streams S)" "st_done (strm a S)"
      using assms(1,4) by (simp_all add: addresses_ok_def source_thread_ok_def)
    with ShutRead assms(5) show ?thesis
      by (intro sources_okI) (auto simp: shut_read_def split: option.splits if_splits dest: ok(3,4) ok(2) [THEN subsetD] intro: ok(1,5))
  next
    case (ShutClose a src k)
    then have a: "a < length (cs_streams S)" "st_done (strm a S)" "st_source (strm a S) = Some src" "st_once (strm a S) = OnceRunning"
      using assms(1,4) by (simp_all add: addresses_ok_def source_thread_ok_def)
    then have src: "src \<notin> set (cs_sourceClosed S)" "src < cs_sources S" using ok(4) [of a src] by simp_all
    have S': "S' = on_stream a (\<lambda>st. st\<lparr>st_once := OnceDone\<rparr>) (close_source src S)" using ShutClose assms(5) by simp
    have other: "c \<noteq> src" if "b < length (cs_streams S)" "st_source (strm b S) = Some c" "b \<noteq> a" for b c
      using ok(5) [OF a(1) that(1) a(3)] that by blast
    show ?thesis
    proof (rule sources_okI)
      fix b c assume "b < length (cs_streams S')" "st_source (strm b S') = Some c"
      then show "c < cs_sources S' \<and> (c \<in> set (cs_sourceClosed S') \<longleftrightarrow> st_once (strm b S') = OnceDone)"
        using ok(4) [of b c] other [of b c] a src by (cases "b = a") (simp_all add: S')
    next
      fix b c d assume "b < length (cs_streams S')" "c < length (cs_streams S')" "st_source (strm b S') = Some d" "st_source (strm c S') = Some d"
      then show "c = b" using ok(5) [of b c d] a(1) by (simp add: S' split: if_splits)
    qed (use ok(1-3) src a in \<open>auto simp: S' split: if_splits\<close>)
  qed (use True in simp_all)
qed

lemma source_thread_step:
  assumes "addresses_ok S pc" "registry_ok S" "sources_ok S" "source_thread_ok S pc" "cap_exec pc i S = Some (p, new, S')"
  shows "source_thread_ok S' p \<and> (\<forall>q \<in> set new. source_thread_ok S' q)"
proof (cases "on_sources pc")
  case True
  show ?thesis
  proof (cases pc)
    case (OpenCapture a)
    then show ?thesis
      using assms by (auto simp: open_capture_def source_thread_ok_def sources_ok_def addresses_ok_def split: cap_input.splits)
  next
    case (InstallSource a src)
    then show ?thesis
      using assms by (auto simp: install_source_def source_thread_ok_def addresses_ok_def split: if_splits)
  next
    case (AbandonSource a src)
    then show ?thesis using assms by (auto simp: abandon_source_def)
  next
    case (ShutEnter a k)
    then show ?thesis
      using assms by (auto simp: shut_enter_def addresses_ok_def source_thread_ok_def split: once.splits)
  next
    case (ShutCancel a k)
    then show ?thesis using assms by (auto simp: source_thread_ok_def addresses_ok_def)
  next
    case (ShutDone a k)
    then show ?thesis using assms by (auto simp: source_thread_ok_def addresses_ok_def)
  next
    case (ShutRead a k)
    then show ?thesis
      using assms by (auto simp: shut_read_def source_thread_ok_def addresses_ok_def split: option.splits)
  next
    case (ShutClose a src k)
    then show ?thesis using assms by auto
  qed (use True in simp_all)
next
  case False
  show ?thesis
  proof (cases pc)
    case (Subscribe s i n f)
    with assms(5) have "subscribe s i n f S = Some (p, new, S')" by simp
    from subscribe_step [OF this] show ?thesis
      using assms(2) by (elim disjE exE conjE) (auto simp: source_thread_ok_def new_stream_def nth_append)
  next
    case (Unsubscribe s a r res)
    then have a: "a < length (cs_streams S)" "unsubscribe a r res S = Some (p, new, S')"
      using assms by (auto simp: addresses_ok_def)
    from unsubscribe_step [OF a(2,1)] show ?thesis by auto
  qed (use False assms in \<open>auto simp: cap_steps Let_def split: option.splits cap_input.splits if_splits once.splits list.splits\<close>)
qed

text \<open>Another thread is not disturbed by a step, when it is not at the same stream or source.\<close>

definition apart :: "cap_pc \<Rightarrow> cap_pc \<Rightarrow> bool" where
  "apart p q \<longleftrightarrow> (shutting p = None \<or> shutting p \<noteq> shutting q) \<and> (opens_stream p = None \<or> opens_stream p \<noteq> opens_stream q)
     \<and> (carries p = None \<or> carries p \<noteq> carries q)"

lemma source_thread_other:
  assumes "addresses_ok S pc" "registry_ok S" "sources_ok S" "source_thread_ok S pc" "cap_exec pc i S = Some (p, new, S')"
    and "addresses_ok S q" "source_thread_ok S q" "apart pc q"
  shows "source_thread_ok S' q"
proof (cases "on_sources pc")
  case False
  then show ?thesis using same_sources_step [OF assms(1,2) _ assms(5)] same_sources_thread assms(6,7) by blast
next
  case True
  have c: "src < cs_sources S \<and> src \<notin> set (cs_sourceClosed S) \<and> (\<forall>a < length (cs_streams S). st_source (strm a S) \<noteq> Some src)"
    if "carries q = Some src" for src
    using that assms(7) by (simp add: source_thread_ok_def)
  have o: "st_source (strm a S) = None" if "opens_stream q = Some a" for a
    using that assms(7) by (simp add: source_thread_ok_def)
  have z: "st_source (strm a S) = Some src" if "q = ShutClose a src k" for a src k
    using that assms(7) by (simp add: source_thread_ok_def)
  note d = assms(1,4,5,8)
  show ?thesis
  proof (cases pc)
    case (OpenCapture a)
    then show ?thesis using d c o by (intro source_thread_old [OF assms(6,7)])
      (auto simp: open_capture_def addresses_ok_def less_Suc_eq split: cap_input.splits)
  next
    case (InstallSource a src)
    then show ?thesis using d c o z by (intro source_thread_old [OF assms(6,7)])
      (auto simp: install_source_def apart_def addresses_ok_def source_thread_ok_def split: if_splits)
  next
    case (AbandonSource a src)
    then show ?thesis using d c by (intro source_thread_old [OF assms(6,7)])
      (auto simp: abandon_source_def apart_def addresses_ok_def split: if_splits)
  next
    case (ShutEnter a k)
    moreover have "st_once (strm b S) = OnceRunning" if "shutting q = Some b" for b using that assms(7) by (simp add: source_thread_ok_def)
    ultimately show ?thesis using d c by (intro source_thread_old [OF assms(6,7)])
      (auto simp: shut_enter_def addresses_ok_def split: once.splits if_splits)
  next
    case (ShutCancel a k)
    then show ?thesis using d c by (intro source_thread_old [OF assms(6,7)]) (auto simp: addresses_ok_def split: if_splits)
  next
    case (ShutDone a k)
    then show ?thesis using d c by (intro source_thread_old [OF assms(6,7)]) (auto simp: addresses_ok_def split: if_splits)
  next
    case (ShutRead a k)
    then show ?thesis using d c by (intro source_thread_old [OF assms(6,7)])
      (auto simp: shut_read_def apart_def addresses_ok_def split: option.splits if_splits)
  next
    case (ShutClose a src k)
    moreover have "st_source (strm a S) = Some src" using ShutClose assms(4) by (simp add: source_thread_ok_def)
    ultimately show ?thesis using d c by (intro source_thread_old [OF assms(6,7)])
      (auto simp: apart_def addresses_ok_def split: if_splits)
  qed (use True in simp_all)
qed

section \<open>Who looks after a stream\<close>

text \<open>
  A stream is registered, or its shutdown is over, or a thread will shut it down; a receiver has a thread that will
  unsubscribe it; a source is in a stream, or carried by the thread that opened it, or closed.
\<close>

definition cared_for :: "cap_pc list \<Rightarrow> cap_state \<Rightarrow> nat \<Rightarrow> bool" where
  "cared_for ps S a \<longleftrightarrow> a \<in> ran (cs_openStreams S) \<or> st_once (strm a S) = OnceDone \<or> (\<exists>q \<in> set ps. a \<in> will_shut q)"

definition watched :: "cap_pc list \<Rightarrow> nat \<times> nat \<Rightarrow> bool" where
  "watched ps ar \<longleftrightarrow> (\<exists>q \<in> set ps. watches q = Some ar)"

definition placed :: "cap_pc list \<Rightarrow> cap_state \<Rightarrow> nat \<Rightarrow> bool" where
  "placed ps S src \<longleftrightarrow> src \<in> set (cs_sourceClosed S) \<or> (\<exists>a < length (cs_streams S). st_source (strm a S) = Some src)
     \<or> (\<exists>q \<in> set ps. carries q = Some src)"

definition cap_inv :: "cap_pc list \<Rightarrow> cap_state \<Rightarrow> bool" where
  "cap_inv ps S \<longleftrightarrow> registry_ok S \<and> sources_ok S \<and> (\<forall>q \<in> set ps. addresses_ok S q \<and> source_thread_ok S q)
     \<and> one_each shutting ps \<and> one_each opens_stream ps \<and> one_each carries ps
     \<and> (\<forall>a < length (cs_streams S). cared_for ps S a \<and> (\<forall>r \<in> set (st_receivers (strm a S)). watched ps (a, r)))
     \<and> (\<forall>src < cs_sources S. placed ps S src)"

lemma updated_thread:
  assumes "q \<in> set ps" "j < length ps"
  shows "q = ps ! j \<or> q \<in> set (ps[j := p] @ new)"
proof -
  obtain i where "i < length ps" "q = ps ! i" using assms(1) by (auto simp: in_set_conv_nth)
  then show ?thesis by (cases "i = j") (auto simp: in_set_conv_nth nth_append intro!: exI [of _ i])
qed

lemma thread_cases:
  assumes "j < length ps" "q \<in> set (ps[j := p] @ new)"
    and "q = p \<or> q \<in> set new \<Longrightarrow> thesis" "\<And>k. k < length ps \<Longrightarrow> k \<noteq> j \<Longrightarrow> q = ps ! k \<Longrightarrow> thesis"
  shows thesis
proof (cases "q = p \<or> q \<in> set new")
  case False
  then have "q \<in> set (ps[j := p])" using assms(2) by simp
  then obtain k where "k < length ps" "q = ps[j := p] ! k" by (auto simp: in_set_conv_nth)
  then show thesis using assms(4) [of k] False by (cases "k = j") auto
qed (rule assms(3))

lemma new_thread: "j < length ps \<Longrightarrow> p \<in> set (ps[j := p] @ new)" "q \<in> set new \<Longrightarrow> q \<in> set (ps[j := p] @ new)"
  by (simp_all add: set_update_memI)

text \<open>What the threads of a step add to the three, and what they take away.\<close>

lemma keeps_care:
  assumes "addresses_ok S pc" "registry_ok S" "cap_exec pc i S = Some (p, new, S')" "a < length (cs_streams S')"
    and "a < length (cs_streams S) \<Longrightarrow> a \<in> ran (cs_openStreams S) \<or> st_once (strm a S) = OnceDone \<or> a \<in> will_shut pc \<or> Q"
  shows "a \<in> ran (cs_openStreams S') \<or> st_once (strm a S') = OnceDone \<or> a \<in> will_shut p \<or> Q"
proof (cases "on_registry pc")
  case True
  show ?thesis
  proof (cases pc)
    case (Subscribe s i n f)
    with assms(3) have "subscribe s i n f S = Some (p, new, S')" by simp
    have reg: "b < length (cs_streams S)" if "cs_openStreams S k = Some b" for k b
      using that assms(2) by (simp add: registry_ok_def)
    from subscribe_step [OF \<open>subscribe s i n f S = Some (p, new, S')\<close>] show ?thesis
    proof (elim disjE exE conjE)
      fix b assume "cs_openStreams S (getCaptureKey i n f) = Some b" "S' = add_receiver b S"
      then show ?thesis using reg assms(4,5) Subscribe by auto
    next
      assume "cs_openStreams S (getCaptureKey i n f) = None" "S' = add_receiver (length (cs_streams S))
        (S\<lparr>cs_streams := cs_streams S @ [new_stream (getCaptureKey i n f)],
           cs_openStreams := (cs_openStreams S)(getCaptureKey i n f \<mapsto> length (cs_streams S))\<rparr>)"
      then show ?thesis using assms(4,5) Subscribe by (cases "a = length (cs_streams S)") (auto simp: nth_append)
    qed (use assms(4,5) Subscribe in simp)
  next
    case (Unsubscribe s b r res)
    then have b: "b < length (cs_streams S)" "unsubscribe b r res S = Some (p, new, S')"
      using assms(1,3) by (auto simp: addresses_ok_def)
    from unsubscribe_step(2) [OF b(2,1)] show ?thesis
    proof (elim disjE conjE)
      assume p: "p = ShutEnter b (ReturnCapture res)" and S': "S' = unregister b (drop_receiver b r S)"
      show ?thesis
      proof (cases "a = b")
        case False
        then show ?thesis using assms(4,5) b(1) Unsubscribe S' unregister_ran [of a "drop_receiver b r S" b] by auto
      qed (simp add: p)
    next
      assume "S' = drop_receiver b r S"
      then show ?thesis using assms(4,5) b(1) Unsubscribe by auto
    qed
  next
    case (CaptureEnded b k)
    then show ?thesis
      using assms(3-5) by (cases "a = b") (auto simp: ended_step dest: unregister_ran)
  qed (use True assms(3-5) in \<open>auto simp: close_service_def set_open_streams [OF assms(2)] continue_with_facts simp del: continue_with.simps split: cap_input.splits if_splits\<close>)
next
  case False
  then have same: "same_registry S S'" using same_registry_step assms(1,3) by blast
  then have a: "a < length (cs_streams S)" "cs_openStreams S' = cs_openStreams S" using assms(4) by (simp_all add: same_registry_def)
  show ?thesis
    using assms(1,3,5) a False
    by (cases pc; auto simp: cap_steps addresses_ok_def simp del: continue_with.simps
        split: option.splits cap_input.splits if_splits once.splits list.splits)
qed

lemma keeps_watch:
  assumes "addresses_ok S pc" "registry_ok S" "cap_exec pc i S = Some (p, new, S')" "a < length (cs_streams S')"
    and "r \<in> set (st_receivers (strm a S'))"
  shows "watches p = Some (a, r) \<or> (a < length (cs_streams S) \<and> r \<in> set (st_receivers (strm a S)) \<and> watches pc \<noteq> Some (a, r))"
proof (cases "on_registry pc")
  case True
  show ?thesis
  proof (cases pc)
    case (Subscribe s i n f)
    with assms(3) have "subscribe s i n f S = Some (p, new, S')" by simp
    from subscribe_step [OF this] show ?thesis
      using assms(2,4,5) Subscribe
      by (elim disjE exE conjE) (auto simp: registry_ok_def nth_append less_Suc_eq new_stream_def split: if_splits)
  next
    case (Unsubscribe s b q res)
    then have b: "b < length (cs_streams S)" "unsubscribe b q res S = Some (p, new, S')"
      using assms(1,3) by (auto simp: addresses_ok_def)
    from unsubscribe_step(2) [OF b(2,1)] show ?thesis
      using assms(4,5) b(1) Unsubscribe by (elim disjE conjE) (auto split: if_splits)
  next
    case (CaptureEnded b k)
    then show ?thesis using assms(3-5) by (auto simp: ended_step)
  qed (use True assms(3-5) in \<open>auto simp: close_service_def split: cap_input.splits if_splits\<close>)
next
  case False
  then have same: "same_registry S S'" using same_registry_step assms(1,3) by blast
  then have a: "a < length (cs_streams S)" "r \<in> set (st_receivers (strm a S))" using assms(4,5) by (simp_all add: same_registry_def)
  show ?thesis
    using assms(3) a False
    by (cases pc; auto simp: cap_steps simp del: continue_with.simps
        split: option.splits cap_input.splits if_splits once.splits list.splits)
qed

lemma keeps_place:
  assumes "addresses_ok S pc" "registry_ok S" "cap_exec pc i S = Some (p, new, S')" "src < cs_sources S'"
    and "src < cs_sources S \<Longrightarrow> src \<in> set (cs_sourceClosed S) \<or> (\<exists>a < length (cs_streams S). st_source (strm a S) = Some src)
           \<or> carries pc = Some src \<or> Q"
    and "source_thread_ok S pc"
  shows "src \<in> set (cs_sourceClosed S') \<or> (\<exists>a < length (cs_streams S'). st_source (strm a S') = Some src) \<or> carries p = Some src \<or> Q"
proof (cases "on_sources pc")
  case False
  then have same: "same_sources S S'" and c: "carries pc = None" using same_sources_step assms(1-3) by (blast, cases pc) auto
  have "a < length (cs_streams S')" if "a < length (cs_streams S)" for a using same that by (simp add: same_sources_def)
  then show ?thesis using same_sources_at(1,2,5) [OF same] assms(4,5) c by fastforce
next
  case True
  have unmoved: ?thesis if "\<And>b. b < length (cs_streams S) \<Longrightarrow> st_source (strm b S') = st_source (strm b S)"
    "length (cs_streams S') = length (cs_streams S)" "set (cs_sourceClosed S) \<subseteq> set (cs_sourceClosed S')" "cs_sources S' = cs_sources S"
    "carries pc = None"
    using that assms(4,5) by auto
  show ?thesis
  proof (cases pc)
    case (OpenCapture a)
    then show ?thesis using assms by (auto simp: open_capture_def less_Suc_eq addresses_ok_def split: cap_input.splits)
  next
    case (InstallSource a c)
    then have a: "a < length (cs_streams S)" "st_source (strm a S) = None" using assms(1,6) by (simp_all add: addresses_ok_def source_thread_ok_def)
    show ?thesis
    proof (cases "st_done (strm a S)")
      case False
      then have S': "S' = on_stream a (\<lambda>st. st\<lparr>st_source := Some c\<rparr>) S" using InstallSource assms(3) by (simp add: install_source_def)
      have "\<exists>b < length (cs_streams S'). st_source (strm b S') = Some src"
        if "b < length (cs_streams S)" "st_source (strm b S) = Some src" for b
        using that a by (auto simp: S' intro!: exI [of _ b])
      moreover have "\<exists>b < length (cs_streams S'). st_source (strm b S') = Some c" using a(1) by (auto simp: S' intro!: exI [of _ a])
      ultimately show ?thesis using assms(4,5) InstallSource by (auto simp: S')
    qed (use InstallSource assms in \<open>simp add: install_source_def\<close>)
  next
    case (AbandonSource a c)
    then show ?thesis using assms by (auto simp: abandon_source_def addresses_ok_def)
  next
    case (ShutEnter a k)
    then show ?thesis using assms by (intro unmoved) (auto simp: shut_enter_def addresses_ok_def split: once.splits)
  next
    case (ShutCancel a k)
    then show ?thesis using assms by (intro unmoved) (auto simp: addresses_ok_def)
  next
    case (ShutDone a k)
    then show ?thesis using assms by (intro unmoved) (auto simp: addresses_ok_def)
  next
    case (ShutRead a k)
    then show ?thesis using assms by (intro unmoved) (auto simp: shut_read_def addresses_ok_def split: option.splits)
  next
    case (ShutClose a c k)
    then show ?thesis using assms by (intro unmoved) (auto simp: addresses_ok_def)
  qed (use True in simp_all)
qed

text \<open>How a step changes what its thread is at.\<close>

lemma marks_step:
  assumes "cap_exec pc i S = Some (p, new, S')"
  shows "shutting p = None \<or> shutting p = shutting pc \<or> (\<exists>a. shutting p = Some a \<and> st_once (strm a S) = OnceNew)"
    "opens_stream p = None \<or> opens_stream p = opens_stream pc"
    "carries p = None \<or> carries p = carries pc \<or> carries p = Some (cs_sources S)"
    "\<forall>q \<in> set new. shutting q = None \<and> carries q = None"
    "(\<forall>q \<in> set new. opens_stream q = None) \<or> (opens_stream p = None \<and> new = [OpenCapture (length (cs_streams S))])"
  using assms
  by (cases pc; auto simp: cap_steps fetch_stream_def Let_def simp del: continue_with.simps
      split: option.splits cap_input.splits if_splits once.splits list.splits)+

lemma one_each_step:
  assumes "cap_inv ps S" "j < length ps" "cap_exec (ps ! j) i S = Some (p, new, S')"
  shows "one_each shutting (ps[j := p] @ new)" "one_each opens_stream (ps[j := p] @ new)" "one_each carries (ps[j := p] @ new)"
proof -
  note m = marks_step [OF assms(3)]
  have one: "one_each shutting ps" "one_each opens_stream ps" "one_each carries ps"
    and threads: "\<And>q. q \<in> set ps \<Longrightarrow> addresses_ok S q \<and> source_thread_ok S q"
    using assms(1) by (auto simp: cap_inv_def)
  have "shutting q = Some a \<Longrightarrow> q \<in> set ps \<Longrightarrow> st_once (strm a S) = OnceRunning" for q a
    using threads by (auto simp: source_thread_ok_def)
  then have "one_each shutting (ps[j := p])"
    using m(1) by (intro one_each_update [OF one(1) assms(2)]) (metis nth_mem once.distinct(1))
  then show "one_each shutting (ps[j := p] @ new)" using m(4) by (intro one_each_append) auto
  have "carries q = Some c \<Longrightarrow> q \<in> set ps \<Longrightarrow> c < cs_sources S" for q c
    using threads by (auto simp: source_thread_ok_def)
  then have "one_each carries (ps[j := p])"
    using m(3) by (intro one_each_update [OF one(3) assms(2)]) (metis nth_mem less_irrefl)
  then show "one_each carries (ps[j := p] @ new)" using m(4) by (intro one_each_append) auto
  have o: "one_each opens_stream (ps[j := p])" using m(2) by (intro one_each_update [OF one(2) assms(2)]) blast
  show "one_each opens_stream (ps[j := p] @ new)"
  proof (cases "\<forall>q \<in> set new. opens_stream q = None")
    case True
    then show ?thesis by (rule one_each_append [OF o])
  next
    case False
    then have n: "opens_stream p = None" "new = [OpenCapture (length (cs_streams S))]" using m(5) by blast+
    have "opens_stream q \<noteq> Some (length (cs_streams S))" if "q \<in> set (ps[j := p])" for q
    proof -
      have "q = p \<or> q \<in> set ps" using that set_update_subset_insert [of ps j p] by blast
      then show ?thesis using n(1) threads thread_streams(2) [of S q "length (cs_streams S)"] by auto
    qed
    then show ?thesis unfolding n(2) by (intro one_each_fresh [OF o]) auto
  qed
qed

lemma cap_inv_run:
  assumes "cap_inv ps S" "j < length ps" "cap_exec (ps ! j) i S = Some (p, new, S')"
  shows "cap_inv (ps[j := p] @ new) S'"
proof -
  let ?ps = "ps[j := p] @ new"
  have pc: "addresses_ok S (ps ! j)" "source_thread_ok S (ps ! j)" and reg: "registry_ok S" and src: "sources_ok S"
    using assms(1,2) by (auto simp: cap_inv_def)
  note st = assms(3)
  have apart: "apart (ps ! j) (ps ! k)" if "k < length ps" "k \<noteq> j" for k
    using assms(1,2) that unfolding cap_inv_def one_each_def apart_def by (metis option.exhaust)
  have old: "addresses_ok S' (ps ! k) \<and> source_thread_ok S' (ps ! k)" if "k < length ps" "k \<noteq> j" for k
  proof -
    have "addresses_ok S (ps ! k)" "source_thread_ok S (ps ! k)" using assms(1) that by (auto simp: cap_inv_def)
    then show ?thesis
      using addresses_other [OF _ grows_step [OF pc(1) st]] source_thread_other [OF pc(1) reg src pc(2) st] apart [OF that] by blast
  qed
  have threads: "\<forall>q \<in> set ?ps. addresses_ok S' q \<and> source_thread_ok S' q"
  proof
    fix q assume "q \<in> set ?ps"
    then consider "q = p \<or> q \<in> set new" | k where "k < length ps" "k \<noteq> j" "q = ps ! k"
      by (rule thread_cases [OF assms(2)])
    then show "addresses_ok S' q \<and> source_thread_ok S' q"
      using old addresses_step [OF pc(1) reg st] source_thread_step [OF pc(1) reg src pc(2) st] by cases auto
  qed
  have care: "cared_for ?ps S' a" if a: "a < length (cs_streams S')" for a
  proof -
    have "a \<in> ran (cs_openStreams S) \<or> st_once (strm a S) = OnceDone \<or> a \<in> will_shut (ps ! j) \<or> (\<exists>q \<in> set ?ps. a \<in> will_shut q)"
      if "a < length (cs_streams S)"
      using that assms(1) updated_thread [OF _ assms(2), of _ p new] unfolding cap_inv_def cared_for_def by blast
    from keeps_care [OF pc(1) reg st a this] show ?thesis
      unfolding cared_for_def using new_thread(1) [OF assms(2)] by blast
  qed
  have watch: "watched ?ps (a, r)" if "a < length (cs_streams S')" "r \<in> set (st_receivers (strm a S'))" for a r
    using keeps_watch [OF pc(1) reg st that] assms(1) updated_thread [OF _ assms(2), of _ p new] new_thread(1) [OF assms(2), of p new]
    unfolding cap_inv_def watched_def by metis
  have place: "placed ?ps S' c" if "c < cs_sources S'" for c
  proof -
    have "c \<in> set (cs_sourceClosed S) \<or> (\<exists>a < length (cs_streams S). st_source (strm a S) = Some c) \<or> carries (ps ! j) = Some c
        \<or> (\<exists>q \<in> set ?ps. carries q = Some c)" if "c < cs_sources S"
      using that assms(1) updated_thread [OF _ assms(2), of _ p new] unfolding cap_inv_def placed_def by metis
    from keeps_place [OF pc(1) reg st that this pc(2)] show ?thesis
      unfolding placed_def using new_thread(1) [OF assms(2)] by blast
  qed
  have one: "one_each shutting ?ps" "one_each opens_stream ?ps" "one_each carries ?ps"
    by (rule one_each_step [OF assms])+
  show ?thesis
    unfolding cap_inv_def using registry_step [OF pc(1) reg st] sources_step [OF pc(1) reg src pc(2) st] threads one care watch place
    by blast
qed

lemma cap_inv_start: "cap_inv [] CreateCaptureService"
  by (simp add: cap_inv_def CreateCaptureService_def registry_ok_def sources_ok_def)

lemma cap_inv_sessions:
  assumes "cap_inv ps S" "length (cs_sessions S) \<le> length xs"
  shows "cap_inv ps (S\<lparr>cs_sessions := xs\<rparr>)"
proof -
  have "addresses_ok S q \<Longrightarrow> addresses_ok (S\<lparr>cs_sessions := xs\<rparr>) q" for q
    using assms(2) by (fastforce simp: addresses_ok_def)
  moreover have "registry_ok (S\<lparr>cs_sessions := xs\<rparr>) = registry_ok S" "sources_ok (S\<lparr>cs_sessions := xs\<rparr>) = sources_ok S"
    "source_thread_ok (S\<lparr>cs_sessions := xs\<rparr>) = source_thread_ok S" "cared_for ps (S\<lparr>cs_sessions := xs\<rparr>) = cared_for ps S"
    "placed ps (S\<lparr>cs_sessions := xs\<rparr>) = placed ps S"
    by (auto simp: registry_ok_def sources_ok_def source_thread_ok_def cared_for_def placed_def fun_eq_iff)
  ultimately show ?thesis using assms(1) by (simp add: cap_inv_def)
qed

lemma cap_inv_begin:
  assumes "cap_inv ps S" "addresses_ok S q" "shutting q = None" "opens_stream q = None" "carries q = None"
  shows "cap_inv (ps @ [q]) S"
  using assms unfolding cap_inv_def
  by (auto simp: cared_for_def watched_def placed_def intro!: one_each_append)

lemma cap_inv_step:
  assumes "cap_step x y" "cap_inv (fst x) (snd x)"
  shows "cap_inv (fst y) (snd y)"
  using assms
proof (cases rule: cap_step.cases)
  case (cap_capture ps S instanceName nodeName interfaceName)
  let ?xs = "cs_sessions S @ [new_session (getCaptureKey instanceName nodeName interfaceName)]"
  have "cap_inv ps (S\<lparr>cs_sessions := ?xs\<rparr>)" using assms(2) cap_capture(1) by (intro cap_inv_sessions) simp_all
  then show ?thesis unfolding cap_capture(2) fst_conv snd_conv by (rule cap_inv_begin) (simp_all add: addresses_ok_def)
next
  case (cap_disconnect s S ps)
  then show ?thesis using assms(2) by (auto simp: on_session_def intro!: cap_inv_sessions)
next
  case (cap_close ps S)
  then show ?thesis using assms(2) by (auto intro!: cap_inv_begin simp: addresses_ok_def)
next
  case (cap_run j ps i S p new S')
  then show ?thesis using assms(2) cap_inv_run by auto
qed

lemma cap_inv_reachable: "cap_reachable x \<Longrightarrow> cap_inv (fst x) (snd x)"
  by (induction rule: cap_reachable.induct) (simp_all add: cap_inv_start cap_inv_step)

section \<open>No capture is left open\<close>

definition at_rest :: "cap_pc \<Rightarrow> bool" where
  "at_rest q \<longleftrightarrow> q = Ended \<or> (\<exists>res. q = CaptureReturned res)"

lemma at_rest_marks: "at_rest q \<Longrightarrow> will_shut q = {} \<and> carries q = None \<and> watches q = None"
  by (auto simp: at_rest_def)

text \<open>C13: Under all interleavings of sessions that come and go, captures that end and the service being closed, a capture that
  was opened is closed at most once, and while it is not closed there is a session watching its stream, or a thread that
  will shut the stream down, or the thread that has just opened it. So when no session and no thread is left, every
  capture that was opened has been closed exactly once.\<close>

theorem captures_released:
  assumes "cap_reachable (ps, S)"
  shows "distinct (cs_sourceClosed S) \<and> set (cs_sourceClosed S) \<subseteq> {..< cs_sources S}
    \<and> (\<forall>src < cs_sources S. src \<notin> set (cs_sourceClosed S) \<longrightarrow>
         (\<exists>q \<in> set ps. carries q = Some src)
         \<or> (\<exists>a < length (cs_streams S). st_source (strm a S) = Some src \<and>
              ((\<exists>q \<in> set ps. a \<in> will_shut q) \<or> (\<exists>r. \<exists>q \<in> set ps. watches q = Some (a, r)))))
    \<and> ((\<forall>q \<in> set ps. at_rest q) \<longrightarrow> set (cs_sourceClosed S) = {..< cs_sources S})"
proof -
  have inv: "cap_inv ps S" using cap_inv_reachable [OF assms] by simp
  then have src: "sources_ok S" by (simp add: cap_inv_def)
  have open_source: "(\<exists>q \<in> set ps. carries q = Some c) \<or> (\<exists>a < length (cs_streams S). st_source (strm a S) = Some c \<and>
      ((\<exists>q \<in> set ps. a \<in> will_shut q) \<or> (\<exists>r. \<exists>q \<in> set ps. watches q = Some (a, r))))"
    if c: "c < cs_sources S" "c \<notin> set (cs_sourceClosed S)" for c
  proof (cases "\<exists>q \<in> set ps. carries q = Some c")
    case False
    then obtain a where a: "a < length (cs_streams S)" "st_source (strm a S) = Some c"
      using inv c by (auto simp: cap_inv_def placed_def)
    then have "st_once (strm a S) \<noteq> OnceDone" using sources_okD(4) [OF src a] c by simp
    then have "a \<in> ran (cs_openStreams S) \<or> (\<exists>q \<in> set ps. a \<in> will_shut q)"
      using inv a(1) by (auto simp: cap_inv_def cared_for_def)
    moreover have "\<exists>r. watched ps (a, r)" if "a \<in> ran (cs_openStreams S)"
    proof -
      have "st_receivers (strm a S) \<noteq> []" using that inv by (auto simp: cap_inv_def registry_ok_def ran_def)
      then have "hd (st_receivers (strm a S)) \<in> set (st_receivers (strm a S))" by simp
      then show ?thesis using inv a(1) by (auto simp: cap_inv_def)
    qed
    ultimately show ?thesis using a by (auto simp: watched_def)
  qed simp
  have "set (cs_sourceClosed S) = {..< cs_sources S}" if "\<forall>q \<in> set ps. at_rest q"
    using that open_source sources_okD(2) [OF src] by (fastforce dest: at_rest_marks)
  then show ?thesis using open_source sources_okD(1,2) [OF src] by blast
qed

end
