(* ===== verification/Capture_Flow.thy ===== *)
theory Capture_Flow
  imports Capture_Safety
begin

text \<open>
  What a session is sent: the header of a capture file once and then packets captured on the interface it asked for, in
  their order, none twice; and while it keeps up, none is left out from the moment it joined. Runs of the captures are
  evaluated for the witnesses.
\<close>

section \<open>Packets on their way\<close>

definition no_output :: "cap_state \<Rightarrow> nat \<Rightarrow> bool" where
  "no_output S s \<longleftrightarrow> ss_out (sess s S) = []"

definition sent :: "cap_state \<Rightarrow> nat \<Rightarrow> packet list \<Rightarrow> bool" where
  "sent S s xs \<longleftrightarrow> ss_out (sess s S) = FileHeader # map Packet xs"

text \<open>A receiver of a stream: the packets sent, in hand and waiting are those captured since it joined, or some of them.\<close>

definition follows :: "cap_state \<Rightarrow> nat \<Rightarrow> nat \<Rightarrow> nat \<Rightarrow> packet list \<Rightarrow> bool" where
  "follows S s a r xs \<longleftrightarrow> rc_stream (rcvr r S) = a \<and> st_key (strm a S) = ss_key (sess s S)
     \<and> (let ys = drop (rc_from (rcvr r S)) (st_read (strm a S)); zs = xs @ rc_ch (rcvr r S) in
        subseq zs ys \<and> (\<not> rc_missed (rcvr r S) \<longrightarrow> zs = ys))
     \<and> r \<in> set (st_receivers (strm a S))"

fun flow_ok :: "cap_state \<Rightarrow> cap_pc \<Rightarrow> bool" where
  "flow_ok S (Subscribe s i n f) \<longleftrightarrow> no_output S s \<and> ss_key (sess s S) = getCaptureKey i n f"
| "flow_ok S (WaitOpened s a r) \<longleftrightarrow> no_output S s \<and> follows S s a r []"
| "flow_ok S (WriteHeader s a r) \<longleftrightarrow> no_output S s \<and> follows S s a r []"
| "flow_ok S (Writing s a r) \<longleftrightarrow> (\<exists>xs. sent S s xs \<and> follows S s a r xs)"
| "flow_ok S (WritePacket s a r p) \<longleftrightarrow> (\<exists>xs. sent S s xs \<and> follows S s a r (xs @ [p]))"
| "flow_ok S (Unsubscribe s a r res) \<longleftrightarrow> rc_stream (rcvr r S) = a"
| "flow_ok S _ \<longleftrightarrow> True"

fun serves :: "cap_pc \<Rightarrow> nat option" where
  "serves (Subscribe s i n f) = Some s"
| "serves (WaitOpened s a r) = Some s"
| "serves (WriteHeader s a r) = Some s"
| "serves (Writing s a r) = Some s"
| "serves (WritePacket s a r p) = Some s"
| "serves (Unsubscribe s a r res) = Some s"
| "serves _ = None"

definition receives :: "cap_pc \<Rightarrow> nat option" where
  "receives q = map_option snd (watches q)"

text \<open>What was sent to any session, also after it has ended.\<close>

definition output_ok :: "cap_state \<Rightarrow> nat \<Rightarrow> bool" where
  "output_ok S s \<longleftrightarrow> no_output S s \<or> (\<exists>xs a. sent S s xs \<and> a < length (cs_streams S) \<and>
     st_key (strm a S) = ss_key (sess s S) \<and> subseq xs (st_read (strm a S)))"

definition receivers_ok :: "cap_state \<Rightarrow> bool" where
  "receivers_ok S \<longleftrightarrow> (\<forall>a < length (cs_streams S). distinct (st_receivers (strm a S)) \<and>
     (\<forall>r \<in> set (st_receivers (strm a S)). rc_stream (rcvr r S) = a))
   \<and> (\<forall>r < length (cs_receivers S). rc_stream (rcvr r S) < length (cs_streams S) \<and>
        rc_from (rcvr r S) \<le> length (st_read (strm (rc_stream (rcvr r S)) S)))"

definition flow_inv :: "cap_pc list \<Rightarrow> cap_state \<Rightarrow> bool" where
  "flow_inv ps S \<longleftrightarrow> cap_inv ps S \<and> receivers_ok S \<and> (\<forall>q \<in> set ps. flow_ok S q) \<and> one_each serves ps \<and> one_each receives ps
     \<and> (\<forall>s < length (cs_sessions S). output_ok S s)"

section \<open>What steps leave alone\<close>

lemmas exec_splits = option.splits cap_input.splits if_splits once.splits list.splits

lemma outputs_other:
  assumes "addresses_ok S pc" "cap_exec pc i S = Some (p, new, S')" "s < length (cs_sessions S)"
  shows "ss_key (sess s S') = ss_key (sess s S)" "serves pc \<noteq> Some s \<Longrightarrow> ss_out (sess s S') = ss_out (sess s S)"
  using assms
  by (cases pc; auto simp: cap_steps fetch_stream_def Let_def addresses_ok_def split: exec_splits)+

lemma keys_kept:
  assumes "addresses_ok S pc" "registry_ok S" "cap_exec pc i S = Some (p, new, S')" "a < length (cs_streams S)"
  shows "st_key (strm a S') = st_key (strm a S)"
proof (cases "on_registry pc")
  case False
  then show ?thesis using same_registry_step [OF assms(1) _ assms(3)] assms(4) by (simp add: same_registry_def)
next
  case True
  show ?thesis
  proof (cases pc)
    case (Subscribe s i n f)
    with assms(3) have "subscribe s i n f S = Some (p, new, S')" by simp
    from subscribe_step [OF this] show ?thesis
      using assms(2,4) by (elim disjE exE conjE) (auto simp: registry_ok_def nth_append)
  next
    case (Unsubscribe s b r res)
    then have b: "b < length (cs_streams S)" "unsubscribe b r res S = Some (p, new, S')"
      using assms(1,3) by (auto simp: addresses_ok_def)
    from unsubscribe_step(2) [OF b(2,1)] show ?thesis using assms(4) b(1) by (elim disjE conjE) auto
  next
    case (CaptureEnded b k)
    then show ?thesis using assms(3) by (auto simp: ended_step)
  qed (use True assms(3) in \<open>auto simp: close_service_def split: exec_splits\<close>)
qed

lemma reads_other:
  assumes "addresses_ok S pc" "registry_ok S" "cap_exec pc i S = Some (p, new, S')" "a < length (cs_streams S)"
    and "\<And>x. pc \<noteq> Deliver a x"
  shows "st_read (strm a S') = st_read (strm a S)"
proof (cases pc)
  case (Subscribe s i n f)
  with assms(3) have "subscribe s i n f S = Some (p, new, S')" by simp
  from subscribe_step [OF this] show ?thesis
    using assms(2,4) by (elim disjE exE conjE) (auto simp: registry_ok_def nth_append)
next
  case (Unsubscribe s b r res)
  then have b: "b < length (cs_streams S)" "unsubscribe b r res S = Some (p, new, S')"
    using assms(1,3) by (auto simp: addresses_ok_def)
  from unsubscribe_step(2) [OF b(2,1)] show ?thesis using assms(4) b(1) by (elim disjE conjE) auto
next
  case (CaptureEnded b k)
  then show ?thesis using assms(3) by (auto simp: ended_step)
qed (use assms in \<open>auto simp: cap_steps addresses_ok_def split: exec_splits\<close>)

lemma receivers_other:
  assumes "addresses_ok S pc" "cap_exec pc i S = Some (p, new, S')" "r < length (cs_receivers S)"
    and "receives pc \<noteq> Some r" "\<And>a x. pc \<noteq> Deliver a x"
  shows "rcvr r S' = rcvr r S"
proof (cases pc)
  case (Unsubscribe s b q res)
  then have b: "b < length (cs_streams S)" "unsubscribe b q res S = Some (p, new, S')"
    using assms(1,2) by (auto simp: addresses_ok_def)
  from unsubscribe_step(2) [OF b(2,1)] show ?thesis by (elim disjE conjE) auto
qed (use assms in \<open>auto simp: subscribe_def fetch_stream_def add_receiver_def on_stream_def nth_append wait_opened_def open_capture_def
      install_source_def abandon_source_def read_packet_data_def ended_step shut_enter_def shut_read_def close_service_def
      write_header_def leave_stream_def write_stream_def write_packet_def watch_session_def probe_session_def
      addresses_ok_def receives_def close_source_def Let_def split: exec_splits\<close>)

lemma members_kept:
  assumes "addresses_ok S pc" "registry_ok S" "cap_exec pc i S = Some (p, new, S')" "a < length (cs_streams S)"
    and "r \<in> set (st_receivers (strm a S))" "\<And>s res. pc \<noteq> Unsubscribe s a r res"
  shows "r \<in> set (st_receivers (strm a S'))"
proof (cases "on_registry pc")
  case False
  then show ?thesis using same_registry_step [OF assms(1) _ assms(3)] assms(4,5) by (simp add: same_registry_def)
next
  case True
  show ?thesis
  proof (cases pc)
    case (Subscribe s i n f)
    with assms(3) have "subscribe s i n f S = Some (p, new, S')" by simp
    from subscribe_step [OF this] show ?thesis
      using assms(2,4,5) by (elim disjE exE conjE) (auto simp: registry_ok_def nth_append)
  next
    case (Unsubscribe s b q res)
    then have b: "b < length (cs_streams S)" "unsubscribe b q res S = Some (p, new, S')"
      using assms(1,3) by (auto simp: addresses_ok_def)
    have "a = b \<Longrightarrow> r \<noteq> q" using assms(6) Unsubscribe by blast
    then have "r \<in> set (st_receivers (strm a (drop_receiver b q S)))" using assms(5) b(1) by auto
    then show ?thesis using unsubscribe_step(2) [OF b(2,1)] by (elim disjE conjE) auto
  next
    case (CaptureEnded b k)
    then show ?thesis using assms(3,5) by (auto simp: ended_step)
  qed (use True assms(3,5) in \<open>auto simp: close_service_def split: exec_splits\<close>)
qed

text \<open>A delivery.\<close>

lemma offers_receiver:
  assumes "distinct rs" "\<forall>r \<in> set rs. r < length (cs_receivers S)" "r < length (cs_receivers S)"
  shows "rcvr r (fold (\<lambda>r. on_receiver r g) rs S) = (if r \<in> set rs then g (rcvr r S) else rcvr r S)"
  using assms by (induction rs arbitrary: S) auto

lemma deliver_effect:
  assumes "deliver a x S = Some (p, new, S')" "a < length (cs_streams S)" "receivers_ok S" "registry_ok S" "r < length (cs_receivers S)"
  shows "rcvr r S' = (if r \<in> set (st_receivers (strm a S)) then offer x (rcvr r S) else rcvr r S)"
    "b < length (cs_streams S) \<Longrightarrow> st_read (strm b S') = (if b = a then st_read (strm a S) @ [x] else st_read (strm b S))"
    "b < length (cs_streams S) \<Longrightarrow> st_receivers (strm b S') = st_receivers (strm b S)"
    "cs_sessions S' = cs_sessions S"
  using assms offers_receiver [of "st_receivers (strm a S)" S r "offer x"]
  by (auto simp: deliver_def receivers_ok_def registry_ok_def)

section \<open>Preservation\<close>

lemma subseq_snoc: "subseq xs ys \<Longrightarrow> subseq xs (ys @ [y])"
  by (simp add: subseq_append_iff) blast

lemma follows_delivered:
  assumes "follows S s a r xs" "deliver b x S = Some (p, new, S')" "b < length (cs_streams S)" "receivers_ok S" "registry_ok S"
    and "a < length (cs_streams S)" "r < length (cs_receivers S)" "ss_key (sess s S') = ss_key (sess s S)"
    and "st_key (strm a S') = st_key (strm a S)"
  shows "follows S' s a r xs"
proof -
  note d = deliver_effect [OF assms(2-5) assms(7)]
  have f: "rc_stream (rcvr r S) = a" "r \<in> set (st_receivers (strm a S))" using assms(1) by (simp_all add: follows_def)
  have only: "r \<in> set (st_receivers (strm b S)) \<longleftrightarrow> b = a" using f assms(3,4) by (auto simp: receivers_ok_def)
  have start: "rc_from (rcvr r S) \<le> length (st_read (strm a S))" using assms(4,7) f(1) by (auto simp: receivers_ok_def)
  show ?thesis
  proof (cases "b = a")
    case True
    let ?ys = "drop (rc_from (rcvr r S)) (st_read (strm a S))" and ?zs = "xs @ rc_ch (rcvr r S)"
    have old: "subseq ?zs ?ys" "\<not> rc_missed (rcvr r S) \<longrightarrow> ?zs = ?ys" using assms(1) by (simp_all add: follows_def Let_def)
    have "subseq (?zs @ [x]) (?ys @ [x])" unfolding subseq_append by (rule old(1))
    with old show ?thesis
      using assms(1,8,9) d only True start assms(6)
      by (auto simp: follows_def Let_def offer_def intro: subseq_snoc)
  next
    case False
    then show ?thesis using assms(1,8,9) d only assms(6) by (simp add: follows_def)
  qed
qed

lemma follows_other:
  assumes "addresses_ok S pc" "registry_ok S" "receivers_ok S" "cap_exec pc i S = Some (p, new, S')"
    and "follows S s a r xs" "a < length (cs_streams S)" "r < length (cs_receivers S)" "s < length (cs_sessions S)"
    and "receives pc \<noteq> Some r"
  shows "follows S' s a r xs"
proof (cases "\<exists>b x. pc = Deliver b x")
  case True
  then obtain b x where pc: "pc = Deliver b x" by blast
  then have "deliver b x S = Some (p, new, S')" "b < length (cs_streams S)" using assms(1,4) by (auto simp: addresses_ok_def)
  then show ?thesis
    using follows_delivered [OF assms(5) _ _ assms(3,2,6,7)] outputs_other(1) [OF assms(1,4,8)] keys_kept [OF assms(1,2,4,6)] by blast
next
  case False
  have "r \<in> set (st_receivers (strm a S'))"
    using assms(5,9) by (intro members_kept [OF assms(1,2,4,6)]) (auto simp: follows_def receives_def)
  moreover have "rcvr r S' = rcvr r S" using receivers_other [OF assms(1,4,7,9)] False by blast
  moreover have "st_read (strm a S') = st_read (strm a S)" using reads_other [OF assms(1,2,4,6)] False by blast
  ultimately show ?thesis
    using assms(5) outputs_other(1) [OF assms(1,4,8)] keys_kept [OF assms(1,2,4,6)] by (simp add: follows_def)
qed

lemma flow_other:
  assumes "addresses_ok S pc" "registry_ok S" "receivers_ok S" "cap_exec pc i S = Some (p, new, S')"
    and "flow_ok S q" "addresses_ok S q" "serves q = None \<or> serves pc \<noteq> serves q" "receives q = None \<or> receives pc \<noteq> receives q"
  shows "flow_ok S' q"
proof -
  have out: "no_output S' s = no_output S s" "sent S' s = sent S s" "ss_key (sess s S') = ss_key (sess s S)"
    if "serves q = Some s" for s
  proof -
    have "s < length (cs_sessions S)" using that assms(6) by (cases q) (auto simp: addresses_ok_def)
    then show "no_output S' s = no_output S s" "sent S' s = sent S s" "ss_key (sess s S') = ss_key (sess s S)"
      using outputs_other [OF assms(1,4)] assms(7) that by (auto simp: no_output_def sent_def fun_eq_iff)
  qed
  have f: "follows S' s a r xs" if "follows S s a r xs" "watches q = Some (a, r)" "serves q = Some s" for s a r xs
  proof (rule follows_other [OF assms(1-4) that(1)])
    show "a < length (cs_streams S)" "s < length (cs_sessions S)" "r < length (cs_receivers S)"
      using that(2,3) assms(6) by (cases q; auto simp: addresses_ok_def)+
    show "receives pc \<noteq> Some r" using assms(8) that(2) by (auto simp: receives_def)
  qed
  have r: "rc_stream (rcvr r S') = rc_stream (rcvr r S)" if "watches q = Some (a, r)" for a r
  proof (cases "\<exists>b x. pc = Deliver b x")
    case True
    then obtain b x where "deliver b x S = Some (p, new, S')" "b < length (cs_streams S)" using assms(1,4) by (auto simp: addresses_ok_def)
    then show ?thesis
      using deliver_effect(1) [OF _ _ assms(3,2), of b x p new S' r] that assms(6) by (auto simp: addresses_ok_def offer_def)
  next
    case False
    have "r < length (cs_receivers S)" "receives pc \<noteq> Some r" using that assms(6,8) by (auto simp: addresses_ok_def receives_def)
    then show ?thesis using receivers_other [OF assms(1,4)] False by auto
  qed
  show ?thesis using assms(5) out f r by (cases q) fastforce+
qed

lemma flow_ok_continue [simp]: "flow_ok S (continue_with k)"
  by (cases k rule: continue_with.cases) simp_all

lemma follows_new:
  assumes "a < length (cs_streams S)" "st_key (strm a S) = ss_key (sess s S)"
  shows "follows (add_receiver a S) s a (length (cs_receivers S)) []"
  using assms by (simp add: follows_def add_receiver_def on_stream_def)

lemma flow_step:
  assumes "addresses_ok S pc" "registry_ok S" "receivers_ok S" "cap_exec pc i S = Some (p, new, S')" "flow_ok S pc"
  shows "flow_ok S' p \<and> (\<forall>q \<in> set new. flow_ok S' q)"
proof (cases pc)
  case (Subscribe s i n f)
  with assms(4) have "subscribe s i n f S = Some (p, new, S')" by simp
  from subscribe_step [OF this] show ?thesis
  proof (elim disjE exE conjE)
    fix a assume a: "cs_openStreams S (getCaptureKey i n f) = Some a" "p = WaitOpened s a (length (cs_receivers S))" "new = []"
      "S' = add_receiver a S"
    then show ?thesis
      using assms(2,5) Subscribe follows_new [of a S s] by (simp add: registry_ok_def no_output_def)
  next
    let ?T = "S\<lparr>cs_streams := cs_streams S @ [new_stream (getCaptureKey i n f)],
        cs_openStreams := (cs_openStreams S)(getCaptureKey i n f \<mapsto> length (cs_streams S))\<rparr>"
    assume a: "p = WaitOpened s (length (cs_streams S)) (length (cs_receivers S))" "new = [OpenCapture (length (cs_streams S))]"
      "S' = add_receiver (length (cs_streams S)) ?T"
    then show ?thesis
      using assms(5) Subscribe follows_new [of "length (cs_streams S)" ?T s] by (simp add: no_output_def new_stream_def)
  qed simp
next
  case (Unsubscribe s b r res)
  then have b: "b < length (cs_streams S)" "unsubscribe b r res S = Some (p, new, S')"
    using assms(1,4) by (auto simp: addresses_ok_def)
  from unsubscribe_step [OF b(2,1)] show ?thesis by (elim disjE conjE) auto
next
  case (WriteHeader s a r)
  then show ?thesis
    using assms(1,4,5) by (auto simp: write_header_def addresses_ok_def no_output_def sent_def follows_def split: exec_splits
        intro!: exI [of _ "[]"])
next
  case (Writing s a r)
  then show ?thesis
    using assms(1,4,5)
    by (auto simp: write_stream_def leave_stream_def addresses_ok_def sent_def follows_def Let_def split: exec_splits)
next
  case (WritePacket s a r x)
  then obtain xs where xs: "sent S s xs" "follows S s a r (xs @ [x])" using assms(5) by auto
  show ?thesis
    using assms(1,4) xs WritePacket
    by (auto simp: write_packet_def leave_stream_def addresses_ok_def sent_def follows_def split: exec_splits
        intro!: exI [of _ "xs @ [x]"])
next
  case (WaitOpened s a r)
  then show ?thesis
    using assms(4,5) by (auto simp: wait_opened_def no_output_def sent_def follows_def split: exec_splits)
qed (use assms(4) in \<open>auto simp: cap_steps Let_def simp del: continue_with.simps split: exec_splits\<close>)

lemma receivers_ok_added:
  assumes "receivers_ok S" "a < length (cs_streams S)"
    and "\<forall>a < length (cs_streams S). \<forall>r \<in> set (st_receivers (strm a S)). r < length (cs_receivers S)"
  shows "receivers_ok (add_receiver a S)"
proof -
  have old: "r < length (cs_receivers S)" if "b < length (cs_streams S)" "r \<in> set (st_receivers (strm b S))" for b r
    using that assms(3) by simp
  have rcv: "rcvr r (add_receiver a S) = (if r < length (cs_receivers S) then rcvr r S else
      \<lparr>rc_ch = [], rc_stream = a, rc_from = length (st_read (strm a S)), rc_missed = False\<rparr>)"
    if "r < Suc (length (cs_receivers S))" for r
    using that by (auto simp: add_receiver_def on_stream_def nth_append less_Suc_eq)
  show ?thesis
    unfolding receivers_ok_def
  proof (intro conjI allI impI)
    fix b assume b: "b < length (cs_streams (add_receiver a S))"
    then show "distinct (st_receivers (strm b (add_receiver a S)))"
      using assms old by (fastforce simp: receivers_ok_def)
    show "\<forall>r \<in> set (st_receivers (strm b (add_receiver a S))). rc_stream (rcvr r (add_receiver a S)) = b"
    proof
      fix r assume r: "r \<in> set (st_receivers (strm b (add_receiver a S)))"
      show "rc_stream (rcvr r (add_receiver a S)) = b"
      proof (cases "r < length (cs_receivers S)")
        case True
        then have "r \<in> set (st_receivers (strm b S))" using r assms(2) by (auto split: if_splits)
        then show ?thesis using assms(1) b True rcv [of r] by (simp add: receivers_ok_def)
      next
        case False
        then have "b = a" "r = length (cs_receivers S)" using r assms(2) old [of b r] b by (auto split: if_splits)
        then show ?thesis using rcv [of r] by simp
      qed
    qed
  next
    fix r assume "r < length (cs_receivers (add_receiver a S))"
    then show "rc_from (rcvr r (add_receiver a S)) \<le> length (st_read (strm (rc_stream (rcvr r (add_receiver a S))) (add_receiver a S)))"
      "rc_stream (rcvr r (add_receiver a S)) < length (cs_streams (add_receiver a S))"
      using rcv [of r] assms(1,2) by (auto simp: receivers_ok_def)
  qed
qed

lemma receivers_ok_add:
  "receivers_ok S \<Longrightarrow> registry_ok S \<Longrightarrow> a < length (cs_streams S) \<Longrightarrow> receivers_ok (add_receiver a S)"
  by (rule receivers_ok_added) (simp_all add: registry_ok_def)

text \<open>What a step that neither subscribes nor delivers does to receivers: one may lose its first packet or be dropped.\<close>

lemma receivers_ok_plain:
  assumes "receivers_ok S" "length (cs_receivers S') = length (cs_receivers S)" "length (cs_streams S') = length (cs_streams S)"
    and "\<And>a. a < length (cs_streams S) \<Longrightarrow> st_read (strm a S') = st_read (strm a S) \<and>
          (st_receivers (strm a S') = st_receivers (strm a S) \<or> (\<exists>r. st_receivers (strm a S') = removeAll r (st_receivers (strm a S))))"
    and "\<And>r. r < length (cs_receivers S) \<Longrightarrow> rc_stream (rcvr r S') = rc_stream (rcvr r S) \<and> rc_from (rcvr r S') = rc_from (rcvr r S)"
    and "registry_ok S"
  shows "receivers_ok S'"
  unfolding receivers_ok_def
proof (intro conjI allI impI)
  fix a assume a: "a < length (cs_streams S')"
  have old: "distinct (st_receivers (strm a S))" "\<forall>r \<in> set (st_receivers (strm a S)). rc_stream (rcvr r S) = a"
    "\<forall>r \<in> set (st_receivers (strm a S)). r < length (cs_receivers S)"
    using assms(1,3,6) a by (simp_all add: receivers_ok_def registry_ok_def)
  have sub: "set (st_receivers (strm a S')) \<subseteq> set (st_receivers (strm a S))" using assms(3) assms(4) [of a] a by auto
  show "distinct (st_receivers (strm a S'))" using assms(3) assms(4) [of a] a old(1) by (auto simp: distinct_removeAll)
  show "\<forall>r \<in> set (st_receivers (strm a S')). rc_stream (rcvr r S') = a" using sub old(2,3) assms(5) by (metis subsetD)
next
  fix r assume "r < length (cs_receivers S')"
  then show "rc_from (rcvr r S') \<le> length (st_read (strm (rc_stream (rcvr r S')) S'))" "rc_stream (rcvr r S') < length (cs_streams S')"
    using assms(1-5) by (auto simp: receivers_ok_def)
qed

lemma receivers_ok_step:
  assumes "addresses_ok S pc" "registry_ok S" "receivers_ok S" "cap_exec pc i S = Some (p, new, S')"
  shows "receivers_ok S'"
proof (cases pc)
  case (Subscribe s i n f)
  with assms(4) have "subscribe s i n f S = Some (p, new, S')" by simp
  from subscribe_step [OF this] show ?thesis
  proof (elim disjE exE conjE)
    fix a assume a: "cs_openStreams S (getCaptureKey i n f) = Some a" "S' = add_receiver a S"
    then show ?thesis using assms(2) receivers_ok_add [OF assms(3,2), of a] by (simp add: registry_ok_def)
  next
    let ?T = "S\<lparr>cs_streams := cs_streams S @ [new_stream (getCaptureKey i n f)],
        cs_openStreams := (cs_openStreams S)(getCaptureKey i n f \<mapsto> length (cs_streams S))\<rparr>"
    assume S': "S' = add_receiver (length (cs_streams S)) ?T"
    have "receivers_ok ?T"
      using assms(3) by (auto simp: receivers_ok_def nth_append less_Suc_eq new_stream_def)
    then show ?thesis
      unfolding S' by (rule receivers_ok_added) (use assms(2) in \<open>auto simp: registry_ok_def nth_append less_Suc_eq new_stream_def\<close>)
  qed (use assms(3) in simp)
next
  case (Deliver a x)
  then have d: "deliver a x S = Some (p, new, S')" "a < length (cs_streams S)" using assms(1,4) by (auto simp: addresses_ok_def)
  note e = deliver_effect [OF d assms(3,2)]
  have len: "length (cs_streams S') = length (cs_streams S)" "length (cs_receivers S') = length (cs_receivers S)"
    using d by (auto simp: deliver_def)
  have "rc_stream (rcvr r S') = rc_stream (rcvr r S) \<and> rc_from (rcvr r S') = rc_from (rcvr r S)" if "r < length (cs_receivers S)" for r
    using e(1) [OF that] by (simp add: offer_def)
  moreover have "\<forall>r \<in> set (st_receivers (strm b S)). r < length (cs_receivers S)" if "b < length (cs_streams S)" for b
    using that assms(2) by (simp add: registry_ok_def)
  moreover have "st_receivers (strm b S') = st_receivers (strm b S)" if "b < length (cs_streams S)" for b
    using d that by (auto simp: deliver_def)
  moreover have "length (st_read (strm b S)) \<le> length (st_read (strm b S'))" if "b < length (cs_streams S)" for b
    using d that by (auto simp: deliver_def)
  ultimately show ?thesis using assms(3) len unfolding receivers_ok_def by (auto intro: order_trans)
next
  case (Unsubscribe s b r res)
  then have b: "b < length (cs_streams S)" "unsubscribe b r res S = Some (p, new, S')"
    using assms(1,4) by (auto simp: addresses_ok_def)
  from unsubscribe_step(2) [OF b(2,1)] show ?thesis
    using b(1) by (elim disjE conjE) (auto intro!: receivers_ok_plain [OF assms(3)] assms(2) split: if_splits, metis)
next
  case (CaptureEnded b k)
  then show ?thesis using assms(4) by (auto simp: ended_step intro!: receivers_ok_plain [OF assms(3)] assms(2))
qed (use assms(1,4) in \<open>auto simp: cap_steps addresses_ok_def intro!: receivers_ok_plain [OF assms(3)] assms(2) split: exec_splits\<close>)

lemma follows_sent:
  assumes "follows S s a r xs" "xs = ys @ zs"
  shows "st_key (strm a S) = ss_key (sess s S)" "subseq ys (st_read (strm a S))"
proof -
  have "subseq (ys @ zs @ rc_ch (rcvr r S)) (drop (rc_from (rcvr r S)) (st_read (strm a S)))"
    using assms by (simp add: follows_def Let_def)
  then have "subseq (ys @ zs @ rc_ch (rcvr r S)) (st_read (strm a S))"
    using suffix_drop suffix_imp_subseq subseq_order.order_trans by blast
  then show "subseq ys (st_read (strm a S))" using prefix_imp_subseq prefixI subseq_order.order_trans by blast
  show "st_key (strm a S) = ss_key (sess s S)" using assms by (simp add: follows_def)
qed

lemma flow_output:
  assumes "flow_ok S q" "addresses_ok S q" "serves q = Some s" "\<And>a r res. q \<noteq> Unsubscribe s a r res"
  shows "output_ok S s"
proof (cases q)
  case (Writing s' a r)
  then obtain xs where xs: "sent S s xs" "follows S s a r xs" using assms(1,3) by auto
  moreover have "a < length (cs_streams S)" using Writing assms(2) by (simp add: addresses_ok_def)
  ultimately show ?thesis using follows_sent [of S s a r xs xs "[]"] by (auto simp: output_ok_def)
next
  case (WritePacket s' a r p)
  then obtain xs where xs: "sent S s xs" "follows S s a r (xs @ [p])" using assms(1,3) by auto
  moreover have "a < length (cs_streams S)" using WritePacket assms(2) by (simp add: addresses_ok_def)
  ultimately show ?thesis using follows_sent [of S s a r "xs @ [p]" xs "[p]"] by (auto simp: output_ok_def)
qed (use assms in \<open>auto simp: output_ok_def\<close>)

text \<open>Reads and keys of a stream stay when others run, and reads only grow.\<close>

lemma reads_grow:
  assumes "addresses_ok S pc" "registry_ok S" "receivers_ok S" "cap_exec pc i S = Some (p, new, S')" "a < length (cs_streams S)"
  shows "\<exists>xs. st_read (strm a S') = st_read (strm a S) @ xs"
proof (cases "\<exists>x. pc = Deliver a x")
  case True
  then show ?thesis using assms(4,5) by (auto simp: deliver_def)
next
  case False
  then show ?thesis using reads_other [OF assms(1,2,4,5)] by simp
qed

lemma output_kept:
  assumes "addresses_ok S pc" "registry_ok S" "receivers_ok S" "cap_exec pc i S = Some (p, new, S')" "s < length (cs_sessions S)"
    and "output_ok S s" "ss_out (sess s S') = ss_out (sess s S)"
  shows "output_ok S' s"
proof (cases "no_output S s")
  case True
  then show ?thesis using assms(7) by (simp add: output_ok_def no_output_def)
next
  case False
  then obtain xs a where xs: "sent S s xs" "a < length (cs_streams S)" "st_key (strm a S) = ss_key (sess s S)"
    "subseq xs (st_read (strm a S))" using assms(6) by (auto simp: output_ok_def)
  obtain ys where "st_read (strm a S') = st_read (strm a S) @ ys" using reads_grow [OF assms(1-4) xs(2)] by blast
  then have "prefix (st_read (strm a S)) (st_read (strm a S'))" by simp
  with xs(4) have "subseq xs (st_read (strm a S'))" by (rule subseq_order.order_trans [OF _ prefix_imp_subseq])
  moreover have "a < length (cs_streams S')" using xs(2) grows_step [OF assms(1,4)] by (simp add: grows_def)
  moreover have "sent S' s xs" using xs(1) assms(7) by (simp add: sent_def)
  ultimately show ?thesis
    using xs(3) keys_kept [OF assms(1,2,4) xs(2)] outputs_other(1) [OF assms(1,4,5)] by (auto simp: output_ok_def)
qed

lemma serves_continue [simp]: "serves (continue_with k) = None"
  by (cases k rule: continue_with.cases) simp_all

lemma serves_step:
  assumes "cap_exec pc i S = Some (p, new, S')"
  shows "serves p = None \<or> serves p = serves pc" "\<forall>q \<in> set new. serves q = None \<and> receives q = None"
    "receives p = None \<or> receives p = receives pc \<or> receives p = Some (length (cs_receivers S))"
  using assms
  by (cases pc; auto simp: cap_steps fetch_stream_def Let_def receives_def simp del: continue_with.simps split: exec_splits)+

lemma output_step:
  assumes "addresses_ok S pc" "registry_ok S" "receivers_ok S" "cap_exec pc i S = Some (p, new, S')" "flow_ok S pc"
    and "s < length (cs_sessions S)" "output_ok S s"
  shows "output_ok S' s"
proof (cases "serves pc = Some s \<and> (\<exists>a r. p = Writing s a r)")
  case True
  have "addresses_ok S' p" using addresses_step [OF assms(1,2,4)] by blast
  then show ?thesis using flow_output [of S' p s] flow_step [OF assms(1-5)] True by auto
next
  case False
  have "ss_out (sess s S') = ss_out (sess s S)"
  proof (cases "serves pc = Some s")
    case True
    then show ?thesis
      using assms(1,4,6) False by (cases pc; auto simp: cap_steps fetch_stream_def Let_def addresses_ok_def split: exec_splits)
  next
    case False
    then show ?thesis by (rule outputs_other(2) [OF assms(1,4,6)])
  qed
  then show ?thesis by (rule output_kept [OF assms(1-4,6,7)])
qed

lemma serves_session: "addresses_ok S q \<Longrightarrow> serves q = Some s \<Longrightarrow> s < length (cs_sessions S)"
  by (cases q) (auto simp: addresses_ok_def)

lemma receives_address: "addresses_ok S q \<Longrightarrow> receives q = Some r \<Longrightarrow> r < length (cs_receivers S)"
  by (auto simp: addresses_ok_def receives_def)

lemma flow_inv_run:
  assumes "flow_inv ps S" "j < length ps" "cap_exec (ps ! j) i S = Some (p, new, S')"
  shows "flow_inv (ps[j := p] @ new) S'"
proof -
  have inv: "cap_inv ps S" and rcv: "receivers_ok S" and one: "one_each serves ps" "one_each receives ps"
    using assms(1) by (simp_all add: flow_inv_def)
  have reg: "registry_ok S" and addr: "\<And>q. q \<in> set ps \<Longrightarrow> addresses_ok S q" using inv by (auto simp: cap_inv_def)
  have flow: "\<And>q. q \<in> set ps \<Longrightarrow> flow_ok S q" using assms(1) by (simp add: flow_inv_def)
  have pc: "addresses_ok S (ps ! j)" "flow_ok S (ps ! j)" using addr flow assms(2) by simp_all
  note st = assms(3) and m = serves_step [OF assms(3)]
  have "flow_ok S' q" if "q \<in> set (ps[j := p] @ new)" for q
  proof (rule thread_cases [OF assms(2) that])
    assume "q = p \<or> q \<in> set new"
    then show ?thesis using flow_step [OF pc(1) reg rcv st pc(2)] by blast
  next
    fix k assume k: "k < length ps" "k \<noteq> j" "q = ps ! k"
    have "serves q = None \<or> serves (ps ! j) \<noteq> serves q" "receives q = None \<or> receives (ps ! j) \<noteq> receives q"
      using one k assms(2) unfolding one_each_def by (metis option.exhaust)+
    then show ?thesis using flow_other [OF pc(1) reg rcv st] flow addr k by simp
  qed
  moreover have "one_each serves (ps[j := p] @ new)"
    using m(1,2) by (intro one_each_append one_each_update [OF one(1) assms(2)]) auto
  moreover have "one_each receives (ps[j := p] @ new)"
  proof (intro one_each_append one_each_update [OF one(2) assms(2)])
    have "receives (ps ! k) \<noteq> Some (length (cs_receivers S))" if "k < length ps" for k
      using receives_address [OF addr, of "ps ! k"] that by auto
    then show "receives p = None \<or> receives p = receives (ps ! j) \<or> (\<forall>i < length ps. i \<noteq> j \<longrightarrow> receives (ps ! i) \<noteq> receives p)"
      using m(3) by auto
  qed (use m(2) in blast)
  moreover have "output_ok S' s" if "s < length (cs_sessions S')" for s
    using that output_step [OF pc(1) reg rcv st pc(2)] grows_step [OF pc(1) st] assms(1) by (simp add: grows_def flow_inv_def)
  ultimately show ?thesis
    using cap_inv_run [OF inv assms(2,3)] receivers_ok_step [OF pc(1) reg rcv st] by (simp add: flow_inv_def)
qed

text \<open>Events outside the threads change sessions only in what is not looked at here.\<close>

definition same_outputs :: "cap_state \<Rightarrow> cap_session list \<Rightarrow> bool" where
  "same_outputs S xs \<longleftrightarrow> length (cs_sessions S) \<le> length xs \<and>
     (\<forall>s < length (cs_sessions S). ss_out (xs ! s) = ss_out (sess s S) \<and> ss_key (xs ! s) = ss_key (sess s S)) \<and>
     (\<forall>s < length xs. length (cs_sessions S) \<le> s \<longrightarrow> ss_out (xs ! s) = [])"

lemma flow_inv_sessions:
  assumes "flow_inv ps S" "same_outputs S xs"
  shows "flow_inv ps (S\<lparr>cs_sessions := xs\<rparr>)"
proof -
  let ?T = "S\<lparr>cs_sessions := xs\<rparr>"
  have flow: "flow_ok ?T q" if "flow_ok S q" "addresses_ok S q" for q
  proof -
    have "no_output ?T s = no_output S s" "sent ?T s = sent S s" "follows ?T s = follows S s" "ss_key (xs ! s) = ss_key (sess s S)"
      if "serves q = Some s" for s
      using serves_session [OF \<open>addresses_ok S q\<close> that] assms(2)
      by (auto simp: no_output_def sent_def follows_def same_outputs_def fun_eq_iff Let_def)
    then show ?thesis using that(1) by (cases q) auto
  qed
  have "output_ok ?T s" if "s < length xs" for s
  proof (cases "s < length (cs_sessions S)")
    case True
    then show ?thesis using assms by (auto simp: flow_inv_def output_ok_def no_output_def sent_def same_outputs_def)
  next
    case False
    then show ?thesis using assms(2) that by (simp add: output_ok_def no_output_def same_outputs_def)
  qed
  moreover have "cap_inv ps ?T" using assms by (intro cap_inv_sessions) (simp_all add: flow_inv_def same_outputs_def)
  moreover have "receivers_ok ?T" using assms(1) by (simp add: flow_inv_def receivers_ok_def)
  ultimately show ?thesis using assms(1) flow by (auto simp: flow_inv_def cap_inv_def)
qed

lemma flow_inv_begin:
  assumes "flow_inv ps S" "addresses_ok S q" "shutting q = None" "opens_stream q = None" "carries q = None"
    and "flow_ok S q" "receives q = None" "\<forall>p \<in> set ps. serves q = None \<or> serves p \<noteq> serves q"
  shows "flow_inv (ps @ [q]) S"
proof -
  have "one_each serves (ps @ [q])"
    using assms(1,8) by (cases "serves q") (auto simp: flow_inv_def intro: one_each_append one_each_fresh)
  then show ?thesis
    using assms cap_inv_begin [OF _ assms(2-5)] by (auto simp: flow_inv_def intro: one_each_append)
qed

lemma flow_inv_step:
  assumes "cap_step x y" "flow_inv (fst x) (snd x)"
  shows "flow_inv (fst y) (snd y)"
  using assms
proof (cases rule: cap_step.cases)
  case (cap_capture ps S instanceName nodeName interfaceName)
  let ?xs = "cs_sessions S @ [new_session (getCaptureKey instanceName nodeName interfaceName)]"
  have inv: "flow_inv ps S" using assms(2) cap_capture(1) by simp
  have new: "flow_inv ps (S\<lparr>cs_sessions := ?xs\<rparr>)"
    using inv by (rule flow_inv_sessions) (auto simp: same_outputs_def nth_append new_session_def)
  have "serves p \<noteq> Some (length (cs_sessions S))" if "p \<in> set ps" for p
    using serves_session [of S p] that inv by (auto simp: flow_inv_def cap_inv_def)
  then show ?thesis
    unfolding cap_capture(2) fst_conv snd_conv
    by (intro flow_inv_begin [OF new]) (auto simp: addresses_ok_def receives_def no_output_def new_session_def)
next
  case (cap_disconnect s S ps)
  have "flow_inv ps (S\<lparr>cs_sessions := (cs_sessions S)[s := (sess s S)\<lparr>ss_ctxDone := True\<rparr>]\<rparr>)"
    using assms(2) cap_disconnect by (intro flow_inv_sessions) (auto simp: same_outputs_def nth_list_update)
  then show ?thesis using cap_disconnect by (simp add: on_session_def)
next
  case (cap_close ps S)
  then show ?thesis using assms(2) by (auto intro!: flow_inv_begin simp: addresses_ok_def receives_def)
next
  case (cap_run j ps i S p new S')
  then show ?thesis using assms(2) flow_inv_run by auto
qed

lemma flow_inv_reachable: "cap_reachable x \<Longrightarrow> flow_inv (fst x) (snd x)"
proof (induction rule: cap_reachable.induct)
  case cap_start
  show ?case by (simp add: flow_inv_def cap_inv_start) (simp add: receivers_ok_def CreateCaptureService_def)
qed (rule flow_inv_step)

text \<open>C14: What a session has been sent is nothing, or the header of a capture file once and then packets that were captured on
  the interface it asked for, in the order they were captured and none of them twice. While a session waits for packets,
  those sent and those waiting are all that were captured since it joined, unless it fell behind.\<close>

theorem sessions_get_their_packets:
  assumes "cap_reachable (ps, S)"
  shows "(\<forall>s < length (cs_sessions S). ss_out (sess s S) = [] \<or>
      (\<exists>xs a. ss_out (sess s S) = FileHeader # map Packet xs \<and> a < length (cs_streams S)
         \<and> st_key (strm a S) = ss_key (sess s S) \<and> subseq xs (st_read (strm a S))))
    \<and> (\<forall>s a r. Writing s a r \<in> set ps \<longrightarrow> \<not> rc_missed (rcvr r S) \<longrightarrow>
         (\<exists>xs. ss_out (sess s S) = FileHeader # map Packet xs
            \<and> xs @ rc_ch (rcvr r S) = drop (rc_from (rcvr r S)) (st_read (strm a S))))"
proof -
  have inv: "flow_inv ps S" using flow_inv_reachable [OF assms] by simp
  have "\<exists>xs. ss_out (sess s S) = FileHeader # map Packet xs \<and> xs @ rc_ch (rcvr r S) = drop (rc_from (rcvr r S)) (st_read (strm a S))"
    if "Writing s a r \<in> set ps" "\<not> rc_missed (rcvr r S)" for s a r
  proof -
    have "flow_ok S (Writing s a r)" using that(1) inv unfolding flow_inv_def by blast
    then show ?thesis using that(2) by (auto simp: sent_def follows_def Let_def)
  qed
  then show ?thesis using inv by (auto simp: flow_inv_def output_ok_def no_output_def sent_def)
qed

section \<open>Runs\<close>

datatype cap_move = Session string string string | Disconnect nat | CloseCall | Move nat cap_input

fun cap_choose :: "cap_move \<Rightarrow> cap_pc list \<times> cap_state \<Rightarrow> (cap_pc list \<times> cap_state) option" where
  "cap_choose (Session i n f) (ps, S) = Some (ps @ [Subscribe (length (cs_sessions S)) i n f],
     S\<lparr>cs_sessions := cs_sessions S @ [new_session (getCaptureKey i n f)]\<rparr>)"
| "cap_choose (Disconnect s) (ps, S) =
     (if s < length (cs_sessions S) then Some (ps, on_session s (\<lambda>x. x\<lparr>ss_ctxDone := True\<rparr>) S) else None)"
| "cap_choose CloseCall (ps, S) = Some (ps @ [CloseService], S)"
| "cap_choose (Move j i) (ps, S) =
     (if j < length ps then map_option (\<lambda>(p, new, S'). (ps[j := p] @ new, S')) (cap_exec (ps ! j) i S) else None)"

fun cap_follow :: "cap_move list \<Rightarrow> cap_pc list \<times> cap_state \<Rightarrow> (cap_pc list \<times> cap_state) option" where
  "cap_follow [] x = Some x"
| "cap_follow (m # ms) x = (case cap_choose m x of None \<Rightarrow> None | Some y \<Rightarrow> cap_follow ms y)"

lemma cap_choose_step: "cap_choose m x = Some y \<Longrightarrow> cap_step x y"
  by (cases x; cases m) (auto split: if_splits intro: cap_step.intros)

lemma cap_follow_reachable: "cap_follow ms x = Some y \<Longrightarrow> cap_reachable x \<Longrightarrow> cap_reachable y"
proof (induction ms arbitrary: x)
  case (Cons m ms)
  then obtain z where "cap_choose m x = Some z" "cap_follow ms z = Some y" by (auto split: option.splits)
  then show ?case using Cons.IH Cons.prems(2) cap_choose_step cap_more by blast
qed simp

text \<open>Two sessions watch one interface; the capture ends, and both leave.\<close>

lemma at_rest_code [code]:
  "at_rest q = (case q of Ended \<Rightarrow> True | CaptureReturned res \<Rightarrow> True | _ \<Rightarrow> False)"
  by (cases q) (auto simp: at_rest_def)

definition shared_run :: "cap_move list" where
  "shared_run =
    [Session ''lab'' ''r1'' ''eth0'', Move 0 Proceed, Move 1 Proceed, Move 1 Proceed, Move 1 Proceed,
     Move 0 Proceed, Move 0 Proceed, Move 2 (PacketData ''a''), Move 2 Proceed,
     Session ''lab'' ''r1'' ''eth0'', Move 5 Proceed, Move 5 Proceed, Move 5 Proceed,
     Move 2 (PacketData ''b''), Move 2 Proceed, Move 0 TakePacket, Move 0 Proceed, Move 5 TakePacket, Move 5 Proceed,
     Move 0 TakePacket, Move 0 Proceed]"

definition shared_end :: "cap_move list" where
  "shared_end =
    [Move 2 (Failed (Foreign ''EOF'')), Move 2 Proceed, Move 2 Proceed, Move 2 Proceed, Move 2 Proceed, Move 2 Proceed,
     Move 2 Proceed, Move 0 StreamDone, Move 0 Proceed, Move 5 StreamDone, Move 5 Proceed, Move 5 Proceed,
     Move 3 Proceed, Move 6 Proceed, Move 4 CtxDone, Move 7 CtxDone]"

lemma shared_running:
  "case cap_follow shared_run ([], CreateCaptureService) of None \<Rightarrow> False | Some (ps, S) \<Rightarrow>
     ps ! 5 = Writing 1 0 1 \<and> length ps = 8 \<and> \<not> rc_missed (rcvr 1 S) \<and> length (cs_sessions S) = 2
     \<and> ss_out (sess 0 S) = [FileHeader, Packet ''a'', Packet ''b''] \<and> ss_out (sess 1 S) = [FileHeader, Packet ''b'']"
  by code_simp

lemma shared_ended:
  "case cap_follow (shared_run @ shared_end) ([], CreateCaptureService) of None \<Rightarrow> False | Some (ps, S) \<Rightarrow>
     list_all at_rest ps \<and> cs_sources S = 1"
  by code_simp

theorem sessions_get_their_packets_witness:
  "\<exists>ps S xs. Writing 1 0 1 \<in> set ps \<and> ss_out (sess 1 S) = FileHeader # map Packet xs
     \<and> xs @ rc_ch (rcvr 1 S) = drop (rc_from (rcvr 1 S)) (st_read (strm 0 S)) \<and> length (cs_sessions S) = 2"
proof -
  obtain ps S where run: "cap_follow shared_run ([], CreateCaptureService) = Some (ps, S)"
    and facts: "ps ! 5 = Writing 1 0 1" "length ps = 8" "\<not> rc_missed (rcvr 1 S)" "length (cs_sessions S) = 2"
    using shared_running by (auto split: option.splits prod.splits)
  then have "Writing 1 0 1 \<in> set ps" by (metis nth_mem numeral_less_iff semiring_norm(76,78,81))
  then show ?thesis
    using sessions_get_their_packets [OF cap_follow_reachable [OF run cap_start]] facts by blast
qed

theorem captures_released_witness:
  "\<exists>ps S. cap_reachable (ps, S) \<and> (\<forall>q \<in> set ps. at_rest q) \<and> cs_sources S = 1 \<and> set (cs_sourceClosed S) = {..< cs_sources S}"
proof -
  obtain ps S where run: "cap_follow (shared_run @ shared_end) ([], CreateCaptureService) = Some (ps, S)"
    and facts: "list_all at_rest ps" "cs_sources S = 1"
    using shared_ended by (auto split: option.splits prod.splits)
  note reached = cap_follow_reachable [OF run cap_start]
  have rest: "\<forall>q \<in> set ps. at_rest q" using facts(1) by (simp add: list_all_iff)
  then have "set (cs_sourceClosed S) = {..< cs_sources S}"
    by (rule mp [OF conjunct2 [OF conjunct2 [OF conjunct2 [OF captures_released [OF reached]]]]])
  with reached rest facts(2) show ?thesis by (intro exI [of _ ps] exI [of _ S] conjI)
qed

end
