(* ===== verification/Ssh_Server.thy ===== *)
theory Ssh_Server
  imports Shells Config Capture_Service
begin

text \<open>
  The SSH server (\<open>src/sshserver/sshserver.go\<close>, \<open>utils.go\<close>): what a session asks for, the shell or the capture it gets, and
  how it ends. The SSH library, the provider and the parser of UUIDs are parameters: a session is what the client asked
  for and the events of its relay, the opening of a shell and the capture return what they return.
\<close>

section \<open>The command of a capture\<close>

definition tcpdumpArgumentOptions :: string where
  "tcpdumpArgumentOptions = ''BcCEFGijmMQrsTVwWyzZ''"

text \<open>\<open>path.Base\<close>: the last element of a path.\<close>

definition path_Base :: "string \<Rightarrow> string" where
  "path_Base p =
     (if p = [] then ''.''
      else (case rev (dropWhile (\<lambda>c. c = CHR ''/'') (rev p)) of
              [] \<Rightarrow> ''/''
            | p' \<Rightarrow> rev (takeWhile (\<lambda>c. c \<noteq> CHR ''/'') (rev p'))))"

text \<open>The first option of a group that takes an argument, and what follows it.\<close>

fun group_option :: "string \<Rightarrow> (char \<times> string) option" where
  "group_option [] = None"
| "group_option (c # cs) = (if c \<in> set tcpdumpArgumentOptions then Some (c, cs) else group_option cs)"

text \<open>The loop over the arguments.\<close>

fun scan_options :: "string list \<Rightarrow> string option" where
  "scan_options [] = None"
| "scan_options (arg # args) =
     (if HasPrefix arg ''--interface='' then
        (let v = TrimPrefix arg ''--interface='' in if v = [] then None else Some v)
      else if arg = ''--interface'' then (case args of [] \<Rightarrow> None | v # _ \<Rightarrow> Some v)
      else if \<not> HasPrefix arg ''-'' \<or> HasPrefix arg ''--'' \<or> arg = ''-'' then scan_options args
      else (case group_option (tl arg) of
              None \<Rightarrow> scan_options args
            | Some (opt, v) \<Rightarrow>
                (case (v, args) of
                   ([], next_arg # rest) \<Rightarrow>
                     if opt = CHR ''i'' \<and> next_arg \<noteq> [] then Some next_arg else scan_options rest
                 | _ \<Rightarrow> if opt = CHR ''i'' \<and> v \<noteq> [] then Some v else scan_options args)))"

definition errMissingInterface :: go_error where
  "errMissingInterface = Foreign ''missing interface to capture''"

definition errNoInterface :: go_error where
  "errNoInterface = Foreign ''the tcpdump command has no interface (-i)''"

definition errUnexpectedArguments :: "string list \<Rightarrow> go_error" where
  "errUnexpectedArguments args = Foreign (''unexpected arguments ['' @ join '' '' (map quote args) @
     ''], expected an interface name or a tcpdump command'')"

definition parseCaptureCommand :: "string list \<Rightarrow> string result" where
  "parseCaptureCommand args0 =
     (let args = (case args0 of a # rest \<Rightarrow> if a = ''sudo'' then rest else args0 | [] \<Rightarrow> []) in
      case args of
        [] \<Rightarrow> Inl errMissingInterface
      | a # rest \<Rightarrow>
          if path_Base a \<noteq> ''tcpdump'' then
            (if rest \<noteq> [] then Inl (errUnexpectedArguments rest) else Inr a)
          else (case scan_options rest of None \<Rightarrow> Inl errNoInterface | Some v \<Rightarrow> Inr v))"

section \<open>Sessions\<close>

text \<open>What can happen while a shell is relayed, in the order the select sees it.\<close>

datatype relay_event = Window nat nat | WindowsClosed | OutputDone | InputDone | ConnectionDone

record ssh_session =
  sx_User :: string
  sx_Command :: "string list"
  sx_Pty :: "(nat \<times> nat) option"
  sx_events :: "relay_event list"

text \<open>What a session led to: its exit code and its errors, the shell that was opened for it, with the sizes it was given and
  whether it has been closed, and the capture that was run for it.\<close>

record ssh_outcome =
  so_exit :: "int option"
  so_stderr :: string
  so_shell :: "(string \<times> instance_node) option"
  so_resizes :: "(nat \<times> nat) list"
  so_closed :: bool
  so_capture :: "(string \<times> string \<times> string) option"

definition no_outcome :: ssh_outcome where
  "no_outcome = \<lparr>so_exit = None, so_stderr = [], so_shell = None, so_resizes = [], so_closed = False, so_capture = None\<rparr>"

definition exitUsage :: int where "exitUsage = 2"

definition exitFailure :: int where "exitFailure = 1"

definition endSessionf :: "int \<Rightarrow> string \<Rightarrow> ssh_outcome \<Rightarrow> ssh_outcome" where
  "endSessionf exitCode message so = so\<lparr>so_exit := Some exitCode, so_stderr := so_stderr so @ message @ [CHR 0x0A]\<rparr>"

text \<open>The relay of a shell: the sizes it was given, the exit code, and whether the loop has returned. Once the channel of
  window changes is closed it receives nothing.\<close>

fun relay :: "bool \<Rightarrow> relay_event list \<Rightarrow> (nat \<times> nat) list \<times> int option \<times> bool" where
  "relay windows [] = ([], None, False)"
| "relay windows (Window cols rows # es) =
     (if windows then apfst ((#) (cols, rows)) (relay windows es) else relay windows es)"
| "relay windows (WindowsClosed # es) = relay False es"
| "relay windows (OutputDone # es) = ([], Some 0, True)"
| "relay windows (InputDone # es) = ([], None, True)"
| "relay windows (ConnectionDone # es) = ([], None, True)"

definition ssh_runShell ::
  "(string \<Rightarrow> instance_node \<Rightarrow> unit result) \<Rightarrow> ssh_session \<Rightarrow> string \<Rightarrow> instance_node \<Rightarrow> ssh_outcome" where
  "ssh_runShell open_shell sx instanceName node =
     (case sx_Pty sx of
        None \<Rightarrow> endSessionf exitUsage ''a terminal is required for a shell, connect with ssh -t'' no_outcome
      | Some window \<Rightarrow>
          (case open_shell instanceName node of
             Inl err \<Rightarrow> endSessionf exitFailure (''unable to open shell: '' @ error_text err) no_outcome
           | Inr _ \<Rightarrow>
               (case relay True (sx_events sx) of
                  (sizes, code, ended) \<Rightarrow>
                    no_outcome\<lparr>so_shell := Some (instanceName, node), so_resizes := window # sizes, so_exit := code,
                      so_closed := ended\<rparr>)))"

definition startCapture ::
  "(string \<Rightarrow> string \<Rightarrow> string \<Rightarrow> go_error option) \<Rightarrow> string \<Rightarrow> instance_node \<Rightarrow> string list \<Rightarrow> ssh_outcome" where
  "startCapture capture instanceName node args =
     (if n_State node = NodeStopped then
        endSessionf exitFailure (''node '' @ instanceName @ ''/'' @ n_Name node @ '' is not running'') no_outcome
      else (case parseCaptureCommand args of
        Inl err \<Rightarrow> endSessionf exitUsage (error_text err) no_outcome
      | Inr interfaceName \<Rightarrow>
          (let so = no_outcome\<lparr>so_capture := Some (instanceName, n_Name node, interfaceName)\<rparr> in
           case capture instanceName (n_Name node) interfaceName of
             Some err \<Rightarrow> endSessionf exitFailure (''failed to capture '' @ interfaceName @ '' on '' @ instanceName @ ''/''
                 @ n_Name node @ '': '' @ error_text err) so
           | None \<Rightarrow> so\<lparr>so_exit := Some 0\<rparr>)))"

text \<open>\<open>IsUuid\<close>: the parser returns the canonical form.\<close>

definition IsUuid :: "(string \<Rightarrow> string option) \<Rightarrow> string \<Rightarrow> bool" where
  "IsUuid uuid_Parse s \<longleftrightarrow> uuid_Parse s = Some s"

text \<open>The node that is connected to when nothing was looked up, the zero value.\<close>

definition zero_node :: instance_node where
  "zero_node = \<lparr>n_Name = [], n_Kind = [], n_CanRestart = False, n_LogNamespace = [], n_IPv4 = [], n_IPv6 = [],
     n_State = NodeStopped, n_IsReady = False, n_ContainerId = [], n_ContainerName = [], n_Interfaces = []\<rparr>"

text \<open>The node the user name of the session asks for; \<open>None\<close> for a name with too many parts. No user is passed on, so
  access is not checked.\<close>

definition session_target ::
  "('db, 'node, 'h) env \<Rightarrow> string list \<Rightarrow> (string \<Rightarrow> string option) \<Rightarrow> string \<Rightarrow> ('db, 'h) server
    \<Rightarrow> (instance_node \<times> string) result option" where
  "session_target E keys uuid_Parse user w =
     (case split_on CHR ''/'' user of
        [containerId] \<Rightarrow>
          Some (if containerId = [] then Inr (zero_node, [])
                else GetInstanceNode E keys None None None None None (Some containerId) None w)
      | [lab, node] \<Rightarrow>
          Some (if IsUuid uuid_Parse lab
                then GetInstanceNode E keys (Some lab) None None None (Some node) None None w
                else GetInstanceNode E keys None (Some lab) None None (Some node) None None w)
      | [coll, lab, node] \<Rightarrow>
          Some (GetInstanceNode E keys None None (Some coll) (Some lab) (Some node) None None w)
      | _ \<Rightarrow> None)"

definition handleSession ::
  "('db, 'node, 'h) env \<Rightarrow> string list \<Rightarrow> (string \<Rightarrow> string option) \<Rightarrow> capture_section
    \<Rightarrow> (string \<Rightarrow> instance_node \<Rightarrow> unit result) \<Rightarrow> (string \<Rightarrow> string \<Rightarrow> string \<Rightarrow> go_error option)
    \<Rightarrow> ssh_session \<Rightarrow> ('db, 'h) server \<Rightarrow> ssh_outcome" where
  "handleSession E keys uuid_Parse captureConfig open_shell capture sx w =
     (if sx_Command sx \<noteq> [] \<and> \<not> capture_Enabled captureConfig
      then endSessionf exitUsage ''traffic capture is not enabled'' no_outcome
      else (case session_target E keys uuid_Parse (sx_User sx) w of
        None \<Rightarrow> endSessionf exitUsage (''invalid node '' @ quote (sx_User sx) @ '', expected \"<container-id>\", ''
          @ ''\"<lab>/<node>\" or \"<collection>/<lab>/<node>\"'') no_outcome
      | Some (Inl err) \<Rightarrow> endSessionf exitFailure (''unable to connect to node: '' @ error_text err) no_outcome
      | Some (Inr (node, instanceName)) \<Rightarrow>
          if sx_Command sx \<noteq> [] then startCapture capture instanceName node (sx_Command sx)
          else ssh_runShell open_shell sx instanceName node))"

section \<open>The server\<close>

text \<open>Whether the server was closed, and whether it has a running server of the SSH library.\<close>

record ssh_server =
  sv_closed :: bool
  sv_sshServer :: bool

definition CreateSshServer :: ssh_server where
  "CreateSshServer = \<lparr>sv_closed = False, sv_sshServer = False\<rparr>"

definition errServerClosed :: go_error where
  "errServerClosed = Foreign ''the SSH server has been closed''"

text \<open>Making the host key: what \<open>os.Stat\<close> says of the file, and the outcomes of generating, encoding and writing the key.\<close>

datatype stat = Exists | Missing | StatFailed go_error

definition ensureHostKey ::
  "stat \<Rightarrow> 'key result \<Rightarrow> ('key \<Rightarrow> 'bytes result) \<Rightarrow> ('bytes \<Rightarrow> go_error option) \<Rightarrow> go_error option" where
  "ensureHostKey st generated marshal write_file =
     (case st of
        Exists \<Rightarrow> None
      | StatFailed err \<Rightarrow> Some err
      | Missing \<Rightarrow>
          (case generated of
             Inl err \<Rightarrow> Some err
           | Inr key \<Rightarrow> (case marshal key of Inl err \<Rightarrow> Some err | Inr bytes \<Rightarrow> write_file bytes)))"

definition createSSHServer :: "go_error option \<Rightarrow> go_error option \<Rightarrow> go_error option" where
  "createSSHServer host_key load_key =
     (case host_key of
        Some err \<Rightarrow> Some (Prefixed ''preparing host key: '' err)
      | None \<Rightarrow> map_option (Prefixed ''loading host key: '') load_key)"

text \<open>\<open>Start\<close> up to the point where the library listens, and \<open>Close\<close> with whether it closes the server of the library; after
  that it closes the captures (\<open>close_service\<close>).\<close>

definition ssh_Start :: "go_error option \<Rightarrow> ssh_server \<Rightarrow> go_error option \<times> ssh_server" where
  "ssh_Start created v =
     (case created of
        Some err \<Rightarrow> (Some err, v)
      | None \<Rightarrow> if sv_closed v then (Some errServerClosed, v) else (None, v\<lparr>sv_sshServer := True\<rparr>))"

definition ssh_Close :: "ssh_server \<Rightarrow> ssh_server \<times> bool" where
  "ssh_Close v = (v\<lparr>sv_closed := True\<rparr>, sv_sshServer v)"

end
