(* ===== verification/Ssh_Behaviour.thy ===== *)
theory Ssh_Behaviour
  imports Ssh_Server Instance_Behaviour
begin

text \<open>
  What an SSH session gets: the interface its command names by the rules of tcpdump's options, and a shell or a capture
  only on a node of a current instance. A session without a user name is the exception, shown by an example.
\<close>

section \<open>The options of tcpdump\<close>

text \<open>The words of a command line: a group of flags, one that ends in an option with its argument attached or as the next
  word, the two forms of the long option, and words that are no options or other long ones.\<close>

datatype tcpdump_word =
    Flags string
  | Attached string char string
  | Separate string char string
  | LongInterface string
  | LongInterfaceEq string
  | OtherWord string

fun words_of :: "tcpdump_word \<Rightarrow> string list" where
  "words_of (Flags fs) = [CHR ''-'' # fs]"
| "words_of (Attached fs c v) = [CHR ''-'' # fs @ c # v]"
| "words_of (Separate fs c v) = [CHR ''-'' # fs @ [c], v]"
| "words_of (LongInterface v) = [''--interface'', v]"
| "words_of (LongInterfaceEq v) = [''--interface='' @ v]"
| "words_of (OtherWord s) = [s]"

definition flags_ok :: "string \<Rightarrow> bool" where
  "flags_ok fs \<longleftrightarrow> set fs \<inter> set tcpdumpArgumentOptions = {} \<and> (fs \<noteq> [] \<longrightarrow> hd fs \<noteq> CHR ''-'')"

fun word_ok :: "tcpdump_word \<Rightarrow> bool" where
  "word_ok (Flags fs) \<longleftrightarrow> fs \<noteq> [] \<and> flags_ok fs"
| "word_ok (Attached fs c v) \<longleftrightarrow> flags_ok fs \<and> c \<in> set tcpdumpArgumentOptions \<and> v \<noteq> []"
| "word_ok (Separate fs c v) \<longleftrightarrow> flags_ok fs \<and> c \<in> set tcpdumpArgumentOptions"
| "word_ok (LongInterface v) \<longleftrightarrow> True"
| "word_ok (LongInterfaceEq v) \<longleftrightarrow> v \<noteq> []"
| "word_ok (OtherWord s) \<longleftrightarrow> \<not> HasPrefix s ''-'' \<or> s = ''-''
     \<or> HasPrefix s ''--'' \<and> s \<noteq> ''--interface'' \<and> \<not> HasPrefix s ''--interface=''"

fun named_interface :: "tcpdump_word \<Rightarrow> string option" where
  "named_interface (Attached fs c v) = (if c = CHR ''i'' then Some v else None)"
| "named_interface (Separate fs c v) = (if c = CHR ''i'' \<and> v \<noteq> [] then Some v else None)"
| "named_interface (LongInterface v) = Some v"
| "named_interface (LongInterfaceEq v) = Some v"
| "named_interface _ = None"

lemma no_dash_option [simp]: "CHR ''-'' \<notin> set tcpdumpArgumentOptions"
  by (simp add: tcpdumpArgumentOptions_def)

lemma group_option_flags:
  "set fs \<inter> set tcpdumpArgumentOptions = {} \<Longrightarrow> group_option (fs @ cs) = group_option cs"
  by (induction fs) auto

lemma group_option_None: "group_option cs = None \<longleftrightarrow> set cs \<inter> set tcpdumpArgumentOptions = {}"
  by (induction cs) auto

lemma group_option_Some:
  "group_option cs = Some (c, v) \<Longrightarrow>
     \<exists>fs. cs = fs @ c # v \<and> set fs \<inter> set tcpdumpArgumentOptions = {} \<and> c \<in> set tcpdumpArgumentOptions"
proof (induction cs)
  case (Cons d ds)
  show ?case
  proof (cases "d \<in> set tcpdumpArgumentOptions")
    case True
    then show ?thesis using Cons.prems by (intro exI [of _ "[]"]) auto
  next
    case False
    then obtain fs where "ds = fs @ c # v" "set fs \<inter> set tcpdumpArgumentOptions = {}" "c \<in> set tcpdumpArgumentOptions"
      using Cons by auto
    then show ?thesis using False by (intro exI [of _ "d # fs"]) auto
  qed
qed simp

text \<open>A group is no long option.\<close>

lemma group_word:
  assumes "flags_ok fs" "fs @ cs \<noteq> []" "cs = [] \<or> hd cs \<noteq> CHR ''-''"
  shows "HasPrefix (CHR ''-'' # fs @ cs) ''-''" "\<not> HasPrefix (CHR ''-'' # fs @ cs) ''--''"
    "\<not> HasPrefix (CHR ''-'' # fs @ cs) ''--interface=''" "CHR ''-'' # fs @ cs \<noteq> ''--interface''"
  using assms by (cases fs; cases cs; auto simp: flags_ok_def)+

lemma scan_word:
  assumes "word_ok w"
  shows "scan_options (words_of w @ rest) = (case named_interface w of Some v \<Rightarrow> Some v | None \<Rightarrow> scan_options rest)"
proof (cases w)
  case (Flags fs)
  then show ?thesis
    using assms group_word [of fs "[]"] group_option_None [of fs] by (auto simp: flags_ok_def)
next
  case (Attached fs c v)
  then have "c \<noteq> CHR ''-''" using assms by auto
  then show ?thesis
    using assms Attached group_word [of fs "c # v"] group_option_flags [of fs "c # v"]
    by (auto simp: flags_ok_def split: list.splits)
next
  case (Separate fs c v)
  then have "c \<noteq> CHR ''-''" using assms by auto
  then show ?thesis
    using assms Separate group_word [of fs "[c]"] group_option_flags [of fs "[c]"] by (auto simp: flags_ok_def)
next
  case (OtherWord s)
  then show ?thesis using assms by (cases s) auto
qed (use assms in \<open>auto simp: TrimPrefix_def\<close>)

lemma scan_words:
  assumes "list_all word_ok ws" "list_all (\<lambda>w. named_interface w = None) ws"
  shows "scan_options (concat (map words_of ws) @ rest) = scan_options rest"
  using assms by (induction ws) (simp_all add: scan_word)

text \<open>The first word of a command in which an interface is found.\<close>

lemma scan_first:
  assumes "scan_options (arg # args) = Some v"
  shows "\<exists>w rest. arg # args = words_of w @ rest \<and> word_ok w"
proof (cases "HasPrefix arg ''--interface=''")
  case True
  then obtain x where "arg = ''--interface='' @ x" unfolding HasPrefix_iff by blast
  with assms True have "arg # args = words_of (LongInterfaceEq x) @ args \<and> word_ok (LongInterfaceEq x)"
    by (auto simp: TrimPrefix_def Let_def split: if_splits)
  then show ?thesis by blast
next
  case noteq: False
  show ?thesis
  proof (cases "arg = ''--interface''")
    case True
    with assms noteq obtain x rest where "args = x # rest" by (auto split: list.splits)
    then have "arg # args = words_of (LongInterface x) @ rest" using True by simp
    then show ?thesis by (metis word_ok.simps(4))
  next
    case False
    show ?thesis
    proof (cases "\<not> HasPrefix arg ''-'' \<or> HasPrefix arg ''--'' \<or> arg = ''-''")
      case True
      then have "arg # args = words_of (OtherWord arg) @ args \<and> word_ok (OtherWord arg)" using noteq False by auto
      then show ?thesis by blast
    next
      case group: False
      then obtain cs where arg: "arg = CHR ''-'' # cs" "cs \<noteq> []" "hd cs \<noteq> CHR ''-''"
        by (cases arg; cases "tl arg") auto
      show ?thesis
      proof (cases "group_option cs")
        case None
        then have "arg # args = words_of (Flags cs) @ args \<and> word_ok (Flags cs)"
          using arg group_option_None [of cs] by (simp add: flags_ok_def)
        then show ?thesis by blast
      next
        case (Some cv)
        then obtain c x where cx: "group_option cs = Some (c, x)" by (cases cv) auto
        then obtain fs where fs: "cs = fs @ c # x" "set fs \<inter> set tcpdumpArgumentOptions = {}" "c \<in> set tcpdumpArgumentOptions"
          using group_option_Some by blast
        have ok: "flags_ok fs" using fs(1,2) arg(3) by (cases fs) (auto simp: flags_ok_def)
        show ?thesis
        proof (cases "x = []")
          case False
          then have "arg # args = words_of (Attached fs c x) @ args \<and> word_ok (Attached fs c x)" using arg fs ok by simp
          then show ?thesis by blast
        next
          case True
          have "args \<noteq> []"
          proof
            assume "args = []"
            then show False using assms noteq False group arg cx True by simp
          qed
          then obtain y rest where "args = y # rest" by (cases args) auto
          then have "arg # args = words_of (Separate fs c y) @ rest \<and> word_ok (Separate fs c y)" using arg fs ok True by simp
          then show ?thesis by blast
        qed
      qed
    qed
  qed
qed

lemma words_of_not_Nil [simp]: "words_of w \<noteq> []"
  by (cases w) simp_all

lemma scan_splits:
  assumes "scan_options args = Some v"
  shows "\<exists>ws w rest. args = concat (map words_of ws) @ words_of w @ rest \<and> list_all word_ok ws
    \<and> list_all (\<lambda>x. named_interface x = None) ws \<and> word_ok w \<and> named_interface w = Some v"
  using assms
proof (induction args rule: length_induct)
  case (1 args)
  obtain arg args' where "args = arg # args'" using 1(2) by (cases args) auto
  with 1(2) scan_first obtain w rest where w: "args = words_of w @ rest" "word_ok w" by blast
  show ?case
  proof (cases "named_interface w")
    case None
    have "scan_options rest = Some v" using 1(2) w None by (simp add: scan_word)
    moreover have "length rest < length args" using w(1) by simp
    ultimately obtain ws u rest' where "rest = concat (map words_of ws) @ words_of u @ rest'" "list_all word_ok ws"
      "list_all (\<lambda>x. named_interface x = None) ws" "word_ok u" "named_interface u = Some v"
      using 1(1) by blast
    then show ?thesis using w None by (intro exI [of _ "w # ws"] exI [of _ u] exI [of _ rest']) simp
  next
    case (Some x)
    then have "x = v" using 1(2) w by (simp add: scan_word)
    then show ?thesis using w Some by (intro exI [of _ "[]"] exI [of _ w] exI [of _ rest]) simp
  qed
qed

definition without_sudo :: "string list \<Rightarrow> string list" where
  "without_sudo args = (if take 1 args = [''sudo''] then tl args else args)"

lemma parse_without_sudo:
  "parseCaptureCommand args =
     (case without_sudo args of
        [] \<Rightarrow> Inl errMissingInterface
      | a # rest \<Rightarrow>
          if path_Base a \<noteq> ''tcpdump'' then (if rest \<noteq> [] then Inl (errUnexpectedArguments rest) else Inr a)
          else (case scan_options rest of None \<Rightarrow> Inl errNoInterface | Some v \<Rightarrow> Inr v))"
  by (cases args) (simp_all add: parseCaptureCommand_def without_sudo_def Let_def)

text \<open>C28: The command of a capture session names an interface exactly when, after sudo, it is one word, the interface, or a
  tcpdump command whose words before the first option that names an interface are complete options and other words.\<close>

theorem capture_command_names_interface:
  "parseCaptureCommand args = Inr v \<longleftrightarrow>
     without_sudo args = [v] \<and> path_Base v \<noteq> ''tcpdump''
     \<or> (\<exists>p ws w rest. without_sudo args = p # concat (map words_of ws) @ words_of w @ rest \<and> path_Base p = ''tcpdump''
          \<and> list_all word_ok ws \<and> list_all (\<lambda>x. named_interface x = None) ws \<and> word_ok w \<and> named_interface w = Some v)"
proof (cases "without_sudo args")
  case (Cons p rest)
  have "scan_options rest = Some v \<longleftrightarrow>
      (\<exists>ws w r. rest = concat (map words_of ws) @ words_of w @ r \<and> list_all word_ok ws
         \<and> list_all (\<lambda>x. named_interface x = None) ws \<and> word_ok w \<and> named_interface w = Some v)"
    using scan_splits scan_words scan_word by fastforce
  then show ?thesis using Cons by (auto simp: parse_without_sudo split: option.splits if_splits)
qed (simp add: parse_without_sudo)

section \<open>The node of a session\<close>

definition node_of_instance :: "('db, 'h) server \<Rightarrow> string \<Rightarrow> instance_node \<Rightarrow> bool" where
  "node_of_instance w name node \<longleftrightarrow>
     (\<exists>u a k. rt_instances (rt w) u = Some a \<and> map_of (i_Nodes (inst a w)) k = Some node \<and> name = i_Name (inst a w))"

lemma GetInstanceNode_of_instance:
  "GetInstanceNode E keys l i c n k cid u w = Inr (node, name) \<Longrightarrow> node_of_instance w name node"
  by (drule GetInstanceNode_allowed) (auto simp: node_of_instance_def)

lemma session_target_of_instance:
  assumes "session_target E keys P user w = Some (Inr (node, name))" "user \<noteq> []"
  shows "node_of_instance w name node"
proof -
  have "split_on CHR ''/'' user \<noteq> [[]]"
  proof
    assume "split_on CHR ''/'' user = [[]]"
    with assms(2) show False by (cases user) (auto split: if_splits list.splits)
  qed
  with assms(1) show ?thesis
    by (auto simp: session_target_def split: list.splits if_splits intro: GetInstanceNode_of_instance)
qed

lemma outcome_fields [simp]:
  "so_shell (endSessionf c m so) = so_shell so" "so_capture (endSessionf c m so) = so_capture so"
  "so_exit (endSessionf c m so) = Some c" "so_shell no_outcome = None" "so_capture no_outcome = None"
  by (simp_all add: endSessionf_def no_outcome_def)

lemma exit_codes [simp]: "exitFailure \<noteq> exitUsage" "exitUsage \<noteq> 0" "0 \<noteq> exitUsage" "exitFailure \<noteq> 0"
  by (simp_all add: exitFailure_def exitUsage_def)

lemma relay_exit: "relay b es = (sizes, code, ended) \<Longrightarrow> code = None \<or> code = Some 0 \<and> ended"
  by (induction b es arbitrary: sizes rule: relay.induct) (auto simp: apfst_def map_prod_def split: if_splits prod.splits)

text \<open>C16: A session whose user name is not empty gets a shell or a capture, never both, and only on a node of a current instance:
  a shell only without a command and with a terminal, a capture only if captures are enabled, of the interface its
  command names, and on a node that is not stopped. A session that ends with the code for a wrong use got neither.\<close>

theorem session_on_existing_node:
  assumes "sx_User sx \<noteq> []"
    and "handleSession E keys uuid_Parse C open_shell capture sx w = so"
  shows "(\<forall>name node. so_shell so = Some (name, node) \<longrightarrow>
      so_capture so = None \<and> sx_Command sx = [] \<and> sx_Pty sx \<noteq> None \<and> node_of_instance w name node)
    \<and> (\<forall>name n i. so_capture so = Some (name, n, i) \<longrightarrow>
      capture_Enabled C \<and> parseCaptureCommand (sx_Command sx) = Inr i
      \<and> (\<exists>node. n_Name node = n \<and> n_State node \<noteq> NodeStopped \<and> node_of_instance w name node))
    \<and> (so_exit so = Some exitUsage \<longrightarrow> so_shell so = None \<and> so_capture so = None)"
proof (cases "\<exists>node name. session_target E keys uuid_Parse (sx_User sx) w = Some (Inr (node, name))")
  case True
  then obtain node name where t: "session_target E keys uuid_Parse (sx_User sx) w = Some (Inr (node, name))" by blast
  have n: "node_of_instance w name node" by (rule session_target_of_instance [OF t assms(1)])
  show ?thesis
  proof (cases "sx_Command sx = []")
    case True
    then have "so = ssh_runShell open_shell sx name node" using assms(2) t by (simp add: handleSession_def)
    then show ?thesis
      using n True by (auto simp: ssh_runShell_def no_outcome_def split: option.splits sum.splits prod.splits dest: relay_exit)
  next
    case False
    show ?thesis
    proof (cases "capture_Enabled C")
      case True
      then have "so = startCapture capture name node (sx_Command sx)" using assms(2) t False by (simp add: handleSession_def)
      then show ?thesis
        using n True by (auto simp: startCapture_def Let_def no_outcome_def split: option.splits sum.splits if_splits)
    qed (use assms(2) False in \<open>auto simp: handleSession_def\<close>)
  qed
next
  case False
  then show ?thesis using assms(2) by (auto simp: handleSession_def split: option.splits sum.splits prod.splits if_splits)
qed

text \<open>Without a user name no node is looked up, and the shell is opened on the zero node.\<close>

lemma shell_without_user:
  assumes "sx_User sx = []" "sx_Command sx = []" "sx_Pty sx = Some window" "sx_events sx = []" "open_shell [] zero_node = Inr x"
  shows "so_shell (handleSession E keys uuid_Parse C open_shell capture sx w) = Some ([], zero_node)"
  using assms by (simp add: handleSession_def session_target_def ssh_runShell_def)

text \<open>No server listens after \<open>Close\<close>.\<close>

lemma closed_server_never_starts:
  "fst (ssh_Start created (fst (ssh_Close v))) \<noteq> None \<and> snd (ssh_Start created (fst (ssh_Close v))) = fst (ssh_Close v)"
  by (simp add: ssh_Start_def ssh_Close_def split: option.split)

theorem session_on_existing_node_witness:
  "\<exists>(w :: (memory, string) server) n. node_of_instance w ''net-1'' n"
proof -
  obtain w :: "(memory, string) server" and n where w: "rt_instances (rt w) ''l1'' = Some 0"
    "i_Nodes (inst 0 w) = [(''r1'', n)]" "i_Name (inst 0 w) = ''net-1''"
    "lab_GetByUuid (e_database demo_lab_env) ''l1'' (w_db w) = Inr demo_lab"
    using demo_running unfolding demo_lab_database by blast
  let ?sx = "\<lparr>sx_User = ''l1/r1'', sx_Command = [], sx_Pty = Some (80, 24), sx_events = [OutputDone]\<rparr>"
  have g: "GetInstanceNode demo_lab_env [''l1''] (Some ''l1'') None None None (Some ''r1'') None None w = Inr (n, ''net-1'')"
    using w by (simp add: GetInstanceNode_def locate_node_def locate_by_lab_def)
  have "so_shell (handleSession demo_lab_env [''l1''] Some (cf_Capture defaultConfig) (\<lambda>_ _. Inr ()) (\<lambda>_ _ _. None) ?sx w)
      = Some (''net-1'', n)"
    using g by (simp add: handleSession_def session_target_def IsUuid_def ssh_runShell_def)
  moreover have "sx_User ?sx \<noteq> []" by simp
  ultimately have "node_of_instance w ''net-1'' n"
    using session_on_existing_node [OF _ refl, of ?sx demo_lab_env "[''l1'']" Some "cf_Capture defaultConfig" "\<lambda>_ _. Inr ()"
        "\<lambda>_ _ _. None" w] by blast
  then show ?thesis by blast
qed

end
