(* ===== verification/Spec2Isabelle.thy ===== *)
theory Spec2Isabelle
  imports Prelude Errors Ring Schedule Event_Bus Entities Scheduler Go_Strings Storage Policy Auth
    Repositories Schema Yaml_Nodes Messages World Memory_Database Topology_Service Lab_Service
    Collection_Service User_Service Services Instances Instance_Steps Instance_System Lifecycle
    Instance_Refinement Instance_Runs Instance_Service Instance_Progress Instance_Behaviour
    Statistics Sockets Shells Shell_Behaviour Commands Providers Dummy_Provider Dummy_Behaviour
    Containerlab Clabernetes Clabernetes_Behaviour Transport Config Http Web_Server Http_Behaviour
    Capture_Service Capture_Safety Capture_Flow Ssh_Server Ssh_Behaviour
begin

text \<open>
  A model of the Antimony server (\<open>src/src\<close>, the Go backend of the Antimony lab platform). Users keep
  network topologies in collections, reserve labs for them, and the server deploys and destroys the
  labs, at their times or on command, through a deployment provider (containerlab or clabernetes).

  \<^bold>\<open>The program and its theories.\<close>

  \<^item> Libraries: \<open>Ring\<close> (\<open>utils/ring.go\<close>: the backlogs of log streams), \<open>Schedule\<close> (\<open>utils/schedule.go\<close>: a queue
    ordered by time with a map of keys), \<open>Event_Bus\<close> (\<open>utils/event_bus.go\<close>), \<open>Errors\<close> (\<open>utils/errors.go\<close>,
    \<open>utils/response.go\<close>: the error values, \<open>errors.Is\<close> and the table of HTTP and socket codes), \<open>Go_Strings\<close>
    (what the code uses of \<open>strings\<close>, \<open>path\<close> and \<open>filepath\<close>), \<open>Yaml_Nodes\<close> (\<open>utils/yaml.go\<close>: the editing of YAML
    documents with anchors, aliases and merge keys, on a store of nodes since nodes are shared),
    \<open>Messages\<close> (\<open>utils/serverlog\<close>, \<open>domain/statusmessage\<close>).
  \<^item> \<open>Scheduler\<close> (\<open>runtime/scheduler\<close>): two schedules fed by the events of labs, and the loop that starts what is due.
  \<^item> \<open>Storage\<close> (\<open>storage/manager.go\<close>): the files of topologies and labs over a file system of paths.
  \<^item> \<open>Policy\<close> (\<open>policy\<close>): the rules for topologies of users who are no admins, the specification \<open>safe\<close> they are
    checked against, and the cache of findings.
  \<^item> \<open>Auth\<close> (\<open>auth\<close>): logins, tokens and the sessions behind them; signing and hashing are parameters.
  \<^item> \<open>Entities\<close>, \<open>Repositories\<close> (\<open>domain/*/entity.go\<close>, \<open>domain/*/repository.go\<close>): rows, and the queries over a database that
    is a parameter, a record of functions; \<open>Memory_Database\<close> is an instance of it for concrete runs.
  \<^item> \<open>World\<close>: the state the services share, and steps on it that may fail. \<open>Schema\<close>, \<open>Topology_Service\<close>,
    \<open>Lab_Service\<close>, \<open>Collection_Service\<close>, \<open>User_Service\<close> (\<open>domain/*/service.go\<close>): one definition per method.
    \<open>Services\<close> composes them: the requests of users, and the states reached by them.
  \<^item> The instance service (\<open>runtime/instance\<close>), which deploys, destroys and watches labs with many threads:
    \<open>Instances\<close> (data, monitor, critical sections), \<open>Instance_Steps\<close> (the operations that wait, each a thread
    with a program counter \<open>pc\<close>; a step is the code between two points where other threads can interfere),
    \<open>Instance_System\<close> (start with the instances found again, closing, and the interleaving of all threads).
  \<^item> \<open>Sockets\<close> (\<open>socket\<close>): the namespaces through which clients are served, with their access checks and backlogs;
    connecting, leaving and sending are threads. \<open>Shells\<close>, \<open>Shell_Behaviour\<close> (\<open>runtime/shell\<close>): the shells users open on
    nodes, with one namespace each. \<open>Commands\<close> (\<open>runtime/commands\<close>): the commands clients send, and the system of the
    instance service, the shell service and the commands that run on them.
  \<^item> The providers (\<open>deployment\<close>): \<open>Providers\<close> has what they share (\<open>deployment.go\<close>: running commands, reading their
    output, finding nodes), \<open>Dummy_Provider\<close>, \<open>Dummy_Behaviour\<close> (\<open>dummy.go\<close>) the provider without containers and
    deployments over it, \<open>Containerlab\<close> (\<open>containerlab.go\<close>) the one that runs containerlab and Docker on the host, with
    the threads that enter the network namespaces of nodes, \<open>Clabernetes\<close> and \<open>Clabernetes_Behaviour\<close> (\<open>clabernetes.go\<close>)
    the one that runs labs on Kubernetes: the inspection of labs from pods and deployments, the watch of the
    cluster, the forwarding of events, the waiting for nodes, and the capture streams. Docker, the Kubernetes
    client and the commands are parameters. \<open>Statistics\<close> (\<open>stats.go\<close>, \<open>sampler_docker.go\<close>, \<open>sampler_remote.go\<close>): the
    statistics of nodes.
  \<^item> The HTTP interface: \<open>Transport\<close> (\<open>transport/*.go\<close>: what is sent to clients), \<open>Config\<close> (\<open>config\<close>), \<open>Http\<close>
    (\<open>transport/http/*/handler.go\<close>: one definition per handler, which calls the services above), \<open>Web_Server\<close> (the tables
    of routes, the authenticator and CORS in front of the handlers, and \<open>createWebServer\<close> of \<open>main.go\<close>: \<open>ServeHTTP\<close>
    takes a request and the state of the server to the response and the new state), \<open>Http_Behaviour\<close>.
  \<^item> The SSH interface (\<open>sshserver\<close>): \<open>Ssh_Server\<close>, \<open>Ssh_Behaviour\<close> (\<open>sshserver.go\<close>, \<open>utils.go\<close>: the sessions and their
    commands), \<open>Capture_Service\<close> (\<open>capture.go\<close>: the streams that sessions share, whose goroutines are threads),
    \<open>Capture_Safety\<close>, \<open>Capture_Flow\<close>.

  The state of the instance service extends the world of the services as a record, so deploying calls the
  schema, storage and topology services as the code does, and \<open>instance_service\<close> is the runtime that the lab
  service asks before it deletes a lab.

  \<^bold>\<open>What is shown.\<close> The engine of the policy reports nothing exactly for the safe topologies, its findings
  do not depend on map order, its cache is transparent, and every topology is shown with the findings
  of its present text; labs are only created from topologies without unsafe features; denied requests
  change nothing. Paths of bind files stay inside the directory of their topology and do not
  interfere. The scheduler starts only what is due, never panics, and forgets labs that were cancelled, but
  may keep a second entry for a destruction. A native login succeeds exactly with the credentials of a user and gives
  tokens for that user; that these authenticate the user is shown for servers at which nobody has logged in with OpenID.
  Renaming a definition changes nothing but its name. The rings keep the most recent items.

  For the instance service, \<open>Lifecycle\<close> is an abstract machine with one phase per thread;
  \<open>Instance_Refinement\<close> shows by simulation that every interleaving of the service refines it, and its invariants
  give: operations on an instance exclude each other, a lab in the middle of an operation always has a
  thread at work, no deadlock (\<open>Instance_Progress\<close>), and every operation ends (\<open>Instance_Service\<close>).
  \<open>Instance_Behaviour\<close> has the functional results of single operations and two ways in which the code fails:
  a destruction that comes too late, and a node that cannot be stopped. \<open>Instance_Runs\<close> evaluates concrete schedules
  for the witnesses.

  For sockets and shells, under all interleavings: only who passed the access check of a namespace receives
  anything from it, the output of a shell reaches its owner only, only members open shells and only owners write
  to them, and no session is forgotten. The backlog does not replace live messages exactly when a client connects
  while one is sent, and the limit of shells holds up to the calls in progress; runs that show both are evaluated.
  A command is answered at most once, with what the thread that began for it returned, and with commands around them
  the instance service and the shell service reach only states that each reaches alone (\<open>cmd_services\<close>). The dummy
  provider implements a specification of the states of nodes, stated as a locale, makes deployments end, and gives a node
  its container exactly while it is not stopped. The two samplers of statistics agree on the same files, all of which
  can be read. An inspection of a lab on Kubernetes shows the nodes scaled to zero, as stopping while they have a pod,
  and of the other nodes each pod that is not being terminated, if no two deployments are of the same node. A change of
  a pod or a deployment that is not reported would not have been seen by an inspection, unless a deployment scaled to
  zero was added or deleted (\<open>deleted_deployment_unreported\<close>). Removing the labels of a topology leaves everything else.
  The session of a shell in a pod can be closed twice, and the second time panics; captures may be closed again. A
  capture on containerlab leaves no thread in the namespace of a node, and its packet ring is released once and never
  while a read uses it.

  Over HTTP a request with a valid token makes exactly the changes of one call of a service and is answered with
  its error (\<open>http_refines_services\<close>), without a token only the public routes do anything, and an answer with status 403
  or a payload that cannot be read means that nothing was changed. Over SSH a session reaches only nodes of current
  instances and captures the interface its command names; captures are closed exactly once, whatever the order in
  which sessions leave and captures fail, and each session gets the packets of its interface in order.

  \<^bold>\<open>Conventions.\<close> A failing function returns \<open>Inl\<close> of a \<open>go_error\<close>, a panic or \<open>log.Fatal\<close> is \<open>None\<close>. The iteration
  order of a Go map is an argument, or the order of an association list. Times are nanoseconds as
  integers; the clock is a field of the world. Recursion over YAML nodes takes the number of nodes of
  the store as fuel, which is enough because a path without cycles visits each node once, and the
  theorem about renaming does not assume more than that the document is a finite tree with aliases.
  The loop of a listener that polls a node is the only one without a bound and is a loop of the step relation.

  \<^bold>\<open>Simplifications.\<close> \<open>ToLower\<close>, \<open>TrimSpace\<close> and quoting are those of Go on ASCII. A listener of a node that was found
  without a context goes on as if its context were never done, where \<open>context.WithTimeout\<close> would panic on nil. The
  instances are found again before the listener of the provider is registered, where the code starts with the
  listener. The streams of captures are known by the key of instance, node and interface, which is all that the code
  compares; the provider is called with the three. What \<open>Close\<close> does to the session of a shell is that of the
  provider, and the shell service counts the calls. The sampler that reads sections from a pod is compared on what
  its script prints when all files can be read and end in a line break.

  \<^bold>\<open>Not modelled.\<close> The start of the clients of Docker and Kubernetes and of the database, the flags and signals of
  \<open>main.go\<close>, which are input and output, the threads of the remote sampler of statistics, and the generated
  documentation (\<open>docs/docs.go\<close>). GORM, Gin, socket.io, the SSH library, JWT, bcrypt, the UUID library and the YAML and
  JSON parsers are third-party code and parameters.
\<close>

end
